(* ===== verification/Prelude.thy ===== *)
theory Prelude
  imports Main "HOL-Library.Sublist"
begin

text \<open>
  The shared vocabulary of the development.

  \<^item> Errors: the values that the TypeScript code throws. An \<open>AppError\<close> of
    \<^verbatim>\<open>src/errors/appError.ts\<close> carries its domain, its kind and the context fields that
    later code reads back; every other thrown object is kept as the fields that the error
    classifiers inspect.
  \<^item> Programs: an asynchronous function over the database is a state transformer that ends
    with a thrown error or with a value. State changes made before a throw persist, unless the
    function runs inside \<open>inTransaction\<close> of \<^verbatim>\<open>src/db/postgres.ts\<close>.
  \<^item> Tables: a PostgreSQL table is the list of its rows. The SQL statements that the program
    sends are written with the four operations below (select, update, conditional upsert,
    existence), so that each statement is one atomic step on the table.
\<close>

named_theorems prog_defs \<open>definitions of the program combinators\<close>
named_theorems table_simps \<open>facts about the table operations\<close>

subsection \<open>Decimal numerals\<close>

definition digit_char :: "nat \<Rightarrow> char" where
  "digit_char n = ''0123456789'' ! n"

fun nat_text :: "nat \<Rightarrow> string" where
  "nat_text n = (if n < 10 then [digit_char n] else nat_text (n div 10) @ [digit_char (n mod 10)])"

declare nat_text.simps [simp del]

lemma digit_char_table: "(n :: nat) < 10 \<Longrightarrow> n \<in> {0, 1, 2, 3, 4, 5, 6, 7, 8, 9}"
  by auto

lemma nat_text_induct [case_names digit more]:
  assumes "\<And>n. n < 10 \<Longrightarrow> P n" and "\<And>n. 10 \<le> n \<Longrightarrow> P (n div 10) \<Longrightarrow> P n"
  shows "P (n :: nat)"
proof (induction n rule: less_induct)
  case (less n)
  then show ?case using assms by (cases "n < 10") auto
qed

definition int_text :: "int \<Rightarrow> string" where
  "int_text n = (if n < 0 then CHR ''-'' # nat_text (nat (- n)) else nat_text (nat n))"

text \<open>Lower case, for the ASCII letters.\<close>

definition lower_char :: "char \<Rightarrow> char" where
  "lower_char c = (let n = (of_char c :: nat) in if 65 \<le> n \<and> n \<le> 90 then char_of (n + 32) else c)"

subsection \<open>JSON values and errors\<close>

datatype json =
    JNull
  | JBool bool
  | JNum int
  | JStr string
  | JArr "json list"
  | JObj "(string \<times> json) list"

record http_response =
  r_status :: "int option"
  r_not_accepted :: bool
  r_data_not_accepted :: bool

record foreign_error =
  fe_status :: "int option"
  fe_not_accepted :: bool
  fe_response :: "http_response option"
  fe_code :: "string option"

datatype js_error =
    AppError (err_domain: string) (err_kind: string) (err_context: "(string \<times> json) list")
  | ForeignError foreign_error
  | PlainError string

fun is_app_error :: "js_error \<Rightarrow> bool" where
  "is_app_error (AppError _ _ _) = True"
| "is_app_error _ = False"

definition to_app_error :: "string \<Rightarrow> string \<Rightarrow> js_error \<Rightarrow> js_error" where
  "to_app_error d k e = (if is_app_error e then e else AppError d k [])"

fun error_code :: "js_error \<Rightarrow> string" where
  "error_code (AppError d k _) = d @ ''.'' @ k"
| "error_code _ = []"

subsection \<open>Programs: state, and a thrown error or a value\<close>

type_synonym ('s, 'a) prog = "'s \<Rightarrow> (js_error + 'a) \<times> 's"

definition returnP :: "'a \<Rightarrow> ('s, 'a) prog" where
  "returnP x = (\<lambda>s. (Inr x, s))"

definition throwP :: "js_error \<Rightarrow> ('s, 'a) prog" where
  "throwP e = (\<lambda>s. (Inl e, s))"

definition bindP :: "('s, 'a) prog \<Rightarrow> ('a \<Rightarrow> ('s, 'b) prog) \<Rightarrow> ('s, 'b) prog" where
  "bindP m f = (\<lambda>s. case m s of (Inl e, s') \<Rightarrow> (Inl e, s') | (Inr x, s') \<Rightarrow> f x s')"

definition thenP :: "('s, 'a) prog \<Rightarrow> ('s, 'b) prog \<Rightarrow> ('s, 'b) prog" where
  "thenP m n = bindP m (\<lambda>_. n)"

definition catchP :: "('s, 'a) prog \<Rightarrow> (js_error \<Rightarrow> ('s, 'a) prog) \<Rightarrow> ('s, 'a) prog" where
  "catchP m h = (\<lambda>s. case m s of (Inl e, s') \<Rightarrow> h e s' | (Inr x, s') \<Rightarrow> (Inr x, s'))"

definition tryP :: "('s, 'a) prog \<Rightarrow> ('s, js_error + 'a) prog" where
  "tryP m = (\<lambda>s. (Inr (fst (m s)), snd (m s)))"

definition readP :: "('s \<Rightarrow> 'a) \<Rightarrow> ('s, 'a) prog" where
  "readP f = (\<lambda>s. (Inr (f s), s))"

definition stepP :: "('s \<Rightarrow> 'a \<times> 's) \<Rightarrow> ('s, 'a) prog" where
  "stepP f = (\<lambda>s. (Inr (fst (f s)), snd (f s)))"

definition whenP :: "bool \<Rightarrow> ('s, unit) prog \<Rightarrow> ('s, unit) prog" where
  "whenP b m = (if b then m else returnP ())"

text \<open>
  \<open>inTransaction\<close> commits the effects of a body that returns and rolls the effects of a body
  that throws back, rethrowing the error.
\<close>

definition in_transaction :: "('s, 'a) prog \<Rightarrow> ('s, 'a) prog" where
  "in_transaction m = (\<lambda>s. case m s of (Inl e, _) \<Rightarrow> (Inl e, s) | (Inr x, s') \<Rightarrow> (Inr x, s'))"

lemmas [prog_defs] =
  returnP_def throwP_def bindP_def thenP_def catchP_def tryP_def readP_def stepP_def whenP_def
  in_transaction_def

lemma bindP_Inr_iff:
  "bindP m f s = (Inr y, t) \<longleftrightarrow> (\<exists>x s'. m s = (Inr x, s') \<and> f x s' = (Inr y, t))"
  by (auto simp: bindP_def split: prod.splits sum.splits)

lemma bindP_Inl_iff:
  "bindP m f s = (Inl e, t) \<longleftrightarrow>
     m s = (Inl e, t) \<or> (\<exists>x s'. m s = (Inr x, s') \<and> f x s' = (Inl e, t))"
  by (auto simp: bindP_def split: prod.splits sum.splits)

lemma bindP_returnP [simp]: "bindP (returnP x) k = k x"
  by (simp add: bindP_def returnP_def)

lemma bindP_cong_result:
  "(\<And>x s'. m s = (Inr x, s') \<Longrightarrow> k1 x s' = k2 x s') \<Longrightarrow> bindP m k1 s = bindP m k2 s"
  by (cases "m s"; cases "fst (m s)") (auto simp: bindP_def)

lemma thenP_cong_result:
  "(\<And>x s'. m s = (Inr x, s') \<Longrightarrow> k1 s' = k2 s') \<Longrightarrow> thenP m k1 s = thenP m k2 s"
  unfolding thenP_def by (rule bindP_cong_result)

text \<open>A predicate on states that a program never breaks, whichever way it ends.\<close>

definition keeps :: "('s \<Rightarrow> bool) \<Rightarrow> ('s, 'a) prog \<Rightarrow> bool" where
  "keeps P m \<longleftrightarrow> (\<forall>s. P s \<longrightarrow> P (snd (m s)))"

lemma keepsD: "keeps P m \<Longrightarrow> P s \<Longrightarrow> P (snd (m s))"
  by (simp add: keeps_def)

lemma keeps_return [intro, simp]: "keeps P (returnP x)"
  by (simp add: keeps_def returnP_def)

lemma keeps_throw [intro, simp]: "keeps P (throwP e)"
  by (simp add: keeps_def throwP_def)

lemma keeps_read [intro, simp]: "keeps P (readP f)"
  by (simp add: keeps_def readP_def)

lemma keeps_step: "(\<And>s. P s \<Longrightarrow> P (snd (f s))) \<Longrightarrow> keeps P (stepP f)"
  by (simp add: keeps_def stepP_def)

lemma keeps_bind [intro]: "keeps P m \<Longrightarrow> (\<And>x. keeps P (f x)) \<Longrightarrow> keeps P (bindP m f)"
  unfolding keeps_def bindP_def
  by (auto split: prod.splits sum.splits)

lemma keeps_then [intro]: "keeps P m \<Longrightarrow> keeps P n \<Longrightarrow> keeps P (thenP m n)"
  by (auto simp: thenP_def)

lemma keeps_catch [intro]: "keeps P m \<Longrightarrow> (\<And>e. keeps P (h e)) \<Longrightarrow> keeps P (catchP m h)"
  unfolding keeps_def catchP_def
  by (auto split: prod.splits sum.splits)

lemma keeps_try [intro]: "keeps P m \<Longrightarrow> keeps P (tryP m)"
  by (simp add: keeps_def tryP_def)

lemma keeps_when [intro]: "keeps P m \<Longrightarrow> keeps P (whenP b m)"
  by (simp add: whenP_def)

lemma keeps_transaction [intro]: "keeps P m \<Longrightarrow> keeps P (in_transaction m)"
  unfolding keeps_def in_transaction_def
  by (auto split: prod.splits sum.splits)

text \<open>How far a program can raise a counter of the state.\<close>

definition rises :: "('s \<Rightarrow> nat) \<Rightarrow> nat \<Rightarrow> ('s, 'a) prog \<Rightarrow> bool" where
  "rises f n m \<longleftrightarrow> (\<forall>s. f (snd (m s)) \<le> f s + n)"

lemma risesD: "rises f n m \<Longrightarrow> f (snd (m s)) \<le> f s + n"
  by (simp add: rises_def)

lemma rises_le: "rises f a m \<Longrightarrow> a \<le> b \<Longrightarrow> rises f b m"
  unfolding rises_def by (meson add_left_mono order_trans)

lemma rises_keeps: "(\<And>c. keeps (\<lambda>s. f s = c) m) \<Longrightarrow> rises f 0 m"
  by (simp add: rises_def keeps_def)

lemma rises_return [intro, simp]: "rises f n (returnP x)"
  by (simp add: rises_def returnP_def)

lemma rises_throw [intro, simp]: "rises f n (throwP e)"
  by (simp add: rises_def throwP_def)

lemma rises_bind:
  assumes "rises f a m" and "\<And>x. rises f b (k x)"
  shows "rises f (a + b) (bindP m k)"
  unfolding rises_def
proof
  fix s
  obtain r t where m: "m s = (r, t)" by fastforce
  then have "f t \<le> f s + a" using risesD [OF assms(1), of s] by simp
  then show "f (snd (bindP m k s)) \<le> f s + (a + b)"
  proof (cases r)
    case (Inl e)
    with m \<open>f t \<le> f s + a\<close> show ?thesis by (simp add: bindP_def)
  next
    case (Inr x)
    with m \<open>f t \<le> f s + a\<close> risesD [OF assms(2), of x t] show ?thesis by (simp add: bindP_def)
  qed
qed

lemma rises_then: "rises f a m \<Longrightarrow> rises f b n \<Longrightarrow> rises f (a + b) (thenP m n)"
  unfolding thenP_def by (rule rises_bind)

lemma rises_try: "rises f a m \<Longrightarrow> rises f a (tryP m)"
  by (simp add: rises_def tryP_def)

lemma rises_catch:
  assumes "rises f a m" and "\<And>e. rises f b (h e)"
  shows "rises f (a + b) (catchP m h)"
  unfolding rises_def
proof
  fix s
  obtain r t where m: "m s = (r, t)" by fastforce
  then have "f t \<le> f s + a" using risesD [OF assms(1), of s] by simp
  then show "f (snd (catchP m h s)) \<le> f s + (a + b)"
  proof (cases r)
    case (Inl e)
    with m \<open>f t \<le> f s + a\<close> risesD [OF assms(2), of e t] show ?thesis by (simp add: catchP_def)
  next
    case (Inr x)
    with m \<open>f t \<le> f s + a\<close> show ?thesis by (simp add: catchP_def)
  qed
qed

text \<open>Programs that leave the counter alone compose to one that does.\<close>

lemma rises0_bind: "rises f 0 m \<Longrightarrow> (\<And>x. rises f n (k x)) \<Longrightarrow> rises f n (bindP m k)"
  using rises_bind [of f 0 m n k] by simp

lemma rises0_then: "rises f 0 m \<Longrightarrow> rises f n k \<Longrightarrow> rises f n (thenP m k)"
  unfolding thenP_def by (rule rises0_bind)

lemma rises0_bind_result:
  assumes "rises f 0 m" and "\<And>s x s'. m s = (Inr x, s') \<Longrightarrow> rises f n (k x)"
  shows "rises f n (bindP m k)"
  unfolding rises_def
proof
  fix s
  obtain r t where m: "m s = (r, t)" by fastforce
  then have le: "f t \<le> f s" using risesD [OF assms(1), of s] by simp
  show "f (snd (bindP m k s)) \<le> f s + n"
  proof (cases r)
    case (Inl e)
    with m le show ?thesis by (simp add: bindP_def)
  next
    case (Inr x)
    with m le risesD [OF assms(2), of s x t t] show ?thesis by (simp add: bindP_def)
  qed
qed

lemma rises0_catch: "rises f 0 m \<Longrightarrow> (\<And>e. rises f n (h e)) \<Longrightarrow> rises f n (catchP m h)"
  using rises_catch [of f 0 m n h] by simp

subsection \<open>Tables\<close>

definition select_where :: "('r \<Rightarrow> bool) \<Rightarrow> 'r list \<Rightarrow> 'r list" where
  "select_where p rows = filter p rows"

definition exists_where :: "('r \<Rightarrow> bool) \<Rightarrow> 'r list \<Rightarrow> bool" where
  "exists_where p rows = list_ex p rows"

definition update_where :: "('r \<Rightarrow> bool) \<Rightarrow> ('r \<Rightarrow> 'r) \<Rightarrow> 'r list \<Rightarrow> 'r list" where
  "update_where p f rows = map (\<lambda>r. if p r then f r else r) rows"

definition count_where :: "('r \<Rightarrow> bool) \<Rightarrow> 'r list \<Rightarrow> nat" where
  "count_where p rows = length (filter p rows)"

text \<open>
  \<open>INSERT ... ON CONFLICT (key) DO UPDATE SET ... WHERE guard RETURNING row\<close>: a row whose key
  is new is appended; on a conflict the stored row is updated when the guard holds and is left
  alone otherwise, and then no row is returned.
\<close>

definition upsert ::
  "('r \<Rightarrow> 'k) \<Rightarrow> 'r \<Rightarrow> ('r \<Rightarrow> bool) \<Rightarrow> ('r \<Rightarrow> 'r) \<Rightarrow> 'r list \<Rightarrow> 'r option \<times> 'r list" where
  "upsert key new guard upd rows =
     (case find (\<lambda>r. key r = key new) rows of
        None \<Rightarrow> (Some new, rows @ [new])
      | Some old \<Rightarrow>
          if guard old
          then (Some (upd old), update_where (\<lambda>r. key r = key new) upd rows)
          else (None, rows))"

definition uniq :: "('r \<Rightarrow> 'k) \<Rightarrow> 'r list \<Rightarrow> bool" where
  "uniq key rows \<longleftrightarrow> distinct (map key rows)"

definition row_at :: "('r \<Rightarrow> 'k) \<Rightarrow> 'k \<Rightarrow> 'r list \<Rightarrow> 'r option" where
  "row_at key k rows = find (\<lambda>r. key r = k) rows"

lemma exists_where_iff [table_simps]: "exists_where p rows \<longleftrightarrow> (\<exists>r \<in> set rows. p r)"
  by (simp add: exists_where_def list_ex_iff)

lemma set_update_where [table_simps]:
  "set (update_where p f rows) = (\<lambda>r. if p r then f r else r) ` set rows"
  by (simp add: update_where_def)

lemma length_update_where [simp]: "length (update_where p f rows) = length rows"
  by (simp add: update_where_def)

lemma update_where_Nil [simp]: "update_where p f [] = []"
  by (simp add: update_where_def)

lemma update_where_Cons [simp]:
  "update_where p f (r # rows) = (if p r then f r else r) # update_where p f rows"
  by (simp add: update_where_def)

lemma update_where_none: "(\<And>r. r \<in> set rows \<Longrightarrow> \<not> p r) \<Longrightarrow> update_where p f rows = rows"
  by (induction rows) auto

lemma count_where_zero_iff [table_simps]: "count_where p rows = 0 \<longleftrightarrow> (\<forall>r \<in> set rows. \<not> p r)"
  by (simp add: count_where_def filter_empty_conv)

lemma count_where_pos_iff [table_simps]: "0 < count_where p rows \<longleftrightarrow> (\<exists>r \<in> set rows. p r)"
  using count_where_zero_iff [of p rows] by auto

lemma count_where_mono: "(\<And>r. r \<in> set rows \<Longrightarrow> p r \<Longrightarrow> q r) \<Longrightarrow> count_where p rows \<le> count_where q rows"
  by (induction rows) (auto simp: count_where_def intro: le_SucI)

lemma count_where_less:
  assumes "\<And>r. r \<in> set rows \<Longrightarrow> p r \<Longrightarrow> q r" and "x \<in> set rows" and "q x" and "\<not> p x"
  shows "count_where p rows < count_where q rows"
  using assms
proof (induction rows)
  case Nil
  then show ?case by simp
next
  case (Cons r rows)
  have le: "count_where p rows \<le> count_where q rows"
    using Cons.prems(1) by (intro count_where_mono) auto
  show ?case
  proof (cases "x \<in> set rows")
    case True
    with Cons.IH Cons.prems have "count_where p rows < count_where q rows" by auto
    with Cons.prems(1) show ?thesis by (auto simp: count_where_def)
  next
    case False
    with Cons.prems have "x = r" by simp
    with Cons.prems le show ?thesis by (auto simp: count_where_def)
  qed
qed

lemma map_key_update_where:
  assumes "\<And>r. p r \<Longrightarrow> key (f r) = key r"
  shows "map key (update_where p f rows) = map key rows"
  using assms by (induction rows) auto

lemma uniq_update_where:
  assumes "uniq key rows" and "\<And>r. p r \<Longrightarrow> key (f r) = key r"
  shows "uniq key (update_where p f rows)"
  using assms by (simp add: uniq_def map_key_update_where)

lemma row_at_None_iff: "row_at key k rows = None \<longleftrightarrow> (\<forall>r \<in> set rows. key r \<noteq> k)"
  by (auto simp: row_at_def find_None_iff)

lemma row_at_SomeD: "row_at key k rows = Some r \<Longrightarrow> r \<in> set rows \<and> key r = k"
  by (auto simp: row_at_def find_Some_iff)

lemma find_filter: "find p xs = (case filter p xs of [] \<Rightarrow> None | x # _ \<Rightarrow> Some x)"
  by (induction xs) auto

lemma find_append: "find p (xs @ ys) = (case find p xs of None \<Rightarrow> find p ys | Some x \<Rightarrow> Some x)"
  by (induction xs) auto

lemma row_at_Cons: "row_at key k (r # rows) = (if key r = k then Some r else row_at key k rows)"
  by (simp add: row_at_def)

lemma row_at_Nil: "row_at key k [] = None"
  by (simp add: row_at_def)

lemmas row_at_simps [table_simps] = row_at_Nil row_at_Cons

lemma row_at_append:
  "row_at key k (xs @ ys) = (case row_at key k xs of None \<Rightarrow> row_at key k ys | Some r \<Rightarrow> Some r)"
  by (induction xs) (auto simp: row_at_simps)

lemma uniq_row_at:
  assumes "uniq key rows" and "r \<in> set rows"
  shows "row_at key (key r) rows = Some r"
  using assms by (induction rows) (auto simp: uniq_def row_at_simps)

lemma row_at_update_where:
  assumes "\<And>r. p r \<Longrightarrow> key (f r) = key r"
  shows "row_at key k (update_where p f rows) =
    map_option (\<lambda>r. if p r then f r else r) (row_at key k rows)"
  using assms by (induction rows) (auto simp: row_at_simps)

lemma sum_update_where:
  fixes g :: "'r \<Rightarrow> int"
  assumes "uniq key rows" and "row_at key k rows = Some r"
  shows "sum_list (map g (update_where (\<lambda>x. key x = k) f rows)) = sum_list (map g rows) - g r + g (f r)"
  using assms
proof (induction rows)
  case Nil
  then show ?case by (simp add: row_at_simps)
next
  case (Cons x rows)
  show ?case
  proof (cases "key x = k")
    case True
    then have "update_where (\<lambda>x. key x = k) f rows = rows"
      using Cons.prems(1) by (intro update_where_none) (metis distinct.simps(2) image_eqI list.set_map list.simps(9) uniq_def)
    with True Cons.prems(2) show ?thesis by (simp add: row_at_simps)
  next
    case False
    with Cons show ?thesis by (simp add: row_at_simps uniq_def)
  qed
qed

lemma uniq_append_new:
  assumes "uniq key rows" and "row_at key (key new) rows = None"
  shows "uniq key (rows @ [new])"
  using assms by (auto simp: uniq_def row_at_None_iff)

lemma filter_key:
  assumes "uniq key rows"
  shows "filter (\<lambda>r. key r = k \<and> Q r) rows =
    (case row_at key k rows of None \<Rightarrow> [] | Some r \<Rightarrow> if Q r then [r] else [])"
  using assms
proof (induction rows)
  case Nil
  then show ?case by (simp add: row_at_simps)
next
  case (Cons r rows)
  then have "uniq key rows" by (simp add: uniq_def)
  moreover have "key r = k \<Longrightarrow> filter (\<lambda>r. key r = k \<and> Q r) rows = []"
    using Cons.prems by (auto simp: uniq_def filter_empty_conv) (metis image_eqI)
  ultimately show ?case using Cons.IH by (auto simp: row_at_simps)
qed

text \<open>The cases of an upsert, in terms of the row stored under the key.\<close>

lemma upsert_cases [consumes 1, case_names Insert Update Reject]:
  assumes "upsert key new guard upd rows = (res, rows')"
  obtains (Insert) "row_at key (key new) rows = None" "res = Some new" "rows' = rows @ [new]"
    | (Update) old where "row_at key (key new) rows = Some old" "guard old" "res = Some (upd old)"
        "rows' = update_where (\<lambda>r. key r = key new) upd rows"
    | (Reject) old where "row_at key (key new) rows = Some old" "\<not> guard old" "res = None"
        "rows' = rows"
  using assms
  by (auto simp: upsert_def row_at_def split: option.splits if_splits)

lemma uniq_upsert:
  assumes "uniq key rows" and "\<And>r. key r = key new \<Longrightarrow> key (upd r) = key r"
    and "upsert key new guard upd rows = (res, rows')"
  shows "uniq key rows'"
  using assms(3)
proof (cases rule: upsert_cases)
  case Insert
  with assms(1) show ?thesis by (simp add: uniq_append_new)
next
  case (Update old)
  show ?thesis unfolding Update(4) using assms(1,2) by (rule uniq_update_where)
next
  case (Reject old)
  with assms(1) show ?thesis by simp
qed

lemma row_at_upsert_other:
  assumes "upsert key new guard upd rows = (res, rows')" and "k \<noteq> key new"
    and "\<And>r. key r = key new \<Longrightarrow> key (upd r) = key r"
  shows "row_at key k rows' = row_at key k rows"
  using assms(1)
proof (cases rule: upsert_cases)
  case Insert
  with assms(2) show ?thesis
    by (auto simp: row_at_append row_at_simps split: option.splits)
next
  case (Update old)
  have "row_at key k rows' = map_option (\<lambda>r. if key r = key new then upd r else r) (row_at key k rows)"
    unfolding Update(4) using assms(3) by (rule row_at_update_where)
  also have "\<dots> = row_at key k rows"
    using assms(2) by (cases "row_at key k rows") (auto dest: row_at_SomeD)
  finally show ?thesis .
next
  case (Reject old)
  then show ?thesis by simp
qed

lemma row_at_upsert_same:
  assumes "upsert key new guard upd rows = (Some r, rows')"
    and "\<And>r. key r = key new \<Longrightarrow> key (upd r) = key r"
  shows "row_at key (key new) rows' = Some r"
  using assms(1)
proof (cases rule: upsert_cases)
  case Insert
  then show ?thesis by (simp add: row_at_append row_at_simps)
next
  case (Update old)
  have "row_at key (key new) rows' =
      map_option (\<lambda>r. if key r = key new then upd r else r) (row_at key (key new) rows)"
    unfolding Update(4) using assms(2) by (rule row_at_update_where)
  with Update show ?thesis by (auto dest: row_at_SomeD)
next
  case (Reject old)
  then show ?thesis by simp
qed

subsection \<open>Operations that all keep an invariant\<close>

text \<open>
  The contract that every stateful component below offers its clients: one function that
  performs an operation, the operations that clients may send, and an invariant that none of
  them breaks. The client then has the invariant after any sequence of operations.
\<close>

locale invariant_machine =
  fixes step :: "'op \<Rightarrow> 's \<Rightarrow> 's"
    and ok_op :: "'op \<Rightarrow> bool"
    and inv :: "'s \<Rightarrow> bool"
  assumes inv_step: "inv s \<Longrightarrow> ok_op x \<Longrightarrow> inv (step x s)"
begin

lemma inv_run: "inv s \<Longrightarrow> \<forall>x \<in> set xs. ok_op x \<Longrightarrow> inv (fold step xs s)"
  by (induction xs arbitrary: s) (auto intro: inv_step)

end

text \<open>A quantity that no operation decreases while the invariant holds.\<close>

locale monotone_machine = invariant_machine step ok_op inv
  for step :: "'op \<Rightarrow> 's \<Rightarrow> 's" and ok_op :: "'op \<Rightarrow> bool" and inv :: "'s \<Rightarrow> bool" +
  fixes level :: "'k \<Rightarrow> 's \<Rightarrow> int"
  assumes level_step: "inv s \<Longrightarrow> ok_op x \<Longrightarrow> level k s \<le> level k (step x s)"
begin

lemma level_run:
  assumes "inv s" and "\<forall>x \<in> set xs. ok_op x"
  shows "level k s \<le> level k (fold step xs s)"
  using assms
proof (induction xs arbitrary: s)
  case Nil
  then show ?case by simp
next
  case (Cons x xs)
  then have "level k (step x s) \<le> level k (fold step xs (step x s))"
    by (auto intro: inv_step)
  with level_step [of s x k] Cons.prems show ?case by (auto intro: order_trans)
qed

end

subsection \<open>Folds\<close>

lemma fold_keeps: "P s \<Longrightarrow> (\<And>x s. P s \<Longrightarrow> P (f x s)) \<Longrightarrow> P (fold f xs s)"
  by (induction xs arbitrary: s) simp_all

subsection \<open>Chains of pointers\<close>

definition points :: "('k \<Rightarrow> 'k option) \<Rightarrow> ('k \<times> 'k) set" where
  "points next = {(x, y). next x = Some y}"

lemma points_cycle:
  assumes "(x, x) \<in> (points next)\<^sup>+" and "(x, c) \<in> (points next)\<^sup>*"
  shows "next c \<noteq> None"
proof -
  have "(c, x) \<in> (points next)\<^sup>+"
    using assms(2)
  proof (induction rule: rtrancl_induct)
    case base
    then show ?case using assms(1) .
  next
    case (step y z)
    then obtain w where "(y, w) \<in> points next" "(w, x) \<in> (points next)\<^sup>*" by (meson tranclD)
    moreover have "w = z" using calculation(1) step(2) by (simp add: points_def)
    ultimately show ?case using assms(1) by (simp add: rtrancl_into_trancl1 rtrancl_trancl_trancl)
  qed
  then show ?thesis by (auto simp: points_def dest: tranclD)
qed

text \<open>
  A walk along the pointers that remembers where it has been. It stops at the end of the chain, which
  counts when \<open>ends\<close> holds for it, and gives up when it meets an element again.
\<close>

locale pointer_walk =
  fixes "next" :: "'k \<Rightarrow> 'k option" and ends :: "'k \<Rightarrow> bool" and walk :: "'k list \<Rightarrow> 'k \<Rightarrow> 'k option"
  assumes finite_chain: "finite (dom next)"
    and walk_step: "walk seen i =
      (if i \<in> set seen then None
       else case next i of None \<Rightarrow> if ends i then Some i else None | Some n \<Rightarrow> walk (i # seen) n)"
begin

lemma walk_induct [case_names Step]:
  assumes "\<And>seen i. (\<And>n. i \<notin> set seen \<Longrightarrow> next i = Some n \<Longrightarrow> P (i # seen) n) \<Longrightarrow> P seen i"
  shows "P seen i"
proof (induction "card (dom next - set seen)" arbitrary: seen i rule: less_induct)
  case (less seen i)
  show ?case
  proof (rule assms)
    fix n
    assume i: "i \<notin> set seen" "next i = Some n"
    then have "dom next - set (i # seen) \<subset> dom next - set seen" by auto
    then have "card (dom next - set (i # seen)) < card (dom next - set seen)"
      by (intro psubset_card_mono) (simp_all add: finite_chain)
    then show "P (i # seen) n" by (rule less.hyps)
  qed
qed

lemma walk_sound:
  "walk seen i = Some c \<Longrightarrow> (i, c) \<in> (points next)\<^sup>* \<and> next c = None \<and> ends c"
proof (induction seen i rule: walk_induct)
  case (Step seen i)
  then have new: "i \<notin> set seen" by (metis option.distinct(1) walk_step)
  show ?case
  proof (cases "next i")
    case None
    then show ?thesis using Step.prems new by (subst (asm) walk_step) (auto split: if_splits)
  next
    case (Some n)
    then have "walk (i # seen) n = Some c" using Step.prems new by (subst (asm) walk_step) simp
    then have "(n, c) \<in> (points next)\<^sup>* \<and> next c = None \<and> ends c" using Step.IH new Some by blast
    moreover have "(i, n) \<in> points next" using Some by (simp add: points_def)
    ultimately show ?thesis by (auto intro: converse_rtrancl_into_rtrancl)
  qed
qed

lemma walk_complete:
  "\<forall>s \<in> set seen. (s, i) \<in> (points next)\<^sup>+ \<Longrightarrow> (i, c) \<in> (points next)\<^sup>* \<Longrightarrow> next c = None \<Longrightarrow> ends c \<Longrightarrow>
     walk seen i = Some c"
proof (induction seen i rule: walk_induct)
  case (Step seen i)
  have new: "i \<notin> set seen" using points_cycle [OF _ Step.prems(2)] Step.prems(1,3) by auto
  show ?case
  proof (cases "next i")
    case None
    have "i = c" using Step.prems(2) None by (cases rule: converse_rtranclE) (auto simp: points_def)
    then show ?thesis using None new Step.prems(4) by (subst walk_step) simp
  next
    case (Some n)
    then have step: "(i, n) \<in> points next" by (simp add: points_def)
    have "(n, c) \<in> (points next)\<^sup>*"
      using Step.prems(2,3) Some by (cases rule: converse_rtranclE) (auto simp: points_def)
    moreover have "\<forall>s \<in> set (i # seen). (s, n) \<in> (points next)\<^sup>+"
      using Step.prems(1) step by (auto intro: trancl_into_trancl)
    ultimately have "walk (i # seen) n = Some c" using Step.IH [OF new Some] Step.prems(3,4) by blast
    then show ?thesis using Some new by (subst walk_step) simp
  qed
qed

lemma walk_iff: "walk [] i = Some c \<longleftrightarrow> (i, c) \<in> (points next)\<^sup>* \<and> next c = None \<and> ends c"
  using walk_sound walk_complete [of "[]"] by auto

end

end
