(* ===== verification/Database.thy ===== *)
theory Database
  imports Prelude
begin

text \<open>
  The durable state of \<^verbatim>\<open>src/agentWork\<close>: the rows of the tables
  \<^verbatim>\<open>pr_actor_leases\<close>, \<^verbatim>\<open>agent_work_items\<close>, \<^verbatim>\<open>operation_intents\<close> and
  \<^verbatim>\<open>publish_records\<close>, the jobs that the queue holds, and the clock that \<open>now()\<close> reads.

  A timestamp is an integer number of microseconds (the resolution of \<^verbatim>\<open>timestamptz\<close>), a
  \<^verbatim>\<open>bigint\<close> is an integer, a \<^verbatim>\<open>jsonb\<close> object is a finite map from keys to JSON values,
  and \<^verbatim>\<open>a || b\<close> on two objects is the map update \<open>a ++ b\<close>.
\<close>

type_synonym time = int
type_synonym item_id = string

abbreviation seconds :: "int \<Rightarrow> time" where
  "seconds n \<equiv> n * 1000000"

datatype work_type = Review | Ask | Description | Triage | Verification

datatype work_status = Queued | Running | Superseded | Cancelled | Completed | Failed

datatype work_source = Auto | Slash

type_synonym detail = "string \<rightharpoonup> json"

record lease_row =
  l_resource_key :: string
  l_work_type :: work_type
  l_lease_epoch :: int
  l_work_item_id :: "item_id option"
  l_holder_id :: "string option"
  l_acquired_at :: time
  l_renewed_at :: time
  l_expires_at :: time

type_synonym lease_key = "string \<times> work_type"

definition lease_key :: "lease_row \<Rightarrow> lease_key" where
  "lease_key l = (l_resource_key l, l_work_type l)"

record work_item =
  w_id :: item_id
  w_type :: work_type
  w_source :: work_source
  w_status :: work_status
  w_head_sha :: string
  w_review_lens :: "string option"
  w_resource_key :: string
  w_attempt_count :: int
  w_payload :: detail
  w_cancel_requested_at :: "time option"
  w_execution_epoch :: int
  w_last_error :: "string option"
  w_created_at :: time
  w_started_at :: "time option"
  w_completed_at :: "time option"
  w_updated_at :: time

datatype intent_status = Pending | Reconciled | IntentFailed | OutcomeUnknown

record operation_intent =
  oi_work_item_id :: item_id
  oi_operation_key :: string
  oi_mutation_kind :: string
  oi_status :: intent_status
  oi_publish_record_id :: "string option"
  oi_lease_epoch :: "int option"
  oi_detail :: detail
  oi_created_at :: time
  oi_reconciled_at :: "time option"

definition intent_key :: "operation_intent \<Rightarrow> item_id \<times> string" where
  "intent_key i = (oi_work_item_id i, oi_operation_key i)"

datatype publish_step =
    ProgressComment | InlineReview | SummaryComment | SummaryCommentClaim | CheckRunStep | LabelsStep
  | PrBody | AskReply | TriagePush | TriageThreadActions | TriageReport | TriagePreview
  | VerificationThreadActions | CiCell | CommitStatus | VerificationFailure

datatype record_status = RecordPending | RecordCompleted | RecordFailed

record publish_record =
  pr_id :: string
  pr_work_item_id :: item_id
  pr_resource_key :: string
  pr_review_lens :: string
  pr_step :: publish_step
  pr_github_id :: "string option"
  pr_status :: record_status
  pr_lease_epoch :: "int option"
  pr_detail :: detail
  pr_updated_at :: time

datatype job_state = Created | Retry | Active | JobCompleted | JobFailed | JobCancelled

record queue_job =
  j_id :: string
  j_name :: string
  j_state :: job_state
  j_singleton_key :: "string option"
  j_singleton_on :: "time option"
  j_work_item_id :: "item_id option"

record db =
  now :: time
  leases :: "lease_row list"
  items :: "work_item list"
  intents :: "operation_intent list"
  records :: "publish_record list"
  jobs :: "queue_job list"

text \<open>The primary keys and the unique constraints of the migrations.\<close>

definition db_keys :: "db \<Rightarrow> bool" where
  "db_keys d \<longleftrightarrow> uniq lease_key (leases d) \<and> uniq w_id (items d) \<and> uniq intent_key (intents d)"

definition item_at :: "db \<Rightarrow> item_id \<Rightarrow> work_item option" where
  "item_at d i = row_at w_id i (items d)"

definition lease_at :: "db \<Rightarrow> lease_key \<Rightarrow> lease_row option" where
  "lease_at d k = row_at lease_key k (leases d)"

definition intent_at :: "db \<Rightarrow> item_id \<Rightarrow> string \<Rightarrow> operation_intent option" where
  "intent_at d i k = row_at intent_key (i, k) (intents d)"

text \<open>Advancing the clock is the one step that no statement of the program performs.\<close>

definition tick :: "int \<Rightarrow> db \<Rightarrow> db" where
  "tick n d = d\<lparr>now := now d + \<bar>n\<bar>\<rparr>"

lemma tick_simps [simp]:
  "leases (tick n d) = leases d" "items (tick n d) = items d" "intents (tick n d) = intents d"
  "records (tick n d) = records d" "jobs (tick n d) = jobs d"
  by (simp_all add: tick_def)

lemma tick_now: "now d \<le> now (tick n d)"
  by (simp add: tick_def)

subsection \<open>Sample rows, on which the properties are evaluated\<close>

definition sample_item :: "string \<Rightarrow> work_status \<Rightarrow> work_item" where
  "sample_item i s = \<lparr>w_id = i, w_type = Review, w_source = Slash, w_status = s, w_head_sha = ''abc'',
     w_review_lens = Some ''review'', w_resource_key = ''r/1'', w_attempt_count = 1,
     w_payload = (\<lambda>_. None), w_cancel_requested_at = None, w_execution_epoch = 2,
     w_last_error = None, w_created_at = 5, w_started_at = Some 6, w_completed_at = None,
     w_updated_at = 7\<rparr>"

definition sample_db :: "work_item list \<Rightarrow> lease_row list \<Rightarrow> db" where
  "sample_db ws ls = \<lparr>now = 100, leases = ls, items = ws, intents = [], records = [], jobs = []\<rparr>"

definition sample_lease :: "item_id \<Rightarrow> int \<Rightarrow> time \<Rightarrow> lease_row" where
  "sample_lease i e t = \<lparr>l_resource_key = ''r/1'', l_work_type = Review, l_lease_epoch = e,
     l_work_item_id = Some i, l_holder_id = Some ''h'', l_acquired_at = 1, l_renewed_at = 1,
     l_expires_at = t\<rparr>"

lemmas sample_defs = sample_item_def sample_db_def sample_lease_def

end
