(* ===== verification/Lease.thy ===== *)
theory Lease
  imports Database
begin

text \<open>
  The PR actor lease of \<^verbatim>\<open>src/agentWork/prActorLease.ts\<close>: one row per resource key and
  work type, taken by a conditional upsert that increments the row's epoch, renewed and released
  under that epoch, and cleared by the cancel and supersede paths. Each definition is one SQL
  statement of the file, run at the instant \<open>now d\<close>.

  The lemmas show the keys of the table, the epochs and the owners of the rows that every
  statement keeps, and, from these, the fencing law: once an epoch has been passed on a key, no
  later sequence of statements makes an execution with the old epoch the holder again.
\<close>

subsection \<open>The statements\<close>

datatype lease_acquisition =
    LeaseAcquired int
  | LeaseUnavailable "item_id option" int

definition lease_takeable :: "time \<Rightarrow> lease_row \<Rightarrow> bool" where
  "lease_takeable t l \<longleftrightarrow> l_work_item_id l = None \<or> l_expires_at l \<le> t"

definition acquire_pr_actor_lease ::
  "lease_key \<Rightarrow> item_id \<Rightarrow> string \<Rightarrow> int \<Rightarrow> db \<Rightarrow> lease_acquisition \<times> db" where
  "acquire_pr_actor_lease k w h ttl d =
     (let fresh = \<lparr>l_resource_key = fst k, l_work_type = snd k, l_lease_epoch = 1,
                   l_work_item_id = Some w, l_holder_id = Some h, l_acquired_at = now d,
                   l_renewed_at = now d, l_expires_at = now d + seconds ttl\<rparr>;
          take = (\<lambda>l. l\<lparr>l_lease_epoch := l_lease_epoch l + 1, l_work_item_id := Some w,
                        l_holder_id := Some h, l_acquired_at := now d, l_renewed_at := now d,
                        l_expires_at := now d + seconds ttl\<rparr>)
      in case upsert lease_key fresh (lease_takeable (now d)) take (leases d) of
           (Some l, ls) \<Rightarrow> (LeaseAcquired (l_lease_epoch l), d\<lparr>leases := ls\<rparr>)
         | (None, _) \<Rightarrow>
             (case lease_at d k of
                None \<Rightarrow> (LeaseUnavailable None 0, d)
              | Some l \<Rightarrow> (LeaseUnavailable (l_work_item_id l) (l_lease_epoch l), d)))"

definition renews :: "lease_key \<Rightarrow> int \<Rightarrow> item_id \<Rightarrow> lease_row \<Rightarrow> bool" where
  "renews k e w l \<longleftrightarrow> lease_key l = k \<and> l_lease_epoch l = e \<and> l_work_item_id l = Some w"

definition renew_pr_actor_lease ::
  "lease_key \<Rightarrow> int \<Rightarrow> int \<Rightarrow> item_id \<Rightarrow> db \<Rightarrow> bool \<times> db" where
  "renew_pr_actor_lease k e ttl w d =
     (0 < count_where (renews k e w) (leases d),
      d\<lparr>leases := update_where (renews k e w)
          (\<lambda>l. l\<lparr>l_renewed_at := now d, l_expires_at := now d + seconds ttl\<rparr>) (leases d)\<rparr>)"

definition clear_holder :: "time \<Rightarrow> lease_row \<Rightarrow> lease_row" where
  "clear_holder t l = l\<lparr>l_work_item_id := None, l_holder_id := None, l_expires_at := t\<rparr>"

definition held_by_one_of :: "lease_key \<Rightarrow> (item_id \<times> int) list \<Rightarrow> lease_row \<Rightarrow> bool" where
  "held_by_one_of k hs l \<longleftrightarrow>
     lease_key l = k \<and> list_ex (\<lambda>(w, e). l_work_item_id l = Some w \<and> l_lease_epoch l = e) hs"

definition release_pr_actor_lease_held_by_work_items ::
  "lease_key \<Rightarrow> (item_id \<times> int) list \<Rightarrow> db \<Rightarrow> db" where
  "release_pr_actor_lease_held_by_work_items k hs d =
     (if hs = [] then d
      else d\<lparr>leases := update_where (held_by_one_of k hs) (clear_holder (now d)) (leases d)\<rparr>)"

definition release_pr_actor_lease :: "lease_key \<Rightarrow> int \<Rightarrow> db \<Rightarrow> db" where
  "release_pr_actor_lease k e d =
     d\<lparr>leases := update_where (\<lambda>l. lease_key l = k \<and> l_lease_epoch l = e)
         (clear_holder (now d)) (leases d)\<rparr>"

definition holds_lease :: "time \<Rightarrow> item_id \<Rightarrow> int \<Rightarrow> lease_row \<Rightarrow> bool" where
  "holds_lease t w e l \<longleftrightarrow> l_work_item_id l = Some w \<and> l_lease_epoch l = e \<and> t < l_expires_at l"

definition is_pr_actor_lease_held :: "db \<Rightarrow> item_id \<Rightarrow> int \<Rightarrow> bool" where
  "is_pr_actor_lease_held d w e \<longleftrightarrow> exists_where (holds_lease (now d) w e) (leases d)"

definition lease_lost :: js_error where
  "lease_lost = AppError ''agent_work'' ''pr_actor_lease_lost'' []"

definition assert_pr_actor_lease_held :: "item_id \<Rightarrow> int \<Rightarrow> (db, unit) prog" where
  "assert_pr_actor_lease_held w e =
     bindP (readP (\<lambda>d. is_pr_actor_lease_held d w e))
       (\<lambda>held. if held then returnP () else throwP lease_lost)"

text \<open>
  \<open>SELECT ... FOR UPDATE\<close> reads the same row and locks it for the rest of the transaction; a
  transaction body is one atomic step of the model, so the lock adds nothing to the read.
\<close>

definition lock_pr_actor_lease_for_update :: "item_id \<Rightarrow> int \<Rightarrow> (db, unit) prog" where
  "lock_pr_actor_lease_for_update w e =
     bindP (readP (\<lambda>d. exists_where (holds_lease (now d) w e) (leases d)))
       (\<lambda>row. if row then returnP () else throwP lease_lost)"

subsection \<open>The fence of other statements\<close>

text \<open>\<open>leaseFenceSql\<close> of \<^verbatim>\<open>src/agentWork/workItemTransitions.ts\<close>.\<close>

definition lease_fence_sql :: "db \<Rightarrow> item_id \<Rightarrow> int option \<Rightarrow> bool" where
  "lease_fence_sql d w e \<longleftrightarrow>
     (case e of None \<Rightarrow> True | Some n \<Rightarrow> exists_where (holds_lease (now d) w n) (leases d))"

datatype write_fence = LeaseFence int | Unleased

fun epoch_of :: "write_fence \<Rightarrow> int option" where
  "epoch_of (LeaseFence e) = Some e"
| "epoch_of Unleased = None"

fun fence_for_epoch :: "int option \<Rightarrow> write_fence" where
  "fence_for_epoch (Some e) = LeaseFence e"
| "fence_for_epoch None = Unleased"

definition unleased_work_types :: "work_type list" where
  "unleased_work_types = [Ask]"

definition lease_binding :: "work_type \<Rightarrow> string \<Rightarrow> string option" where
  "lease_binding t queue = (if t \<in> set unleased_work_types then None else Some queue)"

text \<open>
  \<open>fencedWrite\<close>: \<open>held e\<close> is the assertion that the work item holds the lease under \<open>e\<close>.
\<close>

definition fenced_write ::
  "(int \<Rightarrow> ('s, unit) prog) \<Rightarrow> int option \<Rightarrow> bool \<Rightarrow> ('a \<Rightarrow> bool) \<Rightarrow> ('s, 'a) prog \<Rightarrow> ('s, 'a) prog" where
  "fenced_write held epoch before rejected write =
     thenP (case epoch of Some e \<Rightarrow> whenP before (held e) | None \<Rightarrow> returnP ())
       (bindP write (\<lambda>result.
          thenP (case epoch of Some e \<Rightarrow> whenP (rejected result) (held e) | None \<Rightarrow> returnP ())
            (returnP result)))"

subsection \<open>Sequences of statements\<close>

datatype lease_op =
    Acquire lease_key item_id string int
  | Renew lease_key int int item_id
  | ReleaseHeldBy lease_key "(item_id \<times> int) list"
  | Release lease_key int
  | Tick int

fun lease_step :: "lease_op \<Rightarrow> db \<Rightarrow> db" where
  "lease_step (Acquire k w h ttl) d = snd (acquire_pr_actor_lease k w h ttl d)"
| "lease_step (Renew k e ttl w) d = snd (renew_pr_actor_lease k e ttl w d)"
| "lease_step (ReleaseHeldBy k hs) d = release_pr_actor_lease_held_by_work_items k hs d"
| "lease_step (Release k e) d = release_pr_actor_lease k e d"
| "lease_step (Tick n) d = tick n d"

definition epoch_at :: "db \<Rightarrow> lease_key \<Rightarrow> int" where
  "epoch_at d k = (case lease_at d k of None \<Rightarrow> 0 | Some l \<Rightarrow> l_lease_epoch l)"

text \<open>
  A work item has one resource key and one type, so every acquire for it names the same key:
  \<open>key_of w\<close>. The table then never holds a row that names a work item under a foreign key.
\<close>

definition lease_owned :: "(item_id \<Rightarrow> lease_key) \<Rightarrow> db \<Rightarrow> bool" where
  "lease_owned key_of d \<longleftrightarrow> uniq lease_key (leases d) \<and>
     (\<forall>l \<in> set (leases d). 1 \<le> l_lease_epoch l) \<and>
     (\<forall>l \<in> set (leases d). \<forall>w. l_work_item_id l = Some w \<longrightarrow> key_of w = lease_key l)"

fun lease_op_ok :: "(item_id \<Rightarrow> lease_key) \<Rightarrow> lease_op \<Rightarrow> bool" where
  "lease_op_ok key_of (Acquire k w h ttl) \<longleftrightarrow> key_of w = k"
| "lease_op_ok key_of _ \<longleftrightarrow> True"

subsection \<open>What each statement does to the rows\<close>

lemma lease_key_update [simp]:
  "lease_key (l\<lparr>l_lease_epoch := e\<rparr>) = lease_key l"
  "lease_key (l\<lparr>l_work_item_id := i\<rparr>) = lease_key l"
  "lease_key (l\<lparr>l_holder_id := h\<rparr>) = lease_key l"
  "lease_key (l\<lparr>l_acquired_at := t\<rparr>) = lease_key l"
  "lease_key (l\<lparr>l_renewed_at := t\<rparr>) = lease_key l"
  "lease_key (l\<lparr>l_expires_at := t\<rparr>) = lease_key l"
  by (simp_all add: lease_key_def)

lemma lease_key_clear [simp]: "lease_key (clear_holder t l) = lease_key l"
  by (simp add: clear_holder_def)

lemma epoch_clear [simp]: "l_lease_epoch (clear_holder t l) = l_lease_epoch l"
  by (simp add: clear_holder_def)

lemma holder_clear [simp]: "l_work_item_id (clear_holder t l) = None"
  by (simp add: clear_holder_def)

lemma acquire_cases [consumes 1, case_names New Taken Refused]:
  assumes "acquire_pr_actor_lease k w h ttl d = (r, d')"
  obtains (New) l where "lease_at d k = None" "r = LeaseAcquired 1"
      "d' = d\<lparr>leases := leases d @ [l]\<rparr>" "lease_key l = k" "l_lease_epoch l = 1"
      "l_work_item_id l = Some w" "l_expires_at l = now d + seconds ttl"
    | (Taken) old where "lease_at d k = Some old" "lease_takeable (now d) old"
      "r = LeaseAcquired (l_lease_epoch old + 1)"
      "d' = d\<lparr>leases := update_where (\<lambda>l. lease_key l = k)
         (\<lambda>l. l\<lparr>l_lease_epoch := l_lease_epoch l + 1, l_work_item_id := Some w,
                l_holder_id := Some h, l_acquired_at := now d, l_renewed_at := now d,
                l_expires_at := now d + seconds ttl\<rparr>) (leases d)\<rparr>"
    | (Refused) old where "lease_at d k = Some old" "\<not> lease_takeable (now d) old"
      "r = LeaseUnavailable (l_work_item_id old) (l_lease_epoch old)" "d' = d"
proof -
  let ?fresh = "\<lparr>l_resource_key = fst k, l_work_type = snd k, l_lease_epoch = 1,
                 l_work_item_id = Some w, l_holder_id = Some h, l_acquired_at = now d,
                 l_renewed_at = now d, l_expires_at = now d + seconds ttl\<rparr>"
  let ?take = "\<lambda>l. l\<lparr>l_lease_epoch := l_lease_epoch l + 1, l_work_item_id := Some w,
                l_holder_id := Some h, l_acquired_at := now d, l_renewed_at := now d,
                l_expires_at := now d + seconds ttl\<rparr>"
  obtain res ls where u: "upsert lease_key ?fresh (lease_takeable (now d)) ?take (leases d) = (res, ls)"
    by (meson surj_pair)
  have key: "lease_key ?fresh = k" by (simp add: lease_key_def)
  from u show thesis
  proof (cases rule: upsert_cases)
    case Insert
    with assms u key show thesis
      by (intro New [of ?fresh]) (auto simp: acquire_pr_actor_lease_def lease_at_def)
  next
    case (Update old)
    with assms u key show thesis
      by (intro Taken [of old]) (auto simp: acquire_pr_actor_lease_def lease_at_def)
  next
    case (Reject old)
    with assms u key show thesis
      by (intro Refused [of old]) (auto simp: acquire_pr_actor_lease_def lease_at_def)
  qed
qed

lemma lease_at_update:
  assumes "\<And>l. p l \<Longrightarrow> lease_key (f l) = lease_key l"
  shows "lease_at (d\<lparr>leases := update_where p f (leases d)\<rparr>) k =
    map_option (\<lambda>l. if p l then f l else l) (lease_at d k)"
  using assms by (simp add: lease_at_def row_at_update_where)

lemma lease_at_in: "lease_at d k = Some l \<Longrightarrow> l \<in> set (leases d) \<and> lease_key l = k"
  unfolding lease_at_def by (rule row_at_SomeD)

lemma lease_at_row:
  "uniq lease_key (leases d) \<Longrightarrow> l \<in> set (leases d) \<Longrightarrow> lease_at d (lease_key l) = Some l"
  unfolding lease_at_def by (rule uniq_row_at)

lemma held_iff:
  assumes "lease_owned key_of d"
  shows "is_pr_actor_lease_held d w e \<longleftrightarrow>
    (\<exists>l. lease_at d (key_of w) = Some l \<and> holds_lease (now d) w e l)"
proof
  assume "is_pr_actor_lease_held d w e"
  then obtain l where l: "l \<in> set (leases d)" "holds_lease (now d) w e l"
    by (auto simp: is_pr_actor_lease_held_def table_simps)
  with assms have "key_of w = lease_key l"
    by (auto simp: lease_owned_def holds_lease_def)
  moreover have "lease_at d (lease_key l) = Some l"
    using assms l(1) by (simp add: lease_owned_def lease_at_row)
  ultimately show "\<exists>l. lease_at d (key_of w) = Some l \<and> holds_lease (now d) w e l"
    using l(2) by auto
next
  assume "\<exists>l. lease_at d (key_of w) = Some l \<and> holds_lease (now d) w e l"
  then show "is_pr_actor_lease_held d w e"
    by (auto simp: is_pr_actor_lease_held_def table_simps dest: lease_at_in)
qed


lemma uniq_leases_update:
  assumes "uniq lease_key ls" and "\<And>l. lease_key (f l) = lease_key l"
  shows "uniq lease_key (update_where p f ls)"
  using assms by (auto intro: uniq_update_where)

subsection \<open>Every statement keeps the keys, the owners and the order of the epochs\<close>

lemma lease_owned_update:
  assumes "lease_owned key_of d"
    and "\<And>l. lease_key (f l) = lease_key l"
    and "\<And>l. p l \<Longrightarrow> l_lease_epoch l \<le> l_lease_epoch (f l)"
    and "\<And>l w. p l \<Longrightarrow> l_work_item_id (f l) = Some w \<Longrightarrow>
           l_work_item_id l = Some w \<or> key_of w = lease_key l"
  shows "lease_owned key_of (d\<lparr>leases := update_where p f (leases d)\<rparr>)"
  using assms unfolding lease_owned_def
  by (fastforce simp: table_simps uniq_leases_update intro: order_trans)

lemma lease_owned_append:
  assumes "lease_owned key_of d" and "lease_at d (lease_key l) = None"
    and "1 \<le> l_lease_epoch l" and "\<And>w. l_work_item_id l = Some w \<Longrightarrow> key_of w = lease_key l"
  shows "lease_owned key_of (d\<lparr>leases := leases d @ [l]\<rparr>)"
  using assms by (auto simp: lease_owned_def lease_at_def uniq_append_new)

lemma lease_owned_acquire:
  assumes "lease_owned key_of d" and "key_of w = k"
  shows "lease_owned key_of (snd (acquire_pr_actor_lease k w h ttl d))"
proof -
  obtain r d' where a: "acquire_pr_actor_lease k w h ttl d = (r, d')" by fastforce
  then have "lease_owned key_of d'"
  proof (cases rule: acquire_cases)
    case (New l)
    then show ?thesis using assms by (auto intro!: lease_owned_append)
  next
    case (Taken old)
    then show ?thesis using assms by (auto intro!: lease_owned_update)
  next
    case (Refused old)
    then show ?thesis using assms by simp
  qed
  with a show ?thesis by simp
qed

lemma lease_owned_step:
  assumes "lease_owned key_of d" and "lease_op_ok key_of x"
  shows "lease_owned key_of (lease_step x d)"
  using assms
proof (cases x)
  case (Tick n)
  then show ?thesis using assms by (simp add: lease_owned_def)
qed (auto simp: lease_owned_acquire renew_pr_actor_lease_def release_pr_actor_lease_def
       release_pr_actor_lease_held_by_work_items_def intro!: lease_owned_update)

lemma lease_step_tables [simp]: "items (lease_step x d) = items d" "intents (lease_step x d) = intents d"
proof -
  have "items (lease_step x d) = items d \<and> intents (lease_step x d) = intents d"
  proof (cases x)
    case (Acquire k w h ttl)
    obtain r d' where a: "acquire_pr_actor_lease k w h ttl d = (r, d')" by fastforce
    then have "items d' = items d \<and> intents d' = intents d" by (cases rule: acquire_cases) auto
    with Acquire a show ?thesis by simp
  qed (auto simp: renew_pr_actor_lease_def release_pr_actor_lease_def
       release_pr_actor_lease_held_by_work_items_def)
  then show "items (lease_step x d) = items d" "intents (lease_step x d) = intents d" by simp_all
qed

lemma epoch_at_update:
  assumes "\<And>l. lease_key (f l) = lease_key l"
    and "\<And>l. p l \<Longrightarrow> l_lease_epoch l \<le> l_lease_epoch (f l)"
  shows "epoch_at d k \<le> epoch_at (d\<lparr>leases := update_where p f (leases d)\<rparr>) k"
  using assms by (auto simp: epoch_at_def lease_at_update split: option.splits)

lemma epoch_at_acquire:
  assumes "lease_owned key_of d"
  shows "epoch_at d k' \<le> epoch_at (snd (acquire_pr_actor_lease k w h ttl d)) k'"
proof -
  obtain r d' where a: "acquire_pr_actor_lease k w h ttl d = (r, d')" by fastforce
  then have "epoch_at d k' \<le> epoch_at d' k'"
  proof (cases rule: acquire_cases)
    case (New l)
    then show ?thesis
      by (auto simp: epoch_at_def lease_at_def row_at_append row_at_simps split: option.splits)
  next
    case (Taken old)
    then show ?thesis by (auto intro!: epoch_at_update)
  next
    case (Refused old)
    then show ?thesis by simp
  qed
  with a show ?thesis by simp
qed

lemma epoch_at_step:
  assumes "lease_owned key_of d"
  shows "epoch_at d k \<le> epoch_at (lease_step x d) k"
proof (cases x)
  case (Acquire k' w h ttl)
  then show ?thesis using epoch_at_acquire [OF assms] by simp
next
  case (Tick n)
  then show ?thesis by (simp add: epoch_at_def lease_at_def)
qed (auto simp: renew_pr_actor_lease_def release_pr_actor_lease_def
       release_pr_actor_lease_held_by_work_items_def intro!: epoch_at_update)

lemma held_epoch_at:
  "lease_owned key_of d \<Longrightarrow> is_pr_actor_lease_held d w e \<Longrightarrow> epoch_at d (key_of w) = e"
  by (auto simp: held_iff epoch_at_def holds_lease_def)

lemma held_holder_unique:
  assumes "lease_owned key_of d" and "is_pr_actor_lease_held d w e"
    and "is_pr_actor_lease_held d w' e'" and "key_of w = key_of w'"
  shows "w = w' \<and> e = e'"
  using assms by (auto simp: held_iff holds_lease_def)

subsection \<open>The interface that the users of the lease rely on\<close>

text \<open>
  A fenced lease is a store whose steps never lower the epoch of a key, in which only the
  execution with the current epoch of its key can be the holder, and which has at most one
  holder per key. Everything the publish path needs follows from these laws.
\<close>

locale fenced_lease = monotone_machine step ok_op ok epoch
  for step :: "'op \<Rightarrow> 's \<Rightarrow> 's" and ok_op :: "'op \<Rightarrow> bool" and ok :: "'s \<Rightarrow> bool"
    and epoch :: "'k \<Rightarrow> 's \<Rightarrow> int" +
  fixes key_of :: "'w \<Rightarrow> 'k"
    and held :: "'s \<Rightarrow> 'w \<Rightarrow> int \<Rightarrow> bool"
  assumes held_epoch: "ok s \<Longrightarrow> held s w e \<Longrightarrow> epoch (key_of w) s = e"
    and held_unique: "ok s \<Longrightarrow> held s w e \<Longrightarrow> held s w' e' \<Longrightarrow> key_of w = key_of w' \<Longrightarrow> w = w'"
begin

lemma stale_never_held:
  assumes "ok s" and "\<forall>x \<in> set xs. ok_op x" and "e < epoch (key_of w) s"
  shows "\<not> held (fold step xs s) w e"
  using level_run [OF assms(1,2), of "key_of w"] held_epoch [OF inv_run [OF assms(1,2)]] assms(3)
  by force

lemma one_holder:
  assumes "ok s" and "held s w e" and "held s w' e'" and "key_of w = key_of w'"
  shows "w = w' \<and> e = e'"
  using held_unique [OF assms] held_epoch [OF assms(1,2)] held_epoch [OF assms(1,3)] assms(4)
  by simp

end

interpretation leases: fenced_lease lease_step "lease_op_ok key_of" "lease_owned key_of"
    "\<lambda>k d. epoch_at d k" key_of is_pr_actor_lease_held for key_of
  by unfold_locales (auto simp: lease_owned_step epoch_at_step held_epoch_at dest: held_holder_unique)

subsection \<open>Properties\<close>

lemma acquire_outcome:
  assumes "lease_owned key_of d" and "key_of w = k" and "0 < ttl"
    and "acquire_pr_actor_lease k w h ttl d = (r, d')"
  shows "case lease_at d k of
      None \<Rightarrow> r = LeaseAcquired 1 \<and> is_pr_actor_lease_held d' w 1
    | Some l \<Rightarrow>
        if lease_takeable (now d) l
        then r = LeaseAcquired (l_lease_epoch l + 1) \<and> is_pr_actor_lease_held d' w (l_lease_epoch l + 1)
        else r = LeaseUnavailable (l_work_item_id l) (l_lease_epoch l) \<and> d' = d"
  using assms(4)
proof (cases rule: acquire_cases)
  case (New l)
  then show ?thesis
    using assms(3) by (auto simp: is_pr_actor_lease_held_def table_simps holds_lease_def)
next
  case (Taken old)
  have own: "lease_owned key_of d'"
    using lease_owned_acquire [OF assms(1,2), of h ttl] assms(4) by simp
  have "lease_at d' k = Some (old\<lparr>l_lease_epoch := l_lease_epoch old + 1, l_work_item_id := Some w,
      l_holder_id := Some h, l_acquired_at := now d, l_renewed_at := now d,
      l_expires_at := now d + seconds ttl\<rparr>)"
    using Taken(1,4) by (auto simp: lease_at_update dest: lease_at_in)
  moreover have "now d' = now d" using Taken(4) by simp
  ultimately have "is_pr_actor_lease_held d' w (l_lease_epoch old + 1)"
    using assms(2,3) unfolding held_iff [OF own] by (simp add: holds_lease_def)
  with Taken show ?thesis by simp
next
  case (Refused old)
  then show ?thesis by simp
qed

text \<open>A lease can be taken exactly when its key has no row, no holder or an expired holder.
  Taking it answers an epoch one above the last epoch of the key and makes the caller the holder;
  a refused acquire names the current holder and epoch and changes nothing.\<close>

lemma acquire_spec:
  assumes "lease_owned key_of d" and "key_of w = k" and "0 < ttl"
    and "acquire_pr_actor_lease k w h ttl d = (r, d')"
  shows "case lease_at d k of
      None \<Rightarrow> r = LeaseAcquired 1 \<and> is_pr_actor_lease_held d' w 1
    | Some l \<Rightarrow>
        if l_work_item_id l = None \<or> l_expires_at l \<le> now d
        then r = LeaseAcquired (l_lease_epoch l + 1) \<and> is_pr_actor_lease_held d' w (l_lease_epoch l + 1)
        else r = LeaseUnavailable (l_work_item_id l) (l_lease_epoch l) \<and> d' = d"
  using acquire_outcome [OF assms] by (simp add: lease_takeable_def cong: option.case_cong)

lemma acquire_spec_witness:
  "acquire_pr_actor_lease (''r/1'', Review) ''b'' ''h'' 60 (sample_db [] [sample_lease ''a'' 2 200])
     = (LeaseUnavailable (Some ''a'') 2, sample_db [] [sample_lease ''a'' 2 200])"
proof -
  obtain r d' where a: "acquire_pr_actor_lease (''r/1'', Review) ''b'' ''h'' 60
      (sample_db [] [sample_lease ''a'' 2 200]) = (r, d')" by fastforce
  have "r = LeaseUnavailable (Some ''a'') 2 \<and> d' = sample_db [] [sample_lease ''a'' 2 200]"
    using acquire_spec [of "\<lambda>_. (''r/1'', Review)", OF _ _ _ a]
    by (simp add: sample_defs lease_owned_def uniq_def lease_at_def row_at_simps lease_key_def
        lease_takeable_def)
  with a show ?thesis by simp
qed

text \<open>Fencing: once the epoch of a key has passed \<open>e\<close>, no sequence of acquires, renewals,
  releases and clock steps makes an execution with epoch \<open>e\<close> the holder again.\<close>

lemma stale_epoch_stays_fenced:
  assumes "lease_owned key_of d" and "\<forall>x \<in> set xs. lease_op_ok key_of x"
    and "e < epoch_at d (key_of w)"
  shows "\<not> is_pr_actor_lease_held (fold lease_step xs d) w e"
  using assms by (rule leases.stale_never_held)

lemma stale_epoch_stays_fenced_witness:
  "\<not> is_pr_actor_lease_held (fold lease_step
      [Renew (''r/1'', Review) 1 60 ''a'', Release (''r/1'', Review) 2,
       Acquire (''r/1'', Review) ''a'' ''h'' 60] (sample_db [] [sample_lease ''a'' 2 200])) ''a'' 1"
  by (rule stale_epoch_stays_fenced [of "\<lambda>_. (''r/1'', Review)"])
    (simp_all add: sample_defs lease_owned_def uniq_def epoch_at_def lease_at_def row_at_simps
       lease_key_def)

text \<open>Mutual exclusion: after any sequence of statements, two executions that both hold the
  lease of one key are the same execution: the same work item under the same epoch.\<close>

lemma one_lease_holder:
  assumes "lease_owned key_of d" and "\<forall>x \<in> set xs. lease_op_ok key_of x"
    and "is_pr_actor_lease_held (fold lease_step xs d) w e"
    and "is_pr_actor_lease_held (fold lease_step xs d) w' e'" and "key_of w = key_of w'"
  shows "w = w' \<and> e = e'"
  using leases.inv_run [OF assms(1,2)] assms(3-5) by (rule leases.one_holder)

lemma one_lease_holder_witness:
  "\<not> is_pr_actor_lease_held (fold lease_step [Tick 1] (sample_db [] [sample_lease ''a'' 2 200])) ''b'' 2"
  using one_lease_holder [of "\<lambda>_. (''r/1'', Review)" "sample_db [] [sample_lease ''a'' 2 200]"
      "[Tick 1]" "''a''" 2 "''b''" 2]
  by (auto simp: sample_defs lease_owned_def uniq_def lease_key_def is_pr_actor_lease_held_def
      table_simps holds_lease_def tick_def)

end
