(* ===== verification/Work_Items.thy ===== *)
theory Work_Items
  imports Lease "HOL-Library.List_Lexorder" "HOL-Library.Char_ord"
begin

text \<open>
  The work item state machine: the conditional update builder of
  \<^verbatim>\<open>src/agentWork/workItemTransitions.ts\<close> and the operations of
  \<^verbatim>\<open>src/agentWork/workItemStateRepository.ts\<close> over it. \<open>transition\<close> is one SQL
  statement; an operation that sends several statements outside a transaction is a program.

  The lemmas show which statuses each operation can leave and enter, that a terminal status is
  absorbing, that a fenced operation with a lost lease writes nothing, and the bounds on the
  attempt counter.
\<close>

subsection \<open>Queues and liveness\<close>

fun work_queue :: "work_type \<Rightarrow> string" where
  "work_queue Review = ''agent-work-review''"
| "work_queue Ask = ''agent-work-ask''"
| "work_queue Description = ''agent-work-description''"
| "work_queue Triage = ''agent-work-triage''"
| "work_queue Verification = ''agent-work-verification''"

definition leased_work_queues :: "string list" where
  "leased_work_queues =
     map work_queue (filter (\<lambda>t. t \<notin> set unleased_work_types)
       [Review, Ask, Description, Triage, Verification])"

definition lost_running_work_liveness_sql :: "time \<Rightarrow> db \<Rightarrow> work_item \<Rightarrow> bool" where
  "lost_running_work_liveness_sql clock d w \<longleftrightarrow>
     \<not> exists_where (\<lambda>l. l_work_item_id l = Some (w_id w) \<and> clock < l_expires_at l) (leases d) \<and>
     \<not> exists_where (\<lambda>j. j_name j = work_queue (w_type w) \<and>
          j_state j \<in> {Created, Active, Retry} \<and>
          (j_id j = w_id w \<or> j_singleton_key j = Some (w_id w) \<or> j_work_item_id j = Some (w_id w)))
        (jobs d)"

subsection \<open>The transition statement\<close>

record transition_spec =
  sel_id :: "item_id option"
  sel_resource_key :: "string option"
  sel_type :: "work_type option"
  sel_review_lens :: "string option"
  sel_source :: "work_source option"
  t_from :: "work_status list"
  t_to :: work_status
  t_unless_cancel_requested :: bool
  t_fence :: write_fence
  t_where :: "db \<Rightarrow> work_item \<Rightarrow> bool"
  t_last_error :: "string option"
  t_request_cancel :: bool
  t_payload_patch :: "detail option"
  t_execution_epoch :: "int option option"
  t_keep_completed_at :: bool

text \<open>
  The optional fields of a \<open>TransitionSpec\<close> that a caller leaves out. \<open>t_execution_epoch\<close> has
  two layers: \<open>None\<close> is an omitted field, \<open>Some None\<close> an explicit \<open>null\<close>.
\<close>

definition spec_for :: "item_id \<Rightarrow> work_status list \<Rightarrow> work_status \<Rightarrow> write_fence \<Rightarrow> transition_spec" where
  "spec_for i from to fence =
     \<lparr>sel_id = Some i, sel_resource_key = None, sel_type = None, sel_review_lens = None,
      sel_source = None, t_from = from, t_to = to, t_unless_cancel_requested = False,
      t_fence = fence, t_where = (\<lambda>_ _. True), t_last_error = None, t_request_cancel = False,
      t_payload_patch = None, t_execution_epoch = None, t_keep_completed_at = False\<rparr>"

datatype stamp = StampStarted | StampCompleted | StampNone

fun target_stamp :: "work_status \<Rightarrow> stamp" where
  "target_stamp Queued = StampNone"
| "target_stamp Running = StampStarted"
| "target_stamp Superseded = StampNone"
| "target_stamp Cancelled = StampCompleted"
| "target_stamp Completed = StampCompleted"
| "target_stamp Failed = StampCompleted"

definition opt_matches :: "'a option \<Rightarrow> 'a \<Rightarrow> bool" where
  "opt_matches sel v \<longleftrightarrow> (case sel of None \<Rightarrow> True | Some x \<Rightarrow> x = v)"

definition selects :: "transition_spec \<Rightarrow> work_item \<Rightarrow> bool" where
  "selects spec w \<longleftrightarrow> opt_matches (sel_id spec) (w_id w) \<and>
     opt_matches (sel_resource_key spec) (w_resource_key w) \<and>
     opt_matches (sel_type spec) (w_type w) \<and>
     (case sel_review_lens spec of None \<Rightarrow> True | Some l \<Rightarrow> w_review_lens w = Some l) \<and>
     opt_matches (sel_source spec) (w_source w)"

definition transition_guard :: "transition_spec \<Rightarrow> db \<Rightarrow> work_item \<Rightarrow> bool" where
  "transition_guard spec d w \<longleftrightarrow>
     selects spec w \<and> w_status w \<in> set (t_from spec) \<and>
     (t_unless_cancel_requested spec \<longrightarrow> w_cancel_requested_at w = None) \<and>
     t_where spec d w \<and>
     (t_execution_epoch spec = None \<longrightarrow> lease_fence_sql d (w_id w) (epoch_of (t_fence spec)))"

definition coalesce :: "'a option \<Rightarrow> 'a option \<Rightarrow> 'a option" where
  "coalesce a b = (case a of None \<Rightarrow> b | Some x \<Rightarrow> Some x)"

definition transition_set :: "transition_spec \<Rightarrow> time \<Rightarrow> work_item \<Rightarrow> work_item" where
  "transition_set spec t w = w
     \<lparr>w_status := t_to spec,
      w_started_at := (if target_stamp (t_to spec) = StampStarted
        then coalesce (w_started_at w) (Some t) else w_started_at w),
      w_execution_epoch := (case t_execution_epoch spec of
        Some (Some e) \<Rightarrow> e | _ \<Rightarrow> w_execution_epoch w),
      w_cancel_requested_at := (if t_request_cancel spec
        then coalesce (w_cancel_requested_at w) (Some t) else w_cancel_requested_at w),
      w_last_error := (case t_last_error spec of None \<Rightarrow> w_last_error w | Some e \<Rightarrow> Some e),
      w_completed_at := (if target_stamp (t_to spec) = StampCompleted
        then (if t_keep_completed_at spec then coalesce (w_completed_at w) (Some t) else Some t)
        else w_completed_at w),
      w_payload := (case t_payload_patch spec of None \<Rightarrow> w_payload w | Some p \<Rightarrow> w_payload w ++ p),
      w_updated_at := t\<rparr>"

text \<open>
  The statement returns the rows it changed; each comes with the status it had before, which is
  what \<open>lockPrior\<close> reads.
\<close>

definition transition :: "transition_spec \<Rightarrow> db \<Rightarrow> (work_status \<times> work_item) list \<times> db" where
  "transition spec d =
     (map (\<lambda>w. (w_status w, transition_set spec (now d) w))
        (select_where (transition_guard spec d) (items d)),
      d\<lparr>items := update_where (transition_guard spec d) (transition_set spec (now d)) (items d)\<rparr>)"

definition transitioned :: "transition_spec \<Rightarrow> db \<Rightarrow> bool \<times> db" where
  "transitioned spec d = (fst (transition spec d) \<noteq> [], snd (transition spec d))"

subsection \<open>Reading work items\<close>

fun is_any_review_lens :: "string \<Rightarrow> bool" where
  "is_any_review_lens l =
     (l = ''review'' \<or> l = ''review-security'' \<or> l = ''review-quality'' \<or> l = ''review-tests'')"

definition normalize_review_lens :: "string \<Rightarrow> string" where
  "normalize_review_lens l = ''review''"

definition payload_validation_error :: js_error where
  "payload_validation_error = PlainError ''WorkItemPayloadValidationError''"

text \<open>
  \<open>mapWorkItemCore\<close>: the row must carry a review lens when it is a review, and the slash source
  when it is an ask or a triage run; every other type drops the stored lens.
\<close>

fun map_work_item_core :: "work_item \<Rightarrow> js_error + work_item" where
  "map_work_item_core w =
     (case w_type w of
        Review \<Rightarrow> (case w_review_lens w of
            None \<Rightarrow> Inl payload_validation_error
          | Some l \<Rightarrow> if is_any_review_lens l
              then Inr (w\<lparr>w_review_lens := Some (normalize_review_lens l)\<rparr>)
              else Inl payload_validation_error)
      | Ask \<Rightarrow> if w_source w \<noteq> Slash then Inl payload_validation_error
          else Inr (w\<lparr>w_review_lens := None\<rparr>)
      | Description \<Rightarrow> Inr (w\<lparr>w_review_lens := None\<rparr>)
      | Triage \<Rightarrow> if w_source w \<noteq> Slash then Inl payload_validation_error
          else Inr (w\<lparr>w_review_lens := None\<rparr>)
      | Verification \<Rightarrow> Inr (w\<lparr>w_review_lens := None\<rparr>))"

definition get_work_item_core :: "item_id \<Rightarrow> db \<Rightarrow> js_error + work_item option" where
  "get_work_item_core i d =
     (case item_at d i of
        None \<Rightarrow> Inr None
      | Some w \<Rightarrow> (case map_work_item_core w of Inl e \<Rightarrow> Inl e | Inr c \<Rightarrow> Inr (Some c)))"

definition queued_reviews :: "string \<Rightarrow> db \<Rightarrow> work_item list" where
  "queued_reviews rk d =
     select_where (\<lambda>q. w_resource_key q = rk \<and> w_type q = Review \<and> w_status q = Queued) (items d)"

definition not_after :: "work_item \<Rightarrow> work_item \<Rightarrow> bool" where
  "not_after q t \<longleftrightarrow> w_created_at q < w_created_at t \<or>
     (w_created_at q = w_created_at t \<and> w_id q \<le> w_id t)"

definition get_review_queue_position :: "item_id \<Rightarrow> db \<Rightarrow> (nat \<times> nat) option" where
  "get_review_queue_position i d =
     (case find (\<lambda>w. w_id w = i \<and> w_type w = Review \<and> w_status w = Queued) (items d) of
        None \<Rightarrow> None
      | Some t \<Rightarrow>
          let queued = queued_reviews (w_resource_key t) d;
              position = count_where (\<lambda>q. not_after q t) queued;
              total = length queued
          in if position < 1 \<or> total < position then None else Some (position, total))"

definition should_skip_work :: "db \<Rightarrow> item_id \<Rightarrow> bool" where
  "should_skip_work d i =
     (case item_at d i of
        None \<Rightarrow> True
      | Some w \<Rightarrow> w_status w = Superseded \<or> w_status w = Cancelled \<or> w_cancel_requested_at w \<noteq> None)"

subsection \<open>Claiming and starting an attempt\<close>

record work_claim =
  c_created_at :: time
  c_started_at :: "time option"
  c_attempt_count :: int
  c_resumed :: bool

definition claim_work_for_execution ::
  "item_id \<Rightarrow> int option \<Rightarrow> db \<Rightarrow> work_claim option \<times> db" where
  "claim_work_for_execution i epoch d =
     (case transition ((spec_for i [Queued, Running] Running (fence_for_epoch epoch))
              \<lparr>t_unless_cancel_requested := True, t_execution_epoch := Some epoch\<rparr>) d of
        ((prior, w) # _, d') \<Rightarrow>
          (Some \<lparr>c_created_at = w_created_at w, c_started_at = w_started_at w,
                 c_attempt_count = w_attempt_count w, c_resumed = (prior = Running)\<rparr>, d')
      | ([], d') \<Rightarrow> (None, d'))"

datatype work_attempt_result =
    AttemptStarted (attempt_number: int)
  | AttemptExhausted int
  | AttemptUnavailable

definition begin_work_attempt ::
  "item_id \<Rightarrow> int option \<Rightarrow> int \<Rightarrow> (db, work_attempt_result) prog" where
  "begin_work_attempt i epoch limit = in_transaction
     (thenP (case epoch of
               Some e \<Rightarrow> lock_pr_actor_lease_for_update i e
             | None \<Rightarrow> returnP ())
       (stepP (\<lambda>d. case item_at d i of
           None \<Rightarrow> (AttemptUnavailable, d)
         | Some w \<Rightarrow>
             if w_status w \<noteq> Running \<or> w_cancel_requested_at w \<noteq> None then (AttemptUnavailable, d)
             else if limit \<le> w_attempt_count w then (AttemptExhausted (w_attempt_count w), d)
             else (AttemptStarted (w_attempt_count w + 1),
                   d\<lparr>items := update_where (\<lambda>r. w_id r = i)
                       (\<lambda>r. r\<lparr>w_attempt_count := w_attempt_count r + 1, w_updated_at := now d\<rparr>)
                       (items d)\<rparr>))))"

subsection \<open>Settling a work item\<close>

definition mark_work_publish_degraded :: "item_id \<Rightarrow> int option \<Rightarrow> db \<Rightarrow> bool \<times> db" where
  "mark_work_publish_degraded i epoch d =
     (let p = (\<lambda>w. w_id w = i \<and> lease_fence_sql d (w_id w) epoch)
      in (0 < count_where p (items d),
          d\<lparr>items := update_where p
              (\<lambda>w. w\<lparr>w_payload := w_payload w ++ [''publishDegraded'' \<mapsto> JBool True],
                     w_updated_at := now d\<rparr>) (items d)\<rparr>))"

definition mark_work_completed :: "item_id \<Rightarrow> int option \<Rightarrow> db \<Rightarrow> bool \<times> db" where
  "mark_work_completed i epoch =
     transitioned ((spec_for i [Running] Completed (fence_for_epoch epoch))
       \<lparr>t_unless_cancel_requested := True\<rparr>)"

fun json_text :: "json option \<Rightarrow> bool" where
  "json_text None = False"
| "json_text (Some JNull) = False"
| "json_text (Some _) = True"

definition stale_head_replacement_present :: "work_item \<Rightarrow> bool" where
  "stale_head_replacement_present w \<longleftrightarrow>
     (case w_payload w ''staleHeadReplacement'' of
        Some (JObj kvs) \<Rightarrow> json_text (map_of kvs ''replacementWorkItemId'')
      | _ \<Rightarrow> False) \<or>
     (json_text (w_payload w ''staleHeadReplacementWorkItemId'') \<and>
      w_payload w ''staleHeadReplacementWorkItemId'' \<noteq> Some (JStr []))"

definition force_mark_rescheduled_parent_completed :: "item_id \<Rightarrow> int \<Rightarrow> db \<Rightarrow> bool \<times> db" where
  "force_mark_rescheduled_parent_completed i epoch =
     transitioned ((spec_for i [Running, Queued] Completed (LeaseFence epoch))
       \<lparr>t_unless_cancel_requested := True, t_keep_completed_at := True,
        t_where := (\<lambda>_ w. stale_head_replacement_present w)\<rparr>)"

definition update_running_work_head_sha :: "item_id \<Rightarrow> string \<Rightarrow> int option \<Rightarrow> db \<Rightarrow> bool \<times> db" where
  "update_running_work_head_sha i sha epoch d =
     (let p = (\<lambda>w. w_id w = i \<and> w_status w = Running \<and> w_cancel_requested_at w = None \<and>
                   lease_fence_sql d (w_id w) epoch)
      in (0 < count_where p (items d),
          d\<lparr>items := update_where p (\<lambda>w. w\<lparr>w_head_sha := sha, w_updated_at := now d\<rparr>) (items d)\<rparr>))"

definition transition_cancel_requested_lost_running :: "item_id \<Rightarrow> bool \<Rightarrow> db \<Rightarrow> bool \<times> db" where
  "transition_cancel_requested_lost_running i linked =
     transitioned ((spec_for i [Running] (if linked then Superseded else Cancelled) Unleased)
       \<lparr>t_where := (\<lambda>d w. w_cancel_requested_at w \<noteq> None \<and> lost_running_work_liveness_sql (now d) d w)\<rparr>)"

definition mark_work_failed :: "item_id \<Rightarrow> string \<Rightarrow> int option \<Rightarrow> db \<Rightarrow> bool \<times> db" where
  "mark_work_failed i msg epoch =
     transitioned ((spec_for i [Running] Failed (fence_for_epoch epoch))
       \<lparr>t_unless_cancel_requested := True, t_last_error := Some msg\<rparr>)"

definition mark_work_retrying :: "item_id \<Rightarrow> string \<Rightarrow> int option \<Rightarrow> db \<Rightarrow> bool \<times> db" where
  "mark_work_retrying i msg epoch =
     transitioned ((spec_for i [Running] Queued (fence_for_epoch epoch))
       \<lparr>t_unless_cancel_requested := True, t_last_error := Some msg\<rparr>)"

definition mark_work_cancelled :: "item_id \<Rightarrow> int option \<Rightarrow> db \<Rightarrow> bool \<times> db" where
  "mark_work_cancelled i epoch =
     transitioned (spec_for i [Queued, Running] Cancelled (fence_for_epoch epoch))"


text \<open>
  \<open>markLostRunningWorkFailed\<close> takes its locks with \<open>NOWAIT\<close>. \<open>lock_fault\<close> is the error that one
  of the protected queries raised, if any did: a lock that is not available (55P03) or a cancelled
  statement (57014) makes the call answer \<open>false\<close>, any other error is rethrown. The transaction is
  one step, so the row that is locked is the row that was read.
\<close>

definition lost_work_spec :: "work_item \<Rightarrow> int \<Rightarrow> transition_spec" where
  "lost_work_spec target min_age =
     (spec_for (w_id target) [Running] Failed Unleased)
       \<lparr>sel_resource_key := Some (w_resource_key target), sel_type := Some (w_type target),
        t_unless_cancel_requested := True, t_last_error := Some ''worker_lost'',
        t_where := (\<lambda>d w. (case w_started_at w of
              None \<Rightarrow> False | Some t \<Rightarrow> t < now d - seconds min_age) \<and>
            lost_running_work_liveness_sql (now d) d w)\<rparr>"

definition lock_not_granted :: "js_error \<Rightarrow> bool" where
  "lock_not_granted e =
     (case e of ForeignError f \<Rightarrow> fe_code f = Some ''55P03'' \<or> fe_code f = Some ''57014'' | _ \<Rightarrow> False)"

definition mark_lost_running_work_failed ::
  "item_id \<Rightarrow> int \<Rightarrow> js_error option \<Rightarrow> (db, bool) prog" where
  "mark_lost_running_work_failed i min_age lock_fault = (\<lambda>d.
     case find (\<lambda>w. w_id w = i \<and> w_status w = Running \<and> w_cancel_requested_at w = None) (items d) of
       None \<Rightarrow> (Inr False, d)
     | Some target \<Rightarrow> (case lock_fault of
           Some e \<Rightarrow> (if lock_not_granted e then Inr False else Inl e, d)
         | None \<Rightarrow> stepP (transitioned (lost_work_spec target min_age)) d))"

text \<open>
  \<open>markQueuedWorkCancelled\<close> sends its statements one by one, and other sessions can commit between
  any two of them: \<open>env n\<close> is what they did before the n-th statement after the first.
\<close>

definition is_safe_integer :: "int \<Rightarrow> bool" where
  "is_safe_integer n \<longleftrightarrow> \<bar>n\<bar> \<le> 9007199254740991"

definition cancel_spec :: "item_id \<Rightarrow> string \<Rightarrow> work_status list \<Rightarrow> write_fence \<Rightarrow> transition_spec" where
  "cancel_spec i msg from fence =
     (spec_for i from Cancelled fence)\<lparr>t_request_cancel := True, t_last_error := Some msg\<rparr>"

definition cancel_under_lease :: "item_id \<Rightarrow> string \<Rightarrow> int \<Rightarrow> (db, bool) prog" where
  "cancel_under_lease i msg epoch = in_transaction
     (thenP (lock_pr_actor_lease_for_update i epoch)
       (bindP (stepP (transitioned ((cancel_spec i msg [Queued, Running] (LeaseFence epoch))
                  \<lparr>t_where := (\<lambda>_ w. w_execution_epoch w = epoch)\<rparr>)))
         (\<lambda>changed. if changed then returnP True
           else readP (\<lambda>d. case item_at d i of
             None \<Rightarrow> False
           | Some w \<Rightarrow> w_status w = Cancelled \<and> w_execution_epoch w = epoch))))"

definition cancel_running :: "item_id \<Rightarrow> string \<Rightarrow> int \<Rightarrow> work_item \<Rightarrow> (db \<Rightarrow> db) \<Rightarrow> (db, bool) prog" where
  "cancel_running i msg observed target env =
     (let epoch = (if 0 < observed then observed else w_execution_epoch target)
      in if w_status target \<noteq> Running \<or> \<not> is_safe_integer epoch \<or> epoch \<le> 0 then returnP False
         else thenP (stepP (\<lambda>d. ((), env d))) (cancel_under_lease i msg epoch))"

definition read_item :: "(db \<Rightarrow> db) \<Rightarrow> item_id \<Rightarrow> (db, work_item option) prog" where
  "read_item env i = stepP (\<lambda>d. (item_at (env d) i, env d))"

definition mark_queued_work_cancelled ::
  "item_id \<Rightarrow> string \<Rightarrow> (nat \<Rightarrow> db \<Rightarrow> db) \<Rightarrow> (db, bool) prog" where
  "mark_queued_work_cancelled i msg env =
     bindP (stepP (transitioned (cancel_spec i msg [Queued] Unleased))) (\<lambda>changed.
       if changed then returnP True
       else bindP (read_item (env 1) i) (\<lambda>target.
         case target of
           None \<Rightarrow> returnP False
         | Some t \<Rightarrow>
             if w_status t = Cancelled then returnP True
             else if w_status t = Queued then
               bindP (stepP (\<lambda>d. transitioned ((cancel_spec i msg [Queued] Unleased)
                        \<lparr>t_where := (\<lambda>_ w. w_execution_epoch w = w_execution_epoch t)\<rparr>) (env 2 d)))
                 (\<lambda>retried.
                   if retried then returnP True
                   else bindP (read_item (env 3) i) (\<lambda>again.
                     case again of
                       None \<Rightarrow> returnP False
                     | Some u \<Rightarrow>
                         if 0 < w_execution_epoch t \<and> w_execution_epoch u \<noteq> w_execution_epoch t
                         then returnP False
                         else if w_status u = Cancelled then returnP True
                         else cancel_running i msg (w_execution_epoch t) u (env 4)))
             else cancel_running i msg (w_execution_epoch t) t (env 4)))"

subsection \<open>The transition statement, row by row\<close>

lemma transition_set_id [simp]:
  "w_id (transition_set spec t w) = w_id w"
  "w_status (transition_set spec t w) = t_to spec"
  "w_type (transition_set spec t w) = w_type w"
  "w_resource_key (transition_set spec t w) = w_resource_key w"
  "w_attempt_count (transition_set spec t w) = w_attempt_count w"
  "w_created_at (transition_set spec t w) = w_created_at w"
  by (simp_all add: transition_set_def)

lemma item_at_update:
  assumes "\<And>w. p w \<Longrightarrow> w_id (f w) = w_id w"
  shows "item_at (d\<lparr>items := update_where p f (items d)\<rparr>) i =
    map_option (\<lambda>w. if p w then f w else w) (item_at d i)"
  using assms by (simp add: item_at_def row_at_update_where)

lemma item_at_id: "item_at d i = Some w \<Longrightarrow> w \<in> set (items d) \<and> w_id w = i"
  unfolding item_at_def by (rule row_at_SomeD)

lemma item_at_transition:
  "item_at (snd (transition spec d)) i =
     map_option (\<lambda>w. if transition_guard spec d w then transition_set spec (now d) w else w)
       (item_at d i)"
  by (simp add: transition_def item_at_update)

lemma transition_tables [simp]:
  "leases (snd (transition spec d)) = leases d" "intents (snd (transition spec d)) = intents d"
  "records (snd (transition spec d)) = records d" "jobs (snd (transition spec d)) = jobs d"
  "now (snd (transition spec d)) = now d"
  by (simp_all add: transition_def)

lemma snd_transitioned [simp]: "snd (transitioned spec d) = snd (transition spec d)"
  by (simp add: transitioned_def)

lemma transitioned_iff: "fst (transitioned spec d) \<longleftrightarrow> (\<exists>w \<in> set (items d). transition_guard spec d w)"
  by (auto simp: transitioned_def transition_def select_where_def filter_empty_conv)

lemma transition_idle:
  "\<not> fst (transitioned spec d) \<Longrightarrow> snd (transition spec d) = d"
  by (auto simp: transitioned_iff transition_def update_where_none)

lemma uniq_transition: "uniq w_id (items d) \<Longrightarrow> uniq w_id (items (snd (transition spec d)))"
  by (simp add: transition_def uniq_update_where)

lemma spec_for_simps [simp]:
  "sel_id (spec_for i from to fence) = Some i" "sel_resource_key (spec_for i from to fence) = None"
  "sel_type (spec_for i from to fence) = None" "sel_review_lens (spec_for i from to fence) = None"
  "sel_source (spec_for i from to fence) = None" "t_from (spec_for i from to fence) = from"
  "t_to (spec_for i from to fence) = to" "t_fence (spec_for i from to fence) = fence"
  "t_unless_cancel_requested (spec_for i from to fence) = False"
  "t_where (spec_for i from to fence) = (\<lambda>_ _. True)"
  "t_last_error (spec_for i from to fence) = None" "t_request_cancel (spec_for i from to fence) = False"
  "t_payload_patch (spec_for i from to fence) = None"
  "t_execution_epoch (spec_for i from to fence) = None"
  "t_keep_completed_at (spec_for i from to fence) = False"
  by (simp_all add: spec_for_def)

lemma epoch_of_fence [simp]: "epoch_of (fence_for_epoch e) = e"
  by (cases e) simp_all

lemma fence_held [simp]: "lease_fence_sql d i (Some e) = is_pr_actor_lease_held d i e"
  by (simp add: lease_fence_sql_def is_pr_actor_lease_held_def)

lemma fence_none [simp]: "lease_fence_sql d i None"
  by (simp add: lease_fence_sql_def)

lemma opt_matches_simps [simp]: "opt_matches None v" "opt_matches (Some x) v \<longleftrightarrow> x = v"
  by (simp_all add: opt_matches_def)


subsection \<open>Every operation as one step\<close>

datatype work_op =
    Claim item_id "int option"
  | BeginAttempt item_id "int option" int
  | Degraded item_id "int option"
  | Complete item_id "int option"
  | ForceComplete item_id int
  | HeadSha item_id string "int option"
  | CancelLost item_id bool
  | FailLost item_id int "js_error option"
  | Fail item_id string "int option"
  | CancelQueued item_id string
  | CancelLeased item_id string int
  | Retrying item_id string "int option"
  | Cancel item_id "int option"
  | LeaseOp lease_op

fun work_step :: "work_op \<Rightarrow> db \<Rightarrow> db" where
  "work_step (Claim i e) d = snd (claim_work_for_execution i e d)"
| "work_step (BeginAttempt i e n) d = snd (begin_work_attempt i e n d)"
| "work_step (Degraded i e) d = snd (mark_work_publish_degraded i e d)"
| "work_step (Complete i e) d = snd (mark_work_completed i e d)"
| "work_step (ForceComplete i e) d = snd (force_mark_rescheduled_parent_completed i e d)"
| "work_step (HeadSha i h e) d = snd (update_running_work_head_sha i h e d)"
| "work_step (CancelLost i l) d = snd (transition_cancel_requested_lost_running i l d)"
| "work_step (FailLost i n f) d = snd (mark_lost_running_work_failed i n f d)"
| "work_step (Fail i m e) d = snd (mark_work_failed i m e d)"
| "work_step (CancelQueued i m) d = snd (transition (cancel_spec i m [Queued] Unleased) d)"
| "work_step (CancelLeased i m e) d = snd (cancel_under_lease i m e d)"
| "work_step (Retrying i m e) d = snd (mark_work_retrying i m e d)"
| "work_step (Cancel i e) d = snd (mark_work_cancelled i e d)"
| "work_step (LeaseOp x) d = lease_step x d"

fun terminal :: "work_status \<Rightarrow> bool" where
  "terminal Queued = False"
| "terminal Running = False"
| "terminal _ = True"

text \<open>The edges of the status graph that the operations can follow.\<close>

fun status_edge :: "work_status \<Rightarrow> work_status \<Rightarrow> bool" where
  "status_edge Queued s = (s \<in> {Queued, Running, Cancelled, Completed})"
| "status_edge Running s = (s \<in> {Running, Queued, Completed, Failed, Cancelled, Superseded})"
| "status_edge s t = (s = t)"

definition item_evolves :: "work_item \<Rightarrow> work_item \<Rightarrow> bool" where
  "item_evolves w w' \<longleftrightarrow> w_id w' = w_id w \<and> w_type w' = w_type w \<and>
     w_resource_key w' = w_resource_key w \<and> w_created_at w' = w_created_at w \<and>
     status_edge (w_status w) (w_status w') \<and> w_attempt_count w \<le> w_attempt_count w'"

lemma status_edge_refl [simp]: "status_edge s s"
  by (cases s) simp_all

lemma item_evolves_refl [simp]: "item_evolves w w"
  by (simp add: item_evolves_def)

definition rows_evolve :: "db \<Rightarrow> db \<Rightarrow> bool" where
  "rows_evolve d d' \<longleftrightarrow> list_all2 item_evolves (items d) (items d')"

lemma rows_evolve_refl [simp]: "rows_evolve d d"
  by (simp add: rows_evolve_def list.rel_refl)

lemma rows_evolve_same_items: "items d' = items d \<Longrightarrow> rows_evolve d d'"
  by (simp add: rows_evolve_def list.rel_refl)

lemma rows_evolve_update:
  assumes "\<And>w. p w \<Longrightarrow> item_evolves w (f w)"
  shows "rows_evolve d (d\<lparr>items := update_where p f (items d)\<rparr>)"
  using assms by (simp add: rows_evolve_def update_where_def list_all2_map2 list.rel_refl_strong)

lemma rows_evolve_transition:
  assumes "\<And>s. s \<in> set (t_from spec) \<Longrightarrow> status_edge s (t_to spec)"
  shows "rows_evolve d (snd (transition spec d))"
  unfolding transition_def snd_conv
  using assms by (intro rows_evolve_update) (auto simp: item_evolves_def transition_guard_def)

lemma row_at_list_all2:
  assumes "list_all2 R xs ys" and "\<And>x y. R x y \<Longrightarrow> key y = key x" and "row_at key k xs = Some x"
  shows "\<exists>y. row_at key k ys = Some y \<and> R x y"
  using assms by (induction rule: list_all2_induct) (auto simp: row_at_simps split: if_splits)

lemma rows_evolve_item:
  assumes "rows_evolve d d'" and "item_at d i = Some w"
  shows "\<exists>w'. item_at d' i = Some w' \<and> item_evolves w w'"
proof -
  have ev: "list_all2 item_evolves (items d) (items d')" and at: "row_at w_id i (items d) = Some w"
    using assms by (simp_all add: rows_evolve_def item_at_def)
  have key: "\<And>x y. item_evolves x y \<Longrightarrow> w_id y = w_id x"
    by (simp add: item_evolves_def)
  from row_at_list_all2 [OF ev key at] show ?thesis by (simp add: item_at_def)
qed

lemma claim_snd: "snd (claim_work_for_execution i e d) =
    snd (transition ((spec_for i [Queued, Running] Running (fence_for_epoch e))
              \<lparr>t_unless_cancel_requested := True, t_execution_epoch := Some e\<rparr>) d)"
  by (auto simp: claim_work_for_execution_def split: prod.splits list.splits)

lemma begin_attempt_cases:
  "snd (begin_work_attempt i e n d) = d \<or>
   snd (begin_work_attempt i e n d) = d\<lparr>items := update_where (\<lambda>r. w_id r = i)
      (\<lambda>r. r\<lparr>w_attempt_count := w_attempt_count r + 1, w_updated_at := now d\<rparr>) (items d)\<rparr>"
  by (auto simp: begin_work_attempt_def lock_pr_actor_lease_for_update_def prog_defs
      split: option.splits prod.splits sum.splits if_splits)

lemma fail_lost_cases:
  "snd (mark_lost_running_work_failed i n f d) = d \<or>
   (\<exists>t. snd (mark_lost_running_work_failed i n f d) = snd (transition (lost_work_spec t n) d))"
  by (auto simp: mark_lost_running_work_failed_def prog_defs split: option.splits)

lemma cancel_under_lease_cases:
  "snd (cancel_under_lease i m e d) = d \<or>
   snd (cancel_under_lease i m e d) = snd (transition ((cancel_spec i m [Queued, Running] (LeaseFence e))
      \<lparr>t_where := (\<lambda>_ w. w_execution_epoch w = e)\<rparr>) d)"
  by (auto simp: cancel_under_lease_def lock_pr_actor_lease_for_update_def prog_defs
      split: option.splits prod.splits sum.splits if_splits)

text \<open>Every operation rewrites rows along the edges of the graph and creates or drops none.\<close>

lemma work_step_evolves: "rows_evolve d (work_step x d)"
proof (cases x)
  case (BeginAttempt i e n)
  have "rows_evolve d (d\<lparr>items := update_where (\<lambda>r. w_id r = i)
      (\<lambda>r. r\<lparr>w_attempt_count := w_attempt_count r + 1, w_updated_at := now d\<rparr>) (items d)\<rparr>)"
    by (rule rows_evolve_update) (simp add: item_evolves_def)
  with BeginAttempt begin_attempt_cases [of i e n d] show ?thesis by auto
next
  case (FailLost i n f)
  have "rows_evolve d (snd (transition (lost_work_spec t n) d))" for t
    by (rule rows_evolve_transition) (simp add: lost_work_spec_def)
  with FailLost fail_lost_cases [of i n f d] show ?thesis by auto
next
  case (CancelLeased i m e)
  have "rows_evolve d (snd (transition ((cancel_spec i m [Queued, Running] (LeaseFence e))
      \<lparr>t_where := (\<lambda>_ w. w_execution_epoch w = e)\<rparr>) d))"
    by (rule rows_evolve_transition) (auto simp: cancel_spec_def)
  with CancelLeased cancel_under_lease_cases [of i m e d] show ?thesis by auto
next
  case (Degraded i e)
  then show ?thesis
    by (auto simp: mark_work_publish_degraded_def Let_def item_evolves_def intro!: rows_evolve_update)
next
  case (HeadSha i h e)
  then show ?thesis
    by (auto simp: update_running_work_head_sha_def Let_def item_evolves_def intro!: rows_evolve_update)
next
  case (LeaseOp y)
  then show ?thesis by (auto intro: rows_evolve_same_items)
qed (auto simp: claim_snd mark_work_completed_def force_mark_rescheduled_parent_completed_def
       transition_cancel_requested_lost_running_def mark_work_failed_def mark_work_retrying_def
       mark_work_cancelled_def cancel_spec_def intro!: rows_evolve_transition)


lemma work_step_item:
  assumes "item_at d i = Some w"
  shows "\<exists>w'. item_at (work_step x d) i = Some w' \<and> item_evolves w w'"
  using work_step_evolves assms by (rule rows_evolve_item)

lemma terminal_edge: "terminal s \<Longrightarrow> status_edge s t \<Longrightarrow> t = s"
  by (cases s) auto

definition settled_at :: "item_id \<Rightarrow> work_status \<Rightarrow> db \<Rightarrow> bool" where
  "settled_at i s d \<longleftrightarrow> terminal s \<and> (\<exists>w. item_at d i = Some w \<and> w_status w = s)"

interpretation settled: invariant_machine work_step "\<lambda>_. True" "settled_at i s" for i s
proof
  fix d :: db and x :: work_op
  assume "settled_at i s d"
  then obtain w where "terminal s" "item_at d i = Some w" "w_status w = s"
    by (auto simp: settled_at_def)
  with work_step_item [of d i w x] show "settled_at i s (work_step x d)"
    by (auto simp: settled_at_def item_evolves_def dest: terminal_edge)
qed

subsection \<open>What the operations promise\<close>

lemma transition_by_id:
  assumes "uniq w_id (items d)" and "sel_id spec = Some i"
  shows "fst (transition spec d) = (case item_at d i of None \<Rightarrow> [] | Some w \<Rightarrow>
    if transition_guard spec d w then [(w_status w, transition_set spec (now d) w)] else [])"
proof -
  have "select_where (transition_guard spec d) (items d) =
      filter (\<lambda>w. w_id w = i \<and> transition_guard spec d w) (items d)"
    using assms(2) by (auto simp: select_where_def transition_guard_def selects_def intro!: filter_cong)
  also have "\<dots> = (case item_at d i of None \<Rightarrow> [] | Some w \<Rightarrow>
      if transition_guard spec d w then [w] else [])"
    unfolding item_at_def by (rule filter_key [OF assms(1)])
  finally show ?thesis by (auto simp: transition_def split: option.splits)
qed

definition claimable :: "work_item \<Rightarrow> bool" where
  "claimable w \<longleftrightarrow> w_status w \<in> {Queued, Running} \<and> w_cancel_requested_at w = None"

definition claimed_row :: "time \<Rightarrow> int option \<Rightarrow> work_item \<Rightarrow> work_item" where
  "claimed_row t e w = w\<lparr>w_status := Running, w_started_at := coalesce (w_started_at w) (Some t),
     w_execution_epoch := (case e of Some n \<Rightarrow> n | None \<Rightarrow> w_execution_epoch w), w_updated_at := t\<rparr>"

lemma claim_set: "transition_set ((spec_for i from Running f)\<lparr>t_unless_cancel_requested := True,
    t_execution_epoch := Some e\<rparr>) t w = claimed_row t e w"
  by (cases e) (simp_all add: transition_set_def claimed_row_def)

lemma claim_result:
  assumes "uniq w_id (items d)" and "item_at d i = Some w"
  shows "claim_work_for_execution i e d =
    (if claimable w
     then (Some \<lparr>c_created_at = w_created_at w, c_started_at = coalesce (w_started_at w) (Some (now d)),
                 c_attempt_count = w_attempt_count w, c_resumed = (w_status w = Running)\<rparr>,
           snd (claim_work_for_execution i e d))
     else (None, d))"
proof -
  let ?spec = "(spec_for i [Queued, Running] Running (fence_for_epoch e))
     \<lparr>t_unless_cancel_requested := True, t_execution_epoch := Some e\<rparr>"
  have g: "transition_guard ?spec d w \<longleftrightarrow> claimable w"
    using item_at_id [OF assms(2)]
    by (auto simp: transition_guard_def selects_def claimable_def)
  have f: "fst (transition ?spec d) =
      (if claimable w then [(w_status w, claimed_row (now d) e w)] else [])"
    using assms g by (simp add: transition_by_id claim_set)
  show ?thesis
  proof (cases "claimable w")
    case True
    with f obtain d' where "transition ?spec d = ([(w_status w, claimed_row (now d) e w)], d')"
      by (metis prod.collapse)
    then have "claim_work_for_execution i e d =
        (Some \<lparr>c_created_at = w_created_at w, c_started_at = coalesce (w_started_at w) (Some (now d)),
               c_attempt_count = w_attempt_count w, c_resumed = (w_status w = Running)\<rparr>, d')"
      by (simp add: claim_work_for_execution_def claimed_row_def)
    with True show ?thesis by simp
  next
    case False
    with f have "\<not> fst (transitioned ?spec d)" by (simp add: transitioned_def)
    then have "snd (transition ?spec d) = d" by (rule transition_idle)
    with f False have "transition ?spec d = ([], d)" by (metis prod.collapse)
    with False show ?thesis by (simp add: claim_work_for_execution_def)
  qed
qed

lemma claim_item:
  assumes "item_at d i = Some w"
  shows "item_at (snd (claim_work_for_execution i e d)) i =
    Some (if claimable w then claimed_row (now d) e w else w)"
  using item_at_id [OF assms] assms
  by (auto simp: claim_snd item_at_transition claim_set transition_guard_def selects_def claimable_def)

lemma begin_attempt_started:
  assumes "begin_work_attempt i e n d = (Inr (AttemptStarted k), d')"
  obtains w where "item_at d i = Some w" "w_status w = Running" "w_cancel_requested_at w = None"
    "k = w_attempt_count w + 1" "w_attempt_count w < n"
    "\<And>m. e = Some m \<Longrightarrow> is_pr_actor_lease_held d i m"
    "item_at d' i = Some (w\<lparr>w_attempt_count := k, w_updated_at := now d\<rparr>)"
proof -
  from assms obtain w where w: "item_at d i = Some w" "w_status w = Running"
      "w_cancel_requested_at w = None" "k = w_attempt_count w + 1" "w_attempt_count w < n"
      "d' = d\<lparr>items := update_where (\<lambda>r. w_id r = i)
         (\<lambda>r. r\<lparr>w_attempt_count := w_attempt_count r + 1, w_updated_at := now d\<rparr>) (items d)\<rparr>"
      "\<And>m. e = Some m \<Longrightarrow> is_pr_actor_lease_held d i m"
    by (auto simp: begin_work_attempt_def lock_pr_actor_lease_for_update_def prog_defs
          is_pr_actor_lease_held_def split: option.splits prod.splits sum.splits if_splits)
  moreover from w have "item_at d' i = Some (w\<lparr>w_attempt_count := k, w_updated_at := now d\<rparr>)"
    by (auto simp: item_at_update dest: item_at_id)
  ultimately show thesis using that by blast
qed


lemma fenced_transition_idle:
  assumes "sel_id spec = Some i" and "t_execution_epoch spec = None"
    and "epoch_of (t_fence spec) = Some e" and "\<not> is_pr_actor_lease_held d i e"
  shows "transitioned spec d = (False, d)"
proof -
  have "\<not> fst (transitioned spec d)"
    using assms by (auto simp: transitioned_iff transition_guard_def selects_def)
  then show ?thesis by (metis prod.collapse snd_transitioned transition_idle)
qed

lemma fenced_update_idle:
  assumes "\<not> is_pr_actor_lease_held d i e"
    and "\<And>w. p w \<Longrightarrow> w_id w = i \<and> lease_fence_sql d (w_id w) (Some e)"
  shows "(0 < count_where p (items d), d\<lparr>items := update_where p f (items d)\<rparr>) = (False, d)"
proof -
  have no: "\<not> p w" for w
    using assms by (auto simp: lease_fence_sql_def is_pr_actor_lease_held_def)
  then have "update_where p f (items d) = items d" by (intro update_where_none)
  with no show ?thesis by (simp add: table_simps)
qed

lemma lock_not_held:
  "\<not> is_pr_actor_lease_held d i e \<Longrightarrow>
     snd (in_transaction (thenP (lock_pr_actor_lease_for_update i e) m) d) = d"
  by (simp add: lock_pr_actor_lease_for_update_def prog_defs is_pr_actor_lease_held_def)

lemma attempt_count_step:
  assumes "item_at d i = Some w" and "w_attempt_count w \<le> n"
    and "\<And>j e m. x = BeginAttempt j e m \<Longrightarrow> m \<le> n"
  shows "\<exists>w'. item_at (work_step x d) i = Some w' \<and> w_attempt_count w' \<le> n"
proof (cases x)
  case (BeginAttempt j e m)
  obtain r d' where b: "begin_work_attempt j e m d = (r, d')" by fastforce
  show ?thesis
  proof (cases "d' = d")
    case True
    with BeginAttempt b assms show ?thesis by simp
  next
    case False
    with b obtain k where "r = Inr (AttemptStarted k)"
      by (auto simp: begin_work_attempt_def lock_pr_actor_lease_for_update_def prog_defs
          split: option.splits prod.splits sum.splits if_splits)
    with b obtain v where v: "item_at d j = Some v" "w_attempt_count v < m"
        "item_at d' j = Some (v\<lparr>w_attempt_count := w_attempt_count v + 1, w_updated_at := now d\<rparr>)"
      by (metis begin_attempt_started)
    have "d' = d\<lparr>items := update_where (\<lambda>r. w_id r = j)
        (\<lambda>r. r\<lparr>w_attempt_count := w_attempt_count r + 1, w_updated_at := now d\<rparr>) (items d)\<rparr>"
      using begin_attempt_cases [of j e m d] b False by simp
    then have other: "j \<noteq> i \<Longrightarrow> item_at d' i = item_at d i"
      using assms(1) by (auto simp: item_at_update dest: item_at_id)
    show ?thesis
      using v other assms BeginAttempt b by (cases "j = i") auto
  qed
next
  case (Degraded j e)
  with assms show ?thesis by (simp add: mark_work_publish_degraded_def Let_def item_at_update)
next
  case (HeadSha j h e)
  with assms show ?thesis by (simp add: update_running_work_head_sha_def Let_def item_at_update)
next
  case (FailLost j m f)
  with assms fail_lost_cases [of j m f d] show ?thesis by (auto simp: item_at_transition)
next
  case (CancelLeased j m e)
  with assms cancel_under_lease_cases [of j m e d] show ?thesis by (auto simp: item_at_transition)
next
  case (LeaseOp y)
  with assms show ?thesis by (simp add: item_at_def)
qed (use assms in \<open>auto simp: claim_snd item_at_transition mark_work_completed_def
       force_mark_rescheduled_parent_completed_def transition_cancel_requested_lost_running_def
       mark_work_failed_def mark_work_retrying_def mark_work_cancelled_def\<close>)

definition attempts_at_most :: "item_id \<Rightarrow> int \<Rightarrow> db \<Rightarrow> bool" where
  "attempts_at_most i n d \<longleftrightarrow> (\<exists>w. item_at d i = Some w \<and> w_attempt_count w \<le> n)"

fun limit_at_most :: "int \<Rightarrow> work_op \<Rightarrow> bool" where
  "limit_at_most n (BeginAttempt i e m) = (m \<le> n)"
| "limit_at_most n _ = True"

interpretation attempts: invariant_machine work_step "limit_at_most n" "attempts_at_most i n" for i n
proof
  fix d :: db and x :: work_op
  assume "attempts_at_most i n d" and ok: "limit_at_most n x"
  then obtain w where "item_at d i = Some w" "w_attempt_count w \<le> n"
    by (auto simp: attempts_at_most_def)
  then show "attempts_at_most i n (work_step x d)"
    unfolding attempts_at_most_def by (rule attempt_count_step) (use ok in auto)
qed

lemma not_after_total: "not_after a b \<or> not_after b a"
  by (auto simp: not_after_def)

lemma not_after_trans: "not_after a b \<Longrightarrow> not_after b c \<Longrightarrow> not_after a c"
  by (auto simp: not_after_def)

lemma not_after_antisym: "not_after a b \<Longrightarrow> not_after b a \<Longrightarrow> w_id a = w_id b"
  by (auto simp: not_after_def)

lemma not_after_refl [simp]: "not_after a a"
  by (simp add: not_after_def)

definition queued_review :: "db \<Rightarrow> work_item \<Rightarrow> bool" where
  "queued_review d w \<longleftrightarrow> item_at d (w_id w) = Some w \<and> w_type w = Review \<and> w_status w = Queued"

lemma queue_position_eq:
  assumes "uniq w_id (items d)" and "queued_review d w"
  shows "get_review_queue_position (w_id w) d =
    Some (count_where (\<lambda>q. not_after q w) (queued_reviews (w_resource_key w) d),
          length (queued_reviews (w_resource_key w) d))"
proof -
  have w: "w \<in> set (items d)" "w_type w = Review" "w_status w = Queued"
    using assms(2) by (auto simp: queued_review_def dest: item_at_id)
  have "filter (\<lambda>v. w_id v = w_id w \<and> w_type v = Review \<and> w_status v = Queued) (items d) = [w]"
    using filter_key [OF assms(1), of "w_id w" "\<lambda>v. w_type v = Review \<and> w_status v = Queued"]
      assms(2) by (simp add: queued_review_def item_at_def)
  then have f: "find (\<lambda>v. w_id v = w_id w \<and> w_type v = Review \<and> w_status v = Queued) (items d) = Some w"
    by (simp add: find_filter)
  let ?q = "queued_reviews (w_resource_key w) d"
  have "w \<in> set ?q" using w by (simp add: queued_reviews_def select_where_def)
  then have "0 < count_where (\<lambda>q. not_after q w) ?q"
    unfolding count_where_pos_iff by (rule bexI [rotated]) simp
  moreover have "count_where (\<lambda>q. not_after q w) ?q \<le> length ?q"
    by (simp add: count_where_def)
  ultimately show ?thesis
    unfolding get_review_queue_position_def f by (simp add: Let_def)
qed

subsection \<open>Properties\<close>

text \<open>C8. A work item that is superseded, cancelled, completed or failed keeps that status
  whatever claims, marks, cancellations, lost-work sweeps and lease statements follow.\<close>

theorem terminal_status_absorbing:
  assumes "item_at d i = Some w" and "terminal (w_status w)"
  shows "\<exists>w'. item_at (fold work_step xs d) i = Some w' \<and> w_status w' = w_status w"
  using settled.inv_run [of i "w_status w" d xs] assms by (auto simp: settled_at_def)

theorem terminal_status_absorbing_witness:
  "\<exists>w'. item_at (fold work_step [Claim ''a'' None, Fail ''a'' ''x'' None, CancelQueued ''a'' ''y'']
      (sample_db [sample_item ''a'' Completed] [])) ''a'' = Some w' \<and>
    w_status w' = w_status (sample_item ''a'' Completed)"
  by (rule terminal_status_absorbing) (simp_all add: sample_defs item_at_def row_at_simps)

text \<open>A claim succeeds exactly on a queued or running work item without a cancellation
  request. It answers the creation time, the first start time, the number of earlier attempts and
  whether the item was already running, and leaves the item running under the epoch of the claim;
  a claim that fails changes no table.\<close>

lemma claim_work_spec:
  assumes "uniq w_id (items d)" and "item_at d i = Some w"
    and "claim_work_for_execution i e d = (r, d')"
  shows "if claimable w
    then r = Some \<lparr>c_created_at = w_created_at w,
           c_started_at = coalesce (w_started_at w) (Some (now d)),
           c_attempt_count = w_attempt_count w, c_resumed = (w_status w = Running)\<rparr> \<and>
         item_at d' i = Some (claimed_row (now d) e w)
    else r = None \<and> d' = d"
  using claim_result [OF assms(1,2), of e] claim_item [OF assms(2), of e]
  unfolding assms(3) by (simp split: if_splits)

lemma claim_work_spec_witness:
  "fst (claim_work_for_execution ''a'' (Some 7) (sample_db [sample_item ''a'' Queued] [])) =
     Some \<lparr>c_created_at = 5, c_started_at = Some 6, c_attempt_count = 1, c_resumed = False\<rparr>"
  using claim_work_spec [of "sample_db [sample_item ''a'' Queued] []" "''a''" "sample_item ''a'' Queued"
      "Some 7" "fst (claim_work_for_execution ''a'' (Some 7) (sample_db [sample_item ''a'' Queued] []))"
      "snd (claim_work_for_execution ''a'' (Some 7) (sample_db [sample_item ''a'' Queued] []))"]
  by (simp add: sample_defs item_at_def row_at_simps uniq_def claimable_def coalesce_def)

text \<open>The attempt counter of a work item never passes the attempt limit: after any sequence
  of operations in which every attempt is begun with a limit of at most \<open>n\<close>, the counter is at most
  \<open>n\<close> if it was before.\<close>

lemma attempts_within_limit:
  assumes "item_at d i = Some w" and "w_attempt_count w \<le> n"
    and "\<forall>x \<in> set xs. limit_at_most n x"
  shows "\<exists>w'. item_at (fold work_step xs d) i = Some w' \<and> w_attempt_count w' \<le> n"
  using attempts.inv_run [of i n d xs] assms by (auto simp: attempts_at_most_def)

lemma attempts_within_limit_witness:
  "\<exists>w'. item_at (fold work_step [BeginAttempt ''a'' None 2, BeginAttempt ''a'' None 2]
      (sample_db [sample_item ''a'' Running] [])) ''a'' = Some w' \<and> w_attempt_count w' \<le> 2"
  by (rule attempts_within_limit [of _ _ "sample_item ''a'' Running"])
    (simp_all add: sample_defs item_at_def row_at_simps)

text \<open>An attempt starts only on a running work item without a cancellation request, below the
  limit, under a held lease when the work type is leased; its number is one more than the stored
  counter, and the counter is stored before the attempt runs.\<close>

lemma attempt_start_spec:
  assumes "begin_work_attempt i e n d = (Inr (AttemptStarted k), d')"
  shows "\<exists>w. item_at d i = Some w \<and> w_status w = Running \<and> w_cancel_requested_at w = None \<and>
    k = w_attempt_count w + 1 \<and> k \<le> n \<and>
    (case e of None \<Rightarrow> True | Some m \<Rightarrow> is_pr_actor_lease_held d i m) \<and>
    item_at d' i = Some (w\<lparr>w_attempt_count := k, w_updated_at := now d\<rparr>)"
  using assms by (rule begin_attempt_started) (auto split: option.splits)

lemma attempt_start_spec_witness:
  "\<exists>w. item_at (sample_db [sample_item ''a'' Running] [sample_lease ''a'' 2 200]) ''a'' = Some w \<and>
     2 = w_attempt_count w + 1"
  using attempt_start_spec [of "''a''" "Some 2" 3
      "sample_db [sample_item ''a'' Running] [sample_lease ''a'' 2 200]" 2
      "snd (begin_work_attempt ''a'' (Some 2) 3
        (sample_db [sample_item ''a'' Running] [sample_lease ''a'' 2 200]))"]
  by (auto simp: sample_defs begin_work_attempt_def lock_pr_actor_lease_for_update_def prog_defs
      item_at_def row_at_simps table_simps holds_lease_def)

text \<open>C9. An execution that has lost its lease writes nothing: every fenced mark of its work item
  (completed, failed, retrying, cancelled, degraded, forced completion, head update, cancellation
  under the lease, new attempt) leaves the database as it is.\<close>

theorem lost_lease_writes_nothing:
  assumes "\<not> is_pr_actor_lease_held d i e"
    and "x \<in> {Complete i (Some e), Fail i m (Some e), Retrying i m (Some e), Cancel i (Some e),
              Degraded i (Some e), ForceComplete i e, HeadSha i h (Some e), CancelLeased i m e,
              BeginAttempt i (Some e) n}"
  shows "work_step x d = d"
  using assms(2)
proof (elim insertE emptyE)
  assume x: "x = Degraded i (Some e)"
  have "mark_work_publish_degraded i (Some e) d = (False, d)"
    unfolding mark_work_publish_degraded_def Let_def by (rule fenced_update_idle [OF assms(1)]) auto
  with x show ?thesis by simp
next
  assume x: "x = HeadSha i h (Some e)"
  have "update_running_work_head_sha i h (Some e) d = (False, d)"
    unfolding update_running_work_head_sha_def Let_def by (rule fenced_update_idle [OF assms(1)]) auto
  with x show ?thesis by simp
qed (use assms(1) in \<open>simp_all add: mark_work_completed_def mark_work_failed_def mark_work_retrying_def
      mark_work_cancelled_def force_mark_rescheduled_parent_completed_def
      begin_work_attempt_def cancel_under_lease_def lock_not_held fenced_transition_idle
      flip: snd_transitioned\<close>)

theorem lost_lease_writes_nothing_witness:
  "work_step (Complete ''a'' (Some 2)) (sample_db [sample_item ''a'' Running] [sample_lease ''a'' 3 200]) =
     sample_db [sample_item ''a'' Running] [sample_lease ''a'' 3 200]"
  by (rule lost_lease_writes_nothing [where i = "''a''" and e = 2])
    (simp_all add: sample_defs is_pr_actor_lease_held_def table_simps holds_lease_def)

text \<open>The queue position of a queued review is its rank among the queued reviews of its pull
  request, by creation time and then by id: it lies between 1 and the total, and an earlier review
  has a strictly smaller position with the same total.\<close>

lemma queue_position_is_rank:
  assumes "uniq w_id (items d)" and "queued_review d a" and "queued_review d b"
    and "w_resource_key a = w_resource_key b" and "w_id a \<noteq> w_id b" and "not_after a b"
  shows "\<exists>p q n. get_review_queue_position (w_id a) d = Some (p, n) \<and>
    get_review_queue_position (w_id b) d = Some (q, n) \<and> 1 \<le> p \<and> p < q \<and> q \<le> n"
proof -
  let ?q = "queued_reviews (w_resource_key a) d"
  let ?c = "\<lambda>w. count_where (\<lambda>v. not_after v w) ?q"
  have b: "b \<in> set ?q" and a: "a \<in> set ?q"
    using assms(2-4) by (auto simp: queued_reviews_def select_where_def queued_review_def dest: item_at_id)
  have "1 \<le> ?c a"
    using a count_where_pos_iff [of "\<lambda>v. not_after v a" ?q] not_after_refl [of a]
    by (metis One_nat_def Suc_leI)
  moreover have "?c a < ?c b"
    using assms(5,6) b
    by (intro count_where_less [of _ _ _ b]) (auto intro: not_after_trans dest: not_after_antisym)
  moreover have "?c b \<le> length ?q" by (simp add: count_where_def)
  ultimately show ?thesis
    using queue_position_eq [OF assms(1,2)] queue_position_eq [OF assms(1,3)] assms(4) by auto
qed

lemma queue_position_is_rank_witness:
  "\<exists>p q n. get_review_queue_position ''a'' (sample_db [sample_item ''b'' Queued, sample_item ''a'' Queued] [])
       = Some (p, n) \<and>
     get_review_queue_position ''b'' (sample_db [sample_item ''b'' Queued, sample_item ''a'' Queued] [])
       = Some (q, n) \<and> 1 \<le> p \<and> p < q \<and> q \<le> n"
  using queue_position_is_rank [of "sample_db [sample_item ''b'' Queued, sample_item ''a'' Queued] []"
      "sample_item ''a'' Queued" "sample_item ''b'' Queued"]
  by (simp add: sample_defs uniq_def queued_review_def item_at_def row_at_simps not_after_def)

end
