(* ===== verification/Leased_Execution.thy ===== *)
theory Leased_Execution
  imports Work_Items
begin

text \<open>
  Opening, watching and closing a durable execution: \<^verbatim>\<open>armLeaseWatchdogHop\<close> of
  \<^verbatim>\<open>src/agentWork/prActorLease.ts\<close> and \<^verbatim>\<open>src/agentWork/leasedExecution.ts\<close>.

  The queue service (pg-boss) is a parameter: its two operations that the code calls. What the
  code relies on is \<open>boss_ok\<close>: sending touches only the jobs, a send that answers an id leaves a
  pending job under the singleton key, and \<open>findJobs\<close> reads the jobs under a key. The timers of
  an execution are steps on its record: a renewal tick and a cancellation tick, which a release
  stops.

  The lemmas show that a reported live hop is a pending job, that the lease and the claim are
  taken together or not at all, that a released execution is inert, that the first stop reason
  stays, and that a stale release cannot disturb the next holder.
\<close>

subsection \<open>The watchdog hop\<close>

record send_request =
  s_queue :: string
  s_item :: item_id
  s_key :: string
  s_defer :: int
  s_priority :: "int option"
  s_group :: string

record boss_api =
  b_send :: "send_request \<Rightarrow> (db, string option) prog"
  b_find_jobs :: "string \<Rightarrow> string \<Rightarrow> (db, queue_job list) prog"

definition pr_actor_lease_defer_seconds :: int where
  "pr_actor_lease_defer_seconds = 15"

definition is_pending_watchdog_hop :: "queue_job \<Rightarrow> bool" where
  "is_pending_watchdog_hop j \<longleftrightarrow> j_state j = Created \<or> j_state j = Retry"

text \<open>
  The statement that frees the throttling slots of finished hops: the current slot and the next
  one, for slots of \<open>n\<close> seconds.
\<close>

definition free_slots :: "string \<Rightarrow> string \<Rightarrow> string list \<Rightarrow> int \<Rightarrow> db \<Rightarrow> db" where
  "free_slots queue key ids n d =
     (let slot = seconds n * (now d div seconds n)
      in d\<lparr>jobs := update_where
             (\<lambda>j. j_name j = queue \<and> j_singleton_key j = Some key \<and> j_id j \<in> set ids \<and>
                  j_state j \<in> {JobCompleted, JobFailed} \<and>
                  (j_singleton_on j = Some slot \<or> j_singleton_on j = Some (slot + seconds n)))
             (\<lambda>j. j\<lparr>j_singleton_on := None\<rparr>) (jobs d)\<rparr>)"

definition finished_slot_holders :: "queue_job list \<Rightarrow> string list" where
  "finished_slot_holders hops =
     map j_id (filter (\<lambda>j. (j_state j = JobCompleted \<or> j_state j = JobFailed) \<and>
       j_singleton_on j \<noteq> None) hops)"

definition watchdog_arm_failed :: js_error where
  "watchdog_arm_failed = AppError ''agent_work'' ''lease_watchdog_arm_failed'' []"

definition arm_lease_watchdog_hop :: "boss_api \<Rightarrow> send_request \<Rightarrow> bool \<Rightarrow> (db, bool) prog" where
  "arm_lease_watchdog_hop boss req throw_on_failure =
     bindP (b_send boss req) (\<lambda>hop.
       if hop \<noteq> None then returnP True
       else bindP (b_find_jobs boss (s_queue req) (s_key req)) (\<lambda>hops.
         if list_ex is_pending_watchdog_hop hops then returnP True
         else
           let ids = finished_slot_holders hops;
               give_up = (\<lambda>live. if \<not> live \<and> throw_on_failure then throwP watchdog_arm_failed
                                  else returnP live)
           in if ids = [] then give_up False
              else thenP (stepP (\<lambda>d. ((), free_slots (s_queue req) (s_key req) ids (s_defer req) d)))
                (bindP (b_send boss req) (\<lambda>rearmed.
                  if rearmed \<noteq> None then returnP True
                  else bindP (b_find_jobs boss (s_queue req) (s_key req)) (\<lambda>again.
                    give_up (list_ex is_pending_watchdog_hop again))))))"

definition pending_hop :: "db \<Rightarrow> send_request \<Rightarrow> bool" where
  "pending_hop d req \<longleftrightarrow> exists_where (\<lambda>j. j_name j = s_queue req \<and>
     j_singleton_key j = Some (s_key req) \<and> is_pending_watchdog_hop j) (jobs d)"

definition only_jobs_change :: "db \<Rightarrow> db \<Rightarrow> bool" where
  "only_jobs_change d d' \<longleftrightarrow> (\<exists>js. d' = d\<lparr>jobs := js\<rparr>)"

definition boss_ok :: "boss_api \<Rightarrow> bool" where
  "boss_ok boss \<longleftrightarrow>
     (\<forall>req d. only_jobs_change d (snd (b_send boss req d))) \<and>
     (\<forall>req d i d'. b_send boss req d = (Inr (Some i), d') \<longrightarrow> pending_hop d' req) \<and>
     (\<forall>q k d. snd (b_find_jobs boss q k d) = d) \<and>
     (\<forall>q k d hops d'. b_find_jobs boss q k d = (Inr hops, d') \<longrightarrow>
        set hops = {j \<in> set (jobs d). j_name j = q \<and> j_singleton_key j = Some k})"

subsection \<open>Taking the lease and the claim together\<close>

definition is_postgres_deadlock_error :: "js_error \<Rightarrow> bool" where
  "is_postgres_deadlock_error e =
     (case e of ForeignError f \<Rightarrow> fe_code f = Some ''40P01'' | _ \<Rightarrow> False)"

text \<open>
  A database transaction does not cover the jobs that the body sends: pg-boss uses its own
  connection.
\<close>

definition db_transaction :: "(db, 'a) prog \<Rightarrow> (db, 'a) prog" where
  "db_transaction m = (\<lambda>s. case m s of
      (Inl e, s') \<Rightarrow> (Inl e, s\<lparr>jobs := jobs s'\<rparr>) | (Inr x, s') \<Rightarrow> (Inr x, s'))"

datatype atomic_claim =
    ClaimedUnder int work_claim
  | HeldByOther "item_id option" int
  | NotClaimable

definition lease_holder_body ::
  "boss_api \<Rightarrow> send_request \<Rightarrow> bool \<Rightarrow> lease_key \<Rightarrow> item_id \<Rightarrow> string \<Rightarrow> int \<Rightarrow> (db, atomic_claim) prog" where
  "lease_holder_body boss req seeded k i holder ttl =
     bindP (stepP (acquire_pr_actor_lease k i holder ttl)) (\<lambda>acquisition.
       case acquisition of
         LeaseUnavailable other e \<Rightarrow>
           (if seeded then returnP (HeldByOther other e)
            else bindP (arm_lease_watchdog_hop boss req True) (\<lambda>_. returnP (HeldByOther other e)))
       | LeaseAcquired e \<Rightarrow>
           bindP (catchP (stepP (claim_work_for_execution i (Some e)))
                    (\<lambda>err. thenP (stepP (\<lambda>d. ((), release_pr_actor_lease k e d))) (throwP err)))
             (\<lambda>claimed. case claimed of
                None \<Rightarrow> thenP (stepP (\<lambda>d. ((), release_pr_actor_lease k e d))) (returnP NotClaimable)
              | Some c \<Rightarrow> returnP (ClaimedUnder e c)))"

text \<open>\<open>transact n\<close> runs the n-th attempt in a transaction; a deadlock is retried once.\<close>

definition acquire_and_claim_work_item ::
  "(nat \<Rightarrow> (db, atomic_claim) prog \<Rightarrow> (db, atomic_claim) prog) \<Rightarrow> boss_api \<Rightarrow> send_request \<Rightarrow> bool \<Rightarrow>
   lease_key \<Rightarrow> item_id \<Rightarrow> string \<Rightarrow> int \<Rightarrow> (db, atomic_claim) prog" where
  "acquire_and_claim_work_item transact boss req seeded k i holder ttl =
     (let attempt = (\<lambda>n. transact n (lease_holder_body boss req seeded k i holder ttl))
      in catchP (attempt 0)
           (\<lambda>e. if is_postgres_deadlock_error e then attempt 1 else throwP e))"

subsection \<open>The execution and its timers\<close>

datatype stop_reason = LeaseLost | CancellationObserved

record execution =
  x_item :: item_id
  x_key :: "lease_key option"
  x_release_key :: "lease_key option"
  x_epoch :: "int option"
  x_claim :: work_claim
  x_stop :: "stop_reason option"
  x_aborted :: bool
  x_renewing :: bool
  x_observing :: bool

definition opened :: "item_id \<Rightarrow> lease_key option \<Rightarrow> int option \<Rightarrow> work_claim \<Rightarrow> execution" where
  "opened i k e c = \<lparr>x_item = i, x_key = k, x_release_key = k, x_epoch = e, x_claim = c,
     x_stop = None, x_aborted = False, x_renewing = (k \<noteq> None), x_observing = False\<rparr>"

definition open_leased_execution ::
  "(nat \<Rightarrow> (db, atomic_claim) prog \<Rightarrow> (db, atomic_claim) prog) \<Rightarrow> boss_api \<Rightarrow> work_type \<Rightarrow> work_item \<Rightarrow>
   string option \<Rightarrow> int option \<Rightarrow> string \<Rightarrow> string \<Rightarrow> int \<Rightarrow> (db, execution option) prog" where
  "open_leased_execution transact boss t core queue priority grp holder ttl =
     (case queue of
        Some q \<Rightarrow>
          if w_status core \<noteq> Queued \<and> w_status core \<noteq> Running then returnP None
          else
            let k = (w_resource_key core, t);
                req = \<lparr>s_queue = q, s_item = w_id core, s_key = w_id core,
                       s_defer = pr_actor_lease_defer_seconds, s_priority = priority, s_group = grp\<rparr>
            in bindP (catchP (arm_lease_watchdog_hop boss req False) (\<lambda>_. returnP False)) (\<lambda>seeded.
                 bindP (acquire_and_claim_work_item transact boss req seeded k (w_id core) holder ttl)
                   (\<lambda>r. case r of
                      ClaimedUnder e c \<Rightarrow> returnP (Some (opened (w_id core) (Some k) (Some e) c))
                    | HeldByOther _ _ \<Rightarrow> returnP None
                    | NotClaimable \<Rightarrow> returnP None))
      | None \<Rightarrow>
          bindP (stepP (claim_work_for_execution (w_id core) None)) (\<lambda>claimed.
            case claimed of
              None \<Rightarrow> returnP None
            | Some c \<Rightarrow> returnP (Some (opened (w_id core) None None c))))"

definition stop_with :: "stop_reason \<Rightarrow> execution \<Rightarrow> execution" where
  "stop_with r x = x\<lparr>x_stop := coalesce (x_stop x) (Some r), x_aborted := True\<rparr>"

text \<open>One tick of the renewal timer; \<open>fault\<close> is a query that failed, which is only logged.\<close>

definition lease_renewal_tick :: "int \<Rightarrow> bool \<Rightarrow> execution \<times> db \<Rightarrow> execution \<times> db" where
  "lease_renewal_tick ttl fault xd =
     (case xd of (x, d) \<Rightarrow>
        case (x_key x, x_epoch x) of
          (Some k, Some e) \<Rightarrow>
            if \<not> x_renewing x \<or> fault then (x, d)
            else (case renew_pr_actor_lease k e ttl (x_item x) d of
                    (True, d') \<Rightarrow> (x, d')
                  | (False, d') \<Rightarrow> (stop_with LeaseLost (x\<lparr>x_renewing := False\<rparr>), d'))
        | _ \<Rightarrow> (x, d))"

text \<open>
  One tick of the cancellation timer. The two reads are separate queries: \<open>env\<close> is what other
  sessions committed between them.
\<close>

definition cancel_observe_tick :: "bool \<Rightarrow> (db \<Rightarrow> db) \<Rightarrow> execution \<times> db \<Rightarrow> execution \<times> db" where
  "cancel_observe_tick fault env xd =
     (case xd of (x, d) \<Rightarrow>
        case x_epoch x of
          None \<Rightarrow> (x, d)
        | Some e \<Rightarrow>
            if \<not> x_observing x then (x, d)
            else if fault then (x, env d)
            else
              let skip = should_skip_work d (x_item x);
                  held = is_pr_actor_lease_held (env d) (x_item x) e
              in if \<not> skip \<and> held then (x, env d)
                 else (stop_with (if skip then CancellationObserved else LeaseLost)
                         (x\<lparr>x_observing := False\<rparr>), env d))"

definition observe_cancellation :: "execution \<Rightarrow> execution" where
  "observe_cancellation x =
     (if x_key x = None \<or> x_epoch x = None then x else x\<lparr>x_observing := True\<rparr>)"

definition release_execution :: "bool \<Rightarrow> execution \<times> db \<Rightarrow> execution \<times> db" where
  "release_execution fault xd =
     (case xd of (x, d) \<Rightarrow>
        let y = x\<lparr>x_observing := False, x_renewing := False\<rparr>
        in case (x_release_key x, x_epoch x) of
             (Some k, Some e) \<Rightarrow>
               (y\<lparr>x_release_key := None\<rparr>, if fault then d else release_pr_actor_lease k e d)
           | _ \<Rightarrow> (y, d))"

definition owns :: "execution \<Rightarrow> db \<Rightarrow> bool" where
  "owns x d \<longleftrightarrow>
     (case x_epoch x of None \<Rightarrow> True | Some e \<Rightarrow> is_pr_actor_lease_held d (x_item x) e)"

definition require_lease_epoch :: "execution \<Rightarrow> js_error + int" where
  "require_lease_epoch x = (case x_epoch x of None \<Rightarrow> Inl lease_lost | Some e \<Rightarrow> Inr e)"

definition cancel_while_owned :: "execution \<Rightarrow> item_id \<Rightarrow> (db \<Rightarrow> db) \<Rightarrow> (db, bool option) prog" where
  "cancel_while_owned x i env =
     bindP (readP (\<lambda>d. case x_epoch x of None \<Rightarrow> True | Some e \<Rightarrow> is_pr_actor_lease_held d i e))
       (\<lambda>owned. if \<not> owned then returnP None
         else bindP (stepP (\<lambda>d. mark_work_cancelled i (x_epoch x) (env d))) (\<lambda>b. returnP (Some b)))"

text \<open>\<open>mark.beginAttempt\<close> retries one deadlock; \<open>fault\<close> is the error of the first attempt, if any.\<close>

definition mark_begin_attempt ::
  "execution \<Rightarrow> item_id \<Rightarrow> int \<Rightarrow> js_error option \<Rightarrow> (db, work_attempt_result) prog" where
  "mark_begin_attempt x i limit fault =
     catchP (case fault of Some e \<Rightarrow> throwP e | None \<Rightarrow> begin_work_attempt i (x_epoch x) limit)
       (\<lambda>e. if is_postgres_deadlock_error e then begin_work_attempt i (x_epoch x) limit else throwP e)"

definition mark_force_completed :: "execution \<Rightarrow> item_id \<Rightarrow> (db, bool) prog" where
  "mark_force_completed x i =
     (case require_lease_epoch x of
        Inl e \<Rightarrow> throwP e
      | Inr e \<Rightarrow> stepP (force_mark_rescheduled_parent_completed i e))"

subsection \<open>The watchdog touches only the jobs\<close>

lemma only_jobs_refl [simp]: "only_jobs_change d d"
  unfolding only_jobs_change_def by (rule exI [of _ "jobs d"]) simp

lemma only_jobs_set [simp]: "only_jobs_change d (d\<lparr>jobs := js\<rparr>)"
  unfolding only_jobs_change_def by (rule exI) (rule refl)

lemma only_jobs_trans: "only_jobs_change a b \<Longrightarrow> only_jobs_change b c \<Longrightarrow> only_jobs_change a c"
  by (auto simp: only_jobs_change_def)

lemma only_jobs_free: "only_jobs_change d (free_slots q k ids n d)"
  by (auto simp: only_jobs_change_def free_slots_def Let_def)

lemma only_jobs_tables:
  assumes "only_jobs_change d d'"
  shows "leases d' = leases d" "items d' = items d" "intents d' = intents d" "records d' = records d"
    "now d' = now d"
  using assms by (auto simp: only_jobs_change_def)

lemma keeps_send: "boss_ok b \<Longrightarrow> keeps (only_jobs_change d) (b_send b req)"
  unfolding keeps_def boss_ok_def by (blast intro: only_jobs_trans)

lemma keeps_find: "boss_ok b \<Longrightarrow> keeps P (b_find_jobs b q k)"
  by (simp add: keeps_def boss_ok_def)

lemma keeps_free: "keeps (only_jobs_change d) (stepP (\<lambda>s. ((), free_slots q k ids n s)))"
  by (rule keeps_step) (auto intro: only_jobs_trans only_jobs_free)

lemma keeps_arm:
  assumes "boss_ok b"
  shows "keeps (only_jobs_change d) (arm_lease_watchdog_hop b req t)"
  unfolding arm_lease_watchdog_hop_def Let_def
  by (auto intro!: keeps_bind keeps_then keeps_send [OF assms] keeps_find [OF assms] keeps_free)

lemma arm_only_jobs:
  "boss_ok b \<Longrightarrow> only_jobs_change d (snd (arm_lease_watchdog_hop b req t d))"
  by (rule keepsD [OF keeps_arm]) simp_all

text \<open>What a successful send, and a look at the jobs, tell about pending hops.\<close>

lemma send_some_pending: "boss_ok b \<Longrightarrow> b_send b req d = (Inr (Some i), d') \<Longrightarrow> pending_hop d' req"
  unfolding boss_ok_def by blast

lemma find_pending:
  assumes "boss_ok b" and "b_find_jobs b (s_queue req) (s_key req) d = (Inr hops, d')"
  shows "d' = d \<and> (list_ex is_pending_watchdog_hop hops \<longleftrightarrow> pending_hop d' req)"
proof -
  have "d' = d" using assms by (metis boss_ok_def snd_conv)
  moreover have "set hops = {j \<in> set (jobs d). j_name j = s_queue req \<and> j_singleton_key j = Some (s_key req)}"
    using assms unfolding boss_ok_def by blast
  ultimately show ?thesis
    by (auto simp: pending_hop_def table_simps list_ex_iff)
qed

lemma arm_live_cases:
  assumes "boss_ok b" and "arm_lease_watchdog_hop b req t d = (Inr live, d')"
  shows "(live \<longrightarrow> pending_hop d' req) \<and> (t \<longrightarrow> live)"
proof -
  note steps = bindP_Inr_iff thenP_def
  show ?thesis
    using assms(2) unfolding arm_lease_watchdog_hop_def Let_def
    by (fastforce simp: steps returnP_def throwP_def split: if_splits
        dest: send_some_pending [OF assms(1)] find_pending [OF assms(1)])
qed

subsection \<open>The lease and the claim\<close>

lemma held_same_tables:
  "leases d' = leases d \<Longrightarrow> now d' = now d \<Longrightarrow> is_pr_actor_lease_held d' w e = is_pr_actor_lease_held d w e"
  by (simp add: is_pr_actor_lease_held_def)

lemma acquire_items: "items (snd (acquire_pr_actor_lease k w h ttl d)) = items d"
  using lease_step_tables(1) [of "Acquire k w h ttl" d] by simp

lemma acquire_now: "now (snd (acquire_pr_actor_lease k w h ttl d)) = now d"
proof -
  obtain r d' where a: "acquire_pr_actor_lease k w h ttl d = (r, d')" by fastforce
  then have "now d' = now d" by (cases rule: acquire_cases) auto
  with a show ?thesis by simp
qed

lemma claim_same: "leases (snd (claim_work_for_execution i e d)) = leases d"
  "now (snd (claim_work_for_execution i e d)) = now d"
  by (simp_all add: claim_snd)

lemma claim_none: "claim_work_for_execution i e d = (None, d') \<Longrightarrow> d' = d"
  using transition_idle [of "(spec_for i [Queued, Running] Running (fence_for_epoch e))
      \<lparr>t_unless_cancel_requested := True, t_execution_epoch := Some e\<rparr>" d]
  by (auto simp: claim_work_for_execution_def transitioned_def split: prod.splits list.splits)

lemma claim_some:
  assumes "uniq w_id (items d)" and "claim_work_for_execution i e d = (Some c, d')"
  shows "\<exists>w. item_at d i = Some w \<and> claimable w \<and> item_at d' i = Some (claimed_row (now d) e w)"
proof -
  have "fst (transition ((spec_for i [Queued, Running] Running (fence_for_epoch e))
      \<lparr>t_unless_cancel_requested := True, t_execution_epoch := Some e\<rparr>) d) \<noteq> []"
    using assms(2) by (auto simp: claim_work_for_execution_def split: prod.splits list.splits)
  then obtain w where w: "item_at d i = Some w"
    using assms(1) by (auto simp: transition_by_id split: option.splits)
  have "claimable w"
    using claim_result [OF assms(1) w, of e] assms(2) by (auto split: if_splits)
  with w claim_item [OF w, of e] assms(2) show ?thesis by auto
qed

lemma acquired_held:
  assumes "lease_owned key_of d" and "key_of w = k" and "0 < ttl"
    and "acquire_pr_actor_lease k w h ttl d = (LeaseAcquired e, d')"
  shows "e = epoch_at d k + 1 \<and> is_pr_actor_lease_held d' w e"
  using assms(4)
proof (cases rule: acquire_cases)
  case (New l)
  with assms(3,4) show ?thesis
    by (auto simp: epoch_at_def is_pr_actor_lease_held_def table_simps holds_lease_def)
next
  case (Taken old)
  let ?l = "old\<lparr>l_lease_epoch := l_lease_epoch old + 1, l_work_item_id := Some w,
      l_holder_id := Some h, l_acquired_at := now d, l_renewed_at := now d,
      l_expires_at := now d + seconds ttl\<rparr>"
  have "lease_at d' k = Some ?l"
    using Taken(1,4) by (auto simp: lease_at_update dest: lease_at_in)
  then have "?l \<in> set (leases d')" by (simp add: lease_at_in)
  then have "is_pr_actor_lease_held d' w (l_lease_epoch old + 1)"
    unfolding is_pr_actor_lease_held_def exists_where_iff
    by (rule bexI [rotated]) (use Taken(4) assms(3) in \<open>simp add: holds_lease_def\<close>)
  with Taken show ?thesis by (simp add: epoch_at_def)
qed simp

lemma released_free:
  assumes "release_pr_actor_lease k e d = d'" and "lease_owned key_of d" and "epoch_at d k = e"
  shows "\<forall>w. key_of w = k \<longrightarrow> \<not> is_pr_actor_lease_held d' w e'"
proof (intro allI impI notI)
  fix w assume k: "key_of w = k" and h: "is_pr_actor_lease_held d' w e'"
  have own: "lease_owned key_of d'"
    using lease_owned_step [OF assms(2), of "Release k e"] assms(1) by simp
  from h k obtain l where l: "lease_at d' k = Some l" "l_work_item_id l = Some w"
    unfolding held_iff [OF own] by (auto simp: holds_lease_def)
  from l(1) obtain o' where o': "lease_at d k = Some o'"
      "l = (if lease_key o' = k \<and> l_lease_epoch o' = e then clear_holder (now d) o' else o')"
    unfolding assms(1) [symmetric] release_pr_actor_lease_def by (auto simp: lease_at_update)
  with assms(3) l(2) show False
    by (auto simp: epoch_at_def dest: lease_at_in)
qed

lemma lease_owned_same: "leases d' = leases d \<Longrightarrow> lease_owned key_of d' = lease_owned key_of d"
  by (simp add: lease_owned_def)

lemma body_outcome:
  assumes "boss_ok b" and "lease_owned key_of d" and "key_of i = k" and "0 < ttl"
    and "uniq w_id (items d)" and "lease_holder_body b req seeded k i h ttl d = (r, d')"
  shows "case r of
      Inl _ \<Rightarrow> only_jobs_change d d'
    | Inr (ClaimedUnder e c) \<Rightarrow> e = epoch_at d k + 1 \<and> is_pr_actor_lease_held d' i e \<and>
        (\<exists>w. item_at d i = Some w \<and> claimable w \<and>
             item_at d' i = Some (claimed_row (now d) (Some e) w))
    | Inr (HeldByOther other e) \<Rightarrow> only_jobs_change d d' \<and> (seeded \<or> pending_hop d' req)
    | Inr NotClaimable \<Rightarrow> items d' = items d \<and>
        (\<forall>w e. key_of w = k \<longrightarrow> \<not> is_pr_actor_lease_held d' w e)"
proof -
  obtain acq d1 where a: "acquire_pr_actor_lease k i h ttl d = (acq, d1)" by fastforce
  show ?thesis
  proof (cases acq)
    case (LeaseAcquired e)
    with a have e: "e = epoch_at d k + 1" "is_pr_actor_lease_held d1 i e"
      using acquired_held [OF assms(2-4)] by auto
    have d1: "items d1 = items d" "now d1 = now d"
      using acquire_items [of k i h ttl d] acquire_now [of k i h ttl d] a by simp_all
    have own: "lease_owned key_of d1"
      using lease_owned_acquire [OF assms(2,3), of h ttl] a by simp
    obtain cl d2 where c: "claim_work_for_execution i (Some e) d1 = (cl, d2)" by fastforce
    show ?thesis
    proof (cases cl)
      case None
      with c claim_none have "d2 = d1" by blast
      then have r: "r = Inr NotClaimable" and d': "release_pr_actor_lease k e d1 = d'"
        using assms(6) a c None LeaseAcquired by (auto simp: lease_holder_body_def prog_defs)
      have "epoch_at d1 k = e"
        using held_epoch_at [OF own e(2)] assms(3) by simp
      with released_free [OF d' own] r d1 d' show ?thesis
        by (auto simp: release_pr_actor_lease_def)
    next
      case (Some cc)
      have uq: "uniq w_id (items d1)" using assms(5) d1 by simp
      have "is_pr_actor_lease_held d2 i e"
        using e(2) claim_same [of i "Some e" d1] c held_same_tables [of d2 d1] by simp
      with claim_some [OF uq] c Some d1 e assms(6) a LeaseAcquired show ?thesis
        by (auto simp: lease_holder_body_def prog_defs item_at_def)
    qed
  next
    case (LeaseUnavailable other e)
    from a have same: "d1 = d"
      using LeaseUnavailable by (cases rule: acquire_cases) auto
    obtain live d2 where arm: "arm_lease_watchdog_hop b req True d = (live, d2)" by fastforce
    show ?thesis
      using assms(6) a arm LeaseUnavailable same arm_only_jobs [OF assms(1), of d req True]
        arm_live_cases [OF assms(1), of req True d]
      by (auto simp: lease_holder_body_def prog_defs split: if_splits sum.splits)
  qed
qed

definition transact_ok :: "(nat \<Rightarrow> (db, 'a) prog \<Rightarrow> (db, 'a) prog) \<Rightarrow> bool" where
  "transact_ok t \<longleftrightarrow> (\<forall>n m d. t n m d = db_transaction m d \<or> (\<exists>e. t n m d = (Inl e, d)))"

definition claim_outcome ::
  "(item_id \<Rightarrow> lease_key) \<Rightarrow> lease_key \<Rightarrow> item_id \<Rightarrow> send_request \<Rightarrow> bool \<Rightarrow> db \<Rightarrow> js_error + atomic_claim \<Rightarrow> db \<Rightarrow> bool"
  where
  "claim_outcome key_of k i req seeded d r d' = (case r of
      Inl _ \<Rightarrow> only_jobs_change d d'
    | Inr (ClaimedUnder e c) \<Rightarrow> e = epoch_at d k + 1 \<and> is_pr_actor_lease_held d' i e \<and>
        (\<exists>w. item_at d i = Some w \<and> claimable w \<and>
             item_at d' i = Some (claimed_row (now d) (Some e) w))
    | Inr (HeldByOther other e) \<Rightarrow> only_jobs_change d d' \<and> (seeded \<or> pending_hop d' req)
    | Inr NotClaimable \<Rightarrow> items d' = items d \<and>
        (\<forall>w e. key_of w = k \<longrightarrow> \<not> is_pr_actor_lease_held d' w e))"

lemma claim_outcome_jobs:
  assumes "only_jobs_change d d1" and "claim_outcome key_of k i req seeded d1 r d'"
  shows "claim_outcome key_of k i req seeded d r d'"
proof -
  have eqs: "epoch_at d1 k = epoch_at d k" "item_at d1 i = item_at d i" "items d1 = items d"
      "now d1 = now d"
    using only_jobs_tables [OF assms(1)] by (simp_all add: epoch_at_def lease_at_def item_at_def)
  show ?thesis
    using assms(2) only_jobs_trans [OF assms(1)] unfolding claim_outcome_def eqs
    by (cases r) (auto split: atomic_claim.splits)
qed

lemma transact_outcome:
  assumes "transact_ok t" and "boss_ok b" and "lease_owned key_of d" and "key_of i = k" and "0 < ttl"
    and "uniq w_id (items d)" and "t n (lease_holder_body b req seeded k i h ttl) d = (r, d')"
  shows "claim_outcome key_of k i req seeded d r d'"
proof -
  obtain r1 d1 where body: "lease_holder_body b req seeded k i h ttl d = (r1, d1)" by fastforce
  have out: "claim_outcome key_of k i req seeded d r1 d1"
    using body_outcome [OF assms(2-6) body] by (simp add: claim_outcome_def)
  from assms(1) have "t n (lease_holder_body b req seeded k i h ttl) d =
      db_transaction (lease_holder_body b req seeded k i h ttl) d \<or>
      (\<exists>e. t n (lease_holder_body b req seeded k i h ttl) d = (Inl e, d))"
    unfolding transact_ok_def by blast
  with assms(7) body out show ?thesis
    by (auto simp: db_transaction_def claim_outcome_def split: sum.splits)
qed

subsection \<open>Running an execution\<close>

datatype exec_op =
    RenewTick int bool
  | ObserveTick bool "db \<Rightarrow> db"
  | ReleaseExec bool
  | Outside "db \<Rightarrow> db"

fun exec_step :: "exec_op \<Rightarrow> execution \<times> db \<Rightarrow> execution \<times> db" where
  "exec_step (RenewTick ttl f) xd = lease_renewal_tick ttl f xd"
| "exec_step (ObserveTick f env) xd = cancel_observe_tick f env xd"
| "exec_step (ReleaseExec f) xd = release_execution f xd"
| "exec_step (Outside env) xd = (fst xd, env (snd xd))"

fun outside_step :: "exec_op \<Rightarrow> db \<Rightarrow> db" where
  "outside_step (Outside env) d = env d"
| "outside_step _ d = d"

definition released :: "execution \<Rightarrow> bool" where
  "released x \<longleftrightarrow> \<not> x_renewing x \<and> \<not> x_observing x \<and> (x_release_key x = None \<or> x_epoch x = None)"

lemma release_released: "released (fst (release_execution f xd))"
  by (auto simp: release_execution_def released_def Let_def split: prod.splits option.splits)

lemma released_step:
  assumes "released x"
  shows "exec_step op (x, d) = (x, outside_step op d)"
  using assms
  by (cases op) (auto simp: released_def lease_renewal_tick_def cancel_observe_tick_def
      release_execution_def Let_def split: option.splits)

lemma released_run: "released x \<Longrightarrow> fold exec_step ops (x, d) = (x, fold outside_step ops d)"
  by (induction ops arbitrary: d) (simp_all add: released_step)

interpretation stopped: invariant_machine exec_step "\<lambda>_. True" "\<lambda>xd. x_stop (fst xd) = Some r" for r
proof
  fix xd :: "execution \<times> db" and op :: exec_op
  assume "x_stop (fst xd) = Some r"
  then show "x_stop (fst (exec_step op xd)) = Some r"
    by (cases op) (auto simp: lease_renewal_tick_def cancel_observe_tick_def release_execution_def
        Let_def stop_with_def coalesce_def split: prod.splits option.splits bool.splits)
qed

subsection \<open>Properties\<close>

text \<open>When arming the watchdog reports a live hop, a pending job stands under the singleton key,
  and with \<open>onSendFailure: throw\<close> the call either reports one or throws.\<close>

lemma live_hop_is_pending:
  assumes "boss_ok b" and "arm_lease_watchdog_hop b req throwing d = (Inr live, d')"
  shows "(live \<longrightarrow> pending_hop d' req) \<and> (throwing \<longrightarrow> live)"
  using assms by (rule arm_live_cases)

definition sample_boss :: boss_api where
  "sample_boss = \<lparr>b_send = (\<lambda>req d. (Inr (Some (s_item req)), d\<lparr>jobs := jobs d @
        [\<lparr>j_id = s_item req, j_name = s_queue req, j_state = Created, j_singleton_key = Some (s_key req),
          j_singleton_on = None, j_work_item_id = Some (s_item req)\<rparr>]\<rparr>)),
     b_find_jobs = (\<lambda>q k d. (Inr (filter (\<lambda>j. j_name j = q \<and> j_singleton_key j = Some k) (jobs d)), d))\<rparr>"

definition sample_request :: send_request where
  "sample_request = \<lparr>s_queue = ''agent-work-review'', s_item = ''a'', s_key = ''a'', s_defer = 15,
     s_priority = None, s_group = ''1''\<rparr>"

lemma sample_boss_ok: "boss_ok sample_boss"
  unfolding boss_ok_def sample_boss_def pending_hop_def is_pending_watchdog_hop_def
  by (auto simp: only_jobs_change_def table_simps)

lemma live_hop_is_pending_witness:
  "pending_hop (snd (arm_lease_watchdog_hop sample_boss sample_request True (sample_db [] []))) sample_request"
  using live_hop_is_pending [OF sample_boss_ok, of sample_request True "sample_db [] []" True
      "snd (arm_lease_watchdog_hop sample_boss sample_request True (sample_db [] []))"]
  by (simp add: arm_lease_watchdog_hop_def prog_defs sample_boss_def)

text \<open>The lease and the claim are taken together or not at all, also when a deadlock makes the
  code try twice. A successful call leaves the caller holding the lease under the next epoch and the
  work item running under the same epoch; if the item cannot be claimed no row of it changes and
  nobody holds the lease; a foreign holder or an error leaves every table but the jobs as it was,
  and behind a foreign holder a hop is pending unless the caller had seeded one.\<close>

lemma lease_and_claim_together:
  assumes "transact_ok t" and "boss_ok b" and "lease_owned key_of d" and "key_of i = k"
    and "0 < ttl" and "uniq w_id (items d)"
    and "acquire_and_claim_work_item t b req seeded k i h ttl d = (r, d')"
  shows "claim_outcome key_of k i req seeded d r d'"
proof -
  let ?m = "lease_holder_body b req seeded k i h ttl"
  obtain r1 d1 where first: "t 0 ?m d = (r1, d1)" by fastforce
  note out = transact_outcome [OF assms(1-6) first]
  show ?thesis
  proof (cases "\<exists>e. r1 = Inl e \<and> is_postgres_deadlock_error e")
    case True
    then have jobs: "only_jobs_change d d1" using out by (auto simp: claim_outcome_def)
    have "t 1 ?m d1 = (r, d')"
      using assms(7) first True by (auto simp: acquire_and_claim_work_item_def catchP_def)
    with assms(1-6) have "claim_outcome key_of k i req seeded d1 r d'"
      by (intro transact_outcome [where t = t and b = b and ttl = ttl and h = h and n = 1])
        (auto simp: only_jobs_tables [OF jobs] lease_owned_def)
    with jobs show ?thesis by (rule claim_outcome_jobs)
  next
    case False
    with assms(7) first have "(r, d') = (r1, d1)"
      by (auto simp: acquire_and_claim_work_item_def catchP_def throwP_def split: sum.splits)
    with out show ?thesis by simp
  qed
qed

definition sample_transact :: "nat \<Rightarrow> (db, 'a) prog \<Rightarrow> (db, 'a) prog" where
  "sample_transact n m =
     (if n = 0 then throwP (ForeignError \<lparr>fe_status = None, fe_not_accepted = False,
        fe_response = None, fe_code = Some ''40P01''\<rparr>) else db_transaction m)"

lemma lease_and_claim_together_witness:
  "claim_outcome (\<lambda>_. (''r/1'', Review)) (''r/1'', Review) ''a'' sample_request False
     (sample_db [sample_item ''a'' Queued] [sample_lease ''b'' 4 90])
     (fst (acquire_and_claim_work_item sample_transact sample_boss sample_request False
        (''r/1'', Review) ''a'' ''h'' 60 (sample_db [sample_item ''a'' Queued] [sample_lease ''b'' 4 90])))
     (snd (acquire_and_claim_work_item sample_transact sample_boss sample_request False
        (''r/1'', Review) ''a'' ''h'' 60 (sample_db [sample_item ''a'' Queued] [sample_lease ''b'' 4 90])))"
  by (rule lease_and_claim_together [OF _ sample_boss_ok, where t = sample_transact])
    (auto simp: transact_ok_def sample_transact_def throwP_def sample_defs lease_owned_def uniq_def
       lease_key_def)

text \<open>A released execution is inert: its timers, and further releases, change neither the
  execution nor the database, whatever other sessions do in between.\<close>

lemma released_execution_inert:
  "fold exec_step ops (release_execution fault (x, d)) =
     (fst (release_execution fault (x, d)), fold outside_step ops (snd (release_execution fault (x, d))))"
  using released_run [OF release_released [of fault "(x, d)"]] by (metis prod.collapse)

text \<open>A late release is harmless: when the key has moved past the epoch of the execution, its
  release leaves the whole database as it is.\<close>

lemma stale_release_harmless:
  assumes "lease_owned key_of d" and "x_release_key x = Some k" and "x_epoch x = Some e"
    and "epoch_at d k \<noteq> e"
  shows "snd (release_execution fault (x, d)) = d"
proof -
  have "\<not> (lease_key l = k \<and> l_lease_epoch l = e)" if "l \<in> set (leases d)" for l
    using that assms(1,4) lease_at_row [of d l] by (auto simp: lease_owned_def epoch_at_def)
  then have "release_pr_actor_lease k e d = d"
    by (simp add: release_pr_actor_lease_def update_where_none)
  with assms(2,3) show ?thesis by (simp add: release_execution_def Let_def)
qed

definition sample_execution :: execution where
  "sample_execution = opened ''a'' (Some (''r/1'', Review)) (Some 2)
     \<lparr>c_created_at = 5, c_started_at = Some 6, c_attempt_count = 1, c_resumed = False\<rparr>"

lemma stale_release_harmless_witness:
  "snd (release_execution False (sample_execution, sample_db [] [sample_lease ''b'' 3 200]))
     = sample_db [] [sample_lease ''b'' 3 200]"
  by (rule stale_release_harmless [of "\<lambda>_. (''r/1'', Review)" _ _ "(''r/1'', Review)" 2])
    (simp_all add: sample_defs sample_execution_def opened_def lease_owned_def uniq_def lease_key_def
       epoch_at_def lease_at_def row_at_simps)

text \<open>The renewal timer stops the execution exactly when the lease row no longer names it under
  its epoch; the first reason for which an execution stopped is the one that stays.\<close>

lemma renewal_detects_loss:
  assumes "x_key x = Some k" and "x_epoch x = Some e" and "x_renewing x" and "\<not> x_aborted x"
    and "x_stop x = None" and "lease_renewal_tick ttl False (x, d) = (y, d')"
  shows "(x_aborted y \<longleftrightarrow> (\<forall>l \<in> set (leases d). \<not> renews k e (x_item x) l)) \<and>
    (x_aborted y \<longrightarrow> x_stop (fst (fold exec_step ops (y, d'))) = Some LeaseLost)"
proof -
  have "x_aborted y \<longleftrightarrow> (\<forall>l \<in> set (leases d). \<not> renews k e (x_item x) l)"
    using assms by (auto simp: lease_renewal_tick_def renew_pr_actor_lease_def table_simps
        stop_with_def split: prod.splits bool.splits if_splits)
  moreover have "x_aborted y \<longrightarrow> x_stop y = Some LeaseLost"
    using assms by (auto simp: lease_renewal_tick_def renew_pr_actor_lease_def stop_with_def
        coalesce_def split: prod.splits bool.splits if_splits)
  ultimately show ?thesis using stopped.inv_run [of "(y, d')" LeaseLost ops] by auto
qed

lemma renewal_detects_loss_witness:
  "x_aborted (fst (lease_renewal_tick 60 False (sample_execution, sample_db [] [sample_lease ''b'' 3 200])))"
  using renewal_detects_loss [of sample_execution "(''r/1'', Review)" 2 60
      "sample_db [] [sample_lease ''b'' 3 200]"
      "fst (lease_renewal_tick 60 False (sample_execution, sample_db [] [sample_lease ''b'' 3 200]))"
      "snd (lease_renewal_tick 60 False (sample_execution, sample_db [] [sample_lease ''b'' 3 200]))"]
  by (simp add: sample_defs sample_execution_def opened_def renews_def)

end
