(* ===== verification/Intents.thy ===== *)
theory Intents
  imports Lease
begin

text \<open>
  The durable record of an outside mutation: \<^verbatim>\<open>src/agentWork/operationIntentRepository.ts\<close>.
  An intent is keyed by work item and operation; it is persisted before the mutation, marked while
  the mutation runs and reconciled with its result. Each SQL statement is a step on the tables; the
  exported functions add the lease assertions of \<open>fencedWrite\<close> around it.

  A program of this theory runs in a world: the tables, the abort signal of the execution, the
  remote side that mutations act on, and the schedule of what other sessions commit before each
  statement. Nothing is assumed about that schedule.

  The lemmas show the life cycle of an intent row under every statement (a reconciled intent keeps
  its status, its key, its result), which is the contract that publishing relies on.
\<close>

subsection \<open>The world of a session\<close>

datatype abort_signal = NotAborted | AbortedWith js_error | AbortedNoReason

record 'g world =
  wdb :: db
  wsignal :: abort_signal
  wsched :: "(db \<times> abort_signal \<Rightarrow> db \<times> abort_signal) list"
  remote :: 'g

definition interfere :: "'g world \<Rightarrow> 'g world" where
  "interfere w = (case wsched w of
      [] \<Rightarrow> w
    | f # fs \<Rightarrow> w\<lparr>wdb := fst (f (wdb w, wsignal w)), wsignal := snd (f (wdb w, wsignal w)), wsched := fs\<rparr>)"

definition on_db :: "(db, 'a) prog \<Rightarrow> ('g world, 'a) prog" where
  "on_db m = (\<lambda>w. (fst (m (wdb (interfere w))), (interfere w)\<lparr>wdb := snd (m (wdb (interfere w)))\<rparr>))"

abbreviation statement :: "(db \<Rightarrow> 'a \<times> db) \<Rightarrow> ('g world, 'a) prog" where
  "statement f \<equiv> on_db (stepP f)"

definition assert_held :: "item_id \<Rightarrow> int \<Rightarrow> ('g world, unit) prog" where
  "assert_held w e = on_db (assert_pr_actor_lease_held w e)"

subsection \<open>The statements\<close>

definition mutating_key :: string where "mutating_key = ''__mutating''"
definition send_started_key :: string where "send_started_key = ''__sendStarted''"
definition mutating_epoch_key :: string where "mutating_epoch_key = ''__mutatingEpoch''"
definition result_key :: string where "result_key = ''__result''"

definition coalesce_epoch :: "int option \<Rightarrow> int option \<Rightarrow> int option" where
  "coalesce_epoch a b = (case a of None \<Rightarrow> b | Some x \<Rightarrow> Some x)"

definition coalesce_record :: "string option \<Rightarrow> string option \<Rightarrow> string option" where
  "coalesce_record a b = (case a of None \<Rightarrow> b | Some x \<Rightarrow> Some x)"

definition persist_statement ::
  "item_id \<Rightarrow> string \<Rightarrow> string \<Rightarrow> int option \<Rightarrow> detail \<Rightarrow> db \<Rightarrow> operation_intent option \<times> db" where
  "persist_statement i k kind e det d =
     (let new = \<lparr>oi_work_item_id = i, oi_operation_key = k, oi_mutation_kind = kind, oi_status = Pending,
                 oi_publish_record_id = None, oi_lease_epoch = e, oi_detail = det,
                 oi_created_at = now d, oi_reconciled_at = None\<rparr>
      in if \<not> lease_fence_sql d i e then (None, d)
         else case upsert intent_key new (\<lambda>_. lease_fence_sql d i e)
                (\<lambda>old. old\<lparr>oi_lease_epoch := coalesce_epoch e (oi_lease_epoch old)\<rparr>) (intents d) of
              (r, rows) \<Rightarrow> (r, d\<lparr>intents := rows\<rparr>))"

text \<open>An \<open>UPDATE ... RETURNING\<close> of which the caller reads the first row.\<close>

definition update_intents ::
  "(operation_intent \<Rightarrow> bool) \<Rightarrow> (operation_intent \<Rightarrow> operation_intent) \<Rightarrow> db \<Rightarrow> operation_intent option \<times> db" where
  "update_intents p f d =
     (map_option f (find p (intents d)), d\<lparr>intents := update_where p f (intents d)\<rparr>)"

definition merge_statement ::
  "item_id \<Rightarrow> string \<Rightarrow> int option \<Rightarrow> detail \<Rightarrow> db \<Rightarrow> operation_intent option \<times> db" where
  "merge_statement i k e det d = update_intents
     (\<lambda>r. intent_key r = (i, k) \<and> oi_status r \<in> {Pending, IntentFailed} \<and> lease_fence_sql d i e)
     (\<lambda>r. r\<lparr>oi_status := (if oi_status r = IntentFailed then Pending else oi_status r),
            oi_reconciled_at := (if oi_status r = IntentFailed then None else oi_reconciled_at r),
            oi_lease_epoch := coalesce_epoch e (oi_lease_epoch r),
            oi_detail := oi_detail r ++ det\<rparr>) d"

definition unsent_in_flight :: "int \<Rightarrow> operation_intent \<Rightarrow> bool" where
  "unsent_in_flight e r \<longleftrightarrow> oi_status r = Pending \<and>
     oi_detail r mutating_key = Some (JBool True) \<and> result_key \<notin> dom (oi_detail r) \<and>
     oi_detail r send_started_key = Some (JBool False) \<and>
     oi_detail r mutating_epoch_key = Some (JNum e)"

definition release_unsent_statement :: "item_id \<Rightarrow> string \<Rightarrow> int \<Rightarrow> db \<Rightarrow> operation_intent option \<times> db" where
  "release_unsent_statement i k e = update_intents
     (\<lambda>r. intent_key r = (i, k) \<and> unsent_in_flight e r)
     (\<lambda>r. r\<lparr>oi_detail := (oi_detail r)(mutating_key \<mapsto> JBool False)\<rparr>)"

text \<open>
  An in-flight intent that cannot have sent: its send has not started and the lease epoch it was
  armed under is not live any more.
\<close>

definition armed_epoch_dead :: "db \<Rightarrow> lease_key \<Rightarrow> operation_intent \<Rightarrow> bool" where
  "armed_epoch_dead d k r \<longleftrightarrow> oi_detail r send_started_key = Some (JBool False) \<and>
     (case oi_detail r mutating_epoch_key of
        Some (JNum e) \<Rightarrow> \<not> exists_where (\<lambda>l. lease_key l = k \<and> l_lease_epoch l = e \<and> now d < l_expires_at l) (leases d)
      | _ \<Rightarrow> False)"

definition blocks_send :: "db \<Rightarrow> item_id \<Rightarrow> string \<Rightarrow> operation_intent \<Rightarrow> bool" where
  "blocks_send d i k r \<longleftrightarrow>
     (case (item_at d (oi_work_item_id r), item_at d i) of
        (Some holder, Some caller) \<Rightarrow>
          let key = (w_resource_key caller, w_type caller)
          in w_resource_key holder = w_resource_key caller \<and> w_type holder = w_type caller \<and>
             oi_status r = Pending \<and> oi_detail r mutating_key = Some (JBool True) \<and>
             result_key \<notin> dom (oi_detail r) \<and> \<not> armed_epoch_dead d key r \<and>
             (intent_key r = (i, k) \<or>
              oi_work_item_id r \<noteq> i \<and>
              exists_where (\<lambda>l. lease_key l = key \<and> l_work_item_id l = Some i \<and> now d < l_expires_at l) (leases d))
      | _ \<Rightarrow> False)"

definition oldest :: "operation_intent list \<Rightarrow> operation_intent option" where
  "oldest rows = (case sort_key oi_created_at rows of [] \<Rightarrow> None | r # _ \<Rightarrow> Some r)"

definition find_in_flight_mutating_intent :: "item_id \<Rightarrow> string \<Rightarrow> db \<Rightarrow> operation_intent option" where
  "find_in_flight_mutating_intent i k d = oldest (select_where (blocks_send d i k) (intents d))"

definition reconcile_statement ::
  "item_id \<Rightarrow> string \<Rightarrow> intent_status \<Rightarrow> string option \<Rightarrow> int option \<Rightarrow> item_id \<Rightarrow> detail option \<Rightarrow> db \<Rightarrow>
   operation_intent option \<times> db" where
  "reconcile_statement i k st rec e holder det d = update_intents
     (\<lambda>r. intent_key r = (i, k) \<and>
          (oi_status r = Pending \<or> oi_status r = st \<or> oi_status r = OutcomeUnknown \<and> st = Reconciled) \<and>
          lease_fence_sql d holder e)
     (\<lambda>r. r\<lparr>oi_status := st, oi_publish_record_id := coalesce_record rec (oi_publish_record_id r),
            oi_lease_epoch := coalesce_epoch e (oi_lease_epoch r),
            oi_detail := (case det of None \<Rightarrow> oi_detail r | Some x \<Rightarrow> oi_detail r ++ x),
            oi_reconciled_at := Some (now d)\<rparr>) d"

definition get_operation_intent :: "item_id \<Rightarrow> string \<Rightarrow> db \<Rightarrow> operation_intent option" where
  "get_operation_intent i k d = intent_at d i k"

definition list_pending_operation_intents :: "item_id \<Rightarrow> db \<Rightarrow> operation_intent list" where
  "list_pending_operation_intents i d = sort_key oi_created_at
     (select_where (\<lambda>r. oi_work_item_id r = i \<and> oi_status r = Pending) (intents d))"

text \<open>
  \<open>detail->>'f' IS NOT DISTINCT FROM text\<close>. The text of an array or an object starts with a
  bracket, and is never one of the keys and markers that it is compared with.
\<close>

fun json_text_is :: "json option \<Rightarrow> string option \<Rightarrow> bool" where
  "json_text_is None t = (t = None)"
| "json_text_is (Some JNull) t = (t = None)"
| "json_text_is (Some (JStr s)) t = (t = Some s)"
| "json_text_is (Some (JNum n)) t = (t = Some (int_text n))"
| "json_text_is (Some (JBool b)) t = (t = Some (if b then ''true'' else ''false''))"
| "json_text_is (Some (JArr _)) t = False"
| "json_text_is (Some (JObj _)) t = False"

record retained_lookup =
  rl_item :: item_id
  rl_key :: string
  rl_parent :: "string option"
  rl_marker :: "string option"

definition is_hex_digest :: "string \<Rightarrow> bool" where
  "is_hex_digest h \<longleftrightarrow> length h = 64 \<and> (\<forall>c \<in> set h. c \<in> set ''0123456789abcdef'')"

definition defined_text :: "json option \<Rightarrow> json option" where
  "defined_text v = (if v = Some JNull then None else v)"

definition description_identity_conflict :: js_error where
  "description_identity_conflict = AppError ''operation_intent'' ''description_identity_conflict'' []"

definition description_prefix :: "string option \<Rightarrow> string" where
  "description_prefix parent = (case parent of
      None \<Rightarrow> ''pr-surface:publishDescription:''
    | Some p \<Rightarrow> p @ '':surface:publishDescription:'')"

definition select_retained_description_surface_identity ::
  "operation_intent list \<Rightarrow> retained_lookup \<Rightarrow> js_error + (string \<times> string) option" where
  "select_retained_description_surface_identity rows p =
     (case rows of
        [] \<Rightarrow> Inr None
      | retained # rest \<Rightarrow>
          (case oi_detail retained ''inputHash'' of
             Some (JStr h) \<Rightarrow>
               if rest \<noteq> [] \<or>
                  defined_text (oi_detail retained ''parentOperationKey'') \<noteq> map_option JStr (rl_parent p) \<or>
                  defined_text (oi_detail retained ''operationMarker'') \<noteq> map_option JStr (rl_marker p) \<or>
                  \<not> is_hex_digest h \<or>
                  oi_operation_key retained \<noteq> description_prefix (rl_parent p) @ h \<or>
                  (rl_marker p \<in> {None, Some []} \<and> oi_operation_key retained \<noteq> rl_key p)
               then Inl description_identity_conflict
               else Inr (Some (oi_operation_key retained, h))
           | _ \<Rightarrow> Inl description_identity_conflict))"

definition description_kind :: string where
  "description_kind = ''github.pr_surface.publishDescription''"

definition find_retained_description_surface_identity ::
  "retained_lookup \<Rightarrow> db \<Rightarrow> js_error + (string \<times> string) option" where
  "find_retained_description_surface_identity p d =
     select_retained_description_surface_identity
       (take 2 (select_where (\<lambda>r. oi_work_item_id r = rl_item p \<and> oi_mutation_kind r = description_kind \<and>
            json_text_is (oi_detail r ''surfaceMethod'') (Some ''publishDescription'') \<and>
            json_text_is (oi_detail r ''parentOperationKey'') (rl_parent p) \<and>
            json_text_is (oi_detail r ''operationMarker'') (rl_marker p)) (intents d))) p"

subsection \<open>The exported functions\<close>

definition persist_no_row :: js_error where
  "persist_no_row = AppError ''operation_intent'' ''persist_no_row'' []"

definition persist_operation_intent ::
  "item_id \<Rightarrow> string \<Rightarrow> string \<Rightarrow> int option \<Rightarrow> detail \<Rightarrow> ('g world, operation_intent) prog" where
  "persist_operation_intent i k kind e det =
     bindP (fenced_write (assert_held i) e True (\<lambda>r. r = None) (statement (persist_statement i k kind e det)))
       (\<lambda>row. case row of None \<Rightarrow> throwP persist_no_row | Some r \<Rightarrow> returnP r)"

definition merge_operation_intent_detail ::
  "item_id \<Rightarrow> string \<Rightarrow> int option \<Rightarrow> detail \<Rightarrow> ('g world, operation_intent option) prog" where
  "merge_operation_intent_detail i k e det =
     fenced_write (assert_held i) e True (\<lambda>_. False) (statement (merge_statement i k e det))"

definition release_unsent_in_flight_intent :: "item_id \<Rightarrow> string \<Rightarrow> int \<Rightarrow> ('g world, unit) prog" where
  "release_unsent_in_flight_intent i k e =
     bindP (statement (release_unsent_statement i k e)) (\<lambda>_. returnP ())"

definition reconcile_operation_intent ::
  "item_id \<Rightarrow> string \<Rightarrow> intent_status \<Rightarrow> string option \<Rightarrow> int option \<Rightarrow> item_id \<Rightarrow> detail option \<Rightarrow>
   ('g world, operation_intent option) prog" where
  "reconcile_operation_intent i k st rec e holder det =
     fenced_write (assert_held holder) e True (\<lambda>_. False)
       (bindP (statement (reconcile_statement i k st rec e holder det)) (\<lambda>updated.
          if updated \<noteq> None then returnP updated
          else if st \<noteq> OutcomeUnknown \<and> st \<noteq> IntentFailed then returnP None
          else on_db (readP (\<lambda>d. find (\<lambda>r. intent_key r = (i, k) \<and> oi_status r = Reconciled) (intents d)))))"

text \<open>\<open>reconcilePendingIntents\<close>; \<open>lookup\<close> is \<open>findCompletedPublishRecordId\<close>.\<close>

fun reconcile_pending_loop ::
  "(operation_intent \<Rightarrow> ('g world, string option) prog) \<Rightarrow> item_id \<Rightarrow> int option \<Rightarrow>
   operation_intent list \<Rightarrow> nat \<Rightarrow> ('g world, nat) prog" where
  "reconcile_pending_loop lookup i e [] n = returnP n"
| "reconcile_pending_loop lookup i e (r # rs) n =
     bindP (lookup r) (\<lambda>rec. case rec of
         None \<Rightarrow> reconcile_pending_loop lookup i e rs n
       | Some x \<Rightarrow>
           bindP (reconcile_operation_intent i (oi_operation_key r) Reconciled (Some x) e i
                    (Some [''reconciledFromPublishRecord'' \<mapsto> JBool True]))
             (\<lambda>row. reconcile_pending_loop lookup i e rs (if row \<noteq> None then n + 1 else n)))"

definition reconcile_pending_intents ::
  "(operation_intent \<Rightarrow> ('g world, string option) prog) \<Rightarrow> item_id \<Rightarrow> int option \<Rightarrow>
   ('g world, nat \<times> nat) prog" where
  "reconcile_pending_intents lookup i e =
     bindP (on_db (readP (list_pending_operation_intents i))) (\<lambda>pending.
       bindP (reconcile_pending_loop lookup i e pending 0) (\<lambda>n. returnP (n, length pending - n)))"

subsection \<open>What the statements leave alone\<close>

lemma interfere_remote [simp]: "remote (interfere w) = remote w"
  by (simp add: interfere_def split: list.splits)

lemma on_db_remote [simp]: "remote (snd (on_db m w)) = remote w"
  by (simp add: on_db_def)

lemma keeps_on_db_remote: "keeps (\<lambda>w. P (remote w)) (on_db m)"
  by (simp add: keeps_def)

lemma keeps_assert_remote: "keeps (\<lambda>w. P (remote w)) (assert_held i e)"
  by (simp add: assert_held_def keeps_on_db_remote)

lemma keeps_fenced:
  assumes "\<And>e. keeps P (held e)" and "keeps P m"
  shows "keeps P (fenced_write held e before rejected m)"
  unfolding fenced_write_def
  by (intro keeps_then keeps_bind keeps_return keeps_when assms) (auto simp: assms split: option.splits)

lemma keeps_persist_remote: "keeps (\<lambda>w. P (remote w)) (persist_operation_intent i k kind e det)"
  unfolding persist_operation_intent_def
  by (intro keeps_bind keeps_fenced keeps_assert_remote keeps_on_db_remote) (simp split: option.splits)

lemma keeps_merge_remote: "keeps (\<lambda>w. P (remote w)) (merge_operation_intent_detail i k e det)"
  unfolding merge_operation_intent_detail_def
  by (intro keeps_fenced keeps_assert_remote keeps_on_db_remote)

lemma keeps_release_remote: "keeps (\<lambda>w. P (remote w)) (release_unsent_in_flight_intent i k e)"
  unfolding release_unsent_in_flight_intent_def
  by (intro keeps_bind keeps_on_db_remote keeps_return)

lemma keeps_reconcile_remote:
  "keeps (\<lambda>w. P (remote w)) (reconcile_operation_intent i k st rec e holder det)"
  unfolding reconcile_operation_intent_def
  by (auto intro!: keeps_fenced keeps_assert_remote keeps_bind keeps_on_db_remote)

subsection \<open>The life of an intent\<close>

datatype intent_op =
    PersistIntent item_id string string "int option" detail
  | MergeIntent item_id string "int option" detail
  | ReleaseUnsent item_id string int
  | ReconcileIntent item_id string intent_status "string option" "int option" item_id "detail option"
  | IntentLeaseOp lease_op

fun intent_step :: "intent_op \<Rightarrow> db \<Rightarrow> db" where
  "intent_step (PersistIntent i k kind e det) d = snd (persist_statement i k kind e det d)"
| "intent_step (MergeIntent i k e det) d = snd (merge_statement i k e det d)"
| "intent_step (ReleaseUnsent i k e) d = snd (release_unsent_statement i k e d)"
| "intent_step (ReconcileIntent i k st rec e h det) d = snd (reconcile_statement i k st rec e h det d)"
| "intent_step (IntentLeaseOp x) d = lease_step x d"

fun intent_edge :: "intent_status \<Rightarrow> intent_status \<Rightarrow> bool" where
  "intent_edge Pending s = True"
| "intent_edge IntentFailed s = (s = IntentFailed \<or> s = Pending)"
| "intent_edge OutcomeUnknown s = (s = OutcomeUnknown \<or> s = Reconciled)"
| "intent_edge Reconciled s = (s = Reconciled)"

definition intent_evolves :: "operation_intent \<Rightarrow> operation_intent \<Rightarrow> bool" where
  "intent_evolves r r' \<longleftrightarrow> intent_key r' = intent_key r \<and> oi_mutation_kind r' = oi_mutation_kind r \<and>
     oi_created_at r' = oi_created_at r \<and> intent_edge (oi_status r) (oi_status r') \<and>
     dom (oi_detail r) \<subseteq> dom (oi_detail r')"

lemma intent_edge_refl [simp]: "intent_edge s s"
  by (cases s) simp_all

lemma intent_evolves_refl [simp]: "intent_evolves r r"
  by (simp add: intent_evolves_def)

lemma intent_key_update [simp]:
  "intent_key (r\<lparr>oi_status := s\<rparr>) = intent_key r"
  "intent_key (r\<lparr>oi_publish_record_id := x\<rparr>) = intent_key r"
  "intent_key (r\<lparr>oi_lease_epoch := e\<rparr>) = intent_key r"
  "intent_key (r\<lparr>oi_detail := det\<rparr>) = intent_key r"
  "intent_key (r\<lparr>oi_reconciled_at := t\<rparr>) = intent_key r"
  by (simp_all add: intent_key_def)

lemma intent_at_update:
  assumes "\<And>r. p r \<Longrightarrow> intent_key (f r) = intent_key r"
  shows "intent_at (snd (update_intents p f d)) i k =
    map_option (\<lambda>r. if p r then f r else r) (intent_at d i k)"
  using assms by (simp add: intent_at_def update_intents_def row_at_update_where)

lemma intent_at_in: "intent_at d i k = Some r \<Longrightarrow> r \<in> set (intents d) \<and> intent_key r = (i, k)"
  unfolding intent_at_def by (rule row_at_SomeD)

lemma update_intents_evolves:
  assumes "\<And>r. p r \<Longrightarrow> intent_evolves r (f r)" and "intent_at d i k = Some r"
  shows "\<exists>r'. intent_at (snd (update_intents p f d)) i k = Some r' \<and> intent_evolves r r'"
  using assms by (auto simp: intent_at_update intent_evolves_def)

lemma persist_cases [consumes 1, case_names NoLease New Old]:
  assumes "persist_statement i k kind e det d = (res, d')"
  obtains (NoLease) "\<not> lease_fence_sql d i e" "res = None" "d' = d"
    | (New) new where "lease_fence_sql d i e" "intent_at d i k = None" "res = Some new"
        "d' = d\<lparr>intents := intents d @ [new]\<rparr>" "intent_key new = (i, k)" "oi_status new = Pending"
        "oi_detail new = det"
    | (Old) old where "lease_fence_sql d i e" "intent_at d i k = Some old"
        "res = Some (old\<lparr>oi_lease_epoch := coalesce_epoch e (oi_lease_epoch old)\<rparr>)"
        "d' = d\<lparr>intents := update_where (\<lambda>r. intent_key r = (i, k))
           (\<lambda>r. r\<lparr>oi_lease_epoch := coalesce_epoch e (oi_lease_epoch r)\<rparr>) (intents d)\<rparr>"
proof (cases "lease_fence_sql d i e")
  case False
  with assms show thesis by (intro NoLease) (auto simp: persist_statement_def)
next
  case True
  let ?new = "\<lparr>oi_work_item_id = i, oi_operation_key = k, oi_mutation_kind = kind, oi_status = Pending,
     oi_publish_record_id = None, oi_lease_epoch = e, oi_detail = det,
     oi_created_at = now d, oi_reconciled_at = None\<rparr>"
  let ?upd = "\<lambda>r. r\<lparr>oi_lease_epoch := coalesce_epoch e (oi_lease_epoch r)\<rparr>"
  have key: "intent_key ?new = (i, k)" by (simp add: intent_key_def)
  obtain r rows where u: "upsert intent_key ?new (\<lambda>_. lease_fence_sql d i e) ?upd (intents d) = (r, rows)"
    by fastforce
  with assms True have res: "res = r" "d' = d\<lparr>intents := rows\<rparr>"
    by (auto simp: persist_statement_def)
  from u show thesis
  proof (cases rule: upsert_cases)
    case Insert
    with True res key show thesis by (intro New [of ?new]) (auto simp: intent_at_def)
  next
    case (Update old)
    with True res key show thesis by (intro Old [of old]) (auto simp: intent_at_def)
  next
    case (Reject old)
    with True show thesis by simp
  qed
qed

text \<open>Every statement moves an intent along its life: the key, the kind and the creation stay, no
  detail field is dropped, and a settled status is not left for an open one.\<close>

lemma intent_step_evolves:
  assumes "intent_at d i k = Some r"
  shows "\<exists>r'. intent_at (intent_step x d) i k = Some r' \<and> intent_evolves r r'"
proof (cases x)
  case (PersistIntent j q kind e det)
  obtain res d' where p: "persist_statement j q kind e det d = (res, d')" by fastforce
  then have "\<exists>r'. intent_at d' i k = Some r' \<and> intent_evolves r r'"
  proof (cases rule: persist_cases)
    case NoLease
    with assms show ?thesis by simp
  next
    case (New new)
    with assms show ?thesis by (simp add: intent_at_def row_at_append)
  next
    case (Old old)
    have "d' = snd (update_intents (\<lambda>r. intent_key r = (j, q))
        (\<lambda>r. r\<lparr>oi_lease_epoch := coalesce_epoch e (oi_lease_epoch r)\<rparr>) d)"
      using Old by (simp add: update_intents_def)
    then show ?thesis
      using update_intents_evolves [OF _ assms] by (auto simp: intent_evolves_def)
  qed
  with PersistIntent p show ?thesis by simp
next
  case (MergeIntent j q e det)
  then show ?thesis
    unfolding MergeIntent intent_step.simps merge_statement_def
    by (intro update_intents_evolves [OF _ assms]) (auto simp: intent_evolves_def)
next
  case (ReleaseUnsent j q e)
  then show ?thesis
    unfolding ReleaseUnsent intent_step.simps release_unsent_statement_def
    by (intro update_intents_evolves [OF _ assms]) (auto simp: intent_evolves_def)
next
  case (ReconcileIntent j q st rec e h det)
  then show ?thesis
    unfolding ReconcileIntent intent_step.simps reconcile_statement_def
    by (intro update_intents_evolves [OF _ assms]) (auto simp: intent_evolves_def split: option.splits)
next
  case (IntentLeaseOp y)
  with assms show ?thesis by (simp add: intent_at_def)
qed

text \<open>An intent that no later call may send again for.\<close>

definition settled_row :: "operation_intent \<Rightarrow> bool" where
  "settled_row r \<longleftrightarrow> result_key \<in> dom (oi_detail r) \<or> oi_status r = Reconciled \<or> oi_status r = OutcomeUnknown"

definition settled_intent :: "item_id \<Rightarrow> string \<Rightarrow> db \<Rightarrow> bool" where
  "settled_intent i k d \<longleftrightarrow> (\<exists>r. intent_at d i k = Some r \<and> settled_row r)"

lemma settled_row_evolves: "intent_evolves r r' \<Longrightarrow> settled_row r \<Longrightarrow> settled_row r'"
  by (cases "oi_status r") (auto simp: intent_evolves_def settled_row_def)

interpretation settled_intents: invariant_machine intent_step "\<lambda>_. True" "settled_intent i k" for i k
proof
  fix d :: db and x :: intent_op
  assume "settled_intent i k d"
  then obtain r where "intent_at d i k = Some r" "settled_row r"
    by (auto simp: settled_intent_def)
  with intent_step_evolves [of d i k r x] show "settled_intent i k (intent_step x d)"
    by (auto simp: settled_intent_def dest: settled_row_evolves)
qed

subsection \<open>Predicates of the tables that other sessions keep\<close>

definition world_keeps :: "(db \<Rightarrow> bool) \<Rightarrow> 'g world \<Rightarrow> bool" where
  "world_keeps P w \<longleftrightarrow> P (wdb w) \<and> (\<forall>f \<in> set (wsched w). \<forall>d g. P d \<longrightarrow> P (fst (f (d, g))))"

lemma world_keeps_interfere: "world_keeps P w \<Longrightarrow> world_keeps P (interfere w)"
  by (auto simp: world_keeps_def interfere_def split: list.splits)

lemma keeps_on_db:
  assumes "\<And>d. P d \<Longrightarrow> P (snd (m d))"
  shows "keeps (world_keeps P) (on_db m)"
  unfolding keeps_def
proof (intro allI impI)
  fix w :: "'g world"
  assume "world_keeps P w"
  then have "world_keeps P (interfere w)" by (rule world_keeps_interfere)
  with assms show "world_keeps P (snd (on_db m w))"
    by (auto simp: on_db_def world_keeps_def)
qed

lemma on_db_result:
  assumes "world_keeps P w" and "on_db m w = (r, w')"
  shows "\<exists>d. P d \<and> m d = (r, wdb w')"
proof -
  have "P (wdb (interfere w))"
    using world_keeps_interfere [OF assms(1)] by (simp add: world_keeps_def)
  with assms(2) show ?thesis
    by (auto simp: on_db_def intro!: exI [of _ "wdb (interfere w)"])
qed

lemma assert_statement_same: "snd (assert_pr_actor_lease_held i e d) = d"
  by (simp add: assert_pr_actor_lease_held_def prog_defs)

lemma keeps_assert: "keeps (world_keeps P) (assert_held i e)"
  unfolding assert_held_def by (rule keeps_on_db) (simp add: assert_statement_same)

lemma keeps_statement:
  assumes "\<And>d. P d \<Longrightarrow> P (snd (f d))"
  shows "keeps (world_keeps P) (statement f)"
  by (rule keeps_on_db) (simp add: stepP_def assms)

lemma keeps_db_read: "keeps (world_keeps P) (on_db (readP f))"
  by (rule keeps_on_db) (simp add: readP_def)

lemma keeps_settled_persist:
  "keeps (world_keeps (settled_intent i k)) (persist_operation_intent j q kind e det)"
  unfolding persist_operation_intent_def
  using settled_intents.inv_step [of i k _ "PersistIntent j q kind e det"]
  by (intro keeps_bind keeps_fenced keeps_assert keeps_statement) (auto split: option.splits)

lemma keeps_settled_merge:
  "keeps (world_keeps (settled_intent i k)) (merge_operation_intent_detail j q e det)"
  unfolding merge_operation_intent_detail_def
  using settled_intents.inv_step [of i k _ "MergeIntent j q e det"]
  by (intro keeps_fenced keeps_assert keeps_statement) auto

lemma keeps_settled_reconcile:
  "keeps (world_keeps (settled_intent i k)) (reconcile_operation_intent j q st rec e h det)"
  unfolding reconcile_operation_intent_def
  using settled_intents.inv_step [of i k _ "ReconcileIntent j q st rec e h det"]
  by (intro keeps_fenced keeps_assert keeps_bind keeps_statement) (auto intro!: keeps_db_read)

text \<open>The row that a persist answers is settled when the stored row is.\<close>

lemma persist_settled:
  assumes "world_keeps (settled_intent i k) w"
    and "persist_operation_intent i k kind e det w = (Inr r, w')"
  shows "settled_row r"
proof -
  let ?before = "(case e of None \<Rightarrow> returnP () | Some e \<Rightarrow> whenP True (assert_held i e)) :: ('a world, unit) prog"
  from assms(2) obtain w1 w2 where w1: "?before w = (Inr (), w1)"
      and w2: "statement (persist_statement i k kind e det) w1 = (Inr (Some r), w2)"
    by (auto simp: persist_operation_intent_def fenced_write_def thenP_def bindP_Inr_iff
        returnP_def throwP_def split: option.splits)
  have "keeps (world_keeps (settled_intent i k)) ?before"
    by (auto intro: keeps_assert split: option.splits)
  then have "world_keeps (settled_intent i k) w1"
    using assms(1) w1 by (metis keepsD snd_conv)
  from on_db_result [OF this w2] obtain d d' where d: "settled_intent i k d"
      and p: "persist_statement i k kind e det d = (Some r, d')"
    by (auto simp: stepP_def) (metis prod.collapse)
  from p d show ?thesis
    by (cases rule: persist_cases) (auto simp: settled_intent_def settled_row_def)
qed

lemma update_intents_idle: "(\<And>r. \<not> p r) \<Longrightarrow> update_intents p f d = (None, d)"
  by (simp add: update_intents_def update_where_none find_None_iff)

lemma update_intents_some:
  assumes "update_intents p f d = (Some r, d')"
  shows "\<exists>old. p old \<and> r = f old \<and> r \<in> set (intents d') \<and> leases d' = leases d \<and> now d' = now d"
proof -
  from assms obtain old where old: "find p (intents d) = Some old" "r = f old"
    by (auto simp: update_intents_def)
  then have "old \<in> set (intents d)" "p old" by (auto simp: find_Some_iff)
  moreover have "d' = snd (update_intents p f d)" using assms by simp
  ultimately show ?thesis
    using old by (auto simp: update_intents_def table_simps)
qed

lemma fence_some: "lease_fence_sql d i (Some e) = is_pr_actor_lease_held d i e"
  by (simp add: lease_fence_sql_def is_pr_actor_lease_held_def)

lemma merge_some:
  assumes "merge_statement i k e det d = (Some r, d')"
  shows "r \<in> set (intents d') \<and> intent_key r = (i, k) \<and> oi_status r = Pending \<and> det \<subseteq>\<^sub>m oi_detail r \<and>
    lease_fence_sql d' i e"
  using update_intents_some [OF assms [unfolded merge_statement_def]]
  by (auto simp: lease_fence_sql_def split: option.splits)

lemma oldest_None_iff: "oldest rows = None \<longleftrightarrow> rows = []"
proof (cases "sort_key oi_created_at rows")
  case Nil
  then have "rows = []" by (metis length_0_conv length_sort)
  with Nil show ?thesis by (simp add: oldest_def)
next
  case (Cons r rs)
  then have "rows \<noteq> []" by auto
  with Cons show ?thesis by (simp add: oldest_def)
qed

lemma find_in_flight_None_iff:
  "find_in_flight_mutating_intent i k d = None \<longleftrightarrow> (\<forall>r \<in> set (intents d). \<not> blocks_send d i k r)"
  by (auto simp: find_in_flight_mutating_intent_def oldest_None_iff select_where_def filter_empty_conv)

subsection \<open>Properties\<close>

text \<open>C7. A settled intent stays settled: once an intent holds a result, is reconciled or has an
  unknown outcome, no sequence of persists, merges, releases, reconciliations and lease statements
  of any session makes it sendable again.\<close>

theorem settled_intent_stays_settled:
  assumes "settled_intent i k d"
  shows "settled_intent i k (fold intent_step xs d)"
  using settled_intents.inv_run [OF assms] by simp

definition sample_intent :: "intent_status \<Rightarrow> detail \<Rightarrow> operation_intent" where
  "sample_intent st det = \<lparr>oi_work_item_id = ''a'', oi_operation_key = ''k'', oi_mutation_kind = ''m'',
     oi_status = st, oi_publish_record_id = None, oi_lease_epoch = Some 2, oi_detail = det,
     oi_created_at = 8, oi_reconciled_at = None\<rparr>"

definition sample_intent_db :: "operation_intent \<Rightarrow> db" where
  "sample_intent_db r = (sample_db [sample_item ''a'' Running] [sample_lease ''a'' 2 200])\<lparr>intents := [r]\<rparr>"

lemmas sample_intent_defs = sample_defs sample_intent_def sample_intent_db_def

theorem settled_intent_stays_settled_witness:
  "settled_intent ''a'' ''k'' (fold intent_step
     [PersistIntent ''a'' ''k'' ''m'' (Some 2) Map.empty,
      MergeIntent ''a'' ''k'' (Some 2) [mutating_key \<mapsto> JBool True],
      ReconcileIntent ''a'' ''k'' IntentFailed None None ''a'' None]
     (sample_intent_db (sample_intent OutcomeUnknown Map.empty)))"
  by (rule settled_intent_stays_settled)
    (simp add: sample_intent_defs settled_intent_def settled_row_def intent_at_def row_at_simps intent_key_def)

text \<open>Without its lease a session cannot touch an intent: every persist, merge and reconciliation
  under an epoch that is not held leaves the database as it is.\<close>

lemma lost_lease_keeps_intents:
  assumes "\<not> is_pr_actor_lease_held d i e"
    and "x \<in> {PersistIntent i k kind (Some e) det, MergeIntent i k (Some e) det,
              ReconcileIntent j k st rec (Some e) i det'}"
  shows "intent_step x d = d"
  using assms(2)
proof (elim insertE emptyE)
  assume x: "x = PersistIntent i k kind (Some e) det"
  obtain r d' where p: "persist_statement i k kind (Some e) det d = (r, d')" by fastforce
  then have "d' = d" by (cases rule: persist_cases) (use assms(1) in \<open>auto simp: fence_some\<close>)
  with x p show ?thesis by simp
qed (use assms(1) in \<open>simp_all add: merge_statement_def reconcile_statement_def update_intents_idle fence_some\<close>)

lemma lost_lease_keeps_intents_witness:
  "intent_step (MergeIntent ''a'' ''k'' (Some 1) [mutating_key \<mapsto> JBool True])
     (sample_intent_db (sample_intent Pending Map.empty)) = sample_intent_db (sample_intent Pending Map.empty)"
  by (rule lost_lease_keeps_intents [where i = "''a''" and e = 1])
    (auto simp: sample_intent_defs is_pr_actor_lease_held_def table_simps holds_lease_def)

text \<open>A crash between the send and its result blocks every later send of that operation: while
  the intent of a work item is pending, marked as mutating with a started send and without a
  result, the in-flight lookup of the same operation finds an intent, whatever the lease is. A mark
  whose send had not started blocks only as long as the lease epoch that armed it is live.\<close>

lemma crashed_send_blocks:
  assumes "item_at d i = Some w" and "intent_at d i k = Some r" and "oi_status r = Pending"
    and "oi_detail r mutating_key = Some (JBool True)" and "result_key \<notin> dom (oi_detail r)"
  shows "if oi_detail r send_started_key = Some (JBool False) \<and> oi_detail r mutating_epoch_key = Some (JNum e)
    then blocks_send d i k r \<longleftrightarrow>
      (\<exists>l \<in> set (leases d). lease_key l = (w_resource_key w, w_type w) \<and> l_lease_epoch l = e \<and>
         now d < l_expires_at l)
    else oi_detail r send_started_key \<noteq> Some (JBool False) \<longrightarrow>
      find_in_flight_mutating_intent i k d \<noteq> None"
proof -
  have r: "r \<in> set (intents d)" "intent_key r = (i, k)" "oi_work_item_id r = i"
    using intent_at_in [OF assms(2)] by (simp_all add: intent_key_def)
  have "blocks_send d i k r \<longleftrightarrow> \<not> armed_epoch_dead d (w_resource_key w, w_type w) r"
    using assms r by (simp add: blocks_send_def)
  then show ?thesis
    using r by (auto simp: armed_epoch_dead_def table_simps find_in_flight_None_iff simp del: not_None_eq)
qed

lemma crashed_send_blocks_witness:
  "find_in_flight_mutating_intent ''a'' ''k'' (sample_intent_db (sample_intent Pending
     [mutating_key \<mapsto> JBool True, send_started_key \<mapsto> JBool True])) \<noteq> None"
  using crashed_send_blocks [of "sample_intent_db (sample_intent Pending
     [mutating_key \<mapsto> JBool True, send_started_key \<mapsto> JBool True])" "''a''" "sample_item ''a'' Running" "''k''"
     "sample_intent Pending [mutating_key \<mapsto> JBool True, send_started_key \<mapsto> JBool True]"]
  by (simp add: sample_intent_defs item_at_def intent_at_def row_at_simps intent_key_def
      mutating_key_def send_started_key_def result_key_def)

end
