(* ===== verification/Publish_Once.thy ===== *)
theory Publish_Once
  imports Intents
begin

text \<open>
  Publishing once: \<open>publishOnce\<close> of \<^verbatim>\<open>src/agentWork/publishOnce.ts\<close> with the error
  classification of \<^verbatim>\<open>src/github/mutationErrorContract.ts\<close>. A call persists the intent,
  recovers what an earlier call left, marks the intent as mutating and as sent, and only then runs
  the outside mutation; whatever happens after the mark is recorded as reconciled, failed or
  unknown.

  Parameters: the mutation, the recovery and the result decoder of the caller, the lookup of
  completed publish records, the proof of an inline anchor rejection and the text of an error. A
  JavaScript value is a \<open>json option\<close>: \<open>None\<close> is \<open>undefined\<close>, \<open>Some JNull\<close> is \<open>null\<close>.
\<close>

subsection \<open>Error classification\<close>

definition http_status :: "js_error \<Rightarrow> int option" where
  "http_status e = (case e of
      ForeignError f \<Rightarrow> (case fe_status f of
          Some s \<Rightarrow> Some s
        | None \<Rightarrow> (case fe_response f of Some r \<Rightarrow> r_status r | None \<Rightarrow> None))
    | _ \<Rightarrow> None)"

definition is_known_no_acceptance_mutation_error :: "(js_error \<Rightarrow> bool) \<Rightarrow> js_error \<Rightarrow> bool" where
  "is_known_no_acceptance_mutation_error proven_anchor_rejection e \<longleftrightarrow>
     proven_anchor_rejection e \<or>
     (case e of
        AppError d k ctx \<Rightarrow>
          error_code e = ''github.review_thread_resolution_denied'' \<and>
          map_of ctx ''mutationAccepted'' = Some (JBool False)
      | ForeignError f \<Rightarrow>
          fe_not_accepted f \<or>
          (case fe_response f of Some r \<Rightarrow> r_not_accepted r \<or> r_data_not_accepted r | None \<Rightarrow> False) \<or>
          http_status e \<in> {Some 400, Some 401, Some 403, Some 404}
      | PlainError _ \<Rightarrow> False)"

definition is_remote_mutation_error :: "js_error \<Rightarrow> bool" where
  "is_remote_mutation_error e \<longleftrightarrow> http_status e \<noteq> None \<or>
     (case e of ForeignError f \<Rightarrow> fe_response f \<noteq> None | _ \<Rightarrow> False)"

subsection \<open>The store and the parameters of a call\<close>

record 'g publish_store =
  ps_persist :: "item_id \<Rightarrow> string \<Rightarrow> string \<Rightarrow> int option \<Rightarrow> detail \<Rightarrow> ('g world, operation_intent) prog"
  ps_merge :: "item_id \<Rightarrow> string \<Rightarrow> int option \<Rightarrow> detail \<Rightarrow> ('g world, operation_intent option) prog"
  ps_reconcile :: "item_id \<Rightarrow> string \<Rightarrow> intent_status \<Rightarrow> string option \<Rightarrow> int option \<Rightarrow> item_id \<Rightarrow>
    detail option \<Rightarrow> ('g world, operation_intent option) prog"
  ps_find_in_flight :: "item_id \<Rightarrow> string \<Rightarrow> ('g world, operation_intent option) prog"
  ps_find_retained :: "retained_lookup \<Rightarrow> ('g world, (string \<times> string) option) prog"
  ps_release_unsent :: "item_id \<Rightarrow> string \<Rightarrow> int \<Rightarrow> ('g world, unit) prog"
  ps_get :: "item_id \<Rightarrow> string \<Rightarrow> ('g world, operation_intent option) prog"

definition postgres_publish_store :: "'g publish_store" where
  "postgres_publish_store = \<lparr>ps_persist = persist_operation_intent,
     ps_merge = merge_operation_intent_detail, ps_reconcile = reconcile_operation_intent,
     ps_find_in_flight = (\<lambda>i k. on_db (readP (find_in_flight_mutating_intent i k))),
     ps_find_retained = (\<lambda>p. on_db (\<lambda>d. (find_retained_description_surface_identity p d, d))),
     ps_release_unsent = release_unsent_in_flight_intent,
     ps_get = (\<lambda>i k. on_db (readP (get_operation_intent i k)))\<rparr>"

datatype recovery =
    RecoveryReconciled (rec_value: "json option") (rec_record: "string option") (rec_detail: detail)
  | RecoveryAbsent

datatype reconcile_detail = DetailConst detail | DetailOf "json option \<Rightarrow> detail"

record 'g publish_params =
  p_item :: item_id
  p_key :: string
  p_kind :: string
  p_detail :: "detail option"
  p_mutation_detail :: detail
  p_mutate :: "('g world, json option) prog"
  p_decode :: "(json option \<Rightarrow> js_error + json option) option"
  p_record_id :: "string option"
  p_reconcile_detail :: reconcile_detail
  p_recover :: "(operation_intent \<Rightarrow> string option \<Rightarrow> ('g world, recovery) prog) option"
  p_allows_undefined :: bool
  p_known_no_acceptance :: "(js_error \<Rightarrow> bool) option"
  p_epoch :: "int option"
  p_fence :: write_fence
  p_delegation :: "(string \<times> string) option"

record 'g publish_env =
  en_lookup :: "item_id \<Rightarrow> operation_intent \<Rightarrow> ('g world, string option) prog"
  en_anchor_rejection :: "js_error \<Rightarrow> bool"
  en_message :: "js_error \<Rightarrow> string"

definition unknown_outcome_error :: "bool \<Rightarrow> js_error" where
  "unknown_outcome_error terminal = AppError ''operation_intent'' ''mutation_outcome_unknown''
     (if terminal then [(''unknownResolution'', JStr ''terminal'')] else [])"

definition liftE :: "js_error + 'a \<Rightarrow> ('s, 'a) prog" where
  "liftE r = (case r of Inl e \<Rightarrow> throwP e | Inr x \<Rightarrow> returnP x)"

definition decode_publish_result :: "'g publish_params \<Rightarrow> json option \<Rightarrow> js_error + json option" where
  "decode_publish_result p v = (case p_decode p of
      None \<Rightarrow> Inr v
    | Some f \<Rightarrow> (case f v of Inl _ \<Rightarrow> Inl (unknown_outcome_error True) | Inr x \<Rightarrow> Inr x))"

definition resolve_reconcile_detail ::
  "'g publish_params \<Rightarrow> json option option \<Rightarrow> js_error + detail" where
  "resolve_reconcile_detail p result = (case p_reconcile_detail p of
      DetailConst d \<Rightarrow> Inr d
    | DetailOf f \<Rightarrow> (case result of
          None \<Rightarrow> Inr (\<lambda>_. None)
        | Some v \<Rightarrow> if p_decode p = None then Inl (PlainError ''A result-dependent reconciliation requires a result decoder'')
            else (case decode_publish_result p v of Inl e \<Rightarrow> Inl e | Inr x \<Rightarrow> Inr (f x))))"

definition has_stashed_result :: "detail \<Rightarrow> bool" where
  "has_stashed_result det \<longleftrightarrow> result_key \<in> dom det"

definition stashed_result_value :: "detail \<Rightarrow> json option" where
  "stashed_result_value det = (case det result_key of Some JNull \<Rightarrow> None | v \<Rightarrow> v)"

definition stash :: "json option \<Rightarrow> json" where
  "stash v = (case v of None \<Rightarrow> JNull | Some x \<Rightarrow> x)"

definition allows_undefined_success :: "'g publish_params \<Rightarrow> bool" where
  "allows_undefined_success p \<longleftrightarrow> p_allows_undefined p \<or> p_recover p = None"

subsection \<open>Recovery\<close>

definition throw_if_execution_aborted :: "('g world, unit) prog" where
  "throw_if_execution_aborted = (\<lambda>w. case wsignal w of
      NotAborted \<Rightarrow> (Inr (), w)
    | AbortedWith e \<Rightarrow> (Inl (to_app_error ''agent_work'' ''execution_aborted'' e), w)
    | AbortedNoReason \<Rightarrow> (Inl (AppError ''agent_work'' ''execution_aborted'' []), w))"

definition assert_mutation_ready :: "'g publish_params \<Rightarrow> ('g world, unit) prog" where
  "assert_mutation_ready p = thenP throw_if_execution_aborted
     (case p_epoch p of None \<Rightarrow> returnP () | Some e \<Rightarrow> assert_held (p_item p) e)"

definition reconcile_in_flight ::
  "'g publish_store \<Rightarrow> 'g publish_params \<Rightarrow> operation_intent \<Rightarrow> intent_status \<Rightarrow> string option \<Rightarrow> detail \<Rightarrow>
   ('g world, operation_intent option) prog" where
  "reconcile_in_flight st p intent status rec det =
     ps_reconcile st (oi_work_item_id intent) (oi_operation_key intent) status rec (p_epoch p) (p_item p)
       (Some det)"

definition finish_with_stashed_result ::
  "'g publish_store \<Rightarrow> 'g publish_params \<Rightarrow> operation_intent \<Rightarrow> ('g world, json option) prog" where
  "finish_with_stashed_result st p intent =
     bindP (liftE (decode_publish_result p (stashed_result_value (oi_detail intent)))) (\<lambda>value.
       if oi_status intent \<noteq> Reconciled then
         thenP (assert_mutation_ready p)
           (bindP (liftE (resolve_reconcile_detail p None)) (\<lambda>det.
             thenP (reconcile_in_flight st p intent Reconciled (p_record_id p)
                      (det(result_key := oi_detail intent result_key)))
               (returnP value)))
       else returnP value)"

definition recovery_failed :: js_error where
  "recovery_failed = AppError ''operation_intent'' ''recovery_failed'' []"

text \<open>The answer \<open>Some v\<close> is \<open>{ found: true, value: v }\<close>.\<close>

definition recover_by_exact_evidence ::
  "'g publish_store \<Rightarrow> 'g publish_params \<Rightarrow> operation_intent \<Rightarrow> string option \<Rightarrow>
   ('g world, json option option) prog" where
  "recover_by_exact_evidence st p intent rec =
     (case p_recover p of
        None \<Rightarrow> returnP None
      | Some recover \<Rightarrow>
          bindP (catchP (recover intent rec)
                   (\<lambda>_. thenP (assert_mutation_ready p) (throwP recovery_failed))) (\<lambda>r.
            thenP (assert_mutation_ready p)
              (case r of
                 RecoveryAbsent \<Rightarrow> returnP None
               | RecoveryReconciled v record det \<Rightarrow>
                   bindP (liftE (decode_publish_result p v)) (\<lambda>value.
                     bindP (liftE (resolve_reconcile_detail p (Some value))) (\<lambda>base.
                       thenP (reconcile_in_flight st p intent Reconciled
                                (coalesce_record record rec)
                                ((base ++ det)(result_key \<mapsto> stash v)))
                         (returnP (Some value)))))))"

definition finish_void_success ::
  "'g publish_store \<Rightarrow> 'g publish_params \<Rightarrow> operation_intent \<Rightarrow> detail \<Rightarrow> string option \<Rightarrow>
   ('g world, json option) prog" where
  "finish_void_success st p intent extra rec =
     bindP (liftE (decode_publish_result p None)) (\<lambda>value.
       thenP (assert_mutation_ready p)
         (bindP (liftE (resolve_reconcile_detail p None)) (\<lambda>base.
           thenP (reconcile_in_flight st p intent Reconciled (coalesce_record rec (p_record_id p))
                    ((base ++ extra)(result_key \<mapsto> JNull)))
             (returnP value))))"

definition publish_record_lookup_failed :: js_error where
  "publish_record_lookup_failed = AppError ''operation_intent'' ''publish_record_lookup_failed'' []"

definition reconcile_no_row :: js_error where
  "reconcile_no_row = AppError ''operation_intent'' ''reconcile_no_row'' []"

definition unknown_mutation_message :: string where
  "unknown_mutation_message =
     ''Mutation outcome unknown after crash between mutate() and __result; remutate forbidden''"

definition recover_after_mutating_without_result ::
  "'g publish_env \<Rightarrow> 'g publish_store \<Rightarrow> 'g publish_params \<Rightarrow> operation_intent \<Rightarrow> ('g world, json option) prog" where
  "recover_after_mutating_without_result en st p intent =
     bindP (catchP (en_lookup en (oi_work_item_id intent) intent) (\<lambda>_. throwP publish_record_lookup_failed))
       (\<lambda>rec.
       bindP (tryP (recover_by_exact_evidence st p intent rec)) (\<lambda>attempt.
         case attempt of
           Inr (Some v) \<Rightarrow> returnP v
         | _ \<Rightarrow>
             let observation = (case attempt of Inl e \<Rightarrow> Some e | Inr _ \<Rightarrow> None)
             in if observation \<noteq> None \<and>
                   (rec = None \<or> error_code (the observation) \<noteq> ''operation_intent.recovery_failed'')
                then throwP (the observation)
                else if rec \<noteq> None \<and> allows_undefined_success p
                then finish_void_success st p intent
                       [''reconciledFromPublishRecord'' \<mapsto> JBool True, ''recoveredAfterMutating'' \<mapsto> JBool True]
                       rec
                else
                  thenP (assert_mutation_ready p)
                    (bindP (liftE (resolve_reconcile_detail p None)) (\<lambda>base.
                      bindP (reconcile_in_flight st p intent OutcomeUnknown None
                        (base ++ ([mutating_key \<mapsto> JBool False] ++
                           (if observation = None then [''unknownResolution'' \<mapsto> JStr ''terminal''] else Map.empty) ++
                           [''errorCode'' \<mapsto> JStr ''operation_intent.mutation_outcome_unknown'',
                            ''errorMessage'' \<mapsto> JStr unknown_mutation_message])))
                        (\<lambda>resolved.
                          if resolved = None
                          then thenP (assert_mutation_ready p) (throwP reconcile_no_row)
                          else throwP (unknown_outcome_error (observation = None)))))))"

subsection \<open>The body of a call\<close>

definition lease_lost_code :: string where
  "lease_lost_code = ''agent_work.pr_actor_lease_lost''"

text \<open>
  The \<open>catch\<close> of the body. \<open>sent\<close> is \<open>sendStarted\<close>, \<open>succeeded\<close> is \<open>mutateSucceeded\<close> at the
  moment of the throw.
\<close>

definition settle_failure ::
  "'g publish_env \<Rightarrow> 'g publish_store \<Rightarrow> 'g publish_params \<Rightarrow> bool \<Rightarrow> bool \<Rightarrow> js_error \<Rightarrow>
   ('g world, json option) prog" where
  "settle_failure en st p sent succeeded e =
     (if \<not> sent \<and> \<not> succeeded \<and> p_epoch p \<noteq> None \<and> is_app_error e \<and> error_code e = lease_lost_code
      then thenP (tryP (ps_release_unsent st (p_item p) (p_key p) (the (p_epoch p)))) (throwP e)
      else
        let known = (case p_known_no_acceptance p of
              Some f \<Rightarrow> f e
            | None \<Rightarrow> is_known_no_acceptance_mutation_error (en_anchor_rejection en) e);
            rethrow = throwP (to_app_error ''operation_intent''
              (if \<not> succeeded \<and> known then ''mutation_failed'' else ''mutation_outcome_unknown'') e);
            record = bindP (liftE (resolve_reconcile_detail p None)) (\<lambda>base.
              thenP (ps_reconcile st (p_item p) (p_key p) (if known then IntentFailed else OutcomeUnknown)
                       None (p_epoch p) (p_item p)
                       (Some (base ++ [mutating_key \<mapsto> JBool False,
                          ''errorCode'' \<mapsto> JStr (if known then ''operation_intent.mutation_failed''
                             else ''operation_intent.mutation_outcome_unknown''),
                          ''errorMessage'' \<mapsto> JStr (en_message en e)])))
                rethrow)
        in if succeeded then rethrow
           else if \<not> known \<and> (p_recover p \<noteq> None \<or> is_remote_mutation_error e) then
             bindP (ps_persist st (p_item p) (p_key p) (p_kind p) (p_epoch p)
                      (case p_detail p of Some d \<Rightarrow> d | None \<Rightarrow> Map.empty)) (\<lambda>intent.
               bindP (recover_by_exact_evidence st p intent None) (\<lambda>recovered.
                 case recovered of Some v \<Rightarrow> returnP v | None \<Rightarrow> record))
           else record)"

definition handled :: "('s, 'a) prog \<Rightarrow> (js_error \<Rightarrow> ('s, 'b) prog) \<Rightarrow> ('a \<Rightarrow> ('s, 'b) prog) \<Rightarrow> ('s, 'b) prog" where
  "handled m h k = bindP (tryP m) (\<lambda>r. case r of Inl e \<Rightarrow> h e | Inr x \<Rightarrow> k x)"

definition arm_detail :: "'g publish_params \<Rightarrow> detail" where
  "arm_detail p = p_mutation_detail p ++ [mutating_key \<mapsto> JBool True] ++
     (case p_epoch p of
        None \<Rightarrow> Map.empty
      | Some e \<Rightarrow> [send_started_key \<mapsto> JBool False, mutating_epoch_key \<mapsto> JNum e])"

text \<open>The gate in front of the mutation: the lease, and the durable mark that the send starts.\<close>

definition send_gate :: "'g publish_store \<Rightarrow> 'g publish_params \<Rightarrow> ('g world, unit) prog" where
  "send_gate st p = thenP (assert_mutation_ready p)
     (case p_epoch p of
        None \<Rightarrow> returnP ()
      | Some e \<Rightarrow>
          thenP (assert_held (p_item p) e)
            (bindP (ps_merge st (p_item p) (p_key p) (Some e) [send_started_key \<mapsto> JBool True])
              (\<lambda>marked. if marked = None then throwP lease_lost else returnP ())))"

definition store_result :: "'g publish_store \<Rightarrow> 'g publish_params \<Rightarrow> json option \<Rightarrow> ('g world, json option) prog" where
  "store_result st p result =
     bindP (liftE (decode_publish_result p result)) (\<lambda>_.
       thenP (assert_mutation_ready p)
         (bindP (liftE (resolve_reconcile_detail p (Some result))) (\<lambda>base.
           let det = base(result_key \<mapsto> stash result)
           in thenP (ps_merge st (p_item p) (p_key p) (p_epoch p) det)
                (thenP (ps_reconcile st (p_item p) (p_key p) Reconciled (p_record_id p) (p_epoch p)
                          (p_item p) (Some det))
                  (returnP result)))))"

definition send_once ::
  "'g publish_env \<Rightarrow> 'g publish_store \<Rightarrow> 'g publish_params \<Rightarrow> ('g world, json option) prog" where
  "send_once en st p =
     handled (send_gate st p) (settle_failure en st p False False) (\<lambda>_.
       handled (p_mutate p) (settle_failure en st p (p_epoch p \<noteq> None) False) (\<lambda>result.
         handled (store_result st p result) (settle_failure en st p (p_epoch p \<noteq> None) True) returnP))"

text \<open>
  What a call does after it has read the intent and found no reason not to send: \<open>None\<close> is to
  send, \<open>Some m\<close> is to end with \<open>m\<close>.
\<close>

definition earlier_outcome ::
  "'g publish_env \<Rightarrow> 'g publish_store \<Rightarrow> 'g publish_params \<Rightarrow> operation_intent \<Rightarrow>
   ('g world, json option) prog option" where
  "earlier_outcome en st p intent =
     (if has_stashed_result (oi_detail intent) then Some (finish_with_stashed_result st p intent)
      else if oi_status intent = OutcomeUnknown \<and>
              oi_detail intent ''unknownResolution'' = Some (JStr ''terminal'')
      then Some (throwP (unknown_outcome_error True))
      else if oi_status intent = Reconciled then
        Some (bindP (recover_by_exact_evidence st p intent None) (\<lambda>recovered.
          case recovered of
            Some v \<Rightarrow> returnP v
          | None \<Rightarrow> if allows_undefined_success p
              then finish_void_success st p intent Map.empty (oi_publish_record_id intent)
              else throwP (unknown_outcome_error True)))
      else if oi_status intent = OutcomeUnknown
      then Some (recover_after_mutating_without_result en st p intent)
      else None)"

definition publish_once_body ::
  "'g publish_env \<Rightarrow> 'g publish_store \<Rightarrow> 'g publish_params \<Rightarrow> ('g world, json option) prog" where
  "publish_once_body en st p =
     thenP (assert_mutation_ready p)
       (bindP (ps_persist st (p_item p) (p_key p) (p_kind p) (p_epoch p)
                 (case p_detail p of Some d \<Rightarrow> d | None \<Rightarrow> Map.empty)) (\<lambda>intent.
         thenP (assert_mutation_ready p)
           (case earlier_outcome en st p intent of
              Some m \<Rightarrow> m
            | None \<Rightarrow>
                bindP (ps_find_in_flight st (p_item p) (p_key p)) (\<lambda>in_flight.
                  case in_flight of
                    Some other \<Rightarrow> recover_after_mutating_without_result en st p other
                  | None \<Rightarrow>
                      thenP (ps_merge st (p_item p) (p_key p) (p_epoch p) (arm_detail p))
                        (send_once en st p)))))"

subsection \<open>The call\<close>

definition detail_text :: "detail \<Rightarrow> string \<Rightarrow> string option" where
  "detail_text d k = (case d k of Some (JStr s) \<Rightarrow> Some s | _ \<Rightarrow> None)"

definition with_retained_description_identity ::
  "'g publish_store \<Rightarrow> 'g publish_params \<Rightarrow> ('g world, 'g publish_params) prog" where
  "with_retained_description_identity st p =
     (case p_detail p of
        None \<Rightarrow> returnP p
      | Some det \<Rightarrow>
          if p_kind p \<noteq> description_kind \<or> det ''surfaceMethod'' \<noteq> Some (JStr ''publishDescription'')
          then returnP p
          else thenP (assert_mutation_ready p)
            (bindP (ps_find_retained st \<lparr>rl_item = p_item p, rl_key = p_key p,
                       rl_parent = detail_text det ''parentOperationKey'',
                       rl_marker = detail_text det ''operationMarker''\<rparr>)
              (\<lambda>retained. case retained of
                 None \<Rightarrow> returnP p
               | Some (k, h) \<Rightarrow> returnP (p\<lparr>p_key := k, p_detail := Some (det(''inputHash'' \<mapsto> JStr h))\<rparr>))))"

definition fence_agrees :: "'g publish_params \<Rightarrow> bool" where
  "fence_agrees p \<longleftrightarrow> epoch_of (p_fence p) = p_epoch p"

definition delegation_detail :: "string \<times> string \<Rightarrow> bool \<Rightarrow> detail" where
  "delegation_detail g entered = [''resourceKey'' \<mapsto> JStr (fst g), ''reviewLens'' \<mapsto> JStr (snd g),
     ''delegationEntered'' \<mapsto> JBool entered]"

definition delegated_mutate :: "'g publish_store \<Rightarrow> 'g publish_params \<Rightarrow> ('g world, json option) prog" where
  "delegated_mutate st p =
     bindP (ps_merge st (p_item p) (p_key p) (p_epoch p) [''delegationEntered'' \<mapsto> JBool True])
       (\<lambda>marked. if marked = None then throwP reconcile_no_row else p_mutate p)"

definition delegation_not_entered :: "operation_intent \<Rightarrow> bool" where
  "delegation_not_entered parent \<longleftrightarrow> oi_status parent = Pending \<and>
     oi_detail parent mutating_key = Some (JBool True) \<and>
     oi_detail parent ''delegationEntered'' = Some (JBool False) \<and>
     result_key \<notin> dom (oi_detail parent)"

definition reset_delegation :: "'g publish_store \<Rightarrow> 'g publish_params \<Rightarrow> operation_intent \<Rightarrow> ('g world, unit) prog" where
  "reset_delegation st p parent =
     (if oi_status parent = IntentFailed
      then thenP (ps_merge st (p_item p) (p_key p) (p_epoch p)
             [''delegationEntered'' \<mapsto> JBool False, mutating_key \<mapsto> JBool False]) (returnP ())
      else returnP ())"

definition fail_unentered :: "'g publish_store \<Rightarrow> 'g publish_params \<Rightarrow> operation_intent \<Rightarrow> ('g world, unit) prog" where
  "fail_unentered st p parent =
     (if delegation_not_entered parent
      then thenP (ps_reconcile st (p_item p) (p_key p) IntentFailed None (p_epoch p)
             (p_item p) (Some [mutating_key \<mapsto> JBool False])) (returnP ())
      else returnP ())"

definition publish_once ::
  "'g publish_env \<Rightarrow> 'g publish_store \<Rightarrow> 'g publish_params \<Rightarrow> ('g world, json option) prog" where
  "publish_once en st requested =
     (if \<not> fence_agrees requested then throwP (PlainError ''publish fence does not match leaseEpoch'')
      else bindP (with_retained_description_identity st requested) (\<lambda>p.
        case p_delegation p of
          None \<Rightarrow> publish_once_body en st p
        | Some g \<Rightarrow>
            bindP (ps_persist st (p_item p) (p_key p) (p_kind p) (p_epoch p) (delegation_detail g False))
              (\<lambda>parent.
              thenP (reset_delegation st p parent)
                (thenP (fail_unentered st p parent)
                  (publish_once_body en st (p\<lparr>p_mutate := delegated_mutate st p\<rparr>))))))"

subsection \<open>The interface that publishing relies on\<close>

text \<open>
  \<open>PublishIntentStore\<close>: whatever store a call is given, none of its operations acts on the remote
  side, and a merge that answers a row has written its fields into a pending intent while the
  lease was held.
\<close>

definition sendable :: "int \<Rightarrow> item_id \<Rightarrow> string \<Rightarrow> 'g world \<Rightarrow> bool" where
  "sendable e i k w \<longleftrightarrow> is_pr_actor_lease_held (wdb w) i e \<and>
     (\<exists>r \<in> set (intents (wdb w)). intent_key r = (i, k) \<and> oi_status r = Pending \<and>
        oi_detail r send_started_key = Some (JBool True))"

locale publish_intent_store =
  fixes st :: "'g publish_store"
  assumes persist_quiet: "keeps (\<lambda>w. P (remote w)) (ps_persist st i k kind e det)"
    and merge_quiet: "keeps (\<lambda>w. P (remote w)) (ps_merge st i k e det)"
    and reconcile_quiet: "keeps (\<lambda>w. P (remote w)) (ps_reconcile st i k status rec e h det')"
    and find_quiet: "keeps (\<lambda>w. P (remote w)) (ps_find_in_flight st i k)"
    and retained_quiet: "keeps (\<lambda>w. P (remote w)) (ps_find_retained st q)"
    and release_quiet: "keeps (\<lambda>w. P (remote w)) (ps_release_unsent st i k n)"
    and merge_marks: "ps_merge st i k (Some n) [send_started_key \<mapsto> JBool True] w = (Inr (Some r), w') \<Longrightarrow>
      sendable n i k w'"
begin

lemma gate_opens_sendable:
  assumes "send_gate st p w = (Inr (), w')" and "p_epoch p = Some e"
  shows "sendable e (p_item p) (p_key p) w'"
  using assms
  by (auto simp: send_gate_def thenP_def bindP_Inr_iff throwP_def returnP_def split: if_splits
      dest: merge_marks)

lemma quiet_rises:
  "rises (\<lambda>w. f (remote w)) 0 (ps_persist st i k kind e det)"
  "rises (\<lambda>w. f (remote w)) 0 (ps_merge st i k e det)"
  "rises (\<lambda>w. f (remote w)) 0 (ps_reconcile st i k status rec e h det')"
  "rises (\<lambda>w. f (remote w)) 0 (ps_find_in_flight st i k)"
  "rises (\<lambda>w. f (remote w)) 0 (ps_find_retained st q)"
  "rises (\<lambda>w. f (remote w)) 0 (ps_release_unsent st i k n)"
  by (intro rises_keeps persist_quiet [where P = "\<lambda>g. f g = _"] merge_quiet [where P = "\<lambda>g. f g = _"]
      reconcile_quiet [where P = "\<lambda>g. f g = _"] find_quiet [where P = "\<lambda>g. f g = _"]
      retained_quiet [where P = "\<lambda>g. f g = _"] release_quiet [where P = "\<lambda>g. f g = _"])+

end

lemma fenced_write_result:
  assumes "fenced_write held e before rejected m w = (Inr x, w')" and "\<And>x. \<not> rejected x"
  shows "\<exists>w1. m w1 = (Inr x, w')"
  using assms by (auto simp: fenced_write_def thenP_def bindP_Inr_iff whenP_def returnP_def
      split: option.splits)

lemma merge_program_marks:
  assumes "merge_operation_intent_detail i k (Some n) [send_started_key \<mapsto> JBool True] w = (Inr (Some r), w')"
  shows "sendable n i k w'"
proof -
  from assms obtain w1 where
      "statement (merge_statement i k (Some n) [send_started_key \<mapsto> JBool True]) w1 = (Inr (Some r), w')"
    unfolding merge_operation_intent_detail_def by (blast dest: fenced_write_result)
  then have "merge_statement i k (Some n) [send_started_key \<mapsto> JBool True] (wdb (interfere w1)) = (Some r, wdb w')"
    by (auto simp: on_db_def stepP_def prod_eq_iff)
  from merge_some [OF this] show ?thesis
    by (auto simp: sendable_def fence_some map_le_def intro!: bexI [of _ r])
qed

interpretation postgres: publish_intent_store postgres_publish_store
  by unfold_locales (auto simp: postgres_publish_store_def keeps_persist_remote keeps_merge_remote
      keeps_reconcile_remote keeps_release_remote keeps_on_db_remote merge_program_marks)

subsection \<open>One call mutates at most once\<close>

lemma rises_liftE: "rises f n (liftE r)"
  by (simp add: liftE_def split: sum.splits)

lemma rises_abort: "rises f n throw_if_execution_aborted"
  by (simp add: rises_def throw_if_execution_aborted_def split: abort_signal.splits)

lemma rises_on_db: "rises (\<lambda>w. f (remote w)) n (on_db m)"
  by (simp add: rises_def)

lemma rises_ready: "rises (\<lambda>w. f (remote w)) n (assert_mutation_ready p)"
  unfolding assert_mutation_ready_def assert_held_def
  using rises_then [OF rises_abort [of _ 0] rises_on_db [of f n]]
  by (auto intro: rises0_then rises_abort rises_on_db split: option.splits)

lemma rises_assert: "rises (\<lambda>w. f (remote w)) n (assert_held i e)"
  unfolding assert_held_def by (rule rises_on_db)

lemma rises_handled:
  "rises f 0 m \<Longrightarrow> (\<And>e. rises f n (h e)) \<Longrightarrow> (\<And>x. rises f n (k x)) \<Longrightarrow> rises f n (handled m h k)"
  unfolding handled_def by (rule rises0_bind) (auto intro: rises_try split: sum.splits)

text \<open>What the caller gives must act on the remote side through the mutation alone.\<close>

definition mutates_once :: "('g \<Rightarrow> nat) \<Rightarrow> 'g publish_env \<Rightarrow> 'g publish_params \<Rightarrow> bool" where
  "mutates_once f en p \<longleftrightarrow> rises (\<lambda>w. f (remote w)) 1 (p_mutate p) \<and>
     (\<forall>r \<in> set_option (p_recover p). \<forall>intent rec. rises (\<lambda>w. f (remote w)) 0 (r intent rec)) \<and>
     (\<forall>i intent. rises (\<lambda>w. f (remote w)) 0 (en_lookup en i intent))"

context publish_intent_store begin

lemmas quiet_rules = rises0_bind rises0_then rises0_catch rises_try rises_liftE rises_ready rises_assert
  rises_return rises_throw rises_handled quiet_rises

lemma recover_quiet:
  assumes "mutates_once f en p"
  shows "rises (\<lambda>w. f (remote w)) 0 (recover_by_exact_evidence st p intent rec)"
proof -
  have r: "rises (\<lambda>w. f (remote w)) 0 (r i x)" if "p_recover p = Some r" for r i x
    using assms that by (simp add: mutates_once_def)
  show ?thesis
  proof (cases "p_recover p")
    case None
    then show ?thesis by (simp add: recover_by_exact_evidence_def)
  next
    case (Some g)
    have "rises (\<lambda>w. f (remote w)) 0 (catchP (g intent rec)
        (\<lambda>_. thenP (assert_mutation_ready p) (throwP recovery_failed)))"
      by (intro rises0_catch r [OF Some] rises0_then rises_ready rises_throw)
    with Some show ?thesis
      unfolding recover_by_exact_evidence_def reconcile_in_flight_def
      by (auto intro!: rises0_bind rises0_then rises_ready rises_liftE quiet_rises split: recovery.splits)
  qed
qed

lemma finish_quiet:
  "rises (\<lambda>w. f (remote w)) 0 (finish_with_stashed_result st p intent)"
  "rises (\<lambda>w. f (remote w)) 0 (finish_void_success st p intent extra rec)"
  unfolding finish_with_stashed_result_def finish_void_success_def reconcile_in_flight_def
  by (auto intro!: quiet_rules)

lemma recover_after_quiet:
  assumes "mutates_once f en p"
  shows "rises (\<lambda>w. f (remote w)) 0 (recover_after_mutating_without_result en st p intent)"
proof -
  have l: "rises (\<lambda>w. f (remote w)) 0 (en_lookup en i x)" for i x
    using assms by (simp add: mutates_once_def)
  show ?thesis
    unfolding recover_after_mutating_without_result_def reconcile_in_flight_def Let_def
    by (auto intro!: quiet_rules l recover_quiet [OF assms] finish_quiet split: sum.splits option.splits)
qed

lemma settle_quiet:
  assumes "mutates_once f en p"
  shows "rises (\<lambda>w. f (remote w)) 0 (settle_failure en st p sent ok e)"
  unfolding settle_failure_def Let_def
  by (auto intro!: quiet_rules recover_quiet [OF assms] split: option.splits)

lemma gate_quiet: "rises (\<lambda>w. f (remote w)) 0 (send_gate st p)"
  unfolding send_gate_def by (auto intro!: quiet_rules split: option.splits)

lemma store_result_quiet: "rises (\<lambda>w. f (remote w)) 0 (store_result st p v)"
  unfolding store_result_def Let_def by (auto intro!: quiet_rules)

lemma send_once_rises:
  assumes "mutates_once f en p"
  shows "rises (\<lambda>w. f (remote w)) 1 (send_once en st p)"
proof -
  let ?f = "\<lambda>w. f (remote w)"
  have tail: "rises ?f 0 (handled (store_result st p v) (settle_failure en st p a True) returnP)" for v a
    by (intro rises_handled store_result_quiet settle_quiet [OF assms] rises_return)
  have "rises ?f 1 (p_mutate p)" using assms by (simp add: mutates_once_def)
  then have mid: "rises ?f (1 + 0) (handled (p_mutate p) (settle_failure en st p a False)
      (\<lambda>v. handled (store_result st p v) (settle_failure en st p a True) returnP))" for a
    unfolding handled_def [of "p_mutate p"]
    by (intro rises_bind rises_try) (auto intro: settle_quiet [OF assms] tail split: sum.splits)
  show ?thesis
    unfolding send_once_def
  proof (rule rises_handled)
    show "rises ?f 0 (send_gate st p)" by (rule gate_quiet)
    show "rises ?f 1 (settle_failure en st p False False e)" for e
      by (rule rises_le [OF settle_quiet [OF assms]]) simp
  qed (use mid in simp)
qed

lemma body_rises:
  assumes "mutates_once f en p"
  shows "rises (\<lambda>w. f (remote w)) 1 (publish_once_body en st p)"
proof -
  let ?f = "\<lambda>w. f (remote w)"
  have early: "rises ?f 0 m" if "earlier_outcome en st p intent = Some m" for m intent
    using that unfolding earlier_outcome_def
    by (auto split: if_splits option.splits intro!: quiet_rules finish_quiet recover_quiet [OF assms]
        recover_after_quiet [OF assms])
  have late: "rises ?f 1 (case found of
        Some other \<Rightarrow> recover_after_mutating_without_result en st p other
      | None \<Rightarrow> thenP (ps_merge st (p_item p) (p_key p) (p_epoch p) (arm_detail p)) (send_once en st p))"
    for found
    by (cases found) (auto intro: rises0_then [OF quiet_rises(2)] send_once_rises [OF assms, simplified]
        rises_le [OF recover_after_quiet [OF assms]])
  have "rises ?f 1 (case earlier_outcome en st p intent of
        Some m \<Rightarrow> m
      | None \<Rightarrow> bindP (ps_find_in_flight st (p_item p) (p_key p)) (\<lambda>found. case found of
            Some other \<Rightarrow> recover_after_mutating_without_result en st p other
          | None \<Rightarrow> thenP (ps_merge st (p_item p) (p_key p) (p_epoch p) (arm_detail p)) (send_once en st p)))"
    for intent
  proof (cases "earlier_outcome en st p intent")
    case None
    then show ?thesis by (simp only: option.case) (intro rises0_bind quiet_rises late)
  next
    case (Some m)
    then show ?thesis by (simp only: option.case) (intro rises_le [OF early [OF Some]], simp)
  qed
  then show ?thesis
    unfolding publish_once_body_def
    by (intro rises0_then [OF rises_ready] rises0_bind [OF quiet_rises(1)])
qed

lemma retained_rises: "rises (\<lambda>w. f (remote w)) 0 (with_retained_description_identity st p)"
  unfolding with_retained_description_identity_def
  by (auto intro!: rises0_then rises0_bind rises_ready quiet_rises split: option.splits)

lemma publish_once_rises:
  assumes "mutates_once f en p"
  shows "rises (\<lambda>w. f (remote w)) 1 (publish_once en st p)"
proof -
  let ?f = "\<lambda>w. f (remote w)"
  have same: "mutates_once f en q" if "with_retained_description_identity st p w = (Inr q, w')" for q w w'
    using that assms
    by (auto simp: with_retained_description_identity_def thenP_def bindP_Inr_iff returnP_def
        mutates_once_def split: option.splits if_splits prod.splits)
  have delegated: "mutates_once f en (q\<lparr>p_mutate := delegated_mutate st q\<rparr>)" if "mutates_once f en q" for q
  proof -
    have "rises ?f 1 (delegated_mutate st q)"
      unfolding delegated_mutate_def using that
      by (auto intro!: rises0_bind quiet_rises simp: mutates_once_def)
    with that show ?thesis by (simp add: mutates_once_def)
  qed
  have rest: "rises ?f 1 (case p_delegation q of
          None \<Rightarrow> publish_once_body en st q
        | Some g \<Rightarrow>
            bindP (ps_persist st (p_item q) (p_key q) (p_kind q) (p_epoch q) (delegation_detail g False))
              (\<lambda>parent.
              thenP (reset_delegation st q parent)
                (thenP (fail_unentered st q parent)
                  (publish_once_body en st (q\<lparr>p_mutate := delegated_mutate st q\<rparr>)))))"
    if "mutates_once f en q" for q
    using body_rises [OF that] body_rises [OF delegated [OF that]]
    by (auto simp: reset_delegation_def fail_unentered_def
        intro!: rises0_bind rises0_then quiet_rises split: option.splits)
  show ?thesis
    unfolding publish_once_def
    using rises0_bind_result [OF retained_rises rest [OF same]] by simp
qed

end

subsection \<open>The mutation runs only behind the gate\<close>

text \<open>Nothing but the send looks at the mutation.\<close>

lemma mutate_irrelevant [simp]:
  "assert_mutation_ready (p\<lparr>p_mutate := m\<rparr>) = assert_mutation_ready p"
  "decode_publish_result (p\<lparr>p_mutate := m\<rparr>) = decode_publish_result p"
  "resolve_reconcile_detail (p\<lparr>p_mutate := m\<rparr>) = resolve_reconcile_detail p"
  "reconcile_in_flight st (p\<lparr>p_mutate := m\<rparr>) = reconcile_in_flight st p"
  "allows_undefined_success (p\<lparr>p_mutate := m\<rparr>) = allows_undefined_success p"
  "arm_detail (p\<lparr>p_mutate := m\<rparr>) = arm_detail p"
proof -
  show dec: "decode_publish_result (p\<lparr>p_mutate := m\<rparr>) = decode_publish_result p"
    by (simp add: fun_eq_iff decode_publish_result_def)
  show "resolve_reconcile_detail (p\<lparr>p_mutate := m\<rparr>) = resolve_reconcile_detail p"
    by (simp add: fun_eq_iff resolve_reconcile_detail_def dec
        cong: option.case_cong reconcile_detail.case_cong if_cong)
qed (simp_all add: fun_eq_iff assert_mutation_ready_def reconcile_in_flight_def
      allows_undefined_success_def arm_detail_def cong: option.case_cong)

lemma mutate_irrelevant_programs [simp]:
  "finish_with_stashed_result st (p\<lparr>p_mutate := m\<rparr>) = finish_with_stashed_result st p"
  "recover_by_exact_evidence st (p\<lparr>p_mutate := m\<rparr>) = recover_by_exact_evidence st p"
  "finish_void_success st (p\<lparr>p_mutate := m\<rparr>) = finish_void_success st p"
  "send_gate st (p\<lparr>p_mutate := m\<rparr>) = send_gate st p"
  "store_result st (p\<lparr>p_mutate := m\<rparr>) = store_result st p"
  by (simp_all add: fun_eq_iff finish_with_stashed_result_def recover_by_exact_evidence_def
      finish_void_success_def send_gate_def store_result_def cong: if_cong option.case_cong recovery.case_cong)

lemma mutate_irrelevant_outcomes [simp]:
  "recover_after_mutating_without_result en st (p\<lparr>p_mutate := m\<rparr>) =
     recover_after_mutating_without_result en st p"
  "settle_failure en st (p\<lparr>p_mutate := m\<rparr>) = settle_failure en st p"
  "earlier_outcome en st (p\<lparr>p_mutate := m\<rparr>) = earlier_outcome en st p"
proof -
  show after: "recover_after_mutating_without_result en st (p\<lparr>p_mutate := m\<rparr>) =
      recover_after_mutating_without_result en st p"
    by (simp add: fun_eq_iff recover_after_mutating_without_result_def Let_def
        cong: if_cong option.case_cong sum.case_cong)
  show "settle_failure en st (p\<lparr>p_mutate := m\<rparr>) = settle_failure en st p"
    by (simp add: fun_eq_iff settle_failure_def Let_def cong: if_cong option.case_cong)
  show "earlier_outcome en st (p\<lparr>p_mutate := m\<rparr>) = earlier_outcome en st p"
    by (simp add: fun_eq_iff earlier_outcome_def after cong: if_cong option.case_cong)
qed

context publish_intent_store begin

lemma send_once_gated:
  assumes "p_epoch p = Some e" and "\<And>w. sendable e (p_item p) (p_key p) w \<Longrightarrow> m1 w = m2 w"
  shows "send_once en st (p\<lparr>p_mutate := m1\<rparr>) = send_once en st (p\<lparr>p_mutate := m2\<rparr>)"
proof
  fix w
  obtain r w' where gate: "send_gate st p w = (r, w')" by fastforce
  show "send_once en st (p\<lparr>p_mutate := m1\<rparr>) w = send_once en st (p\<lparr>p_mutate := m2\<rparr>) w"
  proof (cases r)
    case (Inl x)
    with gate show ?thesis by (simp add: send_once_def handled_def bindP_def tryP_def)
  next
    case (Inr u)
    with gate assms(1) have "sendable e (p_item p) (p_key p) w'"
      by (auto intro: gate_opens_sendable)
    then have "m1 w' = m2 w'" by (rule assms(2))
    with gate Inr show ?thesis by (simp add: send_once_def handled_def bindP_def tryP_def)
  qed
qed

lemma body_gated:
  assumes "p_epoch p = Some e" and "\<And>w. sendable e (p_item p) (p_key p) w \<Longrightarrow> m1 w = m2 w"
  shows "publish_once_body en st (p\<lparr>p_mutate := m1\<rparr>) = publish_once_body en st (p\<lparr>p_mutate := m2\<rparr>)"
proof -
  have "send_once en st (p\<lparr>p_mutate := m1\<rparr>) = send_once en st (p\<lparr>p_mutate := m2\<rparr>)"
    by (rule send_once_gated [OF assms])
  then show ?thesis by (simp add: publish_once_body_def cong: option.case_cong)
qed

end

subsection \<open>A settled intent is never sent again\<close>

lemma settled_outcome: "settled_row r \<Longrightarrow> earlier_outcome en st p r \<noteq> None"
  by (auto simp: settled_row_def earlier_outcome_def has_stashed_result_def)

lemma keeps_ready: "keeps (world_keeps P) (assert_mutation_ready p)"
proof -
  have abort: "keeps (world_keeps P) throw_if_execution_aborted"
    by (simp add: keeps_def throw_if_execution_aborted_def split: abort_signal.splits)
  then show ?thesis
    unfolding assert_mutation_ready_def by (auto intro!: keeps_then keeps_assert split: option.splits)
qed

lemma settled_body:
  assumes "world_keeps (settled_intent (p_item p) (p_key p)) w"
  shows "publish_once_body en postgres_publish_store (p\<lparr>p_mutate := m1\<rparr>) w =
    publish_once_body en postgres_publish_store (p\<lparr>p_mutate := m2\<rparr>) w"
proof -
  let ?P = "world_keeps (settled_intent (p_item p) (p_key p))"
  let ?persist = "ps_persist postgres_publish_store (p_item p) (p_key p) (p_kind p) (p_epoch p)
      (case p_detail p of Some d \<Rightarrow> d | None \<Rightarrow> Map.empty)"
  have outcome: "earlier_outcome en postgres_publish_store p r \<noteq> None"
    if "assert_mutation_ready p w = (Inr u, w1)" and "?persist w1 = (Inr r, w2)" for u r w1 w2
  proof (rule settled_outcome, rule persist_settled)
    show "?P w1" using keepsD [OF keeps_ready assms, of p] that(1) by simp
  qed (use that(2) in \<open>simp add: postgres_publish_store_def\<close>)
  show ?thesis
    unfolding publish_once_body_def thenP_def
    by (auto intro!: bindP_cong_result dest!: outcome)
qed

text \<open>The part of a call with delegation that comes before its body.\<close>

lemma keeps_delegation:
  "keeps (world_keeps (settled_intent i k)) (reset_delegation postgres_publish_store p parent)"
  "keeps (world_keeps (settled_intent i k)) (fail_unentered postgres_publish_store p parent)"
  by (auto simp: postgres_publish_store_def reset_delegation_def fail_unentered_def
      intro!: keeps_then keeps_settled_merge keeps_settled_reconcile)

lemma delegation_irrelevant [simp]:
  "reset_delegation st (p\<lparr>p_mutate := m\<rparr>) = reset_delegation st p"
  "fail_unentered st (p\<lparr>p_mutate := m\<rparr>) = fail_unentered st p"
  by (simp_all add: fun_eq_iff reset_delegation_def fail_unentered_def cong: if_cong)

lemma settled_publish:
  assumes "world_keeps (settled_intent (p_item p) (p_key p)) w" and "p_kind p \<noteq> description_kind"
  shows "publish_once en postgres_publish_store (p\<lparr>p_mutate := m1\<rparr>) w =
    publish_once en postgres_publish_store (p\<lparr>p_mutate := m2\<rparr>) w"
proof -
  let ?st = "postgres_publish_store"
  let ?P = "world_keeps (settled_intent (p_item p) (p_key p))"
  have id: "with_retained_description_identity ?st (p\<lparr>p_mutate := m\<rparr>) = returnP (p\<lparr>p_mutate := m\<rparr>)" for m
    using assms(2) by (simp add: with_retained_description_identity_def split: option.splits)
  have fence: "fence_agrees (p\<lparr>p_mutate := m\<rparr>) = fence_agrees p" for m
    by (simp add: fence_agrees_def)
  have pers: "?P w'" if "ps_persist ?st (p_item p) (p_key p) (p_kind p) (p_epoch p) x w = (Inr r, w')" for x r w'
    using keepsD [OF keeps_settled_persist assms(1), of "p_item p" "p_key p" "p_kind p" "p_epoch p" x] that
    by (simp add: postgres_publish_store_def)
  have inner: "publish_once_body en ?st (p\<lparr>p_mutate := a\<rparr>) w' = publish_once_body en ?st (p\<lparr>p_mutate := b\<rparr>) w'"
    if "?P w'" for a b w'
    by (rule settled_body [OF that])
  have prefix: "thenP (reset_delegation ?st p r) (thenP (fail_unentered ?st p r)
        (publish_once_body en ?st (p\<lparr>p_mutate := a\<rparr>))) w' =
      thenP (reset_delegation ?st p r) (thenP (fail_unentered ?st p r)
        (publish_once_body en ?st (p\<lparr>p_mutate := b\<rparr>))) w'" if "?P w'" for r a b w'
  proof (intro thenP_cong_result inner)
    fix u v w1 w2
    assume 1: "reset_delegation ?st p r w' = (Inr u, w1)" and 2: "fail_unentered ?st p r w1 = (Inr v, w2)"
    have "?P w1" using keepsD [OF keeps_delegation(1) that] 1 by (metis snd_conv)
    from keepsD [OF keeps_delegation(2) this] 2 show "?P w2" by (metis snd_conv)
  qed
  show ?thesis
  proof (cases "p_delegation p")
    case None
    then show ?thesis
      using inner [OF assms(1)] by (simp add: publish_once_def id fence throwP_def)
  next
    case (Some g)
    then show ?thesis
      by (simp add: publish_once_def id fence throwP_def)
        (auto intro!: bindP_cong_result prefix pers)
  qed
qed

subsection \<open>Calls that no other session disturbs\<close>

definition calm :: "'g publish_params \<Rightarrow> 'g world \<Rightarrow> bool" where
  "calm p w \<longleftrightarrow> wsched w = [] \<and> wsignal w = NotAborted \<and> uniq intent_key (intents (wdb w)) \<and>
     lease_fence_sql (wdb w) (p_item p) (p_epoch p)"

definition on_tables :: "(db \<Rightarrow> db) \<Rightarrow> 'g world \<Rightarrow> 'g world" where
  "on_tables f w = w\<lparr>wdb := f (wdb w)\<rparr>"

lemma on_db_calm: "wsched w = [] \<Longrightarrow> on_db m w = (fst (m (wdb w)), w\<lparr>wdb := snd (m (wdb w))\<rparr>)"
  by (simp add: on_db_def interfere_def)

lemma assert_held_calm:
  "wsched w = [] \<Longrightarrow> lease_fence_sql (wdb w) i (Some e) \<Longrightarrow> assert_held i e w = (Inr (), w)"
  by (simp add: assert_held_def on_db_calm assert_pr_actor_lease_held_def prog_defs fence_some)

lemma ready_calm: "calm p w \<Longrightarrow> assert_mutation_ready p w = (Inr (), w)"
  by (auto simp: calm_def assert_mutation_ready_def throw_if_execution_aborted_def thenP_def bindP_def
      returnP_def assert_held_calm split: option.splits)

lemma fenced_write_calm:
  assumes "calm p w" and "\<And>e w. held e w = assert_held (p_item p) e w"
    and "m w = (Inr x, w')" and "\<not> rejected x"
  shows "fenced_write held (p_epoch p) True rejected m w = (Inr x, w')"
proof -
  have "(case p_epoch p of None \<Rightarrow> returnP () | Some e \<Rightarrow> whenP True (held e)) w = (Inr (), w)"
    using assms(1,2) by (auto simp: calm_def returnP_def whenP_def assert_held_calm split: option.splits)
  moreover have "(case p_epoch p of None \<Rightarrow> returnP () | Some e \<Rightarrow> whenP (rejected x) (held e)) w' = (Inr (), w')"
    using assms(4) by (auto simp: returnP_def whenP_def split: option.splits)
  ultimately show ?thesis
    using assms(3) by (simp add: fenced_write_def thenP_def bindP_def returnP_def)
qed

lemma find_by_key:
  assumes "uniq key rows" and "row_at key k rows = Some r" and "Q r"
  shows "find (\<lambda>x. key x = k \<and> Q x) rows = Some r"
  using filter_key [OF assms(1), of k Q] assms(2,3) by (simp add: find_filter)

lemma update_intents_row:
  assumes "uniq intent_key (intents d)" and "intent_at d i k = Some r" and "Q r"
    and "\<And>r. intent_key (f r) = intent_key r"
  shows "fst (update_intents (\<lambda>r. intent_key r = (i, k) \<and> Q r) f d) = Some (f r)"
    and "intent_at (snd (update_intents (\<lambda>r. intent_key r = (i, k) \<and> Q r) f d)) i k = Some (f r)"
    and "uniq intent_key (intents (snd (update_intents (\<lambda>r. intent_key r = (i, k) \<and> Q r) f d)))"
  using assms find_by_key [of intent_key "intents d" "(i, k)" r Q] intent_at_in [OF assms(2)]
  by (simp_all add: update_intents_def intent_at_def row_at_update_where uniq_update_where)

definition merged_row :: "int option \<Rightarrow> detail \<Rightarrow> operation_intent \<Rightarrow> operation_intent" where
  "merged_row e det r = r\<lparr>oi_status := (if oi_status r = IntentFailed then Pending else oi_status r),
     oi_reconciled_at := (if oi_status r = IntentFailed then None else oi_reconciled_at r),
     oi_lease_epoch := coalesce_epoch e (oi_lease_epoch r), oi_detail := oi_detail r ++ det\<rparr>"

definition reconciled_row ::
  "time \<Rightarrow> intent_status \<Rightarrow> string option \<Rightarrow> int option \<Rightarrow> detail \<Rightarrow> operation_intent \<Rightarrow> operation_intent" where
  "reconciled_row t st rec e det r = r\<lparr>oi_status := st,
     oi_publish_record_id := coalesce_record rec (oi_publish_record_id r),
     oi_lease_epoch := coalesce_epoch e (oi_lease_epoch r), oi_detail := oi_detail r ++ det,
     oi_reconciled_at := Some t\<rparr>"

text \<open>A world in which the intent of the call is the given row.\<close>

definition at_row :: "'g publish_params \<Rightarrow> operation_intent \<Rightarrow> 'g world \<Rightarrow> bool" where
  "at_row p r w \<longleftrightarrow> calm p w \<and> intent_at (wdb w) (p_item p) (p_key p) = Some r"

lemma merge_calm:
  assumes "at_row p r w" and "oi_status r \<in> {Pending, IntentFailed}"
  shows "\<exists>w'. merge_operation_intent_detail (p_item p) (p_key p) (p_epoch p) det w =
      (Inr (Some (merged_row (p_epoch p) det r)), w') \<and>
    at_row p (merged_row (p_epoch p) det r) w' \<and> remote w' = remote w"
proof -
  let ?Q = "\<lambda>r. oi_status r \<in> {Pending, IntentFailed} \<and> lease_fence_sql (wdb w) (p_item p) (p_epoch p)"
  let ?m = "merge_statement (p_item p) (p_key p) (p_epoch p) det (wdb w)"
  let ?w' = "w\<lparr>wdb := snd ?m\<rparr>"
  have calm: "calm p w" "wsched w = []" and q: "?Q r" using assms by (auto simp: at_row_def calm_def)
  have m: "?m = update_intents (\<lambda>r. intent_key r = (p_item p, p_key p) \<and> ?Q r)
      (merged_row (p_epoch p) det) (wdb w)"
    by (simp add: merge_statement_def merged_row_def [abs_def])
  have key: "intent_key (merged_row (p_epoch p) det x) = intent_key x" for x
    by (simp add: merged_row_def)
  note row = update_intents_row [of "wdb w" "p_item p" "p_key p" r ?Q "merged_row (p_epoch p) det", OF _ _ q key]
  have "statement (merge_statement (p_item p) (p_key p) (p_epoch p) det) w = (Inr (fst ?m), ?w')"
    using calm by (simp add: on_db_calm stepP_def)
  moreover have "fst ?m = Some (merged_row (p_epoch p) det r)"
    unfolding m using assms(1) by (intro row) (auto simp: at_row_def calm_def)
  ultimately have "merge_operation_intent_detail (p_item p) (p_key p) (p_epoch p) det w =
      (Inr (Some (merged_row (p_epoch p) det r)), ?w')"
    unfolding merge_operation_intent_detail_def by (intro fenced_write_calm [OF calm(1)]) simp_all
  moreover have "lease_fence_sql (snd ?m) (p_item p) (p_epoch p)"
    using calm(1) by (simp add: m update_intents_def calm_def lease_fence_sql_def split: option.splits)
  then have "at_row p (merged_row (p_epoch p) det r) ?w'"
    using row(2,3) assms(1) unfolding m by (simp add: at_row_def calm_def)
  ultimately show ?thesis by auto
qed

lemma reconcile_calm:
  assumes "at_row p r w" and "oi_status r = Pending \<or> oi_status r = st"
  shows "\<exists>w'. reconcile_operation_intent (p_item p) (p_key p) st rec (p_epoch p) (p_item p) (Some det) w =
      (Inr (Some (reconciled_row (now (wdb w)) st rec (p_epoch p) det r)), w') \<and>
    at_row p (reconciled_row (now (wdb w)) st rec (p_epoch p) det r) w' \<and> remote w' = remote w"
proof -
  let ?Q = "\<lambda>r. (oi_status r = Pending \<or> oi_status r = st \<or> oi_status r = OutcomeUnknown \<and> st = Reconciled) \<and>
      lease_fence_sql (wdb w) (p_item p) (p_epoch p)"
  let ?f = "reconciled_row (now (wdb w)) st rec (p_epoch p) det"
  let ?m = "reconcile_statement (p_item p) (p_key p) st rec (p_epoch p) (p_item p) (Some det) (wdb w)"
  let ?w' = "w\<lparr>wdb := snd ?m\<rparr>"
  have calm: "calm p w" "wsched w = []" and q: "?Q r" using assms by (auto simp: at_row_def calm_def)
  have m: "?m = update_intents (\<lambda>r. intent_key r = (p_item p, p_key p) \<and> ?Q r) ?f (wdb w)"
    by (simp add: reconcile_statement_def reconciled_row_def [abs_def])
  have key: "intent_key (?f x) = intent_key x" for x
    by (simp add: reconciled_row_def)
  note row = update_intents_row [of "wdb w" "p_item p" "p_key p" r ?Q ?f, OF _ _ q key]
  have f: "fst ?m = Some (?f r)"
    unfolding m using assms(1) by (intro row) (auto simp: at_row_def calm_def)
  have "statement (reconcile_statement (p_item p) (p_key p) st rec (p_epoch p) (p_item p) (Some det)) w =
      (Inr (fst ?m), ?w')"
    using calm by (simp add: on_db_calm stepP_def)
  with f have "reconcile_operation_intent (p_item p) (p_key p) st rec (p_epoch p) (p_item p) (Some det) w =
      (Inr (Some (?f r)), ?w')"
    unfolding reconcile_operation_intent_def
    by (intro fenced_write_calm [OF calm(1)]) (simp_all add: bindP_def returnP_def)
  moreover have "lease_fence_sql (snd ?m) (p_item p) (p_epoch p)"
    using calm(1) by (simp add: m update_intents_def calm_def lease_fence_sql_def split: option.splits)
  then have "at_row p (?f r) ?w'"
    using row(2,3) assms(1) unfolding m by (simp add: at_row_def calm_def)
  ultimately show ?thesis by auto
qed

lemma persist_calm_statement:
  assumes "calm p w" and "persist_statement (p_item p) (p_key p) kind (p_epoch p) det (wdb w) = (Some r, d')"
  shows "persist_operation_intent (p_item p) (p_key p) kind (p_epoch p) det w = (Inr r, w\<lparr>wdb := d'\<rparr>)"
proof -
  have "statement (persist_statement (p_item p) (p_key p) kind (p_epoch p) det) w = (Inr (Some r), w\<lparr>wdb := d'\<rparr>)"
    using assms by (simp add: on_db_calm calm_def stepP_def)
  then have "fenced_write (assert_held (p_item p)) (p_epoch p) True (\<lambda>r. r = None)
      (statement (persist_statement (p_item p) (p_key p) kind (p_epoch p) det)) w = (Inr (Some r), w\<lparr>wdb := d'\<rparr>)"
    by (intro fenced_write_calm [OF assms(1)]) simp_all
  then show ?thesis by (simp add: persist_operation_intent_def bindP_def returnP_def)
qed

lemma persist_calm_old:
  assumes "at_row p r w"
  shows "\<exists>w'. persist_operation_intent (p_item p) (p_key p) kind (p_epoch p) det w =
      (Inr (r\<lparr>oi_lease_epoch := coalesce_epoch (p_epoch p) (oi_lease_epoch r)\<rparr>), w') \<and>
    at_row p (r\<lparr>oi_lease_epoch := coalesce_epoch (p_epoch p) (oi_lease_epoch r)\<rparr>) w' \<and> remote w' = remote w"
proof -
  let ?r = "r\<lparr>oi_lease_epoch := coalesce_epoch (p_epoch p) (oi_lease_epoch r)\<rparr>"
  obtain x d' where p: "persist_statement (p_item p) (p_key p) kind (p_epoch p) det (wdb w) = (x, d')"
    by fastforce
  have calm: "calm p w" and at: "intent_at (wdb w) (p_item p) (p_key p) = Some r"
    using assms by (simp_all add: at_row_def)
  from p show ?thesis
  proof (cases rule: persist_cases)
    case NoLease
    with calm show ?thesis by (simp add: calm_def)
  next
    case (New new)
    with at show ?thesis by simp
  next
    case (Old old)
    have x: "x = Some ?r" using Old at by simp
    have d': "d' = snd (update_intents (\<lambda>r. intent_key r = (p_item p, p_key p) \<and> True)
        (\<lambda>r. r\<lparr>oi_lease_epoch := coalesce_epoch (p_epoch p) (oi_lease_epoch r)\<rparr>) (wdb w))"
      using Old by (simp add: update_intents_def)
    have "intent_at d' (p_item p) (p_key p) = Some ?r" "uniq intent_key (intents d')"
      unfolding d' using calm at by (intro update_intents_row; simp add: calm_def)+
    then have "at_row p ?r (w\<lparr>wdb := d'\<rparr>)"
      using calm Old by (simp add: at_row_def calm_def lease_fence_sql_def split: option.splits)
    with persist_calm_statement [OF calm p [unfolded x]] show ?thesis by auto
  qed
qed

lemma persist_calm_new:
  assumes "calm p w" and "intent_at (wdb w) (p_item p) (p_key p) = None"
  shows "\<exists>r w'. persist_operation_intent (p_item p) (p_key p) kind (p_epoch p) det w = (Inr r, w') \<and>
    at_row p r w' \<and> remote w' = remote w \<and> oi_status r = Pending \<and> oi_detail r = det \<and>
    wdb w' = (wdb w)\<lparr>intents := intents (wdb w) @ [r]\<rparr>"
proof -
  obtain x d' where p: "persist_statement (p_item p) (p_key p) kind (p_epoch p) det (wdb w) = (x, d')"
    by fastforce
  from p show ?thesis
  proof (cases rule: persist_cases)
    case NoLease
    with assms show ?thesis by (simp add: calm_def)
  next
    case (New new)
    then have "at_row p new (w\<lparr>wdb := d'\<rparr>)"
      using assms by (auto simp: at_row_def calm_def intent_at_def row_at_append row_at_simps
          uniq_append_new lease_fence_sql_def split: option.splits)
    with persist_calm_statement [OF assms(1) p [unfolded New(3)]] New show ?thesis by auto
  next
    case (Old old)
    with assms show ?thesis by simp
  qed
qed

definition acts :: "'g publish_params \<Rightarrow> js_error + json option \<Rightarrow> ('g \<Rightarrow> 'g) \<Rightarrow> bool" where
  "acts p x g \<longleftrightarrow> (\<forall>w. p_mutate p w = (x, w\<lparr>remote := g (remote w)\<rparr>))"

lemma at_row_remote: "at_row p r w \<Longrightarrow> at_row p r (w\<lparr>remote := y\<rparr>)"
  by (simp add: at_row_def calm_def)

lemma gate_calm:
  assumes "at_row p r w" and "oi_status r = Pending"
  shows "\<exists>r' w'. send_gate postgres_publish_store p w = (Inr (), w') \<and> at_row p r' w' \<and>
    oi_status r' = Pending \<and> remote w' = remote w"
proof (cases "p_epoch p")
  case None
  with assms ready_calm [of p w] show ?thesis
    by (auto simp: send_gate_def thenP_def bindP_def returnP_def at_row_def)
next
  case (Some e)
  obtain w' where m: "merge_operation_intent_detail (p_item p) (p_key p) (Some e) [send_started_key \<mapsto> JBool True] w =
      (Inr (Some (merged_row (Some e) [send_started_key \<mapsto> JBool True] r)), w')"
    and w': "at_row p (merged_row (Some e) [send_started_key \<mapsto> JBool True] r) w'" "remote w' = remote w"
    using merge_calm [OF assms(1)] assms(2) Some by force
  have "assert_held (p_item p) e w = (Inr (), w)"
    using assms(1) Some by (auto simp: at_row_def calm_def assert_held_calm)
  with m w' Some assms ready_calm [of p w] show ?thesis
    by (auto simp: send_gate_def thenP_def bindP_def returnP_def at_row_def postgres_publish_store_def
        merged_row_def)
qed

lemma store_result_calm:
  assumes "at_row p r w" and "oi_status r = Pending" and "p_decode p = None"
    and "p_reconcile_detail p = DetailConst c"
  shows "\<exists>r' w'. store_result postgres_publish_store p v w = (Inr v, w') \<and> at_row p r' w' \<and>
    oi_status r' = Reconciled \<and> oi_detail r' result_key = Some (stash v) \<and> remote w' = remote w"
proof -
  let ?det = "c(result_key \<mapsto> stash v)"
  obtain w1 where m: "merge_operation_intent_detail (p_item p) (p_key p) (p_epoch p) ?det w =
      (Inr (Some (merged_row (p_epoch p) ?det r)), w1)"
    and w1: "at_row p (merged_row (p_epoch p) ?det r) w1" "remote w1 = remote w"
    using merge_calm [OF assms(1)] assms(2) by blast
  obtain w2 where rc: "reconcile_operation_intent (p_item p) (p_key p) Reconciled (p_record_id p) (p_epoch p)
        (p_item p) (Some ?det) w1 =
      (Inr (Some (reconciled_row (now (wdb w1)) Reconciled (p_record_id p) (p_epoch p) ?det
        (merged_row (p_epoch p) ?det r))), w2)"
    and w2: "at_row p (reconciled_row (now (wdb w1)) Reconciled (p_record_id p) (p_epoch p) ?det
        (merged_row (p_epoch p) ?det r)) w2" "remote w2 = remote w1"
    using reconcile_calm [OF w1(1)] assms(2) by (fastforce simp: merged_row_def)
  have "assert_mutation_ready p w = (Inr (), w)" using assms(1) ready_calm by (auto simp: at_row_def)
  with m rc have "store_result postgres_publish_store p v w = (Inr v, w2)"
    using assms(3,4)
    by (simp add: store_result_def decode_publish_result_def resolve_reconcile_detail_def liftE_def
        thenP_def bindP_def returnP_def Let_def postgres_publish_store_def)
  with w1 w2 show ?thesis by (auto simp: reconciled_row_def)
qed

lemma send_once_success:
  assumes "at_row p r w" and "oi_status r = Pending" and "p_decode p = None"
    and "p_reconcile_detail p = DetailConst c" and "acts p (Inr v) g"
  shows "\<exists>r' w'. send_once en postgres_publish_store p w = (Inr v, w') \<and> at_row p r' w' \<and>
    oi_status r' = Reconciled \<and> oi_detail r' result_key = Some (stash v) \<and> remote w' = g (remote w)"
proof -
  obtain r1 w1 where g: "send_gate postgres_publish_store p w = (Inr (), w1)" "at_row p r1 w1"
      "oi_status r1 = Pending" "remote w1 = remote w"
    using gate_calm [OF assms(1,2)] by blast
  let ?w2 = "w1\<lparr>remote := g (remote w1)\<rparr>"
  obtain r3 w3 where s: "store_result postgres_publish_store p v ?w2 = (Inr v, w3)" "at_row p r3 w3"
      "oi_status r3 = Reconciled" "oi_detail r3 result_key = Some (stash v)" "remote w3 = remote ?w2"
    using store_result_calm [OF at_row_remote [OF g(2)] g(3) assms(3,4)] by blast
  have "p_mutate p w1 = (Inr v, ?w2)" using assms(5) by (simp add: acts_def)
  with g s show ?thesis
    by (auto simp: send_once_def handled_def bindP_def tryP_def returnP_def)
qed

lemma known_error_kinds:
  "fst (throwP e s) = Inl e" "snd (throwP e s) = s"
  by (simp_all add: throwP_def)

definition known_rejection :: "'g publish_env \<Rightarrow> 'g publish_params \<Rightarrow> js_error \<Rightarrow> bool" where
  "known_rejection en p e = (case p_known_no_acceptance p of
      Some f \<Rightarrow> f e | None \<Rightarrow> is_known_no_acceptance_mutation_error (en_anchor_rejection en) e)"

text \<open>A failure of the mutation itself, for a call without a recovery.\<close>

lemma settle_calm:
  assumes "at_row p r w" and "oi_status r = Pending" and "p_recover p = None"
    and "p_reconcile_detail p = DetailConst c" and "sent = (p_epoch p \<noteq> None)"
  shows "\<exists>x r' w'. settle_failure en postgres_publish_store p sent False e w = (Inl x, w') \<and>
    at_row p r' w' \<and> remote w' = remote w \<and>
    oi_status r' = (if known_rejection en p e then IntentFailed else OutcomeUnknown)"
proof -
  let ?known = "known_rejection en p e"
  let ?st = "if ?known then IntentFailed else OutcomeUnknown"
  let ?det = "c ++ [mutating_key \<mapsto> JBool False,
      ''errorCode'' \<mapsto> JStr (if ?known then ''operation_intent.mutation_failed''
         else ''operation_intent.mutation_outcome_unknown''),
      ''errorMessage'' \<mapsto> JStr (en_message en e)]"
  let ?kind = "if ?known then ''mutation_failed'' else ''mutation_outcome_unknown''"
  let ?tail = "thenP (ps_reconcile postgres_publish_store (p_item p) (p_key p) ?st None (p_epoch p) (p_item p) (Some ?det))
      (throwP (to_app_error ''operation_intent'' ?kind e)) :: ('a world, json option) prog"
  have tail: "\<exists>r' w'. ?tail v = (Inl (to_app_error ''operation_intent'' ?kind e), w') \<and> at_row p r' w' \<and>
      remote w' = remote v \<and> oi_status r' = ?st" if row: "at_row p q v" "oi_status q = Pending" for q v
  proof -
    obtain v1 where "reconcile_operation_intent (p_item p) (p_key p) ?st None (p_epoch p) (p_item p) (Some ?det) v =
        (Inr (Some (reconciled_row (now (wdb v)) ?st None (p_epoch p) ?det q)), v1)"
      and "at_row p (reconciled_row (now (wdb v)) ?st None (p_epoch p) ?det q) v1" "remote v1 = remote v"
      using reconcile_calm [OF row(1), of ?st None ?det] row(2) by blast
    then show ?thesis
      by (auto simp: thenP_def bindP_def throwP_def postgres_publish_store_def reconciled_row_def)
  qed
  obtain w1 where p: "persist_operation_intent (p_item p) (p_key p) (p_kind p) (p_epoch p)
        (case p_detail p of Some d \<Rightarrow> d | None \<Rightarrow> Map.empty) w =
      (Inr (r\<lparr>oi_lease_epoch := coalesce_epoch (p_epoch p) (oi_lease_epoch r)\<rparr>), w1)"
    and w1: "at_row p (r\<lparr>oi_lease_epoch := coalesce_epoch (p_epoch p) (oi_lease_epoch r)\<rparr>) w1"
      "remote w1 = remote w"
    using persist_calm_old [OF assms(1)] by blast
  have direct: "settle_failure en postgres_publish_store p sent False e v =
      (if \<not> ?known \<and> is_remote_mutation_error e
       then bindP (persist_operation_intent (p_item p) (p_key p) (p_kind p) (p_epoch p)
         (case p_detail p of Some d \<Rightarrow> d | None \<Rightarrow> Map.empty)) (\<lambda>_. ?tail) v
       else ?tail v)" for v
    using assms(3,4,5)
    by (auto simp: settle_failure_def Let_def known_rejection_def resolve_reconcile_detail_def liftE_def
        recover_by_exact_evidence_def postgres_publish_store_def split: option.splits)
  show ?thesis
  proof (cases "\<not> ?known \<and> is_remote_mutation_error e")
    case True
    with direct [of w] p have "settle_failure en postgres_publish_store p sent False e w = ?tail w1"
      by (simp add: bindP_def)
    with tail [OF w1(1)] w1(2) assms(2) show ?thesis by auto
  next
    case False
    with direct [of w] have "settle_failure en postgres_publish_store p sent False e w = ?tail w"
      by simp
    with tail [OF assms(1,2)] show ?thesis by auto
  qed
qed

lemma send_once_failure:
  assumes "at_row p r w" and "oi_status r = Pending" and "p_recover p = None"
    and "p_reconcile_detail p = DetailConst c" and "acts p (Inl e) g"
  shows "\<exists>x r' w'. send_once en postgres_publish_store p w = (Inl x, w') \<and> at_row p r' w' \<and>
    remote w' = g (remote w) \<and>
    oi_status r' = (if known_rejection en p e then IntentFailed else OutcomeUnknown)"
proof -
  obtain r1 w1 where g: "send_gate postgres_publish_store p w = (Inr (), w1)" "at_row p r1 w1"
      "oi_status r1 = Pending" "remote w1 = remote w"
    using gate_calm [OF assms(1,2)] by blast
  let ?w2 = "w1\<lparr>remote := g (remote w1)\<rparr>"
  obtain x r3 w3 where s: "settle_failure en postgres_publish_store p (p_epoch p \<noteq> None) False e ?w2 = (Inl x, w3)"
      "at_row p r3 w3" "remote w3 = remote ?w2"
      "oi_status r3 = (if known_rejection en p e then IntentFailed else OutcomeUnknown)"
    using settle_calm [OF at_row_remote [OF g(2)] g(3) assms(3,4) refl] by blast
  have "p_mutate p w1 = (Inl e, ?w2)" using assms(5) by (simp add: acts_def)
  with g s show ?thesis
    by (auto simp: send_once_def handled_def bindP_def tryP_def returnP_def)
qed

text \<open>A first call: no intent of the operation, and none of the pull request is in flight.\<close>

definition fresh_call :: "'g publish_params \<Rightarrow> 'g world \<Rightarrow> bool" where
  "fresh_call p w \<longleftrightarrow> calm p w \<and> intent_at (wdb w) (p_item p) (p_key p) = None \<and>
     (\<forall>r \<in> set (intents (wdb w)). \<not> blocks_send (wdb w) (p_item p) (p_key p) r) \<and>
     (\<forall>d. p_detail p = Some d \<longrightarrow> mutating_key \<notin> dom d \<and> result_key \<notin> dom d)"

lemma fresh_reaches_send:
  assumes "fresh_call p w"
  shows "\<exists>r w'. publish_once_body en postgres_publish_store p w = send_once en postgres_publish_store p w' \<and>
    at_row p r w' \<and> oi_status r = Pending \<and> remote w' = remote w"
proof -
  let ?det = "case p_detail p of Some d \<Rightarrow> d | None \<Rightarrow> Map.empty"
  have calm: "calm p w" using assms by (simp add: fresh_call_def)
  obtain r w1 where p: "persist_operation_intent (p_item p) (p_key p) (p_kind p) (p_epoch p) ?det w = (Inr r, w1)"
    and w1: "at_row p r w1" "remote w1 = remote w"
    and r: "oi_status r = Pending" "oi_detail r = ?det"
    and db: "wdb w1 = (wdb w)\<lparr>intents := intents (wdb w) @ [r]\<rparr>"
    using persist_calm_new [OF calm] assms unfolding fresh_call_def by blast
  have det: "mutating_key \<notin> dom ?det" "result_key \<notin> dom ?det"
    using assms by (auto simp: fresh_call_def split: option.splits)
  have "\<not> blocks_send (wdb w1) (p_item p) (p_key p) q" if "q \<in> set (intents (wdb w1))" for q
  proof (cases "q = r")
    case True
    then have "oi_detail q mutating_key = None" using det(1) r(2) by (simp add: domIff)
    then show ?thesis by (simp add: blocks_send_def Let_def split: option.splits)
  next
    case False
    with that db have "q \<in> set (intents (wdb w))" by auto
    then have "\<not> blocks_send (wdb w) (p_item p) (p_key p) q" using assms by (simp add: fresh_call_def)
    then show ?thesis
      by (simp add: db blocks_send_def item_at_def armed_epoch_dead_def cong: option.case_cong json.case_cong)
  qed
  then have none: "find_in_flight_mutating_intent (p_item p) (p_key p) (wdb w1) = None"
    by (simp add: find_in_flight_None_iff)
  obtain w2 where m: "merge_operation_intent_detail (p_item p) (p_key p) (p_epoch p) (arm_detail p) w1 =
      (Inr (Some (merged_row (p_epoch p) (arm_detail p) r)), w2)"
    and w2: "at_row p (merged_row (p_epoch p) (arm_detail p) r) w2" "remote w2 = remote w1"
    using merge_calm [OF w1(1)] r(1) by blast
  have out: "earlier_outcome en postgres_publish_store p r = None"
    using r det(2) by (simp add: earlier_outcome_def has_stashed_result_def)
  have ready: "assert_mutation_ready p w = (Inr (), w)" "assert_mutation_ready p w1 = (Inr (), w1)"
    using ready_calm calm w1(1) by (auto simp: at_row_def)
  have find: "on_db (readP (find_in_flight_mutating_intent (p_item p) (p_key p))) w1 = (Inr None, w1)"
    using w1(1) none by (simp add: on_db_calm at_row_def calm_def readP_def)
  have "publish_once_body en postgres_publish_store p w = send_once en postgres_publish_store p w2"
    using p ready out find m
    by (simp add: publish_once_body_def thenP_def bindP_def postgres_publish_store_def)
  moreover have "oi_status (merged_row (p_epoch p) (arm_detail p) r) = Pending"
    using r(1) by (simp add: merged_row_def)
  ultimately show ?thesis using w1(2) w2 by metis
qed

text \<open>A call on an intent that is reconciled with a result.\<close>

lemma stashed_returns:
  assumes "at_row p r w" and "oi_status r = Reconciled" and "oi_detail r result_key = Some v"
    and "p_decode p = None"
  shows "\<exists>w'. publish_once_body en postgres_publish_store p w =
      (Inr (if v = JNull then None else Some v), w') \<and> remote w' = remote w"
proof -
  let ?r = "r\<lparr>oi_lease_epoch := coalesce_epoch (p_epoch p) (oi_lease_epoch r)\<rparr>"
  obtain w1 where p: "persist_operation_intent (p_item p) (p_key p) (p_kind p) (p_epoch p)
        (case p_detail p of Some d \<Rightarrow> d | None \<Rightarrow> Map.empty) w = (Inr ?r, w1)"
    and w1: "at_row p ?r w1" "remote w1 = remote w"
    using persist_calm_old [OF assms(1)] by blast
  have ready: "assert_mutation_ready p w = (Inr (), w)" "assert_mutation_ready p w1 = (Inr (), w1)"
    using ready_calm assms(1) w1(1) by (auto simp: at_row_def)
  have "earlier_outcome en postgres_publish_store p ?r =
      Some (returnP (if v = JNull then None else Some v))"
    using assms(2-4)
    by (auto simp: earlier_outcome_def has_stashed_result_def finish_with_stashed_result_def liftE_def
        decode_publish_result_def stashed_result_value_def split: json.splits)
  with p ready w1 show ?thesis
    by (simp add: publish_once_body_def thenP_def bindP_def returnP_def postgres_publish_store_def)
qed

subsection \<open>Properties\<close>

definition sample_params :: "int option \<Rightarrow> nat publish_params" where
  "sample_params e = \<lparr>p_item = ''a'', p_key = ''k'', p_kind = ''m'', p_detail = None,
     p_mutation_detail = Map.empty, p_mutate = (\<lambda>w. (Inr (Some (JNum 7)), w\<lparr>remote := remote w + 1\<rparr>)),
     p_decode = None, p_record_id = None, p_reconcile_detail = DetailConst Map.empty, p_recover = None,
     p_allows_undefined = False, p_known_no_acceptance = None, p_epoch = e, p_fence = fence_for_epoch e,
     p_delegation = None\<rparr>"

definition sample_env :: "nat publish_env" where
  "sample_env = \<lparr>en_lookup = (\<lambda>_ _. returnP None), en_anchor_rejection = (\<lambda>_. False), en_message = (\<lambda>_. [])\<rparr>"

definition sample_world :: "operation_intent list \<Rightarrow> nat world" where
  "sample_world rs = \<lparr>wdb = (sample_db [sample_item ''a'' Running] [sample_lease ''a'' 2 200])\<lparr>intents := rs\<rparr>,
     wsignal = NotAborted, wsched = [], remote = 0\<rparr>"

lemmas sample_publish_defs = sample_params_def sample_env_def sample_world_def sample_defs

text \<open>C4. A call mutates at most once, on every path of errors, recoveries, retries of the marks and
  concurrent commits: whatever counts the mutations on the remote side grows by at most one.\<close>

theorem at_most_one_mutation:
  assumes "mutates_once f en p"
  shows "f (remote (snd (publish_once en postgres_publish_store p w))) \<le> f (remote w) + 1"
  by (rule risesD [OF postgres.publish_once_rises [OF assms]])

theorem at_most_one_mutation_witness:
  "remote (snd (publish_once sample_env postgres_publish_store (sample_params (Some 2)) (sample_world []))) \<le> 0 + 1"
  using at_most_one_mutation [of "\<lambda>n. n" sample_env "sample_params (Some 2)" "sample_world []"]
  by (simp add: mutates_once_def sample_publish_defs rises_def returnP_def)

text \<open>C3. A leased call runs its mutation only behind the gate: two mutations that behave alike in
  every world where the lease is held under the call's epoch and the intent is durably marked
  as sent cannot be told apart by the call, whatever other sessions commit in between.\<close>

theorem mutation_behind_gate:
  assumes "p_epoch p = Some e"
    and "\<And>w. sendable e (p_item p) (p_key p) w \<Longrightarrow> m1 w = m2 w"
  shows "publish_once_body en postgres_publish_store (p\<lparr>p_mutate := m1\<rparr>) =
    publish_once_body en postgres_publish_store (p\<lparr>p_mutate := m2\<rparr>)"
  using assms by (rule postgres.body_gated)

theorem mutation_behind_gate_witness:
  "publish_once_body sample_env postgres_publish_store ((sample_params (Some 2))\<lparr>p_mutate :=
       (\<lambda>w. if sendable 2 ''a'' ''k'' w then returnP None w else throwP lease_lost w)\<rparr>) =
     publish_once_body sample_env postgres_publish_store ((sample_params (Some 2))\<lparr>p_mutate := returnP None\<rparr>)"
  by (rule mutation_behind_gate [where e = 2]) (simp_all add: sample_params_def)





text \<open>A failed mutation is recorded before the error reaches the caller: as failed, which a later
  call may retry, exactly when the error proves that nothing was accepted, and otherwise as unknown,
  which no later call retries.\<close>

lemma failure_is_recorded:
  assumes "fresh_call p w" and "p_recover p = None" and "p_reconcile_detail p = DetailConst c"
    and "acts p (Inl e) g"
  shows "\<exists>x r w'. publish_once_body en postgres_publish_store p w = (Inl x, w') \<and> remote w' = g (remote w) \<and>
    intent_at (wdb w') (p_item p) (p_key p) = Some r \<and>
    oi_status r = (if known_rejection en p e then IntentFailed else OutcomeUnknown) \<and>
    (\<not> known_rejection en p e \<longrightarrow> settled_intent (p_item p) (p_key p) (wdb w'))"
proof -
  obtain r w0 where w0: "publish_once_body en postgres_publish_store p w = send_once en postgres_publish_store p w0"
      "at_row p r w0" "oi_status r = Pending" "remote w0 = remote w"
    using fresh_reaches_send [OF assms(1)] by blast
  obtain x r1 w1 where "send_once en postgres_publish_store p w0 = (Inl x, w1)" "at_row p r1 w1"
      "remote w1 = g (remote w0)" "oi_status r1 = (if known_rejection en p e then IntentFailed else OutcomeUnknown)"
    using send_once_failure [OF w0(2,3) assms(2-4)] by blast
  with w0 show ?thesis by (auto simp: at_row_def settled_intent_def settled_row_def)
qed

lemma failure_is_recorded_witness:
  "settled_intent ''a'' ''k'' (wdb (snd (publish_once_body sample_env postgres_publish_store
     ((sample_params (Some 2))\<lparr>p_mutate := (\<lambda>w. (Inl (PlainError ''x''), w\<lparr>remote := remote w\<rparr>))\<rparr>)
     (sample_world []))))"
  using failure_is_recorded [of "(sample_params (Some 2))\<lparr>p_mutate := (\<lambda>w. (Inl (PlainError ''x''), w\<lparr>remote := remote w\<rparr>))\<rparr>"
      "sample_world []" Map.empty "PlainError ''x''" "\<lambda>n. n" sample_env]
  by (auto simp: sample_publish_defs fresh_call_def calm_def uniq_def intent_at_def row_at_simps
      lease_fence_sql_def table_simps holds_lease_def acts_def known_rejection_def
      is_known_no_acceptance_mutation_error_def)

end
