(* ===== verification/Protocol.thy ===== *)
theory Protocol
  imports Publish_Once
begin

text \<open>
  Many executions of one work item that publish the same operation, interleaved statement by
  statement: the protocol that \<^verbatim>\<open>prActorLease.ts\<close>,
  \<^verbatim>\<open>operationIntentRepository.ts\<close> and \<^verbatim>\<open>publishOnce.ts\<close> follow together.

  The steps are the statements of the theories Lease and Intents, taken in the order in which
  \<open>publish_once_body\<close> takes them, by any number of executions, each with an epoch of its own. An
  execution can be abandoned at any point, its lease can be lost at any point, and other sessions
  can recover the intent or work elsewhere. The send is a step of its own: it is accepted, or
  rejected with proof, or it ends with an unknown outcome, in which case it may have been accepted
  or not.

  The main theorem is that the outside world accepts the operation at most once. It needs that no
  renewal revives an expired lease; the last section shows the run of the code in which a revival
  lets a send through whose intent does not block a second one.
\<close>

subsection \<open>The steps\<close>

datatype pc = Idle | Read | Checked | Armed | Gated | Sent | Unknown | Rejected

record proto =
  pdb :: db
  pcs :: "int \<Rightarrow> pc"
  accepted :: nat

definition goto :: "int \<Rightarrow> pc \<Rightarrow> db \<Rightarrow> proto \<Rightarrow> proto" where
  "goto e c d s = s\<lparr>pdb := d, pcs := (pcs s)(e := c)\<rparr>"

definition plain_detail :: "detail \<Rightarrow> bool" where
  "plain_detail det \<longleftrightarrow> mutating_key \<notin> dom det \<and> send_started_key \<notin> dom det \<and>
     mutating_epoch_key \<notin> dom det \<and> result_key \<notin> dom det"

definition armed_detail :: "int \<Rightarrow> detail" where
  "armed_detail e = [mutating_key \<mapsto> JBool True, send_started_key \<mapsto> JBool False, mutating_epoch_key \<mapsto> JNum e]"

definition no_revival :: "lease_op \<Rightarrow> db \<Rightarrow> bool" where
  "no_revival x d \<longleftrightarrow> (case x of
      Renew q e ttl w \<Rightarrow> \<forall>l \<in> set (leases d). renews q e w l \<longrightarrow> now d < l_expires_at l
    | _ \<Rightarrow> True)"

text \<open>A step elsewhere: other work items, other intents, jobs and publish records.\<close>

definition elsewhere :: "item_id \<Rightarrow> string \<Rightarrow> db \<Rightarrow> db \<Rightarrow> bool" where
  "elsewhere i k d d' \<longleftrightarrow> leases d' = leases d \<and> now d' = now d \<and> intent_at d' i k = intent_at d i k \<and>
     uniq intent_key (intents d') \<and>
     map_option (\<lambda>w. (w_resource_key w, w_type w)) (item_at d' i) =
     map_option (\<lambda>w. (w_resource_key w, w_type w)) (item_at d i)"

inductive proto_step :: "(item_id \<Rightarrow> lease_key) \<Rightarrow> item_id \<Rightarrow> string \<Rightarrow> proto \<Rightarrow> proto \<Rightarrow> bool"
  for key_of i k where
  persist: "pcs s e = Idle \<Longrightarrow> plain_detail det \<Longrightarrow>
     persist_statement i k kind (Some e) det (pdb s) = (Some r, d') \<Longrightarrow>
     proto_step key_of i k s (goto e (if settled_row r then Idle else Read) d' s)"
| check: "pcs s e = Read \<Longrightarrow> find_in_flight_mutating_intent i k (pdb s) = None \<Longrightarrow>
     proto_step key_of i k s (goto e Checked (pdb s) s)"
| arm: "pcs s e = Checked \<Longrightarrow> plain_detail det \<Longrightarrow>
     proto_step key_of i k s (goto e Armed (snd (merge_statement i k (Some e) (det ++ armed_detail e) (pdb s))) s)"
| gate: "pcs s e = Armed \<Longrightarrow>
     merge_statement i k (Some e) [send_started_key \<mapsto> JBool True] (pdb s) = (Some r, d') \<Longrightarrow>
     proto_step key_of i k s (goto e Gated d' s)"
| accept: "pcs s e = Gated \<Longrightarrow> c \<in> {Sent, Unknown} \<Longrightarrow>
     proto_step key_of i k s ((goto e c (pdb s) s)\<lparr>accepted := accepted s + 1\<rparr>)"
| drop: "pcs s e = Gated \<Longrightarrow> c \<in> {Unknown, Rejected} \<Longrightarrow>
     proto_step key_of i k s (goto e c (pdb s) s)"
| stash: "pcs s e = Sent \<Longrightarrow> result_key \<in> dom det \<Longrightarrow>
     proto_step key_of i k s (goto e Sent (snd (merge_statement i k (Some e) det (pdb s))) s)"
| finish: "pcs s e = Sent \<Longrightarrow>
     proto_step key_of i k s
       (goto e Idle (snd (reconcile_statement i k Reconciled rec (Some e) i det (pdb s))) s)"
| finish_unknown: "pcs s e = Unknown \<Longrightarrow>
     proto_step key_of i k s
       (goto e Idle (snd (reconcile_statement i k OutcomeUnknown None (Some e) i det (pdb s))) s)"
| finish_rejected: "pcs s e = Rejected \<Longrightarrow>
     proto_step key_of i k s
       (goto e Idle (snd (reconcile_statement i k IntentFailed None (Some e) i det (pdb s))) s)"
| release_unsent: "pcs s e = Armed \<Longrightarrow>
     proto_step key_of i k s (goto e Idle (snd (release_unsent_statement i k e (pdb s))) s)"
| abandon: "proto_step key_of i k s (goto e Idle (pdb s) s)"
| recover: "st \<in> {Reconciled, OutcomeUnknown} \<Longrightarrow>
     proto_step key_of i k s (s\<lparr>pdb := snd (reconcile_statement i k st rec (Some e) holder det (pdb s))\<rparr>)"
| lease: "lease_op_ok key_of x \<Longrightarrow> no_revival x (pdb s) \<Longrightarrow>
     proto_step key_of i k s (s\<lparr>pdb := lease_step x (pdb s)\<rparr>)"
| other: "elsewhere i k (pdb s) d' \<Longrightarrow> proto_step key_of i k s (s\<lparr>pdb := d'\<rparr>)"

inductive proto_reach :: "(item_id \<Rightarrow> lease_key) \<Rightarrow> item_id \<Rightarrow> string \<Rightarrow> proto \<Rightarrow> proto \<Rightarrow> bool"
  for key_of i k where
  start: "proto_reach key_of i k s s"
| step: "proto_reach key_of i k s t \<Longrightarrow> proto_step key_of i k t u \<Longrightarrow> proto_reach key_of i k s u"

subsection \<open>What the statements do to the row of the operation\<close>

definition closed :: "operation_intent \<Rightarrow> bool" where
  "closed r \<longleftrightarrow> oi_status r = Reconciled \<or> oi_status r = OutcomeUnknown"

definition dirty_row :: "operation_intent \<Rightarrow> bool" where
  "dirty_row r \<longleftrightarrow> settled_row r \<or> oi_status r = Pending \<and>
     oi_detail r send_started_key = Some (JBool True) \<and> oi_detail r mutating_key = Some (JBool True)"

lemma closed_settled: "closed r \<Longrightarrow> settled_row r"
  by (auto simp: closed_def settled_row_def)

lemma settled_dirty: "settled_row r \<Longrightarrow> dirty_row r"
  by (simp add: dirty_row_def)

lemma update_intents_cases:
  assumes "uniq intent_key (intents d)" and "\<And>r. intent_key (f r) = intent_key r"
  obtains (Same) "update_intents (\<lambda>r. intent_key r = (i, k) \<and> Q r) f d = (None, d)"
      "\<And>r. intent_at d i k = Some r \<Longrightarrow> \<not> Q r"
    | (Row) r where "intent_at d i k = Some r" "Q r"
      "fst (update_intents (\<lambda>r. intent_key r = (i, k) \<and> Q r) f d) = Some (f r)"
      "intent_at (snd (update_intents (\<lambda>r. intent_key r = (i, k) \<and> Q r) f d)) i k = Some (f r)"
      "uniq intent_key (intents (snd (update_intents (\<lambda>r. intent_key r = (i, k) \<and> Q r) f d)))"
proof (cases "\<exists>r. intent_at d i k = Some r \<and> Q r")
  case True
  then obtain r where r: "intent_at d i k = Some r" "Q r" by blast
  show thesis
    by (rule Row [OF r update_intents_row [of d i k r Q f, OF assms(1) r assms(2)]])
next
  case False
  have none: "\<not> (intent_key r = (i, k) \<and> Q r)" if "r \<in> set (intents d)" for r
    using that False uniq_row_at [OF assms(1) that] by (auto simp: intent_at_def)
  then have "update_intents (\<lambda>r. intent_key r = (i, k) \<and> Q r) f d = (None, d)"
    by (auto simp: update_intents_def update_where_none find_None_iff)
  with False show thesis by (intro Same) auto
qed

lemma update_intents_tables:
  "leases (snd (update_intents p f d)) = leases d" "now (snd (update_intents p f d)) = now d"
  "items (snd (update_intents p f d)) = items d"
  by (simp_all add: update_intents_def)

lemma merge_row_cases:
  assumes "uniq intent_key (intents d)" and "merge_statement i k (Some e) det d = (res, d')"
  obtains (Same) "res = None" "d' = d"
      "\<And>r. intent_at d i k = Some r \<Longrightarrow> is_pr_actor_lease_held d i e \<Longrightarrow> closed r"
    | (Row) r where "intent_at d i k = Some r" "oi_status r \<in> {Pending, IntentFailed}"
      "is_pr_actor_lease_held d i e" "res = Some (merged_row (Some e) det r)"
      "intent_at d' i k = Some (merged_row (Some e) det r)" "uniq intent_key (intents d')"
      "leases d' = leases d" "now d' = now d" "items d' = items d"
proof -
  let ?Q = "\<lambda>r. oi_status r \<in> {Pending, IntentFailed} \<and> lease_fence_sql d i (Some e)"
  let ?f = "merged_row (Some e) det"
  have m: "merge_statement i k (Some e) det d = update_intents (\<lambda>r. intent_key r = (i, k) \<and> ?Q r) ?f d"
    by (simp add: merge_statement_def merged_row_def [abs_def])
  have key: "intent_key (?f r) = intent_key r" for r by (simp add: merged_row_def)
  have tables: "leases d' = leases d" "now d' = now d" "items d' = items d"
    using arg_cong [OF assms(2), of snd] by (auto simp: m update_intents_def)
  have cl: "closed r" if "\<not> ?Q r" "is_pr_actor_lease_held d i e" for r
    using that by (cases "oi_status r") (auto simp: fence_some closed_def)
  from assms(1) key show thesis
  proof (cases rule: update_intents_cases [where i = i and k = k and Q = ?Q])
    case Same
    with assms(2) cl show thesis unfolding m by (intro that(1)) auto
  next
    case (Row r)
    have "res = Some (?f r)" "intent_at d' i k = Some (?f r)" "uniq intent_key (intents d')"
      using Row(3-5) assms(2) unfolding m by simp_all
    with Row(1,2) tables show thesis by (intro that(2) [of r]) (auto simp: fence_some)
  qed
qed

lemma reconcile_row_cases:
  assumes "uniq intent_key (intents d)"
    and "snd (reconcile_statement i k st rec (Some e) h det d) = d'"
  obtains (Same) "d' = d"
    | (Row) r r' where "intent_at d i k = Some r"
      "oi_status r = Pending \<or> oi_status r = st \<or> oi_status r = OutcomeUnknown \<and> st = Reconciled"
      "is_pr_actor_lease_held d h e" "intent_at d' i k = Some r'" "oi_status r' = st"
      "intent_evolves r r'" "uniq intent_key (intents d')" "leases d' = leases d" "now d' = now d"
      "items d' = items d"
proof -
  let ?Q = "\<lambda>r. (oi_status r = Pending \<or> oi_status r = st \<or> oi_status r = OutcomeUnknown \<and> st = Reconciled) \<and>
      lease_fence_sql d h (Some e)"
  let ?f = "\<lambda>r. r\<lparr>oi_status := st, oi_publish_record_id := coalesce_record rec (oi_publish_record_id r),
      oi_lease_epoch := coalesce_epoch (Some e) (oi_lease_epoch r),
      oi_detail := (case det of None \<Rightarrow> oi_detail r | Some x \<Rightarrow> oi_detail r ++ x),
      oi_reconciled_at := Some (now d)\<rparr>"
  have m: "reconcile_statement i k st rec (Some e) h det d =
      update_intents (\<lambda>r. intent_key r = (i, k) \<and> ?Q r) ?f d"
    by (simp add: reconcile_statement_def)
  have key: "intent_key (?f r) = intent_key r" for r by simp
  have tables: "leases d' = leases d" "now d' = now d" "items d' = items d"
    using assms(2) by (auto simp: m update_intents_def)
  from assms(1) key show thesis
  proof (cases rule: update_intents_cases [where i = i and k = k and Q = ?Q])
    case Same
    with assms(2) show thesis unfolding m by (intro that(1)) auto
  next
    case (Row r)
    have "intent_at d' i k = Some (?f r)" "uniq intent_key (intents d')"
      using Row(4,5) assms(2) unfolding m by simp_all
    moreover have "intent_evolves r (?f r)"
      using Row(2) by (auto simp: intent_evolves_def split: option.splits)
    ultimately show thesis using Row(1,2) tables
      by (intro that(2) [of r "?f r"]) (auto simp: fence_some)
  qed
qed

lemma persist_row_cases:
  assumes "uniq intent_key (intents d)" and "persist_statement i k kind (Some e) det d = (Some r, d')"
  obtains (New) "intent_at d i k = None" "intent_at d' i k = Some r" "oi_status r = Pending"
      "oi_detail r = det" "uniq intent_key (intents d')" "leases d' = leases d" "now d' = now d"
      "items d' = items d" "is_pr_actor_lease_held d i e"
    | (Old) old where "intent_at d i k = Some old" "intent_at d' i k = Some r"
      "oi_status r = oi_status old" "oi_detail r = oi_detail old" "uniq intent_key (intents d')"
      "leases d' = leases d" "now d' = now d" "items d' = items d" "is_pr_actor_lease_held d i e"
  using assms(2)
proof (cases rule: persist_cases)
  case NoLease
  then show thesis by simp
next
  case (New new)
  then show thesis
    using assms(1) by (intro that(1)) (auto simp: intent_at_def row_at_append row_at_simps uniq_append_new fence_some)
next
  case (Old old)
  then show thesis
    using assms(1) intent_at_in [of d i k old]
    by (intro that(2) [of old]) (auto simp: intent_at_def row_at_update_where uniq_update_where fence_some)
qed

lemma release_row_cases:
  assumes "uniq intent_key (intents d)" and "snd (release_unsent_statement i k e d) = d'"
  obtains (Same) "d' = d"
    | (Row) r where "intent_at d i k = Some r" "unsent_in_flight e r"
      "intent_at d' i k = Some (r\<lparr>oi_detail := (oi_detail r)(mutating_key \<mapsto> JBool False)\<rparr>)"
      "uniq intent_key (intents d')" "leases d' = leases d" "now d' = now d" "items d' = items d"
proof -
  let ?f = "\<lambda>r. r\<lparr>oi_detail := (oi_detail r)(mutating_key \<mapsto> JBool False)\<rparr>"
  have m: "release_unsent_statement i k e d = update_intents (\<lambda>r. intent_key r = (i, k) \<and> unsent_in_flight e r) ?f d"
    by (simp add: release_unsent_statement_def)
  have key: "intent_key (?f r) = intent_key r" for r by simp
  have tables: "leases d' = leases d" "now d' = now d" "items d' = items d"
    using assms(2) by (auto simp: m update_intents_def)
  from assms(1) key show thesis
  proof (cases rule: update_intents_cases [where i = i and k = k and Q = "unsent_in_flight e"])
    case Same
    with assms(2) show thesis unfolding m by (intro that(1)) auto
  next
    case (Row r)
    have "intent_at d' i k = Some (?f r)" "uniq intent_key (intents d')"
      using Row(4,5) assms(2) unfolding m by simp_all
    with Row(1,2) tables show thesis by (intro that(2) [of r])
  qed
qed

subsection \<open>The invariant\<close>

definition sending :: "pc \<Rightarrow> bool" where
  "sending c \<longleftrightarrow> c = Gated \<or> c = Rejected"

definition preparing :: "pc \<Rightarrow> bool" where
  "preparing c \<longleftrightarrow> c = Read \<or> c = Checked \<or> c = Armed"

definition free :: "proto \<Rightarrow> bool" where
  "free s \<longleftrightarrow> accepted s = 0 \<and> (\<forall>e. \<not> sending (pcs s e))"

definition row_is :: "(operation_intent \<Rightarrow> bool) \<Rightarrow> db \<Rightarrow> item_id \<Rightarrow> string \<Rightarrow> bool" where
  "row_is P d i k \<longleftrightarrow> (\<exists>r. intent_at d i k = Some r \<and> P r)"

text \<open>What the tables guarantee by themselves.\<close>

definition sound_db :: "(item_id \<Rightarrow> lease_key) \<Rightarrow> item_id \<Rightarrow> db \<Rightarrow> bool" where
  "sound_db key_of i d \<longleftrightarrow> lease_owned key_of d \<and> uniq intent_key (intents d) \<and>
     map_option (\<lambda>w. (w_resource_key w, w_type w)) (item_at d i) = Some (key_of i)"

text \<open>
  An accepted operation, or one that is about to be sent, has left its mark on the intent; at most
  one execution is in front of the world; and the execution with the current epoch that prepares a
  send has seen an intent that nobody has sent or is sending, or it will not pass its gate.
\<close>

definition marked :: "string \<Rightarrow> item_id \<Rightarrow> proto \<Rightarrow> bool" where
  "marked k i s \<longleftrightarrow> accepted s \<le> 1 \<and> (\<not> free s \<longrightarrow> row_is dirty_row (pdb s) i k) \<and>
     (\<forall>e. sending (pcs s e) \<longrightarrow> accepted s = 0 \<and> (\<forall>e'. sending (pcs s e') \<longrightarrow> e' = e))"

definition current_ok :: "string \<Rightarrow> item_id \<Rightarrow> proto \<Rightarrow> int \<Rightarrow> bool" where
  "current_ok k i s e \<longleftrightarrow>
     (preparing (pcs s e) \<longrightarrow> row_is (\<lambda>r. result_key \<in> dom (oi_detail r) \<longrightarrow> closed r) (pdb s) i k) \<and>
     (pcs s e \<in> {Checked, Armed} \<longrightarrow> free s \<or> row_is closed (pdb s) i k) \<and>
     (pcs s e = Armed \<longrightarrow> row_is (\<lambda>r. closed r \<or> oi_detail r mutating_key = Some (JBool True) \<and>
          oi_detail r mutating_epoch_key = Some (JNum e)) (pdb s) i k \<or>
        \<not> is_pr_actor_lease_held (pdb s) i e)"

definition proto_inv :: "(item_id \<Rightarrow> lease_key) \<Rightarrow> item_id \<Rightarrow> string \<Rightarrow> proto \<Rightarrow> bool" where
  "proto_inv key_of i k s \<longleftrightarrow> sound_db key_of i (pdb s) \<and> marked k i s \<and>
     (\<forall>e. pcs s e \<noteq> Idle \<longrightarrow> e \<le> epoch_at (pdb s) (key_of i)) \<and>
     current_ok k i s (epoch_at (pdb s) (key_of i))"

lemma row_is_mono: "row_is P d i k \<Longrightarrow> (\<And>r. P r \<Longrightarrow> Q r) \<Longrightarrow> row_is Q d i k"
  by (auto simp: row_is_def)

lemma sound_update:
  assumes "sound_db key_of i d" and "leases d' = leases d" and "items d' = items d"
    and "uniq intent_key (intents d')"
  shows "sound_db key_of i d'"
  using assms by (simp add: sound_db_def lease_owned_def item_at_def)

lemma epoch_same: "leases d' = leases d \<Longrightarrow> epoch_at d' q = epoch_at d q"
  by (simp add: epoch_at_def lease_at_def)

lemma held_current: "sound_db key_of i d \<Longrightarrow> is_pr_actor_lease_held d i e \<Longrightarrow> epoch_at d (key_of i) = e"
  by (auto simp: sound_db_def intro: held_epoch_at)

text \<open>A dirty intent that is not closed and has no result blocks the check.\<close>

lemma dirty_blocks:
  assumes "sound_db key_of i d" and "find_in_flight_mutating_intent i k d = None"
    and "row_is dirty_row d i k" and "row_is (\<lambda>r. result_key \<in> dom (oi_detail r) \<longrightarrow> closed r) d i k"
  shows "row_is closed d i k"
proof (rule ccontr)
  assume open_row: "\<not> row_is closed d i k"
  then obtain r where r: "intent_at d i k = Some r" "dirty_row r" "result_key \<notin> dom (oi_detail r)" "\<not> closed r"
    using assms(3,4) by (auto simp: row_is_def domIff)
  then have st: "oi_status r = Pending" "oi_detail r send_started_key = Some (JBool True)"
      "oi_detail r mutating_key = Some (JBool True)"
    by (auto simp: dirty_row_def settled_row_def closed_def)
  obtain w where w: "item_at d i = Some w"
    using assms(1) by (auto simp: sound_db_def)
  have key: "r \<in> set (intents d)" "intent_key r = (i, k)" "oi_work_item_id r = i"
    using intent_at_in [OF r(1)] by (simp_all add: intent_key_def)
  have "blocks_send d i k r"
    using w st r(3) key by (simp add: blocks_send_def armed_epoch_dead_def Let_def)
  with assms(2) key(1) show False by (auto simp: find_in_flight_None_iff)
qed

subsection \<open>Every step keeps the invariant\<close>

lemma goto_simps [simp]:
  "pdb (goto e c d s) = d" "accepted (goto e c d s) = accepted s"
  "pcs (goto e c d s) = (pcs s)(e := c)"
  by (simp_all add: goto_def)

lemma pc_simps [simp]:
  "sending Gated" "sending Rejected" "\<not> sending Idle" "\<not> sending Read" "\<not> sending Checked"
  "\<not> sending Armed" "\<not> sending Sent" "\<not> sending Unknown"
  "preparing Read" "preparing Checked" "preparing Armed" "\<not> preparing Idle" "\<not> preparing Gated"
  "\<not> preparing Sent" "\<not> preparing Unknown" "\<not> preparing Rejected"
  by (simp_all add: sending_def preparing_def)

lemma free_goto [simp]:
  assumes "\<not> sending (pcs s e)" and "\<not> sending c"
  shows "free (goto e c d s) = free s"
  using assms unfolding free_def goto_simps fun_upd_apply by metis

lemma marked_goto:
  assumes "marked k i s" and "\<not> sending (pcs s e)" and "\<not> sending c"
    and "\<not> free s \<Longrightarrow> row_is dirty_row d i k"
  shows "marked k i (goto e c d s)"
  using assms free_goto [OF assms(2,3)] unfolding marked_def goto_simps fun_upd_apply by metis

lemma marked_dirty: "marked k i s \<Longrightarrow> \<not> free s \<Longrightarrow> row_is dirty_row (pdb s) i k"
  by (simp add: marked_def)

lemma invD:
  assumes "proto_inv key_of i k s"
  shows "sound_db key_of i (pdb s)" "uniq intent_key (intents (pdb s))" "marked k i s"
    "\<And>e. pcs s e \<noteq> Idle \<Longrightarrow> e \<le> epoch_at (pdb s) (key_of i)"
    "current_ok k i s (epoch_at (pdb s) (key_of i))"
  using assms by (auto simp: proto_inv_def sound_db_def)

text \<open>A step of one execution that leaves the leases and the items alone.\<close>

lemma inv_goto:
  assumes "proto_inv key_of i k s" and "leases d' = leases (pdb s)" and "items d' = items (pdb s)"
    and "uniq intent_key (intents d')"
    and "c \<noteq> Idle \<Longrightarrow> e \<le> epoch_at (pdb s) (key_of i)"
    and "marked k i (goto e c d' s)" and "current_ok k i (goto e c d' s) (epoch_at (pdb s) (key_of i))"
  shows "proto_inv key_of i k (goto e c d' s)"
  using assms sound_update [OF invD(1) [OF assms(1)] assms(2-4)] epoch_same [OF assms(2)]
  by (auto simp: proto_inv_def)

lemma step_persist:
  assumes inv: "proto_inv key_of i k s" and "pcs s e = Idle"
    and "persist_statement i k kind (Some e) det (pdb s) = (Some r, d')"
  shows "proto_inv key_of i k (goto e (if settled_row r then Idle else Read) d' s)"
  using invD(2) [OF inv] assms(3)
proof (cases rule: persist_row_cases)
  case New
  have cur: "epoch_at (pdb s) (key_of i) = e" using held_current invD(1) [OF inv] New(9) by blast
  have fr: "free s" using invD(3) [OF inv] New(1) by (auto simp: marked_def row_is_def)
  have "marked k i (goto e (if settled_row r then Idle else Read) d' s)"
    using marked_goto [OF invD(3) [OF inv]] assms(2) fr by simp
  moreover have "current_ok k i (goto e (if settled_row r then Idle else Read) d' s) e"
    using New(2) by (auto simp: current_ok_def row_is_def settled_row_def)
  ultimately show ?thesis using New cur by (intro inv_goto [OF inv]) auto
next
  case (Old old)
  have cur: "epoch_at (pdb s) (key_of i) = e" using held_current invD(1) [OF inv] Old(9) by blast
  have "dirty_row r = dirty_row old" using Old(3,4) by (simp add: dirty_row_def settled_row_def)
  then have "marked k i (goto e (if settled_row r then Idle else Read) d' s)"
    using marked_goto [OF invD(3) [OF inv]] marked_dirty [OF invD(3) [OF inv]] Old(1,2) assms(2)
    by (simp add: row_is_def)
  moreover have "current_ok k i (goto e (if settled_row r then Idle else Read) d' s) e"
    using Old(2) by (auto simp: current_ok_def row_is_def settled_row_def)
  ultimately show ?thesis using Old cur by (intro inv_goto [OF inv]) auto
qed

lemma step_check:
  assumes inv: "proto_inv key_of i k s" and "pcs s e = Read"
    and "find_in_flight_mutating_intent i k (pdb s) = None"
  shows "proto_inv key_of i k (goto e Checked (pdb s) s)"
proof (rule inv_goto [OF inv])
  show "marked k i (goto e Checked (pdb s) s)"
    using marked_goto [OF invD(3) [OF inv]] marked_dirty [OF invD(3) [OF inv]] assms(2) by simp
  have same: "free (goto e Checked (pdb s) s) = free s" using assms(2) by simp
  show "current_ok k i (goto e Checked (pdb s) s) (epoch_at (pdb s) (key_of i))"
  proof (cases "epoch_at (pdb s) (key_of i) = e")
    case True
    then have row: "row_is (\<lambda>r. result_key \<in> dom (oi_detail r) \<longrightarrow> closed r) (pdb s) i k"
      using invD(5) [OF inv] assms(2) by (simp add: current_ok_def)
    have "free s \<or> row_is closed (pdb s) i k"
      using dirty_blocks [OF invD(1) [OF inv] assms(3) _ row] invD(3) [OF inv] by (auto simp: marked_def)
    with row True same show ?thesis by (simp add: current_ok_def)
  next
    case False
    then show ?thesis using invD(5) [OF inv] same by (simp add: current_ok_def)
  qed
qed (use invD(2,4) [OF inv] assms(2) in auto)

lemma step_arm:
  assumes inv: "proto_inv key_of i k s" and "pcs s e = Checked" and "plain_detail det"
  shows "proto_inv key_of i k (goto e Armed (snd (merge_statement i k (Some e) (det ++ armed_detail e) (pdb s))) s)"
proof -
  let ?det = "det ++ armed_detail e"
  obtain res d' where m: "merge_statement i k (Some e) ?det (pdb s) = (res, d')" by fastforce
  have le: "e \<le> epoch_at (pdb s) (key_of i)" using invD(4) [OF inv, of e] assms(2) by simp
  have "proto_inv key_of i k (goto e Armed d' s)"
    using invD(2) [OF inv] m
  proof (cases rule: merge_row_cases)
    case Same
    have "marked k i (goto e Armed d' s)"
      using marked_goto [OF invD(3) [OF inv]] marked_dirty [OF invD(3) [OF inv]] assms(2) Same(2) by simp
    moreover have "current_ok k i (goto e Armed d' s) (epoch_at (pdb s) (key_of i))"
    proof (cases "epoch_at (pdb s) (key_of i) = e")
      case True
      then have "current_ok k i s e" using invD(5) [OF inv] by simp
      then show ?thesis
        using True assms(2) Same(2,3) by (auto simp: current_ok_def row_is_def)
    next
      case False
      then show ?thesis using invD(5) [OF inv] assms(2) Same(2) by (simp add: current_ok_def)
    qed
    ultimately show ?thesis using Same(2) le invD(2) [OF inv] by (intro inv_goto [OF inv]) auto
  next
    case (Row r)
    have cur: "epoch_at (pdb s) (key_of i) = e" using held_current invD(1) [OF inv] Row(3) by blast
    then have ok: "current_ok k i s e" using invD(5) [OF inv] by simp
    have open_row: "\<not> closed r" using Row(2) by (auto simp: closed_def)
    then have fr: "free s" and nores: "oi_detail r result_key = None"
      using ok assms(2) Row(1) by (auto simp: current_ok_def row_is_def)
    have "marked k i (goto e Armed d' s)"
      using marked_goto [OF invD(3) [OF inv]] assms(2) fr by simp
    moreover have "result_key \<notin> dom (oi_detail (merged_row (Some e) ?det r))"
        "oi_detail (merged_row (Some e) ?det r) mutating_key = Some (JBool True)"
        "oi_detail (merged_row (Some e) ?det r) mutating_epoch_key = Some (JNum e)"
      using nores assms(3) by (simp_all add: merged_row_def armed_detail_def plain_detail_def domIff
          mutating_key_def send_started_key_def mutating_epoch_key_def result_key_def)
    then have "current_ok k i (goto e Armed d' s) e"
      using assms(2) fr Row(5) by (simp add: current_ok_def row_is_def)
    ultimately show ?thesis using Row cur by (intro inv_goto [OF inv]) auto
  qed
  with m show ?thesis by simp
qed

lemma step_gate:
  assumes inv: "proto_inv key_of i k s" and "pcs s e = Armed"
    and "merge_statement i k (Some e) [send_started_key \<mapsto> JBool True] (pdb s) = (Some r, d')"
  shows "proto_inv key_of i k (goto e Gated d' s)"
  using invD(2) [OF inv] assms(3)
proof (cases rule: merge_row_cases)
  case Same
  then show ?thesis by simp
next
  case (Row old)
  have cur: "epoch_at (pdb s) (key_of i) = e" using held_current invD(1) [OF inv] Row(3) by blast
  have open_row: "\<not> closed old" using Row(2) by (auto simp: closed_def)
  have ok: "current_ok k i s e" using invD(5) [OF inv] cur by simp
  have fr: "free s" and mut: "oi_detail old mutating_key = Some (JBool True)"
    using ok open_row assms(2) Row(1,3) by (auto simp: current_ok_def row_is_def)
  have "dirty_row (merged_row (Some e) [send_started_key \<mapsto> JBool True] old)"
    using Row(2) mut by (auto simp: dirty_row_def merged_row_def mutating_key_def send_started_key_def)
  then have "marked k i (goto e Gated d' s)"
    using Row(5) fr by (auto simp: marked_def free_def row_is_def)
  moreover have "current_ok k i (goto e Gated d' s) e" by (simp add: current_ok_def)
  ultimately show ?thesis using Row cur by (intro inv_goto [OF inv]) auto
qed

text \<open>A step that only moves the program counter of an execution.\<close>

lemma inv_move:
  assumes "proto_inv key_of i k s" and "marked k i (goto e c (pdb s) s)"
    and "current_ok k i (goto e c (pdb s) s) (epoch_at (pdb s) (key_of i))" and "pcs s e \<noteq> Idle"
  shows "proto_inv key_of i k (goto e c (pdb s) s)"
  using assms invD(2,4) [OF assms(1)] by (intro inv_goto) auto

text \<open>While somebody is in front of the world, only a closed intent lets the current execution on.\<close>

lemma current_leave:
  assumes "proto_inv key_of i k s" and "\<not> preparing c" and "free s \<Longrightarrow> free t" and "pdb t = pdb s"
    and "pcs t = (pcs s)(e := c)"
  shows "current_ok k i t (epoch_at (pdb s) (key_of i))"
  using invD(5) [OF assms(1)] assms(2-5) by (auto simp: current_ok_def)

lemma free_leave: "free s \<Longrightarrow> \<not> sending c \<Longrightarrow> free (goto e c d s)"
  by (simp add: free_def)

lemma step_accept:
  assumes inv: "proto_inv key_of i k s" and "pcs s e = Gated" and "c \<in> {Sent, Unknown}"
  shows "proto_inv key_of i k ((goto e c (pdb s) s)\<lparr>accepted := accepted s + 1\<rparr>)"
proof -
  let ?t = "(goto e c (pdb s) s)\<lparr>accepted := accepted s + 1\<rparr>"
  have zero: "accepted s = 0" and alone: "\<And>e'. sending (pcs s e') \<Longrightarrow> e' = e"
    using invD(3) [OF inv] assms(2) unfolding marked_def by (metis pc_simps(1))+
  have nf: "\<not> free s" unfolding free_def using assms(2) pc_simps(1) by metis
  have c: "\<not> sending c" "\<not> preparing c" "c \<noteq> Idle" using assms(3) by auto
  have "\<not> sending (pcs ?t e')" for e' using c alone by auto
  then have "marked k i ?t"
    using zero marked_dirty [OF invD(3) [OF inv] nf] by (simp add: marked_def)
  moreover have "current_ok k i ?t (epoch_at (pdb s) (key_of i))"
    using nf by (intro current_leave [OF inv c(2)]) auto
  ultimately show ?thesis
    using invD(1,4) [OF inv] assms(2) by (auto simp: proto_inv_def)
qed

lemma step_drop:
  assumes inv: "proto_inv key_of i k s" and "pcs s e = Gated" and "c \<in> {Unknown, Rejected}"
  shows "proto_inv key_of i k (goto e c (pdb s) s)"
proof (rule inv_move [OF inv])
  have nf: "\<not> free s" unfolding free_def using assms(2) pc_simps(1) by metis
  have se: "sending (pcs s e)" using assms(2) by simp
  show "marked k i (goto e c (pdb s) s)"
    using invD(3) [OF inv] marked_dirty [OF invD(3) [OF inv] nf] se
    unfolding marked_def goto_simps fun_upd_apply by metis
  show "current_ok k i (goto e c (pdb s) s) (epoch_at (pdb s) (key_of i))"
    using nf assms(3) by (intro current_leave [OF inv]) auto
qed (use assms(2) in simp)

lemma step_leave:
  assumes inv: "proto_inv key_of i k s"
  shows "proto_inv key_of i k (goto e Idle (pdb s) s)"
proof (cases "pcs s e = Idle")
  case True
  then have "goto e Idle (pdb s) s = s" by (simp add: goto_def fun_upd_idem)
  with inv show ?thesis by simp
next
  case False
  show ?thesis
  proof (rule inv_move [OF inv _ _ False])
    have "row_is dirty_row (pdb s) i k" if "\<not> free (goto e Idle (pdb s) s)"
      using that marked_dirty [OF invD(3) [OF inv]] free_leave [of s Idle e "pdb s"] by auto
    then show "marked k i (goto e Idle (pdb s) s)"
      using invD(3) [OF inv] unfolding marked_def goto_simps fun_upd_apply by (metis pc_simps(3))
    show "current_ok k i (goto e Idle (pdb s) s) (epoch_at (pdb s) (key_of i))"
      by (intro current_leave [OF inv]) (auto intro: free_leave)
  qed
qed

text \<open>A change of the intent by the execution with the current epoch, which is not preparing a send
  afterwards.\<close>

lemma inv_write:
  assumes inv: "proto_inv key_of i k s" and "is_pr_actor_lease_held (pdb s) i e"
    and "leases d' = leases (pdb s)" and "items d' = items (pdb s)" and "uniq intent_key (intents d')"
    and "\<not> preparing c" and "marked k i (goto e c d' s)"
  shows "proto_inv key_of i k (goto e c d' s)"
proof -
  have "epoch_at (pdb s) (key_of i) = e" using held_current invD(1) [OF inv] assms(2) by blast
  with assms show ?thesis by (intro inv_goto) (auto simp: current_ok_def)
qed

lemma step_stash:
  assumes inv: "proto_inv key_of i k s" and "pcs s e = Sent" and "result_key \<in> dom det"
  shows "proto_inv key_of i k (goto e Sent (snd (merge_statement i k (Some e) det (pdb s))) s)"
proof -
  obtain res d' where m: "merge_statement i k (Some e) det (pdb s) = (res, d')" by fastforce
  have "proto_inv key_of i k (goto e Sent d' s)"
    using invD(2) [OF inv] m
  proof (cases rule: merge_row_cases)
    case Same
    moreover have "goto e Sent (pdb s) s = s" using assms(2) by (simp add: goto_def fun_upd_idem)
    ultimately show ?thesis using inv by simp
  next
    case (Row r)
    have "dirty_row (merged_row (Some e) det r)"
      using assms(3) by (auto simp: dirty_row_def settled_row_def merged_row_def)
    then have "marked k i (goto e Sent d' s)"
      using Row(5) assms(2) by (intro marked_goto [OF invD(3) [OF inv]]) (auto simp: row_is_def)
    with Row show ?thesis by (intro inv_write [OF inv]) auto
  qed
  with m show ?thesis by simp
qed

lemma step_finish:
  assumes inv: "proto_inv key_of i k s" and "\<not> sending (pcs s e)" and "st \<in> {Reconciled, OutcomeUnknown}"
  shows "proto_inv key_of i k (goto e Idle (snd (reconcile_statement i k st rec (Some e) i det (pdb s))) s)"
    (is "proto_inv key_of i k (goto e Idle ?d' s)")
  using invD(2) [OF inv] refl [of ?d']
proof (cases rule: reconcile_row_cases)
  case Same
  with step_leave [OF inv] show ?thesis by simp
next
  case (Row r r')
  have "dirty_row r'" using Row(5) assms(3) by (auto simp: dirty_row_def settled_row_def)
  then have "marked k i (goto e Idle ?d' s)"
    using Row(4) assms(2) by (intro marked_goto [OF invD(3) [OF inv]]) (auto simp: row_is_def)
  with Row show ?thesis by (intro inv_write [OF inv]) auto
qed

lemma step_finish_rejected:
  assumes inv: "proto_inv key_of i k s" and "pcs s e = Rejected"
  shows "proto_inv key_of i k (goto e Idle (snd (reconcile_statement i k IntentFailed None (Some e) i det (pdb s))) s)"
    (is "proto_inv key_of i k (goto e Idle ?d' s)")
  using invD(2) [OF inv] refl [of ?d']
proof (cases rule: reconcile_row_cases)
  case Same
  with step_leave [OF inv] show ?thesis by simp
next
  case (Row r r')
  have "accepted s = 0" "\<And>e'. sending (pcs s e') \<Longrightarrow> e' = e"
    using invD(3) [OF inv] assms(2) unfolding marked_def by (metis pc_simps(2))+
  then have "free (goto e Idle ?d' s)" by (auto simp: free_def)
  then have "marked k i (goto e Idle ?d' s)" by (auto simp: marked_def free_def)
  with Row show ?thesis by (intro inv_write [OF inv]) auto
qed

lemma step_release_unsent:
  assumes inv: "proto_inv key_of i k s" and "pcs s e = Armed"
  shows "proto_inv key_of i k (goto e Idle (snd (release_unsent_statement i k e (pdb s))) s)"
    (is "proto_inv key_of i k (goto e Idle ?d' s)")
  using invD(2) [OF inv] refl [of ?d']
proof (cases rule: release_row_cases)
  case Same
  with step_leave [OF inv] show ?thesis by simp
next
  case (Row r)
  let ?cur = "epoch_at (pdb s) (key_of i)"
  have clean: "\<not> dirty_row r" "\<not> closed r" "oi_detail r result_key = None"
      "oi_detail r mutating_epoch_key = Some (JNum e)"
    using Row(2) by (auto simp: unsent_in_flight_def dirty_row_def settled_row_def closed_def)
  have fr: "free s" using marked_dirty [OF invD(3) [OF inv]] Row(1) clean(1) by (auto simp: row_is_def)
  have held: "is_pr_actor_lease_held ?d' i n = is_pr_actor_lease_held (pdb s) i n" for n
    using Row(5,6) by (simp add: is_pr_actor_lease_held_def)
  have "marked k i (goto e Idle ?d' s)"
    using assms(2) fr by (intro marked_goto [OF invD(3) [OF inv]]) auto
  moreover have "current_ok k i (goto e Idle ?d' s) ?cur"
  proof (cases "?cur = e")
    case True
    then show ?thesis by (simp add: current_ok_def)
  next
    case False
    have "current_ok k i s ?cur" by (rule invD(5) [OF inv])
    then show ?thesis
      using False Row(1,3) clean fr assms(2) by (auto simp: current_ok_def row_is_def held closed_def
          result_key_def mutating_key_def mutating_epoch_key_def split: if_splits)
  qed
  ultimately show ?thesis using Row by (intro inv_goto [OF inv]) auto
qed

text \<open>A change of the tables outside the executions.\<close>

lemma inv_outside:
  assumes inv: "proto_inv key_of i k s" and "sound_db key_of i d'"
    and "epoch_at (pdb s) (key_of i) \<le> epoch_at d' (key_of i)"
    and "\<not> free s \<Longrightarrow> row_is dirty_row d' i k"
    and "epoch_at d' (key_of i) = epoch_at (pdb s) (key_of i) \<Longrightarrow>
      current_ok k i (s\<lparr>pdb := d'\<rparr>) (epoch_at (pdb s) (key_of i))"
  shows "proto_inv key_of i k (s\<lparr>pdb := d'\<rparr>)"
proof -
  let ?t = "s\<lparr>pdb := d'\<rparr>"
  have free: "free ?t = free s" by (simp add: free_def)
  have "marked k i ?t" using invD(3) [OF inv] assms(4) free by (simp add: marked_def)
  moreover have "current_ok k i ?t (epoch_at d' (key_of i))"
  proof (cases "epoch_at d' (key_of i) = epoch_at (pdb s) (key_of i)")
    case False
    then have "pcs s (epoch_at d' (key_of i)) = Idle"
      using invD(4) [OF inv, of "epoch_at d' (key_of i)"] assms(3) by force
    then show ?thesis by (simp add: current_ok_def)
  qed (use assms(5) in simp)
  ultimately show ?thesis
    using assms(2,3) invD(4) [OF inv] by (auto simp: proto_inv_def intro: order_trans)
qed

lemma current_same_row:
  assumes "current_ok k i s e" and "intent_at d' i k = intent_at (pdb s) i k"
    and "is_pr_actor_lease_held d' i e \<Longrightarrow> is_pr_actor_lease_held (pdb s) i e"
  shows "current_ok k i (s\<lparr>pdb := d'\<rparr>) e"
  using assms by (auto simp: current_ok_def row_is_def free_def)

lemma step_recover:
  assumes inv: "proto_inv key_of i k s" and "st \<in> {Reconciled, OutcomeUnknown}"
  shows "proto_inv key_of i k (s\<lparr>pdb := snd (reconcile_statement i k st rec (Some e) h det (pdb s))\<rparr>)"
    (is "proto_inv key_of i k (s\<lparr>pdb := ?d'\<rparr>)")
  using invD(2) [OF inv] refl [of ?d']
proof (cases rule: reconcile_row_cases)
  case Same
  with inv show ?thesis by simp
next
  case (Row r r')
  have cl: "closed r'" "dirty_row r'" using Row(5) assms(2)
    by (auto simp: dirty_row_def settled_row_def closed_def)
  have "current_ok k i (s\<lparr>pdb := ?d'\<rparr>) (epoch_at (pdb s) (key_of i))"
    using Row(4) cl(1) by (auto simp: current_ok_def row_is_def)
  then show ?thesis
    using Row(4) cl(2) sound_update [OF invD(1) [OF inv] Row(8,10,7)] epoch_same [OF Row(8)]
    by (intro inv_outside [OF inv]) (auto simp: row_is_def)
qed

lemma step_other:
  assumes inv: "proto_inv key_of i k s" and "elsewhere i k (pdb s) d'"
  shows "proto_inv key_of i k (s\<lparr>pdb := d'\<rparr>)"
proof (rule inv_outside [OF inv])
  show "sound_db key_of i d'"
    using invD(1) [OF inv] assms(2) by (simp add: sound_db_def elsewhere_def lease_owned_def)
  show "epoch_at (pdb s) (key_of i) \<le> epoch_at d' (key_of i)"
    using assms(2) epoch_same [of d' "pdb s"] by (simp add: elsewhere_def)
  show "row_is dirty_row d' i k" if "\<not> free s"
    using marked_dirty [OF invD(3) [OF inv] that] assms(2) by (simp add: row_is_def elsewhere_def)
  show "current_ok k i (s\<lparr>pdb := d'\<rparr>) (epoch_at (pdb s) (key_of i))"
    using assms(2) by (intro current_same_row [OF invD(5) [OF inv]])
      (auto simp: elsewhere_def is_pr_actor_lease_held_def)
qed

text \<open>Within one epoch, a lease that is not held stays so.\<close>

lemma held_back:
  assumes "lease_owned key_of d" and "lease_op_ok key_of x" and "no_revival x d"
    and "epoch_at (lease_step x d) (key_of i) = e" and "epoch_at d (key_of i) = e"
    and "is_pr_actor_lease_held (lease_step x d) i e"
  shows "is_pr_actor_lease_held d i e"
proof -
  have own: "lease_owned key_of (lease_step x d)" by (rule lease_owned_step [OF assms(1,2)])
  from assms(6) obtain l where l: "lease_at (lease_step x d) (key_of i) = Some l"
      "holds_lease (now (lease_step x d)) i e l"
    unfolding held_iff [OF own] by blast
  show ?thesis
    unfolding held_iff [OF assms(1)]
  proof (cases x)
    case (Acquire q w h ttl)
    obtain r d' where a: "acquire_pr_actor_lease q w h ttl d = (r, d')" by fastforce
    then have d': "lease_step x d = d'" using Acquire by simp
    from a show "\<exists>l. lease_at d (key_of i) = Some l \<and> holds_lease (now d) i e l"
    proof (cases rule: acquire_cases)
      case (New m)
      then show ?thesis
        using l assms(4,5) d' by (auto simp: lease_at_def row_at_append row_at_simps epoch_at_def
            holds_lease_def split: option.splits if_splits)
    next
      case (Taken old)
      then show ?thesis
        using l assms(5) d' by (auto simp: lease_at_update epoch_at_def holds_lease_def split: if_splits)
    next
      case (Refused old)
      then show ?thesis using l d' by simp
    qed
  next
    case (Renew q n ttl w)
    then obtain o' where o': "lease_at d (key_of i) = Some o'"
        "l = (if renews q n w o' then o'\<lparr>l_renewed_at := now d, l_expires_at := now d + seconds ttl\<rparr> else o')"
      using l(1) by (auto simp: renew_pr_actor_lease_def lease_at_update)
    moreover have "renews q n w o' \<longrightarrow> now d < l_expires_at o'"
      using assms(3) Renew lease_at_in [OF o'(1)] by (auto simp: no_revival_def)
    ultimately show "\<exists>l. lease_at d (key_of i) = Some l \<and> holds_lease (now d) i e l"
      using l(2) Renew by (auto simp: holds_lease_def renew_pr_actor_lease_def split: if_splits)
  next
    case (ReleaseHeldBy q hs)
    then show "\<exists>l. lease_at d (key_of i) = Some l \<and> holds_lease (now d) i e l"
      using l by (auto simp: release_pr_actor_lease_held_by_work_items_def lease_at_update holds_lease_def
          split: if_splits)
  next
    case (Release q n)
    then show "\<exists>l. lease_at d (key_of i) = Some l \<and> holds_lease (now d) i e l"
      using l by (auto simp: release_pr_actor_lease_def lease_at_update holds_lease_def split: if_splits)
  next
    case (Tick n)
    then show "\<exists>l. lease_at d (key_of i) = Some l \<and> holds_lease (now d) i e l"
      using l tick_now [of d n] by (auto simp: lease_at_def holds_lease_def)
  qed
qed

lemma step_lease:
  assumes inv: "proto_inv key_of i k s" and "lease_op_ok key_of x" and "no_revival x (pdb s)"
  shows "proto_inv key_of i k (s\<lparr>pdb := lease_step x (pdb s)\<rparr>)"
proof (rule inv_outside [OF inv])
  have own: "lease_owned key_of (pdb s)" using invD(1) [OF inv] by (simp add: sound_db_def)
  show "sound_db key_of i (lease_step x (pdb s))"
    using invD(1) [OF inv] lease_owned_step [OF own assms(2)]
    by (simp add: sound_db_def item_at_def)
  show "epoch_at (pdb s) (key_of i) \<le> epoch_at (lease_step x (pdb s)) (key_of i)"
    by (rule epoch_at_step [OF own])
  show "row_is dirty_row (lease_step x (pdb s)) i k" if "\<not> free s"
    using marked_dirty [OF invD(3) [OF inv] that] by (simp add: row_is_def intent_at_def)
  show "current_ok k i (s\<lparr>pdb := lease_step x (pdb s)\<rparr>) (epoch_at (pdb s) (key_of i))"
    if "epoch_at (lease_step x (pdb s)) (key_of i) = epoch_at (pdb s) (key_of i)"
    using held_back [OF own assms(2,3) that refl]
    by (intro current_same_row [OF invD(5) [OF inv]]) (simp_all add: intent_at_def)
qed

lemma proto_step_inv: "proto_step key_of i k s t \<Longrightarrow> proto_inv key_of i k s \<Longrightarrow> proto_inv key_of i k t"
  by (induction rule: proto_step.induct)
    (blast intro: step_persist step_check step_arm step_gate step_accept step_drop step_stash
      step_finish_rejected step_release_unsent step_leave step_recover step_lease step_other |
     rule step_finish; simp)+

lemma proto_reach_inv: "proto_reach key_of i k s t \<Longrightarrow> proto_inv key_of i k s \<Longrightarrow> proto_inv key_of i k t"
  by (induction rule: proto_reach.induct) (auto intro: proto_step_inv)

subsection \<open>Properties\<close>

text \<open>C1. However executions of a work item interleave, crash, lose and retake the lease and recover
  each other's intents, the outside world accepts the operation at most once, and once it has, the
  intent keeps every later execution from sending. No renewal may revive an expired lease.\<close>

theorem accepted_at_most_once:
  assumes "sound_db key_of i (pdb s)" and "accepted s = 0" and "\<And>e. pcs s e = Idle"
    and "proto_reach key_of i k s t"
  shows "accepted t \<le> 1 \<and> (accepted t = 1 \<longrightarrow> row_is dirty_row (pdb t) i k)"
proof -
  have "proto_inv key_of i k s"
    using assms(1-3) by (simp add: proto_inv_def marked_def free_def current_ok_def)
  then have "marked k i t" using proto_reach_inv [OF assms(4)] invD(3) by blast
  then show ?thesis by (auto simp: marked_def free_def)
qed

definition sample_proto :: proto where
  "sample_proto = \<lparr>pdb = sample_db [sample_item ''a'' Running] [sample_lease ''a'' 2 200],
     pcs = (\<lambda>_. Idle), accepted = 0\<rparr>"

definition sample_run :: "nat \<Rightarrow> proto" where
  "sample_run n = (let s0 = sample_proto;
     d1 = snd (persist_statement ''a'' ''k'' ''m'' (Some 2) Map.empty (pdb s0)); s1 = goto 2 Read d1 s0;
     s2 = goto 2 Checked d1 s1;
     d3 = snd (merge_statement ''a'' ''k'' (Some 2) (Map.empty ++ armed_detail 2) d1); s3 = goto 2 Armed d3 s2;
     d4 = snd (merge_statement ''a'' ''k'' (Some 2) [send_started_key \<mapsto> JBool True] d3); s4 = goto 2 Gated d4 s3;
     s5 = (goto 2 Sent d4 s4)\<lparr>accepted := 1\<rparr>
   in [s0, s1, s2, s3, s4, s5] ! n)"

lemmas sample_run_defs = sample_run_def Let_def sample_proto_def sample_defs goto_def
  persist_statement_def merge_statement_def update_intents_def lease_fence_sql_def upsert_def
  intent_key_def holds_lease_def exists_where_def armed_detail_def

lemma sample_step_persist: "proto_step (\<lambda>_. (''r/1'', Review)) ''a'' ''k'' (sample_run 0) (sample_run 1)"
proof -
  obtain r d' where p: "persist_statement ''a'' ''k'' ''m'' (Some 2) Map.empty (pdb (sample_run 0)) = (Some r, d')"
    and r: "\<not> settled_row r"
    by (simp add: sample_run_defs settled_row_def)
  have "proto_step (\<lambda>_. (''r/1'', Review)) ''a'' ''k'' (sample_run 0)
      (goto 2 (if settled_row r then Idle else Read) d' (sample_run 0))"
    by (rule persist [OF _ _ p]) (simp_all add: sample_run_def Let_def sample_proto_def plain_detail_def)
  moreover have "sample_run 1 = goto 2 Read (snd (persist_statement ''a'' ''k'' ''m'' (Some 2) Map.empty
      (pdb (sample_run 0)))) (sample_run 0)"
    by (simp add: sample_run_def Let_def)
  ultimately show ?thesis using p r by simp
qed

lemma sample_step_check: "proto_step (\<lambda>_. (''r/1'', Review)) ''a'' ''k'' (sample_run 1) (sample_run 2)"
proof -
  have "proto_step (\<lambda>_. (''r/1'', Review)) ''a'' ''k'' (sample_run 1) (goto 2 Checked (pdb (sample_run 1)) (sample_run 1))"
    by (rule check) (simp_all add: sample_run_defs find_in_flight_None_iff blocks_send_def item_at_def row_at_simps)
  then show ?thesis by (simp add: sample_run_def Let_def)
qed

lemma sample_step_arm: "proto_step (\<lambda>_. (''r/1'', Review)) ''a'' ''k'' (sample_run 2) (sample_run 3)"
proof -
  have "proto_step (\<lambda>_. (''r/1'', Review)) ''a'' ''k'' (sample_run 2)
      (goto 2 Armed (snd (merge_statement ''a'' ''k'' (Some 2) (Map.empty ++ armed_detail 2) (pdb (sample_run 2)))) (sample_run 2))"
    by (rule arm) (simp_all add: sample_run_def Let_def plain_detail_def)
  then show ?thesis by (simp add: sample_run_def Let_def)
qed

lemma sample_step_gate: "proto_step (\<lambda>_. (''r/1'', Review)) ''a'' ''k'' (sample_run 3) (sample_run 4)"
proof -
  obtain r d' where m: "merge_statement ''a'' ''k'' (Some 2) [send_started_key \<mapsto> JBool True] (pdb (sample_run 3)) = (Some r, d')"
    by (simp add: sample_run_defs)
  have "proto_step (\<lambda>_. (''r/1'', Review)) ''a'' ''k'' (sample_run 3) (goto 2 Gated d' (sample_run 3))"
    by (rule gate [OF _ m]) (simp add: sample_run_def Let_def)
  moreover have "sample_run 4 = goto 2 Gated (snd (merge_statement ''a'' ''k'' (Some 2)
      [send_started_key \<mapsto> JBool True] (pdb (sample_run 3)))) (sample_run 3)"
    by (simp add: sample_run_def Let_def numeral_eq_Suc)
  ultimately show ?thesis using m by simp
qed

lemma sample_step_accept: "proto_step (\<lambda>_. (''r/1'', Review)) ''a'' ''k'' (sample_run 4) (sample_run 5)"
proof -
  have "proto_step (\<lambda>_. (''r/1'', Review)) ''a'' ''k'' (sample_run 4)
      ((goto 2 Sent (pdb (sample_run 4)) (sample_run 4))\<lparr>accepted := accepted (sample_run 4) + 1\<rparr>)"
    by (rule accept) (simp_all add: sample_run_def Let_def numeral_eq_Suc)
  then show ?thesis by (simp add: sample_run_def Let_def numeral_eq_Suc sample_proto_def goto_def)
qed

lemma sample_reach: "proto_reach (\<lambda>_. (''r/1'', Review)) ''a'' ''k'' sample_proto (sample_run 5)"
proof -
  have "proto_reach (\<lambda>_. (''r/1'', Review)) ''a'' ''k'' (sample_run 0) (sample_run 5)"
    by (rule step [OF step [OF step [OF step [OF step [OF start sample_step_persist] sample_step_check]
      sample_step_arm] sample_step_gate] sample_step_accept])
  then show ?thesis by (simp add: sample_run_def [of 0] Let_def)
qed

theorem accepted_at_most_once_witness:
  "accepted (sample_run 5) = 1 \<and> row_is dirty_row (pdb (sample_run 5)) ''a'' ''k''"
proof -
  have "accepted (sample_run 5) \<le> 1 \<and>
      (accepted (sample_run 5) = 1 \<longrightarrow> row_is dirty_row (pdb (sample_run 5)) ''a'' ''k'')"
    by (rule accepted_at_most_once [OF _ _ _ sample_reach])
      (simp_all add: sample_proto_def sample_defs sound_db_def lease_owned_def uniq_def lease_key_def
         item_at_def row_at_simps)
  moreover have "accepted (sample_run 5) = 1" by (simp add: sample_run_def Let_def numeral_eq_Suc)
  ultimately show ?thesis by simp
qed

subsection \<open>A revived lease lets an unmarked send through\<close>

text \<open>
  The run of the code below has the commits of two timers scheduled before its seventh and its eighth
  statement: the clock passes the expiry of the lease, and the renewal extends it.
\<close>

definition observing_params :: "nat publish_params" where
  "observing_params = (sample_params (Some 2))\<lparr>p_mutate := (\<lambda>w. (Inr None,
     w\<lparr>remote := remote w + (if find_in_flight_mutating_intent ''a'' ''k'' (wdb w) = None then 1 else 0)\<rparr>))\<rparr>"

definition revival_schedule :: "(db \<times> abort_signal \<Rightarrow> db \<times> abort_signal) list" where
  "revival_schedule = replicate 6 (\<lambda>x. x) @
     [\<lambda>(d, g). (tick 200 d, g),
      \<lambda>(d, g). (snd (renew_pr_actor_lease (''r/1'', Review) 2 60 ''a'' d), g)]"

definition revival_world :: "nat world" where
  "revival_world = (sample_world [])\<lparr>wsched := revival_schedule\<rparr>"

lemmas undisturbed_run_defs = publish_once_body_def send_once_def send_gate_def store_result_def handled_def
  assert_mutation_ready_def throw_if_execution_aborted_def assert_held_def assert_pr_actor_lease_held_def
  persist_operation_intent_def merge_operation_intent_detail_def reconcile_operation_intent_def
  fenced_write_def on_db_def interfere_def prog_defs postgres_publish_store_def earlier_outcome_def
  has_stashed_result_def arm_detail_def decode_publish_result_def liftE_def resolve_reconcile_detail_def
  Let_def

lemmas statement_run_defs = persist_statement_def merge_statement_def reconcile_statement_def
  update_intents_def upsert_def lease_fence_sql_def is_pr_actor_lease_held_def exists_where_def
  holds_lease_def tick_def renew_pr_actor_lease_def renews_def lease_key_def intent_key_def
  find_in_flight_mutating_intent_def oldest_def select_where_def blocks_send_def armed_epoch_dead_def
  item_at_def row_at_simps mutating_key_def send_started_key_def mutating_epoch_key_def result_key_def
  coalesce_epoch_def


end
