(* ===== verification/Diff_Index.thy ===== *)
theory Diff_Index
  imports Prelude
begin

text \<open>
  Where a review comment can be anchored: \<^verbatim>\<open>src/review/placement/reviewDiffIndex.ts\<close>. A
  patch is scanned line by line into the ranges of right-hand lines that GitHub accepts comments on;
  a finding is anchored at the first such line inside its own range.

  The lemmas relate the scan to the patch as a value: printing hunks and scanning the text finds
  exactly the right-hand lines of the hunks (when no printed line looks like a file header), every
  range is well-formed, and the anchor is the least commentable line of the finding.
\<close>

subsection \<open>Text\<close>

fun split_on :: "char \<Rightarrow> string \<Rightarrow> string list" where
  "split_on c [] = [[]]"
| "split_on c (x # xs) =
     (if x = c then [] # split_on c xs
      else case split_on c xs of [] \<Rightarrow> [[x]] | w # ws \<Rightarrow> (x # w) # ws)"

definition newline :: char where
  "newline = CHR 0x0A"

definition is_digit :: "char \<Rightarrow> bool" where
  "is_digit c \<longleftrightarrow> c \<in> set ''0123456789''"

definition digit_value :: "char \<Rightarrow> nat" where
  "digit_value c = of_char c - 48"

definition number_of :: "string \<Rightarrow> nat" where
  "number_of ds = foldl (\<lambda>n c. 10 * n + digit_value c) 0 ds"

text \<open>The greedy \<open>\d+\<close> of a regular expression: the digits, which must not be empty, and the rest.\<close>

definition take_digits :: "string \<Rightarrow> (string \<times> string) option" where
  "take_digits s =
     (let ds = takeWhile is_digit s
      in if ds = [] then None else Some (ds, dropWhile is_digit s))"

definition expect :: "string \<Rightarrow> string \<Rightarrow> string option" where
  "expect p s = (if take (length p) s = p then Some (drop (length p) s) else None)"

text \<open>\<open>\d+(?:,\d+)?\<close>: the digits and, after a comma, more digits. A comma must be followed by digits,
  since neither the regular expression nor a hunk header has another use for it.\<close>

definition take_span :: "string \<Rightarrow> (string \<times> string option \<times> string) option" where
  "take_span s =
     (case take_digits s of
        None \<Rightarrow> None
      | Some (a, rest) \<Rightarrow>
          (case expect '','' rest of
             None \<Rightarrow> Some (a, None, rest)
           | Some r \<Rightarrow> (case take_digits r of None \<Rightarrow> None | Some (b, r') \<Rightarrow> Some (a, Some b, r'))))"

text \<open>\<open>DIFF_HUNK_RE\<close>: the first right-hand line and the number of right-hand lines.\<close>

definition diff_hunk :: "string \<Rightarrow> (nat \<times> nat) option" where
  "diff_hunk s =
     (case expect ''@@ -'' s of
        None \<Rightarrow> None
      | Some r1 \<Rightarrow> (case take_span r1 of
          None \<Rightarrow> None
        | Some (_, _, r2) \<Rightarrow> (case expect '' +'' r2 of
            None \<Rightarrow> None
          | Some r3 \<Rightarrow> (case take_span r3 of
              None \<Rightarrow> None
            | Some (a, b, r4) \<Rightarrow> (case expect '' @@'' r4 of
                None \<Rightarrow> None
              | Some _ \<Rightarrow> Some (number_of a, case b of None \<Rightarrow> 1 | Some x \<Rightarrow> number_of x))))))"

subsection \<open>The scan of a patch\<close>

type_synonym ranges = "(nat \<times> nat) list"

record scan =
  found :: ranges
  open_range :: "(nat \<times> nat) option"
  right_line :: nat
  right_remaining :: int
  seen_hunk :: bool

definition add_commentable_line :: "nat \<Rightarrow> scan \<Rightarrow> scan" where
  "add_commentable_line line s =
     (case open_range s of
        None \<Rightarrow> s\<lparr>open_range := Some (line, line)\<rparr>
      | Some (a, b) \<Rightarrow>
          if line = b + 1 then s\<lparr>open_range := Some (a, line)\<rparr>
          else s\<lparr>found := found s @ [(a, b)], open_range := Some (line, line)\<rparr>)"

definition finish_ranges :: "scan \<Rightarrow> ranges" where
  "finish_ranges s = (case open_range s of None \<Rightarrow> found s | Some r \<Rightarrow> found s @ [r])"

definition take_right_line :: "scan \<Rightarrow> scan" where
  "take_right_line s =
     (add_commentable_line (right_line s) s)
       \<lparr>right_line := right_line s + 1, right_remaining := right_remaining s - 1\<rparr>"

definition starts :: "string \<Rightarrow> string \<Rightarrow> bool" where
  "starts p s \<longleftrightarrow> take (length p) s = p"

text \<open>One line of the loop; \<open>None\<close> is the early return.\<close>

definition scan_line :: "string \<Rightarrow> scan \<Rightarrow> scan option" where
  "scan_line line s =
     (if starts ''@@'' line then
        (case diff_hunk line of
           None \<Rightarrow> None
         | Some (a, n) \<Rightarrow> Some (s\<lparr>right_line := a, right_remaining := int n, seen_hunk := True\<rparr>))
      else if \<not> seen_hunk s then Some s
      else if starts ''+'' line \<and> \<not> starts ''+++'' line then Some (take_right_line s)
      else if starts '' '' line then Some (take_right_line s)
      else if line = [] then Some (if 0 < right_remaining s then take_right_line s else s)
      else if starts ''-'' line \<and> \<not> starts ''---'' line then Some s
      else if starts [CHR 0x5C] line then Some s
      else None)"

fun scan_lines :: "string list \<Rightarrow> scan \<Rightarrow> ranges" where
  "scan_lines [] s = finish_ranges s"
| "scan_lines (line # lines) s =
     (case scan_line line s of None \<Rightarrow> finish_ranges s | Some s' \<Rightarrow> scan_lines lines s')"

definition empty_scan :: scan where
  "empty_scan = \<lparr>found = [], open_range = None, right_line = 0, right_remaining = 0, seen_hunk = False\<rparr>"

definition patch_lines :: "string \<Rightarrow> string list" where
  "patch_lines patch =
     split_on newline (if patch \<noteq> [] \<and> last patch = newline then butlast patch else patch)"

definition parse_commentable_right_line_ranges :: "string \<Rightarrow> ranges" where
  "parse_commentable_right_line_ranges patch =
     (if patch = [] then [] else scan_lines (patch_lines patch) empty_scan)"

subsection \<open>The index of a pull request\<close>

record file_diff =
  fd_patch_omitted :: bool
  fd_ranges :: ranges
  fd_additions :: int
  fd_deletions :: int

record diff_index =
  ix_truncated :: bool
  ix_files :: "(string \<times> file_diff) list"
  ix_ingested :: bool

record listed_file =
  lf_filename :: string
  lf_patch :: "string option"
  lf_patch_omitted :: bool
  lf_additions :: "int option"
  lf_deletions :: "int option"

definition create_cached_pr_diff_index :: diff_index where
  "create_cached_pr_diff_index = \<lparr>ix_truncated = False, ix_files = [], ix_ingested = False\<rparr>"

definition or_zero :: "int option \<Rightarrow> int" where
  "or_zero n = (case n of None \<Rightarrow> 0 | Some x \<Rightarrow> x)"

definition file_entry :: "listed_file \<Rightarrow> file_diff" where
  "file_entry f =
     (let omitted = (lf_patch_omitted f \<or> lf_patch f = None \<or> lf_patch f = Some []);
          rs = (case lf_patch f of
                  Some p \<Rightarrow> if omitted then [] else parse_commentable_right_line_ranges p
                | None \<Rightarrow> [])
      in \<lparr>fd_patch_omitted = omitted, fd_ranges = rs,
           fd_additions = or_zero (lf_additions f), fd_deletions = or_zero (lf_deletions f)\<rparr>)"

definition ingest_file :: "listed_file \<Rightarrow> diff_index \<Rightarrow> diff_index" where
  "ingest_file f ix =
     (if map_of (ix_files ix) (lf_filename f) \<noteq> None then ix
      else ix\<lparr>ix_files := ix_files ix @ [(lf_filename f, file_entry f)]\<rparr>)"

definition ingest_list_pull_request_files_result ::
  "bool \<Rightarrow> listed_file list \<Rightarrow> diff_index \<Rightarrow> diff_index" where
  "ingest_list_pull_request_files_result truncated files ix =
     fold ingest_file files
       (ix\<lparr>ix_ingested := True, ix_truncated := (if truncated then True else ix_truncated ix)\<rparr>)"

fun anchor_loop :: "int \<Rightarrow> int \<Rightarrow> (nat \<times> nat) list \<Rightarrow> int option \<Rightarrow> int option" where
  "anchor_loop lo hi [] anchor = anchor"
| "anchor_loop lo hi ((a, b) # rs) anchor =
     (if int b < lo \<or> hi < int a then anchor_loop lo hi rs anchor
      else
        let candidate = max lo (int a)
        in anchor_loop lo hi rs
             (case anchor of
                None \<Rightarrow> Some candidate
              | Some x \<Rightarrow> if candidate < x then Some candidate else anchor))"

definition resolve_inline_anchor_line ::
  "diff_index option \<Rightarrow> string \<Rightarrow> int \<Rightarrow> int \<Rightarrow> int option" where
  "resolve_inline_anchor_line index file start_line end_line =
     (case index of
        None \<Rightarrow> None
      | Some ix \<Rightarrow> (case map_of (ix_files ix) file of
          None \<Rightarrow> None
        | Some e \<Rightarrow>
            if fd_patch_omitted e \<or> fd_ranges e = [] then None
            else anchor_loop (min start_line end_line) (max start_line end_line) (fd_ranges e) None))"

subsection \<open>Numerals and lines\<close>

lemma is_digit_char: "n < 10 \<Longrightarrow> is_digit (digit_char n)"
  using digit_char_table [of n] by (auto simp: is_digit_def digit_char_def)

lemma digit_value_char: "n < 10 \<Longrightarrow> digit_value (digit_char n) = n"
  using digit_char_table [of n] by (auto simp: digit_value_def digit_char_def)

lemma nat_text_digits: "nat_text n \<noteq> [] \<and> (\<forall>c \<in> set (nat_text n). is_digit c)"
proof (induction n rule: nat_text_induct)
  case (digit n)
  then show ?case by (simp add: nat_text.simps [of n] is_digit_char)
next
  case (more n)
  then show ?case by (simp add: nat_text.simps [of n] is_digit_char)
qed

lemma number_of_nat_text [simp]: "number_of (nat_text n) = n"
proof (induction n rule: nat_text_induct)
  case (digit n)
  then show ?case by (simp add: nat_text.simps [of n] number_of_def digit_value_char)
next
  case (more n)
  then show ?case by (simp add: nat_text.simps [of n] number_of_def digit_value_char)
qed

lemma takeWhile_digits: "\<not> is_digit c \<Longrightarrow> takeWhile is_digit (nat_text n @ c # rest) = nat_text n"
  using nat_text_digits [of n] by (simp add: takeWhile_append2)

lemma dropWhile_digits: "\<not> is_digit c \<Longrightarrow> dropWhile is_digit (nat_text n @ c # rest) = c # rest"
  using nat_text_digits [of n] by (simp add: dropWhile_append2)

lemma take_digits_text:
  "\<not> is_digit c \<Longrightarrow> take_digits (nat_text n @ c # rest) = Some (nat_text n, c # rest)"
  using nat_text_digits [of n] by (simp add: take_digits_def takeWhile_digits dropWhile_digits)

lemma expect_append [simp]: "expect p (p @ s) = Some s"
  by (simp add: expect_def)

definition span_text :: "nat \<Rightarrow> nat \<Rightarrow> string" where
  "span_text a n = nat_text a @ '','' @ nat_text n"

lemma take_span_text: "\<not> is_digit c \<Longrightarrow> take_span (span_text a n @ c # rest) = Some (nat_text a, Some (nat_text n), c # rest)"
proof -
  assume c: "\<not> is_digit c"
  have comma: "\<not> is_digit CHR '',''" by (simp add: is_digit_def)
  have "take_digits (span_text a n @ c # rest) = Some (nat_text a, '','' @ nat_text n @ c # rest)"
    using take_digits_text [OF comma, of a "nat_text n @ c # rest"] by (simp add: span_text_def)
  with c show ?thesis by (simp add: take_span_def expect_def take_digits_text)
qed

fun join_lines :: "string list \<Rightarrow> string" where
  "join_lines [] = []"
| "join_lines [l] = l"
| "join_lines (l # m # ls) = l @ newline # join_lines (m # ls)"

lemma split_on_plain: "c \<notin> set l \<Longrightarrow> split_on c l = [l]"
  by (induction l) auto

lemma split_on_append: "c \<notin> set l \<Longrightarrow> split_on c (l @ c # s) = l # split_on c s"
  by (induction l) auto

lemma split_join: "ls \<noteq> [] \<Longrightarrow> \<forall>l \<in> set ls. newline \<notin> set l \<Longrightarrow> split_on newline (join_lines ls) = ls"
  by (induction ls rule: join_lines.induct) (auto simp: split_on_plain split_on_append)

lemma last_join: "ls \<noteq> [] \<Longrightarrow> last ls \<noteq> [] \<Longrightarrow> join_lines ls \<noteq> [] \<and> last (join_lines ls) = last (last ls)"
  by (induction ls rule: join_lines.induct) (auto split: if_splits)

lemma patch_lines_join:
  assumes "ls \<noteq> []" and "last ls \<noteq> []" and "\<forall>l \<in> set ls. newline \<notin> set l"
  shows "patch_lines (join_lines ls) = ls \<and> join_lines ls \<noteq> []"
proof -
  have "last (join_lines ls) \<noteq> newline"
    using last_join [OF assms(1,2)] assms by (metis last_in_set)
  with assms split_join [OF assms(1,3)] last_join [OF assms(1,2)] show ?thesis
    by (simp add: patch_lines_def)
qed

subsection \<open>Patches as values\<close>

datatype hunk_line = Added string | Context string | Removed string | NoNewline

record hunk =
  h_left :: nat
  h_left_count :: nat
  h_right :: nat
  h_lines :: "hunk_line list"

fun print_line :: "hunk_line \<Rightarrow> string" where
  "print_line (Added s) = CHR ''+'' # s"
| "print_line (Context s) = CHR '' '' # s"
| "print_line (Removed s) = CHR ''-'' # s"
| "print_line NoNewline = CHR 0x5C # '' No newline at end of file''"

fun on_right :: "hunk_line \<Rightarrow> bool" where
  "on_right (Added s) = True"
| "on_right (Context s) = True"
| "on_right _ = False"

fun right_numbers :: "nat \<Rightarrow> hunk_line list \<Rightarrow> nat list" where
  "right_numbers n [] = []"
| "right_numbers n (l # ls) = (if on_right l then n # right_numbers (n + 1) ls else right_numbers n ls)"

definition print_header :: "hunk \<Rightarrow> string" where
  "print_header h = ''@@ -'' @ span_text (h_left h) (h_left_count h) @ '' +'' @
     span_text (h_right h) (length (filter on_right (h_lines h))) @ '' @@''"

definition print_hunk :: "hunk \<Rightarrow> string list" where
  "print_hunk h = print_header h # map print_line (h_lines h)"

text \<open>A line whose printed form the scan does not take for a file header, and that is one line.\<close>

fun plain_line :: "hunk_line \<Rightarrow> bool" where
  "plain_line (Added s) \<longleftrightarrow> \<not> starts ''++'' s \<and> newline \<notin> set s"
| "plain_line (Context s) \<longleftrightarrow> newline \<notin> set s"
| "plain_line (Removed s) \<longleftrightarrow> \<not> starts ''--'' s \<and> newline \<notin> set s"
| "plain_line NoNewline \<longleftrightarrow> True"

definition print_patch :: "hunk list \<Rightarrow> string" where
  "print_patch hs = join_lines (concat (map print_hunk hs))"

definition commentable :: "ranges \<Rightarrow> nat \<Rightarrow> bool" where
  "commentable rs l \<longleftrightarrow> (\<exists>(a, b) \<in> set rs. a \<le> l \<and> l \<le> b)"

lemma header_scan:
  "scan_line (print_header h) s = Some (s\<lparr>right_line := h_right h,
     right_remaining := int (length (filter on_right (h_lines h))), seen_hunk := True\<rparr>)"
proof -
  let ?n = "length (filter on_right (h_lines h))"
  have nd: "\<not> is_digit CHR '' ''" by (simp add: is_digit_def)
  have "starts ''@@'' (print_header h)" by (simp add: starts_def print_header_def)
  moreover have "diff_hunk (print_header h) = Some (h_right h, ?n)"
    using take_span_text [OF nd, of "h_left h" "h_left_count h"] take_span_text [OF nd, of "h_right h" ?n "''@@''"]
    by (simp add: diff_hunk_def print_header_def expect_def)
  ultimately show ?thesis by (simp add: scan_line_def)
qed

definition body_step :: "hunk_line \<Rightarrow> scan \<Rightarrow> scan" where
  "body_step l s = (if on_right l then take_right_line s else s)"

lemma body_scan: "seen_hunk s \<Longrightarrow> plain_line l \<Longrightarrow> scan_line (print_line l) s = Some (body_step l s)"
  by (cases l) (simp_all add: scan_line_def starts_def body_step_def)

lemma seen_body [simp]: "seen_hunk (body_step l s) = seen_hunk s"
  by (simp add: body_step_def take_right_line_def add_commentable_line_def split: option.splits prod.splits)

lemma scan_body:
  "seen_hunk s \<Longrightarrow> \<forall>l \<in> set ls. plain_line l \<Longrightarrow>
     scan_lines (map print_line ls @ rest) s = scan_lines rest (fold body_step ls s)"
  by (induction ls arbitrary: s) (auto simp: body_scan)

subsection \<open>What the scan has covered\<close>

definition covers :: "scan \<Rightarrow> nat \<Rightarrow> bool" where
  "covers s l = commentable (finish_ranges s) l"

definition scan_ok :: "scan \<Rightarrow> bool" where
  "scan_ok s \<longleftrightarrow> (\<forall>(a, b) \<in> set (finish_ranges s). a \<le> b)"

lemma covers_right: "scan_ok s \<Longrightarrow> covers (take_right_line s) l \<longleftrightarrow> covers s l \<or> l = right_line s"
  by (auto simp: covers_def commentable_def take_right_line_def add_commentable_line_def finish_ranges_def
      scan_ok_def split: option.splits prod.splits if_splits)

lemma scan_ok_right: "scan_ok s \<Longrightarrow> scan_ok (take_right_line s)"
  by (auto simp: scan_ok_def take_right_line_def add_commentable_line_def finish_ranges_def
      split: option.splits prod.splits if_splits)

lemma right_line_right [simp]: "right_line (take_right_line s) = right_line s + 1"
  by (simp add: take_right_line_def)

lemma covers_body:
  "scan_ok s \<Longrightarrow> (covers (fold body_step ls s) l \<longleftrightarrow> covers s l \<or> l \<in> set (right_numbers (right_line s) ls)) \<and>
     scan_ok (fold body_step ls s)"
  by (induction ls arbitrary: s) (auto simp: body_step_def covers_right scan_ok_right)

lemma covers_hunks:
  assumes "scan_ok s" and "\<forall>h \<in> set hs. \<forall>l \<in> set (h_lines h). plain_line l"
  shows "commentable (scan_lines (concat (map print_hunk hs)) s) l \<longleftrightarrow>
    covers s l \<or> (\<exists>h \<in> set hs. l \<in> set (right_numbers (h_right h) (h_lines h)))"
  using assms
proof (induction hs arbitrary: s)
  case Nil
  then show ?case by (simp add: covers_def)
next
  case (Cons h hs)
  let ?s1 = "s\<lparr>right_line := h_right h, right_remaining := int (length (filter on_right (h_lines h))), seen_hunk := True\<rparr>"
  let ?s2 = "fold body_step (h_lines h) ?s1"
  have ok: "scan_ok ?s1" "covers ?s1 l = covers s l"
    using Cons.prems(1) by (simp_all add: scan_ok_def covers_def finish_ranges_def split: option.splits)
  have "scan_lines (concat (map print_hunk (h # hs))) s = scan_lines (concat (map print_hunk hs)) ?s2"
    using Cons.prems(2) by (simp add: print_hunk_def header_scan scan_body)
  moreover have "scan_ok ?s2" "covers ?s2 l \<longleftrightarrow> covers s l \<or> l \<in> set (right_numbers (h_right h) (h_lines h))"
    using covers_body [OF ok(1)] ok(2) by auto
  ultimately show ?case using Cons.IH [of ?s2] Cons.prems(2) by auto
qed


lemma digit_not_newline: "is_digit c \<Longrightarrow> c \<noteq> newline"
  by (auto simp: is_digit_def newline_def)

lemma span_one_line: "newline \<notin> set (span_text a n)"
  using nat_text_digits [of a] nat_text_digits [of n] digit_not_newline
  by (auto simp: span_text_def newline_def)

lemma hunk_one_lines:
  assumes "\<forall>l \<in> set (h_lines h). plain_line l" and "t \<in> set (print_hunk h)"
  shows "newline \<notin> set t \<and> t \<noteq> []"
proof (cases "t = print_header h")
  case True
  then show ?thesis using span_one_line [of "h_left h" "h_left_count h"]
      span_one_line [of "h_right h" "length (filter on_right (h_lines h))"]
    by (auto simp: print_header_def newline_def)
next
  case False
  with assms obtain l where "t = print_line l" and "plain_line l" by (auto simp: print_hunk_def)
  then show ?thesis by (cases l) (auto simp: newline_def)
qed


definition sample_hunk :: hunk where
  "sample_hunk = \<lparr>h_left = 9, h_left_count = 2, h_right = 10,
     h_lines = [Context ''a'', Removed ''b'', Added ''c'', Added ''d'', NoNewline]\<rparr>"


text \<open>The hypothesis of the scan is needed: a patch is accepted by GitHub with an added line whose
  content begins with \<open>++\<close> (printed as \<open>+++\<close>), and the scan takes that line for a file header and
  stops, so neither it nor any later line of the file can carry a comment. The same patch without the
  two signs has all its lines commentable.\<close>

definition lookalike_patch :: "string \<Rightarrow> string" where
  "lookalike_patch content = print_patch [\<lparr>h_left = 1, h_left_count = 1, h_right = 1,
     h_lines = [Added content, Added ''x'', Context ''y'']\<rparr>]"

lemma header_lookalike_stops_scan:
  "parse_commentable_right_line_ranges (lookalike_patch ''++i;'') = [] \<and>
   parse_commentable_right_line_ranges (lookalike_patch ''i++;'') = [(1, 3)]"
  by code_simp

subsection \<open>The anchor\<close>

definition least_of :: "(int \<Rightarrow> bool) \<Rightarrow> int option \<Rightarrow> bool" where
  "least_of P a \<longleftrightarrow> (case a of None \<Rightarrow> (\<forall>l. \<not> P l) | Some x \<Rightarrow> P x \<and> (\<forall>l. P l \<longrightarrow> x \<le> l))"

definition in_ranges :: "int \<Rightarrow> int \<Rightarrow> ranges \<Rightarrow> int \<Rightarrow> bool" where
  "in_ranges lo hi rs l \<longleftrightarrow> lo \<le> l \<and> l \<le> hi \<and> (\<exists>(a, b) \<in> set rs. int a \<le> l \<and> l \<le> int b)"

lemma least_of_extend:
  "least_of P anchor \<Longrightarrow> Q c \<Longrightarrow> (\<forall>l. Q l \<longrightarrow> c \<le> l) \<Longrightarrow>
     least_of (\<lambda>l. P l \<or> Q l) (case anchor of None \<Rightarrow> Some c | Some x \<Rightarrow> if c < x then Some c else anchor)"
  by (fastforce simp: least_of_def split: option.splits)

lemma anchor_loop_least:
  "least_of P anchor \<Longrightarrow> lo \<le> hi \<Longrightarrow> \<forall>(a, b) \<in> set rs. a \<le> b \<Longrightarrow>
     least_of (\<lambda>l. P l \<or> in_ranges lo hi rs l) (anchor_loop lo hi rs anchor)"
proof (induction rs arbitrary: P anchor)
  case Nil
  then show ?case by (simp add: in_ranges_def)
next
  case (Cons r rs)
  obtain a b where r: "r = (a, b)" by (cases r)
  let ?Q = "\<lambda>l. lo \<le> l \<and> l \<le> hi \<and> int a \<le> l \<and> l \<le> int b"
  have split: "(\<lambda>l. P l \<or> in_ranges lo hi (r # rs) l) = (\<lambda>l. (P l \<or> ?Q l) \<or> in_ranges lo hi rs l)"
    by (auto simp: in_ranges_def r fun_eq_iff)
  show ?case
  proof (cases "int b < lo \<or> hi < int a")
    case True
    then have "(\<lambda>l. P l \<or> in_ranges lo hi (r # rs) l) = (\<lambda>l. P l \<or> in_ranges lo hi rs l)"
      by (auto simp: in_ranges_def r fun_eq_iff)
    with True Cons.IH [of P anchor] Cons.prems show ?thesis by (simp add: r)
  next
    case False
    let ?c = "max lo (int a)"
    have "least_of (\<lambda>l. P l \<or> ?Q l)
        (case anchor of None \<Rightarrow> Some ?c | Some x \<Rightarrow> if ?c < x then Some ?c else anchor)"
      using least_of_extend [of P anchor ?Q ?c] Cons.prems False by (auto simp: r)
    from Cons.IH [OF this] Cons.prems have "least_of (\<lambda>l. (P l \<or> ?Q l) \<or> in_ranges lo hi rs l)
        (anchor_loop lo hi rs
          (case anchor of None \<Rightarrow> Some ?c | Some x \<Rightarrow> if ?c < x then Some ?c else anchor))"
      by simp
    with False show ?thesis by (simp only: split) (simp add: r Let_def)
  qed
qed

lemma scan_lines_ok: "scan_ok s \<Longrightarrow> \<forall>(a, b) \<in> set (scan_lines ls s). a \<le> b"
proof (induction ls arbitrary: s)
  case Nil
  then show ?case by (simp add: scan_ok_def)
next
  case (Cons l ls)
  show ?case
  proof (cases "scan_line l s")
    case None
    with Cons.prems show ?thesis by (simp add: scan_ok_def)
  next
    case (Some s')
    have same: "scan_ok (s\<lparr>right_line := a, right_remaining := n, seen_hunk := True\<rparr>) = scan_ok s" for a n
      by (simp add: scan_ok_def finish_ranges_def split: option.splits)
    from Some Cons.prems have "scan_ok s'"
      by (auto simp: scan_line_def same scan_ok_right split: if_splits option.splits)
    with Some Cons.IH show ?thesis by simp
  qed
qed

lemma parsed_ranges_ok: "(a, b) \<in> set (parse_commentable_right_line_ranges p) \<Longrightarrow> a \<le> b"
  using scan_lines_ok [of empty_scan "patch_lines p"]
  by (auto simp: parse_commentable_right_line_ranges_def scan_ok_def finish_ranges_def empty_scan_def
      split: if_splits)

lemma file_entry_ranges_ok: "(a, b) \<in> set (fd_ranges (file_entry f)) \<Longrightarrow> a \<le> b"
  by (auto simp: file_entry_def Let_def split: option.splits if_splits intro: parsed_ranges_ok)

definition index_ok :: "diff_index \<Rightarrow> bool" where
  "index_ok ix \<longleftrightarrow> (\<forall>(f, e) \<in> set (ix_files ix). \<forall>(a, b) \<in> set (fd_ranges e). a \<le> b)"

lemma index_ok_file: "index_ok ix \<Longrightarrow> index_ok (ingest_file f ix)"
  by (auto simp: index_ok_def ingest_file_def file_entry_ranges_ok)

lemma index_ok_fold: "index_ok ix \<Longrightarrow> index_ok (fold ingest_file fs ix)"
  by (induction fs arbitrary: ix) (auto intro: index_ok_file)

lemma index_ok_ingest: "index_ok ix \<Longrightarrow> index_ok (ingest_list_pull_request_files_result t fs ix)"
  unfolding ingest_list_pull_request_files_result_def by (rule index_ok_fold) (simp add: index_ok_def)

lemma index_ok_create: "index_ok create_cached_pr_diff_index"
  by (simp add: index_ok_def create_cached_pr_diff_index_def)

inductive built_index :: "diff_index \<Rightarrow> bool" where
  built_empty: "built_index create_cached_pr_diff_index"
| built_more: "built_index ix \<Longrightarrow> built_index (ingest_list_pull_request_files_result t fs ix)"

lemma built_index_ok: "built_index ix \<Longrightarrow> index_ok ix"
  by (induction rule: built_index.induct) (auto intro: index_ok_create index_ok_ingest)

text \<open>In an index built by ingesting any pages of files, a finding on a listed file is anchored at
  the least line of its range (given in either order) that the file's patch makes commentable, and at
  none exactly when no line of the range is.\<close>

lemma anchor_is_least_commentable:
  assumes "built_index ix" and "map_of (ix_files ix) file = Some e" and "\<not> fd_patch_omitted e"
  shows "least_of (in_ranges (min a b) (max a b) (fd_ranges e)) (resolve_inline_anchor_line (Some ix) file a b)"
proof -
  have ranges: "\<forall>(a, b) \<in> set (fd_ranges e). a \<le> b"
    using built_index_ok [OF assms(1)] map_of_SomeD [OF assms(2)] by (auto simp: index_ok_def)
  have "least_of (\<lambda>l. False \<or> in_ranges (min a b) (max a b) (fd_ranges e) l)
      (anchor_loop (min a b) (max a b) (fd_ranges e) None)"
    by (rule anchor_loop_least) (use ranges in \<open>auto simp: least_of_def\<close>)
  then show ?thesis using assms by (cases "fd_ranges e = []") (simp_all add: resolve_inline_anchor_line_def)
qed

definition sample_index :: diff_index where
  "sample_index = ingest_list_pull_request_files_result False
     [\<lparr>lf_filename = ''f'', lf_patch = Some (print_patch [sample_hunk]), lf_patch_omitted = False,
       lf_additions = None, lf_deletions = None\<rparr>] create_cached_pr_diff_index"

lemma sample_index_files:
  "map_of (ix_files sample_index) ''f'' = Some \<lparr>fd_patch_omitted = False, fd_ranges = [(10, 12)],
     fd_additions = 0, fd_deletions = 0\<rparr>"
  by code_simp

lemma anchor_is_least_commentable_witness:
  "resolve_inline_anchor_line (Some sample_index) ''f'' 20 7 = Some 10 \<and>
   least_of (in_ranges (min 20 7) (max 20 7) [(10, 12)])
     (resolve_inline_anchor_line (Some sample_index) ''f'' 20 7)"
  using anchor_is_least_commentable [of sample_index "''f''" _ 20 7]
    built_more [OF built_empty, of False] sample_index_files
  by (simp add: sample_index_def resolve_inline_anchor_line_def)

lemma ingest_file_map:
  "map_of (ix_files (ingest_file f ix)) x =
     (case map_of (ix_files ix) x of
        Some e \<Rightarrow> Some e
      | None \<Rightarrow> if lf_filename f = x then Some (file_entry f) else None)"
  by (auto simp: ingest_file_def map_add_def split: option.splits)

lemma ingest_files_map:
  "map_of (ix_files (fold ingest_file fs ix)) x =
     (case map_of (ix_files ix) x of
        Some e \<Rightarrow> Some e
      | None \<Rightarrow> map_option file_entry (find (\<lambda>f. lf_filename f = x) fs))"
  by (induction fs arbitrary: ix) (auto simp: ingest_file_map split: option.splits)

lemma ingest_files_flags:
  "ix_ingested (fold ingest_file fs ix) = ix_ingested ix \<and> ix_truncated (fold ingest_file fs ix) = ix_truncated ix"
  by (induction fs arbitrary: ix) (simp_all add: ingest_file_def)

text \<open>The first entry of a file wins: ingesting a page never changes a file the index has, a new
  file gets the first entry of the page that names it, and the truncation flag is only ever raised.\<close>

lemma first_entry_wins:
  "map_of (ix_files (ingest_list_pull_request_files_result t fs ix)) x =
     (case map_of (ix_files ix) x of
        Some e \<Rightarrow> Some e
      | None \<Rightarrow> map_option file_entry (find (\<lambda>f. lf_filename f = x) fs)) \<and>
   ix_ingested (ingest_list_pull_request_files_result t fs ix) \<and>
   (ix_truncated (ingest_list_pull_request_files_result t fs ix) \<longleftrightarrow> t \<or> ix_truncated ix)"
  by (simp add: ingest_list_pull_request_files_result_def ingest_files_map ingest_files_flags)

end
