(* ===== verification/Js_Text.thy ===== *)
theory Js_Text
  imports Diff_Index
begin

text \<open>
  Text as the program handles it. A string is held as its UTF-8 bytes, so the functions of the JavaScript
  library that look at characters are written on bytes: white space and line ends (some have two or
  three bytes), \<open>trim\<close>, \<open>encodeURIComponent\<close> and \<open>decodeURIComponent\<close>, and matching of the regular
  expressions that are literal text with tokens \<^verbatim>\<open>\S+\<close> between blanks.

  A string that is not valid UTF-8 stands for no JavaScript string without lone surrogates;
  \<open>utf8_ok\<close> is the hypothesis of the lemmas that need it. Lower case is that of the ASCII letters.
\<close>

abbreviation byte :: "char \<Rightarrow> nat" where
  "byte c \<equiv> of_char c"

subsection \<open>White space and lines\<close>

text \<open>The number of bytes of the white space character, or of the line end, that a text begins with.\<close>

fun space_len :: "string \<Rightarrow> nat" where
  "space_len [] = 0"
| "space_len (a # s) =
     (if byte a \<in> {9, 10, 11, 12, 13, 32} then 1
      else case s of
        [] \<Rightarrow> 0
      | b # s' \<Rightarrow>
          if byte a = 194 \<and> byte b = 160 then 2
          else (case s' of
            [] \<Rightarrow> 0
          | c # _ \<Rightarrow>
              if byte a = 225 \<and> byte b = 154 \<and> byte c = 128
                \<or> byte a = 226 \<and> byte b = 128 \<and> (128 \<le> byte c \<and> byte c \<le> 138 \<or> byte c \<in> {168, 169, 175})
                \<or> byte a = 226 \<and> byte b = 129 \<and> byte c = 159
                \<or> byte a = 227 \<and> byte b = 128 \<and> byte c = 128
                \<or> byte a = 239 \<and> byte b = 187 \<and> byte c = 191
              then 3 else 0))"

fun line_end_len :: "string \<Rightarrow> nat" where
  "line_end_len [] = 0"
| "line_end_len (a # s) =
     (if byte a \<in> {10, 13} then 1
      else case s of
        b # c # _ \<Rightarrow> if byte a = 226 \<and> byte b = 128 \<and> byte c \<in> {168, 169} then 3 else 0
      | _ \<Rightarrow> 0)"

function text_lines :: "string \<Rightarrow> string list" where
  "text_lines [] = [[]]"
| "text_lines (c # s) =
     (if line_end_len (c # s) = 0
      then (case text_lines s of l # ls \<Rightarrow> (c # l) # ls | [] \<Rightarrow> [[c]])
      else [] # text_lines (drop (line_end_len (c # s) - 1) s))"
  by pat_completeness auto
termination by (relation "measure length") auto

fun all_space :: "nat \<Rightarrow> string \<Rightarrow> bool" where
  "all_space n [] \<longleftrightarrow> n = 0"
| "all_space n (c # s) \<longleftrightarrow>
     (if 0 < n then all_space (n - 1) s else 0 < space_len (c # s) \<and> all_space (space_len (c # s) - 1) s)"

function trim_start :: "string \<Rightarrow> string" where
  "trim_start [] = []"
| "trim_start (c # s) =
     (if space_len (c # s) = 0 then c # s else trim_start (drop (space_len (c # s) - 1) s))"
  by pat_completeness auto
termination by (relation "measure length") auto

fun trim_end :: "string \<Rightarrow> string" where
  "trim_end [] = []"
| "trim_end (c # s) = (if all_space 0 (c # s) then [] else c # trim_end s)"

definition js_trim :: "string \<Rightarrow> string" where
  "js_trim s = trim_end (trim_start s)"

subsection \<open>Patterns\<close>

text \<open>The longest prefix without white space.\<close>

fun take_token :: "string \<Rightarrow> string \<times> string" where
  "take_token [] = ([], [])"
| "take_token (c # s) =
     (if 0 < space_len (c # s) then ([], c # s) else (case take_token s of (t, r) \<Rightarrow> (c # t, r)))"

text \<open>
  A regular expression of literals and tokens \<^verbatim>\<open>(\S+)\<close>. In the expressions of the program the
  literal after a token begins with a blank, so a token can only match as much as possible.
\<close>

datatype piece = Lit string | Tok

fun match_pieces :: "piece list \<Rightarrow> string \<Rightarrow> (string list \<times> string) option" where
  "match_pieces [] s = Some ([], s)"
| "match_pieces (Lit l # ps) s = (case expect l s of None \<Rightarrow> None | Some r \<Rightarrow> match_pieces ps r)"
| "match_pieces (Tok # ps) s =
     (case take_token s of (t, r) \<Rightarrow>
        if t = [] then None else map_option (\<lambda>(ts, r'). (t # ts, r')) (match_pieces ps r))"

fun fill_pieces :: "piece list \<Rightarrow> string list \<Rightarrow> string" where
  "fill_pieces [] ts = []"
| "fill_pieces (Lit l # ps) ts = l @ fill_pieces ps ts"
| "fill_pieces (Tok # ps) ts = (case ts of [] \<Rightarrow> [] | t # ts' \<Rightarrow> t @ fill_pieces ps ts')"

fun token_count :: "piece list \<Rightarrow> nat" where
  "token_count [] = 0"
| "token_count (Lit l # ps) = token_count ps"
| "token_count (Tok # ps) = Suc (token_count ps)"

text \<open>Every token is followed by a literal that begins with a blank, or it is the last piece.\<close>

fun spaced :: "piece list \<Rightarrow> bool" where
  "spaced [] \<longleftrightarrow> True"
| "spaced (Lit l # ps) \<longleftrightarrow> spaced ps"
| "spaced (Tok # ps) \<longleftrightarrow> (case ps of [] \<Rightarrow> True | Lit (c # l) # _ \<Rightarrow> c = CHR '' '' | _ \<Rightarrow> False) \<and> spaced ps"

text \<open>A token of printable ASCII characters other than the blank.\<close>

definition plain_char :: "char \<Rightarrow> bool" where
  "plain_char c \<longleftrightarrow> 33 \<le> byte c \<and> byte c \<le> 126"

definition plain_token :: "string \<Rightarrow> bool" where
  "plain_token t \<longleftrightarrow> t \<noteq> [] \<and> list_all plain_char t"

lemma plain_not_space: "plain_char c \<Longrightarrow> space_len (c # s) = 0"
  by (auto simp: plain_char_def split: list.splits)

lemma plain_not_line_end: "plain_char c \<or> c = CHR '' '' \<Longrightarrow> line_end_len (c # s) = 0"
  by (auto simp: plain_char_def split: list.splits)

lemma take_token_plain: "list_all plain_char t \<Longrightarrow> take_token (t @ CHR '' '' # s) = (t, CHR '' '' # s)"
  by (induction t) (simp_all add: plain_not_space del: space_len.simps, simp)

lemma match_fill:
  assumes "spaced ps" and "length ts = token_count ps" and "list_all plain_token ts"
    and "rest = CHR '' '' # r"
  shows "match_pieces (ps @ qs) (fill_pieces ps ts @ rest) =
    map_option (\<lambda>(us, r'). (ts @ us, r')) (match_pieces qs rest)"
  using assms(1,2,3)
proof (induction ps arbitrary: ts)
  case Nil
  then show ?case by (cases "match_pieces qs rest") auto
next
  case (Cons p ps)
  show ?case
  proof (cases p)
    case (Lit l)
    with Cons show ?thesis by simp
  next
    case Tok
    then obtain t ts' where ts: "ts = t # ts'" using Cons.prems(2) by (cases ts) auto
    have t: "t \<noteq> []" "list_all plain_char t" using Cons.prems(3) ts by (auto simp: plain_token_def)
    have IH: "match_pieces (ps @ qs) (fill_pieces ps ts' @ rest) =
        map_option (\<lambda>(us, r'). (ts' @ us, r')) (match_pieces qs rest)"
      using Cons Tok ts by auto
    have "\<exists>s. fill_pieces ps ts' @ rest = CHR '' '' # s"
      using Cons.prems(1) Tok assms(4) by (cases ps) (auto split: list.splits piece.splits)
    then have "take_token (t @ fill_pieces ps ts' @ rest) = (t, fill_pieces ps ts' @ rest)"
      using take_token_plain [OF t(2)] by auto
    with IH t Tok ts show ?thesis by (simp add: option.map_comp o_def case_prod_unfold)
  qed
qed

lemma take_token_length: "take_token s = (t, r) \<Longrightarrow> length r \<le> length s"
proof (induction s arbitrary: t)
  case (Cons c s)
  then show ?case by (cases "take_token s") (auto split: if_splits)
qed simp

lemma expect_SomeD: "expect l s = Some r \<Longrightarrow> s = l @ r"
  by (metis append_take_drop_id expect_def option.distinct(1) option.inject)

lemma expect_length: "expect l s = Some r \<Longrightarrow> length s = length l + length r"
  by (auto dest: expect_SomeD)

lemma match_pieces_length: "match_pieces ps s = Some (ts, r) \<Longrightarrow> length r \<le> length s"
proof (induction ps s arbitrary: ts rule: match_pieces.induct)
  case (2 l ps s)
  then show ?case using expect_length by (fastforce split: option.splits)
next
  case (3 ps s)
  then show ?case using take_token_length by (fastforce split: prod.splits if_splits)
qed simp

lemma match_literal_shorter:
  assumes "match_pieces (Lit l # ps) s = Some (ts, r)" and "l \<noteq> []"
  shows "length r < length s"
proof -
  obtain r1 where r1: "expect l s = Some r1" "match_pieces ps r1 = Some (ts, r)"
    using assms(1) by (auto split: option.splits)
  have "length r \<le> length r1" and "length s = length l + length r1"
    using r1 match_pieces_length expect_length by blast+
  with assms(2) show ?thesis by (cases l) auto
qed

subsection \<open>Lines\<close>

fun plain_lines :: "string list \<Rightarrow> string" where
  "plain_lines [] = []"
| "plain_lines [l] = l"
| "plain_lines (l # ls) = l @ newline # plain_lines ls"

definition one_line :: "string \<Rightarrow> bool" where
  "one_line l \<longleftrightarrow> text_lines l = [l]"

lemma one_line_Cons: "one_line (c # l) \<longleftrightarrow> line_end_len (c # l) = 0 \<and> one_line l"
  by (cases "text_lines l") (auto simp: one_line_def simp del: line_end_len.simps)

lemma one_line_head: "line_end_len (c # l) = 0 \<Longrightarrow> line_end_len (c # l @ newline # s) = 0"
  by (auto simp: newline_def split: list.splits if_splits)

lemma text_lines_append: "one_line l \<Longrightarrow> text_lines (l @ newline # s) = l # text_lines s"
proof (induction l)
  case Nil
  then show ?case by (simp add: newline_def)
next
  case (Cons c l)
  then show ?case using one_line_head [of c l s] by (simp add: one_line_Cons del: line_end_len.simps)
qed

lemma text_lines_plain: "ls \<noteq> [] \<Longrightarrow> list_all one_line ls \<Longrightarrow> text_lines (plain_lines ls) = ls"
  by (induction ls rule: plain_lines.induct) (simp_all add: text_lines_append one_line_def)

lemma plain_one_line: "list_all (\<lambda>c. plain_char c \<or> c = CHR '' '') l \<Longrightarrow> one_line l"
proof (induction l)
  case (Cons c l)
  then show ?case using plain_not_line_end by (simp add: one_line_Cons del: line_end_len.simps)
qed (simp add: one_line_def)

subsection \<open>UTF-8\<close>

text \<open>The length of a character by its first byte, zero when no character begins with it.\<close>

definition utf8_len :: "nat \<Rightarrow> nat" where
  "utf8_len b = (if b < 128 then 1 else if b < 192 then 0 else if b < 224 then 2 else if b < 240 then 3
     else if b < 248 then 4 else 0)"

abbreviation continues :: "nat \<Rightarrow> bool" where
  "continues b \<equiv> 128 \<le> b \<and> b < 192"

fun utf8_char :: "nat list \<Rightarrow> bool" where
  "utf8_char [a] \<longleftrightarrow> a < 128"
| "utf8_char [a, b] \<longleftrightarrow> 194 \<le> a \<and> a < 224 \<and> continues b"
| "utf8_char [a, b, c] \<longleftrightarrow> 224 \<le> a \<and> a < 240 \<and> continues b \<and> continues c \<and>
     (a = 224 \<longrightarrow> 160 \<le> b) \<and> (a = 237 \<longrightarrow> b < 160)"
| "utf8_char [a, b, c, d] \<longleftrightarrow> 240 \<le> a \<and> a < 245 \<and> continues b \<and> continues c \<and> continues d \<and>
     (a = 240 \<longrightarrow> 144 \<le> b) \<and> (a = 244 \<longrightarrow> b < 144)"
| "utf8_char _ \<longleftrightarrow> False"

function utf8_ok :: "string \<Rightarrow> bool" where
  "utf8_ok [] \<longleftrightarrow> True"
| "utf8_ok (c # s) \<longleftrightarrow>
     (let n = utf8_len (byte c)
      in 0 < n \<and> n \<le> length (c # s) \<and> utf8_char (map byte (take n (c # s))) \<and> utf8_ok (drop (n - 1) s))"
  by pat_completeness auto
termination by (relation "measure length") auto

subsection \<open>\<open>encodeURIComponent\<close> and \<open>decodeURIComponent\<close>\<close>

definition uri_unreserved :: "char \<Rightarrow> bool" where
  "uri_unreserved c \<longleftrightarrow> (let n = byte c in 48 \<le> n \<and> n \<le> 57 \<or> 65 \<le> n \<and> n \<le> 90 \<or> 97 \<le> n \<and> n \<le> 122 \<or>
     n \<in> {33, 39, 40, 41, 42, 45, 46, 95, 126})"

definition hex_digit :: "nat \<Rightarrow> char" where
  "hex_digit n = ''0123456789ABCDEF'' ! n"

definition hex_value :: "char \<Rightarrow> nat option" where
  "hex_value c = (let n = byte c in
     if 48 \<le> n \<and> n \<le> 57 then Some (n - 48)
     else if 65 \<le> n \<and> n \<le> 70 then Some (n - 55)
     else if 97 \<le> n \<and> n \<le> 102 then Some (n - 87) else None)"

definition encode_byte :: "char \<Rightarrow> string" where
  "encode_byte c =
     (if uri_unreserved c then [c] else [CHR ''%'', hex_digit (byte c div 16), hex_digit (byte c mod 16)])"

definition encode_uri :: "string \<Rightarrow> string" where
  "encode_uri s = concat (map encode_byte s)"

text \<open>An escape \<open>%XX\<close>, and a number of them.\<close>

fun take_escape :: "string \<Rightarrow> (char \<times> string) option" where
  "take_escape (p # h # l # s) =
     (if p \<noteq> CHR ''%'' then None
      else case (hex_value h, hex_value l) of
        (Some a, Some b) \<Rightarrow> Some (char_of (16 * a + b), s)
      | _ \<Rightarrow> None)"
| "take_escape _ = None"

fun take_escapes :: "nat \<Rightarrow> string \<Rightarrow> (string \<times> string) option" where
  "take_escapes 0 s = Some ([], s)"
| "take_escapes (Suc n) s =
     (case take_escape s of
        None \<Rightarrow> None
      | Some (c, s') \<Rightarrow> map_option (\<lambda>(cs, r). (c # cs, r)) (take_escapes n s'))"

lemma take_escape_length: "take_escape s = Some (c, r) \<Longrightarrow> length r < length s"
  by (cases s rule: take_escape.cases) (auto split: if_splits option.splits)

lemma take_escapes_length: "take_escapes n s = Some (cs, r) \<Longrightarrow> length r \<le> length s"
proof (induction n arbitrary: s cs)
  case (Suc n)
  then show ?case using take_escape_length by (fastforce split: option.splits)
qed simp

text \<open>\<open>None\<close> is the \<open>URIError\<close> of malformed escapes.\<close>

function decode_uri :: "string \<Rightarrow> string option" where
  "decode_uri [] = Some []"
| "decode_uri (c # s) =
     (if c \<noteq> CHR ''%'' then map_option (Cons c) (decode_uri s)
      else case take_escape (c # s) of
        None \<Rightarrow> None
      | Some (b, r) \<Rightarrow> (case take_escapes (utf8_len (byte b) - 1) r of
          None \<Rightarrow> None
        | Some (bs, r') \<Rightarrow>
            if utf8_char (map byte (b # bs)) then map_option ((@) (b # bs)) (decode_uri r') else None))"
  by pat_completeness auto
termination
  by (relation "measure length") (auto dest!: take_escape_length take_escapes_length)

lemma hex_digit_table: "(n :: nat) < 16 \<Longrightarrow> n \<in> {0, 1, 2, 3, 4, 5, 6, 7, 8, 9, 10, 11, 12, 13, 14, 15}"
  by (simp, presburger)

lemma hex_value_digit: "n < 16 \<Longrightarrow> hex_value (hex_digit n) = Some n"
  using hex_digit_table [of n] by (auto simp: hex_value_def hex_digit_def)

lemma plain_hex: "n < 16 \<Longrightarrow> plain_char (hex_digit n)"
  using hex_digit_table [of n] by (auto simp: plain_char_def hex_digit_def)

lemma byte_less [simp]: "byte c < 256"
  by simp

lemma take_escape_encoded: "\<not> uri_unreserved c \<Longrightarrow> take_escape (encode_byte c @ s) = Some (c, s)"
  by (simp add: encode_byte_def hex_value_digit less_mult_imp_div_less)

lemma take_escapes_encoded:
  "list_all (\<lambda>c. \<not> uri_unreserved c) cs \<Longrightarrow> take_escapes (length cs) (encode_uri cs @ s) = Some (cs, s)"
  by (induction cs) (simp_all add: encode_uri_def take_escape_encoded)

lemma encode_uri_append: "encode_uri (s @ t) = encode_uri s @ encode_uri t"
  by (simp add: encode_uri_def)

lemma encode_plain: "list_all plain_char (encode_uri s)"
proof (induction s)
  case (Cons c s)
  have "list_all plain_char (encode_byte c)"
    by (auto simp: encode_byte_def plain_hex less_mult_imp_div_less)
      (auto simp: plain_char_def uri_unreserved_def Let_def)
  with Cons show ?case by (simp add: encode_uri_def)
qed (simp add: encode_uri_def)

lemma encode_empty: "encode_uri s = [] \<longleftrightarrow> s = []"
  by (cases s) (auto simp: encode_uri_def encode_byte_def)

lemma utf8_char_high:
  "utf8_char bs \<Longrightarrow> length bs = utf8_len (hd bs) \<Longrightarrow> 2 \<le> length bs \<Longrightarrow> \<forall>b \<in> set bs. 128 \<le> b"
  by (cases bs rule: utf8_char.cases) auto

lemma unreserved_ascii: "uri_unreserved c \<Longrightarrow> byte c < 128 \<and> c \<noteq> CHR ''%''"
  by (auto simp: uri_unreserved_def Let_def)

lemma decode_escaped:
  assumes "list_all (\<lambda>x. \<not> uri_unreserved x) (c # cs)" and "length cs = utf8_len (byte c) - 1"
    and "utf8_char (map byte (c # cs))"
  shows "decode_uri (encode_uri (c # cs) @ r) = map_option ((@) (c # cs)) (decode_uri r)"
proof -
  obtain y where y: "encode_byte c @ encode_uri cs @ r = CHR ''%'' # y"
    using assms(1) by (auto simp: encode_byte_def)
  have "take_escape (CHR ''%'' # y) = Some (c, encode_uri cs @ r)"
    using assms(1) take_escape_encoded [of c "encode_uri cs @ r"] by (simp add: y)
  moreover have "take_escapes (utf8_len (byte c) - 1) (encode_uri cs @ r) = Some (cs, r)"
    using take_escapes_encoded [of cs r] assms(1,2) by simp
  ultimately have "decode_uri (CHR ''%'' # y) = map_option ((@) (c # cs)) (decode_uri r)"
    using assms(3) by (subst decode_uri.simps(2)) simp
  moreover have "encode_uri (c # cs) @ r = CHR ''%'' # y" using y by (simp add: encode_uri_def)
  ultimately show ?thesis by simp
qed

lemma decode_encode: "utf8_ok s \<Longrightarrow> decode_uri (encode_uri s) = Some s"
proof (induction s rule: utf8_ok.induct)
  case (2 c s)
  let ?n = "utf8_len (byte c)"
  have n: "0 < ?n" "?n \<le> length (c # s)" "utf8_char (map byte (take ?n (c # s)))" and ok: "utf8_ok (drop (?n - 1) s)"
    using 2(2) by (auto simp: Let_def)
  have IH: "decode_uri (encode_uri (drop (?n - 1) s)) = Some (drop (?n - 1) s)" using 2(1) n ok by simp
  show ?case
  proof (cases "uri_unreserved c")
    case True
    then have "byte c < 128" "c \<noteq> CHR ''%''" using unreserved_ascii by auto
    then have "?n = 1" by (simp add: utf8_len_def)
    with IH True \<open>c \<noteq> CHR ''%''\<close> show ?thesis by (simp add: encode_uri_def encode_byte_def)
  next
    case False
    let ?cs = "take (?n - 1) s"
    have cs: "take ?n (c # s) = c # ?cs" using n(1) by (cases ?n) auto
    have len: "length ?cs = ?n - 1" using n(2) by simp
    have "list_all (\<lambda>x. \<not> uri_unreserved x) (c # ?cs)"
    proof (cases "?n = 1")
      case True
      then show ?thesis using False by simp
    next
      case more: False
      have "\<forall>b \<in> set (map byte (c # ?cs)). 128 \<le> b"
        using n(1,3) more len by (intro utf8_char_high) (simp_all add: cs)
      then show ?thesis using unreserved_ascii by (fastforce simp: list_all_iff)
    qed
    then have "decode_uri (encode_uri (c # ?cs) @ encode_uri (drop (?n - 1) s)) =
        map_option ((@) (c # ?cs)) (decode_uri (encode_uri (drop (?n - 1) s)))"
      using n(3) len by (intro decode_escaped) (simp_all add: cs)
    then show ?thesis using IH by (simp add: encode_uri_append [symmetric])
  qed
qed (simp add: encode_uri_def)

end
