(* ===== verification/Ask_Quota.thy ===== *)
theory Ask_Quota
  imports Complex_Main Database Js_Text "HOL-Library.List_Lexorder" "HOL-Library.Char_ord"
begin

text \<open>
  The quota of asks: \<^verbatim>\<open>src/agentWork/askQuota.ts\<close> with the trigger
  \<open>release_ask_quota_reservation\<close> of \<^verbatim>\<open>migrations/029_ask_quota_execution_receipts.sql\<close>. An ask is
  admitted by the buckets of its installation, its repository and its actor, each with a limit on
  outstanding asks and a token rate; the installation also has a budget of provider tokens.

  Token balances are exact rationals instead of double precision numbers. JavaScript reads time in
  whole milliseconds; the time that a process reads is an argument of its own, since it may differ
  from the clock of the database.

  The lemmas show that the counters of every bucket are the sums over the live reservations whatever
  operations run, hence that the limits hold, that the usage of an execution is charged once, and
  that retention deletes exactly what nobody needs. The token rate is the subject of \<open>Ask_Rate\<close>.
\<close>

subsection \<open>State\<close>

datatype quota_scope = ScopeActor | ScopeRepository | ScopeInstallation

datatype quota_rejection = Outstanding quota_scope | Rate quota_scope | ProviderBudget

datatype quota_admission = Admitted int | Throttled quota_rejection

record quota_config =
  qc_actor_max_outstanding :: int
  qc_repository_max_outstanding :: int
  qc_installation_max_outstanding :: int
  qc_actor_burst :: int
  qc_repository_burst :: int
  qc_installation_burst :: int
  qc_actor_refill_seconds :: int
  qc_repository_refill_seconds :: int
  qc_installation_refill_seconds :: int
  qc_provider_budget_tokens :: int
  qc_provider_budget_window_seconds :: int
  qc_provider_reservation_tokens :: int

definition default_ask_quota_config :: quota_config where
  "default_ask_quota_config = \<lparr>qc_actor_max_outstanding = 2, qc_repository_max_outstanding = 8,
     qc_installation_max_outstanding = 32, qc_actor_burst = 3, qc_repository_burst = 12,
     qc_installation_burst = 48, qc_actor_refill_seconds = 60, qc_repository_refill_seconds = 10,
     qc_installation_refill_seconds = 1, qc_provider_budget_tokens = 0,
     qc_provider_budget_window_seconds = 86400, qc_provider_reservation_tokens = 16384\<rparr>"

record quota_bucket =
  qb_scope :: quota_scope
  qb_key :: string
  qb_tokens :: rat
  qb_last_refill :: time
  qb_outstanding :: int
  qb_used :: int
  qb_reserved :: int
  qb_window :: time
  qb_updated :: time

record quota_reservation =
  qr_item :: item_id
  qr_actor :: string
  qr_repository :: string
  qr_installation :: string
  qr_reserved :: int
  qr_known :: bool
  qr_used :: int
  qr_released :: "time option"
  qr_unknown_charged :: int
  qr_unknown_window :: "time option"

record quota_receipt =
  rc_item :: item_id
  rc_execution :: string
  rc_used :: int

record quota_db =
  buckets :: "quota_bucket list"
  reservations :: "quota_reservation list"
  receipts :: "quota_receipt list"
  qclock :: time

definition bucket_key :: "quota_bucket \<Rightarrow> quota_scope \<times> string" where
  "bucket_key b = (qb_scope b, qb_key b)"

definition bucket_at :: "quota_db \<Rightarrow> quota_scope \<Rightarrow> string \<Rightarrow> quota_bucket option" where
  "bucket_at d sc k = row_at bucket_key (sc, k) (buckets d)"

definition update_bucket :: "quota_scope \<Rightarrow> string \<Rightarrow> (quota_bucket \<Rightarrow> quota_bucket) \<Rightarrow> quota_db \<Rightarrow> quota_db" where
  "update_bucket sc k f d = d\<lparr>buckets := update_where (\<lambda>b. bucket_key b = (sc, k)) f (buckets d)\<rparr>"

definition reservation_at :: "quota_db \<Rightarrow> item_id \<Rightarrow> quota_reservation option" where
  "reservation_at d i = row_at qr_item i (reservations d)"

definition update_reservation ::
  "item_id \<Rightarrow> (quota_reservation \<Rightarrow> quota_reservation) \<Rightarrow> quota_db \<Rightarrow> quota_db" where
  "update_reservation i f d = d\<lparr>reservations := update_where (\<lambda>r. qr_item r = i) f (reservations d)\<rparr>"

text \<open>\<open>getTime()\<close> of a stored time, in milliseconds.\<close>

definition millis :: "time \<Rightarrow> int" where
  "millis t = t div 1000"

subsection \<open>Scopes\<close>

definition installation_scope_key :: "int \<Rightarrow> string" where
  "installation_scope_key n = ''installation:'' @ int_text n"

definition repository_scope_key :: "int \<Rightarrow> string \<Rightarrow> string \<Rightarrow> string" where
  "repository_scope_key n owner repo = ''repository:'' @ int_text n @ '':'' @
     map lower_char (js_trim owner) @ ''/'' @ map lower_char (js_trim repo)"

definition actor_scope_key :: "int \<Rightarrow> int \<Rightarrow> string" where
  "actor_scope_key n commenter = ''actor:'' @ int_text n @ '':'' @ int_text commenter"

record ask_request =
  aq_item :: item_id
  aq_installation :: int
  aq_owner :: string
  aq_repo :: string
  aq_commenter :: int

record quota_scope_params =
  sp_scope :: quota_scope
  sp_key :: string
  sp_max_outstanding :: int
  sp_burst :: int
  sp_refill_seconds :: int

definition scope_params :: "quota_config \<Rightarrow> ask_request \<Rightarrow> quota_scope_params list" where
  "scope_params cfg q =
     [\<lparr>sp_scope = ScopeInstallation, sp_key = installation_scope_key (aq_installation q),
       sp_max_outstanding = qc_installation_max_outstanding cfg, sp_burst = qc_installation_burst cfg,
       sp_refill_seconds = qc_installation_refill_seconds cfg\<rparr>,
      \<lparr>sp_scope = ScopeRepository, sp_key = repository_scope_key (aq_installation q) (aq_owner q) (aq_repo q),
       sp_max_outstanding = qc_repository_max_outstanding cfg, sp_burst = qc_repository_burst cfg,
       sp_refill_seconds = qc_repository_refill_seconds cfg\<rparr>,
      \<lparr>sp_scope = ScopeActor, sp_key = actor_scope_key (aq_installation q) (aq_commenter q),
       sp_max_outstanding = qc_actor_max_outstanding cfg, sp_burst = qc_actor_burst cfg,
       sp_refill_seconds = qc_actor_refill_seconds cfg\<rparr>]"

definition bucket_lock_order :: "quota_scope list" where
  "bucket_lock_order = [ScopeInstallation, ScopeRepository, ScopeActor]"

definition admission_check_order :: "quota_scope list" where
  "admission_check_order = [ScopeActor, ScopeRepository, ScopeInstallation]"

definition number_value :: "int \<Rightarrow> int" where
  "number_value n = (if 0 \<le> n then n else 0)"

subsection \<open>Locking and refilling a bucket\<close>

definition insert_missing_bucket :: "quota_scope_params \<Rightarrow> quota_db \<Rightarrow> quota_db" where
  "insert_missing_bucket sp d =
     (case bucket_at d (sp_scope sp) (sp_key sp) of
        Some _ \<Rightarrow> d
      | None \<Rightarrow> d\<lparr>buckets := buckets d @
          [\<lparr>qb_scope = sp_scope sp, qb_key = sp_key sp, qb_tokens = of_int (sp_burst sp),
            qb_last_refill = qclock d, qb_outstanding = 0, qb_used = 0, qb_reserved = 0,
            qb_window = qclock d, qb_updated = qclock d\<rparr>]\<rparr>)"

definition refilled_tokens :: "int \<Rightarrow> quota_scope_params \<Rightarrow> quota_bucket \<Rightarrow> rat" where
  "refilled_tokens js sp b =
     (let elapsed = max 0 (of_int (js - millis (qb_last_refill b)) / 1000)
      in min (of_int (sp_burst sp)) (max 0 (qb_tokens b) + elapsed / of_int (sp_refill_seconds sp)))"

definition window_over :: "quota_config \<Rightarrow> int \<Rightarrow> quota_scope_params \<Rightarrow> quota_bucket \<Rightarrow> bool" where
  "window_over cfg js sp b \<longleftrightarrow> sp_scope sp = ScopeInstallation \<and> 0 < qc_provider_budget_tokens cfg \<and>
     qc_provider_budget_window_seconds cfg * 1000 \<le> js - millis (qb_window b)"

definition refill :: "quota_config \<Rightarrow> int \<Rightarrow> quota_scope_params \<Rightarrow> quota_bucket \<Rightarrow> quota_bucket" where
  "refill cfg js sp b = b\<lparr>
     qb_tokens := refilled_tokens js sp b,
     qb_used := (if window_over cfg js sp b then 0 else number_value (qb_used b)),
     qb_window := (if window_over cfg js sp b then js * 1000 else millis (qb_window b) * 1000)\<rparr>"

definition lock_and_refill_bucket ::
  "quota_config \<Rightarrow> int \<Rightarrow> quota_scope_params \<Rightarrow> (quota_db, quota_bucket) prog" where
  "lock_and_refill_bucket cfg js sp d =
     (let d1 = insert_missing_bucket sp d
      in case bucket_at d1 (sp_scope sp) (sp_key sp) of
           None \<Rightarrow> (Inl (AppError ''agent_work'' ''ask_quota_bucket_missing'' []), d1)
         | Some row \<Rightarrow>
             let b = refill cfg js sp row
             in (Inr b, update_bucket (sp_scope sp) (sp_key sp)
                   (\<lambda>r. r\<lparr>qb_tokens := qb_tokens b, qb_last_refill := qclock d1, qb_used := qb_used b,
                          qb_window := qb_window b, qb_updated := qclock d1\<rparr>) d1))"

fun lock_buckets ::
  "quota_config \<Rightarrow> int \<Rightarrow> quota_scope_params list \<Rightarrow> quota_scope list \<Rightarrow> (quota_db, quota_bucket list) prog" where
  "lock_buckets cfg js scopes [] = returnP []"
| "lock_buckets cfg js scopes (sc # scs) =
     (case find (\<lambda>p. sp_scope p = sc) scopes of
        None \<Rightarrow> throwP (PlainError ''missing ask quota descriptor'')
      | Some sp \<Rightarrow>
          bindP (lock_and_refill_bucket cfg js sp) (\<lambda>b.
            bindP (lock_buckets cfg js scopes scs) (\<lambda>bs. returnP (b # bs))))"

subsection \<open>Admission\<close>

definition bucket_by_scope :: "quota_bucket list \<Rightarrow> quota_scope \<Rightarrow> js_error + quota_bucket" where
  "bucket_by_scope bs sc =
     (case find (\<lambda>b. qb_scope b = sc) bs of
        Some b \<Rightarrow> Inr b
      | None \<Rightarrow> Inl (AppError ''agent_work'' ''ask_quota_scope_missing'' []))"

fun check_admission ::
  "quota_scope_params list \<Rightarrow> quota_bucket list \<Rightarrow> quota_scope list \<Rightarrow> js_error + quota_rejection option" where
  "check_admission scopes bs [] = Inr None"
| "check_admission scopes bs (sc # scs) =
     (case find (\<lambda>p. sp_scope p = sc) scopes of
        None \<Rightarrow> Inl (PlainError ''missing ask quota descriptor'')
      | Some sp \<Rightarrow> (case bucket_by_scope bs sc of
          Inl e \<Rightarrow> Inl e
        | Inr b \<Rightarrow>
            if sp_max_outstanding sp \<le> qb_outstanding b then Inr (Some (Outstanding sc))
            else if qb_tokens b < 1 then Inr (Some (Rate sc))
            else check_admission scopes bs scs))"

fun charge_buckets :: "quota_scope_params list \<Rightarrow> quota_bucket list \<Rightarrow> (quota_db, unit) prog" where
  "charge_buckets [] bs = returnP ()"
| "charge_buckets (sp # sps) bs =
     (case bucket_by_scope bs (sp_scope sp) of
        Inl e \<Rightarrow> throwP e
      | Inr b \<Rightarrow>
          thenP (stepP (\<lambda>d. ((), update_bucket (sp_scope sp) (sp_key sp)
              (\<lambda>r. r\<lparr>qb_tokens := qb_tokens b - 1, qb_outstanding := qb_outstanding r + 1,
                     qb_updated := qclock d\<rparr>) d)))
            (charge_buckets sps bs))"

definition reservation_tokens :: "quota_config \<Rightarrow> int" where
  "reservation_tokens cfg =
     (if 0 < qc_provider_budget_tokens cfg then qc_provider_reservation_tokens cfg else 0)"

definition reserve_provider_tokens :: "ask_request \<Rightarrow> int \<Rightarrow> quota_db \<Rightarrow> quota_db" where
  "reserve_provider_tokens q n d =
     (if 0 < n then update_bucket ScopeInstallation (installation_scope_key (aq_installation q))
        (\<lambda>r. r\<lparr>qb_reserved := qb_reserved r + n, qb_updated := qclock d\<rparr>) d else d)"

definition new_reservation :: "ask_request \<Rightarrow> int \<Rightarrow> quota_reservation" where
  "new_reservation q n =
     \<lparr>qr_item = aq_item q, qr_actor = actor_scope_key (aq_installation q) (aq_commenter q),
      qr_repository = repository_scope_key (aq_installation q) (aq_owner q) (aq_repo q),
      qr_installation = installation_scope_key (aq_installation q), qr_reserved = n,
      qr_known = False, qr_used = 0, qr_released = None, qr_unknown_charged = 0,
      qr_unknown_window = None\<rparr>"

definition insert_reservation :: "ask_request \<Rightarrow> int \<Rightarrow> (quota_db, unit) prog" where
  "insert_reservation q n d =
     (if reservation_at d (aq_item q) \<noteq> None then (Inl (PlainError ''duplicate key value''), d)
      else (Inr (), d\<lparr>reservations := reservations d @ [new_reservation q n]\<rparr>))"

definition over_provider_budget :: "quota_config \<Rightarrow> quota_bucket \<Rightarrow> bool" where
  "over_provider_budget cfg installation \<longleftrightarrow> 0 < reservation_tokens cfg \<and>
     qc_provider_budget_tokens cfg <
       qb_used installation + number_value (qb_reserved installation) + reservation_tokens cfg"

definition reserve_ask_quota :: "quota_config \<Rightarrow> int \<Rightarrow> ask_request \<Rightarrow> (quota_db, quota_admission) prog" where
  "reserve_ask_quota cfg js q =
     (let scopes = scope_params cfg q
      in bindP (lock_buckets cfg js scopes bucket_lock_order) (\<lambda>bs.
           case check_admission scopes bs admission_check_order of
             Inl e \<Rightarrow> throwP e
           | Inr (Some reason) \<Rightarrow> returnP (Throttled reason)
           | Inr None \<Rightarrow> (case bucket_by_scope bs ScopeInstallation of
               Inl e \<Rightarrow> throwP e
             | Inr installation \<Rightarrow>
                 if over_provider_budget cfg installation then returnP (Throttled ProviderBudget)
                 else
                   thenP (charge_buckets scopes bs)
                     (thenP (stepP (\<lambda>d. ((), reserve_provider_tokens q (reservation_tokens cfg) d)))
                       (thenP (insert_reservation q (reservation_tokens cfg))
                         (returnP (Admitted (reservation_tokens cfg))))))))"

subsection \<open>Release\<close>

definition decrement_outstanding :: "quota_scope \<Rightarrow> string \<Rightarrow> int \<Rightarrow> (quota_db, unit) prog" where
  "decrement_outstanding sc k n d =
     (case bucket_at d sc k of
        None \<Rightarrow> (Inl (AppError ''agent_work'' ''ask_quota_bucket_missing_on_release'' []), d)
      | Some _ \<Rightarrow> (Inr (), update_bucket sc k
          (\<lambda>b. b\<lparr>qb_outstanding := max 0 (qb_outstanding b - 1), qb_reserved := max 0 (qb_reserved b - n),
                 qb_updated := qclock d\<rparr>) d))"

definition release_ask_quota_reservation :: "item_id \<Rightarrow> (quota_db, unit) prog" where
  "release_ask_quota_reservation i d =
     (case reservation_at d i of
        None \<Rightarrow> (Inr (), d)
      | Some r \<Rightarrow>
          if qr_released r \<noteq> None then (Inr (), d)
          else
            thenP (stepP (\<lambda>d. ((), d\<lparr>reservations := update_where (\<lambda>x. qr_item x = i \<and> qr_released x = None)
                (\<lambda>x. x\<lparr>qr_released := Some (qclock d)\<rparr>) (reservations d)\<rparr>)))
              (thenP (decrement_outstanding ScopeInstallation (qr_installation r) (number_value (qr_reserved r)))
                (thenP (decrement_outstanding ScopeRepository (qr_repository r) 0)
                  (thenP (decrement_outstanding ScopeActor (qr_actor r) 0)
                    (stepP (\<lambda>d. ((), d\<lparr>reservations :=
                      filter (\<lambda>x. \<not> (qr_item x = i \<and> qr_released x \<noteq> None)) (reservations d)\<rparr>)))))) d)"

text \<open>
  The trigger on the status of a work item, for an update that takes the item from an active to a
  terminal status. An update of a missing bucket changes no row and is no error.
\<close>

definition provider_charge :: "quota_reservation \<Rightarrow> int" where
  "provider_charge r = (if qr_known r then 0 else qr_reserved r)"

definition charged_window :: "quota_db \<Rightarrow> quota_reservation \<Rightarrow> time option" where
  "charged_window d r =
     (if 0 < provider_charge r
      then map_option qb_window (bucket_at d ScopeInstallation (qr_installation r)) else None)"

definition release_trigger :: "item_id \<Rightarrow> quota_db \<Rightarrow> quota_db" where
  "release_trigger i d =
     (case reservation_at d i of
        None \<Rightarrow> d
      | Some r \<Rightarrow>
          if qr_released r \<noteq> None then d
          else
            let d1 = update_reservation i (\<lambda>x. x\<lparr>qr_released := Some (qclock d), qr_reserved := 0,
                       qr_unknown_charged := provider_charge r, qr_unknown_window := charged_window d r\<rparr>) d;
                d2 = update_bucket ScopeInstallation (qr_installation r)
                       (\<lambda>b. b\<lparr>qb_outstanding := max 0 (qb_outstanding b - 1),
                              qb_reserved := max 0 (qb_reserved b - qr_reserved r),
                              qb_used := qb_used b + provider_charge r, qb_updated := qclock d\<rparr>) d1;
                d3 = update_bucket ScopeRepository (qr_repository r)
                       (\<lambda>b. b\<lparr>qb_outstanding := max 0 (qb_outstanding b - 1), qb_updated := qclock d\<rparr>) d2
            in update_bucket ScopeActor (qr_actor r)
                 (\<lambda>b. b\<lparr>qb_outstanding := max 0 (qb_outstanding b - 1), qb_updated := qclock d\<rparr>) d3)"

subsection \<open>Usage\<close>

datatype bucket_application =
    Adjust (reserved_release: int) (used_delta: int)
  | ReceiptOnly

definition same_provider_window :: "time option \<Rightarrow> time option \<Rightarrow> bool" where
  "same_provider_window l r \<longleftrightarrow>
     (case (l, r) of (Some a, Some b) \<Rightarrow> millis a = millis b | _ \<Rightarrow> True)"

definition bucket_application_for_receipt ::
  "int \<Rightarrow> int \<Rightarrow> bool \<Rightarrow> bool \<Rightarrow> bool \<Rightarrow> int \<Rightarrow> bucket_application" where
  "bucket_application_for_receipt reserved unknown_charged already_known released same_window actual =
     (if released \<and> 0 < unknown_charged \<and> \<not> same_window then ReceiptOnly
      else if already_known then Adjust 0 actual
      else if \<not> released then Adjust reserved actual
      else Adjust 0 (actual - unknown_charged))"

definition apply_receipt :: "item_id \<Rightarrow> quota_reservation \<Rightarrow> int \<Rightarrow> bucket_application \<Rightarrow> quota_db \<Rightarrow> quota_db" where
  "apply_receipt i r actual app d =
     (case app of
        ReceiptOnly \<Rightarrow> update_reservation i (\<lambda>x. x\<lparr>qr_known := True, qr_used := qr_used x + actual\<rparr>) d
      | Adjust rel delta \<Rightarrow>
          update_bucket ScopeInstallation (qr_installation r)
            (\<lambda>b. b\<lparr>qb_reserved := max 0 (qb_reserved b - rel), qb_used := max 0 (qb_used b + delta),
                   qb_updated := qclock d\<rparr>)
            (update_reservation i (\<lambda>x. x\<lparr>qr_known := True, qr_used := qr_used x + actual, qr_reserved := 0,
               qr_unknown_charged := 0\<rparr>) d))"

definition receipt_at :: "quota_db \<Rightarrow> item_id \<Rightarrow> string \<Rightarrow> quota_receipt option" where
  "receipt_at d i x = find (\<lambda>c. rc_item c = i \<and> rc_execution c = x) (receipts d)"

definition record_usage_body :: "item_id \<Rightarrow> string \<Rightarrow> int \<Rightarrow> (quota_db, unit) prog" where
  "record_usage_body i x actual d =
     (case reservation_at d i of
        None \<Rightarrow> (Inr (), d)
      | Some r \<Rightarrow> (case receipt_at d i x of
          Some prior \<Rightarrow>
            if number_value (rc_used prior) \<noteq> actual
            then (Inl (AppError ''agent_work'' ''ask_quota_execution_conflict'' []), d)
            else (Inr (), d)
        | None \<Rightarrow> (case bucket_at d ScopeInstallation (qr_installation r) of
            None \<Rightarrow> (Inl (AppError ''agent_work'' ''ask_quota_provider_bucket_missing'' []), d)
          | Some b \<Rightarrow>
              let d1 = d\<lparr>receipts := receipts d @ [\<lparr>rc_item = i, rc_execution = x, rc_used = actual\<rparr>]\<rparr>;
                  app = bucket_application_for_receipt (number_value (qr_reserved r))
                          (number_value (qr_unknown_charged r)) (qr_known r) (qr_released r \<noteq> None)
                          (same_provider_window (qr_unknown_window r) (Some (qb_window b))) actual
              in (Inr (), apply_receipt i r actual app d1))))"

text \<open>A usage that is not a finite number is \<open>None\<close>.\<close>

definition record_ask_provider_usage :: "item_id \<Rightarrow> string \<Rightarrow> rat option \<Rightarrow> (quota_db, unit) prog" where
  "record_ask_provider_usage i x usage =
     (case usage of
        None \<Rightarrow> returnP ()
      | Some n \<Rightarrow>
          if n < 0 then returnP ()
          else if x = [] then throwP (AppError ''agent_work'' ''ask_quota_execution_id_missing'' [])
          else in_transaction (record_usage_body i x (floor n)))"

subsection \<open>Expiry\<close>

definition live :: "quota_reservation \<Rightarrow> bool" where
  "live r \<longleftrightarrow> qr_released r = None"

fun scope_key_of :: "quota_scope \<Rightarrow> quota_reservation \<Rightarrow> string" where
  "scope_key_of ScopeActor r = qr_actor r"
| "scope_key_of ScopeRepository r = qr_repository r"
| "scope_key_of ScopeInstallation r = qr_installation r"

definition expired_bucket :: "int \<Rightarrow> quota_db \<Rightarrow> quota_bucket \<Rightarrow> bool" where
  "expired_bucket retention d b \<longleftrightarrow>
     qb_updated b < qclock d - seconds retention \<and> qb_outstanding b = 0 \<and> qb_reserved b = 0 \<and>
     \<not> exists_where (\<lambda>r. live r \<and> scope_key_of (qb_scope b) r = qb_key b) (reservations d)"

text \<open>One statement, on a limited number of the expired rows, with the number of rows it deletes.\<close>

definition delete_expired_batch :: "int \<Rightarrow> nat \<Rightarrow> quota_db \<Rightarrow> nat \<times> quota_db" where
  "delete_expired_batch retention limit d =
     (let doomed = take limit (filter (expired_bucket retention d) (buckets d))
      in (length doomed,
          d\<lparr>buckets := filter (\<lambda>b. bucket_key b \<notin> bucket_key ` set doomed) (buckets d)\<rparr>))"

partial_function (option) delete_expired_loop ::
  "int \<Rightarrow> nat \<Rightarrow> nat \<Rightarrow> quota_db \<Rightarrow> (nat \<times> quota_db) option" where
  "delete_expired_loop retention limit deleted d =
     (let (n, d') = delete_expired_batch retention limit d
      in if n < limit then Some (deleted + n, d')
         else delete_expired_loop retention limit (deleted + n) d')"

definition delete_expired_ask_quota_state :: "int \<Rightarrow> nat \<Rightarrow> quota_db \<Rightarrow> (nat \<times> quota_db) option" where
  "delete_expired_ask_quota_state retention limit d = delete_expired_loop retention limit 0 d"

subsection \<open>Admitting an ask\<close>

record ask_mention =
  am_installation :: int
  am_resource_key :: string
  am_reply_kind :: string
  am_comment_id :: string
  am_webhook_event :: "string option"

record ask_row = ask_mention +
  ar_id :: item_id
  ar_created_at :: time

text \<open>The earliest ask kept for a mention, one of the same webhook event first.\<close>

definition same_mention :: "ask_mention \<Rightarrow> ask_row \<Rightarrow> bool" where
  "same_mention m a \<longleftrightarrow> am_installation a = am_installation m \<and> am_resource_key a = am_resource_key m \<and>
     am_reply_kind a = am_reply_kind m \<and> am_comment_id a = am_comment_id m"

definition mention_before :: "ask_mention \<Rightarrow> ask_row \<Rightarrow> ask_row \<Rightarrow> bool" where
  "mention_before m a b \<longleftrightarrow>
     (let ra = (if am_webhook_event m \<noteq> None \<and> am_webhook_event a = am_webhook_event m then 0 else 1 :: nat);
          rb = (if am_webhook_event m \<noteq> None \<and> am_webhook_event b = am_webhook_event m then 0 else 1)
      in ra < rb \<or> ra = rb \<and>
         (ar_created_at a < ar_created_at b \<or> ar_created_at a = ar_created_at b \<and> ar_id a \<le> ar_id b))"

fun earliest_mention :: "ask_mention \<Rightarrow> ask_row list \<Rightarrow> ask_row option" where
  "earliest_mention m [] = None"
| "earliest_mention m (a # as) =
     (case earliest_mention m as of
        None \<Rightarrow> Some a
      | Some b \<Rightarrow> if mention_before m a b then Some a else Some b)"

definition find_retained_ask_for_mention :: "ask_mention \<Rightarrow> ask_row list \<Rightarrow> ask_row option" where
  "find_retained_ask_for_mention m asks = earliest_mention m (filter (same_mention m) asks)"

datatype ask_admission =
    AskRetained item_id "string option"
  | AskAdmitted item_id bool int
  | AskThrottled quota_rejection

text \<open>\<open>create\<close> is \<open>createAskWorkItem\<close>: it answers the identity of the work item and whether it is new.\<close>

definition admit_ask ::
  "ask_row list \<Rightarrow> (item_id \<Rightarrow> (quota_db, item_id \<times> bool) prog) \<Rightarrow> quota_config \<Rightarrow> int \<Rightarrow> ask_mention \<Rightarrow>
   ask_request \<Rightarrow> (quota_db, ask_admission) prog" where
  "admit_ask asks create cfg js m q =
     (case find_retained_ask_for_mention m asks of
        Some a \<Rightarrow> returnP (AskRetained (ar_id a) (am_webhook_event a))
      | None \<Rightarrow>
          bindP (reserve_ask_quota cfg js q) (\<lambda>reservation.
            case reservation of
              Throttled reason \<Rightarrow> returnP (AskThrottled reason)
            | Admitted n \<Rightarrow>
                bindP (create (aq_item q)) (\<lambda>(id, created).
                  thenP (whenP (\<not> created) (release_ask_quota_reservation (aq_item q)))
                    (returnP (AskAdmitted id created n)))))"

subsection \<open>The buckets as a map\<close>

lemma bucket_key_frame [simp]:
  "bucket_key (b\<lparr>qb_tokens := x\<rparr>) = bucket_key b" "bucket_key (b\<lparr>qb_last_refill := t\<rparr>) = bucket_key b"
  "bucket_key (b\<lparr>qb_outstanding := n\<rparr>) = bucket_key b" "bucket_key (b\<lparr>qb_used := n\<rparr>) = bucket_key b"
  "bucket_key (b\<lparr>qb_reserved := n\<rparr>) = bucket_key b" "bucket_key (b\<lparr>qb_window := t\<rparr>) = bucket_key b"
  "bucket_key (b\<lparr>qb_updated := t\<rparr>) = bucket_key b"
  by (simp_all add: bucket_key_def)

lemma bucket_at_update [simp]:
  assumes "\<And>b. bucket_key (f b) = bucket_key b"
  shows "bucket_at (update_bucket sc k f d) sc' k' =
    (if sc' = sc \<and> k' = k then map_option f (bucket_at d sc k) else bucket_at d sc' k')"
proof -
  have "bucket_at (update_bucket sc k f d) sc' k' =
      map_option (\<lambda>b. if bucket_key b = (sc, k) then f b else b) (bucket_at d sc' k')"
    using row_at_update_where [of "\<lambda>b. bucket_key b = (sc, k)" bucket_key f] assms
    by (simp add: bucket_at_def update_bucket_def)
  then show ?thesis by (cases "bucket_at d sc' k'") (auto simp: bucket_at_def dest: row_at_SomeD)
qed

lemma bucket_keyD: "bucket_at d sc k = Some b \<Longrightarrow> b \<in> set (buckets d) \<and> qb_scope b = sc \<and> qb_key b = k"
  by (auto simp: bucket_at_def bucket_key_def dest: row_at_SomeD)

lemma update_bucket_frame [simp]:
  "reservations (update_bucket sc k f d) = reservations d"
  "receipts (update_bucket sc k f d) = receipts d"
  "qclock (update_bucket sc k f d) = qclock d"
  by (simp_all add: update_bucket_def)

lemma bucket_at_frame [simp]:
  "bucket_at (d\<lparr>reservations := rs\<rparr>) sc k = bucket_at d sc k"
  "bucket_at (d\<lparr>receipts := cs\<rparr>) sc k = bucket_at d sc k"
  "bucket_at (d\<lparr>qclock := t\<rparr>) sc k = bucket_at d sc k"
  by (simp_all add: bucket_at_def)

lemma bucket_at_update_reservation [simp]: "bucket_at (update_reservation i f d) sc k = bucket_at d sc k"
  by (simp add: update_reservation_def)

lemma update_reservation_frame [simp]:
  "buckets (update_reservation i f d) = buckets d"
  "receipts (update_reservation i f d) = receipts d"
  "qclock (update_reservation i f d) = qclock d"
  by (simp_all add: update_reservation_def)

definition new_bucket :: "quota_db \<Rightarrow> quota_scope_params \<Rightarrow> quota_bucket" where
  "new_bucket d sp = \<lparr>qb_scope = sp_scope sp, qb_key = sp_key sp, qb_tokens = of_int (sp_burst sp),
     qb_last_refill = qclock d, qb_outstanding = 0, qb_used = 0, qb_reserved = 0,
     qb_window = qclock d, qb_updated = qclock d\<rparr>"

definition stored :: "quota_db \<Rightarrow> quota_scope_params \<Rightarrow> quota_bucket" where
  "stored d sp = (case bucket_at d (sp_scope sp) (sp_key sp) of None \<Rightarrow> new_bucket d sp | Some b \<Rightarrow> b)"

lemma insert_missing_at:
  "bucket_at (insert_missing_bucket sp d) sc k =
     (if sc = sp_scope sp \<and> k = sp_key sp then Some (stored d sp) else bucket_at d sc k)"
  by (auto simp: insert_missing_bucket_def stored_def new_bucket_def bucket_at_def row_at_append row_at_simps
      bucket_key_def split: option.splits)

lemma insert_missing_frame [simp]:
  "reservations (insert_missing_bucket sp d) = reservations d"
  "receipts (insert_missing_bucket sp d) = receipts d"
  "qclock (insert_missing_bucket sp d) = qclock d"
  by (simp_all add: insert_missing_bucket_def split: option.splits)

text \<open>The bucket that a lock returns, and the row that it leaves.\<close>

definition locked :: "quota_config \<Rightarrow> int \<Rightarrow> quota_db \<Rightarrow> quota_scope_params \<Rightarrow> quota_bucket" where
  "locked cfg js d sp = refill cfg js sp (stored d sp)"

definition locked_row :: "quota_config \<Rightarrow> int \<Rightarrow> quota_db \<Rightarrow> quota_scope_params \<Rightarrow> quota_bucket" where
  "locked_row cfg js d sp = (locked cfg js d sp)\<lparr>qb_last_refill := qclock d, qb_updated := qclock d\<rparr>"

lemma lock_and_refill_result:
  obtains d' where "lock_and_refill_bucket cfg js sp d = (Inr (locked cfg js d sp), d')"
    and "\<And>sc k. bucket_at d' sc k =
      (if sc = sp_scope sp \<and> k = sp_key sp then Some (locked_row cfg js d sp) else bucket_at d sc k)"
    and "reservations d' = reservations d" and "receipts d' = receipts d" and "qclock d' = qclock d"
    and "uniq bucket_key (buckets d) \<Longrightarrow> uniq bucket_key (buckets d')"
proof
  let ?b = "locked cfg js d sp"
  let ?f = "\<lambda>r. r\<lparr>qb_tokens := qb_tokens ?b, qb_last_refill := qclock d, qb_used := qb_used ?b,
              qb_window := qb_window ?b, qb_updated := qclock d\<rparr>"
  let ?d' = "update_bucket (sp_scope sp) (sp_key sp) ?f (insert_missing_bucket sp d)"
  have key: "\<And>b. bucket_key (?f b) = bucket_key b" by simp
  show "lock_and_refill_bucket cfg js sp d = (Inr ?b, ?d')"
    by (simp add: lock_and_refill_bucket_def insert_missing_at locked_def Let_def)
  show "bucket_at ?d' sc k = (if sc = sp_scope sp \<and> k = sp_key sp then Some (locked_row cfg js d sp)
      else bucket_at d sc k)" for sc k
    by (subst bucket_at_update [OF key]) (auto simp: insert_missing_at locked_row_def locked_def refill_def)
  show "uniq bucket_key (buckets ?d')" if "uniq bucket_key (buckets d)"
  proof -
    have "uniq bucket_key (buckets (insert_missing_bucket sp d))"
      using that by (auto simp: insert_missing_bucket_def bucket_at_def bucket_key_def
          intro!: uniq_append_new split: option.splits)
    then show ?thesis by (simp add: update_bucket_def uniq_update_where)
  qed
qed simp_all

subsection \<open>What a reservation does\<close>

definition scope_sp :: "quota_config \<Rightarrow> ask_request \<Rightarrow> quota_scope \<Rightarrow> quota_scope_params" where
  "scope_sp cfg q sc = (case sc of
      ScopeInstallation \<Rightarrow> scope_params cfg q ! 0
    | ScopeRepository \<Rightarrow> scope_params cfg q ! 1
    | ScopeActor \<Rightarrow> scope_params cfg q ! 2)"

lemma scope_params_eq:
  "scope_params cfg q = [scope_sp cfg q ScopeInstallation, scope_sp cfg q ScopeRepository, scope_sp cfg q ScopeActor]"
  by (simp add: scope_sp_def scope_params_def)

lemma sp_scope_sp [simp]: "sp_scope (scope_sp cfg q sc) = sc"
  by (cases sc) (simp_all add: scope_sp_def scope_params_def)

lemma sp_key_installation: "sp_key (scope_sp cfg q ScopeInstallation) = installation_scope_key (aq_installation q)"
  by (simp add: scope_sp_def scope_params_def)

lemma scope_key_new: "scope_key_of sc (new_reservation q n) = sp_key (scope_sp cfg q sc)"
  by (cases sc) (simp_all add: scope_sp_def scope_params_def new_reservation_def)

abbreviation held_bucket :: "quota_config \<Rightarrow> int \<Rightarrow> quota_db \<Rightarrow> ask_request \<Rightarrow> quota_scope \<Rightarrow> quota_bucket" where
  "held_bucket cfg js d q sc \<equiv> locked cfg js d (scope_sp cfg q sc)"

lemma locked_cong:
  "bucket_at d' (sp_scope sp) (sp_key sp) = bucket_at d (sp_scope sp) (sp_key sp) \<Longrightarrow> qclock d' = qclock d \<Longrightarrow>
     locked cfg js d' sp = locked cfg js d sp \<and> locked_row cfg js d' sp = locked_row cfg js d sp"
  by (simp add: locked_def locked_row_def stored_def new_bucket_def split: option.splits)

lemma qb_scope_locked [simp]: "qb_scope (locked cfg js d sp) = sp_scope sp"
  by (auto simp: locked_def refill_def stored_def new_bucket_def dest: bucket_keyD split: option.splits)

text \<open>The rows after all three locks.\<close>

lemma lock_buckets_result:
  obtains d' where "lock_buckets cfg js (scope_params cfg q) bucket_lock_order d =
      (Inr [held_bucket cfg js d q ScopeInstallation, held_bucket cfg js d q ScopeRepository,
            held_bucket cfg js d q ScopeActor], d')"
    and "\<And>sc k. bucket_at d' sc k =
      (if k = sp_key (scope_sp cfg q sc) then Some (locked_row cfg js d (scope_sp cfg q sc)) else bucket_at d sc k)"
    and "reservations d' = reservations d" and "receipts d' = receipts d" and "qclock d' = qclock d"
    and "uniq bucket_key (buckets d) \<Longrightarrow> uniq bucket_key (buckets d')"
proof -
  let ?sp = "scope_sp cfg q"
  obtain d1 where d1: "lock_and_refill_bucket cfg js (?sp ScopeInstallation) d =
      (Inr (locked cfg js d (?sp ScopeInstallation)), d1)"
    "\<And>sc k. bucket_at d1 sc k = (if sc = ScopeInstallation \<and> k = sp_key (?sp ScopeInstallation)
       then Some (locked_row cfg js d (?sp ScopeInstallation)) else bucket_at d sc k)"
    "reservations d1 = reservations d" "receipts d1 = receipts d" "qclock d1 = qclock d"
    "uniq bucket_key (buckets d) \<Longrightarrow> uniq bucket_key (buckets d1)"
    using lock_and_refill_result [of cfg js "?sp ScopeInstallation" d] by (metis sp_scope_sp)
  obtain d2 where d2: "lock_and_refill_bucket cfg js (?sp ScopeRepository) d1 =
      (Inr (locked cfg js d1 (?sp ScopeRepository)), d2)"
    "\<And>sc k. bucket_at d2 sc k = (if sc = ScopeRepository \<and> k = sp_key (?sp ScopeRepository)
       then Some (locked_row cfg js d1 (?sp ScopeRepository)) else bucket_at d1 sc k)"
    "reservations d2 = reservations d1" "receipts d2 = receipts d1" "qclock d2 = qclock d1"
    "uniq bucket_key (buckets d1) \<Longrightarrow> uniq bucket_key (buckets d2)"
    using lock_and_refill_result [of cfg js "?sp ScopeRepository" d1] by (metis sp_scope_sp)
  obtain d3 where d3: "lock_and_refill_bucket cfg js (?sp ScopeActor) d2 =
      (Inr (locked cfg js d2 (?sp ScopeActor)), d3)"
    "\<And>sc k. bucket_at d3 sc k = (if sc = ScopeActor \<and> k = sp_key (?sp ScopeActor)
       then Some (locked_row cfg js d2 (?sp ScopeActor)) else bucket_at d2 sc k)"
    "reservations d3 = reservations d2" "receipts d3 = receipts d2" "qclock d3 = qclock d2"
    "uniq bucket_key (buckets d2) \<Longrightarrow> uniq bucket_key (buckets d3)"
    using lock_and_refill_result [of cfg js "?sp ScopeActor" d2] by (metis sp_scope_sp)
  have repo: "locked cfg js d1 (?sp ScopeRepository) = held_bucket cfg js d q ScopeRepository"
    "locked_row cfg js d1 (?sp ScopeRepository) = locked_row cfg js d (?sp ScopeRepository)"
    using locked_cong [of d1 "?sp ScopeRepository" d cfg js] d1(2,5) by auto
  have actor: "locked cfg js d2 (?sp ScopeActor) = held_bucket cfg js d q ScopeActor"
    "locked_row cfg js d2 (?sp ScopeActor) = locked_row cfg js d (?sp ScopeActor)"
    using locked_cong [of d2 "?sp ScopeActor" d cfg js] d1(2,5) d2(2,5) by auto
  show thesis
  proof (rule that [of d3])
    show "lock_buckets cfg js (scope_params cfg q) bucket_lock_order d =
      (Inr [held_bucket cfg js d q ScopeInstallation, held_bucket cfg js d q ScopeRepository,
            held_bucket cfg js d q ScopeActor], d3)"
      by (simp add: scope_params_eq bucket_lock_order_def bindP_def returnP_def d1(1) d2(1) d3(1) repo(1) actor(1))
    show "bucket_at d3 sc k = (if k = sp_key (?sp sc) then Some (locked_row cfg js d (?sp sc)) else bucket_at d sc k)"
      for sc k
      by (cases sc) (simp_all add: d1(2) d2(2) d3(2) repo(2) actor(2))
  qed (use d1 d2 d3 in auto)
qed

definition charged_row :: "quota_config \<Rightarrow> int \<Rightarrow> quota_db \<Rightarrow> ask_request \<Rightarrow> quota_scope \<Rightarrow> quota_bucket" where
  "charged_row cfg js d q sc =
     (let b = locked_row cfg js d (scope_sp cfg q sc)
      in b\<lparr>qb_tokens := qb_tokens b - 1, qb_outstanding := qb_outstanding b + 1,
           qb_reserved := (if sc = ScopeInstallation \<and> 0 < reservation_tokens cfg
                           then qb_reserved b + reservation_tokens cfg else qb_reserved b)\<rparr>)"

definition admissible :: "quota_config \<Rightarrow> int \<Rightarrow> quota_db \<Rightarrow> ask_request \<Rightarrow> bool" where
  "admissible cfg js d q \<longleftrightarrow>
     (\<forall>sc. qb_outstanding (held_bucket cfg js d q sc) < sp_max_outstanding (scope_sp cfg q sc) \<and>
           1 \<le> qb_tokens (held_bucket cfg js d q sc)) \<and>
     \<not> over_provider_budget cfg (held_bucket cfg js d q ScopeInstallation)"

lemma all_scopes: "(\<forall>sc. P sc) \<longleftrightarrow> P ScopeActor \<and> P ScopeRepository \<and> P ScopeInstallation"
  by (metis quota_scope.exhaust)

abbreviation held_buckets :: "quota_config \<Rightarrow> int \<Rightarrow> quota_db \<Rightarrow> ask_request \<Rightarrow> quota_bucket list" where
  "held_buckets cfg js d q \<equiv> [held_bucket cfg js d q ScopeInstallation, held_bucket cfg js d q ScopeRepository,
     held_bucket cfg js d q ScopeActor]"

lemma bucket_by_scope_held: "bucket_by_scope (held_buckets cfg js d q) sc = Inr (held_bucket cfg js d q sc)"
  by (cases sc) (simp_all add: bucket_by_scope_def)

definition first_rejection :: "quota_config \<Rightarrow> int \<Rightarrow> quota_db \<Rightarrow> ask_request \<Rightarrow> quota_scope \<Rightarrow> quota_rejection option" where
  "first_rejection cfg js d q sc =
     (if sp_max_outstanding (scope_sp cfg q sc) \<le> qb_outstanding (held_bucket cfg js d q sc) then Some (Outstanding sc)
      else if qb_tokens (held_bucket cfg js d q sc) < 1 then Some (Rate sc) else None)"

lemma find_scope: "find (\<lambda>p. sp_scope p = sc) (scope_params cfg q) = Some (scope_sp cfg q sc)"
  by (cases sc) (simp_all add: scope_params_eq)

lemma check_admission_Cons:
  "check_admission (scope_params cfg q) (held_buckets cfg js d q) (sc # scs) =
     (case first_rejection cfg js d q sc of
        Some r \<Rightarrow> Inr (Some r)
      | None \<Rightarrow> check_admission (scope_params cfg q) (held_buckets cfg js d q) scs)"
  by (simp add: find_scope bucket_by_scope_held first_rejection_def del: list.inject)

lemma check_admission_held:
  "check_admission (scope_params cfg q) (held_buckets cfg js d q) admission_check_order =
     (case first_rejection cfg js d q ScopeActor of Some r \<Rightarrow> Inr (Some r)
      | None \<Rightarrow> (case first_rejection cfg js d q ScopeRepository of Some r \<Rightarrow> Inr (Some r)
      | None \<Rightarrow> Inr (first_rejection cfg js d q ScopeInstallation)))"
  unfolding admission_check_order_def check_admission_Cons
  by (simp split: option.split)

lemma update_at_held:
  assumes "\<And>b. bucket_key (f b) = bucket_key b"
  shows "bucket_at (update_bucket sc (sp_key (scope_sp cfg q sc)) f d) sc' k =
    (if sc' = sc \<and> k = sp_key (scope_sp cfg q sc) then map_option f (bucket_at d sc k) else bucket_at d sc' k)"
  using assms by (subst bucket_at_update) auto

lemma uniq_update_bucket:
  "(\<And>b. bucket_key (f b) = bucket_key b) \<Longrightarrow> uniq bucket_key (buckets d) \<Longrightarrow>
     uniq bucket_key (buckets (update_bucket sc k f d))"
  by (simp add: update_bucket_def uniq_update_where)

lemma charge_buckets_result:
  assumes "\<And>sc. bucket_at d1 sc (sp_key (scope_sp cfg q sc)) = Some (row sc)"
  obtains d2 where "charge_buckets (scope_params cfg q) (held_buckets cfg js d q) d1 = (Inr (), d2)"
    and "\<And>sc k. bucket_at d2 sc k =
      (if k = sp_key (scope_sp cfg q sc)
       then Some ((row sc)\<lparr>qb_tokens := qb_tokens (held_bucket cfg js d q sc) - 1,
                           qb_outstanding := qb_outstanding (row sc) + 1, qb_updated := qclock d1\<rparr>)
       else bucket_at d1 sc k)"
    and "reservations d2 = reservations d1" and "receipts d2 = receipts d1" and "qclock d2 = qclock d1"
    and "uniq bucket_key (buckets d1) \<Longrightarrow> uniq bucket_key (buckets d2)"
proof -
  let ?f = "\<lambda>sc r. r\<lparr>qb_tokens := qb_tokens (held_bucket cfg js d q sc) - 1, qb_outstanding := qb_outstanding r + 1,
              qb_updated := qclock d1\<rparr>"
  let ?u = "\<lambda>sc. update_bucket sc (sp_key (scope_sp cfg q sc)) (?f sc)"
  have key: "bucket_key (?f sc b) = bucket_key b" for sc b by simp
  let ?d2 = "?u ScopeActor (?u ScopeRepository (?u ScopeInstallation d1))"
  show thesis
  proof (rule that [of ?d2])
    show "charge_buckets (scope_params cfg q) (held_buckets cfg js d q) d1 = (Inr (), ?d2)"
      by (simp add: scope_params_eq bucket_by_scope_held thenP_def bindP_def stepP_def returnP_def)
    show "bucket_at ?d2 sc k = (if k = sp_key (scope_sp cfg q sc) then Some (?f sc (row sc)) else bucket_at d1 sc k)"
      for sc k
      by (cases sc) (auto simp: update_at_held key assms simp del: bucket_at_update)
    show "uniq bucket_key (buckets ?d2)" if "uniq bucket_key (buckets d1)"
      by (intro uniq_update_bucket key that)
  qed simp_all
qed

lemma reserve_tokens_result:
  "bucket_at (reserve_provider_tokens q n d) sc k =
     (if 0 < n \<and> sc = ScopeInstallation \<and> k = installation_scope_key (aq_installation q)
      then map_option (\<lambda>r. r\<lparr>qb_reserved := qb_reserved r + n, qb_updated := qclock d\<rparr>) (bucket_at d sc k)
      else bucket_at d sc k)"
  "reservations (reserve_provider_tokens q n d) = reservations d"
  "receipts (reserve_provider_tokens q n d) = receipts d"
  "qclock (reserve_provider_tokens q n d) = qclock d"
  "uniq bucket_key (buckets d) \<Longrightarrow> uniq bucket_key (buckets (reserve_provider_tokens q n d))"
  by (auto simp: reserve_provider_tokens_def uniq_update_bucket)

lemma reserve_cases [consumes 1, case_names Throttled Admitted Duplicate]:
  assumes "reserve_ask_quota cfg js q d = (res, d')"
  obtains (Throttled) reason where "\<not> admissible cfg js d q" "res = Inr (Throttled reason)"
      "\<And>sc k. bucket_at d' sc k =
        (if k = sp_key (scope_sp cfg q sc) then Some (locked_row cfg js d (scope_sp cfg q sc)) else bucket_at d sc k)"
      "reservations d' = reservations d" "receipts d' = receipts d" "qclock d' = qclock d"
      "uniq bucket_key (buckets d) \<Longrightarrow> uniq bucket_key (buckets d')"
  | (Admitted) "admissible cfg js d q" "reservation_at d (aq_item q) = None"
      "res = Inr (Admitted (reservation_tokens cfg))"
      "\<And>sc k. bucket_at d' sc k =
        (if k = sp_key (scope_sp cfg q sc) then Some (charged_row cfg js d q sc) else bucket_at d sc k)"
      "reservations d' = reservations d @ [new_reservation q (reservation_tokens cfg)]"
      "receipts d' = receipts d" "qclock d' = qclock d"
      "uniq bucket_key (buckets d) \<Longrightarrow> uniq bucket_key (buckets d')"
  | (Duplicate) "admissible cfg js d q" "reservation_at d (aq_item q) \<noteq> None"
      "res = Inl (PlainError ''duplicate key value'')"
proof -
  obtain d1 where d1: "lock_buckets cfg js (scope_params cfg q) bucket_lock_order d = (Inr (held_buckets cfg js d q), d1)"
    "\<And>sc k. bucket_at d1 sc k =
      (if k = sp_key (scope_sp cfg q sc) then Some (locked_row cfg js d (scope_sp cfg q sc)) else bucket_at d sc k)"
    "reservations d1 = reservations d" "receipts d1 = receipts d" "qclock d1 = qclock d"
    "uniq bucket_key (buckets d) \<Longrightarrow> uniq bucket_key (buckets d1)"
    using lock_buckets_result [of cfg js q d] by metis
  note unfolded = assms [unfolded reserve_ask_quota_def Let_def bindP_def d1(1)]
  have adm: "admissible cfg js d q \<longleftrightarrow>
      check_admission (scope_params cfg q) (held_buckets cfg js d q) admission_check_order = Inr None \<and>
      \<not> over_provider_budget cfg (held_bucket cfg js d q ScopeInstallation)"
    by (auto simp: admissible_def all_scopes check_admission_held first_rejection_def split: option.splits if_splits)
  obtain rej where rej: "check_admission (scope_params cfg q) (held_buckets cfg js d q) admission_check_order = Inr rej"
    by (cases "first_rejection cfg js d q ScopeActor"; cases "first_rejection cfg js d q ScopeRepository")
      (auto simp: check_admission_held)
  show thesis
  proof (cases "admissible cfg js d q")
    case False
    then obtain reason where "res = Inr (Throttled reason)" and "d' = d1"
      using unfolded rej adm by (cases rej) (auto simp: bucket_by_scope_held returnP_def)
    with False d1 show thesis by (intro Throttled [of reason]) auto
  next
    case True
    have rows: "bucket_at d1 sc (sp_key (scope_sp cfg q sc)) = Some (locked_row cfg js d (scope_sp cfg q sc))" for sc
      by (simp add: d1(2))
    obtain d2 where d2: "charge_buckets (scope_params cfg q) (held_buckets cfg js d q) d1 = (Inr (), d2)"
      "\<And>sc k. bucket_at d2 sc k =
        (if k = sp_key (scope_sp cfg q sc)
         then Some ((locked_row cfg js d (scope_sp cfg q sc))
                \<lparr>qb_tokens := qb_tokens (held_bucket cfg js d q sc) - 1,
                 qb_outstanding := qb_outstanding (locked_row cfg js d (scope_sp cfg q sc)) + 1,
                 qb_updated := qclock d1\<rparr>)
         else bucket_at d1 sc k)"
      "reservations d2 = reservations d1" "receipts d2 = receipts d1" "qclock d2 = qclock d1"
      "uniq bucket_key (buckets d1) \<Longrightarrow> uniq bucket_key (buckets d2)"
      using charge_buckets_result [of d1 cfg q, OF rows, of js d] by metis
    let ?d3 = "reserve_provider_tokens q (reservation_tokens cfg) d2"
    have end_state: "(res, d') = thenP (insert_reservation q (reservation_tokens cfg))
        (returnP (Admitted (reservation_tokens cfg))) ?d3"
      using unfolded True adm rej by (simp add: bucket_by_scope_held thenP_def bindP_def stepP_def d2(1))
    have at3: "reservation_at ?d3 (aq_item q) = reservation_at d (aq_item q)"
      by (simp add: reservation_at_def reserve_tokens_result d2 d1)
    show thesis
    proof (cases "reservation_at d (aq_item q)")
      case None
      then have res: "res = Inr (Admitted (reservation_tokens cfg))"
        and d': "d' = ?d3\<lparr>reservations := reservations ?d3 @ [new_reservation q (reservation_tokens cfg)]\<rparr>"
        using end_state at3 by (simp_all add: insert_reservation_def thenP_def bindP_def returnP_def)
      show thesis
      proof (rule Admitted [OF True None res])
        show "bucket_at d' sc k = (if k = sp_key (scope_sp cfg q sc) then Some (charged_row cfg js d q sc)
            else bucket_at d sc k)" for sc k
          by (cases sc) (auto simp: d' reserve_tokens_result d2 d1 charged_row_def Let_def sp_key_installation
              locked_row_def)
      qed (use d' d1 d2 in \<open>auto simp: reserve_tokens_result\<close>)
    next
      case (Some r)
      then show thesis using True end_state at3
        by (intro Duplicate) (auto simp: insert_reservation_def thenP_def bindP_def)
    qed
  qed
qed

subsection \<open>The ledger\<close>

definition live_unit :: "quota_scope \<Rightarrow> string \<Rightarrow> quota_reservation \<Rightarrow> int" where
  "live_unit sc k r = (if live r \<and> scope_key_of sc r = k then 1 else 0)"

definition live_tokens :: "string \<Rightarrow> quota_reservation \<Rightarrow> int" where
  "live_tokens k r = (if live r \<and> qr_installation r = k then qr_reserved r else 0)"

definition live_count :: "quota_scope \<Rightarrow> string \<Rightarrow> quota_db \<Rightarrow> int" where
  "live_count sc k d = sum_list (map (live_unit sc k) (reservations d))"

definition live_reserved :: "string \<Rightarrow> quota_db \<Rightarrow> int" where
  "live_reserved k d = sum_list (map (live_tokens k) (reservations d))"

definition outstanding_at :: "quota_db \<Rightarrow> quota_scope \<Rightarrow> string \<Rightarrow> int" where
  "outstanding_at d sc k = (case bucket_at d sc k of None \<Rightarrow> 0 | Some b \<Rightarrow> qb_outstanding b)"

definition reserved_at :: "quota_db \<Rightarrow> string \<Rightarrow> int" where
  "reserved_at d k = (case bucket_at d ScopeInstallation k of None \<Rightarrow> 0 | Some b \<Rightarrow> qb_reserved b)"

definition reservation_ok :: "quota_reservation \<Rightarrow> bool" where
  "reservation_ok r \<longleftrightarrow> 0 \<le> qr_reserved r \<and> (qr_known r \<or> \<not> live r \<longrightarrow> qr_reserved r = 0)"

definition ledger_ok :: "quota_db \<Rightarrow> bool" where
  "ledger_ok d \<longleftrightarrow> uniq bucket_key (buckets d) \<and> uniq qr_item (reservations d) \<and>
     (\<forall>r \<in> set (reservations d). reservation_ok r) \<and>
     (\<forall>sc k. outstanding_at d sc k = live_count sc k d) \<and>
     (\<forall>k. reserved_at d k = live_reserved k d)"

lemma live_count_nonneg: "0 \<le> live_count sc k d"
  by (auto simp: live_count_def live_unit_def intro!: sum_list_nonneg)

lemma live_reserved_nonneg: "ledger_ok d \<Longrightarrow> 0 \<le> live_reserved k d"
  by (auto simp: live_reserved_def live_tokens_def ledger_ok_def reservation_ok_def intro!: sum_list_nonneg)

lemma member_le_sum: "x \<in> set xs \<Longrightarrow> (\<And>y. y \<in> set xs \<Longrightarrow> 0 \<le> g y) \<Longrightarrow> (g x :: int) \<le> sum_list (map g xs)"
  by (induction xs) (fastforce intro: sum_list_nonneg add_increasing add_increasing2)+

lemma live_counted: "r \<in> set (reservations d) \<Longrightarrow> live r \<Longrightarrow> 1 \<le> live_count sc (scope_key_of sc r) d"
  using member_le_sum [of r "reservations d" "live_unit sc (scope_key_of sc r)"]
  by (simp add: live_count_def live_unit_def)

lemma live_tokens_counted:
  "ledger_ok d \<Longrightarrow> r \<in> set (reservations d) \<Longrightarrow> live r \<Longrightarrow> qr_reserved r \<le> live_reserved (qr_installation r) d"
  using member_le_sum [of r "reservations d" "live_tokens (qr_installation r)"]
  by (auto simp: live_reserved_def live_tokens_def ledger_ok_def reservation_ok_def)

text \<open>The bucket of a live reservation exists.\<close>

lemma live_bucket:
  assumes "ledger_ok d" and "r \<in> set (reservations d)" and "live r"
  shows "\<exists>b. bucket_at d sc (scope_key_of sc r) = Some b \<and> 1 \<le> qb_outstanding b"
proof -
  have "outstanding_at d sc (scope_key_of sc r) = live_count sc (scope_key_of sc r) d"
    using assms(1) by (simp add: ledger_ok_def)
  with live_counted [OF assms(2,3), of sc] show ?thesis
    by (auto simp: outstanding_at_def split: option.splits)
qed

lemma live_installation:
  assumes "ledger_ok d" and "r \<in> set (reservations d)" and "live r"
  obtains b where "bucket_at d ScopeInstallation (qr_installation r) = Some b" and "1 \<le> qb_outstanding b"
    and "qr_reserved r \<le> qb_reserved b"
proof -
  obtain b where b: "bucket_at d ScopeInstallation (qr_installation r) = Some b" "1 \<le> qb_outstanding b"
    using live_bucket [OF assms, of ScopeInstallation] by auto
  moreover have "reserved_at d (qr_installation r) = live_reserved (qr_installation r) d"
    using assms(1) by (simp add: ledger_ok_def)
  ultimately show thesis using that live_tokens_counted [OF assms] by (simp add: reserved_at_def)
qed

lemma outstanding_locked [simp]:
  "qb_outstanding (locked cfg js d sp) = outstanding_at d (sp_scope sp) (sp_key sp)"
  "qb_outstanding (locked_row cfg js d sp) = outstanding_at d (sp_scope sp) (sp_key sp)"
  "qb_reserved (locked_row cfg js d sp) = (case bucket_at d (sp_scope sp) (sp_key sp) of None \<Rightarrow> 0 | Some b \<Rightarrow> qb_reserved b)"
  by (simp_all add: locked_row_def locked_def refill_def stored_def new_bucket_def outstanding_at_def split: option.split)

lemma ledger_lock:
  assumes "ledger_ok d"
    and "\<And>sc k. bucket_at d' sc k =
      (if k = sp_key (scope_sp cfg q sc) then Some (locked_row cfg js d (scope_sp cfg q sc)) else bucket_at d sc k)"
    and "reservations d' = reservations d" and "uniq bucket_key (buckets d')"
  shows "ledger_ok d'"
proof -
  have "outstanding_at d' sc k = outstanding_at d sc k" for sc k
    by (simp add: outstanding_at_def [of d'] assms(2)) (simp add: outstanding_at_def)
  moreover have "reserved_at d' k = reserved_at d k" for k
    by (simp add: reserved_at_def assms(2))
  ultimately show ?thesis using assms by (simp add: ledger_ok_def live_count_def live_reserved_def)
qed

lemma ledger_reserve:
  assumes "ledger_ok d" and "reserve_ask_quota cfg js q d = (Inr a, d')" and "0 \<le> qc_provider_reservation_tokens cfg"
  shows "ledger_ok d'"
  using assms(2)
proof (cases rule: reserve_cases)
  case (Throttled reason)
  then show ?thesis using ledger_lock [OF assms(1) Throttled(3)] assms(1) by (simp add: ledger_ok_def)
next
  case Admitted
  let ?n = "reservation_tokens cfg"
  have n: "0 \<le> ?n" using assms(3) by (simp add: reservation_tokens_def)
  have live_new: "live (new_reservation q ?n)" by (simp add: live_def new_reservation_def)
  have "outstanding_at d' sc k = outstanding_at d sc k + live_unit sc k (new_reservation q ?n)" for sc k
    by (simp add: outstanding_at_def [of d'] Admitted(4) charged_row_def Let_def live_unit_def live_new
        scope_key_new [of _ q ?n cfg])
      (simp add: outstanding_at_def)
  moreover have "reserved_at d' k = reserved_at d k + live_tokens k (new_reservation q ?n)" for k
    using n by (simp add: reserved_at_def Admitted(4) charged_row_def Let_def live_tokens_def
        sp_key_installation new_reservation_def live_def split: option.split)
  moreover have "uniq qr_item (reservations d')"
    using assms(1) Admitted(2) unfolding Admitted(5)
    by (intro uniq_append_new) (simp_all add: ledger_ok_def reservation_at_def new_reservation_def)
  moreover have "reservation_ok (new_reservation q ?n)"
    using n live_new by (simp add: reservation_ok_def new_reservation_def)
  ultimately show ?thesis using assms(1) Admitted(5,8)
    by (auto simp: ledger_ok_def live_count_def live_reserved_def)
next
  case Duplicate
  then show ?thesis by simp
qed

subsection \<open>Every operation keeps the ledger\<close>

lemma uniq_update_reservation:
  "uniq qr_item (reservations d) \<Longrightarrow> (\<And>r. qr_item (f r) = qr_item r) \<Longrightarrow>
     uniq qr_item (reservations (update_reservation i f d))"
  by (simp add: update_reservation_def uniq_update_where)

lemma live_count_update:
  assumes "uniq qr_item (reservations d)" and "reservation_at d i = Some r"
  shows "live_count sc k (update_reservation i f d) = live_count sc k d - live_unit sc k r + live_unit sc k (f r)"
    and "live_reserved k (update_reservation i f d) = live_reserved k d - live_tokens k r + live_tokens k (f r)"
  using sum_update_where [OF assms(1)] assms(2)
  by (simp_all add: live_count_def live_reserved_def update_reservation_def reservation_at_def)

lemma reservation_atD: "reservation_at d i = Some r \<Longrightarrow> r \<in> set (reservations d) \<and> qr_item r = i"
  by (auto simp: reservation_at_def dest: row_at_SomeD)

lemma update_reservation_ok:
  assumes "\<forall>x \<in> set (reservations d). reservation_ok x" and "uniq qr_item (reservations d)"
    and "reservation_at d i = Some r" and "reservation_ok (f r)"
  shows "\<forall>x \<in> set (reservations (update_reservation i f d)). reservation_ok x"
proof -
  have "x = r" if "x \<in> set (reservations d)" and "qr_item x = i" for x
    using uniq_row_at [OF assms(2) that(1)] assms(3) that(2) by (simp add: reservation_at_def)
  with assms(1,4) show ?thesis by (auto simp: update_reservation_def set_update_where)
qed

text \<open>The effect of a release on the buckets of the released reservation.\<close>

definition released_bucket :: "quota_reservation \<Rightarrow> time \<Rightarrow> int \<Rightarrow> quota_scope \<Rightarrow> quota_bucket \<Rightarrow> quota_bucket" where
  "released_bucket r t charge sc b = b\<lparr>qb_outstanding := max 0 (qb_outstanding b - 1),
     qb_reserved := (if sc = ScopeInstallation then max 0 (qb_reserved b - qr_reserved r) else qb_reserved b),
     qb_used := (if sc = ScopeInstallation then qb_used b + charge else qb_used b), qb_updated := t\<rparr>"

lemma ledger_released:
  assumes "ledger_ok d" and "reservation_at d i = Some r" and "live r"
    and "\<And>sc k. outstanding_at d' sc k =
      (if k = scope_key_of sc r then max 0 (outstanding_at d sc k - 1) else outstanding_at d sc k)"
    and "\<And>k. reserved_at d' k =
      (if k = qr_installation r then max 0 (reserved_at d k - qr_reserved r) else reserved_at d k)"
    and "reservations d' = reservations (update_reservation i f d) \<or>
      reservations d' = filter (\<lambda>x. \<not> (qr_item x = i \<and> qr_released x \<noteq> None)) (reservations (update_reservation i f d))"
    and "\<not> live (f r)" and "qr_item (f r) = i"
    and "reservation_ok (f r) \<or>
      reservations d' = filter (\<lambda>x. \<not> (qr_item x = i \<and> qr_released x \<noteq> None)) (reservations (update_reservation i f d))"
    and "\<And>x. qr_item (f x) = qr_item x" and "uniq bucket_key (buckets d')"
  shows "ledger_ok d'"
proof -
  let ?d1 = "update_reservation i f d"
  let ?keep = "\<lambda>x. \<not> (qr_item x = i \<and> qr_released x \<noteq> None)"
  have u: "uniq qr_item (reservations d)" and r: "r \<in> set (reservations d)"
    using assms(1) reservation_atD [OF assms(2)] by (simp_all add: ledger_ok_def)
  have units: "live_unit sc k (f r) = 0" "live_tokens k (f r) = 0" for sc k
    using assms(7) by (simp_all add: live_unit_def live_tokens_def)
  have dead: "\<not> ?keep x \<Longrightarrow> live_unit sc k x = 0 \<and> live_tokens k x = 0" for x sc k
    by (auto simp: live_unit_def live_tokens_def live_def)
  have counts: "live_count sc k d' = live_count sc k ?d1" "live_reserved k d' = live_reserved k ?d1" for sc k
  proof -
    have "sum_list (map (live_unit sc k) (filter ?keep xs)) = sum_list (map (live_unit sc k) xs)"
      "sum_list (map (live_tokens k) (filter ?keep xs)) = sum_list (map (live_tokens k) xs)" for xs
      using dead by (intro sum_list_map_filter; blast)+
    then show "live_count sc k d' = live_count sc k ?d1" "live_reserved k d' = live_reserved k ?d1"
      using assms(6) by (elim disjE; simp only: live_count_def live_reserved_def)+
  qed
  have out: "outstanding_at d' sc k = live_count sc k d'" for sc k
    using assms(1) live_counted [OF r assms(3), of sc]
    by (simp add: counts live_count_update [OF u assms(2)] units assms(4) ledger_ok_def)
      (auto simp: live_unit_def assms(3))
  have res: "reserved_at d' k = live_reserved k d'" for k
    using assms(1) live_tokens_counted [OF assms(1) r assms(3)]
    by (simp add: counts live_count_update [OF u assms(2)] units assms(5) ledger_ok_def)
      (auto simp: live_tokens_def assms(3))
  have uniq1: "uniq qr_item (reservations ?d1)" using uniq_update_reservation [OF u] assms(10) by blast
  then have uniq': "uniq qr_item (reservations d')"
    using assms(6) by (auto simp: uniq_def distinct_map_filter)
  have "reservation_ok x" if x: "x \<in> set (reservations d')" for x
  proof -
    have one: "y = r" if "y \<in> set (reservations d)" and "qr_item y = i" for y
      using uniq_row_at [OF u that(1)] assms(2) that(2) by (simp add: reservation_at_def)
    from x assms(6) have "x \<in> set (reservations ?d1)" by auto
    then consider "x \<in> set (reservations d)" "qr_item x \<noteq> i" | "x = f r"
      using one by (auto simp: update_reservation_def set_update_where split: if_splits)
    then show ?thesis
    proof cases
      case 2
      with assms(7,8,9) x show ?thesis by (auto simp: live_def)
    qed (use assms(1) in \<open>simp add: ledger_ok_def\<close>)
  qed
  with out res uniq' assms(11) show ?thesis by (simp add: ledger_ok_def)
qed

lemma at_release:
  assumes "ledger_ok d" and "r \<in> set (reservations d)" and "live r"
    and "\<And>sc k. bucket_at d' sc k =
      (if k = scope_key_of sc r then map_option (released_bucket r t charge sc) (bucket_at d sc k) else bucket_at d sc k)"
  shows "outstanding_at d' sc k =
      (if k = scope_key_of sc r then max 0 (outstanding_at d sc k - 1) else outstanding_at d sc k)"
    and "reserved_at d' k' =
      (if k' = qr_installation r then max 0 (reserved_at d k' - qr_reserved r) else reserved_at d k')"
  using live_bucket [OF assms(1-3), of sc] live_bucket [OF assms(1-3), of ScopeInstallation]
  by (auto simp: outstanding_at_def reserved_at_def assms(4) released_bucket_def split: option.split)

lemma ledger_trigger:
  assumes "ledger_ok d"
  shows "ledger_ok (release_trigger i d)"
proof (cases "reservation_at d i")
  case None
  then show ?thesis using assms by (simp add: release_trigger_def)
next
  case (Some r)
  show ?thesis
  proof (cases "qr_released r = None")
    case False
    then show ?thesis using assms Some by (simp add: release_trigger_def)
  next
    case True
    let ?f = "\<lambda>x. x\<lparr>qr_released := Some (qclock d), qr_reserved := 0, qr_unknown_charged := provider_charge r,
                qr_unknown_window := charged_window d r\<rparr>"
    have r: "r \<in> set (reservations d)" "qr_item r = i" using reservation_atD [OF Some] by auto
    have lv: "live r" using True by (simp add: live_def)
    have at: "bucket_at (release_trigger i d) sc k =
        (if k = scope_key_of sc r
         then map_option (released_bucket r (qclock d) (provider_charge r) sc) (bucket_at d sc k)
         else bucket_at d sc k)" for sc k
      by (cases sc) (auto simp: release_trigger_def Some True Let_def released_bucket_def
          intro!: arg_cong [where f = "\<lambda>g. map_option g _"])
    have "uniq bucket_key (buckets (release_trigger i d))"
      using assms by (simp add: release_trigger_def Some True Let_def ledger_ok_def uniq_update_bucket)
    with at_release [OF assms r(1) lv at] show ?thesis
      using assms r by (intro ledger_released [OF assms Some lv, of _ ?f])
        (simp_all add: release_trigger_def Some True Let_def live_def reservation_ok_def)
  qed
qed

lemma decrement_some:
  "bucket_at d sc k \<noteq> None \<Longrightarrow> decrement_outstanding sc k n d =
     (Inr (), update_bucket sc k (\<lambda>b. b\<lparr>qb_outstanding := max 0 (qb_outstanding b - 1),
        qb_reserved := max 0 (qb_reserved b - n), qb_updated := qclock d\<rparr>) d)"
  by (auto simp: decrement_outstanding_def)

lemma update_where_same: "(\<And>x. x \<in> set xs \<Longrightarrow> p x = q x) \<Longrightarrow> update_where p f xs = update_where q f xs"
  by (induction xs) auto

lemma max_zero_keep: "0 \<le> n \<Longrightarrow> max 0 (n - 0) = (n :: int)"
  by simp

text \<open>The release by the admission, on a live reservation: it succeeds, and the reservation is gone.\<close>

lemma release_result:
  assumes "ledger_ok d" and "reservation_at d i = Some r" and "live r"
  obtains d' where "release_ask_quota_reservation i d = (Inr (), d')"
    and "\<And>sc k. outstanding_at d' sc k =
      (if k = scope_key_of sc r then max 0 (outstanding_at d sc k - 1) else outstanding_at d sc k)"
    and "\<And>k. reserved_at d' k =
      (if k = qr_installation r then max 0 (reserved_at d k - qr_reserved r) else reserved_at d k)"
    and "reservations d' = filter (\<lambda>x. \<not> (qr_item x = i \<and> qr_released x \<noteq> None))
      (reservations (update_reservation i (\<lambda>x. x\<lparr>qr_released := Some (qclock d)\<rparr>) d))"
    and "uniq bucket_key (buckets d')" and "qclock d' = qclock d" and "receipts d' = receipts d"
    and "\<And>sc k. map_option qb_tokens (bucket_at d' sc k) = map_option qb_tokens (bucket_at d sc k) \<and>
      map_option qb_last_refill (bucket_at d' sc k) = map_option qb_last_refill (bucket_at d sc k)"
    and "\<And>sc k. bucket_at d' sc k = bucket_at d sc k \<or> map_option qb_updated (bucket_at d' sc k) = Some (qclock d)"
proof -
  have u: "uniq qr_item (reservations d)" and r: "r \<in> set (reservations d)" "qr_item r = i"
    using assms(1) reservation_atD [OF assms(2)] by (simp_all add: ledger_ok_def)
  have exist: "\<exists>b. bucket_at d sc (scope_key_of sc r) = Some b" for sc
    using live_bucket [OF assms(1) r(1) assms(3)] by blast
  have n: "number_value (qr_reserved r) = qr_reserved r"
    using assms(1) r by (auto simp: ledger_ok_def reservation_ok_def number_value_def)
  let ?g = "\<lambda>x. x\<lparr>qr_released := Some (qclock d)\<rparr>"
  have same: "d\<lparr>reservations := update_where (\<lambda>x. qr_item x = i \<and> qr_released x = None) ?g (reservations d)\<rparr> =
      update_reservation i ?g d"
  proof -
    have "qr_released x = None" if "x \<in> set (reservations d)" and "qr_item x = i" for x
      using uniq_row_at [OF u that(1)] assms(2,3) that(2) by (simp add: reservation_at_def live_def)
    then have "update_where (\<lambda>x. qr_item x = i \<and> qr_released x = None) ?g (reservations d) =
        update_where (\<lambda>x. qr_item x = i) ?g (reservations d)"
      by (intro update_where_same) auto
    then show ?thesis by (simp add: update_reservation_def)
  qed
  let ?h = "\<lambda>n b. b\<lparr>qb_outstanding := max 0 (qb_outstanding b - 1), qb_reserved := max 0 (qb_reserved b - n),
              qb_updated := qclock d\<rparr>"
  have key: "bucket_key (?h n b) = bucket_key b" for n b by simp
  let ?d1 = "update_reservation i ?g d"
  let ?d2 = "update_bucket ScopeInstallation (qr_installation r) (?h (qr_reserved r)) ?d1"
  let ?d3 = "update_bucket ScopeRepository (qr_repository r) (?h 0) ?d2"
  let ?d4 = "update_bucket ScopeActor (qr_actor r) (?h 0) ?d3"
  let ?d5 = "?d4\<lparr>reservations := filter (\<lambda>x. \<not> (qr_item x = i \<and> qr_released x \<noteq> None)) (reservations ?d4)\<rparr>"
  have some: "bucket_at ?d1 ScopeInstallation (qr_installation r) \<noteq> None"
    "bucket_at ?d2 ScopeRepository (qr_repository r) \<noteq> None" "bucket_at ?d3 ScopeActor (qr_actor r) \<noteq> None"
    using exist [of ScopeInstallation] exist [of ScopeRepository] exist [of ScopeActor]
    by auto
  have at: "bucket_at ?d5 sc k = (if k = scope_key_of sc r
      then map_option (?h (if sc = ScopeInstallation then qr_reserved r else 0)) (bucket_at d sc k)
      else bucket_at d sc k)" for sc k
    by (cases sc) (simp_all add: bucket_at_update [OF key])
  show thesis
  proof (rule that [of ?d5])
    show "release_ask_quota_reservation i d = (Inr (), ?d5)"
      using assms(2,3) same decrement_some [OF some(1), of "qr_reserved r"]
        decrement_some [OF some(2), of 0] decrement_some [OF some(3), of 0]
      by (simp add: release_ask_quota_reservation_def live_def n thenP_def bindP_def stepP_def)
    show "outstanding_at ?d5 sc k =
        (if k = scope_key_of sc r then max 0 (outstanding_at d sc k - 1) else outstanding_at d sc k)" for sc k
      using exist [of sc] unfolding outstanding_at_def at by (auto split: option.split)
    show "reserved_at ?d5 k =
        (if k = qr_installation r then max 0 (reserved_at d k - qr_reserved r) else reserved_at d k)" for k
      using exist [of ScopeInstallation] unfolding reserved_at_def at by (auto split: option.split)
    show "uniq bucket_key (buckets ?d5)"
      using assms(1) by (simp add: ledger_ok_def uniq_update_bucket)
    show "map_option qb_tokens (bucket_at ?d5 sc k) = map_option qb_tokens (bucket_at d sc k) \<and>
        map_option qb_last_refill (bucket_at ?d5 sc k) = map_option qb_last_refill (bucket_at d sc k)" for sc k
      unfolding at by (simp add: option.map_comp comp_def)
    show "bucket_at ?d5 sc k = bucket_at d sc k \<or> map_option qb_updated (bucket_at ?d5 sc k) = Some (qclock d)" for sc k
      unfolding at using exist [of sc] by auto
  qed simp_all
qed

lemma ledger_release:
  assumes "ledger_ok d"
  shows "ledger_ok (snd (release_ask_quota_reservation i d))"
proof (cases "reservation_at d i")
  case None
  then show ?thesis using assms by (simp add: release_ask_quota_reservation_def)
next
  case (Some r)
  show ?thesis
  proof (cases "live r")
    case False
    then show ?thesis using assms Some by (simp add: release_ask_quota_reservation_def live_def)
  next
    case True
    have i: "qr_item r = i" using reservation_atD [OF Some] by simp
    show ?thesis
    proof (rule release_result [OF assms Some True])
      fix d'
      assume d': "release_ask_quota_reservation i d = (Inr (), d')"
      and out: "\<And>sc k. outstanding_at d' sc k =
        (if k = scope_key_of sc r then max 0 (outstanding_at d sc k - 1) else outstanding_at d sc k)"
      and res: "\<And>k. reserved_at d' k =
        (if k = qr_installation r then max 0 (reserved_at d k - qr_reserved r) else reserved_at d k)"
      and rs: "reservations d' = filter (\<lambda>x. \<not> (qr_item x = i \<and> qr_released x \<noteq> None))
        (reservations (update_reservation i (\<lambda>x. x\<lparr>qr_released := Some (qclock d)\<rparr>) d))"
      and uq: "uniq bucket_key (buckets d')"
      have "ledger_ok d'"
        by (rule ledger_released [OF assms Some True out res _ _ _ _ _ uq,
            where f = "\<lambda>x. x\<lparr>qr_released := Some (qclock d)\<rparr>"]) (simp_all add: rs live_def i)
      then show ?thesis by (simp add: d')
    qed
  qed
qed

lemma application_release:
  assumes "reservation_ok r"
    and "bucket_application_for_receipt (number_value (qr_reserved r)) u (qr_known r) (qr_released r \<noteq> None) w n =
      Adjust rel delta"
  shows "rel = (if live r then qr_reserved r else 0)"
  using assms by (auto simp: bucket_application_for_receipt_def reservation_ok_def live_def number_value_def
      split: if_splits)

lemma ledger_receipt:
  assumes "ledger_ok d" and "reservation_at d i = Some r"
    and app: "app = bucket_application_for_receipt (number_value (qr_reserved r)) u (qr_known r)
      (qr_released r \<noteq> None) w n"
  shows "ledger_ok (apply_receipt i r actual app d)"
proof -
  have u: "uniq qr_item (reservations d)" and r: "r \<in> set (reservations d)" "reservation_ok r"
    and oks: "\<forall>x \<in> set (reservations d). reservation_ok x"
    using assms(1) reservation_atD [OF assms(2)] by (simp_all add: ledger_ok_def)
  show ?thesis
  proof (cases app)
    case ReceiptOnly
    then have dead: "\<not> live r"
      by (auto simp: app bucket_application_for_receipt_def live_def split: if_splits)
    let ?f = "\<lambda>x. x\<lparr>qr_known := True, qr_used := qr_used x + actual\<rparr>"
    have units: "live_unit sc k (?f r) = live_unit sc k r" "live_tokens k (?f r) = live_tokens k r" for sc k
      by (cases sc; simp add: live_unit_def live_tokens_def live_def)+
    have "reservation_ok (?f r)" using r(2) dead by (auto simp: reservation_ok_def live_def)
    then show ?thesis
      using assms(1) update_reservation_ok [OF oks u assms(2), of ?f] uniq_update_reservation [OF u, of ?f i]
      by (simp add: apply_receipt_def ReceiptOnly ledger_ok_def outstanding_at_def reserved_at_def
          live_count_update [OF u assms(2)] units)
  next
    case (Adjust rel delta)
    have rel: "rel = (if live r then qr_reserved r else 0)"
      using application_release [OF r(2), of u w n rel delta] app Adjust by simp
    let ?f = "\<lambda>x. x\<lparr>qr_known := True, qr_used := qr_used x + actual, qr_reserved := 0, qr_unknown_charged := 0\<rparr>"
    let ?g = "\<lambda>b. b\<lparr>qb_reserved := max 0 (qb_reserved b - rel), qb_used := max 0 (qb_used b + delta),
                qb_updated := qclock d\<rparr>"
    have key: "bucket_key (?g b) = bucket_key b" for b by simp
    have units: "live_unit sc k (?f r) = live_unit sc k r" "live_tokens k (?f r) = 0" for sc k
      by (cases sc; simp add: live_unit_def live_tokens_def live_def)+
    have fok: "reservation_ok (?f r)" by (simp add: reservation_ok_def)
    have counts: "live_count sc k (apply_receipt i r actual app d) = live_count sc k d"
      "live_reserved k (apply_receipt i r actual app d) = live_reserved k d - live_tokens k r" for sc k
      using live_count_update(1) [OF u assms(2), where f = ?f and sc = sc and k = k]
        live_count_update(2) [OF u assms(2), where f = ?f and k = k] units
      by (simp_all add: apply_receipt_def Adjust live_count_def live_reserved_def)
    have e: "apply_receipt i r actual app d =
        update_bucket ScopeInstallation (qr_installation r) ?g (update_reservation i ?f d)"
      by (simp add: apply_receipt_def Adjust)
    have out: "outstanding_at (apply_receipt i r actual app d) sc k = outstanding_at d sc k" for sc k
      by (simp add: e outstanding_at_def bucket_at_update [OF key] split: option.split)
    have "reserved_at (apply_receipt i r actual app d) k = reserved_at d k - live_tokens k r" for k
    proof -
      have total: "reserved_at d k = live_reserved k d" using assms(1) by (simp add: ledger_ok_def)
      then have "reserved_at (apply_receipt i r actual app d) k =
          (if k = qr_installation r then max 0 (reserved_at d k - rel) else reserved_at d k)"
        if "bucket_at d ScopeInstallation (qr_installation r) \<noteq> None \<or> rel = 0"
        using that live_reserved_nonneg [OF assms(1), of k]
        by (auto simp: e reserved_at_def bucket_at_update [OF key] split: option.splits)
      moreover have "bucket_at d ScopeInstallation (qr_installation r) \<noteq> None \<or> rel = 0"
        using rel live_installation [OF assms(1) r(1)] by fastforce
      ultimately show ?thesis
        using rel total live_reserved_nonneg [OF assms(1), of k] live_tokens_counted [OF assms(1) r(1)]
        by (auto simp: live_tokens_def)
    qed
    moreover have "uniq bucket_key (buckets (apply_receipt i r actual app d))"
      using assms(1) by (simp add: e ledger_ok_def uniq_update_bucket)
    ultimately show ?thesis
      using assms(1) out update_reservation_ok [OF oks u assms(2), of ?f, OF fok] uniq_update_reservation [OF u, of ?f i]
      by (simp add: ledger_ok_def counts)
        (simp add: e)
  qed
qed

lemma ledger_receipts [simp]: "ledger_ok (d\<lparr>receipts := cs\<rparr>) = ledger_ok d" "ledger_ok (d\<lparr>qclock := t\<rparr>) = ledger_ok d"
  by (simp_all add: ledger_ok_def outstanding_at_def reserved_at_def live_count_def live_reserved_def)

lemma ledger_usage:
  assumes "ledger_ok d"
  shows "ledger_ok (snd (record_ask_provider_usage i x usage d))"
proof -
  have "ledger_ok (snd (record_usage_body i x n d))" for n
  proof (cases "reservation_at d i")
    case None
    then show ?thesis using assms by (simp add: record_usage_body_def)
  next
    case (Some r)
    let ?d1 = "d\<lparr>receipts := receipts d @ [\<lparr>rc_item = i, rc_execution = x, rc_used = n\<rparr>]\<rparr>"
    have "ledger_ok ?d1" using assms by simp
    moreover have "reservation_at ?d1 i = Some r" using Some by (simp add: reservation_at_def)
    ultimately show ?thesis using assms Some ledger_receipt [of ?d1 i r]
      by (auto simp: record_usage_body_def Let_def split: option.splits)
  qed
  then show ?thesis using assms
    by (auto simp: record_ask_provider_usage_def returnP_def throwP_def in_transaction_def
        split: option.splits prod.splits sum.splits) (metis snd_conv)
qed

lemma filter_where_at:
  "row_at key k (filter (\<lambda>r. key r \<notin> K) rows) = (if k \<in> K then None else row_at key k rows)"
  by (induction rows) (auto simp: row_at_simps)

lemma expired_at:
  assumes "uniq bucket_key (buckets d)"
  shows "bucket_at (snd (delete_expired_batch retention n d)) sc k = bucket_at d sc k \<or>
    bucket_at (snd (delete_expired_batch retention n d)) sc k = None \<and>
      (\<exists>b. bucket_at d sc k = Some b \<and> expired_bucket retention d b)"
proof -
  let ?doomed = "take n (filter (expired_bucket retention d) (buckets d))"
  have at: "bucket_at (snd (delete_expired_batch retention n d)) sc k =
      (if (sc, k) \<in> bucket_key ` set ?doomed then None else bucket_at d sc k)"
    by (simp add: delete_expired_batch_def Let_def bucket_at_def filter_where_at)
  show ?thesis
  proof (cases "(sc, k) \<in> bucket_key ` set ?doomed")
    case True
    then obtain b where b: "b \<in> set ?doomed" "bucket_key b = (sc, k)" by auto
    then have "b \<in> set (buckets d)" "expired_bucket retention d b" using in_set_takeD by fastforce+
    then have "bucket_at d sc k = Some b" using uniq_row_at [OF assms, of b] b(2) by (simp add: bucket_at_def)
    with \<open>expired_bucket retention d b\<close> show ?thesis by (simp add: at)
  qed (simp add: at)
qed

lemma expired_frame:
  "reservations (snd (delete_expired_batch retention n d)) = reservations d"
  "receipts (snd (delete_expired_batch retention n d)) = receipts d"
  "qclock (snd (delete_expired_batch retention n d)) = qclock d"
  "uniq bucket_key (buckets d) \<Longrightarrow> uniq bucket_key (buckets (snd (delete_expired_batch retention n d)))"
  by (simp_all add: delete_expired_batch_def Let_def uniq_def distinct_map_filter)

lemma ledger_expire:
  assumes "ledger_ok d"
  shows "ledger_ok (snd (delete_expired_batch retention n d))"
proof -
  let ?d' = "snd (delete_expired_batch retention n d)"
  have u: "uniq bucket_key (buckets d)" using assms by (simp add: ledger_ok_def)
  have "outstanding_at ?d' sc k = outstanding_at d sc k" for sc k
    using expired_at [OF u, of retention n sc k] by (auto simp: outstanding_at_def expired_bucket_def)
  moreover have "reserved_at ?d' k = reserved_at d k" for k
    using expired_at [OF u, of retention n ScopeInstallation k] by (auto simp: reserved_at_def expired_bucket_def)
  ultimately show ?thesis using assms expired_frame
    by (simp add: ledger_ok_def live_count_def live_reserved_def)
qed

text \<open>The retention of work items: deleting a terminal item cascades to its reservation and receipts.\<close>

definition forget_item :: "item_id \<Rightarrow> quota_db \<Rightarrow> quota_db" where
  "forget_item i d =
     (if list_ex (\<lambda>r. qr_item r = i \<and> live r) (reservations d) then d
      else d\<lparr>reservations := filter (\<lambda>r. qr_item r \<noteq> i) (reservations d),
             receipts := filter (\<lambda>c. rc_item c \<noteq> i) (receipts d)\<rparr>)"

lemma ledger_forget:
  assumes "ledger_ok d"
  shows "ledger_ok (forget_item i d)"
proof (cases "list_ex (\<lambda>r. qr_item r = i \<and> live r) (reservations d)")
  case True
  then show ?thesis using assms by (simp add: forget_item_def)
next
  case False
  then have dead: "live_unit sc k r = 0" "live_tokens k r = 0"
    if "r \<in> set (reservations d)" and "\<not> qr_item r \<noteq> i" for r sc k
    using that by (auto simp: live_unit_def live_tokens_def list_ex_iff)
  have "live_count sc k (forget_item i d) = live_count sc k d" "live_reserved k (forget_item i d) = live_reserved k d" for sc k
    using sum_list_map_filter [of "reservations d" "\<lambda>r. qr_item r \<noteq> i" "live_unit sc k"]
      sum_list_map_filter [of "reservations d" "\<lambda>r. qr_item r \<noteq> i" "live_tokens k"] dead False
    by (simp_all add: live_count_def live_reserved_def forget_item_def)
  then show ?thesis using assms False
    by (simp add: ledger_ok_def outstanding_at_def reserved_at_def forget_item_def bucket_at_def uniq_def distinct_map_filter)
qed

subsection \<open>Sequences of operations\<close>

text \<open>
  The transactions that change the quota, as steps. The clock of the process that admits an ask may be
  ahead of the clock of the database or behind it by a skew in milliseconds.
\<close>

datatype quota_op =
    OpAdmit "ask_row list" "item_id \<Rightarrow> (quota_db, item_id \<times> bool) prog" int ask_mention ask_request
  | OpTerminal item_id
  | OpUsage item_id string "rat option"
  | OpExpire int nat
  | OpForget item_id
  | OpTick int

definition admit_result ::
  "quota_config \<Rightarrow> ask_row list \<Rightarrow> (item_id \<Rightarrow> (quota_db, item_id \<times> bool) prog) \<Rightarrow> int \<Rightarrow> ask_mention \<Rightarrow>
   ask_request \<Rightarrow> (quota_db, ask_admission) prog" where
  "admit_result cfg asks create skew m q d =
     in_transaction (admit_ask asks create cfg (millis (qclock d) + skew) m q) d"

fun quota_step :: "quota_config \<Rightarrow> quota_op \<Rightarrow> quota_db \<Rightarrow> quota_db" where
  "quota_step cfg (OpAdmit asks create skew m q) d = snd (admit_result cfg asks create skew m q d)"
| "quota_step cfg (OpTerminal i) d = release_trigger i d"
| "quota_step cfg (OpUsage i x u) d = snd (record_ask_provider_usage i x u d)"
| "quota_step cfg (OpExpire retention n) d = snd (delete_expired_batch retention n d)"
| "quota_step cfg (OpForget i) d = forget_item i d"
| "quota_step cfg (OpTick n) d = d\<lparr>qclock := qclock d + n\<rparr>"

text \<open>Creating the work item of an ask does not touch the tables of the quota.\<close>

fun quota_op_ok :: "quota_op \<Rightarrow> bool" where
  "quota_op_ok (OpAdmit asks create skew m q) \<longleftrightarrow> (\<forall>i d. snd (create i d) = d)"
| "quota_op_ok (OpTick n) \<longleftrightarrow> 0 \<le> n"
| "quota_op_ok _ \<longleftrightarrow> True"

definition scope_limit :: "quota_config \<Rightarrow> quota_scope \<Rightarrow> int" where
  "scope_limit cfg sc = (case sc of
      ScopeActor \<Rightarrow> qc_actor_max_outstanding cfg
    | ScopeRepository \<Rightarrow> qc_repository_max_outstanding cfg
    | ScopeInstallation \<Rightarrow> qc_installation_max_outstanding cfg)"

lemma sp_max_outstanding_limit: "sp_max_outstanding (scope_sp cfg q sc) = scope_limit cfg sc"
  by (cases sc) (simp_all add: scope_sp_def scope_params_def scope_limit_def)

definition within_limits :: "quota_config \<Rightarrow> quota_db \<Rightarrow> bool" where
  "within_limits cfg d \<longleftrightarrow> (\<forall>sc k. live_count sc k d \<le> scope_limit cfg sc)"

text \<open>The ways an admission can end: no change, locks only, or a reservation that is kept or released.\<close>

lemma admit_cases [consumes 2, case_names Same Throttled Kept Returned]:
  assumes "admit_result cfg asks create skew m q d = (res, d')" and "\<forall>i d. snd (create i d) = d"
  obtains (Same) "d' = d" "\<forall>i c n. res \<noteq> Inr (AskAdmitted i c n)"
  | (Throttled) reason where "res = Inr (AskThrottled reason)"
      "reserve_ask_quota cfg (millis (qclock d) + skew) q d = (Inr (Throttled reason), d')"
  | (Kept) i n where "res = Inr (AskAdmitted i True n)"
      "reserve_ask_quota cfg (millis (qclock d) + skew) q d = (Inr (Admitted n), d')"
  | (Returned) i n d1 where "res = Inr (AskAdmitted i False n)"
      "reserve_ask_quota cfg (millis (qclock d) + skew) q d = (Inr (Admitted n), d1)"
      "release_ask_quota_reservation (aq_item q) d1 = (Inr (), d')"
proof (cases "find_retained_ask_for_mention m asks")
  case (Some a)
  then show thesis using assms(1) Same
    by (auto simp: admit_result_def in_transaction_def admit_ask_def returnP_def)
next
  case None
  let ?js = "millis (qclock d) + skew"
  obtain r1 d1 where reserve: "reserve_ask_quota cfg ?js q d = (r1, d1)" by fastforce
  note unfolded = assms(1) [unfolded admit_result_def in_transaction_def admit_ask_def None option.case bindP_def reserve prod.case]
  show thesis
  proof (cases r1)
    case (Inl e)
    with unfolded show thesis using Same by auto
  next
    case (Inr a)
    show thesis
    proof (cases a)
      case (Throttled reason)
      with unfolded Inr reserve show thesis using that(2) by (auto simp: returnP_def)
    next
      case (Admitted n)
      obtain rc where c: "create (aq_item q) d1 = (rc, d1)" using assms(2) by (metis surj_pair snd_conv)
      show thesis
      proof (cases rc)
        case (Inl e)
        with unfolded Inr Admitted c show thesis using Same by auto
      next
        case rc: (Inr ic)
        obtain i created where ic: "ic = (i, created)" by fastforce
        obtain r2 d2 where rel: "release_ask_quota_reservation (aq_item q) d1 = (r2, d2)" by fastforce
        show thesis
        proof (cases created)
          case True
          with unfolded Inr Admitted c rc ic reserve show thesis
            using Kept by (auto simp: thenP_def bindP_def whenP_def returnP_def)
        next
          case False
          with unfolded Inr Admitted c rc ic reserve rel show thesis
            using Same Returned by (cases r2) (auto simp: thenP_def bindP_def whenP_def returnP_def)
        qed
      qed
    qed
  qed
qed

definition nonneg_reservation :: "quota_config \<Rightarrow> bool" where
  "nonneg_reservation cfg \<longleftrightarrow> 0 \<le> qc_provider_reservation_tokens cfg"

lemma ledger_step:
  assumes "ledger_ok d" and "quota_op_ok x" and "nonneg_reservation cfg"
  shows "ledger_ok (quota_step cfg x d)"
proof (cases x)
  case (OpAdmit asks create skew m q)
  obtain res d' where r: "admit_result cfg asks create skew m q d = (res, d')" by fastforce
  have quiet: "\<forall>i d. snd (create i d) = d" using assms(2) OpAdmit by simp
  from r quiet have "ledger_ok d'"
  proof (cases rule: admit_cases)
    case (Returned i n d1)
    then have "ledger_ok d1" using ledger_reserve [OF assms(1)] assms(3) by (simp add: nonneg_reservation_def)
    then show ?thesis using ledger_release [of d1 "aq_item q"] Returned(3) by simp
  qed (use assms ledger_reserve in \<open>auto simp: nonneg_reservation_def\<close>)
  then show ?thesis by (simp add: OpAdmit r)
qed (use assms in \<open>simp_all add: ledger_trigger ledger_usage ledger_expire ledger_forget\<close>)

text \<open>An outstanding count rises only in an admission, and then from below its limit.\<close>

lemma outstanding_update:
  assumes "\<And>b. bucket_key (f b) = bucket_key b"
    and "\<And>b. qb_outstanding (f b) = qb_outstanding b \<or> qb_outstanding (f b) = max 0 (qb_outstanding b - 1)"
    and "\<And>sc k. 0 \<le> outstanding_at d sc k"
  shows "0 \<le> outstanding_at (update_bucket sc' k' f d) sc k \<and>
    outstanding_at (update_bucket sc' k' f d) sc k \<le> outstanding_at d sc k"
proof (cases "bucket_at d sc k")
  case None
  then show ?thesis by (auto simp: outstanding_at_def bucket_at_update [OF assms(1)])
next
  case (Some b)
  then show ?thesis using assms(2) [of b] assms(3) [of sc k]
    by (auto simp: outstanding_at_def bucket_at_update [OF assms(1)])
qed

lemma outstanding_trigger:
  assumes "\<And>sc k. 0 \<le> outstanding_at d sc k"
  shows "outstanding_at (release_trigger i d) sc k \<le> outstanding_at d sc k"
proof (cases "reservation_at d i")
  case None
  then show ?thesis by (simp add: release_trigger_def)
next
  case (Some r)
  show ?thesis
  proof (cases "qr_released r = None")
    case False
    then show ?thesis by (simp add: release_trigger_def Some)
  next
    case True
    let ?d1 = "update_reservation i (\<lambda>x. x\<lparr>qr_released := Some (qclock d), qr_reserved := 0,
        qr_unknown_charged := provider_charge r, qr_unknown_window := charged_window d r\<rparr>) d"
    let ?f = "\<lambda>b. b\<lparr>qb_outstanding := max 0 (qb_outstanding b - 1), qb_reserved := max 0 (qb_reserved b - qr_reserved r),
        qb_used := qb_used b + provider_charge r, qb_updated := qclock d\<rparr>"
    let ?g = "\<lambda>b. b\<lparr>qb_outstanding := max 0 (qb_outstanding b - 1), qb_updated := qclock d\<rparr>"
    let ?d2 = "update_bucket ScopeInstallation (qr_installation r) ?f ?d1"
    let ?d3 = "update_bucket ScopeRepository (qr_repository r) ?g ?d2"
    have e: "release_trigger i d = update_bucket ScopeActor (qr_actor r) ?g ?d3"
      by (simp add: release_trigger_def Some True Let_def)
    have d1: "outstanding_at ?d1 sc k = outstanding_at d sc k" for sc k by (simp add: outstanding_at_def)
    have d2: "0 \<le> outstanding_at ?d2 sc k \<and> outstanding_at ?d2 sc k \<le> outstanding_at d sc k" for sc k
      using outstanding_update [of ?f ?d1 ScopeInstallation "qr_installation r" sc k] assms by (simp add: d1)
    have d3: "0 \<le> outstanding_at ?d3 sc k \<and> outstanding_at ?d3 sc k \<le> outstanding_at ?d2 sc k" for sc k
      using outstanding_update [of ?g ?d2 ScopeRepository "qr_repository r" sc k] d2 by simp
    have "outstanding_at (release_trigger i d) sc k \<le> outstanding_at ?d3 sc k"
      unfolding e using outstanding_update [of ?g ?d3 ScopeActor "qr_actor r" sc k] d3 by simp
    then show ?thesis using d2 [of sc k] d3 [of sc k] by linarith
  qed
qed

lemma outstanding_usage:
  "outstanding_at (snd (record_ask_provider_usage i x u d)) sc k = outstanding_at d sc k"
proof -
  have "outstanding_at (apply_receipt i r n app e) sc k = outstanding_at e sc k" for r n app e
    by (cases app) (auto simp: apply_receipt_def outstanding_at_def split: option.split)
  then have "outstanding_at (snd (record_usage_body i x n d)) sc k = outstanding_at d sc k" for n
    by (auto simp: record_usage_body_def Let_def split: option.split) (simp_all add: outstanding_at_def)
  then show ?thesis
    by (auto simp: record_ask_provider_usage_def returnP_def throwP_def in_transaction_def
        split: option.splits prod.splits sum.splits) (metis snd_conv)
qed

lemma outstanding_reserve:
  assumes "reserve_ask_quota cfg js q d = (Inr a, d')"
  shows "outstanding_at d' sc k \<le> outstanding_at d sc k \<or> outstanding_at d' sc k \<le> scope_limit cfg sc"
  using assms
proof (cases rule: reserve_cases)
  case (Throttled reason)
  then show ?thesis by (simp add: outstanding_at_def [of d'])  (simp add: outstanding_at_def)
next
  case Admitted
  have "outstanding_at d sc (sp_key (scope_sp cfg q sc)) < scope_limit cfg sc"
    using Admitted(1) by (simp add: admissible_def sp_max_outstanding_limit)
  then show ?thesis
    by (simp add: outstanding_at_def [of d'] Admitted(4) charged_row_def Let_def) (simp add: outstanding_at_def)
next
  case Duplicate
  then show ?thesis by simp
qed

lemma outstanding_release:
  assumes "ledger_ok d"
  shows "outstanding_at (snd (release_ask_quota_reservation i d)) sc k \<le> outstanding_at d sc k"
proof (cases "\<exists>r. reservation_at d i = Some r \<and> live r")
  case True
  then obtain r where r: "reservation_at d i = Some r" "live r" by auto
  have nonneg: "0 \<le> outstanding_at d sc k" using assms live_count_nonneg by (simp add: ledger_ok_def)
  show ?thesis
  proof (rule release_result [OF assms r])
    fix d'
    assume "release_ask_quota_reservation i d = (Inr (), d')"
      and "\<And>sc k. outstanding_at d' sc k =
        (if k = scope_key_of sc r then max 0 (outstanding_at d sc k - 1) else outstanding_at d sc k)"
    then show ?thesis using nonneg by auto
  qed
next
  case False
  then have "release_ask_quota_reservation i d = (Inr (), d)"
    by (auto simp: release_ask_quota_reservation_def live_def split: option.split)
  then show ?thesis by simp
qed

lemma outstanding_step:
  assumes "ledger_ok d" and "quota_op_ok x" and "nonneg_reservation cfg"
  shows "outstanding_at (quota_step cfg x d) sc k \<le> outstanding_at d sc k \<or>
    outstanding_at (quota_step cfg x d) sc k \<le> scope_limit cfg sc"
proof (cases x)
  case (OpAdmit asks create skew m q)
  obtain res d' where r: "admit_result cfg asks create skew m q d = (res, d')" by fastforce
  have quiet: "\<forall>i d. snd (create i d) = d" using assms(2) OpAdmit by simp
  from r quiet have "outstanding_at d' sc k \<le> outstanding_at d sc k \<or> outstanding_at d' sc k \<le> scope_limit cfg sc"
  proof (cases rule: admit_cases)
    case (Returned i n d1)
    have "ledger_ok d1" using Returned(2) ledger_reserve [OF assms(1)] assms(3) by (simp add: nonneg_reservation_def)
    then show ?thesis using outstanding_reserve [OF Returned(2), of sc k] outstanding_release [of d1 "aq_item q" sc k] Returned(3)
      by auto
  qed (use outstanding_reserve in auto)
  then show ?thesis by (simp add: OpAdmit r)
next
  case (OpTerminal i)
  then show ?thesis using outstanding_trigger [of d i sc k] assms(1) live_count_nonneg by (simp add: ledger_ok_def)
next
  case (OpExpire retention n)
  have "uniq bucket_key (buckets d)" using assms(1) by (simp add: ledger_ok_def)
  from expired_at [OF this, of retention n sc k] OpExpire show ?thesis
    by (auto simp: outstanding_at_def expired_bucket_def)
next
  case (OpForget i)
  then show ?thesis by (simp add: forget_item_def outstanding_at_def)
next
  case (OpUsage i e u)
  then show ?thesis by (simp add: outstanding_usage)
qed (simp_all add: outstanding_at_def)

definition quota_inv :: "quota_config \<Rightarrow> quota_db \<Rightarrow> bool" where
  "quota_inv cfg d \<longleftrightarrow> nonneg_reservation cfg \<and> ledger_ok d \<and> within_limits cfg d"

lemma quota_inv_step:
  assumes "quota_inv cfg d" and "quota_op_ok x"
  shows "quota_inv cfg (quota_step cfg x d)"
proof -
  have ok: "ledger_ok d" "ledger_ok (quota_step cfg x d)" "nonneg_reservation cfg"
    using assms ledger_step by (auto simp: quota_inv_def)
  have "live_count sc k (quota_step cfg x d) \<le> scope_limit cfg sc" for sc k
  proof -
    have "live_count sc k d \<le> scope_limit cfg sc" using assms(1) by (simp add: quota_inv_def within_limits_def)
    then show ?thesis using outstanding_step [OF ok(1) assms(2) ok(3), of sc k] ok(1,2) by (auto simp: ledger_ok_def)
  qed
  with ok show ?thesis by (simp add: quota_inv_def within_limits_def)
qed

interpretation quota: invariant_machine "quota_step cfg" quota_op_ok "quota_inv cfg" for cfg
  by unfold_locales (rule quota_inv_step)

text \<open>C15. From a ledger that adds up, whatever admissions, releases, usage reports, retention and clock
  steps follow: each bucket counts exactly the live reservations that it holds and reserves exactly
  their provider tokens, and the live asks of an actor, a repository or an installation never exceed
  its limit. Hence the clamps at zero of the code never act on these two counters.\<close>

theorem live_asks_within_limits:
  assumes "quota_inv cfg d" and "\<forall>x \<in> set xs. quota_op_ok x"
  shows "outstanding_at (fold (quota_step cfg) xs d) sc k = live_count sc k (fold (quota_step cfg) xs d) \<and>
    reserved_at (fold (quota_step cfg) xs d) key = live_reserved key (fold (quota_step cfg) xs d) \<and>
    live_count sc k (fold (quota_step cfg) xs d) \<le> scope_limit cfg sc"
  using quota.inv_run [OF assms] by (simp add: quota_inv_def ledger_ok_def within_limits_def)

definition empty_quota :: "time \<Rightarrow> quota_db" where
  "empty_quota t = \<lparr>buckets = [], reservations = [], receipts = [], qclock = t\<rparr>"

lemma empty_quota_inv: "nonneg_reservation cfg \<Longrightarrow> (\<And>sc. 0 \<le> scope_limit cfg sc) \<Longrightarrow> quota_inv cfg (empty_quota t)"
  by (simp add: quota_inv_def ledger_ok_def within_limits_def empty_quota_def uniq_def outstanding_at_def
      reserved_at_def live_count_def live_reserved_def bucket_at_def row_at_simps)

definition sample_ask :: "string \<Rightarrow> ask_request" where
  "sample_ask i = \<lparr>aq_item = i, aq_installation = 1, aq_owner = ''O'', aq_repo = ''r'', aq_commenter = 7\<rparr>"

definition sample_mention :: ask_mention where
  "sample_mention = \<lparr>am_installation = 1, am_resource_key = ''o/r#1'', am_reply_kind = ''issue'',
     am_comment_id = ''5'', am_webhook_event = None\<rparr>"

definition sample_admit :: "string \<Rightarrow> quota_op" where
  "sample_admit i = OpAdmit [] (\<lambda>i. returnP (i, True)) 0 sample_mention (sample_ask i)"

lemma sample_admit_ok: "quota_op_ok (sample_admit i)"
  by (simp add: sample_admit_def returnP_def)

lemma default_config_inv: "quota_inv default_ask_quota_config (empty_quota t)"
  by (rule empty_quota_inv)
    (simp_all add: nonneg_reservation_def default_ask_quota_config_def scope_limit_def split: quota_scope.split)

theorem live_asks_within_limits_witness:
  "live_count ScopeActor ''actor:1:7''
     (fold (quota_step default_ask_quota_config) [sample_admit ''a'', sample_admit ''b'', sample_admit ''c'']
       (empty_quota 0)) \<le> 2"
  using live_asks_within_limits [OF default_config_inv, of "[sample_admit ''a'', sample_admit ''b'', sample_admit ''c'']"
      0 ScopeActor "''actor:1:7''" "''k''"]
  by (simp add: sample_admit_ok scope_limit_def default_ask_quota_config_def)

subsection \<open>Usage and retention\<close>

lemma receipt_at_append:
  "receipt_at (d\<lparr>receipts := receipts d @ [\<lparr>rc_item = i, rc_execution = x, rc_used = n\<rparr>]\<rparr>) i x =
     (case receipt_at d i x of None \<Rightarrow> Some \<lparr>rc_item = i, rc_execution = x, rc_used = n\<rparr> | Some c \<Rightarrow> Some c)"
  by (simp add: receipt_at_def find_append split: option.split)

lemma receipts_apply [simp]: "receipts (apply_receipt i r n app d) = receipts d"
  by (cases app) (simp_all add: apply_receipt_def)

lemma reservation_at_apply:
  "reservation_at d i = Some r \<Longrightarrow> reservation_at (apply_receipt i r n app d) i =
     Some (case app of
        ReceiptOnly \<Rightarrow> r\<lparr>qr_known := True, qr_used := qr_used r + n\<rparr>
      | Adjust _ _ \<Rightarrow> r\<lparr>qr_known := True, qr_used := qr_used r + n, qr_reserved := 0, qr_unknown_charged := 0\<rparr>)"
  using row_at_update_where [of "\<lambda>x. qr_item x = i" qr_item "\<lambda>x. x\<lparr>qr_known := True, qr_used := qr_used x + n\<rparr>" i "reservations d"]
    row_at_update_where [of "\<lambda>x. qr_item x = i" qr_item
      "\<lambda>x. x\<lparr>qr_known := True, qr_used := qr_used x + n, qr_reserved := 0, qr_unknown_charged := 0\<rparr>" i "reservations d"]
  by (cases app) (auto simp: apply_receipt_def reservation_at_def update_reservation_def dest: row_at_SomeD)

text \<open>The usage of an execution is charged once. When a report is accepted for an ask whose execution
  has no receipt yet, the reservation has the usage added and the execution has a receipt; the same
  report again changes nothing, and a report with another usage is refused and changes nothing.\<close>

lemma usage_charged_once:
  assumes "record_ask_provider_usage i x (Some n) d = (Inr (), d')" and "0 \<le> n" and "x \<noteq> []"
    and "reservation_at d i = Some r" and "receipt_at d i x = None" and "0 \<le> m"
  shows "(\<exists>r'. reservation_at d' i = Some r' \<and> qr_used r' = qr_used r + floor n \<and> qr_known r') \<and>
    receipt_at d' i x = Some \<lparr>rc_item = i, rc_execution = x, rc_used = floor n\<rparr> \<and>
    record_ask_provider_usage i x (Some m) d' =
      (if floor m = floor n then Inr () else Inl (AppError ''agent_work'' ''ask_quota_execution_conflict'' []), d')"
proof -
  have "fst (record_usage_body i x (floor n) d) = Inr ()" and d': "d' = snd (record_usage_body i x (floor n) d)"
    using assms(1,2,3) by (auto simp: record_ask_provider_usage_def in_transaction_def split: prod.splits sum.splits)
  then obtain b where b: "bucket_at d ScopeInstallation (qr_installation r) = Some b"
    using assms(4,5) by (auto simp: record_usage_body_def split: option.splits)
  let ?d1 = "d\<lparr>receipts := receipts d @ [\<lparr>rc_item = i, rc_execution = x, rc_used = floor n\<rparr>]\<rparr>"
  obtain app where e: "d' = apply_receipt i r (floor n) app ?d1"
    using d' assms(4,5) b by (simp add: record_usage_body_def Let_def)
  have at: "reservation_at ?d1 i = Some r" using assms(4) by (simp add: reservation_at_def)
  obtain r' where r': "reservation_at d' i = Some r'" "qr_used r' = qr_used r + floor n" "qr_known r'"
    using reservation_at_apply [OF at, of "floor n" app] e by (cases app) auto
  have rc: "receipt_at d' i x = Some \<lparr>rc_item = i, rc_execution = x, rc_used = floor n\<rparr>"
    using receipt_at_append [of d i x "floor n"] assms(5) by (simp add: e receipt_at_def)
  have "number_value (floor n) = floor n" using assms(2) by (simp add: number_value_def)
  then have "record_usage_body i x (floor m) d' =
      (if floor m = floor n then Inr () else Inl (AppError ''agent_work'' ''ask_quota_execution_conflict'' []), d')"
    using r'(1) rc by (simp add: record_usage_body_def)
  then have "record_ask_provider_usage i x (Some m) d' =
      (if floor m = floor n then Inr () else Inl (AppError ''agent_work'' ''ask_quota_execution_conflict'' []), d')"
    using assms(3,6) by (simp add: record_ask_provider_usage_def in_transaction_def)
  with r' rc show ?thesis by auto
qed

definition sample_quota :: quota_db where
  "sample_quota = \<lparr>buckets = [\<lparr>qb_scope = ScopeInstallation, qb_key = ''installation:1'', qb_tokens = 1,
       qb_last_refill = 0, qb_outstanding = 1, qb_used = 0, qb_reserved = 16384, qb_window = 0, qb_updated = 0\<rparr>],
     reservations = [new_reservation (sample_ask ''a'') 16384], receipts = [], qclock = 5\<rparr>"

lemma usage_charged_once_witness:
  "\<exists>d'. record_ask_provider_usage ''a'' ''e'' (Some 100) sample_quota = (Inr (), d') \<and>
     record_ask_provider_usage ''a'' ''e'' (Some 100) d' = (Inr (), d')"
proof -
  obtain d' where d': "record_ask_provider_usage ''a'' ''e'' (Some 100) sample_quota = (Inr (), d')"
    by (simp add: record_ask_provider_usage_def in_transaction_def record_usage_body_def reservation_at_def
        sample_quota_def new_reservation_def sample_ask_def row_at_simps receipt_at_def bucket_at_def bucket_key_def
        installation_scope_key_def int_text_def nat_text.simps [of "Suc 0"] digit_char_def Let_def)
  have "reservation_at sample_quota ''a'' = Some (new_reservation (sample_ask ''a'') 16384)"
    by (simp add: reservation_at_def sample_quota_def new_reservation_def sample_ask_def row_at_simps)
  moreover have "receipt_at sample_quota ''a'' ''e'' = None" by (simp add: receipt_at_def sample_quota_def)
  ultimately have "record_ask_provider_usage ''a'' ''e'' (Some 100) d' = (Inr (), d')"
    using usage_charged_once [OF d', of _ 100] by simp
  with d' show ?thesis by blast
qed

lemma filter_not_taken: "distinct xs \<Longrightarrow> filter (\<lambda>b. b \<notin> set (take n xs)) xs = drop n xs"
proof (induction xs arbitrary: n)
  case (Cons x xs)
  show ?case
  proof (cases n)
    case (Suc k)
    have "filter (\<lambda>b. b \<noteq> x \<and> b \<notin> set (take k xs)) xs = filter (\<lambda>b. b \<notin> set (take k xs)) xs"
      using Cons.prems by (intro filter_cong) auto
    with Suc Cons show ?thesis by simp
  qed simp
qed simp

lemma delete_batch_rows:
  assumes "uniq bucket_key (buckets d)"
  shows "filter (expired_bucket retention d) (buckets (snd (delete_expired_batch retention n d))) =
      drop n (filter (expired_bucket retention d) (buckets d))" (is ?expired)
    and "filter (\<lambda>b. \<not> expired_bucket retention d b) (buckets (snd (delete_expired_batch retention n d))) =
      filter (\<lambda>b. \<not> expired_bucket retention d b) (buckets d)" (is ?kept)
proof -
  let ?e = "expired_bucket retention d" and ?bs = "buckets d"
  let ?doomed = "take n (filter ?e ?bs)"
  have rows: "buckets (snd (delete_expired_batch retention n d)) = filter (\<lambda>b. b \<notin> set ?doomed) ?bs"
  proof -
    have "bucket_key b \<in> bucket_key ` set ?doomed \<longleftrightarrow> b \<in> set ?doomed" if "b \<in> set ?bs" for b
    proof
      assume "bucket_key b \<in> bucket_key ` set ?doomed"
      then obtain c where c: "c \<in> set ?doomed" "bucket_key c = bucket_key b" by auto
      then have "c \<in> set ?bs" using in_set_takeD by fastforce
      then show "b \<in> set ?doomed" using c that assms by (metis option.inject uniq_row_at)
    qed simp
    then show ?thesis by (simp add: delete_expired_batch_def Let_def cong: filter_cong)
  qed
  have dist: "distinct ?bs" using assms by (auto simp: uniq_def distinct_map)
  have "filter ?e (filter (\<lambda>b. b \<notin> set ?doomed) ?bs) = filter (\<lambda>b. b \<notin> set ?doomed) (filter ?e ?bs)"
    by (simp add: conj_commute)
  also have "\<dots> = drop n (filter ?e ?bs)" using dist by (intro filter_not_taken) simp
  finally show ?expired by (simp only: rows)
  have "b \<notin> set ?doomed" if "\<not> ?e b" for b using that in_set_takeD by fastforce
  then have "filter (\<lambda>b. \<not> ?e b) (filter (\<lambda>b. b \<notin> set ?doomed) ?bs) = filter (\<lambda>b. \<not> ?e b) ?bs"
    by (auto intro: filter_cong)
  then show ?kept by (simp only: rows)
qed

text \<open>Retention ends and is complete: with batches of at least one row the loop returns, it deletes
  exactly the buckets that no live reservation uses and nobody touched within the retention time,
  and it answers how many they were, whatever the size of the batches.\<close>

lemma retention_deletes_exactly_expired:
  assumes "uniq bucket_key (buckets d)" and "0 < limit"
  shows "delete_expired_ask_quota_state retention limit d =
    Some (count_where (expired_bucket retention d) (buckets d),
      d\<lparr>buckets := filter (\<lambda>b. \<not> expired_bucket retention d b) (buckets d)\<rparr>)"
proof -
  have "delete_expired_loop retention limit deleted d =
    Some (deleted + count_where (expired_bucket retention d) (buckets d),
      d\<lparr>buckets := filter (\<lambda>b. \<not> expired_bucket retention d b) (buckets d)\<rparr>)" for deleted
    using assms
  proof (induction "count_where (expired_bucket retention d) (buckets d)" arbitrary: d deleted rule: less_induct)
    case less
    let ?e = "expired_bucket retention d"
    let ?n = "length (filter ?e (buckets d))"
    obtain m d1 where b: "delete_expired_batch retention limit d = (m, d1)" by fastforce
    have m: "m = min limit ?n" and d1: "d1 = d\<lparr>buckets := buckets d1\<rparr>"
      using b by (auto simp: delete_expired_batch_def Let_def)
    note rows = delete_batch_rows [OF less.prems(1), of retention limit, unfolded b snd_conv]
    have e1: "expired_bucket retention d1 = ?e"
      using expired_frame(1,3) [of retention limit d] b by (auto simp: expired_bucket_def fun_eq_iff)
    have u1: "uniq bucket_key (buckets d1)" using expired_frame(4) [where retention = retention and n = limit, OF less.prems(1)] b by simp
    show ?case
    proof (cases "m < limit")
      case True
      then have "filter ?e (buckets d1) = []" using rows(1) m by simp
      then have "buckets d1 = filter (\<lambda>b. \<not> ?e b) (buckets d1)"
        by (metis (mono_tags, lifting) filter_True filter_empty_conv)
      with rows(2) have "d1 = d\<lparr>buckets := filter (\<lambda>b. \<not> ?e b) (buckets d)\<rparr>" using d1 by simp
      moreover have "m = ?n" and "?n < limit" using True m by auto
      ultimately show ?thesis
        by (subst delete_expired_loop.simps) (simp add: b count_where_def)
    next
      case False
      then have n: "limit \<le> ?n" and m': "m = limit" using m by auto
      have c1: "count_where (expired_bucket retention d1) (buckets d1) = ?n - limit"
        by (simp add: count_where_def e1 rows(1))
      have "delete_expired_loop retention limit (deleted + m) d1 =
          Some (deleted + m + count_where (expired_bucket retention d1) (buckets d1),
            d1\<lparr>buckets := filter (\<lambda>b. \<not> expired_bucket retention d1 b) (buckets d1)\<rparr>)"
        using n less.prems(2) u1 by (intro less.hyps) (simp_all add: c1, simp add: count_where_def)
      moreover have "d1\<lparr>buckets := filter (\<lambda>b. \<not> expired_bucket retention d1 b) (buckets d1)\<rparr> =
          d\<lparr>buckets := filter (\<lambda>b. \<not> ?e b) (buckets d)\<rparr>"
        using rows(2) by (subst d1) (simp add: e1)
      moreover have "delete_expired_loop retention limit deleted d = delete_expired_loop retention limit (deleted + m) d1"
        by (subst delete_expired_loop.simps) (simp add: b False)
      moreover have "deleted + m + count_where (expired_bucket retention d1) (buckets d1) =
          deleted + count_where ?e (buckets d)"
        using n m' by (simp add: c1) (simp add: count_where_def)
      ultimately show ?thesis by simp
    qed
  qed
  from this [of 0] show ?thesis by (simp add: delete_expired_ask_quota_state_def)
qed

lemma retention_deletes_exactly_expired_witness:
  "delete_expired_ask_quota_state 0 2 (sample_quota\<lparr>qclock := 9, buckets :=
     [\<lparr>qb_scope = ScopeActor, qb_key = ''k'', qb_tokens = 1, qb_last_refill = 0, qb_outstanding = 0, qb_used = 0,
       qb_reserved = 0, qb_window = 0, qb_updated = 0\<rparr>]\<rparr>) = Some (1, sample_quota\<lparr>qclock := 9, buckets := []\<rparr>)"
proof -
  let ?b = "\<lparr>qb_scope = ScopeActor, qb_key = ''k'', qb_tokens = 1, qb_last_refill = 0, qb_outstanding = 0, qb_used = 0,
       qb_reserved = 0, qb_window = 0, qb_updated = 0\<rparr>"
  let ?d = "sample_quota\<lparr>qclock := 9, buckets := [?b]\<rparr>"
  have "expired_bucket 0 ?d ?b"
    by (simp add: expired_bucket_def sample_quota_def exists_where_def new_reservation_def sample_ask_def actor_scope_key_def)
  then show ?thesis
    using retention_deletes_exactly_expired [of ?d 2 0] by (simp add: uniq_def count_where_def)
qed

subsection \<open>One ask for a mention\<close>

lemma earliest_mention_in: "earliest_mention m as = Some a \<Longrightarrow> a \<in> set as"
  by (induction as arbitrary: a) (auto split: option.splits if_splits)

lemma earliest_mention_None: "earliest_mention m as = None \<longleftrightarrow> as = []"
  by (cases as) (auto split: option.splits)

text \<open>A mention has one ask: while an ask is kept for a mention, admitting the mention again answers that
  ask and neither charges a bucket nor creates a work item; without one, and only then, the quota
  is asked.\<close>

lemma mention_admitted_once:
  "admit_ask asks create cfg js m q d =
     (if \<exists>a \<in> set asks. same_mention m a
      then (let a = the (find_retained_ask_for_mention m asks) in (Inr (AskRetained (ar_id a) (am_webhook_event a)), d))
      else admit_ask [] create cfg js m q d) \<and>
   ((\<exists>a \<in> set asks. same_mention m a) \<longleftrightarrow>
      (\<exists>a \<in> set asks. same_mention m a \<and> find_retained_ask_for_mention m asks = Some a))"
proof (cases "find_retained_ask_for_mention m asks")
  case None
  then have "filter (same_mention m) asks = []" by (simp add: find_retained_ask_for_mention_def earliest_mention_None)
  then have "\<not> (\<exists>a \<in> set asks. same_mention m a)" by (auto simp: filter_empty_conv)
  with None show ?thesis by (simp add: admit_ask_def find_retained_ask_for_mention_def [of m "[]"])
next
  case (Some a)
  then have "a \<in> set asks" and "same_mention m a"
    using earliest_mention_in [of m "filter (same_mention m) asks" a] by (simp_all add: find_retained_ask_for_mention_def)
  with Some show ?thesis by (auto simp: admit_ask_def returnP_def)
qed

end
