(* ===== verification/Ask_Rate.thy ===== *)
theory Ask_Rate
  imports Ask_Quota
begin

text \<open>
  The token rate of \<^verbatim>\<open>src/agentWork/askQuota.ts\<close>: the credit of a bucket is what it could admit at
  this moment. No operation raises it, an admission takes one, and time adds one for each refill
  interval, as long as the process that admits does not run ahead of the clock of the database.
\<close>

subsection \<open>The rate\<close>

definition scope_burst :: "quota_config \<Rightarrow> quota_scope \<Rightarrow> int" where
  "scope_burst cfg sc = (case sc of
      ScopeActor \<Rightarrow> qc_actor_burst cfg
    | ScopeRepository \<Rightarrow> qc_repository_burst cfg
    | ScopeInstallation \<Rightarrow> qc_installation_burst cfg)"

definition scope_refill :: "quota_config \<Rightarrow> quota_scope \<Rightarrow> int" where
  "scope_refill cfg sc = (case sc of
      ScopeActor \<Rightarrow> qc_actor_refill_seconds cfg
    | ScopeRepository \<Rightarrow> qc_repository_refill_seconds cfg
    | ScopeInstallation \<Rightarrow> qc_installation_refill_seconds cfg)"

lemma sp_rates:
  "sp_burst (scope_sp cfg q sc) = scope_burst cfg sc" "sp_refill_seconds (scope_sp cfg q sc) = scope_refill cfg sc"
  by (cases sc; simp add: scope_sp_def scope_params_def scope_burst_def scope_refill_def)+

text \<open>The admissions that a bucket can still give at this moment, refilled to now.\<close>

definition credit_of :: "quota_config \<Rightarrow> quota_scope \<Rightarrow> time \<Rightarrow> rat \<Rightarrow> time \<Rightarrow> rat" where
  "credit_of cfg sc t tokens since = min (of_int (scope_burst cfg sc))
     (max 0 tokens + of_int (millis t - millis since) / of_int (1000 * scope_refill cfg sc))"

definition credit :: "quota_config \<Rightarrow> quota_scope \<Rightarrow> string \<Rightarrow> quota_db \<Rightarrow> rat" where
  "credit cfg sc k d = (case bucket_at d sc k of
      None \<Rightarrow> of_int (scope_burst cfg sc)
    | Some b \<Rightarrow> credit_of cfg sc (qclock d) (qb_tokens b) (qb_last_refill b))"

definition elapsed_credit :: "quota_config \<Rightarrow> quota_scope \<Rightarrow> quota_db \<Rightarrow> quota_db \<Rightarrow> rat" where
  "elapsed_credit cfg sc d d' = of_int (millis (qclock d') - millis (qclock d)) / of_int (1000 * scope_refill cfg sc)"

fun admits :: "quota_config \<Rightarrow> quota_scope \<Rightarrow> string \<Rightarrow> quota_op \<Rightarrow> quota_db \<Rightarrow> nat" where
  "admits cfg sc k (OpAdmit asks create skew m q) d =
     (case fst (admit_result cfg asks create skew m q d) of
        Inr (AskAdmitted _ _ _) \<Rightarrow> if k = sp_key (scope_sp cfg q sc) then 1 else 0
      | _ \<Rightarrow> 0)"
| "admits cfg sc k _ d = 0"

fun admissions :: "quota_config \<Rightarrow> quota_scope \<Rightarrow> string \<Rightarrow> quota_op list \<Rightarrow> quota_db \<Rightarrow> nat" where
  "admissions cfg sc k [] d = 0"
| "admissions cfg sc k (x # xs) d = admits cfg sc k x d + admissions cfg sc k xs (quota_step cfg x d)"

text \<open>The clock of the process is not ahead, and retention keeps a bucket until it is full again.\<close>

fun paced_op :: "quota_config \<Rightarrow> quota_scope \<Rightarrow> quota_op \<Rightarrow> bool" where
  "paced_op cfg sc (OpAdmit asks create skew m q) \<longleftrightarrow> skew \<le> 0"
| "paced_op cfg sc (OpExpire retention n) \<longleftrightarrow> scope_burst cfg sc * scope_refill cfg sc \<le> retention"
| "paced_op cfg sc _ \<longleftrightarrow> True"

definition times_ok :: "quota_db \<Rightarrow> bool" where
  "times_ok d \<longleftrightarrow> (\<forall>sc k b. bucket_at d sc k = Some b \<longrightarrow>
     qb_last_refill b \<le> qb_updated b \<and> qb_updated b \<le> qclock d)"

definition rates_ok :: "quota_config \<Rightarrow> quota_scope \<Rightarrow> bool" where
  "rates_ok cfg sc \<longleftrightarrow> 0 \<le> scope_burst cfg sc \<and> 0 < scope_refill cfg sc"

lemma millis_mono: "a \<le> b \<Longrightarrow> millis a \<le> millis b"
  by (simp add: millis_def zdiv_mono1)

lemma refilled_le_credit:
  assumes "rates_ok cfg sc" and "times_ok d" and "skew \<le> 0"
  shows "0 \<le> refilled_tokens (millis (qclock d) + skew) (scope_sp cfg q sc) (stored d (scope_sp cfg q sc))"
    and "refilled_tokens (millis (qclock d) + skew) (scope_sp cfg q sc) (stored d (scope_sp cfg q sc))
      \<le> credit cfg sc (sp_key (scope_sp cfg q sc)) d"
proof -
  let ?sp = "scope_sp cfg q sc"
  have burst: "0 \<le> scope_burst cfg sc" and rf: "0 < scope_refill cfg sc" using assms(1) by (simp_all add: rates_ok_def)
  show "0 \<le> refilled_tokens (millis (qclock d) + skew) ?sp (stored d ?sp)"
    using burst rf by (simp add: refilled_tokens_def sp_rates Let_def)
  show "refilled_tokens (millis (qclock d) + skew) ?sp (stored d ?sp) \<le> credit cfg sc (sp_key ?sp) d"
  proof (cases "bucket_at d sc (sp_key ?sp)")
    case None
    then show ?thesis by (simp add: refilled_tokens_def credit_def stored_def sp_rates Let_def)
  next
    case (Some b)
    have "qb_last_refill b \<le> qclock d" using assms(2) Some by (fastforce simp: times_ok_def)
    then have gap: "0 \<le> millis (qclock d) - millis (qb_last_refill b)" using millis_mono by simp
    have "max 0 (of_int (millis (qclock d) + skew - millis (qb_last_refill b)) / 1000 :: rat)
        \<le> of_int (millis (qclock d) - millis (qb_last_refill b)) / 1000"
    proof (rule max.boundedI)
      show "0 \<le> (of_int (millis (qclock d) - millis (qb_last_refill b)) / 1000 :: rat)"
        using gap by (simp only: of_int_0_le_iff divide_nonneg_pos zero_less_numeral)
      show "(of_int (millis (qclock d) + skew - millis (qb_last_refill b)) / 1000 :: rat)
          \<le> of_int (millis (qclock d) - millis (qb_last_refill b)) / 1000"
        using assms(3) by (intro divide_right_mono) (simp_all del: of_int_diff of_int_add)
    qed
    then have "max 0 (of_int (millis (qclock d) + skew - millis (qb_last_refill b)) / 1000 :: rat) / of_int (scope_refill cfg sc)
        \<le> of_int (millis (qclock d) - millis (qb_last_refill b)) / 1000 / of_int (scope_refill cfg sc)"
      using rf by (intro divide_right_mono) simp_all
    then show ?thesis using Some
      by (simp add: refilled_tokens_def credit_def credit_of_def stored_def sp_rates Let_def min.coboundedI2)
  qed
qed

lemma credit_le_burst: "credit cfg sc k d \<le> of_int (scope_burst cfg sc)"
  by (simp add: credit_def credit_of_def split: option.split)

text \<open>A bucket that a lock has just refilled holds its tokens as credit.\<close>

lemma credit_fresh:
  "rates_ok cfg sc \<Longrightarrow> 0 \<le> n \<Longrightarrow> credit_of cfg sc t n t \<le> n"
  by (simp add: credit_of_def)

definition same_tokens :: "quota_db \<Rightarrow> quota_db \<Rightarrow> bool" where
  "same_tokens d d' \<longleftrightarrow> qclock d' = qclock d \<and> (\<forall>sc k.
     map_option (\<lambda>b. (qb_tokens b, qb_last_refill b)) (bucket_at d' sc k) =
     map_option (\<lambda>b. (qb_tokens b, qb_last_refill b)) (bucket_at d sc k) \<and>
     (bucket_at d' sc k = bucket_at d sc k \<or> map_option qb_updated (bucket_at d' sc k) = Some (qclock d)))"

lemma same_tokens_refl [simp]: "same_tokens d d"
  by (simp add: same_tokens_def)

lemma same_tokens_frame: "qclock d' = qclock d \<Longrightarrow> (\<And>sc k. bucket_at d' sc k = bucket_at d sc k) \<Longrightarrow> same_tokens d d'"
  by (simp add: same_tokens_def)

lemma same_tokens_update:
  assumes "same_tokens d e" and "\<And>b. bucket_key (f b) = bucket_key b"
    and "\<And>b. qb_tokens (f b) = qb_tokens b \<and> qb_last_refill (f b) = qb_last_refill b \<and> qb_updated (f b) = qclock d"
  shows "same_tokens d (update_bucket sc k f e)"
  using assms(1,3) unfolding same_tokens_def bucket_at_update [OF assms(2)]
  by (auto simp: option.map_comp comp_def) (metis option.map_disc_iff option.simps(9) not_None_eq)+

lemma same_tokens_credit: "same_tokens d d' \<Longrightarrow> credit cfg sc k d' = credit cfg sc k d"
proof -
  assume same: "same_tokens d d'"
  then have "map_option (\<lambda>b. (qb_tokens b, qb_last_refill b)) (bucket_at d' sc k) =
      map_option (\<lambda>b. (qb_tokens b, qb_last_refill b)) (bucket_at d sc k)" and "qclock d' = qclock d"
    by (simp_all add: same_tokens_def)
  then show ?thesis by (auto simp: credit_def split: option.splits)
qed

lemma same_tokens_times: 
  assumes "same_tokens d d'" and "times_ok d"
  shows "times_ok d'"
  unfolding times_ok_def
proof (intro allI impI)
  fix sc k b
  assume b: "bucket_at d' sc k = Some b"
  have eq: "map_option (\<lambda>b. (qb_tokens b, qb_last_refill b)) (bucket_at d' sc k) =
      map_option (\<lambda>b. (qb_tokens b, qb_last_refill b)) (bucket_at d sc k)"
    and upd: "bucket_at d' sc k = bucket_at d sc k \<or> map_option qb_updated (bucket_at d' sc k) = Some (qclock d)"
    and clk: "qclock d' = qclock d"
    using assms(1) by (auto simp: same_tokens_def)
  obtain b0 where b0: "bucket_at d sc k = Some b0" "qb_last_refill b0 = qb_last_refill b"
    using eq b by (cases "bucket_at d sc k") auto
  have "qb_last_refill b0 \<le> qb_updated b0 \<and> qb_updated b0 \<le> qclock d" using assms(2) b0(1) by (simp add: times_ok_def)
  with upd b b0 clk show "qb_last_refill b \<le> qb_updated b \<and> qb_updated b \<le> qclock d'" by auto
qed

lemma same_tokens_trigger: "same_tokens d (release_trigger i d)"
proof (cases "reservation_at d i")
  case None
  then show ?thesis by (simp add: release_trigger_def)
next
  case (Some r)
  have "same_tokens d (update_reservation i f d)" for f by (rule same_tokens_frame) simp_all
  then show ?thesis by (auto simp: release_trigger_def Some Let_def intro!: same_tokens_update)
qed

lemma same_tokens_usage: "same_tokens d (snd (record_ask_provider_usage i x u d))"
proof -
  have receipt: "same_tokens d (apply_receipt i r n app (d\<lparr>receipts := cs\<rparr>))" for r n app cs
  proof (cases app)
    case ReceiptOnly
    then show ?thesis by (auto simp: apply_receipt_def intro!: same_tokens_frame)
  next
    case (Adjust rel delta)
    have "same_tokens d (update_reservation i f (d\<lparr>receipts := cs\<rparr>))" for f by (rule same_tokens_frame) simp_all
    then show ?thesis by (auto simp: apply_receipt_def Adjust intro!: same_tokens_update)
  qed
  then have "same_tokens d (snd (record_usage_body i x n d))" for n
    by (auto simp: record_usage_body_def Let_def split: option.split)
  then show ?thesis
    by (auto simp: record_ask_provider_usage_def returnP_def throwP_def in_transaction_def
        split: option.splits prod.splits sum.splits) (metis snd_conv)
qed

lemma same_tokens_release:
  assumes "ledger_ok d"
  shows "same_tokens d (snd (release_ask_quota_reservation i d))"
proof (cases "\<exists>r. reservation_at d i = Some r \<and> live r")
  case True
  then obtain r where r: "reservation_at d i = Some r" "live r" by auto
  show ?thesis
  proof (rule release_result [OF assms r])
    fix d'
    assume d': "release_ask_quota_reservation i d = (Inr (), d')" "qclock d' = qclock d"
      "\<And>sc k. map_option qb_tokens (bucket_at d' sc k) = map_option qb_tokens (bucket_at d sc k) \<and>
        map_option qb_last_refill (bucket_at d' sc k) = map_option qb_last_refill (bucket_at d sc k)"
      "\<And>sc k. bucket_at d' sc k = bucket_at d sc k \<or> map_option qb_updated (bucket_at d' sc k) = Some (qclock d)"
    have "map_option (\<lambda>b. (qb_tokens b, qb_last_refill b)) (bucket_at d' sc k) =
        map_option (\<lambda>b. (qb_tokens b, qb_last_refill b)) (bucket_at d sc k)" for sc k
      using d'(3) [of sc k] by (cases "bucket_at d' sc k"; cases "bucket_at d sc k") auto
    with d' show ?thesis by (simp add: same_tokens_def)
  qed
next
  case False
  then have "release_ask_quota_reservation i d = (Inr (), d)"
    by (auto simp: release_ask_quota_reservation_def live_def split: option.split)
  then show ?thesis by simp
qed

text \<open>A reservation takes one unit of credit from each of its buckets when it admits.\<close>

lemma reserve_credit:
  assumes "reserve_ask_quota cfg (millis (qclock d) + skew) q d = (Inr a, d')" and "skew \<le> 0"
    and "rates_ok cfg sc" and "times_ok d"
  shows "(case a of Admitted n \<Rightarrow> if k = sp_key (scope_sp cfg q sc) then 1 else 0 | Throttled _ \<Rightarrow> 0) + credit cfg sc k d'
      \<le> credit cfg sc k d" and "times_ok d'"
proof -
  let ?js = "millis (qclock d) + skew"
  let ?t = "\<lambda>sc. refilled_tokens ?js (scope_sp cfg q sc) (stored d (scope_sp cfg q sc))"
  have tokens: "qb_tokens (held_bucket cfg ?js d q sc') = ?t sc'" for sc' by (simp add: locked_def refill_def)
  have row: "qb_tokens (locked_row cfg ?js d (scope_sp cfg q sc')) = ?t sc'"
    "qb_last_refill (locked_row cfg ?js d (scope_sp cfg q sc')) = qclock d"
    "qb_updated (locked_row cfg ?js d (scope_sp cfg q sc')) = qclock d" for sc'
    by (simp_all add: locked_row_def tokens)
  note le = refilled_le_credit [OF assms(3,4,2), of q]
  from assms(1) have both: "(case a of Admitted n \<Rightarrow> if k = sp_key (scope_sp cfg q sc) then 1 else 0 | Throttled _ \<Rightarrow> 0) +
      credit cfg sc k d' \<le> credit cfg sc k d \<and> times_ok d'"
  proof (cases rule: reserve_cases)
    case (Throttled reason)
    have "credit cfg sc k d' \<le> credit cfg sc k d"
    proof (cases "k = sp_key (scope_sp cfg q sc)")
      case True
      then have "credit cfg sc k d' = credit_of cfg sc (qclock d) (?t sc) (qclock d)"
        by (simp add: credit_def Throttled(3,6) row)
      with order_trans [OF credit_fresh [OF assms(3) le(1), of "qclock d"] le(2)] True show ?thesis by simp
    next
      case False
      then show ?thesis by (simp add: credit_def Throttled(3,6) cong: option.case_cong)
    qed
    moreover have "times_ok d'" using assms(4) by (auto simp: times_ok_def Throttled(3,6) row)
    ultimately show ?thesis using Throttled(2) by simp
  next
    case Admitted
    have charged: "qb_tokens (charged_row cfg ?js d q sc') = ?t sc' - 1"
      "qb_last_refill (charged_row cfg ?js d q sc') = qclock d"
      "qb_updated (charged_row cfg ?js d q sc') = qclock d" for sc'
      by (simp_all add: charged_row_def Let_def row)
    have one: "1 \<le> ?t sc" using Admitted(1) tokens by (simp add: admissible_def)
    have "(if k = sp_key (scope_sp cfg q sc) then 1 else 0) + credit cfg sc k d' \<le> credit cfg sc k d"
    proof (cases "k = sp_key (scope_sp cfg q sc)")
      case True
      then have "credit cfg sc k d' = credit_of cfg sc (qclock d) (?t sc - 1) (qclock d)"
        by (simp add: credit_def Admitted(4,7) charged)
      then have "credit cfg sc k d' \<le> ?t sc - 1" using credit_fresh [OF assms(3), of "?t sc - 1" "qclock d"] one by simp
      with le(2) True show ?thesis by simp
    next
      case False
      then show ?thesis by (simp add: credit_def Admitted(4,7) cong: option.case_cong)
    qed
    moreover have "times_ok d'" using assms(4) by (auto simp: times_ok_def Admitted(4,7) charged)
    ultimately show ?thesis using Admitted(3) by simp
  next
    case Duplicate
    then show ?thesis by simp
  qed
  then show "(case a of Admitted n \<Rightarrow> if k = sp_key (scope_sp cfg q sc) then 1 else 0 | Throttled _ \<Rightarrow> 0) +
      credit cfg sc k d' \<le> credit cfg sc k d" and "times_ok d'" by simp_all
qed

lemma expired_credit:
  assumes "rates_ok cfg sc" and "times_ok d" and "bucket_at d sc k = Some b" and "expired_bucket retention d b"
    and "scope_burst cfg sc * scope_refill cfg sc \<le> retention"
  shows "credit cfg sc k d = of_int (scope_burst cfg sc)"
proof -
  have rf: "0 < scope_refill cfg sc" using assms(1) by (simp add: rates_ok_def)
  have "qb_last_refill b + seconds retention \<le> qclock d"
    using assms(2,3,4) by (fastforce simp: times_ok_def expired_bucket_def)
  then have "millis (qb_last_refill b + seconds retention) \<le> millis (qclock d)" by (rule millis_mono)
  moreover have "millis (qb_last_refill b + seconds retention) = millis (qb_last_refill b) + 1000 * retention"
    by (simp add: millis_def)
  ultimately have "1000 * (scope_burst cfg sc * scope_refill cfg sc) \<le> millis (qclock d) - millis (qb_last_refill b)"
    using assms(5) by linarith
  then have "scope_burst cfg sc * (1000 * scope_refill cfg sc) \<le> millis (qclock d) - millis (qb_last_refill b)"
    by (simp add: ac_simps)
  then have "(of_int (scope_burst cfg sc * (1000 * scope_refill cfg sc)) :: rat) \<le>
      of_int (millis (qclock d) - millis (qb_last_refill b))" by (simp only: of_int_le_iff)
  then have "(of_int (scope_burst cfg sc) :: rat) \<le>
      of_int (millis (qclock d) - millis (qb_last_refill b)) / of_int (1000 * scope_refill cfg sc)"
    using rf by (simp add: pos_le_divide_eq)
  then have "(of_int (scope_burst cfg sc) :: rat) \<le> max 0 (qb_tokens b) +
      of_int (millis (qclock d) - millis (qb_last_refill b)) / of_int (1000 * scope_refill cfg sc)"
    by (meson add_increasing max.cobounded1)
  then show ?thesis by (simp add: credit_def assms(3) credit_of_def min_absorb1)
qed

lemma tick_credit:
  assumes "rates_ok cfg sc" and "0 \<le> n"
  shows "credit cfg sc k (d\<lparr>qclock := qclock d + n\<rparr>) \<le>
    credit cfg sc k d + elapsed_credit cfg sc d (d\<lparr>qclock := qclock d + n\<rparr>)"
proof (cases "bucket_at d sc k")
  case None
  have "0 \<le> elapsed_credit cfg sc d (d\<lparr>qclock := qclock d + n\<rparr>)"
    using assms millis_mono [of "qclock d" "qclock d + n"] by (simp add: elapsed_credit_def rates_ok_def)
  with None show ?thesis by (simp add: credit_def)
next
  case (Some b)
  let ?r = "of_int (1000 * scope_refill cfg sc) :: rat"
  let ?t1 = "of_int (millis (qclock d + n) - millis (qb_last_refill b)) / ?r"
  let ?t0 = "of_int (millis (qclock d) - millis (qb_last_refill b)) / ?r"
  let ?e = "of_int (millis (qclock d + n) - millis (qclock d)) / ?r"
  have "0 \<le> ?e" using assms millis_mono [of "qclock d" "qclock d + n"] by (simp add: rates_ok_def)
  moreover have "?t1 = ?t0 + ?e" by (simp add: add_divide_distrib [symmetric])
  ultimately show ?thesis using Some by (simp add: credit_def credit_of_def elapsed_credit_def min_def)
qed

lemma credit_step:
  assumes "ledger_ok d" and "quota_op_ok x" and "nonneg_reservation cfg" and "times_ok d"
    and "rates_ok cfg sc" and "paced_op cfg sc x"
  shows "of_nat (admits cfg sc k x d) + credit cfg sc k (quota_step cfg x d) \<le>
      credit cfg sc k d + elapsed_credit cfg sc d (quota_step cfg x d)"
    and "times_ok (quota_step cfg x d)"
proof -
  have still: "elapsed_credit cfg sc d d' = 0" if "qclock d' = qclock d" for d'
    using that by (simp add: elapsed_credit_def)
  have frame: "of_nat (admits cfg sc k x d) + credit cfg sc k (quota_step cfg x d) \<le>
      credit cfg sc k d + elapsed_credit cfg sc d (quota_step cfg x d) \<and> times_ok (quota_step cfg x d)"
    if "same_tokens d (quota_step cfg x d)" and "admits cfg sc k x d = 0"
    using that same_tokens_credit [OF that(1)] same_tokens_times [OF that(1) assms(4)] still
    by (simp add: same_tokens_def)
  have "of_nat (admits cfg sc k x d) + credit cfg sc k (quota_step cfg x d) \<le>
      credit cfg sc k d + elapsed_credit cfg sc d (quota_step cfg x d) \<and> times_ok (quota_step cfg x d)"
  proof (cases x)
    case (OpAdmit asks create skew m q)
    obtain res d' where r: "admit_result cfg asks create skew m q d = (res, d')" by fastforce
    have quiet: "\<forall>i d. snd (create i d) = d" and skew: "skew \<le> 0" using assms(2,6) OpAdmit by simp_all
    let ?goal = "(case res of Inr (AskAdmitted _ _ _) \<Rightarrow> if k = sp_key (scope_sp cfg q sc) then 1 else 0 | _ \<Rightarrow> 0)
        + credit cfg sc k d' \<le> credit cfg sc k d \<and> times_ok d' \<and> qclock d' = qclock d"
    from r quiet have "?goal"
    proof (cases rule: admit_cases)
      case Same
      then show ?thesis using assms(4) by (auto split: sum.split ask_admission.split)
    next
      case (Throttled reason)
      from Throttled(2) have "qclock d' = qclock d" by (cases rule: reserve_cases) auto
      with reserve_credit(1) [OF Throttled(2) skew assms(5,4), of k] reserve_credit(2) [OF Throttled(2) skew assms(5,4)] Throttled(1) show ?thesis by simp
    next
      case (Kept i n)
      from Kept(2) have "qclock d' = qclock d" by (cases rule: reserve_cases) auto
      with reserve_credit(1) [OF Kept(2) skew assms(5,4), of k] reserve_credit(2) [OF Kept(2) skew assms(5,4)] Kept(1) show ?thesis by simp
    next
      case (Returned i n d1)
      have "ledger_ok d1" using Returned(2) ledger_reserve [OF assms(1)] assms(3) by (simp add: nonneg_reservation_def)
      then have same: "same_tokens d1 d'" using same_tokens_release [of d1 "aq_item q"] Returned(3) by simp
      from Returned(2) have "qclock d1 = qclock d" by (cases rule: reserve_cases) auto
      with same reserve_credit(1) [OF Returned(2) skew assms(5,4), of k] reserve_credit(2) [OF Returned(2) skew assms(5,4)] same_tokens_times [OF same] same_tokens_credit [OF same]
        Returned(1) show ?thesis by (simp add: same_tokens_def)
    qed
    then show ?thesis using still [of d'] by (auto simp: OpAdmit r split: sum.splits ask_admission.splits)
  next
    case (OpTerminal i)
    then show ?thesis using frame same_tokens_trigger by simp
  next
    case (OpUsage i e u)
    then show ?thesis using frame same_tokens_usage by simp
  next
    case (OpForget i)
    have "same_tokens d (forget_item i d)" by (rule same_tokens_frame) (simp_all add: forget_item_def)
    then show ?thesis using frame OpForget by simp
  next
    case (OpTick n)
    have "0 \<le> n" using assms(2) OpTick by simp
    then show ?thesis using tick_credit [OF assms(5), of n k d] assms(4) OpTick by (fastforce simp: times_ok_def)
  next
    case (OpExpire retention n)
    have u: "uniq bucket_key (buckets d)" using assms(1) by (simp add: ledger_ok_def)
    let ?d' = "snd (delete_expired_batch retention n d)"
    have "credit cfg sc k ?d' = credit cfg sc k d"
      using expired_at [OF u, of retention n sc k] expired_credit [OF assms(5,4)] assms(6) OpExpire
      by (auto simp: credit_def expired_frame cong: option.case_cong)
    moreover have "times_ok ?d'"
      unfolding times_ok_def
    proof (intro allI impI)
      fix sc k b
      assume "bucket_at ?d' sc k = Some b"
      then have "bucket_at d sc k = Some b" using expired_at [OF u, of retention n sc k] by auto
      then show "qb_last_refill b \<le> qb_updated b \<and> qb_updated b \<le> qclock ?d'"
        using assms(4) by (simp add: times_ok_def expired_frame)
    qed
    ultimately show ?thesis using OpExpire still [of ?d'] by (simp add: expired_frame)
  qed
  then show "of_nat (admits cfg sc k x d) + credit cfg sc k (quota_step cfg x d) \<le>
      credit cfg sc k d + elapsed_credit cfg sc d (quota_step cfg x d)" and "times_ok (quota_step cfg x d)" by simp_all
qed

lemma credit_nonneg: "rates_ok cfg sc \<Longrightarrow> times_ok d \<Longrightarrow> 0 \<le> credit cfg sc k d"
proof (cases "bucket_at d sc k")
  case (Some b)
  assume ok: "rates_ok cfg sc" "times_ok d"
  have "qb_last_refill b \<le> qclock d" using ok(2) Some by (fastforce simp: times_ok_def)
  then have "0 \<le> (of_int (millis (qclock d) - millis (qb_last_refill b)) :: rat)" using millis_mono by simp
  then show ?thesis using ok(1) Some by (simp add: credit_def credit_of_def rates_ok_def)
qed (simp add: credit_def rates_ok_def)



end
