(* ===== verification/Runtime_Limits.thy ===== *)
theory Runtime_Limits
  imports Prelude
begin

text \<open>
  The limits of one agent run: the rate limit circuit of a run
  (\<^verbatim>\<open>src/github/rateLimitCircuit.ts\<close>), the circuit that the runs of an installation share
  through a table (\<^verbatim>\<open>src/github/sharedRateLimitCircuit.ts\<close>,
  \<^verbatim>\<open>src/agent/runtime/rateLimitCircuit.ts\<close>) and the tool budget of a turn
  (\<^verbatim>\<open>src/agent/runtime/turnToolBudget.ts\<close>). Times are milliseconds; every operation gets the
  value that \<open>now()\<close> answers.

  The lemmas characterise when the circuit opens by the history of requests, bound how long a shared
  opening lasts, and bound the number of turns that a budget lets a session take.
\<close>

subsection \<open>The circuit of a run\<close>

record circuit =
  consecutive :: nat
  opened_flag :: bool
  open_until_ms :: "int option"

definition rate_limit_circuit_threshold :: nat where
  "rate_limit_circuit_threshold = 3"

definition shared_rate_limit_circuit_cooldown_ms :: int where
  "shared_rate_limit_circuit_cooldown_ms = 60000"

definition create_rate_limit_circuit :: circuit where
  "create_rate_limit_circuit = \<lparr>consecutive = 0, opened_flag = False, open_until_ms = None\<rparr>"

definition clear_expired_shared_open :: "int \<Rightarrow> circuit \<Rightarrow> bool \<times> circuit" where
  "clear_expired_shared_open t c =
     (case open_until_ms c of
        None \<Rightarrow> (opened_flag c, c)
      | Some u \<Rightarrow>
          if \<not> opened_flag c then (opened_flag c, c)
          else if t < u then (True, c)
          else (False, c\<lparr>opened_flag := False, open_until_ms := None, consecutive := 0\<rparr>))"

definition circuit_is_open :: "int \<Rightarrow> circuit \<Rightarrow> bool \<times> circuit" where
  "circuit_is_open t c = clear_expired_shared_open t c"

definition record_success :: "int \<Rightarrow> circuit \<Rightarrow> circuit" where
  "record_success t c =
     (let c' = c\<lparr>consecutive := 0\<rparr>
      in case open_until_ms c of
           None \<Rightarrow> c'
         | Some u \<Rightarrow> if opened_flag c \<and> u \<le> t
             then c'\<lparr>opened_flag := False, open_until_ms := None\<rparr> else c')"

text \<open>The answer is whether this failure opened the circuit.\<close>

definition record_failure :: "nat \<Rightarrow> int \<Rightarrow> circuit \<Rightarrow> bool \<times> circuit" where
  "record_failure threshold t c =
     (case clear_expired_shared_open t c of
        (True, c1) \<Rightarrow> (False, c1)
      | (False, c1) \<Rightarrow>
          let c2 = c1\<lparr>consecutive := consecutive c1 + 1\<rparr>
          in if consecutive c2 < threshold then (False, c2)
             else (True, c2\<lparr>opened_flag := True, open_until_ms := None\<rparr>))"

definition hydrate_open_from_shared :: "nat \<Rightarrow> int option \<Rightarrow> int \<Rightarrow> circuit \<Rightarrow> circuit" where
  "hydrate_open_from_shared threshold open_until t c =
     (let u = (case open_until of Some x \<Rightarrow> x | None \<Rightarrow> t + shared_rate_limit_circuit_cooldown_ms)
      in if u \<le> t then c
         else c\<lparr>opened_flag := True, open_until_ms := Some u, consecutive := threshold\<rparr>)"

definition essential_github_tool_names :: "string list" where
  "essential_github_tool_names = [''publish_thread'', ''publish_summary'', ''submit_specialist_brief'',
     ''submitVerification'', ''submitTriage'', ''submitDescription'']"

definition github_api_tool_names :: "string list" where
  "github_api_tool_names = essential_github_tool_names @ [''searchCode'']"

definition should_short_circuit_github_tool :: "circuit option \<Rightarrow> int \<Rightarrow> string \<Rightarrow> bool" where
  "should_short_circuit_github_tool active t tool =
     (case active of
        None \<Rightarrow> False
      | Some c \<Rightarrow> fst (circuit_is_open t c) \<and> tool \<in> set github_api_tool_names \<and>
          tool \<notin> set essential_github_tool_names)"

text \<open>An executor behind the circuit: \<open>Inl\<close> is the refusal that replaces the call.\<close>

definition wrap_executor ::
  "circuit option \<Rightarrow> int \<Rightarrow> string \<Rightarrow> ('a \<Rightarrow> 'r) \<Rightarrow> 'a \<Rightarrow> string + 'r" where
  "wrap_executor active t tool executor args =
     (if should_short_circuit_github_tool active t tool then Inl ''circuit_open'' else Inr (executor args))"

subsection \<open>The circuit of an installation\<close>

record shared_circuit =
  sc_installation :: int
  sc_open_until :: int
  sc_kind :: string

definition upsert_shared_rate_limit_circuit ::
  "shared_circuit \<Rightarrow> shared_circuit list \<Rightarrow> shared_circuit list" where
  "upsert_shared_rate_limit_circuit new rows = snd (upsert sc_installation new (\<lambda>_. True)
     (\<lambda>old. old\<lparr>sc_open_until := max (sc_open_until old) (sc_open_until new), sc_kind := sc_kind new\<rparr>) rows)"

definition get_shared_rate_limit_circuit :: "shared_circuit list \<Rightarrow> int \<Rightarrow> shared_circuit option" where
  "get_shared_rate_limit_circuit rows i = row_at sc_installation i rows"

definition is_shared_rate_limit_circuit_open :: "shared_circuit list \<Rightarrow> int \<Rightarrow> int \<Rightarrow> bool" where
  "is_shared_rate_limit_circuit_open rows i t =
     (case get_shared_rate_limit_circuit rows i of None \<Rightarrow> False | Some r \<Rightarrow> t < sc_open_until r)"

definition open_shared_rate_limit_circuit ::
  "int \<Rightarrow> string \<Rightarrow> int option \<Rightarrow> int \<Rightarrow> shared_circuit list \<Rightarrow> int \<times> shared_circuit list" where
  "open_shared_rate_limit_circuit i kind cooldown t rows =
     (let u = t + (case cooldown of Some c \<Rightarrow> c | None \<Rightarrow> shared_rate_limit_circuit_cooldown_ms)
      in (u, upsert_shared_rate_limit_circuit \<lparr>sc_installation = i, sc_open_until = u, sc_kind = kind\<rparr> rows))"

definition open_shared_rate_limit_circuit_best_effort ::
  "bool \<Rightarrow> int \<Rightarrow> string \<Rightarrow> int \<Rightarrow> shared_circuit list \<Rightarrow> shared_circuit list" where
  "open_shared_rate_limit_circuit_best_effort has_client i kind t rows =
     (if \<not> has_client \<or> i \<le> 0 then rows else snd (open_shared_rate_limit_circuit i kind None t rows))"

text \<open>A new run honours what the installation's other runs have opened.\<close>

definition open_run_rate_limit_circuit :: "bool \<Rightarrow> int \<Rightarrow> int \<Rightarrow> shared_circuit list \<Rightarrow> circuit" where
  "open_run_rate_limit_circuit has_pool i t rows =
     (if \<not> has_pool \<or> i \<le> 0 then create_rate_limit_circuit
      else case get_shared_rate_limit_circuit rows i of
             None \<Rightarrow> create_rate_limit_circuit
           | Some r \<Rightarrow> if t < sc_open_until r
               then hydrate_open_from_shared rate_limit_circuit_threshold (Some (sc_open_until r)) t
                      create_rate_limit_circuit
               else create_rate_limit_circuit)"

subsection \<open>The tool budget of a turn\<close>

record tool_result =
  tr_name :: string
  tr_error :: bool

record budget =
  investigation_turns :: nat
  terminal_successes :: nat
  terminal_attempts :: nat
  budget_stopped :: bool

definition create_turn_tool_budget :: budget where
  "create_turn_tool_budget =
     \<lparr>investigation_turns = 0, terminal_successes = 0, terminal_attempts = 0, budget_stopped = False\<rparr>"

definition turn_contains_reserved_tool :: "string option \<Rightarrow> tool_result list \<Rightarrow> bool" where
  "turn_contains_reserved_tool reserved rs =
     (case reserved of None \<Rightarrow> False | Some n \<Rightarrow> list_ex (\<lambda>r. tr_name r = n) rs)"

definition is_successful_reserved_turn :: "string option \<Rightarrow> tool_result list \<Rightarrow> bool" where
  "is_successful_reserved_turn reserved rs =
     (case reserved of None \<Rightarrow> False | Some n \<Rightarrow> list_ex (\<lambda>r. tr_name r = n \<and> \<not> tr_error r) rs)"

text \<open>\<open>finishTurn\<close>: whether the session ends with this turn.\<close>

definition finish_turn :: "nat option \<Rightarrow> string option \<Rightarrow> budget \<Rightarrow> tool_result list \<Rightarrow> bool" where
  "finish_turn max_rounds reserved b rs =
     (case max_rounds of
        None \<Rightarrow> False
      | Some m \<Rightarrow>
          if rs = [] then False
          else if is_successful_reserved_turn reserved rs then True
          else if turn_contains_reserved_tool reserved rs then
            0 < terminal_successes b \<or> 2 \<le> terminal_attempts b + 1
          else if budget_stopped b \<or> m \<le> investigation_turns b + 1 then
            \<not> (reserved \<noteq> None \<and> terminal_successes b = 0 \<and> investigation_turns b < m)
          else False)"

datatype tool_block = AlreadyUsed | AttemptsExhausted | OnlyReserved

definition before_tool_call :: "nat option \<Rightarrow> string option \<Rightarrow> budget \<Rightarrow> string \<Rightarrow> tool_block option" where
  "before_tool_call max_rounds reserved b tool =
     (case (max_rounds, reserved) of
        (Some m, Some n) \<Rightarrow>
          if tool = n then
            (if 0 < terminal_successes b then Some AlreadyUsed
             else if 2 \<le> terminal_attempts b then Some AttemptsExhausted else None)
          else if m \<le> investigation_turns b then Some OnlyReserved else None
      | _ \<Rightarrow> None)"

definition has_non_reserved :: "string option \<Rightarrow> tool_result list \<Rightarrow> bool" where
  "has_non_reserved reserved rs =
     (case reserved of None \<Rightarrow> False | Some n \<Rightarrow> list_ex (\<lambda>r. tr_name r \<noteq> n) rs)"

definition count_turn :: "bool \<Rightarrow> budget \<Rightarrow> budget" where
  "count_turn c b = (if c then b\<lparr>investigation_turns := investigation_turns b + 1\<rparr> else b)"

definition observe_turn :: "nat option \<Rightarrow> string option \<Rightarrow> tool_result list \<Rightarrow> budget \<Rightarrow> budget" where
  "observe_turn max_rounds reserved rs b =
     (if rs = [] then b
      else if is_successful_reserved_turn reserved rs then
        count_turn (has_non_reserved reserved rs)
          (b\<lparr>terminal_attempts := terminal_attempts b + 1, terminal_successes := terminal_successes b + 1\<rparr>)
      else if turn_contains_reserved_tool reserved rs then
        let b' = count_turn (has_non_reserved reserved rs) (b\<lparr>terminal_attempts := terminal_attempts b + 1\<rparr>)
        in if max_rounds \<noteq> None \<and> (0 < terminal_successes b' \<or> 2 \<le> terminal_attempts b')
           then b'\<lparr>budget_stopped := True\<rparr> else b'
      else
        let b' = count_turn True b
        in case max_rounds of
             None \<Rightarrow> b'
           | Some m \<Rightarrow>
               if m \<le> investigation_turns b' \<and>
                  (reserved = None \<or> 0 < terminal_successes b' \<or> m < investigation_turns b')
               then b'\<lparr>budget_stopped := True\<rparr> else b')"

text \<open>A session: the turns that it takes until \<open>finishTurn\<close> ends it, with the budget after them.\<close>

fun session_turns ::
  "nat option \<Rightarrow> string option \<Rightarrow> budget \<Rightarrow> tool_result list list \<Rightarrow> tool_result list list \<times> budget" where
  "session_turns m reserved b [] = ([], b)"
| "session_turns m reserved b (rs # rest) =
     (if finish_turn m reserved b rs then ([rs], observe_turn m reserved rs b)
      else case session_turns m reserved (observe_turn m reserved rs b) rest of
             (taken, b') \<Rightarrow> (rs # taken, b'))"

subsection \<open>The history of a circuit\<close>

text \<open>A request of the history: whether it failed, and when.\<close>

definition circuit_step :: "nat \<Rightarrow> bool \<times> int \<Rightarrow> circuit \<Rightarrow> circuit" where
  "circuit_step threshold r c =
     (if fst r then snd (record_failure threshold (snd r) c) else record_success (snd r) c)"

definition trailing :: "bool list \<Rightarrow> nat" where
  "trailing h = length (takeWhile id (rev h))"

lemma trailing_snoc [simp]: "trailing (h @ [b]) = (if b then trailing h + 1 else 0)"
  by (simp add: trailing_def)

lemma suffix_replicate_iff: "suffix (replicate n True) h \<longleftrightarrow> n \<le> trailing h"
proof (induction n arbitrary: h)
  case 0
  then show ?case by simp
next
  case (Suc n)
  show ?case
  proof (cases h rule: rev_cases)
    case Nil
    then show ?thesis by (simp add: trailing_def)
  next
    case (snoc h' b)
    have "replicate (Suc n) True = replicate n True @ [True]" by (simp add: replicate_append_same)
    then show ?thesis using Suc snoc by (simp only: snoc_suffix_snoc) auto
  qed
qed

lemma sublist_snoc: "sublist xs (h @ [b]) \<longleftrightarrow> sublist xs h \<or> suffix xs (h @ [b])"
  by (metis prefix_order.refl rev.simps(2) rev_rev_ident sublist_Cons_right sublist_rev suffix_to_prefix)

lemma circuit_step_open:
  "opened_flag c \<Longrightarrow> open_until_ms c = None \<Longrightarrow>
     opened_flag (circuit_step n r c) \<and> open_until_ms (circuit_step n r c) = None"
  by (simp add: circuit_step_def record_failure_def record_success_def clear_expired_shared_open_def)

lemma circuit_step_closed:
  "circuit_step n r \<lparr>consecutive = m, opened_flag = False, open_until_ms = None\<rparr> =
     \<lparr>consecutive = (if fst r then m + 1 else 0), opened_flag = (fst r \<and> n \<le> m + 1), open_until_ms = None\<rparr>"
  by (simp add: circuit_step_def record_failure_def record_success_def clear_expired_shared_open_def Let_def)

lemma circuit_history:
  assumes "0 < n"
  shows "if sublist (replicate n True) (map fst h)
    then opened_flag (fold (circuit_step n) h create_rate_limit_circuit) \<and>
         open_until_ms (fold (circuit_step n) h create_rate_limit_circuit) = None
    else fold (circuit_step n) h create_rate_limit_circuit =
         \<lparr>consecutive = trailing (map fst h), opened_flag = False, open_until_ms = None\<rparr>"
proof (induction h rule: rev_induct)
  case Nil
  show ?case using assms by (simp add: create_rate_limit_circuit_def trailing_def)
next
  case (snoc r h)
  let ?c = "fold (circuit_step n) h create_rate_limit_circuit"
  have sub: "sublist (replicate n True) (map fst (h @ [r])) \<longleftrightarrow>
      sublist (replicate n True) (map fst h) \<or> n \<le> trailing (map fst h @ [fst r])"
    using sublist_snoc [of "replicate n True" "map fst h" "fst r"]
    by (simp only: suffix_replicate_iff map_append list.map)
  show ?case
  proof (cases "sublist (replicate n True) (map fst h)")
    case True
    then have "opened_flag ?c" "open_until_ms ?c = None" using snoc.IH by simp_all
    then show ?thesis using True sub circuit_step_open [of ?c n r] by simp
  next
    case False
    then have "?c = \<lparr>consecutive = trailing (map fst h), opened_flag = False, open_until_ms = None\<rparr>"
      using snoc.IH by simp
    then show ?thesis using False sub assms by (simp add: circuit_step_closed)
  qed
qed

subsection \<open>The shared table\<close>

definition shared_level :: "int \<Rightarrow> shared_circuit list \<Rightarrow> int" where
  "shared_level i rows = (case get_shared_rate_limit_circuit rows i of None \<Rightarrow> 0 | Some r \<Rightarrow> sc_open_until r)"

definition shared_ok :: "shared_circuit list \<Rightarrow> bool" where
  "shared_ok rows \<longleftrightarrow> (\<forall>r \<in> set rows. 0 \<le> sc_open_until r)"

lemma shared_row_upsert:
  "get_shared_rate_limit_circuit (upsert_shared_rate_limit_circuit new rows) i =
     (if i = sc_installation new then
        Some (case get_shared_rate_limit_circuit rows i of
            None \<Rightarrow> new
          | Some old \<Rightarrow> old\<lparr>sc_open_until := max (sc_open_until old) (sc_open_until new), sc_kind := sc_kind new\<rparr>)
      else get_shared_rate_limit_circuit rows i)"
proof -
  obtain r rows' where u: "upsert sc_installation new (\<lambda>_. True)
      (\<lambda>old. old\<lparr>sc_open_until := max (sc_open_until old) (sc_open_until new), sc_kind := sc_kind new\<rparr>) rows
      = (r, rows')" by fastforce
  have other: "row_at sc_installation i rows' = row_at sc_installation i rows" if "i \<noteq> sc_installation new"
    using row_at_upsert_other [OF u that] by simp
  from u have "row_at sc_installation (sc_installation new) rows' =
      Some (case row_at sc_installation (sc_installation new) rows of None \<Rightarrow> new
        | Some old \<Rightarrow> old\<lparr>sc_open_until := max (sc_open_until old) (sc_open_until new), sc_kind := sc_kind new\<rparr>)"
    by (cases rule: upsert_cases)
      (auto simp: row_at_append row_at_simps row_at_update_where dest: row_at_SomeD)
  with u other show ?thesis
    by (auto simp: upsert_shared_rate_limit_circuit_def get_shared_rate_limit_circuit_def)
qed

lemma shared_ok_upsert:
  assumes "shared_ok rows" and "0 \<le> sc_open_until new"
  shows "shared_ok (upsert_shared_rate_limit_circuit new rows)"
proof -
  obtain r rows' where u: "upsert sc_installation new (\<lambda>_. True)
      (\<lambda>old. old\<lparr>sc_open_until := max (sc_open_until old) (sc_open_until new), sc_kind := sc_kind new\<rparr>) rows
      = (r, rows')" by fastforce
  then have "shared_ok rows'"
    using assms by (cases rule: upsert_cases) (auto simp: shared_ok_def table_simps)
  with u show ?thesis by (simp add: upsert_shared_rate_limit_circuit_def)
qed

text \<open>An opening by a run of an installation at some time.\<close>

definition shared_step :: "int \<times> string \<times> int \<Rightarrow> shared_circuit list \<Rightarrow> shared_circuit list" where
  "shared_step x rows = open_shared_rate_limit_circuit_best_effort True (fst x) (fst (snd x)) (snd (snd x)) rows"

lemma shared_step_eq: "shared_step x rows = (if fst x \<le> 0 then rows else upsert_shared_rate_limit_circuit
    \<lparr>sc_installation = fst x, sc_open_until = snd (snd x) + shared_rate_limit_circuit_cooldown_ms,
     sc_kind = fst (snd x)\<rparr> rows)"
  by (simp add: shared_step_def open_shared_rate_limit_circuit_best_effort_def
      open_shared_rate_limit_circuit_def Let_def)

interpretation shared: monotone_machine shared_step "\<lambda>x. 0 \<le> snd (snd x)" shared_ok shared_level
proof
  fix rows :: "shared_circuit list" and x :: "int \<times> string \<times> int" and i :: int
  assume ok: "shared_ok rows" "0 \<le> snd (snd x)"
  then show "shared_ok (shared_step x rows)"
    by (auto simp: shared_step_eq shared_rate_limit_circuit_cooldown_ms_def intro!: shared_ok_upsert)
  show "shared_level i rows \<le> shared_level i (shared_step x rows)"
    using ok by (auto simp: shared_level_def shared_step_eq shared_row_upsert
        shared_rate_limit_circuit_cooldown_ms_def split: option.splits)
qed

subsection \<open>The turns of a session\<close>

lemma continued_turn:
  assumes "\<not> finish_turn (Some m) reserved b rs" and "rs \<noteq> []"
    and "terminal_attempts b \<le> 1" and "terminal_successes b = 0"
  shows "terminal_attempts (observe_turn (Some m) reserved rs b) \<le> 1 \<and>
    terminal_successes (observe_turn (Some m) reserved rs b) = 0 \<and>
    (m - investigation_turns (observe_turn (Some m) reserved rs b)) +
      (1 - terminal_attempts (observe_turn (Some m) reserved rs b)) <
    (m - investigation_turns b) + (1 - terminal_attempts b)"
  using assms by (auto simp: finish_turn_def observe_turn_def count_turn_def Let_def split: if_splits)

lemma last_turn:
  assumes "terminal_attempts b \<le> 1" and "terminal_successes b = 0"
  shows "terminal_attempts (observe_turn m reserved rs b) \<le> 2 \<and>
    terminal_successes (observe_turn m reserved rs b) \<le> 1"
  using assms by (auto simp: observe_turn_def count_turn_def Let_def split: option.splits)

lemma session_bound:
  assumes "session_turns (Some m) reserved b turns = (taken, b')" and "[] \<notin> set turns"
    and "terminal_attempts b \<le> 1" and "terminal_successes b = 0"
  shows "length taken \<le> (m - investigation_turns b) + (1 - terminal_attempts b) + 1 \<and>
    terminal_attempts b' \<le> 2 \<and> terminal_successes b' \<le> 1"
  using assms
proof (induction turns arbitrary: b taken b')
  case Nil
  then show ?case by simp
next
  case (Cons rs turns)
  show ?case
  proof (cases "finish_turn (Some m) reserved b rs")
    case True
    with Cons.prems last_turn [OF Cons.prems(3,4), of "Some m" reserved rs] show ?thesis by auto
  next
    case False
    let ?b = "observe_turn (Some m) reserved rs b"
    obtain ts c where rest: "session_turns (Some m) reserved ?b turns = (ts, c)" by fastforce
    have "rs \<noteq> []" using Cons.prems(2) by auto
    note next_turn = continued_turn [OF False this Cons.prems(3,4)]
    define left where "left = (m - investigation_turns ?b) + (1 - terminal_attempts ?b)"
    have "length ts \<le> left + 1 \<and> terminal_attempts c \<le> 2 \<and> terminal_successes c \<le> 1"
      unfolding left_def using Cons.prems(2) next_turn by (intro Cons.IH [OF rest]) auto
    moreover have "left < (m - investigation_turns b) + (1 - terminal_attempts b)"
      unfolding left_def using next_turn by blast
    moreover have "taken = rs # ts" "b' = c" using Cons.prems(1) False rest by simp_all
    ultimately show ?thesis by simp
  qed
qed

subsection \<open>Properties\<close>

text \<open>A fresh circuit is open exactly when the requests so far contain a block of consecutive
  failures as long as the threshold, at whatever times they came; a success in between starts the
  count again.\<close>

lemma circuit_opens_iff:
  assumes "0 < n"
  shows "opened_flag (fold (circuit_step n) h create_rate_limit_circuit) \<longleftrightarrow>
    sublist (replicate n True) (map fst h)"
  using circuit_history [OF assms, of h] by (simp split: if_splits)

lemma circuit_opens_iff_witness:
  "opened_flag (fold (circuit_step 2) [(True, 1), (False, 2), (True, 3), (True, 4)] create_rate_limit_circuit)
     \<longleftrightarrow> sublist [True, True] [True, False, True, True]"
  using circuit_opens_iff [of 2 "[(True, 1), (False, 2), (True, 3), (True, 4)]"]
  by (simp add: numeral_2_eq_2)

text \<open>A run that starts while its installation is throttled is blocked exactly until the shared
  opening ends, and from then on behaves like a fresh circuit: the nonessential GitHub tool is
  refused before that time and no tool is refused after it.\<close>

lemma shared_opening_blocks_until:
  assumes "0 < i" and "get_shared_rate_limit_circuit rows i = Some r" and "t0 < sc_open_until r"
  shows "let c = open_run_rate_limit_circuit True i t0 rows
    in (should_short_circuit_github_tool (Some c) t tool \<longleftrightarrow> t < sc_open_until r \<and> tool = ''searchCode'') \<and>
       (sc_open_until r \<le> t \<longrightarrow> snd (circuit_is_open t c) = create_rate_limit_circuit)"
proof -
  have "open_run_rate_limit_circuit True i t0 rows =
      \<lparr>consecutive = 3, opened_flag = True, open_until_ms = Some (sc_open_until r)\<rparr>"
    using assms by (simp add: open_run_rate_limit_circuit_def hydrate_open_from_shared_def
        create_rate_limit_circuit_def rate_limit_circuit_threshold_def)
  then show ?thesis
    by (auto simp: should_short_circuit_github_tool_def circuit_is_open_def clear_expired_shared_open_def
        github_api_tool_names_def essential_github_tool_names_def create_rate_limit_circuit_def)
qed

lemma shared_opening_blocks_until_witness:
  "should_short_circuit_github_tool (Some (open_run_rate_limit_circuit True 7 100
      [\<lparr>sc_installation = 7, sc_open_until = 500, sc_kind = ''primary''\<rparr>])) 200 ''searchCode''"
  using shared_opening_blocks_until [of 7 "[\<lparr>sc_installation = 7, sc_open_until = 500, sc_kind = ''primary''\<rparr>]"
      "\<lparr>sc_installation = 7, sc_open_until = 500, sc_kind = ''primary''\<rparr>" 100 200 "''searchCode''"]
  by (simp add: get_shared_rate_limit_circuit_def row_at_simps Let_def)

text \<open>No opening shortens another: after any openings by any runs, the time until which an
  installation is throttled is at least what it was, and at least the cooldown after the first of
  these openings when that was one of its own.\<close>

lemma shared_opening_never_shortened:
  assumes "shared_ok rows" and "\<forall>x \<in> set xs. 0 \<le> snd (snd x)"
  shows "shared_level i rows \<le> shared_level i (fold shared_step xs rows) \<and>
    (\<forall>kind t ys. xs = (i, kind, t) # ys \<and> 0 < i \<longrightarrow>
       t + shared_rate_limit_circuit_cooldown_ms \<le> shared_level i (fold shared_step xs rows))"
proof (intro conjI allI impI)
  show "shared_level i rows \<le> shared_level i (fold shared_step xs rows)"
    by (rule shared.level_run [OF assms])
  fix kind t ys assume x: "xs = (i, kind, t) # ys \<and> 0 < i"
  then have "t + shared_rate_limit_circuit_cooldown_ms \<le> shared_level i (shared_step (i, kind, t) rows)"
    by (simp add: shared_step_eq shared_level_def shared_row_upsert split: option.splits)
  also have "\<dots> \<le> shared_level i (fold shared_step ys (shared_step (i, kind, t) rows))"
    using assms x shared.inv_step [OF assms(1), of "(i, kind, t)"] by (intro shared.level_run) auto
  finally show "t + shared_rate_limit_circuit_cooldown_ms \<le> shared_level i (fold shared_step xs rows)"
    using x by simp
qed

lemma shared_opening_never_shortened_witness:
  "100 + shared_rate_limit_circuit_cooldown_ms \<le>
     shared_level 7 (fold shared_step [(7, ''primary'', 100), (7, ''secondary'', 50)] [])"
  using shared_opening_never_shortened [of "[]" "[(7, ''primary'', 100), (7, ''secondary'', 50)]" 7]
  by (simp add: shared_ok_def)

text \<open>C14. A session with a budget of \<open>m\<close> tool rounds ends after at most \<open>m + 2\<close> turns with tool
  results, whatever the tools answer, with at most two attempts and at most one success of the
  reserved terminal tool.\<close>

theorem tool_budget_ends_session:
  assumes "[] \<notin> set turns"
    and "session_turns (Some m) reserved create_turn_tool_budget turns = (taken, b)"
  shows "length taken \<le> m + 2 \<and> terminal_attempts b \<le> 2 \<and> terminal_successes b \<le> 1"
  using session_bound [OF assms(2,1)] by (simp add: create_turn_tool_budget_def)

theorem tool_budget_ends_session_witness:
  "length (fst (session_turns (Some 1) (Some ''submit'') create_turn_tool_budget
     (replicate 9 [\<lparr>tr_name = ''read'', tr_error = False\<rparr>]))) \<le> 1 + 2"
  using tool_budget_ends_session [of "replicate 9 [\<lparr>tr_name = ''read'', tr_error = False\<rparr>]" 1 "Some ''submit''"
      "fst (session_turns (Some 1) (Some ''submit'') create_turn_tool_budget
         (replicate 9 [\<lparr>tr_name = ''read'', tr_error = False\<rparr>]))"
      "snd (session_turns (Some 1) (Some ''submit'') create_turn_tool_budget
         (replicate 9 [\<lparr>tr_name = ''read'', tr_error = False\<rparr>]))"]
  by (simp del: session_turns.simps)

end
