(* ===== verification/Placement.thy ===== *)
theory Placement
  imports Diff_Index "HOL-Library.Multiset"
begin

text \<open>
  From findings to inline comments: \<^verbatim>\<open>src/review/reviewSchema.ts\<close> (severities),
  \<^verbatim>\<open>src/review/findings/reviewFindingSort.ts\<close>, \<^verbatim>\<open>src/review/placement/reviewDiffPlacement.ts\<close> and
  \<^verbatim>\<open>src/review/placement/reviewInlinePublish.ts\<close>.

  Findings are anchored through the diff index, capped to a number of inline comments, and sent as
  one review; when GitHub rejects an anchor the loop drops one placement and tries again. JavaScript
  sets of placements compare objects by identity; the model numbers the placements and compares the
  numbers. \<open>localeCompare\<close> is the parameter \<open>lc\<close>, whose laws are the locale \<open>sort_order\<close>; the two
  classifiers of GitHub errors are the parameters \<open>anchor_error\<close> and \<open>hint\<close>.

  The lemmas show that the cap keeps exactly the most severe placements, that the loop ends after at
  most one call for each placement, that it loses none, and that what it reports as posted is what
  the accepted review carried.
\<close>

subsection \<open>Stable sorting\<close>

fun insert_sorted :: "('a \<Rightarrow> 'a \<Rightarrow> int) \<Rightarrow> 'a \<Rightarrow> 'a list \<Rightarrow> 'a list" where
  "insert_sorted cmp x [] = [x]"
| "insert_sorted cmp x (y # ys) = (if cmp x y \<le> 0 then x # y # ys else y # insert_sorted cmp x ys)"

text \<open>\<open>toSorted\<close>: the stable order of a consistent comparator.\<close>

definition to_sorted :: "('a \<Rightarrow> 'a \<Rightarrow> int) \<Rightarrow> 'a list \<Rightarrow> 'a list" where
  "to_sorted cmp xs = foldr (insert_sorted cmp) xs []"

lemma to_sorted_simps [simp]:
  "to_sorted cmp [] = []" "to_sorted cmp (x # xs) = insert_sorted cmp x (to_sorted cmp xs)"
  by (simp_all add: to_sorted_def)

lemma mset_insert_sorted [simp]: "mset (insert_sorted cmp x ys) = add_mset x (mset ys)"
  by (induction ys) auto

lemma mset_to_sorted [simp]: "mset (to_sorted cmp xs) = mset xs"
  by (induction xs) auto

lemma set_insert_sorted [simp]: "set (insert_sorted cmp x ys) = insert x (set ys)"
  by (induction ys) auto

lemma set_to_sorted [simp]: "set (to_sorted cmp xs) = set xs"
  by (induction xs) auto

lemma length_to_sorted [simp]: "length (to_sorted cmp xs) = length xs"
  by (metis mset_to_sorted size_mset)

locale sort_order =
  fixes cmp :: "'a \<Rightarrow> 'a \<Rightarrow> int"
  assumes opposite: "0 < cmp x y \<longleftrightarrow> cmp y x < 0"
    and transitive: "cmp x y \<le> 0 \<Longrightarrow> cmp y z \<le> 0 \<Longrightarrow> cmp x z \<le> 0"
begin

lemma self_equal: "cmp x x = 0"
  using opposite [of x x] by linarith

lemma equal_swap: "cmp x y = 0 \<longleftrightarrow> cmp y x = 0"
  using opposite [of x y] opposite [of y x] by linarith

lemma strict_trans:
  assumes "cmp x y \<le> 0" and "cmp y z \<le> 0" and "cmp x y < 0 \<or> cmp y z < 0"
  shows "cmp x z < 0"
proof (rule ccontr)
  assume "\<not> cmp x z < 0"
  with transitive [OF assms(1,2)] have "cmp z x \<le> 0" using equal_swap [of x z] by simp
  then have "cmp y x \<le> 0" and "cmp z y \<le> 0" using transitive assms by blast+
  then show False using assms(3) opposite [of y x] opposite [of z y] by linarith
qed

lemma insert_sorted_stable:
  "sorted_wrt (\<lambda>a b. cmp a b < 0 \<or> cmp a b = 0 \<and> Q a b) ys \<Longrightarrow> \<forall>y \<in> set ys. Q x y \<Longrightarrow>
     sorted_wrt (\<lambda>a b. cmp a b < 0 \<or> cmp a b = 0 \<and> Q a b) (insert_sorted cmp x ys)"
proof (induction ys)
  case Nil
  then show ?case by simp
next
  case (Cons y ys)
  have le: "cmp y z \<le> 0" if "z \<in> set ys" for z using Cons.prems(1) that by auto
  have "cmp x z \<le> 0" if "cmp x y \<le> 0" and "z \<in> set ys" for z
    using transitive [OF that(1) le [OF that(2)]] .
  moreover have "cmp y x < 0" if "\<not> cmp x y \<le> 0" using opposite [of x y] that by simp
  ultimately show ?case using Cons by (auto simp: order_le_less)
qed

text \<open>A list that an order \<open>Q\<close> describes is sorted, and elements that compare equal stay in the order \<open>Q\<close>.\<close>

lemma to_sorted_stable:
  "sorted_wrt Q xs \<Longrightarrow> sorted_wrt (\<lambda>a b. cmp a b < 0 \<or> cmp a b = 0 \<and> Q a b) (to_sorted cmp xs)"
  by (induction xs) (auto intro: insert_sorted_stable)

lemma on_image: "sort_order (\<lambda>a b. cmp (f a) (f b))"
  by unfold_locales (auto simp: opposite intro: transitive)

lemma reversed: "sort_order (\<lambda>a b. cmp b a)"
  by unfold_locales (auto simp: opposite intro: transitive)

lemma to_sorted_le: "sorted_wrt (\<lambda>a b. cmp a b \<le> 0) (to_sorted cmp xs)"
  using to_sorted_stable [of "\<lambda>_ _. True" xs] by (auto simp: sorted_wrt_true elim!: sorted_wrt_mono_rel [rotated])

end

text \<open>\<open>first || second\<close> of two comparators, and the difference of two numbers.\<close>

lemma compare_then:
  assumes "sort_order f" and "sort_order g"
  shows "sort_order (\<lambda>a b. if f a b \<noteq> 0 then f a b else g a b)"
proof
  fix x y z
  show "0 < (if f x y \<noteq> 0 then f x y else g x y) \<longleftrightarrow> (if f y x \<noteq> 0 then f y x else g y x) < 0"
    using sort_order.opposite [OF assms(1), of x y] sort_order.equal_swap [OF assms(1), of x y]
      sort_order.opposite [OF assms(2), of x y] by auto
  assume le: "(if f x y \<noteq> 0 then f x y else g x y) \<le> 0" "(if f y z \<noteq> 0 then f y z else g y z) \<le> 0"
  then have f: "f x y \<le> 0" "f y z \<le> 0" by (auto split: if_splits)
  show "(if f x z \<noteq> 0 then f x z else g x z) \<le> 0"
  proof (cases "f x y = 0 \<and> f y z = 0")
    case True
    then show ?thesis using le sort_order.transitive [OF assms(1) f] sort_order.transitive [OF assms(2)] by auto
  next
    case False
    then show ?thesis using f sort_order.strict_trans [OF assms(1) f] by auto
  qed
qed

lemma difference_order: "sort_order (\<lambda>a b. k a - (k b :: int))"
  by unfold_locales auto

lemma on_key: "sort_order cmp \<Longrightarrow> sort_order (\<lambda>a b. cmp (k a) (k b))"
  by (rule sort_order.on_image)

subsection \<open>Findings and severities\<close>

datatype severity = P0 | P1 | P2 | P3

datatype finding_category = CatBug | CatSecurity | CatPerformance | CatStyle

record finding =
  f_severity :: severity
  f_severity_rationale :: "string option"
  f_file :: string
  f_start_line :: int
  f_end_line :: int
  f_title :: string
  f_detail :: string
  f_fix_prompt :: string
  f_suggested_code :: "string option"
  f_confidence :: "int option"
  f_category :: "finding_category option"

fun severity_rank :: "severity \<Rightarrow> int" where
  "severity_rank P0 = 0"
| "severity_rank P1 = 1"
| "severity_rank P2 = 2"
| "severity_rank P3 = 3"

definition is_inline_severity :: "severity \<Rightarrow> bool" where
  "is_inline_severity s \<longleftrightarrow> s = P0 \<or> s = P1 \<or> s = P2 \<or> s = P3"

definition review_severities :: "severity list" where
  "review_severities = [P0, P1, P2, P3]"

definition looser_rank :: "int \<Rightarrow> int \<Rightarrow> int" where
  "looser_rank l r = (if l > r then l else r)"

definition is_check_failing_severity :: "severity \<Rightarrow> severity \<Rightarrow> bool" where
  "is_check_failing_severity s threshold \<longleftrightarrow> severity_rank s \<le> severity_rank threshold"

text \<open>The three regular expressions of \<open>REVIEW_RISK_PATH_PATTERNS.test\<close>, which ignore case: a directory
  \<open>test\<close> or \<open>tests\<close>, or a name that ends with \<open>.test.\<close> or \<open>.spec.\<close> and letters.\<close>

definition is_lower_letter :: "char \<Rightarrow> bool" where
  "is_lower_letter c \<longleftrightarrow> (let n = (of_char c :: nat) in 97 \<le> n \<and> n \<le> 122)"

definition has_suffix_extension :: "string \<Rightarrow> string \<Rightarrow> bool" where
  "has_suffix_extension mid p \<longleftrightarrow>
     takeWhile is_lower_letter (rev p) \<noteq> [] \<and>
     starts (rev mid) (dropWhile is_lower_letter (rev p))"

definition is_test_path :: "string \<Rightarrow> bool" where
  "is_test_path path \<longleftrightarrow>
     (let p = map lower_char path
      in list_ex (\<lambda>d. d = ''test'' \<or> d = ''tests'') (butlast (split_on (CHR ''/'') p)) \<or>
         has_suffix_extension ''.test.'' p \<or> has_suffix_extension ''.spec.'' p)"

definition capped_finding_severity ::
  "severity \<Rightarrow> bool \<Rightarrow> string \<Rightarrow> bool \<Rightarrow> severity option \<Rightarrow> severity" where
  "capped_finding_severity sev tests_lens anchor_path judged ceiling =
     (let r0 = severity_rank sev;
          r1 = (case ceiling of
                  None \<Rightarrow>
                    let a = (if tests_lens then looser_rank r0 (severity_rank P2) else r0)
                    in if is_test_path anchor_path then looser_rank a (severity_rank P2) else a
                | Some c \<Rightarrow> looser_rank r0 (severity_rank c));
          r2 = (if judged then r1 else looser_rank r1 (severity_rank P1))
      in if nat r2 < length review_severities then review_severities ! nat r2 else sev)"

definition compare_review_findings ::
  "(string \<Rightarrow> string \<Rightarrow> int) \<Rightarrow> finding \<Rightarrow> finding \<Rightarrow> int" where
  "compare_review_findings lc a b =
     (let by_severity = severity_rank (f_severity a) - severity_rank (f_severity b);
          by_file = lc (f_file a) (f_file b)
      in if by_severity \<noteq> 0 then by_severity
         else if by_file \<noteq> 0 then by_file
         else f_start_line a - f_start_line b)"

subsection \<open>Placements\<close>

record placement =
  pl_finding :: finding
  pl_line :: "int option"
  pl_posted :: bool
  pl_url :: "string option"

definition plan_inline_placement :: "diff_index option \<Rightarrow> finding \<Rightarrow> placement" where
  "plan_inline_placement index f =
     (if \<not> is_inline_severity (f_severity f)
      then \<lparr>pl_finding = f, pl_line = None, pl_posted = False, pl_url = None\<rparr>
      else
        let line = resolve_inline_anchor_line index (f_file f) (f_start_line f) (f_end_line f)
        in \<lparr>pl_finding = f, pl_line = line, pl_posted = (line \<noteq> None), pl_url = None\<rparr>)"

definition plan_inline_placements :: "finding list \<Rightarrow> diff_index option \<Rightarrow> placement list" where
  "plan_inline_placements findings index = map (plan_inline_placement index) findings"

type_synonym 'a numbered = "nat \<times> 'a placement_scheme"

definition unpost :: "'a placement_scheme \<Rightarrow> 'a placement_scheme" where
  "unpost p = p\<lparr>pl_posted := False\<rparr>"

definition compare_numbered :: "(string \<Rightarrow> string \<Rightarrow> int) \<Rightarrow> 'a numbered \<Rightarrow> 'a numbered \<Rightarrow> int" where
  "compare_numbered lc a b = compare_review_findings lc (pl_finding (snd a)) (pl_finding (snd b))"

definition numbered_posted :: "'a placement_scheme list \<Rightarrow> 'a numbered list" where
  "numbered_posted ps = filter (\<lambda>(i, p). pl_posted p) (enumerate 0 ps)"

definition keep_indices :: "(string \<Rightarrow> string \<Rightarrow> int) \<Rightarrow> 'a placement_scheme list \<Rightarrow> nat \<Rightarrow> nat list" where
  "keep_indices lc ps limit = map fst (take limit (to_sorted (compare_numbered lc) (numbered_posted ps)))"

definition apply_inline_comment_cap ::
  "(string \<Rightarrow> string \<Rightarrow> int) \<Rightarrow> 'a placement_scheme list \<Rightarrow> nat \<Rightarrow> 'a placement_scheme list \<times> nat" where
  "apply_inline_comment_cap lc ps limit =
     (if length (numbered_posted ps) \<le> limit then (ps, 0)
      else
        let keep = keep_indices lc ps limit;
            excluded = (\<lambda>(i, p). pl_posted p \<and> i \<notin> set keep)
        in (map (\<lambda>(i, p). if excluded (i, p) then unpost p else p) (enumerate 0 ps),
            length (filter excluded (enumerate 0 ps))))"

definition review_finding_placement_key :: "finding \<Rightarrow> string" where
  "review_finding_placement_key f =
     f_file f @ '':'' @ int_text (f_start_line f) @ '':'' @ int_text (f_end_line f) @ '':'' @
     ''P'' @ int_text (severity_rank (f_severity f)) @ '':'' @ f_title f"

subsection \<open>Publishing inline comments\<close>

datatype review_event = Approve | RequestChanges | CommentOnly

record inline_comment =
  cm_path :: string
  cm_line :: int
  cm_side :: string
  cm_body :: string

record line_hint =
  lh_path :: "string option"
  lh_line :: "int option"

record ('s, 'a) inline_publish_params =
  ip_publish :: "string \<Rightarrow> review_event \<Rightarrow> inline_comment list \<Rightarrow> string option \<Rightarrow> ('s, int \<times> string) prog"
  ip_render_review :: "'a placement_scheme list \<Rightarrow> string"
  ip_event :: review_event
  ip_commit :: "string option"
  ip_placements :: "'a placement_scheme list"
  ip_render_comment :: "'a placement_scheme \<Rightarrow> string"

record 'a inline_publish_result =
  ir_review :: "(int \<times> string) option"
  ir_posted :: "'a placement_scheme list"
  ir_dropped :: "'a placement_scheme list"
  ir_fallback :: bool

definition comment_of :: "('a placement_scheme \<Rightarrow> string) \<Rightarrow> 'a placement_scheme \<Rightarrow> inline_comment" where
  "comment_of render p = \<lparr>cm_path = f_file (pl_finding p), cm_line = the (pl_line p), cm_side = ''RIGHT'',
     cm_body = render p\<rparr>"

text \<open>The comments of one attempt, with the cache of comments rendered before.\<close>

fun inline_comments_from_placements ::
  "'a numbered list \<Rightarrow> ('a placement_scheme \<Rightarrow> string) \<Rightarrow> (nat \<rightharpoonup> inline_comment) \<Rightarrow>
     inline_comment list \<times> (nat \<rightharpoonup> inline_comment)" where
  "inline_comments_from_placements [] render cache = ([], cache)"
| "inline_comments_from_placements ((i, p) # ps) render cache =
     (if \<not> pl_posted p \<or> pl_line p = None then inline_comments_from_placements ps render cache
      else case cache i of
        Some c \<Rightarrow>
          (let (cs, cache') = inline_comments_from_placements ps render cache in (c # cs, cache'))
      | None \<Rightarrow>
          let c = comment_of render p;
              (cs, cache') = inline_comments_from_placements ps render (cache(i \<mapsto> c))
          in (c # cs, cache'))"

definition matches_line_resolution_hint :: "'a placement_scheme \<Rightarrow> line_hint \<Rightarrow> bool" where
  "matches_line_resolution_hint p h \<longleftrightarrow>
     (if lh_path h \<noteq> None \<and> Some (f_file (pl_finding p)) \<noteq> lh_path h then False
      else if lh_line h \<noteq> None \<and> pl_line p \<noteq> lh_line h then False
      else lh_path h \<noteq> None \<or> lh_line h \<noteq> None)"

definition hinted_line_resolution_drop ::
  "(js_error \<Rightarrow> line_hint option) \<Rightarrow> 'a numbered list \<Rightarrow> js_error \<Rightarrow> 'a numbered list option" where
  "hinted_line_resolution_drop hint ps e =
     (case hint e of
        None \<Rightarrow> None
      | Some h \<Rightarrow>
          let matches = filter (\<lambda>(i, p). matches_line_resolution_hint p h) ps
          in if length matches = 1 then Some matches else None)"

fun fallback_line_resolution_drop :: "'a numbered list \<Rightarrow> 'a numbered list \<Rightarrow> 'a numbered list" where
  "fallback_line_resolution_drop active [] = []"
| "fallback_line_resolution_drop active (p # order) =
     (if fst p \<notin> fst ` set active then fallback_line_resolution_drop active order else [p])"

definition chosen_drop ::
  "(js_error \<Rightarrow> line_hint option) \<Rightarrow> 'a numbered list \<Rightarrow> 'a numbered list \<Rightarrow> js_error \<Rightarrow> 'a numbered list" where
  "chosen_drop hint order active e =
     (case hinted_line_resolution_drop hint active e of
        Some d \<Rightarrow> d
      | None \<Rightarrow> fallback_line_resolution_drop active order)"

definition remaining :: "'a numbered list \<Rightarrow> 'a numbered list \<Rightarrow> 'a numbered list" where
  "remaining active dropped = filter (\<lambda>p. fst p \<notin> fst ` set dropped) active"

lemma fallback_active: "p \<in> set (fallback_line_resolution_drop active order) \<Longrightarrow> fst p \<in> fst ` set active"
  by (induction order) (auto split: if_splits)

lemma hinted_active: "hinted_line_resolution_drop hint active e = Some d \<Longrightarrow> set d \<subseteq> set active"
  by (auto simp: hinted_line_resolution_drop_def Let_def split: option.splits if_splits)

lemma chosen_active: "p \<in> set (chosen_drop hint order active e) \<Longrightarrow> fst p \<in> fst ` set active"
  using hinted_active by (fastforce simp: chosen_drop_def fallback_active split: option.splits)

lemma remaining_less:
  assumes "chosen_drop hint order active e \<noteq> []"
  shows "length (remaining active (chosen_drop hint order active e)) < length active"
proof -
  obtain p where p: "p \<in> set (chosen_drop hint order active e)" using assms by (cases "chosen_drop hint order active e") auto
  then obtain q where "q \<in> set active" and "fst q = fst p" using chosen_active by fastforce
  with p show ?thesis unfolding remaining_def by (metis (no_types, lifting) image_eqI length_filter_less)
qed

function publish_attempts ::
  "(js_error \<Rightarrow> bool) \<Rightarrow> (js_error \<Rightarrow> line_hint option) \<Rightarrow> ('s, 'a) inline_publish_params \<Rightarrow> 'a numbered list \<Rightarrow>
     'a numbered list \<Rightarrow> 'a placement_scheme list \<Rightarrow> (nat \<rightharpoonup> inline_comment) \<Rightarrow>
     's \<Rightarrow> (js_error + 'a inline_publish_result) \<times> 's" where
  "publish_attempts anchor_error hint params order active dropped cache s =
     (if active = []
      then (Inr \<lparr>ir_review = None, ir_posted = [], ir_dropped = dropped, ir_fallback = (dropped \<noteq> [])\<rparr>, s)
      else
        let (comments, cache') = inline_comments_from_placements active (ip_render_comment params) cache
        in case ip_publish params (ip_render_review params dropped) (ip_event params) comments (ip_commit params) s of
             (Inr review, s') \<Rightarrow>
               (Inr \<lparr>ir_review = Some review, ir_posted = map snd active, ir_dropped = dropped,
                  ir_fallback = (dropped \<noteq> [])\<rparr>, s')
           | (Inl e, s') \<Rightarrow>
               if \<not> anchor_error e then (Inl e, s')
               else if chosen_drop hint order active e = []
               then (Inr \<lparr>ir_review = None, ir_posted = [], ir_dropped = dropped, ir_fallback = (dropped \<noteq> [])\<rparr>, s')
               else publish_attempts anchor_error hint params order
                      (remaining active (chosen_drop hint order active e))
                      (dropped @ map (\<lambda>p. unpost (snd p)) (chosen_drop hint order active e)) cache' s')"
  by pat_completeness auto

termination
  by (relation "measure (\<lambda>(_, _, _, _, active, _, _, _). length active)") (auto intro: remaining_less)

declare publish_attempts.simps [simp del]

definition eligible :: "'a placement_scheme list \<Rightarrow> 'a numbered list" where
  "eligible ps = filter (\<lambda>(i, p). pl_posted p \<and> pl_line p \<noteq> None) (enumerate 0 ps)"

definition drop_order :: "(string \<Rightarrow> string \<Rightarrow> int) \<Rightarrow> 'a numbered list \<Rightarrow> 'a numbered list" where
  "drop_order lc ps = to_sorted (\<lambda>a b. compare_numbered lc b a) ps"

definition publish_inline_review_comments ::
  "(string \<Rightarrow> string \<Rightarrow> int) \<Rightarrow> (js_error \<Rightarrow> bool) \<Rightarrow> (js_error \<Rightarrow> line_hint option) \<Rightarrow>
     ('s, 'a) inline_publish_params \<Rightarrow> ('s, 'a inline_publish_result) prog" where
  "publish_inline_review_comments lc anchor_error hint params =
     (let active = eligible (ip_placements params)
      in publish_attempts anchor_error hint params (drop_order lc active) active [] Map.empty)"

subsection \<open>Severities and their order\<close>

text \<open>The cap on a severity is the loosest of the severity itself and the limits that apply: P2 for a
  finding of the tests lens or on a test file, replaced by the ceiling of a coverage gap when one is
  given, and P1 for a finding that no judge has confirmed.\<close>

lemma capped_severity_is_loosest:
  "severity_rank (capped_finding_severity sev tests_lens path judged ceiling) =
     Max ({severity_rank sev} \<union>
       (case ceiling of
          None \<Rightarrow> if tests_lens \<or> is_test_path path then {severity_rank P2} else {}
        | Some c \<Rightarrow> {severity_rank c}) \<union>
       (if judged then {} else {severity_rank P1}))"
proof (cases ceiling)
  case None
  then show ?thesis
    by (cases sev; cases tests_lens; cases "is_test_path path"; cases judged)
      (simp_all add: capped_finding_severity_def looser_rank_def review_severities_def)
next
  case (Some c)
  then show ?thesis
    by (cases sev; cases c; cases judged)
      (simp_all add: capped_finding_severity_def looser_rank_def review_severities_def)
qed

lemma compare_review_findings_order:
  assumes "sort_order lc"
  shows "sort_order (compare_review_findings lc)"
proof
  fix x y z
  show "0 < compare_review_findings lc x y \<longleftrightarrow> compare_review_findings lc y x < 0"
    using sort_order.opposite [OF assms, of "f_file x" "f_file y"]
      sort_order.equal_swap [OF assms, of "f_file x" "f_file y"]
    by (auto simp: compare_review_findings_def Let_def)
  assume "compare_review_findings lc x y \<le> 0" and "compare_review_findings lc y z \<le> 0"
  then show "compare_review_findings lc x z \<le> 0"
    using sort_order.strict_trans [OF assms, of "f_file x" "f_file y" "f_file z"]
      sort_order.transitive [OF assms, of "f_file x" "f_file y" "f_file z"]
    by (auto simp: compare_review_findings_def Let_def split: if_splits)
qed

text \<open>One comparison of file names that has the laws: by code units.\<close>

fun code_unit_compare :: "string \<Rightarrow> string \<Rightarrow> int" where
  "code_unit_compare [] [] = 0"
| "code_unit_compare [] (y # ys) = - 1"
| "code_unit_compare (x # xs) [] = 1"
| "code_unit_compare (x # xs) (y # ys) =
     (if x = y then code_unit_compare xs ys
      else if (of_char x :: nat) < of_char y then - 1 else 1)"

lemma code_unit_opposite: "0 < code_unit_compare x y \<longleftrightarrow> code_unit_compare y x < 0"
  by (induction x y rule: code_unit_compare.induct) (auto simp: not_less_iff_gr_or_eq)

lemma code_unit_transitive:
  "code_unit_compare x y \<le> 0 \<Longrightarrow> code_unit_compare y z \<le> 0 \<Longrightarrow> code_unit_compare x z \<le> 0"
proof (induction x y arbitrary: z rule: code_unit_compare.induct)
  case (4 x xs y ys)
  then show ?case by (cases z) (auto split: if_splits)
next
  case (2 y ys)
  then show ?case by (cases z) auto
qed (auto)

interpretation code_units: sort_order code_unit_compare
  by unfold_locales (auto simp: code_unit_opposite intro: code_unit_transitive)

interpretation findings_by_code_units: sort_order "compare_review_findings code_unit_compare"
  by (rule compare_review_findings_order [OF code_units.sort_order_axioms])

subsection \<open>The cap keeps the most severe placements\<close>

lemma numbered_posted_sorted: "sorted_wrt (\<lambda>a b. fst a < fst b) (numbered_posted ps)"
proof -
  have "sorted_wrt (\<lambda>a b. fst a < fst b) (enumerate n ps)" for n
    by (simp add: sorted_wrt_map [symmetric] del: sorted_wrt_map)
  then show ?thesis by (simp add: numbered_posted_def sorted_wrt_filter)
qed

lemma in_numbered_posted: "(i, p) \<in> set (numbered_posted ps) \<longleftrightarrow> i < length ps \<and> p = ps ! i \<and> pl_posted p"
  by (auto simp: numbered_posted_def in_set_enumerate_eq)

lemma distinct_numbered_posted: "distinct (map fst (numbered_posted ps))"
proof -
  have "sorted_wrt (<) (map fst (numbered_posted ps))" using numbered_posted_sorted by (simp add: sorted_wrt_map)
  then show ?thesis by (simp add: strict_sorted_iff)
qed

lemma compare_numbered_order: "sort_order lc \<Longrightarrow> sort_order (compare_numbered lc)"
  using sort_order.on_image [OF compare_review_findings_order, of lc "\<lambda>a. pl_finding (snd a)"]
  by (simp add: compare_numbered_def [abs_def])

definition ranked_before :: "(string \<Rightarrow> string \<Rightarrow> int) \<Rightarrow> 'a numbered \<Rightarrow> 'a numbered \<Rightarrow> bool" where
  "ranked_before lc a b \<longleftrightarrow>
     compare_numbered lc a b < 0 \<or> compare_numbered lc a b = 0 \<and> fst a < fst b"

lemma ranked_posted:
  "sort_order lc \<Longrightarrow> sorted_wrt (ranked_before lc) (to_sorted (compare_numbered lc) (numbered_posted ps))"
  using sort_order.to_sorted_stable [OF compare_numbered_order numbered_posted_sorted]
  by (simp add: ranked_before_def [abs_def])

lemma sorted_wrt_take_drop: "sorted_wrt R xs \<Longrightarrow> x \<in> set (take n xs) \<Longrightarrow> y \<in> set (drop n xs) \<Longrightarrow> R x y"
  by (metis append_take_drop_id sorted_wrt_append)

lemma count_enumerate: "length (filter P (enumerate 0 xs)) = card {i. i < length xs \<and> P (i, xs ! i)}"
  by (simp add: length_filter_conv_card nth_enumerate_eq cong: conj_cong)

lemma cap_nth:
  assumes "i < length ps"
  shows "fst (apply_inline_comment_cap lc ps limit) ! i =
    (if limit < length (numbered_posted ps) \<and> pl_posted (ps ! i) \<and> i \<notin> set (keep_indices lc ps limit)
     then unpost (ps ! i) else ps ! i)"
  using assms by (simp add: apply_inline_comment_cap_def Let_def nth_enumerate_eq)

lemma cap_length [simp]: "length (fst (apply_inline_comment_cap lc ps limit)) = length ps"
  by (simp add: apply_inline_comment_cap_def Let_def)

lemma keep_indices_card: "limit \<le> length (numbered_posted ps) \<Longrightarrow> card (set (keep_indices lc ps limit)) = limit"
proof -
  assume "limit \<le> length (numbered_posted ps)"
  moreover have "distinct (map fst (to_sorted (compare_numbered lc) (numbered_posted ps)))"
    using distinct_numbered_posted [of ps]
    by (metis mset_to_sorted mset_map mset_eq_imp_distinct_iff)
  then have "distinct (keep_indices lc ps limit)"
    by (simp add: keep_indices_def distinct_map inj_on_subset [OF _ set_take_subset] distinct_take)
  ultimately show ?thesis using distinct_card [of "keep_indices lc ps limit"] by (simp add: keep_indices_def)
qed

lemma kept_is_posted: "i \<in> set (keep_indices lc ps limit) \<Longrightarrow> i < length ps \<and> pl_posted (ps ! i)"
  using set_take_subset [of limit "to_sorted (compare_numbered lc) (numbered_posted ps)"]
  by (fastforce simp: keep_indices_def in_numbered_posted)

lemma kept_before_dropped:
  assumes "sort_order lc" and "i \<in> set (keep_indices lc ps limit)"
    and "j < length ps" and "pl_posted (ps ! j)" and "j \<notin> set (keep_indices lc ps limit)"
  shows "ranked_before lc (i, ps ! i) (j, ps ! j)"
proof -
  let ?xs = "to_sorted (compare_numbered lc) (numbered_posted ps)"
  obtain p where p: "(i, p) \<in> set (take limit ?xs)" using assms(2) by (auto simp: keep_indices_def)
  then have "(i, p) \<in> set (numbered_posted ps)" by (metis in_set_takeD set_to_sorted)
  then have "p = ps ! i" by (simp add: in_numbered_posted)
  moreover have "(j, ps ! j) \<in> set ?xs" using assms(3,4) by (simp add: in_numbered_posted)
  moreover have "(j, ps ! j) \<notin> set (take limit ?xs)" using assms(5) by (force simp: keep_indices_def)
  ultimately show ?thesis
    using p sorted_wrt_take_drop [OF ranked_posted [OF assms(1)], of _ limit]
    by (metis Un_iff append_take_drop_id set_append)
qed

text \<open>C12. The cap changes a placement only by taking its posted mark; it keeps all marks when they fit and
  exactly as many as allowed otherwise; and every mark it keeps belongs to a finding that is ranked
  before every finding whose mark it takes (more severe, then by file and line, then first in the list).\<close>

theorem cap_keeps_most_severe:
  assumes "sort_order lc" and "apply_inline_comment_cap lc ps limit = (ps', excluded)"
  defines "posted \<equiv> {i. i < length ps \<and> pl_posted (ps ! i)}"
    and "kept \<equiv> {i. i < length ps' \<and> pl_posted (ps' ! i)}"
  shows "length ps' = length ps \<and>
    (\<forall>i < length ps. ps' ! i = ps ! i \<or> i \<in> posted \<and> ps' ! i = (ps ! i)\<lparr>pl_posted := False\<rparr>) \<and>
    kept \<subseteq> posted \<and> card kept = min limit (card posted) \<and> excluded = card posted - card kept \<and>
    (\<forall>i \<in> kept. \<forall>j \<in> posted - kept. ranked_before lc (i, ps ! i) (j, ps ! j))"
proof -
  let ?keep = "set (keep_indices lc ps limit)"
  have ps': "ps' = fst (apply_inline_comment_cap lc ps limit)" using assms(2) by simp
  have card_posted: "card posted = length (numbered_posted ps)"
    by (simp add: posted_def numbered_posted_def count_enumerate)
  show ?thesis
  proof (cases "limit < length (numbered_posted ps)")
    case True
    have kept: "kept = ?keep"
      using True kept_is_posted [of _ lc ps limit] by (auto simp: kept_def ps' cap_nth unpost_def split: if_splits)
    have card: "card kept = limit" using True by (simp add: kept keep_indices_card)
    have sub: "kept \<subseteq> posted" using kept_is_posted by (fastforce simp: kept posted_def)
    have "excluded = length (filter (\<lambda>(i, p). pl_posted p \<and> i \<notin> ?keep) (enumerate 0 ps))"
      using assms(2) True by (auto simp: apply_inline_comment_cap_def Let_def)
    also have "\<dots> = card (posted - kept)"
      by (simp add: count_enumerate kept posted_def set_diff_eq conj_assoc)
    finally show ?thesis
      using True sub card card_posted kept_before_dropped [OF assms(1)] card_Diff_subset [OF _ sub]
      by (auto simp: ps' cap_nth unpost_def posted_def kept)
  next
    case False
    then have "ps' = ps" and "excluded = 0" using assms(2) by (auto simp: apply_inline_comment_cap_def)
    then show ?thesis using False card_posted by (auto simp: kept_def posted_def)
  qed
qed

definition sample_finding :: "severity \<Rightarrow> int \<Rightarrow> finding" where
  "sample_finding sev line = \<lparr>f_severity = sev, f_severity_rationale = None, f_file = ''f'',
     f_start_line = line, f_end_line = line, f_title = ''t'', f_detail = ''d'', f_fix_prompt = ''p'',
     f_suggested_code = None, f_confidence = None, f_category = None\<rparr>"

definition sample_placement :: "severity \<Rightarrow> int \<Rightarrow> placement" where
  "sample_placement sev line = \<lparr>pl_finding = sample_finding sev line, pl_line = Some line, pl_posted = True, pl_url = None\<rparr>"

definition sample_placements :: "placement list" where
  "sample_placements = [sample_placement P2 7, sample_placement P0 9, sample_placement P2 5]"

lemma sample_cap:
  "apply_inline_comment_cap code_unit_compare sample_placements 2 =
     ([unpost (sample_placement P2 7), sample_placement P0 9, sample_placement P2 5], 1)"
  by code_simp

theorem cap_keeps_most_severe_witness:
  "fst (apply_inline_comment_cap code_unit_compare sample_placements 2) ! 2 = sample_placements ! 2 \<and>
   ranked_before code_unit_compare (1, sample_placements ! 1) (0, sample_placements ! 0)"
proof -
  note facts = cap_keeps_most_severe [OF code_units.sort_order_axioms sample_cap]
  have "2 < length sample_placements" by (simp add: sample_placements_def)
  then have "1 \<in> {i. i < length (fst (apply_inline_comment_cap code_unit_compare sample_placements 2)) \<and>
      pl_posted (fst (apply_inline_comment_cap code_unit_compare sample_placements 2) ! i)}"
    by (simp add: sample_cap sample_placement_def)
  moreover have "0 \<in> {i. i < length sample_placements \<and> pl_posted (sample_placements ! i)} -
      {i. i < length (fst (apply_inline_comment_cap code_unit_compare sample_placements 2)) \<and>
        pl_posted (fst (apply_inline_comment_cap code_unit_compare sample_placements 2) ! i)}"
    by (simp add: sample_cap unpost_def) (simp add: sample_placements_def sample_placement_def)
  ultimately show ?thesis using facts by (simp add: sample_cap) (simp add: sample_placements_def)
qed

subsection \<open>The attempts lose no placement\<close>

definition cache_ok :: "('a placement_scheme \<Rightarrow> string) \<Rightarrow> 'a numbered set \<Rightarrow> (nat \<rightharpoonup> inline_comment) \<Rightarrow> bool" where
  "cache_ok render U cache \<longleftrightarrow> (\<forall>(i, p) \<in> U. cache i = None \<or> cache i = Some (comment_of render p))"

definition all_eligible :: "'a numbered set \<Rightarrow> bool" where
  "all_eligible U \<longleftrightarrow> inj_on fst U \<and> (\<forall>p \<in> U. pl_posted (snd p) \<and> pl_line (snd p) \<noteq> None)"

lemma cache_ok_insert:
  "all_eligible U \<Longrightarrow> cache_ok render U cache \<Longrightarrow> (i, p) \<in> U \<Longrightarrow>
     cache_ok render U (cache(i \<mapsto> comment_of render p))"
proof -
  assume U: "all_eligible U" "cache_ok render U cache" "(i, p) \<in> U"
  have "q = p" if "(i, q) \<in> U" for q
    using inj_onD [of fst U "(i, q)" "(i, p)"] U that by (simp add: all_eligible_def)
  with U(2) show ?thesis by (fastforce simp: cache_ok_def)
qed

text \<open>The cache of rendered comments is not observable.\<close>

lemma comments_uncached:
  "all_eligible U \<Longrightarrow> cache_ok render U cache \<Longrightarrow> set ps \<subseteq> U \<Longrightarrow>
     fst (inline_comments_from_placements ps render cache) = map (\<lambda>p. comment_of render (snd p)) ps \<and>
     cache_ok render U (snd (inline_comments_from_placements ps render cache))"
proof (induction ps arbitrary: cache)
  case Nil
  then show ?case by simp
next
  case (Cons a ps)
  obtain i p where a: "a = (i, p)" by (cases a)
  have el: "pl_posted p" "pl_line p \<noteq> None" using Cons.prems a by (auto simp: all_eligible_def)
  show ?case
  proof (cases "cache i")
    case None
    obtain c where c: "c = cache(i \<mapsto> comment_of render p)" by simp
    have "cache_ok render U c"
      using cache_ok_insert Cons.prems a c by auto
    moreover have "inline_comments_from_placements (a # ps) render cache =
        (let (cs, c') = inline_comments_from_placements ps render c in (comment_of render p # cs, c'))"
      using el None by (auto simp: a c Let_def)
    ultimately show ?thesis using Cons.IH [OF Cons.prems(1), of c] Cons.prems(3) a by (simp add: split_beta)
  next
    case (Some d)
    then have "d = comment_of render p" using Cons.prems(2,3) a by (force simp: cache_ok_def)
    with Cons.IH [OF Cons.prems(1,2)] Cons.prems(3) el Some a show ?thesis by (simp add: split_beta)
  qed
qed

lemma chosen_single:
  assumes "all_eligible (set U)" and "set active \<subseteq> set U" and "set order = set U" and "active \<noteq> []"
  shows "\<exists>q \<in> set active. chosen_drop hint order active e = [q]"
proof (cases "hinted_line_resolution_drop hint active e")
  case (Some d)
  then have "length d = 1"
    by (auto simp: hinted_line_resolution_drop_def Let_def split: option.splits if_splits)
  then obtain q where "d = [q]" by (auto simp: length_Suc_conv)
  then show ?thesis using Some hinted_active [OF Some] by (simp add: chosen_drop_def)
next
  case None
  have "\<exists>q \<in> set active. fallback_line_resolution_drop active rest = [q]"
    if "set rest \<subseteq> set U" and "\<exists>q \<in> set rest. q \<in> set active" for rest
    using that
  proof (induction rest)
    case (Cons x rest)
    show ?case
    proof (cases "x \<in> set active")
      case False
      moreover have "fst x \<notin> fst ` set active"
        using False Cons.prems(1) assms(1,2) by (auto simp: all_eligible_def inj_on_def)
      ultimately show ?thesis using Cons by simp
    qed auto
  qed simp
  from this [of order] None assms show ?thesis by (cases active) (auto simp: chosen_drop_def)
qed

lemma remaining_mset:
  "distinct (map fst active) \<Longrightarrow> q \<in> set active \<Longrightarrow> mset active = add_mset q (mset (remaining active [q]))"
proof (induction active)
  case (Cons a active)
  show ?case
  proof (cases "a = q")
    case True
    with Cons.prems have "filter (\<lambda>p. fst p \<noteq> fst q) active = active"
      by (metis (mono_tags, lifting) distinct.simps(2) filter_True image_eqI list.set_map list.simps(9))
    with True show ?thesis by (simp add: remaining_def del: mset_filter)
  next
    case False
    with Cons show ?thesis by (auto simp: remaining_def)
  qed
qed simp

definition attempts_outcome ::
  "(js_error \<Rightarrow> bool) \<Rightarrow> ('s, 'a) inline_publish_params \<Rightarrow> 'a placement_scheme list \<Rightarrow> 'a placement_scheme list \<Rightarrow>
     (js_error + 'a inline_publish_result) \<times> 's \<Rightarrow> bool" where
  "attempts_outcome anchor_error params before ps res \<longleftrightarrow>
     (case fst res of
        Inl e \<Rightarrow> \<not> anchor_error e \<and>
          (\<exists>body cs s0. ip_publish params body (ip_event params) cs (ip_commit params) s0 = (Inl e, snd res))
      | Inr r \<Rightarrow>
          subseq (ir_posted r) ps \<and>
          mset (map unpost (ir_posted r)) + mset (ir_dropped r) = mset before + mset (map unpost ps) \<and>
          (ir_fallback r \<longleftrightarrow> ir_dropped r \<noteq> []) \<and>
          (case ir_review r of
             None \<Rightarrow> ir_posted r = []
           | Some review \<Rightarrow> ir_posted r \<noteq> [] \<and>
               (\<exists>s0. ip_publish params (ip_render_review params (ir_dropped r)) (ip_event params)
                  (map (comment_of (ip_render_comment params)) (ir_posted r)) (ip_commit params) s0 =
                  (Inr review, snd res))))"

lemma attempts_outcome_later:
  assumes "attempts_outcome ae params (before @ [unpost (snd q)]) (map snd (remaining active [q])) res"
    and "distinct (map fst active)" and "q \<in> set active"
  shows "attempts_outcome ae params before (map snd active) res"
proof -
  have "mset (map unpost (map snd active)) =
      add_mset (unpost (snd q)) (mset (map unpost (map snd (remaining active [q]))))"
    using remaining_mset [OF assms(2,3)] by simp
  moreover have "subseq xs (map snd active)" if "subseq xs (map snd (remaining active [q]))" for xs
    using that subseq_map [OF subseq_filter_left] by (metis remaining_def subseq_order.trans)
  ultimately show ?thesis using assms(1)
    by (auto simp: attempts_outcome_def split: sum.splits)
qed

lemma attempts_end:
  "all_eligible (set U) \<Longrightarrow> set active \<subseteq> set U \<Longrightarrow> distinct (map fst active) \<Longrightarrow> set order = set U \<Longrightarrow>
     cache_ok (ip_render_comment params) (set U) cache \<Longrightarrow>
     attempts_outcome ae params before (map snd active)
       (publish_attempts ae hint params order active before cache s)"
proof (induction "length active" arbitrary: active before cache s rule: less_induct)
  case less
  show ?case
  proof (cases "active = []")
    case True
    then show ?thesis by (simp add: publish_attempts.simps attempts_outcome_def)
  next
    case False
    let ?cc = "inline_comments_from_placements active (ip_render_comment params) cache"
    have cc: "fst ?cc = map (comment_of (ip_render_comment params)) (map snd active)"
      "cache_ok (ip_render_comment params) (set U) (snd ?cc)"
      using comments_uncached [OF less.prems(1,5,2)] by (auto simp: comp_def)
    obtain r s' where pub: "ip_publish params (ip_render_review params before) (ip_event params) (fst ?cc)
        (ip_commit params) s = (r, s')" by fastforce
    note unfolded = publish_attempts.simps [of ae hint params order active before cache s] False pub
    show ?thesis
    proof (cases r)
      case (Inr review)
      then show ?thesis using unfolded cc(1)
        by (auto simp: split_beta Let_def attempts_outcome_def)
    next
      case (Inl e)
      obtain q where q: "q \<in> set active" "chosen_drop hint order active e = [q]"
        using chosen_single [OF less.prems(1,2,4) False] by blast
      have "attempts_outcome ae params (before @ [unpost (snd q)]) (map snd (remaining active [q]))
          (publish_attempts ae hint params order (remaining active [q]) (before @ [unpost (snd q)]) (snd ?cc) s')"
        using less.prems cc(2) remaining_less [of hint order active e] q(2)
        by (intro less.hyps) (auto simp: remaining_def distinct_map inj_on_def)
      from attempts_outcome_later [OF this less.prems(3) q(1)] show ?thesis
        using unfolded Inl q(2) pub by (auto simp: split_beta Let_def) (auto simp: attempts_outcome_def)
    qed
  qed
qed

lemma eligible_facts:
  "all_eligible (set (eligible ps))" "distinct (map fst (eligible ps))"
  "map snd (eligible ps) = filter (\<lambda>p. pl_posted p \<and> pl_line p \<noteq> None) ps"
proof -
  show "all_eligible (set (eligible ps))"
    by (auto simp: all_eligible_def eligible_def inj_on_def in_set_enumerate_eq)
  have "distinct (map fst (enumerate 0 ps))" by simp
  then show "distinct (map fst (eligible ps))" unfolding eligible_def by (rule distinct_map_filter)
  have "map snd (filter (\<lambda>(i, p). Q p) (enumerate n ps)) = filter Q ps" for Q n
    by (induction ps arbitrary: n) auto
  then show "map snd (eligible ps) = filter (\<lambda>p. pl_posted p \<and> pl_line p \<noteq> None) ps" by (simp add: eligible_def)
qed

text \<open>C11. What publishing ends with, whatever GitHub answers. A thrown error is one of GitHub's that is not a
  rejected anchor. Otherwise every placement with an anchor is either posted or dropped, once, with the
  posted ones in their order; what is reported as posted is what the accepted review carried, under the
  body rendered for the dropped ones; and without a review every placement is dropped.\<close>

theorem inline_publish_outcome:
  "case publish_inline_review_comments lc anchor_error hint params s of
     (Inl e, s') \<Rightarrow> \<not> anchor_error e \<and>
       (\<exists>body cs s0. ip_publish params body (ip_event params) cs (ip_commit params) s0 = (Inl e, s'))
   | (Inr r, s') \<Rightarrow>
       let eligible_placements = filter (\<lambda>p. pl_posted p \<and> pl_line p \<noteq> None) (ip_placements params)
       in subseq (ir_posted r) eligible_placements \<and>
          mset (map unpost (ir_posted r)) + mset (ir_dropped r) = mset (map unpost eligible_placements) \<and>
          (ir_fallback r \<longleftrightarrow> ir_dropped r \<noteq> []) \<and>
          (case ir_review r of
             None \<Rightarrow> ir_posted r = []
           | Some review \<Rightarrow> ir_posted r \<noteq> [] \<and>
               (\<exists>s0. ip_publish params (ip_render_review params (ir_dropped r)) (ip_event params)
                  (map (comment_of (ip_render_comment params)) (ir_posted r)) (ip_commit params) s0 =
                  (Inr review, s')))"
proof -
  let ?el = "eligible (ip_placements params)"
  have "attempts_outcome anchor_error params [] (map snd ?el)
      (publish_attempts anchor_error hint params (drop_order lc ?el) ?el [] Map.empty s)"
    by (rule attempts_end [of ?el]) (auto simp: eligible_facts drop_order_def cache_ok_def)
  then show ?thesis
    by (simp add: publish_inline_review_comments_def attempts_outcome_def eligible_facts(3) split_beta Let_def
        split: sum.splits prod.splits)
qed

lemma attempts_calls:
  assumes "\<And>body cs. rises f 1 (ip_publish params body (ip_event params) cs (ip_commit params))"
  shows "f (snd (publish_attempts ae hint params order active before cache s)) \<le> f s + length active"
proof (induction "length active" arbitrary: active before cache s rule: less_induct)
  case less
  show ?case
  proof (cases "active = []")
    case True
    then show ?thesis by (simp add: publish_attempts.simps)
  next
    case False
    let ?cc = "inline_comments_from_placements active (ip_render_comment params) cache"
    obtain r s' where pub: "ip_publish params (ip_render_review params before) (ip_event params) (fst ?cc)
        (ip_commit params) s = (r, s')" by fastforce
    have one: "f s' \<le> f s + 1" using risesD [OF assms, of "ip_render_review params before" "fst ?cc" s] pub by simp
    have len: "1 \<le> length active" using False by (cases active) auto
    note unfolded = publish_attempts.simps [of ae hint params order active before cache s] False pub
    show ?thesis
    proof (cases r)
      case (Inr review)
      then show ?thesis using unfolded one len by (simp add: split_beta Let_def)
    next
      case (Inl e)
      let ?d = "chosen_drop hint order active e"
      have "f (snd (publish_attempts ae hint params order (remaining active ?d)
          (before @ map (\<lambda>p. unpost (snd p)) ?d) (snd ?cc) s')) \<le> f s + length active" if "?d \<noteq> []"
        using less.hyps [OF remaining_less [OF that], of "before @ map (\<lambda>p. unpost (snd p)) ?d" "snd ?cc" s']
          remaining_less [OF that] one by linarith
      then show ?thesis using unfolded Inl one len by (simp add: split_beta Let_def)
    qed
  qed
qed

text \<open>Publishing inline comments calls GitHub at most once for each placement that has an anchor: any
  counter of the outside world that one call raises by at most one is raised by at most their number.\<close>

lemma inline_publish_calls_bounded:
  assumes "\<And>body cs. rises f 1 (ip_publish params body (ip_event params) cs (ip_commit params))"
  shows "rises f (length (filter (\<lambda>p. pl_posted p \<and> pl_line p \<noteq> None) (ip_placements params)))
    (publish_inline_review_comments lc anchor_error hint params)"
proof -
  have "length (filter (\<lambda>p. pl_posted p \<and> pl_line p \<noteq> None) (ip_placements params)) =
      length (eligible (ip_placements params))"
    using arg_cong [OF eligible_facts(3), of length "ip_placements params"] by simp
  then show ?thesis
    using attempts_calls [of f params, OF assms]
    by (simp add: rises_def publish_inline_review_comments_def Let_def)
qed

text \<open>A GitHub that counts its calls and rejects every review with comments on more than one line.\<close>

definition picky_params :: "(nat, unit) inline_publish_params" where
  "picky_params = \<lparr>ip_publish = (\<lambda>body ev cs commit n.
        (if length cs \<le> 1 then Inr (7, ''url'') else Inl (PlainError ''line could not be resolved''), n + 1)),
     ip_render_review = (\<lambda>_. ''body''), ip_event = CommentOnly, ip_commit = None,
     ip_placements = sample_placements, ip_render_comment = (\<lambda>p. f_title (pl_finding p))\<rparr>"

lemma inline_publish_calls_bounded_witness:
  "rises id 3 (publish_inline_review_comments code_unit_compare (\<lambda>_. True) (\<lambda>_. None) picky_params) \<and>
   publish_inline_review_comments code_unit_compare (\<lambda>_. True) (\<lambda>_. None) picky_params 0 =
     (Inr \<lparr>ir_review = Some (7, ''url''), ir_posted = [sample_placement P0 9],
        ir_dropped = [unpost (sample_placement P2 7), unpost (sample_placement P2 5)], ir_fallback = True\<rparr>, 3)"
proof
  have "rises id 1 (ip_publish picky_params body (ip_event picky_params) cs (ip_commit picky_params))" for body cs
    by (simp add: rises_def picky_params_def)
  note bound = inline_publish_calls_bounded [of id picky_params, OF this]
  have "length (filter (\<lambda>p. pl_posted p \<and> pl_line p \<noteq> None) (ip_placements picky_params)) = 3"
    by (simp add: picky_params_def sample_placements_def sample_placement_def)
  with bound show "rises id 3 (publish_inline_review_comments code_unit_compare (\<lambda>_. True) (\<lambda>_. None) picky_params)"
    by simp
  show "publish_inline_review_comments code_unit_compare (\<lambda>_. True) (\<lambda>_. None) picky_params 0 =
     (Inr \<lparr>ir_review = Some (7, ''url''), ir_posted = [sample_placement P0 9],
        ir_dropped = [unpost (sample_placement P2 7), unpost (sample_placement P2 5)], ir_fallback = True\<rparr>, 3)"
    by code_simp
qed

subsection \<open>The order of the drops\<close>

lemma fallback_first:
  "sorted_wrt R order \<Longrightarrow> fallback_line_resolution_drop active order = [q] \<Longrightarrow>
     x \<in> set order \<Longrightarrow> fst x \<in> fst ` set active \<Longrightarrow> x = q \<or> R q x"
  by (induction order) (auto split: if_splits)

text \<open>Without a hint the loop gives up the least severe placement it still has: no remaining placement
  ranks after the one that the fallback drops.\<close>

lemma fallback_drops_least_severe:
  assumes "sort_order lc" and "set active \<subseteq> set all" and "x \<in> set active"
    and "fallback_line_resolution_drop active (drop_order lc all) = [q]"
  shows "compare_numbered lc x q \<le> 0"
proof -
  have "sort_order (\<lambda>a b. compare_numbered lc b a)"
    by (rule sort_order.reversed [OF compare_numbered_order [OF assms(1)]])
  from sort_order.to_sorted_stable [OF this, of "\<lambda>_ _. True" all]
  have "sorted_wrt (\<lambda>a b. compare_numbered lc b a \<le> 0) (drop_order lc all)"
    by (auto simp: drop_order_def sorted_wrt_true elim: sorted_wrt_mono_rel [rotated])
  moreover have "compare_numbered lc q q \<le> 0"
    by (simp add: sort_order.self_equal [OF compare_numbered_order [OF assms(1)]])
  ultimately show ?thesis using fallback_first [OF _ assms(4), of _ x] assms(2,3)
    by (auto simp: drop_order_def)
qed

lemma fallback_drops_least_severe_witness:
  "compare_numbered code_unit_compare (1, sample_placement P0 9) (0, sample_placement P2 7) \<le> 0"
proof -
  have "fallback_line_resolution_drop (eligible sample_placements)
      (drop_order code_unit_compare (eligible sample_placements)) = [(0, sample_placement P2 7)]"
    by code_simp
  moreover have "(1, sample_placement P0 9) \<in> set (eligible sample_placements)"
    by (simp add: eligible_def sample_placements_def sample_placement_def)
  ultimately show ?thesis
    using fallback_drops_least_severe [OF code_units.sort_order_axioms subset_refl] by blast
qed

end
