(* ===== verification/Finding_Markers.thy ===== *)
theory Finding_Markers
  imports Js_Text Placement
begin

text \<open>
  The identity of a finding: \<^verbatim>\<open>src/review/findingIdentity/findingMarker.ts\<close> and
  \<open>neutralizeMarkerEcho\<close> of \<^verbatim>\<open>src/prompts/shared/safety.ts\<close>. A finding keeps its identity in
  comments that the program writes on GitHub: a marker line in the first comment of a thread, one marker
  for each row of the summary, and receipts for findings that were closed.

  Random bytes and the hash are arguments. The lemmas show that identities are well formed and differ when
  their bytes differ, that each kind of marker is read back from a comment that contains it, and that
  neutralised text contains none.
\<close>

subsection \<open>Identities\<close>

type_synonym finding_id = string

datatype finding_source = SourceReview | SourceCorrectness | SourceSecurity | SourceQuality | SourceTests

fun source_text :: "finding_source \<Rightarrow> string" where
  "source_text SourceReview = ''review''"
| "source_text SourceCorrectness = ''correctness''"
| "source_text SourceSecurity = ''security''"
| "source_text SourceQuality = ''quality''"
| "source_text SourceTests = ''tests''"

definition specialist_ids :: "finding_source list" where
  "specialist_ids = [SourceCorrectness, SourceSecurity, SourceQuality, SourceTests]"

definition finding_source_of :: "string \<Rightarrow> finding_source option" where
  "finding_source_of s = find (\<lambda>x. source_text x = s) (SourceReview # specialist_ids)"

fun severity_text :: "severity \<Rightarrow> string" where
  "severity_text P0 = ''P0''"
| "severity_text P1 = ''P1''"
| "severity_text P2 = ''P2''"
| "severity_text P3 = ''P3''"

definition finding_severity_of :: "string \<Rightarrow> severity option" where
  "finding_severity_of s = find (\<lambda>x. severity_text x = s) [P0, P1, P2, P3]"

definition crockford :: string where
  "crockford = ''0123456789ABCDEFGHJKMNPQRSTVWXYZ''"

definition id_body_chars :: nat where
  "id_body_chars = 26"

fun base32_loop :: "nat \<Rightarrow> nat \<Rightarrow> string \<Rightarrow> string" where
  "base32_loop 0 v out = out"
| "base32_loop (Suc n) v out = base32_loop n (v div 32) (crockford ! (v mod 32) # out)"

definition bytes_value :: "nat list \<Rightarrow> nat" where
  "bytes_value bytes = foldl (\<lambda>v b. v * 256 + b) 0 bytes"

definition base32 :: "nat list \<Rightarrow> string" where
  "base32 bytes = base32_loop id_body_chars (bytes_value bytes) []"

definition is_finding_id :: "string \<Rightarrow> bool" where
  "is_finding_id s \<longleftrightarrow> (case s of
      p # u # body \<Rightarrow> p \<in> set ''fl'' \<and> u = CHR ''_'' \<and> length body = id_body_chars \<and>
        list_all (\<lambda>c. c \<in> set crockford) body
    | _ \<Rightarrow> False)"

definition new_finding_id :: "char \<Rightarrow> nat list \<Rightarrow> js_error + finding_id" where
  "new_finding_id p bytes =
     (let v = p # CHR ''_'' # base32 bytes
      in if is_finding_id v then Inr v else Inl (PlainError ''minted finding id is malformed''))"

definition mint_finding_id :: "nat list \<Rightarrow> js_error + finding_id" where
  "mint_finding_id random_bytes = new_finding_id CHR ''f'' random_bytes"

fun join_text :: "string \<Rightarrow> string list \<Rightarrow> string" where
  "join_text sep [] = []"
| "join_text sep [s] = s"
| "join_text sep (s # ss) = s @ sep @ join_text sep ss"

definition derived_finding_id :: "(string \<Rightarrow> nat list) \<Rightarrow> string list \<Rightarrow> js_error + finding_id" where
  "derived_finding_id sha256 material =
     new_finding_id CHR ''f'' (take 16 (sha256 (join_text [CHR 0x00] material)))"

definition legacy_finding_id :: "(string \<Rightarrow> nat list) \<Rightarrow> string \<Rightarrow> js_error + finding_id" where
  "legacy_finding_id sha256 thread = new_finding_id CHR ''l'' (take 16 (sha256 thread))"

subsection \<open>Markers\<close>

record finding_marker =
  mk_id :: finding_id
  mk_lens :: finding_source
  mk_severity :: severity
  mk_reopens :: "finding_id option"

record finding_row = finding_marker +
  rw_path :: string
  rw_line :: "nat option"
  rw_title :: string

datatype finding_receipt =
    DuplicateReceipt finding_id finding_id
  | FixedReceipt finding_id
  | DismissedReceipt finding_id

fun receipt_id :: "finding_receipt \<Rightarrow> finding_id" where
  "receipt_id (DuplicateReceipt i _) = i"
| "receipt_id (FixedReceipt i) = i"
| "receipt_id (DismissedReceipt i) = i"

record owned_comment =
  oc_body :: string
  oc_author :: "string option"

definition drop_bot_suffix :: "string \<Rightarrow> string" where
  "drop_bot_suffix s =
     (if suffix ''[bot]'' s then take (length s - 5) s else s)"

definition normalized_login :: "string \<Rightarrow> string" where
  "normalized_login s = drop_bot_suffix (map lower_char (js_trim s))"

definition is_bot_author :: "string option \<Rightarrow> string \<Rightarrow> bool" where
  "is_bot_author author login \<longleftrightarrow>
     (case author of None \<Rightarrow> False | Some a \<Rightarrow> normalized_login a = normalized_login login)"

definition marker_pieces :: "piece list" where
  "marker_pieces = [Lit ''<!-- pr-agent:finding v='', Tok, Lit '' id='', Tok, Lit '' lens='', Tok, Lit '' sev='', Tok]"

definition row_pieces :: "piece list" where
  "row_pieces = [Lit ''<!-- pr-agent:finding-row v='', Tok, Lit '' id='', Tok, Lit '' lens='', Tok,
     Lit '' sev='', Tok, Lit '' path='', Tok, Lit '' line='', Tok, Lit '' title='', Tok]"

definition receipt_pieces :: "piece list" where
  "receipt_pieces = [Lit ''<!-- pr-agent:receipt v='', Tok, Lit '' kind='', Tok, Lit '' id='', Tok]"

text \<open>A pattern with an optional last group, \<open>(?: name=(\S+))? -->\<close>.\<close>

definition match_optional :: "piece list \<Rightarrow> string \<Rightarrow> string \<Rightarrow> (string list \<times> string) option" where
  "match_optional ps name s =
     (case match_pieces (ps @ [Lit name, Tok, Lit '' -->'']) s of
        Some m \<Rightarrow> Some m
      | None \<Rightarrow> match_pieces (ps @ [Lit '' -->'']) s)"

text \<open>The matches of a pattern between \<open>^\<close> and \<open>$\<close>: the lines that it matches as a whole.\<close>

definition line_match :: "piece list \<Rightarrow> string \<Rightarrow> string \<Rightarrow> string list option" where
  "line_match ps name l =
     (case match_optional ps name l of Some (ts, []) \<Rightarrow> Some ts | _ \<Rightarrow> None)"

definition line_matches :: "piece list \<Rightarrow> string \<Rightarrow> string \<Rightarrow> string list list" where
  "line_matches ps name body = List.map_filter (line_match ps name) (text_lines body)"

definition reopens_text :: "finding_id option \<Rightarrow> string" where
  "reopens_text r = (case r of None \<Rightarrow> [] | Some i \<Rightarrow> '' reopens='' @ i)"

definition render_finding_marker :: "finding_marker \<Rightarrow> string" where
  "render_finding_marker m =
     ''<!-- pr-agent:finding v=1 id='' @ mk_id m @ '' lens='' @ source_text (mk_lens m) @
     '' sev='' @ severity_text (mk_severity m) @ reopens_text (mk_reopens m) @ '' -->''"

definition parse_marker_fields ::
  "string \<Rightarrow> string \<Rightarrow> string \<Rightarrow> string \<Rightarrow> string option \<Rightarrow> finding_marker option" where
  "parse_marker_fields version i lens sev reopens =
     (if version \<noteq> ''1'' then None
      else case (is_finding_id i, finding_source_of lens, finding_severity_of sev) of
        (True, Some l, Some s) \<Rightarrow>
          (case reopens of
             None \<Rightarrow> Some \<lparr>mk_id = i, mk_lens = l, mk_severity = s, mk_reopens = None\<rparr>
           | Some r \<Rightarrow>
               if \<not> is_finding_id r then None
               else Some \<lparr>mk_id = i, mk_lens = l, mk_severity = s, mk_reopens = Some r\<rparr>)
      | _ \<Rightarrow> None)"

fun marker_of_tokens :: "string list \<Rightarrow> finding_marker option" where
  "marker_of_tokens [v, i, l, s] = parse_marker_fields v i l s None"
| "marker_of_tokens [v, i, l, s, r] = parse_marker_fields v i l s (Some r)"
| "marker_of_tokens _ = None"

definition parse_owned_finding_marker ::
  "'a owned_comment_scheme \<Rightarrow> bool \<Rightarrow> string \<Rightarrow> finding_marker option" where
  "parse_owned_finding_marker c is_root login =
     (if \<not> is_root \<or> \<not> is_bot_author (oc_author c) login then None
      else case line_matches marker_pieces '' reopens='' (oc_body c) of
        [ts] \<Rightarrow> marker_of_tokens ts
      | _ \<Rightarrow> None)"

definition render_finding_row_marker :: "finding_row \<Rightarrow> string" where
  "render_finding_row_marker r =
     ''<!-- pr-agent:finding-row v=1 id='' @ mk_id r @ '' lens='' @ source_text (mk_lens r) @
     '' sev='' @ severity_text (mk_severity r) @ '' path='' @ encode_uri (rw_path r) @
     '' line='' @ (case rw_line r of None \<Rightarrow> ''-'' | Some n \<Rightarrow> nat_text n) @
     '' title='' @ encode_uri (rw_title r) @ reopens_text (mk_reopens r) @ '' -->''"

text \<open>\<open>Some None\<close> is the value \<open>null\<close> and \<open>None\<close> is \<open>undefined\<close>.\<close>

definition parse_row_line :: "string \<Rightarrow> nat option option" where
  "parse_row_line s =
     (if s = ''-'' then Some None
      else if s \<noteq> [] \<and> hd s \<noteq> CHR ''0'' \<and> list_all is_digit s then Some (Some (number_of s)) else None)"

definition parse_row_fields ::
  "string \<Rightarrow> string \<Rightarrow> string \<Rightarrow> string \<Rightarrow> string \<Rightarrow> string \<Rightarrow> string \<Rightarrow> string option \<Rightarrow> finding_row option" where
  "parse_row_fields version i lens sev path line title reopens =
     (case (parse_marker_fields version i lens sev reopens, decode_uri path, decode_uri title, parse_row_line line) of
        (Some m, Some p, Some t, Some n) \<Rightarrow>
          if p = [] then None
          else Some \<lparr>mk_id = mk_id m, mk_lens = mk_lens m, mk_severity = mk_severity m,
            mk_reopens = mk_reopens m, rw_path = p, rw_line = n, rw_title = t\<rparr>
      | _ \<Rightarrow> None)"

fun row_of_tokens :: "string list \<Rightarrow> finding_row option" where
  "row_of_tokens [v, i, l, s, p, n, t] = parse_row_fields v i l s p n t None"
| "row_of_tokens [v, i, l, s, p, n, t, r] = parse_row_fields v i l s p n t (Some r)"
| "row_of_tokens _ = None"

lemma row_match_shorter: "match_optional row_pieces name s = Some (ts, r) \<Longrightarrow> length r < length s"
  by (auto simp: match_optional_def row_pieces_def simp del: match_pieces.simps split: option.splits
      intro: match_literal_shorter)

text \<open>All matches of the pattern of a row, from left to right and without overlap.\<close>

function row_matches :: "string \<Rightarrow> string list list" where
  "row_matches [] = []"
| "row_matches (c # s) =
     (case match_optional row_pieces '' reopens='' (c # s) of
        Some (ts, r) \<Rightarrow> ts # row_matches r
      | None \<Rightarrow> row_matches s)"
  by pat_completeness auto
termination by (relation "measure length") (auto dest: row_match_shorter)

definition parse_owned_finding_rows :: "'a owned_comment_scheme \<Rightarrow> string \<Rightarrow> finding_row list" where
  "parse_owned_finding_rows c login =
     (if \<not> is_bot_author (oc_author c) login then []
      else List.map_filter row_of_tokens (row_matches (oc_body c)))"

subsection \<open>Receipts\<close>

fun render_receipt :: "finding_receipt \<Rightarrow> string" where
  "render_receipt (DuplicateReceipt i c) =
     ''<!-- pr-agent:receipt v=1 kind=duplicate id='' @ i @ '' canonical='' @ c @ '' -->''"
| "render_receipt (FixedReceipt i) = ''<!-- pr-agent:receipt v=1 kind=fixed id='' @ i @ '' -->''"
| "render_receipt (DismissedReceipt i) = ''<!-- pr-agent:receipt v=1 kind=dismissed id='' @ i @ '' -->''"

definition parse_receipt_fields :: "string \<Rightarrow> string \<Rightarrow> string \<Rightarrow> string option \<Rightarrow> finding_receipt option" where
  "parse_receipt_fields version kind i canonical =
     (if version \<noteq> ''1'' \<or> \<not> is_finding_id i then None
      else if kind = ''duplicate'' then
        (case canonical of
           Some c \<Rightarrow> if is_finding_id c then Some (DuplicateReceipt i c) else None
         | None \<Rightarrow> None)
      else if canonical \<noteq> None then None
      else if kind = ''fixed'' then Some (FixedReceipt i)
      else if kind = ''dismissed'' then Some (DismissedReceipt i) else None)"

fun receipt_of_tokens :: "string list \<Rightarrow> finding_receipt option" where
  "receipt_of_tokens [v, k, i] = parse_receipt_fields v k i None"
| "receipt_of_tokens [v, k, i, c] = parse_receipt_fields v k i (Some c)"
| "receipt_of_tokens _ = None"

definition parse_owned_receipts :: "'a owned_comment_scheme list \<Rightarrow> string \<Rightarrow> finding_receipt list" where
  "parse_owned_receipts cs login = concat (map (\<lambda>c.
     if \<not> is_bot_author (oc_author c) login then []
     else List.map_filter receipt_of_tokens (line_matches receipt_pieces '' canonical='' (oc_body c))) cs)"

subsection \<open>Echoes of markers\<close>

definition word_char :: "char \<Rightarrow> bool" where
  "word_char c \<longleftrightarrow> (let n = byte c in 48 \<le> n \<and> n \<le> 57 \<or> 65 \<le> n \<and> n \<le> 90 \<or> 97 \<le> n \<and> n \<le> 122 \<or> n = 95)"

definition echo_words :: "string list" where
  "echo_words = [''pr-agent:finding-row'', ''pr-agent:finding'', ''pr-agent:receipt'', ''pr-agent:objection-answer'']"

text \<open>A word in letters of any case that ends where it ends.\<close>

definition echo_word_at :: "string \<Rightarrow> string \<Rightarrow> bool" where
  "echo_word_at w s \<longleftrightarrow> map lower_char (take (length w) s) = w \<and>
     (case drop (length w) s of [] \<Rightarrow> True | c # _ \<Rightarrow> \<not> word_char c)"

definition echo_at :: "string \<Rightarrow> bool" where
  "echo_at s \<longleftrightarrow> list_ex (\<lambda>w. echo_word_at w s) echo_words"

function neutralize_marker_echo :: "string \<Rightarrow> string" where
  "neutralize_marker_echo [] = []"
| "neutralize_marker_echo (c # s) =
     (if echo_at (c # s)
      then ''[neutralized marker]'' @ neutralize_marker_echo (dropWhile (\<lambda>x. x \<noteq> newline) s)
      else c # neutralize_marker_echo s)"
  by pat_completeness auto
termination by (relation "measure length") (auto simp: le_imp_less_Suc length_dropWhile_le)

subsection \<open>Identities are well formed and differ\<close>

definition bytes16 :: "nat list \<Rightarrow> bool" where
  "bytes16 bs \<longleftrightarrow> length bs = 16 \<and> list_all (\<lambda>b. b < 256) bs"

lemma base32_loop_length [simp]: "length (base32_loop n v out) = n + length out"
  by (induction n arbitrary: v out) simp_all

lemma crockford_length: "length crockford = 32"
  by (simp add: crockford_def)

lemma base32_loop_chars:
  "list_all (\<lambda>c. c \<in> set crockford) out \<Longrightarrow> list_all (\<lambda>c. c \<in> set crockford) (base32_loop n v out)"
  by (induction n arbitrary: v out) (simp_all add: crockford_length)

lemma crockford_inj: "i < 32 \<Longrightarrow> j < 32 \<Longrightarrow> crockford ! i = crockford ! j \<longleftrightarrow> i = j"
  by (rule nth_eq_iff_index_eq) (simp_all add: crockford_def)

lemma base32_loop_inj:
  "base32_loop n v out = base32_loop n w out' \<Longrightarrow> length out = length out' \<Longrightarrow> v < 32 ^ n \<Longrightarrow> w < 32 ^ n \<Longrightarrow>
     v = w \<and> out = out'"
proof (induction n arbitrary: v w out out')
  case (Suc n)
  have "v div 32 = w div 32 \<and> crockford ! (v mod 32) # out = crockford ! (w mod 32) # out'"
    using Suc.prems by (intro Suc.IH) (simp_all add: less_mult_imp_div_less mult.commute)
  then have "v div 32 = w div 32" "v mod 32 = w mod 32" "out = out'" by (simp_all add: crockford_inj)
  then show ?case by (metis div_mult_mod_eq)
qed simp

lemma bytes_value_snoc [simp]: "bytes_value (bs @ [b]) = bytes_value bs * 256 + b"
  by (simp add: bytes_value_def)

lemma bytes_value_less: "list_all (\<lambda>b. b < 256) bs \<Longrightarrow> bytes_value bs < 256 ^ length bs"
proof (induction bs rule: rev_induct)
  case (snoc b bs)
  then show ?case by simp
qed (simp add: bytes_value_def)

lemma bytes_value_inj:
  "length bs = length cs \<Longrightarrow> list_all (\<lambda>b. b < 256) bs \<Longrightarrow> list_all (\<lambda>b. b < 256) cs \<Longrightarrow>
     bytes_value bs = bytes_value cs \<Longrightarrow> bs = cs"
proof (induction bs arbitrary: cs rule: rev_induct)
  case (snoc b bs)
  obtain c cs' where cs: "cs = cs' @ [c]" using snoc.prems(1) by (cases cs rule: rev_cases) auto
  have "b = c" and "bytes_value bs = bytes_value cs'"
    using snoc.prems(2,3,4) cs by (auto simp: mod_mult_self3 dest: arg_cong [of _ _ "\<lambda>n. n mod 256"])
  with snoc cs show ?case by simp
qed simp

lemma base32_inj: "bytes16 bs \<Longrightarrow> bytes16 cs \<Longrightarrow> base32 bs = base32 cs \<Longrightarrow> bs = cs"
proof -
  assume b: "bytes16 bs" and c: "bytes16 cs" and e: "base32 bs = base32 cs"
  have less: "bytes_value xs < 32 ^ 26" if "bytes16 xs" for xs
    using that bytes_value_less [of xs] by (simp add: bytes16_def)
  have "bytes_value bs = bytes_value cs"
    using base32_loop_inj [of 26 "bytes_value bs" "[]" "bytes_value cs" "[]"] e less [OF b] less [OF c]
    by (simp add: base32_def id_body_chars_def)
  then show "bs = cs" using b c by (intro bytes_value_inj) (simp_all add: bytes16_def)
qed

lemma new_finding_id_ok: "p \<in> set ''fl'' \<Longrightarrow> new_finding_id p bs = Inr (p # CHR ''_'' # base32 bs)"
  by (auto simp: new_finding_id_def is_finding_id_def base32_def base32_loop_chars Let_def)

text \<open>Identities: sixteen bytes always give a well-formed identity, so the guard of the code never
  fires, and identities are equal only when their kind and all their bytes are.\<close>

lemma finding_ids_injective:
  assumes "bytes16 bs" and "bytes16 cs" and "p \<in> set ''fl''" and "q \<in> set ''fl''"
  shows "(\<exists>i. new_finding_id p bs = Inr i \<and> is_finding_id i) \<and>
    (new_finding_id p bs = new_finding_id q cs \<longleftrightarrow> p = q \<and> bs = cs)"
proof -
  have "is_finding_id (p # CHR ''_'' # base32 bs)"
    using assms(3) by (auto simp: is_finding_id_def base32_def base32_loop_chars)
  then show ?thesis using assms base32_inj by (auto simp: new_finding_id_ok)
qed

lemma finding_ids_injective_witness:
  "mint_finding_id (replicate 16 0) \<noteq> mint_finding_id (replicate 15 0 @ [1])"
  using finding_ids_injective [of "replicate 16 0" "replicate 15 0 @ [1]" "CHR ''f''" "CHR ''f''"]
  by (simp add: bytes16_def mint_finding_id_def numeral_eq_Suc)

subsection \<open>Reading markers back\<close>

lemma crockford_plain: "c \<in> set crockford \<Longrightarrow> plain_char c"
  by (auto simp: crockford_def plain_char_def)

lemma id_plain: "is_finding_id i \<Longrightarrow> plain_token i"
proof -
  assume "is_finding_id i"
  then obtain p body where i: "i = p # CHR ''_'' # body" "p \<in> set ''fl''" "list_all (\<lambda>c. c \<in> set crockford) body"
    by (auto simp: is_finding_id_def split: list.splits)
  then have "list_all plain_char body" by (auto simp: list_all_iff crockford_plain)
  with i show ?thesis by (auto simp: plain_token_def plain_char_def)
qed

lemma source_plain [simp]: "plain_token (source_text x)"
  by (cases x) (simp_all add: plain_token_def plain_char_def)

lemma severity_plain [simp]: "plain_token (severity_text x)"
  by (cases x) (simp_all add: plain_token_def plain_char_def)

lemma source_of_text [simp]: "finding_source_of (source_text x) = Some x"
  by (cases x) (simp_all add: finding_source_of_def specialist_ids_def)

lemma severity_of_text [simp]: "finding_severity_of (severity_text x) = Some x"
  by (cases x) (simp_all add: finding_severity_of_def)

lemma digit_plain: "n < 10 \<Longrightarrow> plain_char (digit_char n)"
  using digit_char_table [of n] by (auto simp: digit_char_def plain_char_def)

lemma nat_text_plain [simp]: "plain_token (nat_text n)"
proof (induction n rule: nat_text_induct)
  case (digit n)
  then show ?case by (simp add: nat_text.simps [of n] plain_token_def digit_plain)
next
  case (more n)
  then show ?case by (simp add: nat_text.simps [of n] plain_token_def digit_plain)
qed

lemma encode_plain_token: "s \<noteq> [] \<Longrightarrow> plain_token (encode_uri s)"
  by (simp add: plain_token_def encode_plain encode_empty)

lemma one_plain [simp]: "plain_token ''1''"
  by (simp add: plain_token_def plain_char_def)

text \<open>A filled pattern with its optional group is matched with exactly its tokens.\<close>

definition group_text :: "string \<Rightarrow> string option \<Rightarrow> string" where
  "group_text name r = (case r of None \<Rightarrow> [] | Some x \<Rightarrow> name @ x)"

lemma match_optional_fill:
  assumes "spaced ps" and "length ts = token_count ps" and "list_all plain_token ts"
    and "name = CHR '' '' # n # name'" and "n \<noteq> CHR ''-''"
    and "\<forall>x. r = Some x \<longrightarrow> plain_token x"
  shows "match_optional ps name (fill_pieces ps ts @ group_text name r @ '' -->'' @ rest) =
    Some (ts @ (case r of None \<Rightarrow> [] | Some x \<Rightarrow> [x]), rest)"
proof (cases r)
  case None
  have "match_pieces (ps @ [Lit name, Tok, Lit '' -->'']) (fill_pieces ps ts @ '' -->'' @ rest) = None"
    using match_fill [OF assms(1,2,3), of "'' -->'' @ rest" "''-->'' @ rest" "[Lit name, Tok, Lit '' -->'']"] assms(4,5)
    by (simp add: expect_def)
  moreover have "match_pieces (ps @ [Lit '' -->'']) (fill_pieces ps ts @ '' -->'' @ rest) = Some (ts, rest)"
    using match_fill [OF assms(1,2,3), of "'' -->'' @ rest" "''-->'' @ rest" "[Lit '' -->'']"]
    by (simp add: expect_def)
  ultimately show ?thesis using None by (simp add: match_optional_def group_text_def)
next
  case (Some x)
  then have x: "x \<noteq> []" "list_all plain_char x" using assms(6) by (auto simp: plain_token_def)
  have "match_pieces [Lit name, Tok, Lit '' -->''] (name @ x @ '' -->'' @ rest) = Some ([x], rest)"
    using x take_token_plain [OF x(2), of "''-->'' @ rest"] by (simp add: expect_def)
  then have "match_pieces (ps @ [Lit name, Tok, Lit '' -->'']) (fill_pieces ps ts @ name @ x @ '' -->'' @ rest) =
      Some (ts @ [x], rest)"
    using match_fill [OF assms(1,2,3), of "name @ x @ '' -->'' @ rest" "n # name' @ x @ '' -->'' @ rest"
        "[Lit name, Tok, Lit '' -->'']"] assms(4) by (simp add: option.case_eq_if)
  then show ?thesis using Some by (simp add: match_optional_def group_text_def)
qed

lemma fill_one_line:
  "list_all plain_token ts \<Longrightarrow>
    list_all (\<lambda>p. case p of Lit l \<Rightarrow> list_all (\<lambda>c. plain_char c \<or> c = CHR '' '') l | Tok \<Rightarrow> True) ps \<Longrightarrow>
    list_all (\<lambda>c. plain_char c \<or> c = CHR '' '') (fill_pieces ps ts)"
proof (induction ps ts rule: fill_pieces.induct)
  case (3 ps ts)
  then show ?case by (cases ts) (auto simp: plain_token_def list_all_iff)
qed simp_all

definition marker_ok :: "'a finding_marker_scheme \<Rightarrow> bool" where
  "marker_ok m \<longleftrightarrow> is_finding_id (mk_id m) \<and> (\<forall>r. mk_reopens m = Some r \<longrightarrow> is_finding_id r)"

definition marker_tokens :: "'a finding_marker_scheme \<Rightarrow> string list" where
  "marker_tokens m = [''1'', mk_id m, source_text (mk_lens m), severity_text (mk_severity m)]"

definition optional_token :: "string option \<Rightarrow> string list" where
  "optional_token r = (case r of None \<Rightarrow> [] | Some x \<Rightarrow> [x])"

lemma render_marker_fill:
  "render_finding_marker m = fill_pieces marker_pieces (marker_tokens m) @ group_text '' reopens='' (mk_reopens m) @ '' -->''"
  by (simp add: render_finding_marker_def marker_pieces_def marker_tokens_def group_text_def reopens_text_def
      split: option.split)

lemma reopens_plain: "marker_ok m \<Longrightarrow> \<forall>x. mk_reopens m = Some x \<longrightarrow> plain_token x"
  by (auto simp: marker_ok_def id_plain)

lemma marker_tokens_plain: "marker_ok m \<Longrightarrow> list_all plain_token (marker_tokens m)"
  by (simp add: marker_tokens_def marker_ok_def id_plain)

lemma marker_line_match:
  assumes "marker_ok m"
  shows "line_match marker_pieces '' reopens='' (render_finding_marker m) =
    Some (marker_tokens m @ optional_token (mk_reopens m))"
  using match_optional_fill [of marker_pieces "marker_tokens m" "'' reopens=''" "CHR ''r''" "''eopens=''" "mk_reopens m" "[]",
      OF _ _ marker_tokens_plain [OF assms] _ _ reopens_plain [OF assms]]
  by (simp add: line_match_def render_marker_fill optional_token_def marker_pieces_def) (simp add: marker_tokens_def)

lemma marker_of_rendered:
  "marker_ok m \<Longrightarrow> marker_of_tokens (marker_tokens m @ optional_token (mk_reopens m)) =
     Some \<lparr>mk_id = mk_id m, mk_lens = mk_lens m, mk_severity = mk_severity m, mk_reopens = mk_reopens m\<rparr>"
  by (cases "mk_reopens m") (auto simp: marker_tokens_def optional_token_def marker_ok_def parse_marker_fields_def)

lemma group_line:
  "\<forall>x. r = Some x \<longrightarrow> plain_token x \<Longrightarrow> list_all (\<lambda>c. plain_char c \<or> c = CHR '' '') name \<Longrightarrow>
     list_all (\<lambda>c. plain_char c \<or> c = CHR '' '') (group_text name r @ '' -->'')"
  by (cases r) (auto simp: group_text_def plain_char_def plain_token_def list_all_iff)

lemma marker_one_line: "marker_ok m \<Longrightarrow> one_line (render_finding_marker m)"
  using fill_one_line [OF marker_tokens_plain, of m marker_pieces] group_line [OF reopens_plain, of m "'' reopens=''"]
  by (intro plain_one_line) (simp add: render_marker_fill, simp add: marker_pieces_def plain_char_def)

text \<open>A marker is read back from the comment that carries it: when the first comment of a thread is
  by the program and has the rendered marker on a line of its own among lines that are no markers,
  parsing answers exactly that marker.\<close>

lemma marker_round_trip:
  assumes "marker_ok m" and "is_bot_author (oc_author c) login"
    and "oc_body c = plain_lines (before @ render_finding_marker m # after)"
    and "list_all one_line (before @ after)"
    and "list_all (\<lambda>l. line_match marker_pieces '' reopens='' l = None) (before @ after)"
  shows "parse_owned_finding_marker c True login = Some m"
proof -
  have "text_lines (oc_body c) = before @ render_finding_marker m # after"
    using assms(1,3,4) marker_one_line by (simp add: text_lines_plain)
  moreover have "List.map_filter (line_match marker_pieces '' reopens='') ls = []"
    if "list_all (\<lambda>l. line_match marker_pieces '' reopens='' l = None) ls" for ls
    using that by (induction ls) (simp_all add: List.map_filter_simps)
  ultimately have "line_matches marker_pieces '' reopens='' (oc_body c) = [marker_tokens m @ optional_token (mk_reopens m)]"
    using assms(1,5) marker_line_match by (simp add: line_matches_def List.map_filter_def)
  moreover have "\<lparr>mk_id = mk_id m, mk_lens = mk_lens m, mk_severity = mk_severity m, mk_reopens = mk_reopens m\<rparr> = m"
    by simp
  ultimately show ?thesis using assms(1,2) marker_of_rendered [of m] by (simp add: parse_owned_finding_marker_def)
qed

definition sample_id :: "char \<Rightarrow> finding_id" where
  "sample_id c = ''f_'' @ replicate 25 (CHR ''0'') @ [c]"

lemma sample_id_ok: "c \<in> set ''0123456789'' \<Longrightarrow> is_finding_id (sample_id c)"
  by (auto simp: sample_id_def is_finding_id_def id_body_chars_def crockford_def list_all_iff)

definition sample_marker :: finding_marker where
  "sample_marker = \<lparr>mk_id = sample_id CHR ''1'', mk_lens = SourceSecurity, mk_severity = P1, mk_reopens = None\<rparr>"

definition sample_comment :: owned_comment where
  "sample_comment = \<lparr>oc_body = plain_lines [''finding'', render_finding_marker sample_marker], oc_author = Some ''agent[bot]''\<rparr>"

lemma sample_marker_ok: "marker_ok sample_marker"
  by (simp add: marker_ok_def sample_marker_def sample_id_ok)

lemma sample_author: "is_bot_author (oc_author sample_comment) ''agent''"
  by (simp add: sample_comment_def is_bot_author_def normalized_login_def js_trim_def lower_char_def drop_bot_suffix_def
      suffix_def)

lemma marker_round_trip_witness:
  "parse_owned_finding_marker sample_comment True ''agent'' = Some sample_marker"
  by (rule marker_round_trip [OF sample_marker_ok sample_author, of "[''finding'']" "[]"])
    (simp_all add: sample_comment_def one_line_def line_match_def match_optional_def marker_pieces_def expect_def)

definition receipt_ok :: "finding_receipt \<Rightarrow> bool" where
  "receipt_ok r \<longleftrightarrow> is_finding_id (receipt_id r) \<and>
     (case r of DuplicateReceipt _ c \<Rightarrow> is_finding_id c | _ \<Rightarrow> True)"

fun receipt_tokens :: "finding_receipt \<Rightarrow> string list" where
  "receipt_tokens (DuplicateReceipt i c) = [''1'', ''duplicate'', i]"
| "receipt_tokens (FixedReceipt i) = [''1'', ''fixed'', i]"
| "receipt_tokens (DismissedReceipt i) = [''1'', ''dismissed'', i]"

fun receipt_canonical :: "finding_receipt \<Rightarrow> finding_id option" where
  "receipt_canonical (DuplicateReceipt i c) = Some c"
| "receipt_canonical _ = None"

lemma render_receipt_fill:
  "render_receipt r = fill_pieces receipt_pieces (receipt_tokens r) @ group_text '' canonical='' (receipt_canonical r) @ '' -->''"
  by (cases r) (simp_all add: receipt_pieces_def group_text_def)

lemma receipt_tokens_plain: "receipt_ok r \<Longrightarrow> list_all plain_token (receipt_tokens r)"
  by (cases r) (simp_all add: receipt_ok_def id_plain, simp_all add: plain_token_def plain_char_def)

lemma canonical_plain: "receipt_ok r \<Longrightarrow> \<forall>x. receipt_canonical r = Some x \<longrightarrow> plain_token x"
  by (cases r) (simp_all add: receipt_ok_def id_plain)

lemma receipt_line_match:
  assumes "receipt_ok r"
  shows "line_match receipt_pieces '' canonical='' (render_receipt r) =
    Some (receipt_tokens r @ optional_token (receipt_canonical r))"
  using match_optional_fill [of receipt_pieces "receipt_tokens r" "'' canonical=''" "CHR ''c''" "''anonical=''"
      "receipt_canonical r" "[]", OF _ _ receipt_tokens_plain [OF assms] _ _ canonical_plain [OF assms]]
  by (cases r) (simp_all add: line_match_def render_receipt_fill optional_token_def receipt_pieces_def)

lemma receipt_of_rendered: "receipt_ok r \<Longrightarrow> receipt_of_tokens (receipt_tokens r @ optional_token (receipt_canonical r)) = Some r"
  by (cases r) (simp_all add: optional_token_def receipt_ok_def parse_receipt_fields_def)

lemma receipt_one_line: "receipt_ok r \<Longrightarrow> one_line (render_receipt r)"
  using fill_one_line [OF receipt_tokens_plain, of r receipt_pieces] group_line [OF canonical_plain, of r "'' canonical=''"]
  by (intro plain_one_line) (simp add: render_receipt_fill, simp add: receipt_pieces_def plain_char_def)

text \<open>A comment as the program writes it: lines of other text and receipts.\<close>

datatype comment_line = TextLine string | ReceiptLine finding_receipt

fun print_comment_line :: "comment_line \<Rightarrow> string" where
  "print_comment_line (TextLine l) = l"
| "print_comment_line (ReceiptLine r) = render_receipt r"

fun comment_line_ok :: "comment_line \<Rightarrow> bool" where
  "comment_line_ok (TextLine l) \<longleftrightarrow> one_line l \<and> line_match receipt_pieces '' canonical='' l = None"
| "comment_line_ok (ReceiptLine r) \<longleftrightarrow> receipt_ok r"

fun line_receipt :: "comment_line \<Rightarrow> finding_receipt option" where
  "line_receipt (TextLine l) = None"
| "line_receipt (ReceiptLine r) = Some r"

lemma line_receipt_parsed:
  "comment_line_ok x \<Longrightarrow>
     Option.bind (line_match receipt_pieces '' canonical='' (print_comment_line x)) receipt_of_tokens = line_receipt x"
  by (cases x) (simp_all add: receipt_line_match receipt_of_rendered)

lemma map_filter_filter: "List.map_filter g (List.map_filter f xs) = List.map_filter (\<lambda>x. Option.bind (f x) g) xs"
  by (induction xs) (simp_all add: List.map_filter_simps split: option.split)

lemma map_filter_map: "List.map_filter g (map f xs) = List.map_filter (\<lambda>x. g (f x)) xs"
  by (induction xs) (simp_all add: List.map_filter_simps split: option.split)

lemma map_filter_cong_all: "list_all (\<lambda>x. f x = g x) xs \<Longrightarrow> List.map_filter f xs = List.map_filter g xs"
  by (induction xs) (simp_all add: List.map_filter_simps split: option.split)

text \<open>Receipts are read back in the order in which they stand: from a comment by the program whose
  lines are rendered receipts and other text, parsing answers exactly the receipts.\<close>

lemma receipts_round_trip:
  assumes "xs \<noteq> []" and "list_all comment_line_ok xs" and "is_bot_author (oc_author c) login"
    and "oc_body c = plain_lines (map print_comment_line xs)"
  shows "parse_owned_receipts [c] login = List.map_filter line_receipt xs"
proof -
  have "list_all one_line (map print_comment_line xs)"
    using assms(2) by (induction xs) (auto elim: comment_line_ok.elims simp: receipt_one_line)
  then have "text_lines (oc_body c) = map print_comment_line xs" using assms(1,4) by (simp add: text_lines_plain)
  then have "parse_owned_receipts [c] login = List.map_filter (\<lambda>x. Option.bind
      (line_match receipt_pieces '' canonical='' (print_comment_line x)) receipt_of_tokens) xs"
    using assms(3) by (simp add: parse_owned_receipts_def line_matches_def map_filter_filter map_filter_map)
  also have "\<dots> = List.map_filter line_receipt xs"
    using assms(2) by (intro map_filter_cong_all) (auto simp: list_all_iff line_receipt_parsed)
  finally show ?thesis .
qed

lemma receipts_round_trip_witness:
  "parse_owned_receipts
     [\<lparr>oc_body = plain_lines (map print_comment_line [TextLine ''Tracked.'', ReceiptLine (FixedReceipt (sample_id CHR ''2''))]),
       oc_author = Some ''agent[bot]''\<rparr>] ''agent'' = [FixedReceipt (sample_id CHR ''2'')]"
  using receipts_round_trip [of "[TextLine ''Tracked.'', ReceiptLine (FixedReceipt (sample_id CHR ''2''))]"
      "\<lparr>oc_body = plain_lines (map print_comment_line [TextLine ''Tracked.'', ReceiptLine (FixedReceipt (sample_id CHR ''2''))]),
       oc_author = Some ''agent[bot]''\<rparr>" "''agent''"] sample_author
  by (simp add: receipt_ok_def sample_id_ok one_line_def line_match_def match_optional_def receipt_pieces_def expect_def
      List.map_filter_simps sample_comment_def)

subsection \<open>Rows\<close>

definition row_ok :: "finding_row \<Rightarrow> bool" where
  "row_ok r \<longleftrightarrow> marker_ok r \<and> rw_path r \<noteq> [] \<and> utf8_ok (rw_path r) \<and> rw_title r \<noteq> [] \<and> utf8_ok (rw_title r) \<and>
     rw_line r \<noteq> Some 0"

definition row_line_text :: "nat option \<Rightarrow> string" where
  "row_line_text n = (case n of None \<Rightarrow> ''-'' | Some n \<Rightarrow> nat_text n)"

definition row_tokens :: "finding_row \<Rightarrow> string list" where
  "row_tokens r = marker_tokens r @ [encode_uri (rw_path r), row_line_text (rw_line r), encode_uri (rw_title r)]"

lemma render_row_fill:
  "render_finding_row_marker r = fill_pieces row_pieces (row_tokens r) @ group_text '' reopens='' (mk_reopens r) @ '' -->''"
  by (simp add: render_finding_row_marker_def row_pieces_def row_tokens_def marker_tokens_def group_text_def
      reopens_text_def row_line_text_def split: option.split)

lemma row_line_plain: "plain_token (row_line_text n)"
  by (cases n) (simp_all add: row_line_text_def, simp add: plain_token_def plain_char_def)

lemma row_tokens_plain: "row_ok r \<Longrightarrow> list_all plain_token (row_tokens r)"
  by (simp add: row_ok_def row_tokens_def marker_tokens_plain encode_plain_token row_line_plain)

lemma nat_text_head: "0 < n \<Longrightarrow> hd (nat_text n) \<noteq> CHR ''0''"
proof (induction n rule: nat_text_induct)
  case (digit n)
  then show ?case using digit_char_table [of n] by (auto simp: nat_text.simps [of n] digit_char_def)
next
  case (more n)
  then show ?case using nat_text_digits [of "n div 10"] by (simp add: nat_text.simps [of n] div_greater_zero_iff)
qed

lemma parse_row_line_text: "n \<noteq> Some 0 \<Longrightarrow> parse_row_line (row_line_text n) = Some n"
proof (cases n)
  case (Some k)
  assume "n \<noteq> Some 0"
  then have k: "0 < k" using Some by simp
  have d: "nat_text k \<noteq> []" "list_all is_digit (nat_text k)" using nat_text_digits [of k] by (auto simp: list_all_iff)
  then have "nat_text k \<noteq> ''-''" by (auto simp: is_digit_def)
  then show ?thesis using d nat_text_head [OF k] Some by (simp add: parse_row_line_def row_line_text_def)
qed (simp add: parse_row_line_def row_line_text_def)

lemma row_of_rendered: "row_ok r \<Longrightarrow> row_of_tokens (row_tokens r @ optional_token (mk_reopens r)) = Some r"
  by (cases "mk_reopens r")
    (auto simp: row_ok_def row_tokens_def marker_tokens_def optional_token_def marker_ok_def parse_row_fields_def
      parse_marker_fields_def decode_encode parse_row_line_text)

lemma row_match:
  assumes "row_ok r"
  shows "match_optional row_pieces '' reopens='' (render_finding_row_marker r @ s) =
    Some (row_tokens r @ optional_token (mk_reopens r), s)"
  using match_optional_fill [of row_pieces "row_tokens r" "'' reopens=''" "CHR ''r''" "''eopens=''" "mk_reopens r" s,
      OF _ _ row_tokens_plain [OF assms] _ _ reopens_plain]
    assms
  by (simp add: render_row_fill optional_token_def row_ok_def row_pieces_def) (simp add: row_tokens_def marker_tokens_def)

definition row_open :: string where
  "row_open = ''<!-- pr-agent:finding-row v=''"

lemma row_match_open: "match_optional row_pieces name s \<noteq> None \<Longrightarrow> prefix row_open s"
  by (auto simp: match_optional_def row_pieces_def row_open_def split: option.splits dest!: expect_SomeD)

text \<open>No row begins in a text without the opening of a row, when the text ends or a new comment follows.\<close>

lemma row_matches_skip:
  assumes "\<not> sublist row_open t" and "s = [] \<or> (\<exists>r. s = CHR ''<'' # r)"
  shows "row_matches (t @ s) = row_matches s"
  using assms(1)
proof (induction t)
  case (Cons c t)
  have "\<not> prefix row_open (c # t @ s)"
  proof
    assume "prefix row_open (c # t @ s)"
    then have "prefix row_open ((c # t) @ s)" by simp
    then consider "prefix row_open (c # t)" | us where "row_open = (c # t) @ us" "prefix us s" "us \<noteq> []"
      unfolding prefix_append by (metis append_Nil2 prefix_order.refl)
    then show False
    proof cases
      case 1
      then show False using Cons.prems by (metis prefix_imp_sublist)
    next
      case 2
      then obtain v where us: "us = CHR ''<'' # v" using assms(2) by (cases us) (auto simp: prefix_def)
      then have "CHR ''<'' \<in> set (tl row_open)" by (simp only: 2(1)) simp
      then show False by (simp add: row_open_def)
    qed
  qed
  then have "match_optional row_pieces '' reopens='' (c # t @ s) = None" using row_match_open by blast
  moreover have "\<not> sublist row_open t" using Cons.prems by (meson sublist_Cons_right)
  ultimately show ?case using Cons.IH by simp
qed simp

text \<open>A summary as the program writes it: rows between other text.\<close>

fun print_rows :: "(string \<times> finding_row) list \<Rightarrow> string \<Rightarrow> string" where
  "print_rows [] end = end"
| "print_rows ((t, r) # trs) end = t @ render_finding_row_marker r @ print_rows trs end"

lemma row_render_head: "\<exists>s. render_finding_row_marker r = CHR ''<'' # s"
  by (simp add: render_finding_row_marker_def)

lemma row_matches_print:
  assumes "list_all (\<lambda>(t, r). \<not> sublist row_open t \<and> row_ok r) trs" and "\<not> sublist row_open end"
  shows "row_matches (print_rows trs end) = map (\<lambda>(t, r). row_tokens r @ optional_token (mk_reopens r)) trs"
  using assms(1)
proof (induction trs)
  case Nil
  then show ?case using row_matches_skip [OF assms(2), of "[]"] by simp
next
  case (Cons tr trs)
  obtain t r where tr: "tr = (t, r)" by fastforce
  have ok: "\<not> sublist row_open t" "row_ok r" using Cons.prems tr by auto
  obtain s where s: "render_finding_row_marker r = CHR ''<'' # s" using row_render_head by blast
  have "row_matches (print_rows (tr # trs) end) = row_matches (render_finding_row_marker r @ print_rows trs end)"
    using row_matches_skip [OF ok(1), of "render_finding_row_marker r @ print_rows trs end"] by (simp add: tr s)
  also have "\<dots> = (row_tokens r @ optional_token (mk_reopens r)) # row_matches (print_rows trs end)"
    using row_match [OF ok(2), of "print_rows trs end"] by (simp add: s)
  finally show ?case using Cons by (simp add: tr)
qed

text \<open>C19. The rows of a summary are read back: when the summary is by the program and holds rendered rows
  with other text before, between and after them that opens no row, parsing answers exactly the rows
  in their order, with path, line and title whatever characters they contain.\<close>

theorem rows_round_trip:
  assumes "list_all (\<lambda>(t, r). \<not> sublist row_open t \<and> row_ok r) trs" and "\<not> sublist row_open end"
    and "is_bot_author (oc_author c) login" and "oc_body c = print_rows trs end"
  shows "parse_owned_finding_rows c login = map snd trs"
proof -
  have "List.map_filter row_of_tokens (map (\<lambda>(t, r). row_tokens r @ optional_token (mk_reopens r)) trs) = map snd trs"
    using assms(1) by (induction trs) (auto simp: List.map_filter_simps row_of_rendered)
  then show ?thesis using assms row_matches_print [OF assms(1,2)] by (simp add: parse_owned_finding_rows_def)
qed

definition sample_row :: finding_row where
  "sample_row = \<lparr>mk_id = sample_id CHR ''3'', mk_lens = SourceTests, mk_severity = P2,
     mk_reopens = Some (sample_id CHR ''4''), rw_path = ''src/a b.ts'', rw_line = Some 12, rw_title = ''100% --> done''\<rparr>"

theorem rows_round_trip_witness:
  "parse_owned_finding_rows \<lparr>oc_body = print_rows [(''| P2 | '', sample_row)] '' |'', oc_author = Some ''agent[bot]''\<rparr>
     ''agent'' = [sample_row]"
  using rows_round_trip [of "[(''| P2 | '', sample_row)]" "'' |''"
      "\<lparr>oc_body = print_rows [(''| P2 | '', sample_row)] '' |'', oc_author = Some ''agent[bot]''\<rparr>" "''agent''"]
    sample_author
  by (simp add: row_ok_def sample_row_def marker_ok_def sample_id_ok utf8_len_def row_open_def sublist_code sample_comment_def)

subsection \<open>Neutralised text\<close>

lemma neutral_prefix: "prefix w (neutralize_marker_echo s) \<Longrightarrow> CHR ''['' \<notin> set w \<Longrightarrow> prefix w s"
proof (induction s arbitrary: w rule: neutralize_marker_echo.induct)
  case (2 c s)
  show ?case
  proof (cases w)
    case (Cons x w')
    then have "\<not> echo_at (c # s)" using 2(3,4) by auto
    with 2 Cons show ?thesis by simp
  qed simp
qed simp

lemma sublist_beyond: "sublist (p # w) (xs @ ys) \<Longrightarrow> p \<notin> set xs \<Longrightarrow> sublist (p # w) ys"
  by (induction xs) (auto simp: sublist_Cons_right)

text \<open>A word all whose occurrences are echoes does not occur in neutralised text.\<close>

lemma neutral_free:
  assumes "w = CHR ''p'' # w'" and "CHR ''['' \<notin> set w" and "\<And>s. prefix w s \<Longrightarrow> echo_at s"
  shows "\<not> sublist w (neutralize_marker_echo s)"
proof (induction s rule: neutralize_marker_echo.induct)
  case 1
  then show ?case using assms(1) by simp
next
  case (2 c s)
  show ?case
  proof (cases "echo_at (c # s)")
    case True
    then show ?thesis using 2(1) sublist_beyond [of "CHR ''p''" w' "''[neutralized marker]''"] assms(1) by auto
  next
    case False
    then have "\<not> prefix w (neutralize_marker_echo (c # s))" using neutral_prefix assms(2,3) by blast
    with False 2(2) show ?thesis by (simp add: sublist_Cons_right)
  qed
qed

definition marker_words :: "string list" where
  "marker_words = [''pr-agent:finding v='', ''pr-agent:finding-row v='', ''pr-agent:receipt v='']"

lemma marker_word_free: "w \<in> set marker_words \<Longrightarrow> \<not> sublist w (neutralize_marker_echo s)"
proof -
  assume w: "w \<in> set marker_words"
  have "echo_at t" if p: "prefix w t" for t
  proof -
    obtain r where "t = w @ r" using p by (auto simp: prefix_def)
    then show ?thesis using w
      by (auto simp: marker_words_def echo_at_def echo_words_def echo_word_at_def lower_char_def word_char_def)
  qed
  moreover obtain w' where "w = CHR ''p'' # w'" using w by (auto simp: marker_words_def)
  moreover have "CHR ''['' \<notin> set w" using w by (auto simp: marker_words_def)
  ultimately show ?thesis by (rule neutral_free [rotated 2])
qed

lemma text_line_sublist: "l \<in> set (text_lines s) \<Longrightarrow> sublist l s \<and> (\<forall>h ls. text_lines s = h # ls \<longrightarrow> prefix h s)"
proof (induction s arbitrary: l rule: text_lines.induct)
  case (2 c s)
  show ?case
  proof (cases "line_end_len (c # s) = 0")
    case True
    show ?thesis
    proof (cases "text_lines s")
      case Nil
      then show ?thesis using 2(3) True by (auto simp: sublist_Cons_right simp del: line_end_len.simps)
    next
      case (Cons h ls)
      then have "prefix h s" using 2(1) [OF True, of h] by simp
      moreover have "sublist l s" if "l \<in> set ls" using 2(1) [OF True, of l] that Cons by simp
      ultimately show ?thesis using 2(3) True Cons
        by (auto simp: sublist_Cons_right simp del: line_end_len.simps)
    qed
  next
    case False
    have "sublist l s" if "l \<in> set (text_lines (drop (line_end_len (c # s) - 1) s))"
      using 2(2) [OF False that] by (meson sublist_drop sublist_order.order.trans)
    then show ?thesis using 2(3) False by (auto simp: sublist_Cons_right simp del: line_end_len.simps)
  qed
qed simp

lemma line_match_prefix:
  assumes "line_match (Lit w # ps) name l \<noteq> None"
  shows "prefix w l"
  using assms by (auto simp: line_match_def match_optional_def split: option.splits dest!: expect_SomeD)

lemma line_matches_none:
  assumes "sublist w l" and "\<not> sublist w s"
  shows "line_matches (Lit l # ps) name s = []"
proof -
  have "line_match (Lit l # ps) name x = None" if "x \<in> set (text_lines s)" for x
    using line_match_prefix [of l ps name x] text_line_sublist [OF that] assms
    by (meson prefix_imp_sublist sublist_order.order.trans)
  then have "List.map_filter (line_match (Lit l # ps) name) (text_lines s) = List.map_filter (\<lambda>_. None) (text_lines s)"
    by (intro map_filter_cong_all) (simp add: list_all_iff)
  also have "\<dots> = []" by (induction "text_lines s") (simp_all add: List.map_filter_def)
  finally show ?thesis by (simp add: line_matches_def)
qed

lemma row_matches_none: "\<not> sublist row_open s \<Longrightarrow> row_matches s = []"
  using row_matches_skip [of s "[]"] by simp

text \<open>C20. Text of a model or of a user cannot forge an identity: after neutralisation it contains no marker,
  no row and no receipt, whoever is taken for its author and wherever it begins.\<close>

theorem neutralized_text_is_inert:
  "parse_owned_finding_marker \<lparr>oc_body = neutralize_marker_echo s, oc_author = a\<rparr> root login = None \<and>
   parse_owned_finding_rows \<lparr>oc_body = neutralize_marker_echo s, oc_author = a\<rparr> login = [] \<and>
   parse_owned_receipts [\<lparr>oc_body = neutralize_marker_echo s, oc_author = a\<rparr>] login = []"
proof -
  have "line_matches marker_pieces '' reopens='' (neutralize_marker_echo s) = []"
    unfolding marker_pieces_def
    by (rule line_matches_none [OF _ marker_word_free [of "''pr-agent:finding v=''"]])
      (simp_all add: marker_words_def sublist_code)
  moreover have "line_matches receipt_pieces '' canonical='' (neutralize_marker_echo s) = []"
    unfolding receipt_pieces_def
    by (rule line_matches_none [OF _ marker_word_free [of "''pr-agent:receipt v=''"]])
      (simp_all add: marker_words_def sublist_code)
  moreover have "row_matches (neutralize_marker_echo s) = []"
  proof (rule row_matches_none)
    have "sublist ''pr-agent:finding-row v='' row_open" by (simp add: row_open_def sublist_code)
    then show "\<not> sublist row_open (neutralize_marker_echo s)"
      using marker_word_free [of "''pr-agent:finding-row v=''" s] by (auto simp: marker_words_def intro: sublist_order.order.trans)
  qed
  ultimately show ?thesis
    by (simp add: parse_owned_finding_marker_def parse_owned_finding_rows_def parse_owned_receipts_def
        List.map_filter_simps)
qed

end
