(* ===== verification/Finding_Inventory.thy ===== *)
theory Finding_Inventory
  imports Finding_Markers "HOL-Library.AList" "HOL-Library.Multiset"
begin

text \<open>
  The inventory of the findings of a pull request: \<^verbatim>\<open>src/review/findingIdentity/findingInventory.ts\<close>. It is
  built from the review threads and the summary comment of the program, with the markers, headings and
  receipts that \<open>Finding_Markers\<close> reads.

  A JavaScript \<open>Map\<close> is the list of its entries in insertion order; \<open>AList.update\<close> is its \<open>set\<close>. The calls to
  GitHub are arguments that are an error or an answer. The optional text \<open>detail\<close> of a finding, which
  only prompts show, is left out. Time stamps and identities are ASCII, so the order of their bytes is
  the order of JavaScript strings.

  The lemmas show that the inventory keeps, for every identity, the oldest thread and records the others as
  copies, and that following aliases ends: it answers the finding at the end of the chain, and nothing
  exactly when the chain has no end in the inventory.
\<close>

subsection \<open>Threads and findings\<close>

record thread_comment = owned_comment +
  tc_id :: int
  tc_created_at :: string
  tc_url :: string

record review_thread =
  th_node :: string
  th_resolved :: bool
  th_root_id :: int
  th_path :: "string option"
  th_line :: "int option"
  th_start_line :: "int option"
  th_outdated :: bool
  th_comments :: "thread_comment list"
  th_comments_complete :: bool

datatype thread_status = ThreadsOk | ThreadsPermissionDenied | ThreadsPartial | ThreadsUnavailable

datatype completeness = Complete | Partial | Unavailable | PermissionDenied

datatype finding_resolution = ResolvedFixed | ResolvedDismissed | ResolvedDuplicate

datatype finding_state = FindingOpen | FindingResolved

datatype held_by = HeldThread | HeldSummary

record inventory_finding =
  if_id :: finding_id
  if_source :: held_by
  if_legacy :: bool
  if_thread :: "string option"
  if_root :: "int option"
  if_url :: string
  if_path :: string
  if_previous_path :: "string option"
  if_start_line :: "int option"
  if_line :: "int option"
  if_stale :: bool
  if_state :: finding_state
  if_resolution :: "finding_resolution option"
  if_alias_of :: "finding_id option"
  if_reopens :: "finding_id option"
  if_lens :: "finding_source option"
  if_severity :: "severity option"
  if_title :: string
  if_created_at :: string
  if_human_replies :: bool
  if_comments_complete :: bool
  if_deleted :: bool

type_synonym findings_map = "(finding_id \<times> inventory_finding) list"

record finding_inventory =
  in_completeness :: completeness
  in_findings :: findings_map
  in_copies :: "inventory_finding list"

record path_context =
  pc_renames :: "string \<rightharpoonup> string"
  pc_deleted :: "string list"

record summary_comment = owned_comment +
  sm_url :: string

abbreviation found :: "findings_map \<Rightarrow> inventory_finding list" where
  "found fs \<equiv> map snd fs"

subsection \<open>Headings\<close>

text \<open>The shortest title before two asterisks that only white space follows.\<close>

fun heading_title :: "string \<Rightarrow> string option" where
  "heading_title [] = None"
| "heading_title (c # s) =
     (if prefix ''**'' s \<and> all_space 0 (drop 2 s) then Some [c] else map_option (Cons c) (heading_title s))"

definition heading_open :: "severity \<Rightarrow> string" where
  "heading_open p = ''**'' @ severity_text p @ ''** '' @ [CHR 0xC2, CHR 0xB7] @ '' **''"

definition heading_line :: "string \<Rightarrow> (severity \<times> string) option" where
  "heading_line l =
     (case find (\<lambda>p. prefix (heading_open p) l) [P0, P1, P2, P3] of
        None \<Rightarrow> None
      | Some p \<Rightarrow> map_option (\<lambda>t. (p, js_trim t)) (heading_title (drop (length (heading_open p)) l)))"

definition parse_heading :: "string \<Rightarrow> (severity \<times> string) option" where
  "parse_heading body =
     (case List.map_filter heading_line (text_lines body) of [] \<Rightarrow> None | h # _ \<Rightarrow> Some h)"

subsection \<open>Findings of threads\<close>

definition completeness_of :: "thread_status \<Rightarrow> bool \<Rightarrow> completeness" where
  "completeness_of st summary_complete = (case st of
      ThreadsOk \<Rightarrow> if summary_complete then Complete else Partial
    | ThreadsPartial \<Rightarrow> Partial
    | ThreadsUnavailable \<Rightarrow> Unavailable
    | ThreadsPermissionDenied \<Rightarrow> PermissionDenied)"

definition placed_path :: "path_context \<Rightarrow> string \<Rightarrow> string" where
  "placed_path ctx raw = (case pc_renames ctx raw of Some p \<Rightarrow> p | None \<Rightarrow> raw)"

definition placed_previous :: "path_context \<Rightarrow> string \<Rightarrow> string option" where
  "placed_previous ctx raw =
     (case pc_renames ctx raw of Some p \<Rightarrow> if p \<noteq> raw then Some raw else None | None \<Rightarrow> None)"

definition has_human_replies :: "review_thread \<Rightarrow> string \<Rightarrow> bool" where
  "has_human_replies t login \<longleftrightarrow> list_ex (\<lambda>c. \<not> is_bot_author (oc_author c) login) (drop 1 (th_comments t))"

fun find_last :: "('a \<Rightarrow> bool) \<Rightarrow> 'a list \<Rightarrow> 'a option" where
  "find_last p [] = None"
| "find_last p (x # xs) =
     (case find_last p xs of Some y \<Rightarrow> Some y | None \<Rightarrow> if p x then Some x else None)"

fun is_duplicate_receipt :: "finding_receipt \<Rightarrow> bool" where
  "is_duplicate_receipt (DuplicateReceipt _ _) = True"
| "is_duplicate_receipt _ = False"

definition thread_resolution :: "bool \<Rightarrow> finding_receipt list \<Rightarrow> finding_resolution option" where
  "thread_resolution resolved receipts =
     (if \<not> resolved then None
      else if find is_duplicate_receipt receipts \<noteq> None then Some ResolvedDuplicate
      else case find_last (\<lambda>r. \<not> is_duplicate_receipt r) receipts of
        Some (FixedReceipt _) \<Rightarrow> Some ResolvedFixed
      | _ \<Rightarrow> Some ResolvedDismissed)"

definition thread_alias :: "finding_id \<Rightarrow> finding_receipt list \<Rightarrow> finding_id option" where
  "thread_alias i receipts =
     (case find is_duplicate_receipt receipts of
        Some (DuplicateReceipt _ c) \<Rightarrow> if c \<noteq> i then Some c else None
      | _ \<Rightarrow> None)"

text \<open>\<open>new_finding_id\<close> always answers an identity, so no thread fails to have one.\<close>

definition legacy_id :: "(string \<Rightarrow> nat list) \<Rightarrow> string \<Rightarrow> finding_id" where
  "legacy_id sha256 node = (case legacy_finding_id sha256 node of Inr i \<Rightarrow> i | Inl _ \<Rightarrow> [])"

definition thread_finding ::
  "(string \<Rightarrow> nat list) \<Rightarrow> string \<Rightarrow> path_context \<Rightarrow> review_thread \<Rightarrow> inventory_finding option" where
  "thread_finding sha256 login ctx t =
     (case (th_comments t, th_path t) of
        (root # _, Some path) \<Rightarrow>
          if \<not> is_bot_author (oc_author root) login then None
          else
            let marker = parse_owned_finding_marker root True login;
                heading = parse_heading (oc_body root)
            in if marker = None \<and> heading = None then None
               else
                 let i = (case marker of Some m \<Rightarrow> mk_id m | None \<Rightarrow> legacy_id sha256 (th_node t));
                     receipts = filter (\<lambda>r. receipt_id r = i) (parse_owned_receipts (th_comments t) login)
                 in Some \<lparr>if_id = i, if_source = HeldThread, if_legacy = (marker = None),
                      if_thread = Some (th_node t), if_root = Some (th_root_id t), if_url = tc_url root,
                      if_path = placed_path ctx path, if_previous_path = placed_previous ctx path,
                      if_start_line = (case th_start_line t of Some n \<Rightarrow> Some n | None \<Rightarrow> th_line t),
                      if_line = th_line t, if_stale = (th_outdated t \<or> th_line t = None),
                      if_state = (if th_resolved t then FindingResolved else FindingOpen),
                      if_resolution = thread_resolution (th_resolved t) receipts,
                      if_alias_of = thread_alias i receipts,
                      if_reopens = Option.bind marker mk_reopens,
                      if_lens = map_option mk_lens marker,
                      if_severity = (case marker of Some m \<Rightarrow> Some (mk_severity m) | None \<Rightarrow> map_option fst heading),
                      if_title = (case heading of Some h \<Rightarrow> snd h | None \<Rightarrow> js_trim (hd (split_on newline (oc_body root)))),
                      if_created_at = tc_created_at root,
                      if_human_replies = has_human_replies t login,
                      if_comments_complete = th_comments_complete t,
                      if_deleted = (placed_path ctx path \<in> set (pc_deleted ctx))\<rparr>
      | _ \<Rightarrow> None)"

definition or0 :: "int option \<Rightarrow> int" where
  "or0 n = (case n of Some k \<Rightarrow> k | None \<Rightarrow> 0)"

definition is_older :: "inventory_finding \<Rightarrow> inventory_finding \<Rightarrow> bool" where
  "is_older l r \<longleftrightarrow>
     (if if_created_at l \<noteq> if_created_at r then code_unit_compare (if_created_at l) (if_created_at r) < 0
      else or0 (if_root l) < or0 (if_root r))"

subsection \<open>Canonical findings\<close>

definition unseen :: "findings_map \<Rightarrow> finding_id list \<Rightarrow> inventory_finding list" where
  "unseen fs seen = filter (\<lambda>f. if_id f \<notin> set seen) (found fs)"

lemma unseen_less:
  assumes "map_of fs i = Some f" and "if_id f \<notin> set seen"
  shows "length (unseen fs (if_id f # seen)) < length (unseen fs seen)"
proof -
  have "f \<in> set (unseen fs seen)" using map_of_SomeD [OF assms(1)] assms(2) by (force simp: unseen_def)
  moreover have "unseen fs (if_id f # seen) = filter (\<lambda>g. if_id g \<noteq> if_id f) (unseen fs seen)"
    by (auto simp: unseen_def intro: filter_cong)
  ultimately show ?thesis by (simp add: length_filter_less)
qed

text \<open>Following aliases from an identity, with the identities met so far.\<close>

function canonical_loop :: "findings_map \<Rightarrow> finding_id list \<Rightarrow> finding_id \<Rightarrow> finding_id option" where
  "canonical_loop fs seen i =
     (case map_of fs i of
        None \<Rightarrow> None
      | Some f \<Rightarrow>
          if if_id f \<in> set seen then None
          else case if_alias_of f of
            None \<Rightarrow> Some (if_id f)
          | Some a \<Rightarrow> canonical_loop fs (if_id f # seen) a)"
  by pat_completeness auto
termination by (relation "measure (\<lambda>(fs, seen, i). length (unseen fs seen))") (auto simp: unseen_less)

declare canonical_loop.simps [simp del]

definition canonical_of :: "findings_map \<Rightarrow> finding_id \<Rightarrow> finding_id option" where
  "canonical_of fs start = canonical_loop fs [] start"

subsection \<open>Building the inventory\<close>

definition add_thread_finding ::
  "inventory_finding \<Rightarrow> findings_map \<times> inventory_finding list \<Rightarrow> findings_map \<times> inventory_finding list" where
  "add_thread_finding f acc = (case acc of (fs, copies) \<Rightarrow>
     (case map_of fs (if_id f) of
        None \<Rightarrow> (AList.update (if_id f) f fs, copies)
      | Some existing \<Rightarrow>
          if is_older f existing then (AList.update (if_id f) f fs, copies @ [existing])
          else (fs, copies @ [f])))"

definition row_finding :: "path_context \<Rightarrow> string \<Rightarrow> finding_row \<Rightarrow> inventory_finding" where
  "row_finding ctx url r =
     \<lparr>if_id = mk_id r, if_source = HeldSummary, if_legacy = False, if_thread = None, if_root = None, if_url = url,
      if_path = placed_path ctx (rw_path r), if_previous_path = placed_previous ctx (rw_path r),
      if_start_line = map_option int (rw_line r), if_line = map_option int (rw_line r),
      if_stale = (rw_line r = None), if_state = FindingOpen, if_resolution = None, if_alias_of = None,
      if_reopens = mk_reopens r, if_lens = Some (mk_lens r), if_severity = Some (mk_severity r),
      if_title = rw_title r, if_created_at = [], if_human_replies = False, if_comments_complete = True,
      if_deleted = (placed_path ctx (rw_path r) \<in> set (pc_deleted ctx))\<rparr>"

definition add_row :: "path_context \<Rightarrow> string \<Rightarrow> finding_row \<Rightarrow> findings_map \<Rightarrow> findings_map" where
  "add_row ctx url r fs =
     (if map_of fs (mk_id r) \<noteq> None then fs else AList.update (mk_id r) (row_finding ctx url r) fs)"

definition collect_threads ::
  "(string \<Rightarrow> nat list) \<Rightarrow> string \<Rightarrow> path_context \<Rightarrow> review_thread list \<Rightarrow> findings_map \<times> inventory_finding list" where
  "collect_threads sha256 login ctx ts =
     fold add_thread_finding (List.map_filter (thread_finding sha256 login ctx) ts) ([], [])"

definition summary_rows :: "summary_comment option \<Rightarrow> string \<Rightarrow> finding_row list" where
  "summary_rows summary login = (case summary of None \<Rightarrow> [] | Some c \<Rightarrow> parse_owned_finding_rows c login)"

definition summary_url :: "summary_comment option \<Rightarrow> string" where
  "summary_url summary = (case summary of None \<Rightarrow> [] | Some c \<Rightarrow> sm_url c)"

definition build_finding_inventory ::
  "(string \<Rightarrow> nat list) \<Rightarrow> path_context \<Rightarrow> thread_status \<Rightarrow> review_thread list \<Rightarrow> summary_comment option \<Rightarrow>
   bool \<Rightarrow> string \<Rightarrow> finding_inventory" where
  "build_finding_inventory sha256 ctx st ts summary summary_complete login =
     (case collect_threads sha256 login ctx ts of (fs, copies) \<Rightarrow>
        \<lparr>in_completeness = completeness_of st summary_complete,
         in_findings = fold (add_row ctx (summary_url summary)) (summary_rows summary login) fs,
         in_copies = copies\<rparr>)"

subsection \<open>Loading\<close>

record conversation_comment = owned_comment +
  cc_id :: int

definition review_summary_sentinel :: string where
  "review_summary_sentinel = ''## PR Agent Review''"

text \<open>The comments of the pull request, or \<open>None\<close> when listing them fails. \<open>url\<close> is the prefix of the
  address of a comment.\<close>

definition read_summary_comment ::
  "string \<Rightarrow> string \<Rightarrow> conversation_comment list option \<Rightarrow> summary_comment option \<times> bool" where
  "read_summary_comment url login listed =
     (case listed of
        None \<Rightarrow> (None, False)
      | Some comments \<Rightarrow>
          (case find_last (\<lambda>c. prefix review_summary_sentinel (oc_body c) \<and> is_bot_author (oc_author c) login) comments of
             None \<Rightarrow> (None, True)
           | Some c \<Rightarrow> (Some \<lparr>oc_body = oc_body c, oc_author = oc_author c,
               sm_url = url @ ''#issuecomment-'' @ int_text (cc_id c)\<rparr>, True)))"

definition load_finding_inventory_from_threads ::
  "(string \<Rightarrow> nat list) \<Rightarrow> string \<Rightarrow> conversation_comment list option \<Rightarrow> path_context \<Rightarrow> thread_status \<Rightarrow>
   review_thread list \<Rightarrow> string \<Rightarrow> finding_inventory" where
  "load_finding_inventory_from_threads sha256 url listed ctx st ts login =
     (case read_summary_comment url login listed of (summary, complete) \<Rightarrow>
        build_finding_inventory sha256 ctx st ts summary complete login)"

definition load_finding_inventory ::
  "(string \<Rightarrow> nat list) \<Rightarrow> string \<Rightarrow> js_error + string \<Rightarrow> (thread_status \<times> review_thread list) option \<Rightarrow>
   conversation_comment list option \<Rightarrow> path_context \<Rightarrow> js_error + finding_inventory" where
  "load_finding_inventory sha256 url bot_login threads listed ctx =
     (case bot_login of
        Inl e \<Rightarrow> Inl e
      | Inr login \<Rightarrow>
          (case (threads, read_summary_comment url login listed) of
             (None, (summary, complete)) \<Rightarrow>
               Inr (build_finding_inventory sha256 ctx ThreadsUnavailable [] summary complete login)
           | (Some (st, ts), (summary, complete)) \<Rightarrow>
               Inr (build_finding_inventory sha256 ctx st ts summary complete login)))"

definition unavailable_finding_inventory :: "(string \<Rightarrow> nat list) \<Rightarrow> path_context \<Rightarrow> finding_inventory" where
  "unavailable_finding_inventory sha256 ctx = build_finding_inventory sha256 ctx ThreadsUnavailable [] None False []"

definition load_finding_inventory_or_unavailable ::
  "(string \<Rightarrow> nat list) \<Rightarrow> string \<Rightarrow> js_error + string \<Rightarrow> (thread_status \<times> review_thread list) option \<Rightarrow>
   conversation_comment list option \<Rightarrow> path_context \<Rightarrow> finding_inventory" where
  "load_finding_inventory_or_unavailable sha256 url bot_login threads listed ctx =
     (case load_finding_inventory sha256 url bot_login threads listed ctx of
        Inr loaded \<Rightarrow> loaded
      | Inl _ \<Rightarrow> unavailable_finding_inventory sha256 ctx)"

subsection \<open>The end of a chain of aliases\<close>

definition alias_next :: "findings_map \<Rightarrow> finding_id \<Rightarrow> finding_id option" where
  "alias_next fs i = Option.bind (map_of fs i) if_alias_of"

text \<open>The entries of an inventory stand under their own identity, each once.\<close>

definition keyed :: "findings_map \<Rightarrow> bool" where
  "keyed fs \<longleftrightarrow> distinct (map fst fs) \<and> (\<forall>(i, f) \<in> set fs. if_id f = i)"

lemma keyed_lookup: "keyed fs \<Longrightarrow> map_of fs i = Some f \<Longrightarrow> if_id f = i"
  by (auto simp: keyed_def dest: map_of_SomeD)

lemma in_update: "x \<in> set (AList.update k v al) \<Longrightarrow> x = (k, v) \<or> x \<in> set al"
  by (induction al) (auto split: if_splits)

lemma keyed_update: "keyed fs \<Longrightarrow> if_id f = i \<Longrightarrow> keyed (AList.update i f fs)"
  by (auto simp: keyed_def distinct_update dest: in_update)

lemma canonical_walk: "keyed fs \<Longrightarrow> pointer_walk (alias_next fs) (\<lambda>i. map_of fs i \<noteq> None) (canonical_loop fs)"
proof
  have "dom (alias_next fs) \<subseteq> dom (map_of fs)" by (auto simp: alias_next_def split: bind_splits)
  then show "finite (dom (alias_next fs))" by (rule finite_subset) (rule finite_dom_map_of)
next
  fix seen i
  assume "keyed fs"
  then show "canonical_loop fs seen i =
      (if i \<in> set seen then None
       else case alias_next fs i of
         None \<Rightarrow> if map_of fs i \<noteq> None then Some i else None
       | Some n \<Rightarrow> canonical_loop fs (i # seen) n)"
    using keyed_lookup [of fs i]
    by (subst canonical_loop.simps) (auto simp: alias_next_def split: option.split)
qed

subsection \<open>What the inventory keeps\<close>

definition age_order :: "inventory_finding \<Rightarrow> inventory_finding \<Rightarrow> int" where
  "age_order l r =
     (if if_created_at l \<noteq> if_created_at r then code_unit_compare (if_created_at l) (if_created_at r)
      else or0 (if_root l) - or0 (if_root r))"

lemma code_unit_zero: "code_unit_compare x y = 0 \<longleftrightarrow> x = y"
  by (induction x y rule: code_unit_compare.induct) auto

lemma is_older_order: "is_older l r \<longleftrightarrow> age_order l r < 0"
  by (simp add: is_older_def age_order_def)

interpretation age: sort_order age_order
proof
  fix x y z
  show "0 < age_order x y \<longleftrightarrow> age_order y x < 0" by (auto simp: age_order_def code_unit_opposite)
  assume le: "age_order x y \<le> 0" "age_order y z \<le> 0"
  let ?c = "\<lambda>a b. code_unit_compare (if_created_at a) (if_created_at b)"
  have c: "?c x y \<le> 0" "?c y z \<le> 0" using le by (auto simp: age_order_def code_units.self_equal split: if_splits)
  show "age_order x z \<le> 0"
  proof (cases "if_created_at x = if_created_at z")
    case True
    then have "\<not> ?c x y < 0" using c(2) code_unit_opposite [of "if_created_at y" "if_created_at z"] by simp
    then have "?c x y = 0" using c(1) by linarith
    with True le show ?thesis by (simp add: age_order_def code_unit_zero)
  next
    case False
    then show ?thesis using c code_unit_transitive by (auto simp: age_order_def)
  qed
qed

lemma update_new: "map_of al k = None \<Longrightarrow> AList.update k v al = al @ [(k, v)]"
  by (induction al) (auto split: if_splits)

lemma update_multiset:
  "map_of al k = Some e \<Longrightarrow> add_mset e (mset (map snd (AList.update k v al))) = add_mset v (mset (map snd al))"
  by (induction al) (auto split: if_splits)

text \<open>After some findings, each stands in the inventory or among the copies, and none is older than the
  one its identity stands for.\<close>

definition collected :: "inventory_finding list \<Rightarrow> findings_map \<times> inventory_finding list \<Rightarrow> bool" where
  "collected seen acc \<longleftrightarrow> (case acc of (fs, copies) \<Rightarrow>
     keyed fs \<and> mset (found fs) + mset copies = mset seen \<and>
     (\<forall>g \<in> set seen. \<exists>f. map_of fs (if_id g) = Some f \<and> \<not> is_older g f))"

lemma collected_step:
  assumes "collected seen acc"
  shows "collected (seen @ [f]) (add_thread_finding f acc)"
proof -
  obtain fs copies where acc: "acc = (fs, copies)" by fastforce
  have k: "keyed fs" and m: "mset (found fs) + mset copies = mset seen"
    and oldest: "\<And>g. g \<in> set seen \<Longrightarrow> \<exists>h. map_of fs (if_id g) = Some h \<and> \<not> is_older g h"
    using assms acc by (auto simp: collected_def)
  have irrefl: "\<not> is_older f f" using age.self_equal by (simp add: is_older_order)
  show ?thesis
  proof (cases "map_of fs (if_id f)")
    case None
    have step: "add_thread_finding f acc = (AList.update (if_id f) f fs, copies)"
      using None by (simp add: acc add_thread_finding_def)
    have "\<exists>h. map_of (AList.update (if_id f) f fs) (if_id g) = Some h \<and> \<not> is_older g h" if "g \<in> set (seen @ [f])" for g
      using that oldest [of g] irrefl None by (cases "if_id g = if_id f") (auto simp: update_conv')
    then show ?thesis using keyed_update [OF k refl, of f] m None by (simp add: step collected_def update_new)
  next
    case (Some e)
    show ?thesis
    proof (cases "is_older f e")
      case True
      have older: "\<not> is_older g f" if "\<not> is_older g e" for g
      proof -
        have "age_order e g \<le> 0" using that age.opposite [of e g] by (simp add: is_older_order)
        then have "age_order f g < 0" using True age.strict_trans [of f e g] by (simp add: is_older_order)
        then show ?thesis using age.opposite [of g f] by (simp add: is_older_order)
      qed
      have "mset (found (AList.update (if_id f) f fs)) + mset (copies @ [e]) = mset (seen @ [f])"
        using update_multiset [OF Some, of f] m by (simp add: add.commute) (metis add_mset_add_single union_assoc union_commute)
      moreover have "\<exists>h. map_of (AList.update (if_id f) f fs) (if_id g) = Some h \<and> \<not> is_older g h"
        if "g \<in> set (seen @ [f])" for g
        using that oldest [of g] irrefl older [of g] Some by (cases "if_id g = if_id f") (auto simp: update_conv')
      moreover have "add_thread_finding f acc = (AList.update (if_id f) f fs, copies @ [e])"
        using True Some by (simp add: acc add_thread_finding_def)
      ultimately show ?thesis using keyed_update [OF k refl, of f] by (simp add: collected_def)
    next
      case False
      then show ?thesis using Some k m oldest by (auto simp: acc collected_def add_thread_finding_def)
    qed
  qed
qed

lemma collected_fold: "collected seen acc \<Longrightarrow> collected (seen @ gs) (fold add_thread_finding gs acc)"
proof (induction gs arbitrary: seen acc)
  case (Cons g gs)
  then show ?case using collected_step [of seen acc g] by fastforce
qed simp

lemma collected_threads:
  "collected (List.map_filter (thread_finding sha256 login ctx) ts) (collect_threads sha256 login ctx ts)"
  using collected_fold [of "[]" "([], [])"] by (simp add: collect_threads_def collected_def keyed_def)

lemma rows_frame:
  "keyed fs \<Longrightarrow> keyed (fold (add_row ctx url) rows fs) \<and>
     filter (\<lambda>f. if_source f = HeldThread) (found (fold (add_row ctx url) rows fs)) =
       filter (\<lambda>f. if_source f = HeldThread) (found fs) \<and>
     (\<forall>i f. map_of fs i = Some f \<longrightarrow> map_of (fold (add_row ctx url) rows fs) i = Some f)"
proof (induction rows arbitrary: fs)
  case (Cons r rows)
  let ?fs = "add_row ctx url r fs"
  have "keyed ?fs" using Cons.prems by (auto simp: add_row_def row_finding_def intro!: keyed_update)
  moreover have "filter (\<lambda>f. if_source f = HeldThread) (found ?fs) = filter (\<lambda>f. if_source f = HeldThread) (found fs)"
    by (auto simp: add_row_def update_new row_finding_def)
  moreover have "map_of ?fs i = Some f" if "map_of fs i = Some f" for i f
    using that by (auto simp: add_row_def update_conv')
  ultimately show ?case using Cons.IH [of ?fs] by simp
qed simp

lemma thread_finding_source: "thread_finding sha256 login ctx t = Some f \<Longrightarrow> if_source f = HeldThread"
  by (auto simp: thread_finding_def Let_def split: list.splits option.splits if_splits)

lemma build_keyed: "keyed (in_findings (build_finding_inventory sha256 ctx st ts summary complete login))"
  using collected_threads [of sha256 login ctx ts] rows_frame
  by (auto simp: build_finding_inventory_def collected_def split: prod.splits)

text \<open>The inventory loses no thread and stands for each identity by its oldest one: the findings that
  the threads carry are, with their multiplicity, the thread findings of the inventory and the copies,
  and for every finding the inventory holds one of the same identity that is not younger.\<close>

lemma oldest_thread_kept:
  "let built = build_finding_inventory sha256 ctx st ts summary complete login;
       carried = List.map_filter (thread_finding sha256 login ctx) ts
   in mset (filter (\<lambda>f. if_source f = HeldThread) (found (in_findings built))) + mset (in_copies built) = mset carried \<and>
      list_all (\<lambda>g. case map_of (in_findings built) (if_id g) of
        Some f \<Rightarrow> if_id f = if_id g \<and> \<not> is_older g f | None \<Rightarrow> False) carried"
proof -
  let ?built = "build_finding_inventory sha256 ctx st ts summary complete login"
  define carried where "carried = List.map_filter (thread_finding sha256 login ctx) ts"
  obtain fs copies where acc: "collect_threads sha256 login ctx ts = (fs, copies)" by fastforce
  have col: "keyed fs" "mset (found fs) + mset copies = mset carried"
    "\<And>g. g \<in> set carried \<Longrightarrow> \<exists>f. map_of fs (if_id g) = Some f \<and> \<not> is_older g f"
    using collected_threads [of sha256 login ctx ts] acc by (auto simp: collected_def carried_def)
  have "f \<in> set carried" if "f \<in> set (found fs)" for f
    using that col(2) by (metis in_multiset_in_set union_iff)
  then have "\<forall>f \<in> set (found fs). if_source f = HeldThread"
    using thread_finding_source by (fastforce simp: carried_def List.map_filter_def)
  then have src: "filter (\<lambda>f. if_source f = HeldThread) (found fs) = found fs" by simp
  have b: "in_findings ?built = fold (add_row ctx (summary_url summary)) (summary_rows summary login) fs" "in_copies ?built = copies"
    by (simp_all add: build_finding_inventory_def acc)
  note frame = rows_frame [OF col(1), of ctx "summary_url summary" "summary_rows summary login"]
  have "case map_of (in_findings ?built) (if_id g) of Some f \<Rightarrow> if_id f = if_id g \<and> \<not> is_older g f | None \<Rightarrow> False"
    if g: "g \<in> set carried" for g
  proof -
    obtain f where f: "map_of fs (if_id g) = Some f" "\<not> is_older g f" using col(3) [OF g] by blast
    then have "map_of (in_findings ?built) (if_id g) = Some f" using frame b by simp
    then show ?thesis using f keyed_lookup [OF col(1) f(1)] by simp
  qed
  moreover have "mset (filter (\<lambda>f. if_source f = HeldThread) (found (in_findings ?built))) + mset (in_copies ?built) = mset carried"
    using frame src col(2) b by simp
  ultimately show ?thesis by (simp add: Let_def list_all_iff carried_def)
qed

text \<open>Following aliases ends and is right: in every inventory that is built, the canonical finding of an
  identity is the finding without alias at the end of its chain; there is none exactly when the chain
  runs in a circle or leaves the inventory.\<close>

lemma canonical_is_chain_end:
  "let fs = in_findings (build_finding_inventory sha256 ctx st ts summary complete login)
   in canonical_of fs i = Some c \<longleftrightarrow>
    (i, c) \<in> (points (alias_next fs))\<^sup>* \<and> (\<exists>f. map_of fs c = Some f \<and> if_alias_of f = None)"
  using pointer_walk.walk_iff [OF canonical_walk [OF build_keyed]]
  by (auto simp: canonical_of_def Let_def alias_next_def)

end
