(* ===== verification/Finding_Reconcile.thy ===== *)
theory Finding_Reconcile
  imports Finding_Inventory
begin

text \<open>
  What becomes of a new observation: \<^verbatim>\<open>src/review/findingIdentity/findingReconcile.ts\<close>. The model that
  reviews says how an observation relates to the findings of the pull request; the code decides whether it
  opens a thread, confirms a finding, stays in the summary or has to be asked about again.

  \<open>lc\<close> is \<open>localeCompare\<close> and \<open>minted\<close> the identity that the minting function answers. As in the
  inventory, the text \<open>detail\<close> is left out.

  The lemmas show what the candidates of an observation are, that a thread is opened only when the
  inventory is complete and every finding nearby is accounted for, and that a question can be answered.
\<close>

subsection \<open>Data\<close>

definition overlap_window_lines :: int where
  "overlap_window_lines = 10"

definition nearest_same_file_candidates :: nat where
  "nearest_same_file_candidates = 4"

datatype observation_relation =
    NewFinding
  | Continues finding_id
  | DistinctFrom "finding_id list" string
  | Uncertain "finding_id list"

record span =
  sn_file :: string
  sn_start :: int
  sn_end :: int

record observation = span +
  ob_severity :: severity
  ob_title :: string

record accepted_this_run =
  ar_finding :: finding_id
  ar_path :: string
  ar_start :: int
  ar_end :: int
  ar_title :: string
  ar_url :: string

datatype candidate_state = CandidateOpen | CandidateResolved | CandidateAccepted

record overlap_candidate =
  oc_finding :: finding_id
  oc_path :: string
  oc_line :: "int option"
  oc_title :: string
  oc_state :: candidate_state
  oc_url :: string

datatype summary_reason = InventoryIncomplete | UnansweredOverlap

datatype reconcile_outcome =
    PostThread finding_id "finding_id option" "string list"
  | Reaffirm finding_id severity
  | Promote finding_id
  | SuppressedDismissed finding_id
  | SummaryOnly finding_id summary_reason

datatype reconcile_step =
    Outcome reconcile_outcome
  | Question "overlap_candidate list"
  | Rejected string

subsection \<open>Overlap\<close>

definition ranges_near :: "'a span_scheme \<Rightarrow> int \<Rightarrow> int \<Rightarrow> bool" where
  "ranges_near ob s e \<longleftrightarrow> sn_start ob \<le> e + overlap_window_lines \<and> s \<le> sn_end ob + overlap_window_lines"

definition range_gap :: "'a span_scheme \<Rightarrow> int \<Rightarrow> int \<Rightarrow> int" where
  "range_gap ob s e =
     (if sn_end ob < s then s - sn_end ob else if e < sn_start ob then sn_start ob - e else 0)"

definition same_file :: "'a span_scheme \<Rightarrow> inventory_finding \<Rightarrow> bool" where
  "same_file ob f \<longleftrightarrow> if_path f = sn_file ob \<or> if_previous_path f = Some (sn_file ob)"

definition range_start :: "inventory_finding \<Rightarrow> int \<Rightarrow> int" where
  "range_start f line = min (case if_start_line f of Some n \<Rightarrow> n | None \<Rightarrow> line) line"

definition range_end :: "inventory_finding \<Rightarrow> int \<Rightarrow> int" where
  "range_end f line = max (case if_start_line f of Some n \<Rightarrow> n | None \<Rightarrow> line) line"

definition overlaps :: "'a span_scheme \<Rightarrow> inventory_finding \<Rightarrow> bool" where
  "overlaps ob f \<longleftrightarrow> same_file ob f \<and>
     (if_stale f \<or> (case if_line f of None \<Rightarrow> True | Some l \<Rightarrow> ranges_near ob (range_start f l) (range_end f l)))"

definition accepted_overlaps :: "'a span_scheme \<Rightarrow> accepted_this_run \<Rightarrow> bool" where
  "accepted_overlaps ob a \<longleftrightarrow> ar_path a = sn_file ob \<and> ranges_near ob (ar_start a) (ar_end a)"

definition inventory_candidate :: "inventory_finding \<Rightarrow> overlap_candidate" where
  "inventory_candidate f =
     \<lparr>oc_finding = if_id f, oc_path = if_path f, oc_line = if_line f, oc_title = neutralize_marker_echo (if_title f),
      oc_state = (case if_state f of FindingOpen \<Rightarrow> CandidateOpen | FindingResolved \<Rightarrow> CandidateResolved),
      oc_url = if_url f\<rparr>"

definition accepted_candidate :: "accepted_this_run \<Rightarrow> overlap_candidate" where
  "accepted_candidate a =
     \<lparr>oc_finding = ar_finding a, oc_path = ar_path a, oc_line = Some (ar_start a),
      oc_title = neutralize_marker_echo (ar_title a), oc_state = CandidateAccepted, oc_url = ar_url a\<rparr>"

subsection \<open>Candidates\<close>

record ranked_candidate =
  rk_candidate :: overlap_candidate
  rk_gap :: int
  rk_line :: int

definition rank_finding :: "'a span_scheme \<Rightarrow> finding_id list \<Rightarrow> inventory_finding \<Rightarrow> ranked_candidate option" where
  "rank_finding ob known f =
     (if if_id f \<in> set known \<or> if_state f \<noteq> FindingOpen \<or> \<not> same_file ob f \<or> if_stale f then None
      else case if_line f of
        None \<Rightarrow> None
      | Some l \<Rightarrow> Some \<lparr>rk_candidate = inventory_candidate f,
          rk_gap = range_gap ob (range_start f l) (range_end f l), rk_line = range_start f l\<rparr>)"

definition rank_accepted :: "'a span_scheme \<Rightarrow> finding_id list \<Rightarrow> accepted_this_run \<Rightarrow> ranked_candidate option" where
  "rank_accepted ob known a =
     (if ar_finding a \<in> set known \<or> ar_path a \<noteq> sn_file ob then None
      else Some \<lparr>rk_candidate = accepted_candidate a, rk_gap = range_gap ob (ar_start a) (ar_end a), rk_line = ar_start a\<rparr>)"

definition compare_ranked :: "(string \<Rightarrow> string \<Rightarrow> int) \<Rightarrow> ranked_candidate \<Rightarrow> ranked_candidate \<Rightarrow> int" where
  "compare_ranked lc l r =
     (if rk_gap l - rk_gap r \<noteq> 0 then rk_gap l - rk_gap r
      else if rk_line l - rk_line r \<noteq> 0 then rk_line l - rk_line r
      else lc (oc_finding (rk_candidate l)) (oc_finding (rk_candidate r)))"

definition overlapped_findings :: "'a span_scheme \<Rightarrow> finding_inventory \<Rightarrow> inventory_finding list" where
  "overlapped_findings ob inventory = filter (overlaps ob) (found (in_findings inventory))"

definition overlapped_accepted ::
  "'a span_scheme \<Rightarrow> finding_inventory \<Rightarrow> accepted_this_run list \<Rightarrow> accepted_this_run list" where
  "overlapped_accepted ob inventory accepted =
     filter (\<lambda>a. ar_finding a \<notin> if_id ` set (overlapped_findings ob inventory) \<and> accepted_overlaps ob a) accepted"

definition ranked_candidates ::
  "'a span_scheme \<Rightarrow> finding_inventory \<Rightarrow> accepted_this_run list \<Rightarrow> ranked_candidate list" where
  "ranked_candidates ob inventory accepted =
     (let known = map if_id (overlapped_findings ob inventory);
          known' = known @ map ar_finding (overlapped_accepted ob inventory accepted)
      in List.map_filter (rank_finding ob known) (found (in_findings inventory)) @
         List.map_filter (rank_accepted ob known') accepted)"

definition retrieval_candidates ::
  "(string \<Rightarrow> string \<Rightarrow> int) \<Rightarrow> 'a span_scheme \<Rightarrow> finding_inventory \<Rightarrow> accepted_this_run list \<Rightarrow> overlap_candidate list" where
  "retrieval_candidates lc ob inventory accepted =
     map inventory_candidate (overlapped_findings ob inventory) @
     map accepted_candidate (overlapped_accepted ob inventory accepted) @
     map rk_candidate (take nearest_same_file_candidates
       (to_sorted (compare_ranked lc) (ranked_candidates ob inventory accepted)))"

subsection \<open>The decision\<close>

text \<open>The members of a JavaScript \<open>Set\<close> in insertion order.\<close>

definition js_set :: "'a list \<Rightarrow> 'a list" where
  "js_set xs = rev (remdups (rev xs))"

fun answered_ids :: "observation_relation \<Rightarrow> finding_id list" where
  "answered_ids NewFinding = []"
| "answered_ids (Continues i) = [i]"
| "answered_ids (DistinctFrom is reason) = js_set is"
| "answered_ids (Uncertain is) = js_set is"

definition continue_finding ::
  "finding_id \<Rightarrow> observation \<Rightarrow> finding_inventory \<Rightarrow> accepted_this_run list \<Rightarrow> finding_id list \<Rightarrow> bool \<Rightarrow>
   finding_id \<Rightarrow> reconcile_step" where
  "continue_finding target ob inventory accepted retrieved complete minted =
     (let f = map_of (in_findings inventory) target
      in if f = None \<and> find (\<lambda>a. ar_finding a = target) accepted = None
         then Rejected (''Unknown finding id '' @ target @ ''.'')
         else if target \<notin> set retrieved
         then Rejected (''Finding '' @ target @ '' does not overlap this observation.'')
         else if f = None then Outcome (Reaffirm target (ob_severity ob))
         else case Option.bind (canonical_of (in_findings inventory) target) (map_of (in_findings inventory)) of
           None \<Rightarrow> Rejected (''Finding '' @ target @ '' has no canonical finding.'')
         | Some canonical \<Rightarrow>
             if if_state canonical = FindingOpen then
               if if_source canonical = HeldSummary \<and> complete then Outcome (Promote (if_id canonical))
               else Outcome (Reaffirm (if_id canonical) (ob_severity ob))
             else if if_resolution canonical = Some ResolvedFixed then
               if \<not> complete then Outcome (SummaryOnly minted InventoryIncomplete)
               else Outcome (PostThread minted (Some (if_id canonical)) [])
             else Outcome (SuppressedDismissed (if_id canonical)))"

definition known_ids :: "finding_inventory \<Rightarrow> accepted_this_run list \<Rightarrow> finding_id list" where
  "known_ids inventory accepted = map fst (in_findings inventory) @ map ar_finding accepted"

definition reconcile_observation ::
  "(string \<Rightarrow> string \<Rightarrow> int) \<Rightarrow> observation \<Rightarrow> observation_relation \<Rightarrow> finding_inventory \<Rightarrow>
   accepted_this_run list \<Rightarrow> nat \<Rightarrow> finding_id \<Rightarrow> reconcile_step" where
  "reconcile_observation lc ob relation inventory accepted rounds_left minted =
     (let complete = (in_completeness inventory = Complete);
          candidates = retrieval_candidates lc ob inventory accepted
      in case relation of
           Continues target \<Rightarrow>
             continue_finding target ob inventory accepted (map oc_finding candidates) complete minted
         | _ \<Rightarrow>
             let answered = answered_ids relation;
                 unknown = filter (\<lambda>i. i \<notin> set (known_ids inventory accepted)) answered;
                 unanswered = filter (\<lambda>c. oc_finding c \<notin> set answered) candidates
             in if unknown \<noteq> [] then Rejected (''Unknown finding ids '' @ join_text '', '' unknown @ ''.'')
                else if \<not> complete then Outcome (SummaryOnly minted InventoryIncomplete)
                else if unanswered \<noteq> [] then
                  if 0 < rounds_left then Question unanswered else Outcome (SummaryOnly minted UnansweredOverlap)
                else Outcome (PostThread minted None
                  (case relation of
                     Uncertain _ \<Rightarrow> map oc_url (filter (\<lambda>c. oc_finding c \<in> set answered \<and> oc_url c \<noteq> []) candidates)
                   | _ \<Rightarrow> [])))"

subsection \<open>Distances\<close>

lemma near_iff_gap:
  "sn_start ob \<le> sn_end ob \<Longrightarrow> s \<le> e \<Longrightarrow> ranges_near ob s e \<longleftrightarrow> range_gap ob s e \<le> overlap_window_lines"
  by (auto simp: ranges_near_def range_gap_def overlap_window_lines_def)

lemma range_order: "range_start f l \<le> range_end f l"
  by (simp add: range_start_def range_end_def)

lemma compare_ranked_order: "sort_order lc \<Longrightarrow> sort_order (compare_ranked lc)"
  using compare_then [OF difference_order [of rk_gap] compare_then [OF difference_order [of rk_line]
      on_key [of lc "\<lambda>r. oc_finding (rk_candidate r)"]]]
  by (simp add: compare_ranked_def [abs_def])

lemma compare_ranked_gap: "compare_ranked lc a b \<le> 0 \<Longrightarrow> rk_gap a \<le> rk_gap b"
  by (auto simp: compare_ranked_def split: if_splits)

lemma sorted_split: "sorted_wrt P xs \<Longrightarrow> \<forall>a \<in> set (take n xs). \<forall>b \<in> set (drop n xs). P a b"
  using sorted_wrt_append [of P "take n xs" "drop n xs"] by simp

lemma in_map_filter: "y \<in> set (List.map_filter f xs) \<longleftrightarrow> (\<exists>x \<in> set xs. f x = Some y)"
  by (induction xs) (auto simp: List.map_filter_simps split: option.split)

lemma ranked_cases [consumes 1, case_names Held Accepted]:
  assumes "r \<in> set (ranked_candidates ob inventory accepted)"
  obtains f where "f \<in> set (found (in_findings inventory))" "\<not> overlaps ob f"
      "rank_finding ob (map if_id (overlapped_findings ob inventory)) f = Some r"
    | a known where "a \<in> set accepted" "\<not> accepted_overlaps ob a" "rank_accepted ob known a = Some r"
proof -
  let ?known = "map if_id (overlapped_findings ob inventory)"
  let ?known' = "?known @ map ar_finding (overlapped_accepted ob inventory accepted)"
  consider f where "f \<in> set (found (in_findings inventory))" "rank_finding ob ?known f = Some r"
    | a where "a \<in> set accepted" "rank_accepted ob ?known' a = Some r"
    using assms by (auto simp: ranked_candidates_def Let_def in_map_filter)
  then show thesis
  proof cases
    case 1
    then have "\<not> overlaps ob f" by (auto simp: rank_finding_def overlapped_findings_def split: if_splits)
    with 1 show thesis using that(1) by blast
  next
    case 2
    then have "\<not> accepted_overlaps ob a" by (auto simp: rank_accepted_def overlapped_accepted_def split: if_splits)
    with 2 show thesis using that(2) by blast
  qed
qed

text \<open>The candidates of an observation are all findings within ten lines of it and all findings accepted
  in this run that are, and beside these the nearest of the others in the file, at most four: no
  finding that is left out is nearer than one of them, and none of them is within the window.\<close>

lemma candidates_overlap_or_nearest:
  assumes "sort_order lc" and "sn_start ob \<le> sn_end ob" and "list_all (\<lambda>a. ar_start a \<le> ar_end a) accepted"
  shows "\<exists>near rest. mset near + mset rest = mset (ranked_candidates ob inventory accepted) \<and>
    retrieval_candidates lc ob inventory accepted =
      map inventory_candidate (filter (overlaps ob) (found (in_findings inventory))) @
      map accepted_candidate (overlapped_accepted ob inventory accepted) @ map rk_candidate near \<and>
    length near \<le> 4 \<and> (length near < 4 \<longrightarrow> rest = []) \<and>
    (\<forall>a \<in> set near. overlap_window_lines < rk_gap a \<and> (\<forall>b \<in> set rest. rk_gap a \<le> rk_gap b))"
proof -
  let ?ranked = "ranked_candidates ob inventory accepted"
  define sorted where "sorted = to_sorted (compare_ranked lc) ?ranked"
  let ?near = "take 4 sorted" and ?rest = "drop 4 sorted"
  have "mset ?near + mset ?rest = mset ?ranked"
    by (metis append_take_drop_id mset_append mset_to_sorted sorted_def)
  moreover have "retrieval_candidates lc ob inventory accepted =
      map inventory_candidate (filter (overlaps ob) (found (in_findings inventory))) @
      map accepted_candidate (overlapped_accepted ob inventory accepted) @ map rk_candidate ?near"
    by (simp add: retrieval_candidates_def overlapped_findings_def nearest_same_file_candidates_def sorted_def)
  moreover have "sorted_wrt (\<lambda>a b. rk_gap a \<le> rk_gap b) sorted"
    using sort_order.to_sorted_le [OF compare_ranked_order [OF assms(1)], of ?ranked] compare_ranked_gap
    by (auto simp: sorted_def elim: sorted_wrt_mono_rel [rotated])
  then have "\<forall>a \<in> set ?near. \<forall>b \<in> set ?rest. rk_gap a \<le> rk_gap b" by (rule sorted_split)
  moreover have "overlap_window_lines < rk_gap r" if r: "r \<in> set ?ranked" for r
  proof -
    from r show ?thesis
    proof (cases rule: ranked_cases)
      case (Held f)
      then show ?thesis using near_iff_gap [OF assms(2) range_order]
        by (auto simp: rank_finding_def overlaps_def split: if_splits option.splits)
    next
      case (Accepted a known)
      then have "ar_start a \<le> ar_end a" using assms(3) by (simp add: list_all_iff)
      with Accepted show ?thesis using near_iff_gap [OF assms(2)]
        by (auto simp: rank_accepted_def accepted_overlaps_def split: if_splits)
    qed
  qed
  then have "\<forall>a \<in> set ?near. overlap_window_lines < rk_gap a" using in_set_takeD by (fastforce simp: sorted_def)
  moreover have "length ?near \<le> 4" and "length ?near < 4 \<longrightarrow> ?rest = []" by auto
  ultimately show ?thesis by blast
qed

definition sample_finding :: "finding_id \<Rightarrow> int \<Rightarrow> inventory_finding" where
  "sample_finding i line =
     \<lparr>if_id = i, if_source = HeldThread, if_legacy = False, if_thread = Some ''T'', if_root = Some 1, if_url = ''u'',
      if_path = ''a.ts'', if_previous_path = None, if_start_line = None, if_line = Some line, if_stale = False,
      if_state = FindingOpen, if_resolution = None, if_alias_of = None, if_reopens = None, if_lens = None,
      if_severity = Some P1, if_title = ''t'', if_created_at = ''2026'', if_human_replies = False,
      if_comments_complete = True, if_deleted = False\<rparr>"

definition sample_inventory :: finding_inventory where
  "sample_inventory = \<lparr>in_completeness = Complete,
     in_findings = [(''x'', sample_finding ''x'' 12), (''y'', sample_finding ''y'' 90)], in_copies = []\<rparr>"

definition sample_observation :: observation where
  "sample_observation = \<lparr>sn_file = ''a.ts'', sn_start = 10, sn_end = 11, ob_severity = P2, ob_title = ''t''\<rparr>"

lemma sample_candidates:
  "map oc_finding (retrieval_candidates code_unit_compare sample_observation sample_inventory []) = [''x'', ''y'']"
  by (simp add: retrieval_candidates_def overlapped_findings_def overlapped_accepted_def ranked_candidates_def
      sample_inventory_def sample_observation_def sample_finding_def overlaps_def same_file_def ranges_near_def
      range_start_def range_end_def overlap_window_lines_def List.map_filter_simps rank_finding_def
      inventory_candidate_def nearest_same_file_candidates_def)

lemma candidates_overlap_or_nearest_witness:
  "\<exists>near :: ranked_candidate list. length near \<le> 4 \<and> retrieval_candidates code_unit_compare sample_observation sample_inventory [] =
     map inventory_candidate (filter (overlaps sample_observation) (found (in_findings sample_inventory))) @ map rk_candidate near"
proof -
  have "sn_start sample_observation \<le> sn_end sample_observation" by (simp add: sample_observation_def)
  from candidates_overlap_or_nearest [OF code_units.sort_order_axioms this, of "[]" sample_inventory, OF list.pred_inject(1)]
  obtain near :: "ranked_candidate list" where "length near \<le> 4"
    and "retrieval_candidates code_unit_compare sample_observation sample_inventory [] =
      map inventory_candidate (filter (overlaps sample_observation) (found (in_findings sample_inventory))) @
      map accepted_candidate (overlapped_accepted sample_observation sample_inventory []) @ map rk_candidate near"
    by blast
  moreover have "overlapped_accepted sample_observation sample_inventory [] = []" by (simp add: overlapped_accepted_def)
  ultimately show ?thesis by (intro exI [of _ near]) simp
qed

subsection \<open>When a thread is opened\<close>


lemma sample_posts:
  "reconcile_observation code_unit_compare sample_observation (DistinctFrom [''x'', ''y''] ''other'') sample_inventory [] 0 ''z'' =
     Outcome (PostThread ''z'' None [])"
proof -
  have "filter (\<lambda>c. oc_finding c \<notin> set [''x'', ''y'']) (retrieval_candidates code_unit_compare sample_observation sample_inventory []) = []"
    using sample_candidates by (auto simp: filter_empty_conv map_eq_Cons_conv)
  then show ?thesis
    by (simp add: reconcile_observation_def js_set_def known_ids_def Let_def) (simp add: sample_inventory_def)
qed


lemma candidate_known:
  assumes "keyed (in_findings inventory)" and "c \<in> set (retrieval_candidates lc ob inventory accepted)"
  shows "oc_finding c \<in> set (known_ids inventory accepted)"
proof -
  have held: "if_id f \<in> set (known_ids inventory accepted)" if "f \<in> set (found (in_findings inventory))" for f
    using that assms(1) by (force simp: known_ids_def keyed_def)
  have run: "ar_finding a \<in> set (known_ids inventory accepted)" if "a \<in> set accepted" for a
    using that by (simp add: known_ids_def)
  have ranked: "oc_finding (rk_candidate r) \<in> set (known_ids inventory accepted)"
    if "r \<in> set (ranked_candidates ob inventory accepted)" for r
    using that
  proof (cases rule: ranked_cases)
    case (Held f)
    then show ?thesis using held [OF Held(1)]
      by (auto simp: rank_finding_def inventory_candidate_def split: if_splits option.splits)
  next
    case (Accepted a known)
    then show ?thesis using run [OF Accepted(1)]
      by (auto simp: rank_accepted_def accepted_candidate_def split: if_splits)
  qed
  have "c \<in> inventory_candidate ` set (overlapped_findings ob inventory) \<or>
      c \<in> accepted_candidate ` set (overlapped_accepted ob inventory accepted) \<or>
      c \<in> rk_candidate ` set (to_sorted (compare_ranked lc) (ranked_candidates ob inventory accepted))"
    using assms(2) in_set_takeD by (fastforce simp: retrieval_candidates_def)
  then show ?thesis
  proof (elim disjE imageE)
    fix f assume "c = inventory_candidate f" "f \<in> set (overlapped_findings ob inventory)"
    then show ?thesis using held [of f] by (simp add: overlapped_findings_def inventory_candidate_def)
  next
    fix a assume "c = accepted_candidate a" "a \<in> set (overlapped_accepted ob inventory accepted)"
    then show ?thesis using run [of a] by (simp add: overlapped_accepted_def accepted_candidate_def)
  next
    fix r assume "c = rk_candidate r" "r \<in> set (to_sorted (compare_ranked lc) (ranked_candidates ob inventory accepted))"
    then show ?thesis using ranked [of r] by simp
  qed
qed

lemma set_js_set [simp]: "set (js_set xs) = set xs"
  by (simp add: js_set_def)

text \<open>C18. A question can be settled: when the code asks about candidates, an answer that declares the
  observation different from what the reviewer had named and from all the candidates asked about is
  accepted in the next round, whatever number of rounds is left, and opens the thread.\<close>

theorem answered_question_posts:
  assumes "keyed (in_findings inventory)"
    and "reconcile_observation lc ob relation inventory accepted rounds minted = Question asked"
  shows "0 < rounds \<and> asked \<noteq> [] \<and>
    reconcile_observation lc ob (DistinctFrom (answered_ids relation @ map oc_finding asked) reason) inventory accepted
      rounds' minted' = Outcome (PostThread minted' None [])"
proof -
  let ?cs = "retrieval_candidates lc ob inventory accepted"
  have no: "\<forall>target. relation \<noteq> Continues target"
    using assms(2) by (auto simp: reconcile_observation_def continue_finding_def Let_def split: if_splits option.splits bind_splits)
  have q: "filter (\<lambda>i. i \<notin> set (known_ids inventory accepted)) (answered_ids relation) = []"
    "in_completeness inventory = Complete" "0 < rounds" "asked \<noteq> []"
    "asked = filter (\<lambda>c. oc_finding c \<notin> set (answered_ids relation)) ?cs"
    using assms(2) no by (cases relation; simp add: reconcile_observation_def Let_def split: if_splits)+
  let ?ids = "answered_ids relation @ map oc_finding asked"
  have "i \<in> set (known_ids inventory accepted)" if "i \<in> set ?ids" for i
    using that q(1,5) candidate_known [OF assms(1), of _ lc ob accepted] by (auto simp: filter_empty_conv)
  then have "filter (\<lambda>i. i \<notin> set (known_ids inventory accepted)) (js_set ?ids) = []" by (auto simp: filter_empty_conv)
  moreover have "filter (\<lambda>c. oc_finding c \<notin> set ?ids) ?cs = []" using q(5) by (auto simp: filter_empty_conv)
  ultimately have "reconcile_observation lc ob (DistinctFrom ?ids reason) inventory accepted rounds' minted' =
      Outcome (PostThread minted' None [])"
    using q(2) by (simp add: reconcile_observation_def Let_def del: set_append)
  with q show ?thesis by blast
qed

lemma sample_asks:
  "\<exists>asked. reconcile_observation code_unit_compare sample_observation NewFinding sample_inventory [] 1 ''z'' = Question asked"
  using sample_candidates
  by (cases "retrieval_candidates code_unit_compare sample_observation sample_inventory []")
    (auto simp: reconcile_observation_def known_ids_def sample_inventory_def)

theorem answered_question_posts_witness:
  "\<exists>ids. reconcile_observation code_unit_compare sample_observation (DistinctFrom ids ''other'') sample_inventory [] 0 ''z'' =
     Outcome (PostThread ''z'' None [])"
proof -
  have "keyed (in_findings sample_inventory)" by (simp add: keyed_def sample_inventory_def sample_finding_def)
  then show ?thesis using answered_question_posts sample_asks by blast
qed

end
