(* ===== verification/Finding_Lifecycle.thy ===== *)
theory Finding_Lifecycle
  imports Finding_Reconcile
begin

text \<open>
  The state of the findings after a run: \<^verbatim>\<open>src/review/findingIdentity/findingLifecycle.ts\<close> with the ledger of
  \<^verbatim>\<open>src/review/orchestrator/orchestratorTypes.ts\<close>. The view lists every open finding with its severity; the
  check of the pull request fails when one of them is severe enough.

  \<open>None\<close> is the severity \<open>unknown\<close>. \<open>lc\<close> is \<open>localeCompare\<close>. The Markdown of a section is an argument of the
  functions that choose which rows it lists.

  The lemmas show that the view lists every open finding once, when the check fails, that open copies of a
  finding count for it, and that the search for the longest text that fits is a linear search.
\<close>

subsection \<open>The ledger of a run\<close>

datatype accepted_kind = AcceptedPosted | AcceptedResumed | AcceptedSummaryOnly

record accepted_placement =
  ap_kind :: accepted_kind
  ap_source :: finding_source
  ap_placement :: placement
  ap_finding :: finding_id

datatype reaffirmed_by = ReaffirmedThread | ReaffirmedSummary | ReaffirmedRun

record reaffirmed_finding =
  re_id :: finding_id
  re_source :: finding_source
  re_severity :: severity
  re_judged :: "bool option"
  re_ceiling :: "severity option"
  re_held_by :: reaffirmed_by
  re_placement :: placement

record finding_ledger =
  lg_accepted :: "accepted_placement list"
  lg_reaffirmed :: "reaffirmed_finding list"
  lg_suppressed :: nat
  lg_review_ids :: "int list"
  lg_posted :: nat
  lg_thread_calls :: nat
  lg_exhausted :: bool

definition empty_ledger :: finding_ledger where
  "empty_ledger = \<lparr>lg_accepted = [], lg_reaffirmed = [], lg_suppressed = 0, lg_review_ids = [], lg_posted = 0,
     lg_thread_calls = 0, lg_exhausted = False\<rparr>"

definition create_finding_ledger :: "finding_ledger \<Rightarrow> finding_ledger" where
  "create_finding_ledger initial = initial\<lparr>lg_review_ids := js_set (lg_review_ids initial)\<rparr>"

definition apply_finding_ledger_delta :: "finding_ledger \<Rightarrow> finding_ledger \<Rightarrow> finding_ledger" where
  "apply_finding_ledger_delta l d =
     \<lparr>lg_accepted = lg_accepted l @ lg_accepted d, lg_reaffirmed = lg_reaffirmed l @ lg_reaffirmed d,
      lg_suppressed = lg_suppressed l + lg_suppressed d,
      lg_review_ids = js_set (lg_review_ids l @ lg_review_ids d), lg_posted = lg_posted l + lg_posted d,
      lg_thread_calls = lg_thread_calls l + lg_thread_calls d, lg_exhausted = (lg_exhausted l \<or> lg_exhausted d)\<rparr>"

fun carried_reaffirmed :: "finding_id list \<Rightarrow> reaffirmed_finding list \<Rightarrow> reaffirmed_finding list" where
  "carried_reaffirmed seen [] = []"
| "carried_reaffirmed seen (e # es) =
     (if re_held_by e = ReaffirmedRun \<or> re_id e \<in> set seen then carried_reaffirmed seen es
      else e # carried_reaffirmed (re_id e # seen) es)"

definition carried_reaffirmed_findings :: "finding_ledger \<Rightarrow> reaffirmed_finding list" where
  "carried_reaffirmed_findings l = carried_reaffirmed (map ap_finding (lg_accepted l)) (lg_reaffirmed l)"

definition ledger_findings :: "finding_ledger \<Rightarrow> finding list" where
  "ledger_findings l =
     map (\<lambda>a. pl_finding (ap_placement a)) (lg_accepted l) @
     map (\<lambda>e. pl_finding (re_placement e)) (carried_reaffirmed_findings l)"

definition count_accepted_for_source :: "finding_ledger \<Rightarrow> finding_source \<Rightarrow> nat" where
  "count_accepted_for_source l s =
     length (filter (\<lambda>a. ap_source a = s) (lg_accepted l)) + length (filter (\<lambda>e. re_source e = s) (lg_reaffirmed l))"

definition specialist_done_findings :: "finding_ledger \<Rightarrow> finding_ledger \<Rightarrow> finding_source \<Rightarrow> int" where
  "specialist_done_findings before after s =
     int (count_accepted_for_source after s) - int (count_accepted_for_source before s)"

subsection \<open>Severities\<close>

definition any_rank :: "severity option \<Rightarrow> int" where
  "any_rank s = (case s of None \<Rightarrow> 4 | Some p \<Rightarrow> severity_rank p)"

definition higher_severity :: "severity option \<Rightarrow> severity option \<Rightarrow> severity option" where
  "higher_severity l r = (if any_rank l \<le> any_rank r then l else r)"

definition severity_within_run_cap ::
  "severity \<Rightarrow> bool \<Rightarrow> string \<Rightarrow> string option \<Rightarrow> bool \<Rightarrow> severity option \<Rightarrow> severity" where
  "severity_within_run_cap s tests_lens anchor_path held_path judged ceiling =
     (let capped = capped_finding_severity s tests_lens anchor_path judged ceiling
      in case held_path of
           None \<Rightarrow> capped
         | Some h \<Rightarrow> if h = anchor_path then capped else capped_finding_severity capped tests_lens h judged ceiling)"

text \<open>\<open>held\<close> is \<open>None\<close> when it is undefined.\<close>

definition capped_reaffirmed_severity ::
  "severity option option \<Rightarrow> severity \<Rightarrow> bool \<Rightarrow> string \<Rightarrow> string option \<Rightarrow> bool \<Rightarrow> severity option \<Rightarrow> severity" where
  "capped_reaffirmed_severity held observed tests_lens anchor_path held_path judged ceiling =
     (let merged = (case held of None \<Rightarrow> Some observed | Some h \<Rightarrow> higher_severity h (Some observed))
      in severity_within_run_cap (case merged of None \<Rightarrow> observed | Some s \<Rightarrow> s) tests_lens anchor_path held_path judged ceiling)"

subsection \<open>Rows of the view\<close>

datatype finding_status = StatusNew | ConfirmedAtHead | OpenUnverified | OutdatedLocation | StatusSummaryOnly

record cleaned_duplicate =
  cd_duplicate :: finding_id
  cd_canonical :: finding_id
  cd_url :: string
  cd_resolved :: bool

datatype run_outcomes = Reviewed finding_ledger "cleaned_duplicate list" | NotReviewed

record view_row =
  vr_id :: finding_id
  vr_status :: finding_status
  vr_severity :: "severity option"
  vr_blocking :: bool
  vr_held :: "inventory_finding option"
  vr_observed :: bool

record finding_view =
  vw_completeness :: completeness
  vw_rows :: "view_row list"
  vw_blocking :: nat
  vw_suppressed :: nat
  vw_duplicates :: "cleaned_duplicate list"

definition blocks_at :: "severity \<Rightarrow> severity option \<Rightarrow> bool" where
  "blocks_at threshold s = (case s of None \<Rightarrow> False | Some p \<Rightarrow> is_check_failing_severity p threshold)"

definition new_view_row ::
  "finding_id \<Rightarrow> finding_status \<Rightarrow> severity option \<Rightarrow> inventory_finding option \<Rightarrow> bool \<Rightarrow> severity \<Rightarrow> view_row" where
  "new_view_row i st s held observed threshold =
     \<lparr>vr_id = i, vr_status = st, vr_severity = s, vr_blocking = blocks_at threshold s, vr_held = held,
      vr_observed = observed\<rparr>"

definition add_accepted_row ::
  "severity \<Rightarrow> accepted_placement \<Rightarrow> (finding_id \<times> view_row) list \<Rightarrow> (finding_id \<times> view_row) list" where
  "add_accepted_row threshold a rows =
     (if map_of rows (ap_finding a) \<noteq> None then rows
      else AList.update (ap_finding a)
        (new_view_row (ap_finding a) (if ap_kind a = AcceptedSummaryOnly then StatusSummaryOnly else StatusNew)
          (Some (f_severity (pl_finding (ap_placement a)))) None True threshold) rows)"

definition add_reaffirmed_row ::
  "finding_inventory \<Rightarrow> severity \<Rightarrow> reaffirmed_finding \<Rightarrow> (finding_id \<times> view_row) list \<Rightarrow> (finding_id \<times> view_row) list" where
  "add_reaffirmed_row inventory threshold e rows =
     (case map_of (in_findings inventory) (re_id e) of
        None \<Rightarrow> rows
      | Some held \<Rightarrow>
          if map_of rows (re_id e) \<noteq> None \<or> if_state held \<noteq> FindingOpen then rows
          else AList.update (re_id e)
            (new_view_row (re_id e) (if if_source held = HeldThread then ConfirmedAtHead else StatusSummaryOnly)
              (higher_severity (if_severity held) (Some (re_severity e))) (Some held) True threshold) rows)"

definition run_rows :: "finding_inventory \<Rightarrow> finding_ledger \<Rightarrow> severity \<Rightarrow> view_row list" where
  "run_rows inventory l threshold =
     map snd (fold (add_reaffirmed_row inventory threshold) (lg_reaffirmed l)
       (fold (add_accepted_row threshold) (lg_accepted l) []))"

definition carried_status :: "inventory_finding \<Rightarrow> finding_status" where
  "carried_status f =
     (if if_source f = HeldSummary then StatusSummaryOnly
      else if if_stale f then OutdatedLocation else OpenUnverified)"

definition compare_carried :: "(string \<Rightarrow> string \<Rightarrow> int) \<Rightarrow> inventory_finding \<Rightarrow> inventory_finding \<Rightarrow> int" where
  "compare_carried lc l r =
     (if any_rank (if_severity l) - any_rank (if_severity r) \<noteq> 0 then any_rank (if_severity l) - any_rank (if_severity r)
      else if lc (if_path l) (if_path r) \<noteq> 0 then lc (if_path l) (if_path r)
      else if or0 (if_line l) - or0 (if_line r) \<noteq> 0 then or0 (if_line l) - or0 (if_line r)
      else lc (if_id l) (if_id r))"

subsection \<open>Canonical findings after a cleanup\<close>

text \<open>The next finding of a chain: what the cleanup of this run says, else the alias of the inventory.\<close>

definition cleanup_next :: "findings_map \<Rightarrow> (finding_id \<times> finding_id) list \<Rightarrow> finding_id \<Rightarrow> finding_id option" where
  "cleanup_next fs cleaned_to i =
     (case map_of cleaned_to i of Some c \<Rightarrow> Some c | None \<Rightarrow> alias_next fs i)"

definition chain_nodes :: "findings_map \<Rightarrow> (finding_id \<times> finding_id) list \<Rightarrow> finding_id list" where
  "chain_nodes fs cleaned_to = map fst cleaned_to @ map fst fs"

lemma cleanup_next_node: "cleanup_next fs cleaned_to i = Some c \<Longrightarrow> i \<in> set (chain_nodes fs cleaned_to)"
  by (auto simp: cleanup_next_def alias_next_def chain_nodes_def dest!: map_of_SomeD split: option.splits bind_splits)
    force+

lemma unvisited_less:
  assumes "i \<in> set nodes" and "i \<notin> set seen"
  shows "length (filter (\<lambda>n. n \<notin> set (i # seen)) nodes) < length (filter (\<lambda>n. n \<notin> set seen) nodes)"
  using length_filter_less [of i "filter (\<lambda>n. n \<notin> set seen) nodes" "\<lambda>n. n \<noteq> i"] assms
  by (simp add: conj_commute)

function cleanup_loop ::
  "findings_map \<Rightarrow> (finding_id \<times> finding_id) list \<Rightarrow> finding_id list \<Rightarrow> finding_id \<Rightarrow> finding_id option" where
  "cleanup_loop fs cleaned_to seen current =
     (if current \<in> set seen then None
      else case cleanup_next fs cleaned_to current of
        None \<Rightarrow> Some current
      | Some next \<Rightarrow> cleanup_loop fs cleaned_to (current # seen) next)"
  by pat_completeness auto
termination
  by (relation "measure (\<lambda>(fs, cleaned_to, seen, _). length (filter (\<lambda>n. n \<notin> set seen) (chain_nodes fs cleaned_to)))")
    (auto simp del: set_simps intro!: unvisited_less dest: cleanup_next_node)

declare cleanup_loop.simps [simp del]

definition canonical_after_cleanup :: "findings_map \<Rightarrow> (finding_id \<times> finding_id) list \<Rightarrow> finding_id \<Rightarrow> finding_id option" where
  "canonical_after_cleanup fs cleaned_to start = cleanup_loop fs cleaned_to [] start"

text \<open>\<open>new Map\<close> of a list of entries.\<close>

definition js_map :: "('k \<times> 'v) list \<Rightarrow> ('k \<times> 'v) list" where
  "js_map xs = fold (\<lambda>(k, v). AList.update k v) xs []"

definition add_copy_severity ::
  "findings_map \<Rightarrow> (finding_id \<times> finding_id) list \<Rightarrow> finding_id list \<Rightarrow> inventory_finding \<Rightarrow>
   (finding_id \<times> severity option) list \<Rightarrow> (finding_id \<times> severity option) list" where
  "add_copy_severity fs cleaned_to closed f acc =
     (if if_state f \<noteq> FindingOpen \<or> if_id f \<in> set closed then acc
      else if if_alias_of f = None \<and> map_of cleaned_to (if_id f) = None then acc
      else case canonical_after_cleanup fs cleaned_to (if_id f) of
        None \<Rightarrow> acc
      | Some c \<Rightarrow> AList.update c
          (higher_severity (case map_of acc c of Some s \<Rightarrow> s | None \<Rightarrow> None) (if_severity f)) acc)"

definition open_copy_severities ::
  "finding_inventory \<Rightarrow> cleaned_duplicate list \<Rightarrow> (finding_id \<times> severity option) list" where
  "open_copy_severities inventory cleaned =
     (let cleaned_to = js_map (map (\<lambda>d. (cd_duplicate d, cd_canonical d)) cleaned);
          closed = map cd_duplicate (filter cd_resolved cleaned)
      in fold (add_copy_severity (in_findings inventory) cleaned_to closed) (found (in_findings inventory)) [])"

subsection \<open>The view\<close>

definition outcome_duplicates :: "run_outcomes \<Rightarrow> cleaned_duplicate list" where
  "outcome_duplicates outcomes = (case outcomes of Reviewed _ ds \<Rightarrow> ds | NotReviewed \<Rightarrow> [])"

definition cleaned_duplicates :: "finding_inventory \<Rightarrow> run_outcomes \<Rightarrow> cleaned_duplicate list" where
  "cleaned_duplicates inventory outcomes =
     filter (\<lambda>d. map_option if_url (map_of (in_findings inventory) (cd_duplicate d)) \<noteq> Some (cd_url d))
       (outcome_duplicates outcomes)"

definition observed_rows :: "finding_inventory \<Rightarrow> run_outcomes \<Rightarrow> severity \<Rightarrow> view_row list" where
  "observed_rows inventory outcomes threshold =
     filter (\<lambda>r. vr_id r \<notin> cd_duplicate ` set (cleaned_duplicates inventory outcomes))
       (case outcomes of Reviewed l _ \<Rightarrow> run_rows inventory l threshold | NotReviewed \<Rightarrow> [])"

definition carried_findings ::
  "(string \<Rightarrow> string \<Rightarrow> int) \<Rightarrow> finding_inventory \<Rightarrow> run_outcomes \<Rightarrow> severity \<Rightarrow> inventory_finding list" where
  "carried_findings lc inventory outcomes threshold =
     to_sorted (compare_carried lc) (filter (\<lambda>f.
       if_state f = FindingOpen \<and> if_alias_of f = None \<and>
       if_id f \<notin> vr_id ` set (observed_rows inventory outcomes threshold) \<and>
       if_id f \<notin> cd_duplicate ` set (cleaned_duplicates inventory outcomes) \<and>
       (if_source f = HeldThread \<or> outcomes = NotReviewed)) (found (in_findings inventory)))"

definition reaffirmed_entry :: "run_outcomes \<Rightarrow> finding_id \<Rightarrow> reaffirmed_finding option" where
  "reaffirmed_entry outcomes i = (case outcomes of
      NotReviewed \<Rightarrow> None
    | Reviewed l _ \<Rightarrow>
        if i \<in> ap_finding ` set (lg_accepted l) then None
        else map_of (js_map (map (\<lambda>e. (re_id e, e)) (lg_reaffirmed l))) i)"

definition merged_severity :: "(finding_id \<times> severity option) list \<Rightarrow> view_row \<Rightarrow> severity option" where
  "merged_severity copies row =
     (case map_of copies (vr_id row) of None \<Rightarrow> vr_severity row | Some c \<Rightarrow> higher_severity (vr_severity row) c)"

definition row_severity ::
  "run_outcomes \<Rightarrow> (finding_id \<times> severity option) list \<Rightarrow> view_row \<Rightarrow> severity option" where
  "row_severity outcomes copies row =
     (case (reaffirmed_entry outcomes (vr_id row), merged_severity copies row) of
        (Some e, Some m) \<Rightarrow> Some (severity_within_run_cap m (re_source e = SourceTests)
          (f_file (pl_finding (re_placement e))) (map_option if_path (vr_held row)) (re_judged e \<noteq> Some False) (re_ceiling e))
      | (_, merged) \<Rightarrow> merged)"

definition settled_row ::
  "run_outcomes \<Rightarrow> (finding_id \<times> severity option) list \<Rightarrow> severity \<Rightarrow> view_row \<Rightarrow> view_row" where
  "settled_row outcomes copies threshold row =
     (let s = row_severity outcomes copies row
      in if s = vr_severity row then row
         else new_view_row (vr_id row) (vr_status row) s (vr_held row) (vr_observed row) threshold)"

definition build_finding_view ::
  "(string \<Rightarrow> string \<Rightarrow> int) \<Rightarrow> finding_inventory \<Rightarrow> run_outcomes \<Rightarrow> severity \<Rightarrow> finding_view" where
  "build_finding_view lc inventory outcomes threshold =
     (let copies = open_copy_severities inventory (cleaned_duplicates inventory outcomes);
          carried = map (\<lambda>f. new_view_row (if_id f) (carried_status f) (if_severity f) (Some f) False threshold)
            (carried_findings lc inventory outcomes threshold);
          rows = map (settled_row outcomes copies threshold) (observed_rows inventory outcomes threshold @ carried)
      in \<lparr>vw_completeness = in_completeness inventory, vw_rows = rows,
          vw_blocking = length (filter vr_blocking rows),
          vw_suppressed = (case outcomes of Reviewed l _ \<Rightarrow> lg_suppressed l | NotReviewed \<Rightarrow> 0),
          vw_duplicates = outcome_duplicates outcomes\<rparr>)"

datatype check_conclusion = CheckFailure | CheckNeutral | CheckSuccess

definition conclusion_of_view :: "finding_view \<Rightarrow> check_conclusion" where
  "conclusion_of_view v =
     (if 0 < vw_blocking v then CheckFailure
      else if vw_completeness v = Complete then CheckSuccess else CheckNeutral)"

definition finding_check :: "finding_view \<Rightarrow> check_conclusion \<times> nat" where
  "finding_check v = (conclusion_of_view v, vw_blocking v)"

subsection \<open>The section of carried findings\<close>

type_synonym listed_row = "view_row \<times> inventory_finding"

function fit_loop :: "('b \<Rightarrow> int) \<Rightarrow> int \<Rightarrow> (int \<Rightarrow> 'b) \<Rightarrow> int \<Rightarrow> int \<Rightarrow> 'b option \<Rightarrow> 'b option" where
  "fit_loop len budget render lo hi best =
     (if lo \<le> hi then
        let limit = (lo + hi) div 2; body = render limit
        in if len body \<le> budget then fit_loop len budget render (limit + 1) hi (Some body)
           else fit_loop len budget render lo (limit - 1) best
      else best)"
  by pat_completeness auto
termination by (relation "measure (\<lambda>(_, _, _, lo, hi, _). nat (hi + 1 - lo))") auto

declare fit_loop.simps [simp del]

definition largest_fitting_body :: "('b \<Rightarrow> int) \<Rightarrow> int \<Rightarrow> int \<Rightarrow> (int \<Rightarrow> 'b) \<Rightarrow> 'b option" where
  "largest_fitting_body len max_limit budget render = fit_loop len budget render 0 max_limit None"

text \<open>The rows that two counters let through, one for rows that only the summary holds.\<close>

fun limited_rows :: "int \<Rightarrow> int \<Rightarrow> listed_row list \<Rightarrow> listed_row list" where
  "limited_rows droppable durable [] = []"
| "limited_rows droppable durable (r # rs) =
     (if if_source (snd r) = HeldSummary
      then (if 0 \<le> durable - 1 then r # limited_rows droppable (durable - 1) rs else limited_rows droppable (durable - 1) rs)
      else (if 0 \<le> droppable - 1 then r # limited_rows (droppable - 1) durable rs else limited_rows (droppable - 1) durable rs))"

definition listed_rows :: "finding_view \<Rightarrow> listed_row list" where
  "listed_rows v = List.map_filter (\<lambda>row. case vr_held row of
     None \<Rightarrow> None | Some f \<Rightarrow> if vr_observed row then None else Some (row, f)) (vw_rows v)"

definition with_limits :: "(listed_row list \<Rightarrow> nat \<Rightarrow> 'b) \<Rightarrow> listed_row list \<Rightarrow> int \<Rightarrow> int \<Rightarrow> 'b" where
  "with_limits body listed droppable durable =
     (let rows = limited_rows droppable durable listed in body rows (length listed - length rows))"

abbreviation durable :: "listed_row \<Rightarrow> bool" where
  "durable r \<equiv> if_source (snd r) = HeldSummary"

text \<open>\<open>body\<close> is the Markdown of some rows and the number of omitted ones, \<open>nothing\<close> the empty text and \<open>note\<close>
  the one about an inventory that could not be read.\<close>

definition render_findings_section ::
  "('b \<Rightarrow> int) \<Rightarrow> 'b \<Rightarrow> 'b \<Rightarrow> (listed_row list \<Rightarrow> nat \<Rightarrow> 'b) \<Rightarrow> finding_view \<Rightarrow> int \<Rightarrow> 'b" where
  "render_findings_section len nothing note body v budget_chars =
     (let budget = max 0 budget_chars
      in if vw_rows v = [] then
           let text = (if vw_completeness v = Complete then nothing else note)
           in if len text \<le> budget then text else nothing
         else
           let listed = listed_rows v;
               durable_count = int (length (filter durable listed));
               droppable_count = int (length listed) - durable_count
           in case largest_fitting_body len droppable_count budget (\<lambda>limit. with_limits body listed limit durable_count) of
                Some b \<Rightarrow> b
              | None \<Rightarrow> (case largest_fitting_body len (durable_count - 1) budget (with_limits body listed 0) of
                  Some b \<Rightarrow> b
                | None \<Rightarrow> nothing))"

subsection \<open>The search for the longest text that fits\<close>

lemma fit_loop_sound:
  "fit_loop len budget render lo hi best = Some b \<Longrightarrow>
     best = Some b \<or> len b \<le> budget \<and> (\<exists>k. lo \<le> k \<and> k \<le> hi \<and> b = render k)"
proof (induction len budget render lo hi best rule: fit_loop.induct)
  case (1 len budget render lo hi best)
  let ?m = "(lo + hi) div 2"
  show ?case
  proof (cases "lo \<le> hi")
    case True
    then have m: "lo \<le> ?m" "?m \<le> hi" by auto
    show ?thesis
    proof (cases "len (render ?m) \<le> budget")
      case fits: True
      then have "fit_loop len budget render (?m + 1) hi (Some (render ?m)) = Some b"
        using 1(3) True by (subst (asm) fit_loop.simps) (simp add: Let_def)
      then show ?thesis using 1(1) [OF True refl refl fits] fits m by force
    next
      case False
      then have "fit_loop len budget render lo (?m - 1) best = Some b"
        using 1(3) True by (subst (asm) fit_loop.simps) (simp add: Let_def)
      from 1(2) [OF True refl refl False this] show ?thesis
      proof (elim disjE conjE exE)
        fix k
        assume "len b \<le> budget" "lo \<le> k" "k \<le> ?m - 1" "b = render k"
        moreover have "k \<le> hi" using \<open>k \<le> ?m - 1\<close> m(2) by linarith
        ultimately show ?thesis by blast
      qed simp
    qed
  next
    case False
    then show ?thesis using 1(3) by (subst (asm) fit_loop.simps) simp
  qed
qed

text \<open>The linear search from above.\<close>

definition linear_fit :: "('b \<Rightarrow> int) \<Rightarrow> int \<Rightarrow> int \<Rightarrow> (int \<Rightarrow> 'b) \<Rightarrow> 'b option" where
  "linear_fit len max_limit budget render =
     map_option render (find (\<lambda>k. len (render k) \<le> budget) (rev [0..max_limit]))"

lemma find_down:
  "0 \<le> n \<Longrightarrow> P n \<Longrightarrow> \<forall>k. n < k \<and> k \<le> m \<longrightarrow> \<not> P k \<Longrightarrow> n \<le> m \<Longrightarrow> find P (rev [0..m]) = Some (n :: int)"
proof -
  assume n: "0 \<le> n" "P n" "\<forall>k. n < k \<and> k \<le> m \<longrightarrow> \<not> P k" "n \<le> m"
  have "[0..m] = [0..n - 1] @ n # [n + 1..m]" using n(1,4) by (rule upto_split3)
  moreover have "find P (rev [n + 1..m]) = None" using n(3) by (auto simp: find_None_iff)
  ultimately show ?thesis using n(2) by (simp add: find_append)
qed

lemma fit_loop_linear:
  assumes "\<And>a b. 0 \<le> a \<Longrightarrow> a \<le> b \<Longrightarrow> b \<le> m \<Longrightarrow> len (render a) \<le> len (render b)"
  shows "0 \<le> lo \<Longrightarrow> hi \<le> m \<Longrightarrow> lo \<le> hi + 1 \<Longrightarrow> \<forall>k. hi < k \<and> k \<le> m \<longrightarrow> \<not> len (render k) \<le> budget \<Longrightarrow>
     best = (if lo = 0 then None else Some (render (lo - 1))) \<Longrightarrow> (lo \<noteq> 0 \<longrightarrow> len (render (lo - 1)) \<le> budget) \<Longrightarrow>
     fit_loop len budget render lo hi best = linear_fit len m budget render"
proof (induction "nat (hi + 1 - lo)" arbitrary: lo hi best rule: less_induct)
  case less
  let ?m = "(lo + hi) div 2"
  show ?case
  proof (cases "lo \<le> hi")
    case True
    then have m: "lo \<le> ?m" "?m \<le> hi" by auto
    show ?thesis
    proof (cases "len (render ?m) \<le> budget")
      case fits: True
      have "fit_loop len budget render (?m + 1) hi (Some (render ?m)) = linear_fit len m budget render"
        using less.prems m fits by (intro less.hyps) auto
      then show ?thesis using True fits by (subst fit_loop.simps) (simp add: Let_def)
    next
      case False
      have above: "\<not> len (render k) \<le> budget" if "?m - 1 < k" "k \<le> m" for k
        using assms [of ?m k] that False m less.prems(1) by fastforce
      have "fit_loop len budget render lo (?m - 1) best = linear_fit len m budget render"
        using less.prems m above by (intro less.hyps) auto
      then show ?thesis using True False by (subst fit_loop.simps) (simp add: Let_def)
    qed
  next
    case False
    then have lo: "lo = hi + 1" using less.prems by simp
    have "linear_fit len m budget render = best"
    proof (cases "lo = 0")
      case True
      then have "find (\<lambda>k. len (render k) \<le> budget) (rev [0..m]) = None"
        using less.prems lo by (auto simp: find_None_iff)
      then show ?thesis using True less.prems by (simp add: linear_fit_def)
    next
      case n: False
      then have "find (\<lambda>k. len (render k) \<le> budget) (rev [0..m]) = Some (lo - 1)"
        using less.prems lo by (intro find_down) auto
      then show ?thesis using n less.prems by (simp add: linear_fit_def)
    qed
    then show ?thesis using False by (subst fit_loop.simps) simp
  qed
qed

text \<open>The binary search for the longest text that fits is the linear search from above, whenever a larger
  limit never gives a shorter text.\<close>

lemma binary_search_is_linear:
  assumes "\<And>a b. 0 \<le> a \<Longrightarrow> a \<le> b \<Longrightarrow> b \<le> max_limit \<Longrightarrow> len (render a) \<le> len (render b)" and "- 1 \<le> max_limit"
  shows "largest_fitting_body len max_limit budget render = linear_fit len max_limit budget render"
  unfolding largest_fitting_body_def using assms(2) by (intro fit_loop_linear assms(1)) auto

lemma binary_search_is_linear_witness:
  "largest_fitting_body int 9 25 (\<lambda>k. nat (5 * k)) = linear_fit int 9 25 (\<lambda>k. nat (5 * k))"
  by (rule binary_search_is_linear) auto

subsection \<open>The view lists every open finding once\<close>

definition row_keyed :: "(finding_id \<times> view_row) list \<Rightarrow> bool" where
  "row_keyed rows \<longleftrightarrow> distinct (map fst rows) \<and> map fst rows = map (\<lambda>r. vr_id (snd r)) rows"

lemma new_view_row_sel [simp]:
  "vr_id (new_view_row i st s held obs t) = i" "vr_severity (new_view_row i st s held obs t) = s"
  "vr_blocking (new_view_row i st s held obs t) = blocks_at t s" "vr_held (new_view_row i st s held obs t) = held"
  "vr_observed (new_view_row i st s held obs t) = obs"
  by (simp_all add: new_view_row_def)

lemma settled_row_id [simp]: "vr_id (settled_row outcomes copies t row) = vr_id row"
  by (simp add: settled_row_def Let_def)

lemma row_keyed_add: "row_keyed rows \<Longrightarrow> map_of rows i = None \<Longrightarrow> vr_id r = i \<Longrightarrow> row_keyed (AList.update i r rows)"
  by (auto simp: row_keyed_def update_new map_of_eq_None_iff)

lemma run_rows_keyed: "distinct (map vr_id (run_rows inventory l t))"
proof -
  have a: "row_keyed (fold (add_accepted_row t) accepted rows)" if "row_keyed rows" for accepted rows
    using that by (rule fold_keeps) (auto simp: add_accepted_row_def intro!: row_keyed_add)
  have r: "row_keyed (fold (add_reaffirmed_row inventory t) es rows)" if "row_keyed rows" for es rows
    using that by (rule fold_keeps) (auto simp: add_reaffirmed_row_def intro!: row_keyed_add split: option.split)
  have "row_keyed (fold (add_reaffirmed_row inventory t) (lg_reaffirmed l) (fold (add_accepted_row t) (lg_accepted l) []))"
    by (intro r a) (simp add: row_keyed_def)
  then show ?thesis unfolding run_rows_def row_keyed_def map_map o_def by metis
qed

lemma carried_distinct:
  assumes "keyed (in_findings inventory)"
  shows "distinct (map if_id (carried_findings lc inventory outcomes t))"
proof -
  have e: "map if_id (found (in_findings inventory)) = map fst (in_findings inventory)"
    using assms by (auto simp: keyed_def)
  have "distinct (map if_id (found (in_findings inventory)))"
    using assms by (simp only: e) (simp add: keyed_def)
  then have "distinct (map if_id (filter P (found (in_findings inventory))))" for P by (rule distinct_map_filter)
  then show ?thesis
    by (simp add: carried_findings_def) (metis (mono_tags, lifting) mset_eq_imp_distinct_iff mset_map mset_to_sorted)
qed

lemma view_row_ids:
  "map vr_id (vw_rows (build_finding_view lc inventory outcomes t)) =
     map vr_id (observed_rows inventory outcomes t) @ map if_id (carried_findings lc inventory outcomes t)"
  by (simp add: build_finding_view_def Let_def o_def)

lemma every_open_listed:
  assumes "keyed (in_findings inventory)" and "f \<in> set (found (in_findings inventory))"
    and "if_state f = FindingOpen" and "if_source f = HeldThread" and "if_alias_of f = None"
    and "if_id f \<notin> cd_duplicate ` set (outcome_duplicates outcomes)"
  shows "distinct (map vr_id (vw_rows (build_finding_view lc inventory outcomes t))) \<and>
    if_id f \<in> vr_id ` set (vw_rows (build_finding_view lc inventory outcomes t))"
proof -
  let ?obs = "observed_rows inventory outcomes t" and ?car = "carried_findings lc inventory outcomes t"
  have "distinct (map vr_id ?obs)"
    by (auto simp: observed_rows_def run_rows_keyed distinct_map_filter split: run_outcomes.split)
  moreover have "vr_id ` set ?obs \<inter> if_id ` set ?car = {}"
  proof (rule equals0I)
    fix x
    assume x: "x \<in> vr_id ` set ?obs \<inter> if_id ` set ?car"
    then obtain g where "g \<in> set ?car" "x = if_id g" by (elim IntE imageE)
    then show False using x by (simp add: carried_findings_def)
  qed
  ultimately have d: "distinct (map vr_id ?obs @ map if_id ?car)" using carried_distinct [OF assms(1)] by simp
  have "if_id f \<notin> cd_duplicate ` set (cleaned_duplicates inventory outcomes)"
    using assms(6) by (auto simp: cleaned_duplicates_def)
  then have "if_id f \<in> vr_id ` set ?obs \<or> f \<in> set ?car"
    using assms(2,3,4,5) by (auto simp: carried_findings_def)
  then have "if_id f \<in> set (map vr_id ?obs @ map if_id ?car)" by auto
  then show ?thesis using d by (metis (no_types, lifting) image_set view_row_ids)
qed

text \<open>The view of a run lists every finding at most once, and every finding that is still open on a
  thread of its own is in it: nothing that the inventory holds open is lost, unless this run resolved
  it as a duplicate.\<close>

lemma every_open_thread_listed_once:
  assumes "keyed (in_findings inventory)" and "f \<in> set (found (in_findings inventory))"
    and "if_state f = FindingOpen" and "if_source f = HeldThread" and "if_alias_of f = None"
    and "if_id f \<notin> cd_duplicate ` set (outcome_duplicates outcomes)"
  shows "distinct (map vr_id (vw_rows (build_finding_view lc inventory outcomes t))) \<and>
    if_id f \<in> vr_id ` set (vw_rows (build_finding_view lc inventory outcomes t))"
  by (rule every_open_listed [OF assms])

lemma every_open_thread_listed_once_witness:
  "''y'' \<in> vr_id ` set (vw_rows (build_finding_view code_unit_compare sample_inventory NotReviewed P1))"
proof -
  have "keyed (in_findings sample_inventory)" by (simp add: keyed_def sample_inventory_def sample_finding_def)
  from every_open_thread_listed_once [OF this, of "sample_finding ''y'' 90" NotReviewed code_unit_compare P1]
  show ?thesis by (simp add: sample_inventory_def sample_finding_def outcome_duplicates_def)
qed

subsection \<open>When the check fails\<close>

lemma settled_row_blocking:
  "vr_blocking row = blocks_at t (vr_severity row) \<Longrightarrow>
     vr_blocking (settled_row outcomes copies t row) = blocks_at t (vr_severity (settled_row outcomes copies t row))"
  by (simp add: settled_row_def Let_def)

definition blocking_ok :: "severity \<Rightarrow> (finding_id \<times> view_row) list \<Rightarrow> bool" where
  "blocking_ok t rows \<longleftrightarrow> (\<forall>(i, r) \<in> set rows. vr_blocking r = blocks_at t (vr_severity r))"

lemma blocking_ok_update:
  "blocking_ok t rows \<Longrightarrow> vr_blocking r = blocks_at t (vr_severity r) \<Longrightarrow> blocking_ok t (AList.update i r rows)"
  by (auto simp: blocking_ok_def dest!: in_update)

lemma run_rows_blocking: "\<forall>r \<in> set (run_rows inventory l t). vr_blocking r = blocks_at t (vr_severity r)"
proof -
  have a: "blocking_ok t (fold (add_accepted_row t) accepted rows)" if "blocking_ok t rows" for accepted rows
    using that by (rule fold_keeps) (auto simp: add_accepted_row_def intro!: blocking_ok_update)
  have r: "blocking_ok t (fold (add_reaffirmed_row inventory t) es rows)" if "blocking_ok t rows" for es rows
    using that by (rule fold_keeps) (auto simp: add_reaffirmed_row_def intro!: blocking_ok_update split: option.split)
  have "blocking_ok t (fold (add_reaffirmed_row inventory t) (lg_reaffirmed l) (fold (add_accepted_row t) (lg_accepted l) []))"
    by (intro r a) (simp add: blocking_ok_def)
  then show ?thesis by (auto simp: run_rows_def blocking_ok_def)
qed

lemma view_blocking:
  "r \<in> set (vw_rows (build_finding_view lc inventory outcomes t)) \<Longrightarrow> vr_blocking r = blocks_at t (vr_severity r)"
  using run_rows_blocking
  by (auto simp: build_finding_view_def observed_rows_def Let_def settled_row_blocking split: run_outcomes.splits)

text \<open>C22. The check of the pull request fails exactly when the view lists a finding whose severity reaches
  the threshold, and it succeeds exactly when no finding does and the inventory is complete; a finding
  of unknown severity never fails it.\<close>

theorem check_conclusion_iff:
  "let v = build_finding_view lc inventory outcomes t;
       severe = (\<lambda>r. \<exists>s. vr_severity r = Some s \<and> severity_rank s \<le> severity_rank t)
   in (conclusion_of_view v = CheckFailure \<longleftrightarrow> (\<exists>r. r \<in> set (vw_rows v) \<and> severe r)) \<and>
      (conclusion_of_view v = CheckSuccess \<longleftrightarrow>
         filter severe (vw_rows v) = [] \<and> in_completeness inventory = Complete)"
proof -
  let ?v = "build_finding_view lc inventory outcomes t"
  have severe: "blocks_at t s \<longleftrightarrow> (\<exists>p. s = Some p \<and> severity_rank p \<le> severity_rank t)" for s
    by (auto simp: blocks_at_def is_check_failing_severity_def split: option.splits)
  have "filter vr_blocking (vw_rows ?v) = filter (\<lambda>r. \<exists>s. vr_severity r = Some s \<and> severity_rank s \<le> severity_rank t) (vw_rows ?v)"
    using view_blocking severe by (intro filter_cong) auto
  moreover have "vw_blocking ?v = length (filter vr_blocking (vw_rows ?v))" "vw_completeness ?v = in_completeness inventory"
    by (simp_all only: build_finding_view_def Let_def finding_view.simps)
  ultimately show ?thesis by (auto simp: conclusion_of_view_def Let_def filter_empty_conv)
qed

subsection \<open>Copies count for the finding they are tracked under\<close>

interpretation cleanup: pointer_walk "cleanup_next fs cleaned_to" "\<lambda>_. True" "cleanup_loop fs cleaned_to" for fs cleaned_to
proof
  have "dom (cleanup_next fs cleaned_to) \<subseteq> set (chain_nodes fs cleaned_to)" by (auto dest: cleanup_next_node)
  then show "finite (dom (cleanup_next fs cleaned_to))" by (rule finite_subset) simp
next
  fix seen i
  show "cleanup_loop fs cleaned_to seen i = (if i \<in> set seen then None
      else case cleanup_next fs cleaned_to i of None \<Rightarrow> if True then Some i else None
        | Some n \<Rightarrow> cleanup_loop fs cleaned_to (i # seen) n)"
    by (subst cleanup_loop.simps) (simp split: option.split)
qed

lemma canonical_after_cleanup_iff:
  "canonical_after_cleanup fs cleaned_to i = Some c \<longleftrightarrow>
     (i, c) \<in> (points (cleanup_next fs cleaned_to))\<^sup>* \<and> cleanup_next fs cleaned_to c = None"
  using cleanup.walk_iff by (simp add: canonical_after_cleanup_def)

lemma higher_rank: "any_rank (higher_severity l r) = min (any_rank l) (any_rank r)"
  by (simp add: higher_severity_def)

definition copy_counted :: "(finding_id \<times> severity option) list \<Rightarrow> finding_id \<Rightarrow> int \<Rightarrow> bool" where
  "copy_counted acc c n \<longleftrightarrow> (\<exists>s. map_of acc c = Some s \<and> any_rank s \<le> n)"

lemma copy_counted_step: "copy_counted acc c n \<Longrightarrow> copy_counted (add_copy_severity fs ct closed f acc) c n"
  by (auto simp: copy_counted_def add_copy_severity_def update_conv' higher_rank split: option.split)

definition open_copy :: "(finding_id \<times> finding_id) list \<Rightarrow> finding_id list \<Rightarrow> inventory_finding \<Rightarrow> bool" where
  "open_copy ct closed f \<longleftrightarrow> if_state f = FindingOpen \<and> if_id f \<notin> set closed \<and>
     (if_alias_of f \<noteq> None \<or> map_of ct (if_id f) \<noteq> None)"

lemma copy_counted_add:
  "open_copy ct closed f \<Longrightarrow> canonical_after_cleanup fs ct (if_id f) = Some c \<Longrightarrow>
     copy_counted (add_copy_severity fs ct closed f acc) c (any_rank (if_severity f))"
  by (auto simp: open_copy_def copy_counted_def add_copy_severity_def update_conv' higher_rank)

lemma copy_counted_fold:
  assumes "f \<in> set fs'" and "open_copy ct closed f" and "canonical_after_cleanup fs ct (if_id f) = Some c"
  shows "copy_counted (fold (add_copy_severity fs ct closed) fs' acc) c (any_rank (if_severity f))"
  using assms(1)
proof (induction fs' arbitrary: acc)
  case (Cons g fs')
  have "copy_counted (fold (add_copy_severity fs ct closed) fs' acc) c n" if "copy_counted acc c n" for acc n
    using that by (rule fold_keeps) (rule copy_counted_step)
  with Cons copy_counted_add [OF assms(2,3)] show ?case by (cases "f = g") auto
qed simp

text \<open>An open copy counts for the finding it is tracked under: when the chain of duplicates, of this run
  and of the inventory, leads from an open copy to a finding of the view that this run did not
  reaffirm, the view gives that finding a severity at least as high as the copy's.\<close>

lemma open_copy_counts:
  assumes "r \<in> set (vw_rows (build_finding_view lc inventory outcomes t))" and "f \<in> set (found (in_findings inventory))"
    and "open_copy cleaned_to
      (map cd_duplicate (filter cd_resolved (cleaned_duplicates inventory outcomes))) f"
    and "cleaned_to = js_map (map (\<lambda>d. (cd_duplicate d, cd_canonical d)) (cleaned_duplicates inventory outcomes))"
    and "(if_id f, vr_id r) \<in> (points (cleanup_next (in_findings inventory) cleaned_to))\<^sup>*"
    and "cleanup_next (in_findings inventory) cleaned_to (vr_id r) = None"
    and "reaffirmed_entry outcomes (vr_id r) = None"
  shows "any_rank (vr_severity r) \<le> any_rank (if_severity f)"
proof -
  let ?copies = "open_copy_severities inventory (cleaned_duplicates inventory outcomes)"
  have "canonical_after_cleanup (in_findings inventory) cleaned_to (if_id f) = Some (vr_id r)"
    using assms(5,6) by (simp add: canonical_after_cleanup_iff)
  then have "copy_counted ?copies (vr_id r) (any_rank (if_severity f))"
    using copy_counted_fold [OF assms(2,3)] assms(4) by (simp add: open_copy_severities_def Let_def)
  then obtain s where s: "map_of ?copies (vr_id r) = Some s" "any_rank s \<le> any_rank (if_severity f)"
    by (auto simp: copy_counted_def)
  obtain row where row: "r = settled_row outcomes ?copies t row" using assms(1) by (auto simp: build_finding_view_def Let_def)
  then have "row_severity outcomes ?copies row = higher_severity (vr_severity row) s"
    using s(1) assms(7) by (simp add: row_severity_def merged_severity_def)
  then have "vr_severity r = higher_severity (vr_severity row) s" by (simp add: row settled_row_def Let_def)
  with s(2) show ?thesis by (simp add: higher_rank)
qed

definition copy_inventory :: finding_inventory where
  "copy_inventory = \<lparr>in_completeness = Complete,
     in_findings = [(''x'', (sample_finding ''x'' 12)\<lparr>if_severity := Some P3\<rparr>),
       (''y'', (sample_finding ''y'' 90)\<lparr>if_alias_of := Some ''x'', if_severity := Some P0\<rparr>)], in_copies = []\<rparr>"

lemma open_copy_counts_witness:
  "\<exists>r. r \<in> set (vw_rows (build_finding_view code_unit_compare copy_inventory NotReviewed P1)) \<and> vr_id r = ''x'' \<and>
     any_rank (vr_severity r) \<le> 0"
proof -
  have "keyed (in_findings copy_inventory)" by (simp add: keyed_def copy_inventory_def sample_finding_def)
  moreover have "(sample_finding ''x'' 12)\<lparr>if_severity := Some P3\<rparr> \<in> set (found (in_findings copy_inventory))"
    by (simp add: copy_inventory_def)
  ultimately have "''x'' \<in> vr_id ` set (vw_rows (build_finding_view code_unit_compare copy_inventory NotReviewed P1))"
    using every_open_listed [of copy_inventory "(sample_finding ''x'' 12)\<lparr>if_severity := Some P3\<rparr>" NotReviewed]
    by (simp add: sample_finding_def outcome_duplicates_def)
  then obtain r where r: "r \<in> set (vw_rows (build_finding_view code_unit_compare copy_inventory NotReviewed P1))" "vr_id r = ''x''"
    by auto
  let ?y = "(sample_finding ''y'' 90)\<lparr>if_alias_of := Some ''x'', if_severity := Some P0\<rparr>"
  have y: "?y \<in> set (found (in_findings copy_inventory))" by (simp add: copy_inventory_def)
  have "open_copy [] [] ?y" by (simp add: open_copy_def sample_finding_def)
  moreover have nx: "cleanup_next (in_findings copy_inventory) [] ''y'' = Some ''x''"
    "cleanup_next (in_findings copy_inventory) [] ''x'' = None"
    by (simp_all add: cleanup_next_def alias_next_def copy_inventory_def sample_finding_def)
  moreover have "cleaned_duplicates copy_inventory NotReviewed = []"
    by (simp add: cleaned_duplicates_def outcome_duplicates_def)
  moreover have "(if_id ?y, vr_id r) \<in> (points (cleanup_next (in_findings copy_inventory) []))\<^sup>*"
    using nx(1) by (simp add: points_def r_into_rtrancl r(2) sample_finding_def)
  ultimately have "any_rank (vr_severity r) \<le> any_rank (if_severity ?y)"
    using r open_copy_counts [OF r(1) y, of "[]"] by (simp add: js_map_def reaffirmed_entry_def)
  then show ?thesis using r by (auto simp: any_rank_def)
qed

subsection \<open>The section keeps the findings that exist nowhere else\<close>

lemma limited_rows_durable:
  "int (length (filter durable rs)) \<le> d \<Longrightarrow> filter durable (limited_rows k d rs) = filter durable rs"
  by (induction rs arbitrary: k d) auto

lemma section_fits:
  assumes "len nothing = 0"
  shows "len (render_findings_section len nothing note body v budget) \<le> max 0 budget"
  using assms fit_loop_sound
  by (fastforce simp: render_findings_section_def largest_fitting_body_def Let_def split: option.split)

lemma rev_upto_nth: "i < nat (m + 1) \<Longrightarrow> rev [0..m] ! i = m - int i"
  by (simp add: rev_nth nth_upto)

lemma linear_fit_SomeD:
  assumes "linear_fit len m budget render = Some b"
  shows "\<exists>k. 0 \<le> k \<and> k \<le> m \<and> b = render k \<and> len b \<le> budget \<and> (\<forall>j. k < j \<and> j \<le> m \<longrightarrow> budget < len (render j))"
proof -
  obtain k where k: "find (\<lambda>k. len (render k) \<le> budget) (rev [0..m]) = Some k" "b = render k"
    using assms by (auto simp: linear_fit_def)
  then obtain i where i: "i < nat (m + 1)" "k = m - int i" "len (render k) \<le> budget"
    "\<And>j. j < i \<Longrightarrow> \<not> len (render (m - int j)) \<le> budget"
    by (auto simp: find_Some_iff rev_upto_nth)
  have "budget < len (render j)" if "k < j" "j \<le> m" for j
  proof -
    have "nat (m - j) < i" using that i(2) by linarith
    then show ?thesis using i(4) [of "nat (m - j)"] that(2) by simp
  qed
  moreover have "0 \<le> k" "k \<le> m" using i(1,2) by auto
  ultimately show ?thesis using i(3) k(2) by blast
qed

text \<open>A finding that only the summary holds is never dropped for one that also has a thread: when the
  section with no thread row fits the budget, and more rows never make it shorter, the section is the
  one with the largest number of thread rows that fits, it lists every such finding, and it fits.\<close>

lemma section_keeps_summary_findings:
  assumes "vw_rows v \<noteq> []" and "0 \<le> budget"
    and "W = (\<lambda>k. with_limits body (listed_rows v) k (int (length (filter durable (listed_rows v)))))"
    and "m = int (length (filter (\<lambda>r. \<not> durable r) (listed_rows v)))"
    and "\<And>a b. 0 \<le> a \<Longrightarrow> a \<le> b \<Longrightarrow> b \<le> m \<Longrightarrow> len (W a) \<le> len (W b)" and "len (W 0) \<le> budget"
  shows "\<exists>k rows. 0 \<le> k \<and> k \<le> m \<and> rows = limited_rows k (int (length (filter durable (listed_rows v)))) (listed_rows v) \<and>
    render_findings_section len nothing note body v budget = body rows (length (listed_rows v) - length rows) \<and>
    filter durable rows = filter durable (listed_rows v) \<and>
    len (body rows (length (listed_rows v) - length rows)) \<le> budget \<and> (\<forall>j. k < j \<and> j \<le> m \<longrightarrow> budget < len (W j))"
proof -
  let ?listed = "listed_rows v"
  let ?rows = "\<lambda>j. limited_rows j (int (length (filter durable ?listed))) ?listed"
  have m: "int (length ?listed) - int (length (filter durable ?listed)) = m" and m0: "- 1 \<le> m"
    using assms(4) sum_length_filter_compl [of durable ?listed] by simp_all
  have "linear_fit len m budget W \<noteq> None"
    using assms(4,6) by (auto simp: linear_fit_def find_None_iff intro!: bexI [of _ 0])
  then obtain b where b: "linear_fit len m budget W = Some b" by blast
  then obtain k where k: "0 \<le> k" "k \<le> m" "b = W k" "len b \<le> budget" "\<forall>j. k < j \<and> j \<le> m \<longrightarrow> budget < len (W j)"
    using linear_fit_SomeD [OF b] by blast
  have "largest_fitting_body len m budget W = linear_fit len m budget W"
    unfolding largest_fitting_body_def using m0 by (intro fit_loop_linear assms(5)) auto
  then have "render_findings_section len nothing note body v budget = b"
    using assms(1,2,3) b by (simp add: render_findings_section_def Let_def m)
  moreover have "W j = body (?rows j) (length ?listed - length (?rows j))" for j
    by (simp add: assms(3) with_limits_def Let_def)
  moreover have "filter durable (?rows k) = filter durable ?listed" by (rule limited_rows_durable) simp
  ultimately show ?thesis using k by (intro exI [of _ k] exI [of _ "?rows k"]) simp
qed

lemma limited_rows_mono: "a \<le> b \<Longrightarrow> length (limited_rows a d rs) \<le> length (limited_rows b d rs)"
proof (induction rs arbitrary: a b d)
  case (Cons r rs)
  show ?case
    using Cons.IH [of a b "d - 1"] Cons.IH [of "a - 1" "b - 1" d] Cons.prems by auto
qed simp

definition sample_view :: finding_view where
  "sample_view = build_finding_view code_unit_compare sample_inventory NotReviewed P1"

lemma sample_view_rows: "vw_rows sample_view \<noteq> []"
proof -
  have "keyed (in_findings sample_inventory)" by (simp add: keyed_def sample_inventory_def sample_finding_def)
  from every_open_listed [OF this, of "sample_finding ''y'' 90" NotReviewed code_unit_compare P1]
  have "''y'' \<in> vr_id ` set (vw_rows sample_view)"
    by (simp add: sample_view_def sample_inventory_def sample_finding_def outcome_duplicates_def)
  then show ?thesis by auto
qed

lemma section_keeps_summary_findings_witness:
  "\<exists>k. render_findings_section (\<lambda>rs. int (length rs)) [] [] (\<lambda>rs n. rs) sample_view 1000 =
     limited_rows k (int (length (filter durable (listed_rows sample_view)))) (listed_rows sample_view)"
proof -
  let ?l = "listed_rows sample_view"
  let ?W = "\<lambda>k. with_limits (\<lambda>rs n. rs) ?l k (int (length (filter durable ?l)))"
  have short: "length (limited_rows k d rs) \<le> length rs" for k d rs
    by (induction rs arbitrary: k d) (auto intro: le_SucI)
  have "length (vw_rows sample_view) \<le> 2"
    using arg_cong [OF view_row_ids [of code_unit_compare sample_inventory NotReviewed P1], of length]
      length_filter_le [of _ "found (in_findings sample_inventory)"]
    by (simp add: sample_view_def carried_findings_def observed_rows_def sample_inventory_def)
  moreover have "length ?l \<le> length (vw_rows sample_view)"
    by (simp add: listed_rows_def List.map_filter_def)
  ultimately have "length ?l \<le> 2" by simp
  then have "int (length (?W 0)) \<le> 1000" using short [of 0 "int (length (filter durable ?l))" ?l]
    by (simp add: with_limits_def Let_def)
  then show ?thesis
    using section_keeps_summary_findings [of sample_view 1000 ?W "\<lambda>rs n. rs" _ "\<lambda>rs. int (length rs)" "[]" "[]",
        OF sample_view_rows _ refl refl] limited_rows_mono
    by (fastforce simp: with_limits_def Let_def)
qed

end
