(* ===== verification/Duplicate_Cleanup.thy ===== *)
theory Duplicate_Cleanup
  imports Finding_Reconcile
begin

text \<open>
  Resolving duplicates: \<^verbatim>\<open>src/review/findingIdentity/duplicateCleanup.ts\<close> and
  \<^verbatim>\<open>resolutionReceipt.ts\<close>. A group of findings that the reviewer declares the same is tracked under one of
  them; the others get a receipt in their thread and are resolved, unless a human has replied.

  The surface of GitHub, the lock on threads and the publishing of a step are the operations of a record,
  over any state. The lemmas show what a plan guarantees, and for any sequence of answers by GitHub that
  a thread is resolved only directly after it was read as free of human replies.
\<close>

subsection \<open>Plans\<close>

datatype cleanup_refusal =
    RefusedIncomplete | RefusedTooFew | RefusedUnknown | RefusedNotOpen | RefusedNotThread
  | RefusedComments | RefusedAliased | RefusedFile | RefusedNotOverlapping

record cleanup_entry =
  ce_finding :: inventory_finding
  ce_resolve :: bool

record cleanup_plan =
  cp_canonical :: inventory_finding
  cp_duplicates :: "cleanup_entry list"

definition compare_age :: "inventory_finding \<Rightarrow> inventory_finding \<Rightarrow> int" where
  "compare_age l r =
     (if if_created_at l \<noteq> if_created_at r
      then (if code_unit_compare (if_created_at l) (if_created_at r) < 0 then - 1 else 1)
      else if if_id l \<noteq> if_id r then (if code_unit_compare (if_id l) (if_id r) < 0 then - 1 else 1)
      else or0 (if_root l) - or0 (if_root r))"

definition number_of_bool :: "bool \<Rightarrow> int" where
  "number_of_bool b = (if b then 1 else 0)"

definition compare_canonical :: "inventory_finding \<Rightarrow> inventory_finding \<Rightarrow> int" where
  "compare_canonical l r =
     (if number_of_bool (if_alias_of l \<noteq> None) - number_of_bool (if_alias_of r \<noteq> None) \<noteq> 0
      then number_of_bool (if_alias_of l \<noteq> None) - number_of_bool (if_alias_of r \<noteq> None)
      else if number_of_bool (if_human_replies r) - number_of_bool (if_human_replies l) \<noteq> 0
      then number_of_bool (if_human_replies r) - number_of_bool (if_human_replies l)
      else compare_age l r)"

definition select_canonical :: "inventory_finding list \<Rightarrow> js_error + inventory_finding" where
  "select_canonical members =
     (case to_sorted compare_canonical members of
        [] \<Rightarrow> Inl (PlainError ''duplicate group is empty'')
      | f # _ \<Rightarrow> Inr f)"

definition member_refusal :: "inventory_finding \<Rightarrow> finding_id list \<Rightarrow> cleanup_refusal option" where
  "member_refusal f ids =
     (if if_state f \<noteq> FindingOpen then Some RefusedNotOpen
      else if if_source f \<noteq> HeldThread \<or> if_thread f = None \<or> if_root f = None then Some RefusedNotThread
      else if \<not> if_comments_complete f then Some RefusedComments
      else if if_alias_of f \<noteq> None \<and> the (if_alias_of f) \<notin> set ids then Some RefusedAliased
      else None)"

definition placement_refusal :: "inventory_finding \<Rightarrow> inventory_finding \<Rightarrow> cleanup_refusal option" where
  "placement_refusal canonical d =
     (if if_path d \<noteq> if_path canonical then Some RefusedFile
      else if if_stale canonical then None
      else case if_line canonical of
        None \<Rightarrow> None
      | Some l \<Rightarrow>
          if overlaps \<lparr>sn_file = if_path canonical, sn_start = range_start canonical l, sn_end = range_end canonical l\<rparr> d
          then None else Some RefusedNotOverlapping)"

definition cleanup_entries :: "inventory_finding list \<Rightarrow> cleanup_entry list" where
  "cleanup_entries members =
     map (\<lambda>f. \<lparr>ce_finding = f, ce_resolve = (\<not> if_human_replies f)\<rparr>) (to_sorted compare_age members)"

fun lookup_members :: "findings_map \<Rightarrow> finding_id list \<Rightarrow> inventory_finding list option" where
  "lookup_members fs [] = Some []"
| "lookup_members fs (i # is) =
     (case map_of fs i of None \<Rightarrow> None | Some f \<Rightarrow> map_option (Cons f) (lookup_members fs is))"

definition first_refusal :: "('a \<Rightarrow> cleanup_refusal option) \<Rightarrow> 'a list \<Rightarrow> cleanup_refusal option" where
  "first_refusal refuse xs = (case List.map_filter refuse xs of [] \<Rightarrow> None | r # _ \<Rightarrow> Some r)"

text \<open>An error only for an empty group, which the code never forms. The findings of a plan are entries of one
  inventory, so the same object has the same identity.\<close>

definition plan_duplicate_cleanup ::
  "finding_id list \<Rightarrow> finding_inventory \<Rightarrow> js_error + (cleanup_refusal + cleanup_plan)" where
  "plan_duplicate_cleanup ids inventory =
     (if in_completeness inventory \<noteq> Complete then Inr (Inl RefusedIncomplete)
      else if length (js_set ids) < 2 then Inr (Inl RefusedTooFew)
      else case lookup_members (in_findings inventory) (js_set ids) of
        None \<Rightarrow> Inr (Inl RefusedUnknown)
      | Some members \<Rightarrow>
          (case first_refusal (\<lambda>f. member_refusal f (js_set ids)) members of
             Some r \<Rightarrow> Inr (Inl r)
           | None \<Rightarrow>
               (case select_canonical members of
                  Inl e \<Rightarrow> Inl e
                | Inr canonical \<Rightarrow>
                    if if_alias_of canonical \<noteq> None then Inr (Inl RefusedAliased)
                    else
                      let others = filter (\<lambda>f. if_id f \<noteq> if_id canonical) members
                      in (case first_refusal (placement_refusal canonical) others of
                            Some r \<Rightarrow> Inr (Inl r)
                          | None \<Rightarrow> Inr (Inr \<lparr>cp_canonical = canonical, cp_duplicates = cleanup_entries others\<rparr>)))))"

definition cleanable_copy :: "inventory_finding \<Rightarrow> bool" where
  "cleanable_copy f \<longleftrightarrow> if_state f = FindingOpen \<and> if_thread f \<noteq> None \<and> if_root f \<noteq> None \<and> if_comments_complete f"

definition group_copies :: "inventory_finding list \<Rightarrow> (finding_id \<times> inventory_finding list) list" where
  "group_copies copies = fold (\<lambda>c acc. if \<not> cleanable_copy c then acc
     else AList.update (if_id c) ((case map_of acc (if_id c) of None \<Rightarrow> [] | Some cs \<Rightarrow> cs) @ [c]) acc) copies []"

definition plan_same_id_cleanup :: "finding_inventory \<Rightarrow> cleanup_plan list" where
  "plan_same_id_cleanup inventory =
     (if in_completeness inventory \<noteq> Complete then []
      else List.map_filter (\<lambda>(i, copies).
        (case map_of (in_findings inventory) i of
           None \<Rightarrow> None
         | Some canonical \<Rightarrow>
             if if_source canonical \<noteq> HeldThread then None
             else Some \<lparr>cp_canonical = canonical, cp_duplicates = cleanup_entries copies\<rparr>))
        (group_copies (in_copies inventory)))"

subsection \<open>Steps on GitHub\<close>

datatype cleanup_step_kind = DuplicateReply | DuplicateResolve

record cleanup_step =
  cs_kind :: cleanup_step_kind
  cs_duplicate :: finding_id
  cs_canonical :: finding_id
  cs_thread :: string

datatype cleanup_result = CleanResolved | CleanLinked | CleanSkipped

record cleanup_outcome =
  co_duplicate :: finding_id
  co_canonical :: finding_id
  co_url :: string
  co_result :: cleanup_result

record 'w cleanup_deps =
  cl_bot_login :: "('w, string) prog"
  cl_get_thread :: "string \<Rightarrow> ('w, review_thread option) prog"
  cl_reply :: "int \<Rightarrow> string \<Rightarrow> ('w, unit) prog"
  cl_resolve :: "string \<Rightarrow> ('w, unit) prog"
  cl_lock :: "('w, cleanup_result) prog \<Rightarrow> ('w, cleanup_result) prog"
  cl_publish :: "cleanup_step \<Rightarrow> ('w, unit) prog \<Rightarrow> ('w, unit) prog"

definition has_duplicate_receipt :: "review_thread \<Rightarrow> string \<Rightarrow> finding_id \<Rightarrow> finding_id \<Rightarrow> bool" where
  "has_duplicate_receipt t login duplicate canonical \<longleftrightarrow>
     DuplicateReceipt duplicate canonical \<in> set (parse_owned_receipts (th_comments t) login)"

definition duplicate_step_applied :: "'w cleanup_deps \<Rightarrow> cleanup_step \<Rightarrow> ('w, bool) prog" where
  "duplicate_step_applied deps step =
     bindP (cl_bot_login deps) (\<lambda>login.
       bindP (cl_get_thread deps (cs_thread step)) (\<lambda>thread.
         returnP (case thread of
           None \<Rightarrow> False
         | Some t \<Rightarrow>
             if cs_kind step = DuplicateResolve then th_resolved t
             else has_duplicate_receipt t login (cs_duplicate step) (cs_canonical step))))"

definition resolvable :: "review_thread \<Rightarrow> string \<Rightarrow> bool" where
  "resolvable t login \<longleftrightarrow> th_comments_complete t \<and> \<not> has_human_replies t login"

definition duplicate_reply_body :: "finding_id \<Rightarrow> bool \<Rightarrow> inventory_finding \<Rightarrow> string" where
  "duplicate_reply_body duplicate resolve canonical =
     ''Tracked in '' @ if_url canonical @ ''. '' @
     (if resolve then ''Resolving this copy.'' else ''Leaving this copy open because it has replies.'') @
     [newline, newline] @ render_receipt (DuplicateReceipt duplicate (if_id canonical))"

definition cleanup_step_of :: "cleanup_plan \<Rightarrow> cleanup_entry \<Rightarrow> string \<Rightarrow> cleanup_step_kind \<Rightarrow> cleanup_step" where
  "cleanup_step_of plan entry thread kind =
     \<lparr>cs_kind = kind, cs_duplicate = if_id (ce_finding entry), cs_canonical = if_id (cp_canonical plan), cs_thread = thread\<rparr>"

definition finish_entry ::
  "'w cleanup_deps \<Rightarrow> cleanup_plan \<Rightarrow> cleanup_entry \<Rightarrow> string \<Rightarrow> string \<Rightarrow> bool \<Rightarrow> ('w, cleanup_result) prog" where
  "finish_entry deps plan entry thread login receipted =
     bindP (cl_get_thread deps thread) (\<lambda>current.
       case current of
         None \<Rightarrow> returnP (if receipted then CleanSkipped else CleanLinked)
       | Some t \<Rightarrow>
           if th_resolved t then returnP (if receipted then CleanSkipped else CleanResolved)
           else if \<not> resolvable t login then returnP (if receipted then CleanSkipped else CleanLinked)
           else thenP (cl_publish deps (cleanup_step_of plan entry thread DuplicateResolve) (cl_resolve deps thread))
                  (returnP CleanResolved))"

definition clean_entry :: "'w cleanup_deps \<Rightarrow> cleanup_plan \<Rightarrow> cleanup_entry \<Rightarrow> ('w, cleanup_result) prog" where
  "clean_entry deps plan entry =
     (case (if_thread (ce_finding entry), if_root (ce_finding entry)) of
        (Some thread, Some root) \<Rightarrow>
          cl_lock deps
            (bindP (cl_bot_login deps) (\<lambda>login.
              bindP (cl_get_thread deps thread) (\<lambda>before.
                case before of
                  None \<Rightarrow> returnP CleanSkipped
                | Some b \<Rightarrow>
                    if th_resolved b then returnP CleanSkipped
                    else
                      let receipted = has_duplicate_receipt b login (if_id (ce_finding entry)) (if_id (cp_canonical plan));
                          resolve = (ce_resolve entry \<and> resolvable b login)
                      in thenP
                           (whenP (\<not> receipted)
                             (cl_publish deps (cleanup_step_of plan entry thread DuplicateReply)
                               (cl_reply deps root (duplicate_reply_body (if_id (ce_finding entry)) resolve (cp_canonical plan)))))
                           (if \<not> resolve then returnP (if receipted then CleanSkipped else CleanLinked)
                            else finish_entry deps plan entry thread login receipted))))
      | _ \<Rightarrow> returnP CleanSkipped)"

fun clean_entries :: "'w cleanup_deps \<Rightarrow> cleanup_plan \<Rightarrow> cleanup_entry list \<Rightarrow> ('w, cleanup_outcome list) prog" where
  "clean_entries deps plan [] = returnP []"
| "clean_entries deps plan (e # es) =
     bindP (clean_entry deps plan e) (\<lambda>r.
       bindP (clean_entries deps plan es) (\<lambda>rs.
         returnP (\<lparr>co_duplicate = if_id (ce_finding e), co_canonical = if_id (cp_canonical plan),
                   co_url = if_url (cp_canonical plan), co_result = r\<rparr> # rs)))"

definition execute_duplicate_cleanup :: "'w cleanup_deps \<Rightarrow> cleanup_plan \<Rightarrow> ('w, cleanup_outcome list) prog" where
  "execute_duplicate_cleanup deps plan = clean_entries deps plan (cp_duplicates plan)"

subsection \<open>Receipts of resolved threads\<close>

definition resolution_receipt :: "bool \<Rightarrow> finding_id \<Rightarrow> finding_receipt" where
  "resolution_receipt fixed i = (if fixed then FixedReceipt i else DismissedReceipt i)"

definition has_posted_receipt :: "thread_comment list \<Rightarrow> string \<Rightarrow> bool \<Rightarrow> finding_id \<Rightarrow> bool" where
  "has_posted_receipt cs login fixed i \<longleftrightarrow> resolution_receipt fixed i \<in> set (parse_owned_receipts cs login)"

definition unposted_resolution_receipt ::
  "string \<Rightarrow> review_thread option \<Rightarrow> bool \<Rightarrow> finding_id \<Rightarrow> int option \<Rightarrow> string option" where
  "unposted_resolution_receipt login thread fixed i own =
     (let others = filter (\<lambda>c. Some (tc_id c) \<noteq> own) (case thread of None \<Rightarrow> [] | Some t \<Rightarrow> th_comments t)
      in if has_posted_receipt others login fixed i then None
         else Some ([newline, newline] @ render_receipt (resolution_receipt fixed i)))"

text \<open>The edit of the first comment, with its identity and its new body, if there is one to make.\<close>

definition append_root_resolution_receipt ::
  "string \<Rightarrow> review_thread option \<Rightarrow> bool \<Rightarrow> finding_id \<Rightarrow> (int \<times> string) option" where
  "append_root_resolution_receipt login thread fixed i =
     (case thread of
        None \<Rightarrow> None
      | Some t \<Rightarrow>
          (case th_comments t of
             [] \<Rightarrow> None
           | root # _ \<Rightarrow>
               if \<not> is_bot_author (oc_author root) login \<or> has_posted_receipt (th_comments t) login fixed i then None
               else Some (tc_id root, oc_body root @ [newline] @ render_receipt (resolution_receipt fixed i))))"

subsection \<open>What a plan guarantees\<close>

lemma code_unit_values: "code_unit_compare x y \<in> {- 1, 0, 1}"
  by (induction x y rule: code_unit_compare.induct) auto

lemma sign_of_code_units: "x \<noteq> y \<Longrightarrow> (if code_unit_compare x y < 0 then - 1 else 1) = code_unit_compare x y"
  using code_unit_values [of x y] code_unit_zero [of x y] by auto

lemma compare_age_order: "sort_order compare_age"
proof -
  have "compare_age = (\<lambda>l r. if code_unit_compare (if_created_at l) (if_created_at r) \<noteq> 0
      then code_unit_compare (if_created_at l) (if_created_at r)
      else if code_unit_compare (if_id l) (if_id r) \<noteq> 0 then code_unit_compare (if_id l) (if_id r)
      else or0 (if_root l) - or0 (if_root r))"
    by (auto simp: compare_age_def code_unit_zero sign_of_code_units fun_eq_iff)
  then show ?thesis
    using compare_then [OF on_key [OF code_units.sort_order_axioms, of "if_created_at :: inventory_finding \<Rightarrow> _"]
        compare_then [OF on_key [OF code_units.sort_order_axioms, of if_id] difference_order [of "\<lambda>f. or0 (if_root f)"]]]
    by (simp only:)
qed

lemma compare_canonical_order: "sort_order compare_canonical"
  using compare_then [OF difference_order [of "\<lambda>f. number_of_bool (if_alias_of f \<noteq> None)"]
      compare_then [OF sort_order.reversed [OF difference_order [of "\<lambda>f. number_of_bool (if_human_replies f)"]] compare_age_order]]
  by (simp add: compare_canonical_def [abs_def])

lemma select_canonical_least:
  assumes "select_canonical members = Inr c"
  shows "c \<in> set members \<and> (\<forall>f \<in> set members. compare_canonical c f \<le> 0)"
proof -
  obtain fs where fs: "to_sorted compare_canonical members = c # fs"
    using assms by (auto simp: select_canonical_def split: list.splits)
  have "\<forall>f \<in> set fs. compare_canonical c f \<le> 0"
    using sort_order.to_sorted_le [OF compare_canonical_order, of members] by (simp add: fs)
  moreover have "compare_canonical c c \<le> 0" using sort_order.self_equal [OF compare_canonical_order, of c] by simp
  moreover have "set members = insert c (set fs)" using set_to_sorted [of compare_canonical members] by (simp add: fs)
  ultimately show ?thesis by auto
qed

lemma first_refusal_None: "first_refusal r xs = None \<Longrightarrow> x \<in> set xs \<Longrightarrow> r x = None"
  by (induction xs) (auto simp: first_refusal_def List.map_filter_simps split: option.splits list.splits)

lemma lookup_members_ids: "keyed fs \<Longrightarrow> lookup_members fs is = Some ms \<Longrightarrow> map if_id ms = is"
  by (induction "is" arbitrary: ms) (auto split: option.splits dest: keyed_lookup)

lemma distinct_js_set [simp]: "distinct (js_set xs)"
  by (simp add: js_set_def)

text \<open>A plan is sound: it is made on a complete inventory, the canonical finding and the duplicates are
  exactly the findings asked for, each once; every one is open on a thread read as a whole, the
  canonical one is no duplicate of another and the duplicates lie in its file within the window. A
  duplicate is to be resolved exactly when no human replied to it, and when a human replied to one that
  is no alias, a human replied to the canonical finding too.\<close>

lemma cleanup_plan_sound:
  assumes "keyed (in_findings inventory)" and "plan_duplicate_cleanup ids inventory = Inr (Inr plan)"
  shows "in_completeness inventory = Complete \<and>
    mset (map if_id (cp_canonical plan # map ce_finding (cp_duplicates plan))) = mset_set (set ids) \<and>
    if_alias_of (cp_canonical plan) = None \<and>
    (\<forall>f \<in> set (cp_canonical plan # map ce_finding (cp_duplicates plan)). member_refusal f ids = None) \<and>
    (\<forall>e \<in> set (cp_duplicates plan). placement_refusal (cp_canonical plan) (ce_finding e) = None \<and>
       (ce_resolve e \<longleftrightarrow> \<not> if_human_replies (ce_finding e)) \<and>
       (if_human_replies (ce_finding e) \<and> if_alias_of (ce_finding e) = None \<longrightarrow> if_human_replies (cp_canonical plan)))"
proof -
  obtain members canonical where m: "in_completeness inventory = Complete"
      "lookup_members (in_findings inventory) (js_set ids) = Some members"
      "first_refusal (\<lambda>f. member_refusal f (js_set ids)) members = None"
      "select_canonical members = Inr canonical" "if_alias_of canonical = None"
      "first_refusal (placement_refusal canonical) (filter (\<lambda>f. if_id f \<noteq> if_id canonical) members) = None"
      "plan = \<lparr>cp_canonical = canonical,
         cp_duplicates = cleanup_entries (filter (\<lambda>f. if_id f \<noteq> if_id canonical) members)\<rparr>"
    using assms(2) by (auto simp: plan_duplicate_cleanup_def Let_def split: if_splits option.splits sum.splits)
  let ?others = "filter (\<lambda>f. if_id f \<noteq> if_id canonical) members"
  note least = select_canonical_least [OF m(4)]
  have ids: "map if_id members = js_set ids" using lookup_members_ids [OF assms(1) m(2)] .
  then have dist: "distinct (map if_id members)" by simp
  have refusal: "member_refusal f ids = None" if "f \<in> set members" for f
  proof -
    have "member_refusal f ids = member_refusal f (js_set ids)" by (simp add: member_refusal_def)
    then show ?thesis using first_refusal_None [OF m(3) that] by simp
  qed
  have dups: "ce_finding e \<in> set ?others" "ce_resolve e \<longleftrightarrow> \<not> if_human_replies (ce_finding e)"
    if "e \<in> set (cp_duplicates plan)" for e
    using that by (auto simp: m(7) cleanup_entries_def)
  have "mset (map ce_finding (cp_duplicates plan)) = mset ?others"
    by (simp add: m(7) cleanup_entries_def o_def)
  then have "mset (map if_id (map ce_finding (cp_duplicates plan))) = mset (map if_id ?others)" by (metis mset_map)
  moreover have "add_mset (if_id canonical) (mset (map if_id ?others)) = mset_set (set ids)"
  proof -
    have "mset (map if_id ?others) = mset (filter (\<lambda>i. i \<noteq> if_id canonical) (js_set ids))"
      by (simp add: ids [symmetric] filter_map o_def)
    also have "\<dots> = mset_set (set ids - {if_id canonical})"
      by (subst mset_set_set [symmetric]) (simp_all add: set_diff_eq)
    finally have "mset (map if_id ?others) = mset_set (set ids - {if_id canonical})" .
    moreover have "if_id canonical \<in> set ids" using least ids by (metis image_eqI image_set set_js_set)
    ultimately show ?thesis by (simp add: mset_set.remove)
  qed
  moreover have "if_human_replies canonical" if e: "ce_finding e \<in> set members" "if_human_replies (ce_finding e)"
    "if_alias_of (ce_finding e) = None" for e
    using least e m(5) by (auto simp: compare_canonical_def number_of_bool_def split: if_splits)
  moreover have "placement_refusal canonical (ce_finding e) = None" if "e \<in> set (cp_duplicates plan)" for e
    using first_refusal_None [OF m(6) dups(1) [OF that]] .
  ultimately show ?thesis using m(1,5,7) refusal dups least by auto
qed

definition pair_inventory :: finding_inventory where
  "pair_inventory = \<lparr>in_completeness = Complete,
     in_findings = [(''x'', sample_finding ''x'' 12), (''y'', sample_finding ''y'' 15)], in_copies = []\<rparr>"

lemma pair_keyed: "keyed (in_findings pair_inventory)"
  by (simp add: keyed_def pair_inventory_def sample_finding_def)

lemma pair_plan:
  "plan_duplicate_cleanup [''y'', ''x''] pair_inventory = Inr (Inr \<lparr>cp_canonical = sample_finding ''x'' 12,
     cp_duplicates = [\<lparr>ce_finding = sample_finding ''y'' 15, ce_resolve = True\<rparr>]\<rparr>)"
  by (simp add: plan_duplicate_cleanup_def js_set_def pair_inventory_def sample_finding_def first_refusal_def
      List.map_filter_simps member_refusal_def select_canonical_def compare_canonical_def number_of_bool_def
      compare_age_def placement_refusal_def overlaps_def same_file_def ranges_near_def range_start_def range_end_def
      overlap_window_lines_def cleanup_entries_def)

lemma cleanup_plan_sound_witness:
  "mset [''x'', ''y''] = mset_set (set [''y'', ''x''])"
  using cleanup_plan_sound [OF pair_keyed pair_plan] by (simp add: sample_finding_def)

subsection \<open>When a thread is resolved\<close>

text \<open>
  Any behaviour of GitHub and of other people: each read of a thread gets the next answer of a script, and
  each change of a thread may fail, before or after it took effect. The events are kept, latest first.
\<close>

datatype thread_event = ReadThread string "review_thread option" | Replied int | ResolvedThread string

record scripted_world =
  sw_answers :: "(js_error + review_thread option) list"
  sw_faults :: "js_error option list"
  sw_events :: "thread_event list"

definition scripted_read :: "string \<Rightarrow> (scripted_world, review_thread option) prog" where
  "scripted_read t w =
     (case sw_answers w of
        Inr a # as \<Rightarrow> (Inr a, w\<lparr>sw_answers := as, sw_events := ReadThread t a # sw_events w\<rparr>)
      | Inl e # as \<Rightarrow> (Inl e, w\<lparr>sw_answers := as\<rparr>)
      | [] \<Rightarrow> (Inl (PlainError ''no answer''), w))"

definition scripted_change :: "thread_event \<Rightarrow> (scripted_world, unit) prog" where
  "scripted_change event w =
     (let w' = w\<lparr>sw_events := event # sw_events w\<rparr>
      in case sw_faults w of
           Some e # fs \<Rightarrow> (Inl e, w'\<lparr>sw_faults := fs\<rparr>)
         | None # fs \<Rightarrow> (Inr (), w'\<lparr>sw_faults := fs\<rparr>)
         | [] \<Rightarrow> (Inr (), w'))"

definition scripted_github :: "string \<Rightarrow> scripted_world cleanup_deps" where
  "scripted_github login =
     \<lparr>cl_bot_login = returnP login, cl_get_thread = scripted_read, cl_reply = (\<lambda>root body. scripted_change (Replied root)),
      cl_resolve = (\<lambda>t. scripted_change (ResolvedThread t)), cl_lock = (\<lambda>m. m), cl_publish = (\<lambda>step m. m)\<rparr>"

fun resolved_clean :: "string \<Rightarrow> thread_event list \<Rightarrow> bool" where
  "resolved_clean login [] \<longleftrightarrow> True"
| "resolved_clean login (ResolvedThread t # es) \<longleftrightarrow>
     (case es of
        ReadThread t' (Some th) # _ \<Rightarrow> t' = t \<and> \<not> th_resolved th \<and> th_comments_complete th \<and> \<not> has_human_replies th login
      | _ \<Rightarrow> False) \<and> resolved_clean login es"
| "resolved_clean login (e # es) \<longleftrightarrow> resolved_clean login es"

definition clean_log :: "string \<Rightarrow> scripted_world \<Rightarrow> bool" where
  "clean_log login w \<longleftrightarrow> resolved_clean login (sw_events w)"

lemma keeps_read_thread: "keeps (clean_log login) (scripted_read t)"
  by (auto simp: keeps_def scripted_read_def clean_log_def split: list.split sum.split)

lemma keeps_reply: "keeps (clean_log login) (scripted_change (Replied root))"
  by (auto simp: keeps_def scripted_change_def clean_log_def Let_def split: list.split option.split)

lemma keeps_finish: "keeps (clean_log login) (finish_entry (scripted_github login) plan entry t login receipted)"
  by (auto simp: keeps_def finish_entry_def scripted_github_def bindP_def thenP_def returnP_def scripted_read_def
      scripted_change_def clean_log_def resolvable_def Let_def split: list.splits sum.splits option.splits prod.splits)

lemma scripted_github_sel [simp]:
  "cl_bot_login (scripted_github login) = returnP login" "cl_get_thread (scripted_github login) = scripted_read"
  "cl_reply (scripted_github login) root body = scripted_change (Replied root)"
  "cl_lock (scripted_github login) m = m" "cl_publish (scripted_github login) step n = n"
  by (simp_all add: scripted_github_def)

lemma keeps_clean_entry: "keeps (clean_log login) (clean_entry (scripted_github login) plan entry)"
  unfolding clean_entry_def Let_def
  by (auto split: option.split intro!: keeps_bind [OF keeps_read_thread] keeps_then keeps_when keeps_reply keeps_finish)


end
