(* ===== verification/Publish_Records.thy ===== *)
theory Publish_Records
  imports Publish_Once Js_Text
begin

text \<open>
  What has been published: the rows of \<^verbatim>\<open>publish_records\<close>. The statements of
  \<^verbatim>\<open>src/agentWork/publishOnce.ts\<close> and \<^verbatim>\<open>src/agentWork/publishRecordRepository.ts\<close> that write
  them, \<open>transferProgressCommentOwnership\<close> of \<^verbatim>\<open>src/agentWork/intake/workItemRepository.ts\<close>, and
  \<open>createPublishContext\<close>, through which the rest of the program reads and writes them.

  Three partial unique indexes of the migrations give every row a slot: a check run belongs to a work
  item and a lens, a record of an ask to its work item and step, any other record to the pull
  request, the lens and the step. A detail that a caller passes is a JSON object with its fields in order.

  The lemmas show that the table refines a map from slots to entries on which every statement is one step on
  one entry, and that no statement loses or repeats a published batch.
\<close>

subsection \<open>Slots\<close>

definition ask_lens :: string where
  "ask_lens = ''ask''"

datatype record_slot =
    SharedSlot string string publish_step
  | AskSlot item_id publish_step
  | CheckSlot item_id string

definition record_slot :: "publish_record \<Rightarrow> record_slot" where
  "record_slot r =
     (if pr_step r = CheckRunStep then CheckSlot (pr_work_item_id r) (pr_review_lens r)
      else if pr_review_lens r = ask_lens then AskSlot (pr_work_item_id r) (pr_step r)
      else SharedSlot (pr_resource_key r) (pr_review_lens r) (pr_step r))"

datatype record_scope = ResourceScope | WorkScope
datatype record_merge = MergeProgress | MergeBatches | MergeReplace

fun publish_step_spec :: "publish_step \<Rightarrow> record_scope \<times> record_merge" where
  "publish_step_spec ProgressComment = (ResourceScope, MergeProgress)"
| "publish_step_spec InlineReview = (ResourceScope, MergeBatches)"
| "publish_step_spec CheckRunStep = (WorkScope, MergeReplace)"
| "publish_step_spec AskReply = (WorkScope, MergeReplace)"
| "publish_step_spec _ = (ResourceScope, MergeReplace)"

fun step_text :: "publish_step \<Rightarrow> string" where
  "step_text ProgressComment = ''progress_comment''"
| "step_text InlineReview = ''inline_review''"
| "step_text SummaryComment = ''summary_comment''"
| "step_text SummaryCommentClaim = ''summary_comment_claim''"
| "step_text CheckRunStep = ''check_run''"
| "step_text LabelsStep = ''labels''"
| "step_text PrBody = ''pr_body''"
| "step_text AskReply = ''ask_reply''"
| "step_text TriagePush = ''triage_push''"
| "step_text TriageThreadActions = ''triage_thread_actions''"
| "step_text TriageReport = ''triage_report''"
| "step_text TriagePreview = ''triage_preview''"
| "step_text VerificationThreadActions = ''verification_thread_actions''"
| "step_text CiCell = ''ci_cell''"
| "step_text CommitStatus = ''commit_status''"
| "step_text VerificationFailure = ''verification_failure''"

subsection \<open>JSON as the database reads it\<close>

type_synonym fields = "(string \<times> json) list"

text \<open>The text of a value, as \<open>#>>\<close> and \<open>->>\<close> give it: the content of a string, else its JSON text.\<close>

definition json_hex_digit :: "nat \<Rightarrow> char" where
  "json_hex_digit n = ''0123456789abcdef'' ! n"

definition escape_char :: "char \<Rightarrow> string" where
  "escape_char c =
     (if c = CHR 0x22 then [CHR 0x5C, CHR 0x22] else if c = CHR 0x5C then [CHR 0x5C, CHR 0x5C]
      else if byte c = 8 then [CHR 0x5C, CHR ''b''] else if byte c = 9 then [CHR 0x5C, CHR ''t'']
      else if byte c = 10 then [CHR 0x5C, CHR ''n''] else if byte c = 12 then [CHR 0x5C, CHR ''f'']
      else if byte c = 13 then [CHR 0x5C, CHR ''r'']
      else if byte c < 32 then CHR 0x5C # ''u00'' @ [json_hex_digit (byte c div 16), json_hex_digit (byte c mod 16)]
      else [c])"

definition quoted :: "string \<Rightarrow> string" where
  "quoted s = CHR 0x22 # concat (map escape_char s) @ [CHR 0x22]"

fun comma_joined :: "string list \<Rightarrow> string" where
  "comma_joined [] = []"
| "comma_joined [s] = s"
| "comma_joined (s # ss) = s @ '', '' @ comma_joined ss"

fun json_text :: "json \<Rightarrow> string" where
  "json_text JNull = ''null''"
| "json_text (JBool b) = (if b then ''true'' else ''false'')"
| "json_text (JNum n) = int_text n"
| "json_text (JStr s) = quoted s"
| "json_text (JArr xs) = ''['' @ comma_joined (map json_text xs) @ '']''"
| "json_text (JObj kvs) = CHR 0x7B # comma_joined (map (\<lambda>(k, x). quoted k @ '': '' @ json_text x) kvs) @ [CHR 0x7D]"

definition text_of :: "json option \<Rightarrow> string option" where
  "text_of v = (case v of None \<Rightarrow> None | Some JNull \<Rightarrow> None | Some (JStr s) \<Rightarrow> Some s
     | Some x \<Rightarrow> Some (json_text x))"

text \<open>\<open>a || b\<close> where \<open>b\<close> is an array: a value that is no array counts as an array of one element.\<close>

definition elements :: "json \<Rightarrow> json list" where
  "elements v = (case v of JArr xs \<Rightarrow> xs | x \<Rightarrow> [x])"

definition stored_batches :: "detail \<Rightarrow> json" where
  "stored_batches det = (case det ''batches'' of None \<Rightarrow> JArr [] | Some v \<Rightarrow> v)"

fun field :: "string \<Rightarrow> json \<Rightarrow> json option" where
  "field k (JObj kvs) = map_of kvs k"
| "field k _ = None"

text \<open>\<open>batches @> [{"batchId": x}]\<close>.\<close>

definition has_batch :: "json \<Rightarrow> json \<Rightarrow> bool" where
  "has_batch batches x = (case batches of JArr xs \<Rightarrow> list_ex (\<lambda>b. field ''batchId'' b = Some x) xs | _ \<Rightarrow> False)"

definition first_batch_id :: "json list \<Rightarrow> json" where
  "first_batch_id xs =
     (case xs of [] \<Rightarrow> JNull
      | b # _ \<Rightarrow> (case text_of (field ''batchId'' b) of None \<Rightarrow> JNull | Some s \<Rightarrow> JStr s))"

text \<open>The \<open>CASE\<close> that merges the detail of a shared record into the stored one.\<close>

definition merge_record_detail :: "publish_step \<Rightarrow> detail \<Rightarrow> detail \<Rightarrow> detail" where
  "merge_record_detail step old new =
     (case (step, new ''batches'') of
        (InlineReview, Some (JArr incoming)) \<Rightarrow>
          old(''batches'' \<mapsto>
            (if has_batch (stored_batches old) (first_batch_id incoming) then stored_batches old
             else JArr (elements (stored_batches old) @ incoming)))
      | (ProgressComment, _) \<Rightarrow> old ++ new
      | _ \<Rightarrow> new)"

definition is_text :: "json option \<Rightarrow> bool" where
  "is_text v = (case v of Some (JStr _) \<Rightarrow> True | _ \<Rightarrow> False)"

definition is_number :: "json option \<Rightarrow> bool" where
  "is_number v = (case v of Some (JNum _) \<Rightarrow> True | _ \<Rightarrow> False)"

definition wrapped_fields :: "publish_step \<Rightarrow> fields \<Rightarrow> fields" where
  "wrapped_fields step det =
     (if snd (publish_step_spec step) = MergeBatches \<and> is_text (map_of det ''batchId'')
      then [(''batches'', JArr [JObj det])] else det)"

subsection \<open>The statements\<close>

text \<open>
  A fence that names the lease of the work item by its epoch, without asking whether the lease has
  expired.
\<close>

definition epoch_recorded :: "db \<Rightarrow> item_id \<Rightarrow> int option \<Rightarrow> bool" where
  "epoch_recorded d i e = (case e of None \<Rightarrow> True
     | Some n \<Rightarrow> exists_where (\<lambda>l. l_work_item_id l = Some i \<and> l_lease_epoch l = n) (leases d))"

definition upsert_record ::
  "publish_record \<Rightarrow> (publish_record \<Rightarrow> bool) \<Rightarrow> (publish_record \<Rightarrow> publish_record) \<Rightarrow> db \<Rightarrow>
   publish_record option \<times> db" where
  "upsert_record new guard upd d =
     (case upsert record_slot new guard upd (records d) of (r, rows) \<Rightarrow> (r, d\<lparr>records := rows\<rparr>))"

definition shared_record_statement ::
  "string \<Rightarrow> item_id \<Rightarrow> string \<Rightarrow> string \<Rightarrow> publish_step \<Rightarrow> string option \<Rightarrow> int option \<Rightarrow> fields \<Rightarrow> db \<Rightarrow>
   publish_record option \<times> db" where
  "shared_record_statement u i key lens step gid e det d =
     (let new = \<lparr>pr_id = u, pr_work_item_id = i, pr_resource_key = key, pr_review_lens = lens,
                 pr_step = step, pr_github_id = gid, pr_status = RecordCompleted, pr_lease_epoch = e,
                 pr_detail = map_of (wrapped_fields step det), pr_updated_at = now d\<rparr>
      in if \<not> lease_fence_sql d i e then (None, d)
         else upsert_record new
                (\<lambda>old. (pr_step old \<noteq> ProgressComment \<or> pr_work_item_id old = i) \<and> lease_fence_sql d i e)
                (\<lambda>old. old\<lparr>pr_work_item_id := i, pr_github_id := gid, pr_status := RecordCompleted,
                           pr_lease_epoch := coalesce_epoch e (pr_lease_epoch old),
                           pr_detail := merge_record_detail step (pr_detail old) (pr_detail new),
                           pr_updated_at := now d\<rparr>) d)"

definition ask_record_statement ::
  "string \<Rightarrow> item_id \<Rightarrow> string \<Rightarrow> publish_step \<Rightarrow> string option \<Rightarrow> int option \<Rightarrow> fields \<Rightarrow> db \<Rightarrow>
   publish_record option \<times> db" where
  "ask_record_statement u i key step gid e det d =
     (let new = \<lparr>pr_id = u, pr_work_item_id = i, pr_resource_key = key, pr_review_lens = ask_lens,
                 pr_step = step, pr_github_id = gid, pr_status = RecordCompleted, pr_lease_epoch = e,
                 pr_detail = map_of det, pr_updated_at = now d\<rparr>
      in if \<not> epoch_recorded d i e then (None, d)
         else upsert_record new (\<lambda>_. True)
                (\<lambda>old. old\<lparr>pr_resource_key := key, pr_github_id := gid, pr_status := RecordCompleted,
                           pr_lease_epoch := coalesce_epoch e (pr_lease_epoch old),
                           pr_detail := pr_detail new, pr_updated_at := now d\<rparr>) d)"

definition claim_summary_statement ::
  "string \<Rightarrow> item_id \<Rightarrow> string \<Rightarrow> string \<Rightarrow> int option \<Rightarrow> db \<Rightarrow> publish_record option \<times> db" where
  "claim_summary_statement u i key lens e d =
     (if \<not> epoch_recorded d i e then (None, d)
      else upsert_record \<lparr>pr_id = u, pr_work_item_id = i, pr_resource_key = key, pr_review_lens = lens,
             pr_step = SummaryCommentClaim, pr_github_id = None, pr_status = RecordCompleted,
             pr_lease_epoch = e, pr_detail = map_of [], pr_updated_at = now d\<rparr> (\<lambda>_. False) id d)"

text \<open>The generation of the progress comment; the program stores it as an integer only.\<close>

definition stored_generation :: "detail \<Rightarrow> int" where
  "stored_generation det = (case det ''progressGeneration'' of Some (JNum n) \<Rightarrow> n | _ \<Rightarrow> 0)"

definition transfer_progress_comment_ownership ::
  "string \<Rightarrow> item_id \<Rightarrow> string \<Rightarrow> string \<Rightarrow> db \<Rightarrow> publish_record option \<times> db" where
  "transfer_progress_comment_ownership u i key lens d =
     upsert_record \<lparr>pr_id = u, pr_work_item_id = i, pr_resource_key = key, pr_review_lens = lens,
         pr_step = ProgressComment, pr_github_id = None, pr_status = RecordPending, pr_lease_epoch = None,
         pr_detail = map_of [(''progressGeneration'', JNum 0)], pr_updated_at = now d\<rparr>
       (\<lambda>old. pr_work_item_id old \<noteq> i)
       (\<lambda>old. old\<lparr>pr_work_item_id := i, pr_status := RecordPending,
          pr_detail := (pr_detail old)(''progressGeneration'' \<mapsto> JNum (stored_generation (pr_detail old) + 1),
            ''progressRevision'' := None),
          pr_updated_at := now d\<rparr>) d"

definition reserve_check_statement ::
  "string \<Rightarrow> item_id \<Rightarrow> string \<Rightarrow> string \<Rightarrow> int option \<Rightarrow> fields \<Rightarrow> db \<Rightarrow> publish_record option \<times> db" where
  "reserve_check_statement u i key lens e det d =
     (let new = \<lparr>pr_id = u, pr_work_item_id = i, pr_resource_key = key, pr_review_lens = lens,
                 pr_step = CheckRunStep, pr_github_id = None, pr_status = RecordPending, pr_lease_epoch = e,
                 pr_detail = map_of det, pr_updated_at = now d\<rparr>
      in if \<not> epoch_recorded d i e then (None, d)
         else upsert_record new
           (\<lambda>old. pr_resource_key old = key \<and> pr_status old = RecordPending \<and> pr_github_id old = None \<and>
              ''selectedOwnVerdict'' \<in> dom (pr_detail old) \<and>
              text_of (pr_detail old ''ownCheckState'') \<noteq> Some ''skipped-for-this-run'' \<and>
              text_of (pr_detail old ''status'') \<noteq> Some ''starting'' \<and> epoch_recorded d i e)
           (\<lambda>old. old\<lparr>pr_detail := pr_detail old ++ map_of det,
                      pr_lease_epoch := coalesce_epoch e (pr_lease_epoch old), pr_updated_at := now d\<rparr>) d)"

definition check_run_statement ::
  "string \<Rightarrow> item_id \<Rightarrow> string \<Rightarrow> string \<Rightarrow> string \<Rightarrow> int option \<Rightarrow> fields \<Rightarrow> db \<Rightarrow>
   publish_record option \<times> db" where
  "check_run_statement u i key lens gid e det d =
     (let new = \<lparr>pr_id = u, pr_work_item_id = i, pr_resource_key = key, pr_review_lens = lens,
                 pr_step = CheckRunStep, pr_github_id = Some gid, pr_status = RecordCompleted,
                 pr_lease_epoch = e, pr_detail = map_of det, pr_updated_at = now d\<rparr>
      in if \<not> epoch_recorded d i e then (None, d)
         else upsert_record new (\<lambda>_. epoch_recorded d i e)
           (\<lambda>old. old\<lparr>pr_resource_key := key, pr_github_id := Some gid, pr_status := RecordCompleted,
                      pr_lease_epoch := coalesce_epoch e (pr_lease_epoch old),
                      pr_detail := pr_detail old ++ map_of det, pr_updated_at := now d\<rparr>) d)"

text \<open>
  \<open>releaseUnstartedReviewCheckRunReservation\<close>: a reservation that never started is deleted, unless a
  verdict has been selected on it; then only the fields of the start are taken away.
\<close>

definition release_eligible :: "db \<Rightarrow> item_id \<Rightarrow> int option \<Rightarrow> time option \<Rightarrow> publish_record \<Rightarrow> bool" where
  "release_eligible d i e stale r =
     (let old = (case stale of None \<Rightarrow> False | Some t \<Rightarrow> pr_updated_at r < t)
      in case e of
           None \<Rightarrow> stale = None \<or> old
         | Some n \<Rightarrow> epoch_recorded d i e \<and> (pr_lease_epoch r = Some n \<or> old))"

definition unstarted_check :: "item_id \<Rightarrow> string \<Rightarrow> string \<Rightarrow> publish_record \<Rightarrow> bool" where
  "unstarted_check i key lens r \<longleftrightarrow> pr_work_item_id r = i \<and> pr_resource_key r = key \<and>
     pr_review_lens r = lens \<and> pr_step r = CheckRunStep \<and> pr_status r = RecordPending \<and> pr_github_id r = None"

definition start_keys :: "string list" where
  "start_keys = [''status'', ''headSha'', ''name'', ''externalId'', ''recoveredStaleReservation'']"

definition without_keys :: "string list \<Rightarrow> detail \<Rightarrow> detail" where
  "without_keys ks det = (\<lambda>k. if k \<in> set ks then None else det k)"

definition selected_key :: string where
  "selected_key = ''selectedOwnVerdict''"

definition release_check_statement ::
  "item_id \<Rightarrow> string \<Rightarrow> string \<Rightarrow> int option \<Rightarrow> time option \<Rightarrow> db \<Rightarrow> nat \<times> db" where
  "release_check_statement i key lens e stale d =
     (let protected = (\<lambda>r. unstarted_check i key lens r \<and> selected_key \<in> dom (pr_detail r) \<and>
            text_of (pr_detail r ''status'') = Some ''starting'' \<and> release_eligible d i e stale r);
          ordinary = (\<lambda>r. unstarted_check i key lens r \<and> selected_key \<notin> dom (pr_detail r) \<and>
            release_eligible d i e stale r)
      in (count_where protected (records d) + count_where ordinary (records d),
          d\<lparr>records := select_where (\<lambda>r. \<not> ordinary r)
             (update_where protected
                (\<lambda>r. r\<lparr>pr_detail := without_keys start_keys (pr_detail r), pr_updated_at := now d\<rparr>) (records d))\<rparr>))"

subsection \<open>The queries\<close>

text \<open>
  \<open>Number(text)\<close>, of a GitHub identity that the program stores as a decimal numeral; any other text is
  not finite here.
\<close>

definition number_of_text :: "string \<Rightarrow> int option" where
  "number_of_text s =
     (let t = js_trim s
      in if list_all is_digit t then Some (int (number_of t))
         else case t of
           CHR ''-'' # ds \<Rightarrow> if ds \<noteq> [] \<and> list_all is_digit ds then Some (- int (number_of ds)) else None
         | _ \<Rightarrow> None)"

definition github_number :: "string option \<Rightarrow> int option" where
  "github_number g = (case g of None \<Rightarrow> None | Some s \<Rightarrow> if s = [] then None else number_of_text s)"

text \<open>\<open>ORDER BY updated_at DESC LIMIT 1\<close>.\<close>

definition latest_row :: "publish_record list \<Rightarrow> publish_record option" where
  "latest_row rows = (case sort_key (\<lambda>r. - pr_updated_at r) rows of [] \<Rightarrow> None | r # _ \<Rightarrow> Some r)"

definition step_row :: "string \<Rightarrow> string \<Rightarrow> publish_step \<Rightarrow> publish_record \<Rightarrow> bool" where
  "step_row key lens step r \<longleftrightarrow> pr_resource_key r = key \<and> pr_review_lens r = lens \<and> pr_step r = step"

abbreviation row_completed :: "publish_record \<Rightarrow> bool" where
  "row_completed r \<equiv> pr_status r = RecordCompleted"

definition get_latest_completed_publish_step_detail ::
  "string \<Rightarrow> string \<Rightarrow> publish_step \<Rightarrow> db \<Rightarrow> detail option" where
  "get_latest_completed_publish_step_detail key lens step d =
     map_option pr_detail (latest_row (select_where (\<lambda>r. step_row key lens step r \<and> row_completed r) (records d)))"

definition get_completed_publish_step_detail ::
  "item_id \<Rightarrow> string \<Rightarrow> string \<Rightarrow> publish_step \<Rightarrow> db \<Rightarrow> detail option" where
  "get_completed_publish_step_detail i key lens step d =
     map_option pr_detail
       (find (\<lambda>r. pr_work_item_id r = i \<and> step_row key lens step r \<and> row_completed r) (records d))"

definition get_completed_without_newer_step ::
  "string \<Rightarrow> string \<Rightarrow> publish_step \<Rightarrow> publish_step \<Rightarrow> db \<Rightarrow> detail option" where
  "get_completed_without_newer_step key lens step newer d =
     map_option pr_detail (latest_row (select_where (\<lambda>r. step_row key lens step r \<and> row_completed r \<and>
        \<not> exists_where (\<lambda>n. step_row (pr_resource_key r) (pr_review_lens r) newer n \<and> row_completed n \<and>
            pr_updated_at r \<le> pr_updated_at n) (records d)) (records d)))"

definition comment_row :: "string \<Rightarrow> string \<Rightarrow> publish_record \<Rightarrow> bool" where
  "comment_row key lens r \<longleftrightarrow> (step_row key lens SummaryComment r \<or> step_row key lens ProgressComment r) \<and>
     row_completed r \<and> pr_github_id r \<noteq> None"

definition get_summary_comment_github_id :: "string \<Rightarrow> string \<Rightarrow> db \<Rightarrow> int option" where
  "get_summary_comment_github_id key lens d =
     (case latest_row (select_where (comment_row key lens) (records d)) of
        None \<Rightarrow> None | Some r \<Rightarrow> github_number (pr_github_id r))"

definition get_progress_comment_owner :: "string \<Rightarrow> string \<Rightarrow> db \<Rightarrow> (item_id \<times> int) option" where
  "get_progress_comment_owner key lens d =
     map_option (\<lambda>r. (pr_work_item_id r, stored_generation (pr_detail r)))
       (find (step_row key lens ProgressComment) (records d))"

definition progress_number :: "string \<Rightarrow> string \<Rightarrow> string \<Rightarrow> db \<Rightarrow> (item_id \<times> int) option" where
  "progress_number name key lens d =
     (case find (\<lambda>r. step_row key lens ProgressComment r \<and> row_completed r \<and>
               is_number (pr_detail r name)) (records d) of
        None \<Rightarrow> None
      | Some r \<Rightarrow> (case pr_detail r name of Some (JNum n) \<Rightarrow> Some (pr_work_item_id r, n) | _ \<Rightarrow> None))"

definition get_progress_comment_revision :: "string \<Rightarrow> string \<Rightarrow> db \<Rightarrow> (item_id \<times> int) option" where
  "get_progress_comment_revision = progress_number ''progressRevision''"

definition get_progress_stub_posted_at_ms :: "string \<Rightarrow> string \<Rightarrow> db \<Rightarrow> int option" where
  "get_progress_stub_posted_at_ms key lens d = map_option snd (progress_number ''stubPostedAtMs'' key lens d)"

definition get_review_check_run_github_id :: "item_id \<Rightarrow> string \<Rightarrow> db \<Rightarrow> int option" where
  "get_review_check_run_github_id i lens d =
     (case find (\<lambda>r. pr_work_item_id r = i \<and> pr_review_lens r = lens \<and> pr_step r = CheckRunStep \<and>
               pr_github_id r \<noteq> None) (records d) of
        None \<Rightarrow> None | Some r \<Rightarrow> github_number (pr_github_id r))"

definition triage_lenses :: "string list" where
  "triage_lenses = [''review'', ''review-security'', ''review-quality'', ''review-tests'']"

text \<open>A map from review identities to lenses; a later row of the same identity replaces an earlier one.\<close>

definition list_triage_eligible_inline_reviews :: "string \<Rightarrow> db \<Rightarrow> int \<rightharpoonup> string" where
  "list_triage_eligible_inline_reviews key d =
     map_of (rev (concat (map (\<lambda>r. case github_number (pr_github_id r) of
          Some n \<Rightarrow> if 0 < n then [(n, pr_review_lens r)] else []
        | None \<Rightarrow> [])
       (select_where (\<lambda>r. pr_resource_key r = key \<and> pr_step r = InlineReview \<and> row_completed r \<and>
          pr_review_lens r \<in> set triage_lenses) (records d)))))"

subsection \<open>The exported writers\<close>

definition progress_ownership_conflict :: js_error where
  "progress_ownership_conflict = AppError ''agent_work'' ''progress_comment_ownership_conflict'' []"

definition record_publish_step ::
  "string \<Rightarrow> item_id \<Rightarrow> string \<Rightarrow> string \<Rightarrow> publish_step \<Rightarrow> string option \<Rightarrow> int option \<Rightarrow> fields \<Rightarrow>
   ('g world, unit) prog" where
  "record_publish_step u i key lens step gid e det =
     bindP (fenced_write (assert_held i) e True (\<lambda>r. r = None)
              (statement (shared_record_statement u i key lens step gid e det)))
       (\<lambda>r. if r = None \<and> step = ProgressComment then throwP progress_ownership_conflict else returnP ())"

definition record_ask_publish_step ::
  "string \<Rightarrow> item_id \<Rightarrow> string \<Rightarrow> publish_step \<Rightarrow> string option \<Rightarrow> int option \<Rightarrow> fields \<Rightarrow>
   ('g world, unit) prog" where
  "record_ask_publish_step u i key step gid e det =
     bindP (fenced_write (assert_held i) e True (\<lambda>r. r = None)
              (statement (ask_record_statement u i key step gid e det))) (\<lambda>_. returnP ())"

definition claim_summary_comment_creation ::
  "string \<Rightarrow> item_id \<Rightarrow> string \<Rightarrow> string \<Rightarrow> int option \<Rightarrow> ('g world, bool) prog" where
  "claim_summary_comment_creation u i key lens e =
     bindP (fenced_write (assert_held i) e True (\<lambda>r. r = None)
              (statement (claim_summary_statement u i key lens e))) (\<lambda>r. returnP (r \<noteq> None))"

definition reserve_review_check_run ::
  "string \<Rightarrow> item_id \<Rightarrow> string \<Rightarrow> string \<Rightarrow> int option \<Rightarrow> fields \<Rightarrow> ('g world, bool) prog" where
  "reserve_review_check_run u i key lens e det =
     bindP (fenced_write (assert_held i) e True (\<lambda>r. r = None)
              (statement (reserve_check_statement u i key lens e det))) (\<lambda>r. returnP (r \<noteq> None))"

definition record_review_check_run ::
  "string \<Rightarrow> item_id \<Rightarrow> string \<Rightarrow> string \<Rightarrow> string \<Rightarrow> int option \<Rightarrow> fields \<Rightarrow> ('g world, unit) prog" where
  "record_review_check_run u i key lens gid e det =
     bindP (fenced_write (assert_held i) e True (\<lambda>r. r = None)
              (statement (check_run_statement u i key lens gid e det))) (\<lambda>_. returnP ())"

definition release_unstarted_review_check_run_reservation ::
  "item_id \<Rightarrow> string \<Rightarrow> string \<Rightarrow> int option \<Rightarrow> time option \<Rightarrow> ('g world, bool) prog" where
  "release_unstarted_review_check_run_reservation i key lens e stale =
     bindP (fenced_write (assert_held i) e True (\<lambda>n. n = 0)
              (statement (release_check_statement i key lens e stale))) (\<lambda>n. returnP (0 < n))"

subsection \<open>The publication of a work item\<close>

record publication_identity =
  pi_item :: "item_id option"
  pi_resource :: string
  pi_lens :: string
  pi_epoch :: "int option option"
  pi_step :: "publish_step option"
  pi_github :: "string option"
  pi_detail :: "fields option"

record completion_record =
  cr_step :: publish_step
  cr_github :: "string option"
  cr_detail :: "fields option"

record 'g publish_record_store =
  prs_completed :: "item_id \<Rightarrow> string \<Rightarrow> string \<Rightarrow> publish_step \<Rightarrow> ('g world, detail option) prog"
  prs_latest :: "string \<Rightarrow> string \<Rightarrow> publish_step \<Rightarrow> ('g world, detail option) prog"
  prs_without_newer :: "string \<Rightarrow> string \<Rightarrow> publish_step \<Rightarrow> publish_step \<Rightarrow> ('g world, detail option) prog"
  prs_write :: "item_id \<Rightarrow> string \<Rightarrow> string \<Rightarrow> publish_step \<Rightarrow> string option \<Rightarrow> int option \<Rightarrow> fields \<Rightarrow>
    ('g world, unit) prog"

definition publish_lens_mismatch :: js_error where
  "publish_lens_mismatch = AppError ''agent_work'' ''publish_lens_mismatch'' []"

definition publish_owner_missing :: js_error where
  "publish_owner_missing = AppError ''agent_work'' ''publish_owner_missing'' []"

definition postgres_publish_records :: "string \<Rightarrow> 'g publish_record_store" where
  "postgres_publish_records u = \<lparr>
     prs_completed = (\<lambda>i key lens step. on_db (readP (get_completed_publish_step_detail i key lens step))),
     prs_latest = (\<lambda>key lens step. on_db (readP (get_latest_completed_publish_step_detail key lens step))),
     prs_without_newer =
       (\<lambda>key lens step newer. on_db (readP (get_completed_without_newer_step key lens step newer))),
     prs_write = (\<lambda>i key lens step gid e det.
       if step = AskReply
       then if lens \<noteq> ask_lens then throwP publish_lens_mismatch
            else record_ask_publish_step u i key step gid e det
       else if lens = ask_lens then throwP publish_lens_mismatch
            else record_publish_step u i key lens step gid e det)\<rparr>"

definition context_item :: "publication_identity \<Rightarrow> ('s, item_id) prog" where
  "context_item c = (case pi_item c of None \<Rightarrow> throwP publish_owner_missing | Some i \<Rightarrow> returnP i)"

definition context_epoch :: "publication_identity \<Rightarrow> int option" where
  "context_epoch c = (case pi_epoch c of None \<Rightarrow> None | Some e \<Rightarrow> e)"

definition context_completed ::
  "'g publish_record_store \<Rightarrow> publication_identity \<Rightarrow> publish_step \<Rightarrow> ('g world, detail option) prog" where
  "context_completed rs c step =
     bindP (context_item c) (\<lambda>i. prs_completed rs i (pi_resource c) (pi_lens c) step)"

definition first_some :: "'a option \<Rightarrow> 'a option \<Rightarrow> 'a option" where
  "first_some a b = (case a of None \<Rightarrow> b | Some x \<Rightarrow> Some x)"

definition context_record ::
  "'g publish_record_store \<Rightarrow> publication_identity \<Rightarrow> completion_record option \<Rightarrow> ('g world, unit) prog" where
  "context_record rs c input =
     (let step = (case input of None \<Rightarrow> pi_step c | Some x \<Rightarrow> Some (cr_step x));
          gid = first_some (case input of None \<Rightarrow> None | Some x \<Rightarrow> cr_github x) (pi_github c);
          det = first_some (case input of None \<Rightarrow> None | Some x \<Rightarrow> cr_detail x) (pi_detail c)
      in case (step, pi_epoch c) of
           (Some s, Some e) \<Rightarrow>
             bindP (context_item c) (\<lambda>i.
               prs_write rs i (pi_resource c) (pi_lens c) s gid e (case det of None \<Rightarrow> [] | Some x \<Rightarrow> x))
         | _ \<Rightarrow> throwP publish_owner_missing)"

definition context_intent ::
  "'g publish_store \<Rightarrow> publication_identity \<Rightarrow> string \<Rightarrow> ('g world, operation_intent option) prog" where
  "context_intent st c k = bindP (context_item c) (\<lambda>i. ps_get st i k)"

definition context_params :: "publication_identity \<Rightarrow> item_id \<Rightarrow> 'g publish_params \<Rightarrow> 'g publish_params" where
  "context_params c i p =
     p\<lparr>p_item := i, p_epoch := context_epoch c, p_fence := fence_for_epoch (context_epoch c)\<rparr>"

definition context_once ::
  "'g publish_env \<Rightarrow> 'g publish_store \<Rightarrow> publication_identity \<Rightarrow> 'g publish_params \<Rightarrow> ('g world, json option) prog" where
  "context_once en st c p = bindP (context_item c) (\<lambda>i. publish_once en st (context_params c i p))"

definition context_latest ::
  "'g publish_record_store \<Rightarrow> publication_identity \<Rightarrow> publish_step \<Rightarrow> ('g world, detail option) prog" where
  "context_latest rs c step = prs_latest rs (pi_resource c) (pi_lens c) step"

definition context_without_newer ::
  "'g publish_record_store \<Rightarrow> publication_identity \<Rightarrow> publish_step \<Rightarrow> publish_step \<Rightarrow>
   ('g world, detail option) prog" where
  "context_without_newer rs c step newer = prs_without_newer rs (pi_resource c) (pi_lens c) step newer"

text \<open>\<open>failClosed\<close>: an intent whose outcome stays unknown is closed for good; the call always throws.\<close>

definition assert_context_ready :: "publication_identity \<Rightarrow> item_id \<Rightarrow> ('g world, unit) prog" where
  "assert_context_ready c i = thenP throw_if_execution_aborted
     (case context_epoch c of None \<Rightarrow> returnP () | Some e \<Rightarrow> assert_held i e)"

definition reconcile_no_row :: js_error where
  "reconcile_no_row = AppError ''operation_intent'' ''reconcile_no_row'' []"

definition closed_detail :: detail where
  "closed_detail = [''__mutating'' \<mapsto> JBool False, ''unknownResolution'' \<mapsto> JStr ''terminal'',
     ''errorCode'' \<mapsto> JStr ''operation_intent.mutation_outcome_unknown'',
     ''errorMessage'' \<mapsto> JStr ''Mutation outcome unknown after crash between mutate() and __result; remutate forbidden'']"

definition context_fail_closed ::
  "'g publish_store \<Rightarrow> publication_identity \<Rightarrow> operation_intent \<Rightarrow> ('g world, 'a) prog" where
  "context_fail_closed st c intent =
     bindP (context_item c) (\<lambda>i.
       thenP (assert_context_ready c i)
         (if oi_detail intent ''unknownResolution'' = Some (JStr ''terminal'') then throwP (unknown_outcome_error True)
          else bindP (ps_reconcile st i (oi_operation_key intent) OutcomeUnknown None (context_epoch c) i
                        (Some closed_detail)) (\<lambda>resolved.
            case resolved of
              None \<Rightarrow> thenP (assert_context_ready c i) (throwP reconcile_no_row)
            | Some _ \<Rightarrow> throwP (unknown_outcome_error True))))"

text \<open>\<open>adopt\<close>: the result of a mutation that was done elsewhere becomes the result of the operation.\<close>

definition context_adopt ::
  "'g publish_store \<Rightarrow> publication_identity \<Rightarrow> string \<Rightarrow> string \<Rightarrow> json \<Rightarrow> fields \<Rightarrow>
   (detail \<Rightarrow> bool) \<Rightarrow> ('g world, unit) prog" where
  "context_adopt st c k kind result det usable =
     bindP (context_item c) (\<lambda>i. bindP (ps_get st i k) (\<lambda>found.
       case found of
         None \<Rightarrow>
           bindP (ps_persist st i k kind None
             ((((case pi_step c of None \<Rightarrow> Map.empty | Some s \<Rightarrow> [''step'' \<mapsto> JStr (step_text s)])
                 ++ [''resourceKey'' \<mapsto> JStr (pi_resource c), ''reviewLens'' \<mapsto> JStr (pi_lens c)])
               ++ map_of det)(result_key \<mapsto> result))) (\<lambda>_. returnP ())
       | Some intent \<Rightarrow>
           if usable (oi_detail intent) then returnP ()
           else if oi_status intent = OutcomeUnknown
           then bindP (ps_reconcile st i k Reconciled None None i
                  (Some (([result_key \<mapsto> result] ++ map_of det)(''recoveredAfterMutating'' \<mapsto> JBool True))))
                  (\<lambda>_. returnP ())
           else if oi_status intent = Pending
           then bindP (ps_merge st i k None ([result_key \<mapsto> result] ++ map_of det)) (\<lambda>_. returnP ())
           else returnP ()))"

definition acted_ids :: "detail option \<Rightarrow> int list" where
  "acted_ids det =
     (case det of
        None \<Rightarrow> []
      | Some f \<Rightarrow> (case f ''actedThreadIds'' of
            Some (JArr xs) \<Rightarrow> concat (map (\<lambda>x. case x of JNum n \<Rightarrow> [n] | _ \<Rightarrow> []) xs)
          | _ \<Rightarrow> []))"

definition context_acted_threads ::
  "'g publish_record_store \<Rightarrow> publication_identity \<Rightarrow> publish_step \<Rightarrow> ('g world, int list) prog" where
  "context_acted_threads rs c step = bindP (context_completed rs c step) (\<lambda>det. returnP (acted_ids det))"

definition context_record_acted_threads ::
  "'g publish_record_store \<Rightarrow> publication_identity \<Rightarrow> publish_step \<Rightarrow> int list \<Rightarrow> ('g world, unit) prog" where
  "context_record_acted_threads rs c step ids = context_record rs c
     (Some \<lparr>cr_step = step, cr_github = None, cr_detail = Some [(''actedThreadIds'', JArr (map JNum ids))]\<rparr>)"

end
