(* ===== verification/Own_Verdict.thy ===== *)
theory Own_Verdict
  imports Publish_Records
begin

text \<open>
  The verdict of a review on its own check run and commit status: the statements of
  \<^verbatim>\<open>src/agentWork/publishRecordRepository.ts\<close> that select a verdict on the check-run row of a work item,
  enrich it with a status, and note for each of the two surfaces what became of it.

  A selected verdict is stored as JSON; \<open>verdict_json\<close> is the value as \<^verbatim>\<open>jsonb\<close> keeps it (shorter keys
  first), so that the comparison of two stored verdicts is equality. The time that \<open>new Date()\<close> reads is
  an argument.
\<close>

subsection \<open>Verdicts\<close>

datatype verdict_conclusion =
  VerdictSuccess | VerdictFailure | VerdictNeutral | VerdictCancelled | VerdictActionRequired

datatype status_state = StatusSuccess | StatusFailure | StatusError

record own_status =
  os_head :: string
  os_enabled :: bool
  os_state :: status_state

record own_verdict =
  ov_conclusion :: verdict_conclusion
  ov_summary :: string
  ov_url :: "string option"
  ov_status :: "own_status option"

fun conclusion_text :: "verdict_conclusion \<Rightarrow> string" where
  "conclusion_text VerdictSuccess = ''success''"
| "conclusion_text VerdictFailure = ''failure''"
| "conclusion_text VerdictNeutral = ''neutral''"
| "conclusion_text VerdictCancelled = ''cancelled''"
| "conclusion_text VerdictActionRequired = ''action_required''"

fun state_text :: "status_state \<Rightarrow> string" where
  "state_text StatusSuccess = ''success''"
| "state_text StatusFailure = ''failure''"
| "state_text StatusError = ''error''"

definition conclusions :: "verdict_conclusion list" where
  "conclusions = [VerdictSuccess, VerdictFailure, VerdictNeutral, VerdictCancelled, VerdictActionRequired]"

definition status_states :: "status_state list" where
  "status_states = [StatusSuccess, StatusFailure, StatusError]"

definition status_json :: "own_status \<Rightarrow> json" where
  "status_json s = JObj [(''state'', JStr (state_text (os_state s))), (''enabled'', JBool (os_enabled s)),
     (''headSha'', JStr (os_head s))]"

definition verdict_json :: "own_verdict \<Rightarrow> json" where
  "verdict_json v = JObj
     ((case ov_status v of None \<Rightarrow> [] | Some s \<Rightarrow> [(''status'', status_json s)]) @
      [(''summary'', JStr (ov_summary v)), (''conclusion'', JStr (conclusion_text (ov_conclusion v)))] @
      (case ov_url v of None \<Rightarrow> [] | Some u \<Rightarrow> [(''detailsUrl'', JStr u)]))"

text \<open>
  \<open>v.safeParse(selectedOwnVerdictSchema, value)\<close>: unknown keys are dropped, an optional key may be
  missing but not be null.
\<close>

definition pick :: "('a \<Rightarrow> string) \<Rightarrow> 'a list \<Rightarrow> json option \<Rightarrow> 'a option" where
  "pick text options v = (case v of Some (JStr s) \<Rightarrow> find (\<lambda>x. text x = s) options | _ \<Rightarrow> None)"

definition parse_status :: "json \<Rightarrow> own_status option" where
  "parse_status j = (case (field ''headSha'' j, field ''enabled'' j, pick state_text status_states (field ''state'' j)) of
      (Some (JStr h), Some (JBool b), Some s) \<Rightarrow> Some \<lparr>os_head = h, os_enabled = b, os_state = s\<rparr>
    | _ \<Rightarrow> None)"

definition optional :: "(json \<Rightarrow> 'a option) \<Rightarrow> json option \<Rightarrow> 'a option option" where
  "optional f v = (case v of None \<Rightarrow> Some None | Some x \<Rightarrow> map_option Some (f x))"

fun json_string :: "json \<Rightarrow> string option" where
  "json_string (JStr s) = Some s"
| "json_string _ = None"

definition parse_own_verdict :: "json \<Rightarrow> own_verdict option" where
  "parse_own_verdict j =
     (case (pick conclusion_text conclusions (field ''conclusion'' j), Option.bind (field ''summary'' j) json_string,
            optional json_string (field ''detailsUrl'' j), optional parse_status (field ''status'' j)) of
        (Some c, Some s, Some u, Some st) \<Rightarrow>
          Some \<lparr>ov_conclusion = c, ov_summary = s, ov_url = u, ov_status = st\<rparr>
      | _ \<Rightarrow> None)"

definition deferred_head_sha :: string where
  "deferred_head_sha = ''deferred-to-worker''"

definition own_verdict_status_applicable :: "own_verdict \<Rightarrow> bool" where
  "own_verdict_status_applicable v = (case ov_status v of None \<Rightarrow> False
     | Some s \<Rightarrow> os_enabled s \<and> os_head s \<noteq> [] \<and> os_head s \<noteq> deferred_head_sha)"

subsection \<open>The close record\<close>

datatype surface = CheckSurface | StatusSurface
datatype surface_state = Applied | SkippedForThisRun | Blocked | Unresolved

fun surface_state_text :: "surface_state \<Rightarrow> string" where
  "surface_state_text Applied = ''applied''"
| "surface_state_text SkippedForThisRun = ''skipped-for-this-run''"
| "surface_state_text Blocked = ''blocked''"
| "surface_state_text Unresolved = ''unresolved''"

fun state_key :: "surface \<Rightarrow> string" where
  "state_key CheckSurface = ''ownCheckState''"
| "state_key StatusSurface = ''ownStatusState''"

fun applied_key :: "surface \<Rightarrow> string" where
  "applied_key CheckSurface = ''ownCheckApplied''"
| "applied_key StatusSurface = ''ownStatusApplied''"

fun own_verdict_mutation_kinds :: "surface \<Rightarrow> string list" where
  "own_verdict_mutation_kinds CheckSurface =
     [''github.review_check_run'', ''github.pr_surface.startReviewCheck'', ''github.review_check_run_close'',
      ''github.pr_surface.finishReviewCheck'']"
| "own_verdict_mutation_kinds StatusSurface =
     [''github.review_commit_status'', ''github.pr_surface.setReviewCommitStatus'']"

definition own_verdict_surface_state :: "json option \<Rightarrow> bool \<Rightarrow> surface_state" where
  "own_verdict_surface_state v applied =
     (if applied then Applied
      else if v = Some (JStr ''skipped-for-this-run'') then SkippedForThisRun
      else if v = Some (JStr ''blocked'') then Blocked else Unresolved)"

record close_record =
  cl_selected :: "own_verdict option"
  cl_github :: "int option"
  cl_check_applied :: bool
  cl_status_applied :: bool
  cl_check_state :: surface_state
  cl_status_state :: surface_state
  cl_legacy_closed :: bool

definition own_verdict_invalid :: js_error where
  "own_verdict_invalid = AppError ''agent_work'' ''own_verdict_invalid'' []"

definition check_row :: "item_id \<Rightarrow> string \<Rightarrow> string \<Rightarrow> publish_record \<Rightarrow> bool" where
  "check_row i key lens r \<longleftrightarrow> pr_work_item_id r = i \<and> step_row key lens CheckRunStep r"

definition nonempty_text :: "json option \<Rightarrow> bool" where
  "nonempty_text v = (case v of Some (JStr s) \<Rightarrow> s \<noteq> [] | _ \<Rightarrow> False)"

definition close_record_of :: "publish_record \<Rightarrow> js_error + close_record" where
  "close_record_of r =
     (let det = pr_detail r;
          stored = (case det selected_key of Some JNull \<Rightarrow> None | v \<Rightarrow> v);
          checked = (det ''ownCheckApplied'' = Some (JBool True));
          statused = (det ''ownStatusApplied'' = Some (JBool True));
          result = (\<lambda>sel. \<lparr>cl_selected = sel,
            cl_github = (case pr_github_id r of None \<Rightarrow> None | Some g \<Rightarrow> number_of_text g),
            cl_check_applied = checked, cl_status_applied = statused,
            cl_check_state = own_verdict_surface_state (det ''ownCheckState'') checked,
            cl_status_state = own_verdict_surface_state (det ''ownStatusState'') statused,
            cl_legacy_closed = (stored = None \<and> det ''status'' = Some (JStr ''completed'') \<and>
              nonempty_text (det ''conclusion''))\<rparr>)
      in case stored of
           None \<Rightarrow> Inr (result None)
         | Some j \<Rightarrow> (case parse_own_verdict j of
               None \<Rightarrow> Inl own_verdict_invalid
             | Some v \<Rightarrow> Inr (result (Some v))))"

definition get_own_verdict_close_record ::
  "item_id \<Rightarrow> string \<Rightarrow> string \<Rightarrow> db \<Rightarrow> js_error + close_record option" where
  "get_own_verdict_close_record i key lens d =
     (case find (check_row i key lens) (records d) of
        None \<Rightarrow> Inr None
      | Some r \<Rightarrow> (case close_record_of r of Inl e \<Rightarrow> Inl e | Inr c \<Rightarrow> Inr (Some c)))"

subsection \<open>What the intents say\<close>

text \<open>A mutation that may have been accepted.\<close>

definition maybe_accepted :: "operation_intent \<Rightarrow> bool" where
  "maybe_accepted r \<longleftrightarrow> oi_status r = Reconciled \<or> oi_status r = OutcomeUnknown \<or> result_key \<in> dom (oi_detail r) \<or>
     oi_status r \<noteq> IntentFailed \<and> oi_detail r mutating_key = Some (JBool True)"

definition has_own_verdict_surface_acceptance :: "item_id \<Rightarrow> surface \<Rightarrow> db \<Rightarrow> bool" where
  "has_own_verdict_surface_acceptance i s d = exists_where (\<lambda>r. oi_work_item_id r = i \<and>
     oi_mutation_kind r \<in> set (own_verdict_mutation_kinds s) \<and> maybe_accepted r) (intents d)"

text \<open>\<open>LIKE 'review:commit_status:%:pending'\<close>; the underscore stands for any one character.\<close>

definition pending_status_key :: "string \<Rightarrow> bool" where
  "pending_status_key s = (case expect ''review:commit'' s of
      Some (_ # r) \<Rightarrow> (case expect ''status:'' r of Some t \<Rightarrow> suffix '':pending'' t | None \<Rightarrow> False)
    | _ \<Rightarrow> False)"

definition pending_parent_exists :: "operation_intent \<Rightarrow> db \<Rightarrow> bool" where
  "pending_parent_exists r d = exists_where (\<lambda>p. oi_work_item_id p = oi_work_item_id r \<and>
     text_of (oi_detail r ''parentOperationKey'') = Some (oi_operation_key p) \<and>
     oi_mutation_kind p = ''github.review_commit_status'' \<and>
     (text_of (oi_detail p ''state'') = Some ''pending'' \<or> pending_status_key (oi_operation_key p))) (intents d)"

definition has_unresolved_delegated_own_status :: "item_id \<Rightarrow> string \<Rightarrow> db \<Rightarrow> bool" where
  "has_unresolved_delegated_own_status i k d = exists_where (\<lambda>r. oi_work_item_id r = i \<and>
     oi_mutation_kind r = ''github.pr_surface.setReviewCommitStatus'' \<and>
     (oi_status r = OutcomeUnknown \<or> oi_status r = Pending \<and> oi_detail r mutating_key = Some (JBool True)) \<and>
     result_key \<notin> dom (oi_detail r) \<and> text_of (oi_detail r ''parentOperationKey'') \<noteq> Some k \<and>
     \<not> pending_parent_exists r d) (intents d)"

definition own_verdict_close_operation_key :: "item_id \<Rightarrow> string \<Rightarrow> string" where
  "own_verdict_close_operation_key i lens = ''review:check_run_close:'' @ i @ '':'' @ lens"

text \<open>\<open>ORDER BY created_at DESC LIMIT 1\<close>.\<close>

definition newest_intent :: "operation_intent list \<Rightarrow> operation_intent option" where
  "newest_intent rows = (case sort_key (\<lambda>r. - oi_created_at r) rows of [] \<Rightarrow> None | r # _ \<Rightarrow> Some r)"

definition get_delegated_own_verdict_finish :: "item_id \<Rightarrow> string \<Rightarrow> db \<Rightarrow> (intent_status \<times> detail) option" where
  "get_delegated_own_verdict_finish i lens d = map_option (\<lambda>r. (oi_status r, oi_detail r))
     (newest_intent (select_where (\<lambda>r. oi_work_item_id r = i \<and>
        oi_mutation_kind r = ''github.pr_surface.finishReviewCheck'' \<and>
        text_of (oi_detail r ''parentOperationKey'') = Some (own_verdict_close_operation_key i lens)) (intents d)))"

definition completes_verdict :: "operation_intent \<Rightarrow> db \<Rightarrow> bool" where
  "completes_verdict r d \<longleftrightarrow>
     oi_mutation_kind r \<in> {''github.pr_surface.finishReviewCheck'', ''github.review_check_run_close''} \<or>
     text_of (oi_detail r ''surfaceMethod'') = Some ''finishReviewCheck'' \<or>
     oi_mutation_kind r = ''github.review_commit_status'' \<and>
       text_of (oi_detail r ''state'') \<noteq> Some ''pending'' \<and> \<not> pending_status_key (oi_operation_key r) \<or>
     oi_mutation_kind r = ''github.pr_surface.setReviewCommitStatus'' \<and> \<not> pending_parent_exists r d"

definition has_legacy_own_verdict_completion :: "item_id \<Rightarrow> string \<Rightarrow> db \<Rightarrow> bool" where
  "has_legacy_own_verdict_completion i lens d = exists_where (\<lambda>r. oi_work_item_id r = i \<and> completes_verdict r d \<and>
     text_of (oi_detail r ''parentOperationKey'') \<noteq> Some (own_verdict_close_operation_key i lens) \<and>
     (oi_status r = Reconciled \<or>
      oi_status r = OutcomeUnknown \<and> text_of (oi_detail r ''unknownResolution'') \<noteq> Some ''terminal'' \<or>
      result_key \<in> dom (oi_detail r) \<or>
      oi_status r \<noteq> IntentFailed \<and> oi_detail r mutating_key = Some (JBool True))) (intents d)"

subsection \<open>The statements\<close>

text \<open>An \<open>UPDATE publish_records\<close> of the check-run row of a work item; the answer is the row count.\<close>

definition update_check_row ::
  "item_id \<Rightarrow> string \<Rightarrow> string \<Rightarrow> (publish_record \<Rightarrow> bool) \<Rightarrow> (detail \<Rightarrow> detail) \<Rightarrow> db \<Rightarrow> nat \<times> db" where
  "update_check_row i key lens p f d =
     (count_where (\<lambda>r. check_row i key lens r \<and> p r) (records d),
      d\<lparr>records := update_where (\<lambda>r. check_row i key lens r \<and> p r)
          (\<lambda>r. r\<lparr>pr_detail := f (pr_detail r), pr_updated_at := now d\<rparr>) (records d)\<rparr>)"

definition settled_text :: "string option \<Rightarrow> bool" where
  "settled_text t \<longleftrightarrow> t = Some ''applied'' \<or> t = Some ''skipped-for-this-run''"

definition surface_state_statement ::
  "item_id \<Rightarrow> string \<Rightarrow> string \<Rightarrow> int option \<Rightarrow> own_verdict \<Rightarrow> surface \<Rightarrow> surface_state \<Rightarrow> db \<Rightarrow> nat \<times> db" where
  "surface_state_statement i key lens e sel s st d = update_check_row i key lens
     (\<lambda>r. pr_detail r selected_key = Some (verdict_json sel) \<and>
          \<not> settled_text (text_of (pr_detail r (state_key s))) \<and>
          (st = SkippedForThisRun \<longrightarrow>
             (s = CheckSurface \<longrightarrow> pr_github_id r = None \<and> text_of (pr_detail r ''status'') \<noteq> Some ''starting'') \<and>
             \<not> has_own_verdict_surface_acceptance i s d) \<and>
          epoch_recorded d i e)
     (\<lambda>det. det(state_key s \<mapsto> JStr (surface_state_text st))) d"

definition surface_done :: "detail \<Rightarrow> surface \<Rightarrow> bool" where
  "surface_done det s \<longleftrightarrow> det (applied_key s) = Some (JBool True) \<or>
     text_of (det (state_key s)) = Some ''skipped-for-this-run''"

definition applied_fields :: "own_verdict \<Rightarrow> surface \<Rightarrow> string \<Rightarrow> fields" where
  "applied_fields sel s completed_at = (case s of
      CheckSurface \<Rightarrow> [(''ownCheckApplied'', JBool True), (''ownCheckState'', JStr ''applied''),
         (''conclusion'', JStr (conclusion_text (ov_conclusion sel))), (''completedAt'', JStr completed_at)] @
         (case ov_url sel of None \<Rightarrow> [] | Some u \<Rightarrow> [(''detailsUrl'', JStr u)])
    | StatusSurface \<Rightarrow> [(''ownStatusApplied'', JBool True), (''ownStatusState'', JStr ''applied'')])"

definition surface_applied_statement ::
  "item_id \<Rightarrow> string \<Rightarrow> string \<Rightarrow> int option \<Rightarrow> own_verdict \<Rightarrow> surface \<Rightarrow> string \<Rightarrow> db \<Rightarrow> nat \<times> db" where
  "surface_applied_statement i key lens e sel s completed_at d = update_check_row i key lens
     (\<lambda>r. pr_detail r selected_key = Some (verdict_json sel) \<and>
          (s = CheckSurface \<longrightarrow> pr_github_id r \<noteq> None) \<and>
          text_of (pr_detail r (state_key s)) \<noteq> Some ''skipped-for-this-run'' \<and> epoch_recorded d i e)
     (\<lambda>det. (det ++ map_of (applied_fields sel s completed_at))(''status'' \<mapsto> JStr
        (if (s = CheckSurface \<or> surface_done det CheckSurface) \<and>
            (\<not> own_verdict_status_applicable sel \<or> s = StatusSurface \<or> surface_done det StatusSurface)
         then ''completed'' else ''in_progress''))) d"

definition eligible_item :: "item_id \<Rightarrow> string \<Rightarrow> string \<Rightarrow> int option \<Rightarrow> db \<Rightarrow> bool" where
  "eligible_item i key lens e d = exists_where (\<lambda>w. w_id w = i \<and> w_type w = Review \<and> w_resource_key w = key \<and>
     w_review_lens w = Some lens \<and> (e \<noteq> None \<or> w_status w \<in> {Completed, Failed, Cancelled, Superseded})) (items d)"

definition select_verdict_statement ::
  "string \<Rightarrow> item_id \<Rightarrow> string \<Rightarrow> string \<Rightarrow> int option \<Rightarrow> own_verdict \<Rightarrow> db \<Rightarrow> publish_record option \<times> db" where
  "select_verdict_statement u i key lens e sel d =
     (if \<not> (eligible_item i key lens e d \<and> epoch_recorded d i e) then (None, d)
      else upsert_record \<lparr>pr_id = u, pr_work_item_id = i, pr_resource_key = key, pr_review_lens = lens,
             pr_step = CheckRunStep, pr_github_id = None, pr_status = RecordPending, pr_lease_epoch = e,
             pr_detail = map_of [(selected_key, verdict_json sel)], pr_updated_at = now d\<rparr>
           (\<lambda>old. pr_resource_key old = key \<and> selected_key \<notin> dom (pr_detail old) \<and>
              text_of (pr_detail old ''conclusion'') \<in> {None, Some []} \<and> epoch_recorded d i e)
           (\<lambda>old. old\<lparr>pr_detail := (pr_detail old)(selected_key \<mapsto> verdict_json sel), pr_updated_at := now d\<rparr>) d)"

definition enriched :: "own_verdict \<Rightarrow> own_status \<Rightarrow> own_verdict" where
  "enriched stored s = stored\<lparr>ov_status := Some (s\<lparr>os_state := (case ov_conclusion stored of
      VerdictFailure \<Rightarrow> StatusFailure | VerdictSuccess \<Rightarrow> StatusSuccess | _ \<Rightarrow> StatusError)\<rparr>)\<rparr>"

definition enrich_verdict_statement ::
  "item_id \<Rightarrow> string \<Rightarrow> string \<Rightarrow> int option \<Rightarrow> own_verdict \<Rightarrow> own_verdict \<Rightarrow> bool \<Rightarrow> db \<Rightarrow> nat \<times> db" where
  "enrich_verdict_statement i key lens e before sel reopen d = update_check_row i key lens
     (\<lambda>r. pr_detail r selected_key = Some (verdict_json before) \<and> epoch_recorded d i e)
     (\<lambda>det. det(selected_key \<mapsto> verdict_json sel) ++
        (if reopen then [''status'' \<mapsto> JStr ''in_progress''] else Map.empty)) d"

definition accept_saved_statement :: "item_id \<Rightarrow> int option \<Rightarrow> db \<Rightarrow> unit \<times> db" where
  "accept_saved_statement i e d = ((), d\<lparr>intents := update_where (\<lambda>r. oi_work_item_id r = i \<and>
       oi_mutation_kind r \<in> set (own_verdict_mutation_kinds CheckSurface @ own_verdict_mutation_kinds StatusSurface) \<and>
       result_key \<in> dom (oi_detail r) \<and> oi_status r \<noteq> Reconciled \<and> epoch_recorded d i e)
     (\<lambda>r. r\<lparr>oi_status := Reconciled\<rparr>) (intents d)\<rparr>)"

subsection \<open>The exported functions\<close>

definition record_own_verdict_surface_state ::
  "item_id \<Rightarrow> string \<Rightarrow> string \<Rightarrow> int option \<Rightarrow> own_verdict \<Rightarrow> surface \<Rightarrow> surface_state \<Rightarrow> ('g world, unit) prog" where
  "record_own_verdict_surface_state i key lens e sel s st =
     bindP (fenced_write (assert_held i) e True (\<lambda>_. False)
              (statement (surface_state_statement i key lens e sel s st))) (\<lambda>_. returnP ())"

definition receipt_rejected :: js_error where
  "receipt_rejected = AppError ''agent_work'' ''own_verdict_receipt_rejected'' []"

definition record_own_verdict_surface_applied ::
  "item_id \<Rightarrow> string \<Rightarrow> string \<Rightarrow> int option \<Rightarrow> own_verdict \<Rightarrow> surface \<Rightarrow> string \<Rightarrow> ('g world, unit) prog" where
  "record_own_verdict_surface_applied i key lens e sel s completed_at =
     bindP (fenced_write (assert_held i) e True (\<lambda>n. n = 0)
              (statement (surface_applied_statement i key lens e sel s completed_at)))
       (\<lambda>n. if n = 0 then throwP receipt_rejected else returnP ())"

definition max_safe_integer :: int where
  "max_safe_integer = 9007199254740991"

definition saved_start_query :: "item_id \<Rightarrow> db \<Rightarrow> json option" where
  "saved_start_query i d = (case newest_intent (select_where (\<lambda>r. oi_work_item_id r = i \<and>
        oi_mutation_kind r \<in> {''github.review_check_run'', ''github.pr_surface.startReviewCheck''} \<and>
        result_key \<in> dom (oi_detail r)) (intents d)) of
      None \<Rightarrow> None | Some r \<Rightarrow> oi_detail r result_key)"

definition reconcile_saved_own_verdict_acceptance ::
  "string \<Rightarrow> item_id \<Rightarrow> string \<Rightarrow> string \<Rightarrow> int option \<Rightarrow> ('g world, unit) prog" where
  "reconcile_saved_own_verdict_acceptance u i key lens e =
     thenP (fenced_write (assert_held i) e True (\<lambda>_. False) (statement (accept_saved_statement i e)))
       (bindP (on_db (readP (saved_start_query i))) (\<lambda>result.
          case Option.bind result (field ''id'') of
            Some (JNum n) \<Rightarrow>
              if n \<le> 0 \<or> max_safe_integer < n then returnP ()
              else bindP (on_db (readP (get_review_check_run_github_id i lens))) (\<lambda>known.
                if known \<noteq> None then returnP ()
                else record_review_check_run u i key lens (int_text n) e
                       [(''status'', JStr ''in_progress''),
                        (''htmlUrl'', case Option.bind result (field ''url'') of Some (JStr s) \<Rightarrow> JStr s | _ \<Rightarrow> JNull)])
          | _ \<Rightarrow> returnP ()))"

definition read_close_record ::
  "item_id \<Rightarrow> string \<Rightarrow> string \<Rightarrow> ('g world, close_record option) prog" where
  "read_close_record i key lens = bindP (on_db (readP (get_own_verdict_close_record i key lens))) liftE"

definition enrich_selected ::
  "item_id \<Rightarrow> string \<Rightarrow> string \<Rightarrow> int option \<Rightarrow> own_verdict \<Rightarrow> close_record option \<Rightarrow>
   ('g world, close_record option) prog" where
  "enrich_selected i key lens e wanted c =
     (case (c, ov_status wanted) of
        (Some r, Some s) \<Rightarrow> (case cl_selected r of
            None \<Rightarrow> returnP c
          | Some stored \<Rightarrow>
              if ov_status stored \<noteq> None then returnP c
              else let sel = enriched stored s in
                thenP (fenced_write (assert_held i) e False (\<lambda>_. False)
                    (statement (enrich_verdict_statement i key lens e stored sel
                       (own_verdict_status_applicable sel \<and> \<not> cl_status_applied r))))
                  (read_close_record i key lens))
      | _ \<Rightarrow> returnP c)"

definition claim_own_verdict ::
  "string \<Rightarrow> string \<Rightarrow> item_id \<Rightarrow> string \<Rightarrow> string \<Rightarrow> int option \<Rightarrow> own_verdict \<Rightarrow>
   ('g world, close_record option) prog" where
  "claim_own_verdict u1 u2 i key lens e wanted =
     fenced_write (assert_held i) e True (\<lambda>_. False)
       (bindP (on_db (readP (eligible_item i key lens e))) (\<lambda>ok.
          if \<not> ok then returnP None
          else thenP (reconcile_saved_own_verdict_acceptance u1 i key lens e)
            (bindP (read_close_record i key lens) (\<lambda>existing.
             bindP (if Option.bind existing cl_selected = None
                    then on_db (readP (has_legacy_own_verdict_completion i lens)) else returnP False) (\<lambda>legacy.
               if legacy then returnP None
               else thenP (fenced_write (assert_held i) e False (\<lambda>r. r = None)
                            (statement (select_verdict_statement u2 i key lens e wanted)))
                 (bindP (read_close_record i key lens) (enrich_selected i key lens e wanted)))))))"

subsection \<open>Stored verdicts are read back\<close>

lemma pick_text:
  "pick conclusion_text conclusions (Some (JStr (conclusion_text c))) = Some c"
  "pick state_text status_states (Some (JStr (state_text s))) = Some s"
  by (cases c; simp add: pick_def conclusions_def) (cases s; simp add: pick_def status_states_def)

lemma parse_status_json [simp]: "parse_status (status_json s) = Some s"
  by (simp add: parse_status_def status_json_def pick_text)

lemma parse_verdict_json [simp]: "parse_own_verdict (verdict_json v) = Some v"
  by (cases "ov_status v"; cases "ov_url v")
    (simp_all add: parse_own_verdict_def verdict_json_def optional_def pick_text)

lemma verdict_json_inject [simp]: "verdict_json v = verdict_json w \<longleftrightarrow> v = w"
  by (metis option.inject parse_verdict_json)

end
