(* ===== verification/Publish_Ledger.thy ===== *)
theory Publish_Ledger
  imports Own_Verdict
begin

text \<open>
  The contract of the publish records: the table refines a ledger, a map from slots to entries, on which
  each statement of \<^verbatim>\<open>Publish_Records\<close> and \<^verbatim>\<open>Own_Verdict\<close> is one step on one entry. The properties of the entries
  are then those of the ledger: who owns the progress comment, which batches have been published, who may
  create the summary.
\<close>

subsection \<open>The ledger\<close>

record ledger_entry =
  le_owner :: item_id
  le_resource :: string
  le_github :: "string option"
  le_status :: record_status
  le_epoch :: "int option"
  le_detail :: detail
  le_updated :: time

definition entry_of :: "publish_record \<Rightarrow> ledger_entry" where
  "entry_of r = \<lparr>le_owner = pr_work_item_id r, le_resource = pr_resource_key r, le_github = pr_github_id r,
     le_status = pr_status r, le_epoch = pr_lease_epoch r, le_detail = pr_detail r, le_updated = pr_updated_at r\<rparr>"

definition ledger :: "db \<Rightarrow> record_slot \<rightharpoonup> ledger_entry" where
  "ledger d k = map_option entry_of (row_at record_slot k (records d))"

datatype record_op =
    PublishOp string item_id string string publish_step "string option" "int option" fields
  | AskOp string item_id string publish_step "string option" "int option" fields
  | ClaimOp string item_id string string "int option"
  | TransferOp string item_id string string
  | ReserveOp string item_id string string "int option" fields
  | CheckOp string item_id string string string "int option" fields
  | ReleaseOp item_id string string "int option" "time option"
  | SelectOp string item_id string string "int option" own_verdict
  | EnrichOp item_id string string "int option" own_verdict own_status bool
  | StateOp item_id string string "int option" own_verdict surface surface_state
  | AppliedOp item_id string string "int option" own_verdict surface string

fun record_step :: "record_op \<Rightarrow> db \<Rightarrow> db" where
  "record_step (PublishOp u i key lens step gid e det) d = snd (shared_record_statement u i key lens step gid e det d)"
| "record_step (AskOp u i key step gid e det) d = snd (ask_record_statement u i key step gid e det d)"
| "record_step (ClaimOp u i key lens e) d = snd (claim_summary_statement u i key lens e d)"
| "record_step (TransferOp u i key lens) d = snd (transfer_progress_comment_ownership u i key lens d)"
| "record_step (ReserveOp u i key lens e det) d = snd (reserve_check_statement u i key lens e det d)"
| "record_step (CheckOp u i key lens gid e det) d = snd (check_run_statement u i key lens gid e det d)"
| "record_step (ReleaseOp i key lens e stale) d = snd (release_check_statement i key lens e stale d)"
| "record_step (SelectOp u i key lens e sel) d = snd (select_verdict_statement u i key lens e sel d)"
| "record_step (EnrichOp i key lens e old s reopen) d =
     snd (enrich_verdict_statement i key lens e old (enriched old s) reopen d)"
| "record_step (StateOp i key lens e sel s st) d = snd (surface_state_statement i key lens e sel s st d)"
| "record_step (AppliedOp i key lens e sel s at) d = snd (surface_applied_statement i key lens e sel s at d)"

fun op_slot :: "record_op \<Rightarrow> record_slot" where
  "op_slot (PublishOp u i key lens step gid e det) = SharedSlot key lens step"
| "op_slot (AskOp u i key step gid e det) = AskSlot i step"
| "op_slot (ClaimOp u i key lens e) = SharedSlot key lens SummaryCommentClaim"
| "op_slot (TransferOp u i key lens) = SharedSlot key lens ProgressComment"
| "op_slot (ReserveOp u i key lens e det) = CheckSlot i lens"
| "op_slot (CheckOp u i key lens gid e det) = CheckSlot i lens"
| "op_slot (ReleaseOp i key lens e stale) = CheckSlot i lens"
| "op_slot (SelectOp u i key lens e sel) = CheckSlot i lens"
| "op_slot (EnrichOp i key lens e old s reopen) = CheckSlot i lens"
| "op_slot (StateOp i key lens e sel s st) = CheckSlot i lens"
| "op_slot (AppliedOp i key lens e sel s at) = CheckSlot i lens"

text \<open>The calls that the types of the program allow.\<close>

fun typed_op :: "record_op \<Rightarrow> bool" where
  "typed_op (PublishOp u i key lens step gid e det) \<longleftrightarrow> lens \<noteq> ask_lens \<and> step \<noteq> CheckRunStep"
| "typed_op (AskOp u i key step gid e det) \<longleftrightarrow> step = AskReply"
| "typed_op (ClaimOp u i key lens e) \<longleftrightarrow> lens \<noteq> ask_lens"
| "typed_op (TransferOp u i key lens) \<longleftrightarrow> lens \<noteq> ask_lens"
| "typed_op (EnrichOp i key lens e old s reopen) \<longleftrightarrow> ov_status old = None"
| "typed_op (StateOp i key lens e sel s st) \<longleftrightarrow> st \<noteq> Applied"
| "typed_op _ \<longleftrightarrow> True"

text \<open>Whether the fence of the statement admits it.\<close>

fun op_live :: "db \<Rightarrow> record_op \<Rightarrow> bool" where
  "op_live d (PublishOp u i key lens step gid e det) = lease_fence_sql d i e"
| "op_live d (AskOp u i key step gid e det) = epoch_recorded d i e"
| "op_live d (ClaimOp u i key lens e) = epoch_recorded d i e"
| "op_live d (TransferOp u i key lens) = True"
| "op_live d (ReserveOp u i key lens e det) = epoch_recorded d i e"
| "op_live d (CheckOp u i key lens gid e det) = epoch_recorded d i e"
| "op_live d (ReleaseOp i key lens e stale) = epoch_recorded d i e"
| "op_live d (SelectOp u i key lens e sel) = (eligible_item i key lens e d \<and> epoch_recorded d i e)"
| "op_live d (EnrichOp i key lens e old s reopen) = epoch_recorded d i e"
| "op_live d (StateOp i key lens e sel s st) =
     (epoch_recorded d i e \<and> (st = SkippedForThisRun \<longrightarrow> \<not> has_own_verdict_surface_acceptance i s d))"
| "op_live d (AppliedOp i key lens e sel s at) = epoch_recorded d i e"

subsection \<open>The abstract step\<close>

definition reservable :: "string \<Rightarrow> ledger_entry \<Rightarrow> bool" where
  "reservable key x \<longleftrightarrow> le_resource x = key \<and> le_status x = RecordPending \<and> le_github x = None \<and>
     selected_key \<in> dom (le_detail x) \<and>
     text_of (le_detail x ''ownCheckState'') \<noteq> Some ''skipped-for-this-run'' \<and>
     text_of (le_detail x ''status'') \<noteq> Some ''starting''"

definition releasable :: "string \<Rightarrow> int option \<Rightarrow> time option \<Rightarrow> ledger_entry \<Rightarrow> bool" where
  "releasable key e stale x \<longleftrightarrow> le_resource x = key \<and> le_status x = RecordPending \<and> le_github x = None \<and>
     (let old = (case stale of None \<Rightarrow> False | Some t \<Rightarrow> le_updated x < t)
      in case e of None \<Rightarrow> stale = None \<or> old | Some n \<Rightarrow> le_epoch x = Some n \<or> old)"

fun new_entry :: "time \<Rightarrow> record_op \<Rightarrow> ledger_entry option" where
  "new_entry t (PublishOp u i key lens step gid e det) = Some \<lparr>le_owner = i, le_resource = key, le_github = gid,
     le_status = RecordCompleted, le_epoch = e, le_detail = map_of (wrapped_fields step det), le_updated = t\<rparr>"
| "new_entry t (AskOp u i key step gid e det) = Some \<lparr>le_owner = i, le_resource = key, le_github = gid,
     le_status = RecordCompleted, le_epoch = e, le_detail = map_of det, le_updated = t\<rparr>"
| "new_entry t (ClaimOp u i key lens e) = Some \<lparr>le_owner = i, le_resource = key, le_github = None,
     le_status = RecordCompleted, le_epoch = e, le_detail = map_of [], le_updated = t\<rparr>"
| "new_entry t (TransferOp u i key lens) = Some \<lparr>le_owner = i, le_resource = key, le_github = None,
     le_status = RecordPending, le_epoch = None, le_detail = map_of [(''progressGeneration'', JNum 0)], le_updated = t\<rparr>"
| "new_entry t (ReserveOp u i key lens e det) = Some \<lparr>le_owner = i, le_resource = key, le_github = None,
     le_status = RecordPending, le_epoch = e, le_detail = map_of det, le_updated = t\<rparr>"
| "new_entry t (CheckOp u i key lens gid e det) = Some \<lparr>le_owner = i, le_resource = key, le_github = Some gid,
     le_status = RecordCompleted, le_epoch = e, le_detail = map_of det, le_updated = t\<rparr>"
| "new_entry t (SelectOp u i key lens e sel) = Some \<lparr>le_owner = i, le_resource = key, le_github = None,
     le_status = RecordPending, le_epoch = e, le_detail = map_of [(selected_key, verdict_json sel)], le_updated = t\<rparr>"
| "new_entry t _ = None"

fun revised_entry :: "time \<Rightarrow> record_op \<Rightarrow> ledger_entry \<Rightarrow> ledger_entry option" where
  "revised_entry t (PublishOp u i key lens step gid e det) x =
     (if step = ProgressComment \<and> le_owner x \<noteq> i then Some x
      else Some (x\<lparr>le_owner := i, le_github := gid, le_status := RecordCompleted,
        le_epoch := coalesce_epoch e (le_epoch x),
        le_detail := merge_record_detail step (le_detail x) (map_of (wrapped_fields step det)), le_updated := t\<rparr>))"
| "revised_entry t (AskOp u i key step gid e det) x = Some (x\<lparr>le_resource := key, le_github := gid,
     le_status := RecordCompleted, le_epoch := coalesce_epoch e (le_epoch x), le_detail := map_of det, le_updated := t\<rparr>)"
| "revised_entry t (ClaimOp u i key lens e) x = Some x"
| "revised_entry t (TransferOp u i key lens) x =
     (if le_owner x = i then Some x
      else Some (x\<lparr>le_owner := i, le_status := RecordPending,
        le_detail := (le_detail x)(''progressGeneration'' \<mapsto> JNum (stored_generation (le_detail x) + 1),
          ''progressRevision'' := None), le_updated := t\<rparr>))"
| "revised_entry t (ReserveOp u i key lens e det) x =
     (if reservable key x
      then Some (x\<lparr>le_epoch := coalesce_epoch e (le_epoch x), le_detail := le_detail x ++ map_of det, le_updated := t\<rparr>)
      else Some x)"
| "revised_entry t (CheckOp u i key lens gid e det) x = Some (x\<lparr>le_resource := key, le_github := Some gid,
     le_status := RecordCompleted, le_epoch := coalesce_epoch e (le_epoch x),
     le_detail := le_detail x ++ map_of det, le_updated := t\<rparr>)"
| "revised_entry t (ReleaseOp i key lens e stale) x =
     (if \<not> releasable key e stale x then Some x
      else if selected_key \<notin> dom (le_detail x) then None
      else if text_of (le_detail x ''status'') = Some ''starting''
      then Some (x\<lparr>le_detail := without_keys start_keys (le_detail x), le_updated := t\<rparr>)
      else Some x)"
| "revised_entry t (SelectOp u i key lens e sel) x =
     (if le_resource x = key \<and> selected_key \<notin> dom (le_detail x) \<and>
         text_of (le_detail x ''conclusion'') \<in> {None, Some []}
      then Some (x\<lparr>le_detail := (le_detail x)(selected_key \<mapsto> verdict_json sel), le_updated := t\<rparr>)
      else Some x)"
| "revised_entry t (EnrichOp i key lens e old s reopen) x =
     (if le_resource x = key \<and> le_detail x selected_key = Some (verdict_json old)
      then Some (x\<lparr>le_detail := (le_detail x)(selected_key \<mapsto> verdict_json (enriched old s)) ++
        (if reopen then [''status'' \<mapsto> JStr ''in_progress''] else Map.empty), le_updated := t\<rparr>)
      else Some x)"
| "revised_entry t (StateOp i key lens e sel s st) x =
     (if le_resource x = key \<and> le_detail x selected_key = Some (verdict_json sel) \<and>
         \<not> settled_text (text_of (le_detail x (state_key s))) \<and>
         (st = SkippedForThisRun \<and> s = CheckSurface \<longrightarrow>
            le_github x = None \<and> text_of (le_detail x ''status'') \<noteq> Some ''starting'')
      then Some (x\<lparr>le_detail := (le_detail x)(state_key s \<mapsto> JStr (surface_state_text st)), le_updated := t\<rparr>)
      else Some x)"
| "revised_entry t (AppliedOp i key lens e sel s at) x =
     (if le_resource x = key \<and> le_detail x selected_key = Some (verdict_json sel) \<and>
         (s = CheckSurface \<longrightarrow> le_github x \<noteq> None) \<and>
         text_of (le_detail x (state_key s)) \<noteq> Some ''skipped-for-this-run''
      then Some (x\<lparr>le_detail := (le_detail x ++ map_of (applied_fields sel s at))(''status'' \<mapsto> JStr
          (if (s = CheckSurface \<or> surface_done (le_detail x) CheckSurface) \<and>
              (\<not> own_verdict_status_applicable sel \<or> s = StatusSurface \<or> surface_done (le_detail x) StatusSurface)
           then ''completed'' else ''in_progress'')), le_updated := t\<rparr>)
      else Some x)"

definition entry_step :: "bool \<Rightarrow> time \<Rightarrow> record_op \<Rightarrow> ledger_entry option \<Rightarrow> ledger_entry option" where
  "entry_step live t x e = (if \<not> live then e else case e of None \<Rightarrow> new_entry t x | Some y \<Rightarrow> revised_entry t x y)"

subsection \<open>Each statement is one step on one entry\<close>

lemma row_at_upsert:
  assumes "\<And>r. key r = key new \<Longrightarrow> key (upd r) = key r"
  shows "row_at key k (snd (upsert key new guard upd rows)) =
    (if k = key new
     then Some (case row_at key k rows of None \<Rightarrow> new | Some old \<Rightarrow> if guard old then upd old else old)
     else row_at key k rows)"
proof -
  obtain res rows' where up: "upsert key new guard upd rows = (res, rows')" by fastforce
  show ?thesis
  proof (cases "k = key new")
    case True
    from up show ?thesis
    proof (cases rule: upsert_cases)
      case Insert
      with True up show ?thesis by (simp add: row_at_append row_at_simps)
    next
      case (Update old)
      have "row_at key k rows' = map_option (\<lambda>r. if key r = key new then upd r else r) (row_at key k rows)"
        unfolding Update(4) using assms by (rule row_at_update_where)
      with Update True up show ?thesis by (auto dest: row_at_SomeD)
    next
      case (Reject old)
      with True up show ?thesis by simp
    qed
  next
    case False
    with row_at_upsert_other [OF up False] assms up show ?thesis by simp
  qed
qed

lemma ledger_upsert:
  assumes keep: "\<And>r. record_slot r = record_slot new \<Longrightarrow> record_slot (upd r) = record_slot new"
    and rev: "\<And>r. record_slot r = record_slot new \<Longrightarrow> entry_of (if guard r then upd r else r) = f (entry_of r)"
  shows "ledger (snd (upsert_record new guard upd d)) =
    (ledger d)(record_slot new \<mapsto> (case ledger d (record_slot new) of None \<Rightarrow> entry_of new | Some x \<Rightarrow> f x))"
proof
  fix k
  have "ledger (snd (upsert_record new guard upd d)) k =
      map_option entry_of (row_at record_slot k (snd (upsert record_slot new guard upd (records d))))"
    by (simp add: ledger_def upsert_record_def split: prod.splits)
  also have "\<dots> = ((ledger d)(record_slot new \<mapsto>
      (case ledger d (record_slot new) of None \<Rightarrow> entry_of new | Some x \<Rightarrow> f x))) k"
  proof (cases "row_at record_slot (record_slot new) (records d)")
    case None
    then show ?thesis using keep by (subst row_at_upsert) (auto simp: ledger_def)
  next
    case (Some r)
    then have "record_slot r = record_slot new" by (auto dest: row_at_SomeD)
    from rev [OF this] Some keep show ?thesis by (subst row_at_upsert) (auto simp: ledger_def)
  qed
  finally show "ledger (snd (upsert_record new guard upd d)) k =
      ((ledger d)(record_slot new \<mapsto> (case ledger d (record_slot new) of None \<Rightarrow> entry_of new | Some x \<Rightarrow> f x))) k" .
qed

lemma uniq_upsert_record:
  assumes "uniq record_slot (records d)"
    and "\<And>r. record_slot r = record_slot new \<Longrightarrow> record_slot (upd r) = record_slot r"
  shows "uniq record_slot (records (snd (upsert_record new guard upd d)))"
  using uniq_upsert [of record_slot "records d" new upd guard] assms
  by (auto simp: upsert_record_def split: prod.splits)

lemma records_upsert_fields [simp]:
  "leases (snd (upsert_record new guard upd d)) = leases d"
  "now (snd (upsert_record new guard upd d)) = now d"
  by (auto simp: upsert_record_def split: prod.splits)

lemmas statement_defs =
  shared_record_statement_def ask_record_statement_def claim_summary_statement_def
  transfer_progress_comment_ownership_def reserve_check_statement_def check_run_statement_def
  select_verdict_statement_def

lemma row_at_filter:
  assumes "uniq key rows"
  shows "row_at key k (filter Q rows) = (case row_at key k rows of None \<Rightarrow> None | Some r \<Rightarrow> if Q r then Some r else None)"
  using assms
proof (induction rows)
  case Nil
  then show ?case by (simp add: row_at_simps)
next
  case (Cons r rows)
  then have "uniq key rows" and new: "row_at key (key r) rows = None"
    by (auto simp: uniq_def row_at_None_iff image_iff)
  with Cons.IH show ?case by (auto simp: row_at_simps split: option.splits)
qed

lemma slot_release:
  assumes "uniq record_slot (records d)"
  shows "ledger (record_step (ReleaseOp i key lens e stale) d) =
    (ledger d)(CheckSlot i lens := entry_step (epoch_recorded d i e) (now d) (ReleaseOp i key lens e stale)
       (ledger d (CheckSlot i lens)))"
proof
  fix k
  define protected where "protected = (\<lambda>r. unstarted_check i key lens r \<and> selected_key \<in> dom (pr_detail r) \<and>
     text_of (pr_detail r ''status'') = Some ''starting'' \<and> release_eligible d i e stale r)"
  define strip where "strip = (\<lambda>r :: publish_record. r\<lparr>pr_detail := without_keys start_keys (pr_detail r), pr_updated_at := now d\<rparr>)"
  define ordinary where "ordinary = (\<lambda>r. unstarted_check i key lens r \<and> selected_key \<notin> dom (pr_detail r) \<and>
     release_eligible d i e stale r)"
  have slot: "record_slot (strip r) = record_slot r" for r by (simp add: strip_def record_slot_def)
  have "ledger (record_step (ReleaseOp i key lens e stale) d) k = map_option entry_of
      (row_at record_slot k (filter (\<lambda>r. \<not> ordinary r) (update_where protected strip (records d))))"
    by (simp add: ledger_def release_check_statement_def select_where_def protected_def strip_def ordinary_def Let_def)
  also have "\<dots> = (case row_at record_slot k (records d) of None \<Rightarrow> None
      | Some r \<Rightarrow> map_option entry_of
          (let r' = if protected r then strip r else r in if ordinary r' then None else Some r'))"
    using assms
    by (auto simp: row_at_filter uniq_update_where slot row_at_update_where Let_def split: option.splits)
  also have "\<dots> = ((ledger d)(CheckSlot i lens := entry_step (epoch_recorded d i e) (now d)
      (ReleaseOp i key lens e stale) (ledger d (CheckSlot i lens)))) k"
  proof (cases "row_at record_slot k (records d)")
    case None
    then show ?thesis by (cases "k = CheckSlot i lens") (simp_all add: ledger_def entry_step_def)
  next
    case (Some r)
    then have r: "record_slot r = k" by (auto dest: row_at_SomeD)
    have strip_status: "text_of (without_keys start_keys f ''status'') = None" for f
      by (simp add: without_keys_def start_keys_def text_of_def)
    have strip_selected: "selected_key \<in> dom (without_keys start_keys f) \<longleftrightarrow> selected_key \<in> dom f" for f
      by (auto simp: without_keys_def start_keys_def selected_key_def)
    show ?thesis
    proof (cases "k = CheckSlot i lens")
      case False
      with r have "\<not> unstarted_check i key lens r" by (auto simp: unstarted_check_def record_slot_def)
      with Some False show ?thesis by (simp add: ledger_def protected_def ordinary_def)
    next
      case True
      with r have shape: "pr_step r = CheckRunStep" "pr_work_item_id r = i" "pr_review_lens r = lens"
        by (auto simp: record_slot_def split: if_splits)
      have eligible: "release_eligible d i e stale r \<and> unstarted_check i key lens r \<longleftrightarrow>
          epoch_recorded d i e \<and> releasable key e stale (entry_of r)"
        using shape
        by (auto simp: release_eligible_def releasable_def entry_of_def unstarted_check_def Let_def epoch_recorded_def
            split: option.splits)
      show ?thesis
        using Some True shape eligible strip_selected [of "pr_detail r"]
        by (auto simp: ledger_def entry_step_def protected_def ordinary_def strip_def Let_def entry_of_def)
    qed
  qed
  finally show "ledger (record_step (ReleaseOp i key lens e stale) d) k =
      ((ledger d)(CheckSlot i lens := entry_step (epoch_recorded d i e) (now d)
        (ReleaseOp i key lens e stale) (ledger d (CheckSlot i lens)))) k" .
qed

lemma snd_gate: "snd (if \<not> b then (None, d) else m) = (if b then snd m else d)"
  by simp

lemma refine_upsert:
  assumes "record_slot new = slot" and "new_entry t x = Some (entry_of new)"
    and "\<And>r. record_slot r = slot \<Longrightarrow> record_slot (upd r) = slot"
    and "\<And>r. b \<Longrightarrow> record_slot r = slot \<Longrightarrow>
      revised_entry t x (entry_of r) = Some (entry_of (if guard r then upd r else r))"
  shows "ledger (if b then snd (upsert_record new guard upd d) else d) =
    (ledger d)(slot := entry_step b t x (ledger d slot))"
proof (cases b)
  case True
  have "ledger (snd (upsert_record new guard upd d)) = (ledger d)(record_slot new \<mapsto>
      (case ledger d (record_slot new) of None \<Rightarrow> entry_of new | Some e \<Rightarrow> the (revised_entry t x e)))"
    by (rule ledger_upsert) (use assms True in simp_all)
  moreover have "revised_entry t x e \<noteq> None" if "ledger d slot = Some e" for e
    using that assms(4) [OF True] by (force simp: ledger_def dest: row_at_SomeD)
  ultimately show ?thesis using assms(1,2) True
    by (auto simp: entry_step_def fun_eq_iff split: option.splits)
qed (simp add: entry_step_def)

lemmas refine_upsert_always = refine_upsert [where b = True, simplified if_True]

lemma slot_shapes:
  "record_slot r = SharedSlot key lens step \<longleftrightarrow> pr_resource_key r = key \<and> pr_review_lens r = lens \<and>
     pr_step r = step \<and> lens \<noteq> ask_lens \<and> step \<noteq> CheckRunStep"
  "record_slot r = AskSlot i step \<longleftrightarrow> pr_work_item_id r = i \<and> pr_review_lens r = ask_lens \<and>
     pr_step r = step \<and> step \<noteq> CheckRunStep"
  "record_slot r = CheckSlot i lens \<longleftrightarrow> pr_work_item_id r = i \<and> pr_review_lens r = lens \<and>
     pr_step r = CheckRunStep"
  by (auto simp: record_slot_def)

lemma refine_update:
  assumes "\<And>r. record_slot r = CheckSlot i lens \<Longrightarrow> new_entry t x = None \<and>
      entry_step b t x (Some (entry_of r)) =
        Some (entry_of (if pr_resource_key r = key \<and> p r
          then r\<lparr>pr_detail := f (pr_detail r), pr_updated_at := now d\<rparr> else r))"
    and "new_entry t x = None"
  shows "ledger (snd (update_check_row i key lens p f d)) =
    (ledger d)(CheckSlot i lens := entry_step b t x (ledger d (CheckSlot i lens)))"
proof
  fix k
  define upd where "upd = (\<lambda>r :: publish_record. r\<lparr>pr_detail := f (pr_detail r), pr_updated_at := now d\<rparr>)"
  have slot: "record_slot (upd r) = record_slot r" for r by (simp add: upd_def record_slot_def)
  have "ledger (snd (update_check_row i key lens p f d)) k = map_option entry_of
      (map_option (\<lambda>r. if check_row i key lens r \<and> p r then upd r else r) (row_at record_slot k (records d)))"
    by (simp add: ledger_def update_check_row_def row_at_update_where slot flip: upd_def)
  also have "\<dots> = ((ledger d)(CheckSlot i lens := entry_step b t x (ledger d (CheckSlot i lens)))) k"
  proof (cases "row_at record_slot k (records d)")
    case None
    then show ?thesis using assms(2)
      by (cases "k = CheckSlot i lens") (simp_all add: ledger_def entry_step_def)
  next
    case (Some r)
    then have r: "record_slot r = k" by (auto dest: row_at_SomeD)
    show ?thesis
    proof (cases "k = CheckSlot i lens")
      case True
      then have "check_row i key lens r \<longleftrightarrow> pr_resource_key r = key"
        using r by (auto simp: check_row_def step_row_def slot_shapes)
      with Some True assms(1) [of r] r show ?thesis by (simp add: ledger_def upd_def)
    next
      case False
      then have "\<not> check_row i key lens r" using r by (auto simp: check_row_def step_row_def record_slot_def)
      with Some False show ?thesis by (simp add: ledger_def)
    qed
  qed
  finally show "ledger (snd (update_check_row i key lens p f d)) k =
      ((ledger d)(CheckSlot i lens := entry_step b t x (ledger d (CheckSlot i lens)))) k" .
qed

lemma records_refine_step:
  assumes "uniq record_slot (records d)" and "typed_op x"
  shows "ledger (record_step x d) =
    (ledger d)(op_slot x := entry_step (op_live d x) (now d) x (ledger d (op_slot x)))"
proof (cases x)
  case (PublishOp u i key lens step gid e det)
  show ?thesis
    using assms(2) unfolding PublishOp record_step.simps statement_defs Let_def snd_gate op_live.simps
    by (intro refine_upsert) (auto simp: slot_shapes entry_of_def)
next
  case (AskOp u i key step gid e det)
  show ?thesis
    using assms(2) unfolding AskOp record_step.simps statement_defs Let_def snd_gate op_live.simps
    by (intro refine_upsert) (auto simp: slot_shapes entry_of_def)
next
  case (ClaimOp u i key lens e)
  show ?thesis
    using assms(2) unfolding ClaimOp record_step.simps statement_defs Let_def snd_gate op_live.simps
    by (intro refine_upsert) (auto simp: slot_shapes entry_of_def)
next
  case (TransferOp u i key lens)
  show ?thesis
    using assms(2) unfolding TransferOp record_step.simps statement_defs op_live.simps
    by (intro refine_upsert_always) (auto simp: slot_shapes entry_of_def)
next
  case (ReserveOp u i key lens e det)
  show ?thesis
    unfolding ReserveOp record_step.simps statement_defs Let_def snd_gate op_live.simps
    by (intro refine_upsert) (auto simp: slot_shapes entry_of_def reservable_def selected_key_def)
next
  case (CheckOp u i key lens gid e det)
  show ?thesis
    unfolding CheckOp record_step.simps statement_defs Let_def snd_gate op_live.simps
    by (intro refine_upsert) (auto simp: slot_shapes entry_of_def)
next
  case (ReleaseOp i key lens e stale)
  with assms(1) show ?thesis by (simp only: slot_release op_slot.simps op_live.simps)
next
  case (SelectOp u i key lens e sel)
  show ?thesis
    unfolding SelectOp record_step.simps statement_defs Let_def snd_gate op_live.simps
    by (intro refine_upsert) (auto simp: slot_shapes entry_of_def)
next
  case (EnrichOp i key lens e old s reopen)
  show ?thesis
    unfolding EnrichOp record_step.simps enrich_verdict_statement_def op_slot.simps
    by (rule refine_update) (auto simp: slot_shapes entry_of_def entry_step_def)
next
  case (StateOp i key lens e sel s st)
  show ?thesis
    unfolding StateOp record_step.simps surface_state_statement_def op_slot.simps
    by (rule refine_update) (auto simp: slot_shapes entry_of_def entry_step_def)
next
  case (AppliedOp i key lens e sel s at)
  show ?thesis
    unfolding AppliedOp record_step.simps surface_applied_statement_def op_slot.simps
    by (rule refine_update) (auto simp: slot_shapes entry_of_def entry_step_def)
qed

subsection \<open>Sequences of statements\<close>

datatype table_op = RecordStep record_op | LeaseStep lease_op | PassTime int

fun table_step :: "table_op \<Rightarrow> db \<Rightarrow> db" where
  "table_step (RecordStep x) d = record_step x d"
| "table_step (LeaseStep x) d = lease_step x d"
| "table_step (PassTime n) d = tick n d"

lemma lease_step_records: "records (lease_step x d) = records d"
  by (cases x) (auto simp: acquire_pr_actor_lease_def renew_pr_actor_lease_def
    release_pr_actor_lease_held_by_work_items_def release_pr_actor_lease_def Let_def
    split: prod.splits option.splits if_splits)

lemma ledger_cong: "records d' = records d \<Longrightarrow> ledger d' = ledger d"
  by (simp add: ledger_def fun_eq_iff)

lemma uniq_update_check_row:
  "uniq record_slot (records d) \<Longrightarrow> uniq record_slot (records (snd (update_check_row i key lens p f d)))"
  by (auto simp: update_check_row_def record_slot_def intro!: uniq_update_where)

lemma uniq_filter: "uniq key rows \<Longrightarrow> uniq key (filter Q rows)"
  by (induction rows) (auto simp: uniq_def)

lemma uniq_gate:
  assumes "uniq record_slot (records d)"
    and "\<And>r. record_slot r = record_slot new \<Longrightarrow> record_slot (upd r) = record_slot r"
  shows "uniq record_slot (records (if b then snd (upsert_record new guard upd d) else d))"
  using uniq_upsert_record [OF assms] assms(1) by simp

lemma uniq_record_step:
  assumes "uniq record_slot (records d)" and "typed_op x"
  shows "uniq record_slot (records (record_step x d))"
proof (cases x)
  case (TransferOp u i key lens)
  then show ?thesis using assms unfolding TransferOp record_step.simps statement_defs
    by (intro uniq_upsert_record) (auto simp: record_slot_def split: if_splits)
next
  case (ReleaseOp i key lens e stale)
  then show ?thesis using assms(1)
    by (auto simp: release_check_statement_def Let_def select_where_def record_slot_def
        intro!: uniq_filter uniq_update_where)
next
  case (EnrichOp i key lens e old s reopen)
  then show ?thesis using assms(1) by (simp add: enrich_verdict_statement_def uniq_update_check_row)
next
  case (StateOp i key lens e sel s st)
  then show ?thesis using assms(1) by (simp add: surface_state_statement_def uniq_update_check_row)
next
  case (AppliedOp i key lens e sel s at)
  then show ?thesis using assms(1) by (simp add: surface_applied_statement_def uniq_update_check_row)
next
  case (PublishOp u i key lens step gid e det)
  show ?thesis using assms unfolding PublishOp record_step.simps statement_defs Let_def snd_gate
    by (intro uniq_gate) (auto simp: record_slot_def split: if_splits)
next
  case (AskOp u i key step gid e det)
  show ?thesis using assms unfolding AskOp record_step.simps statement_defs Let_def snd_gate
    by (intro uniq_gate) (auto simp: record_slot_def split: if_splits)
next
  case (ClaimOp u i key lens e)
  show ?thesis using assms unfolding ClaimOp record_step.simps statement_defs Let_def snd_gate
    by (intro uniq_gate) (auto simp: record_slot_def split: if_splits)
next
  case (ReserveOp u i key lens e det)
  show ?thesis using assms unfolding ReserveOp record_step.simps statement_defs Let_def snd_gate
    by (intro uniq_gate) (auto simp: record_slot_def split: if_splits)
next
  case (CheckOp u i key lens gid e det)
  show ?thesis using assms unfolding CheckOp record_step.simps statement_defs Let_def snd_gate
    by (intro uniq_gate) (auto simp: record_slot_def split: if_splits)
next
  case (SelectOp u i key lens e sel)
  show ?thesis using assms unfolding SelectOp record_step.simps statement_defs Let_def snd_gate
    by (intro uniq_gate) (auto simp: record_slot_def split: if_splits)
qed

text \<open>
  A relation between the entry of a slot before and after. What every abstract step establishes holds
  between the first and the last state of any sequence of statements, lease operations and waiting.
\<close>

definition allowed :: "(record_op \<Rightarrow> bool) \<Rightarrow> table_op \<Rightarrow> bool" where
  "allowed ok x = (case x of RecordStep y \<Rightarrow> typed_op y \<and> ok y | _ \<Rightarrow> True)"

locale ledger_relation =
  fixes rel :: "record_slot \<Rightarrow> ledger_entry option \<Rightarrow> ledger_entry option \<Rightarrow> bool"
    and ok :: "record_op \<Rightarrow> bool"
  assumes rel_refl: "rel k e e"
    and rel_trans: "rel k a b \<Longrightarrow> rel k b c \<Longrightarrow> rel k a c"
    and rel_step: "typed_op x \<Longrightarrow> ok x \<Longrightarrow> rel (op_slot x) e (entry_step live t x e)"
begin

lemma rel_table_step:
  assumes "uniq record_slot (records d)" and "allowed ok x"
  shows "rel k (ledger d k) (ledger (table_step x d) k)"
proof (cases x)
  case (RecordStep y)
  with assms have y: "typed_op y" "ok y" by (simp_all add: allowed_def)
  from records_refine_step [OF assms(1) y(1)] rel_refl rel_step [OF y]
  show ?thesis unfolding RecordStep table_step.simps by (metis fun_upd_apply)
next
  case (LeaseStep y)
  then show ?thesis by (simp add: ledger_cong [OF lease_step_records] rel_refl)
next
  case (PassTime n)
  then show ?thesis by (simp add: ledger_cong [of "tick n d" d] rel_refl)
qed

lemma uniq_table_step:
  "uniq record_slot (records d) \<Longrightarrow> allowed ok x \<Longrightarrow> uniq record_slot (records (table_step x d))"
  by (cases x) (auto simp: allowed_def uniq_record_step lease_step_records)

lemma uniq_run:
  "uniq record_slot (records d) \<Longrightarrow> list_all (allowed ok) xs \<Longrightarrow>
     uniq record_slot (records (fold table_step xs d))"
  by (induction xs arbitrary: d) (auto intro: uniq_table_step)

lemma rel_run:
  "uniq record_slot (records d) \<Longrightarrow> list_all (allowed ok) xs \<Longrightarrow>
     rel k (ledger d k) (ledger (fold table_step xs d) k)"
proof (induction xs arbitrary: d)
  case Nil
  then show ?case by (simp add: rel_refl)
next
  case (Cons x xs)
  then have "rel k (ledger d k) (ledger (table_step x d) k)" by (simp add: rel_table_step)
  moreover have "rel k (ledger (table_step x d) k) (ledger (fold table_step xs (table_step x d)) k)"
    using Cons by (simp add: uniq_table_step)
  ultimately show ?case by (auto intro: rel_trans)
qed

end

subsection \<open>The owner of the progress comment\<close>

definition generation :: "ledger_entry \<Rightarrow> int" where
  "generation x = stored_generation (le_detail x)"

definition ownership_advances :: "record_slot \<Rightarrow> ledger_entry option \<Rightarrow> ledger_entry option \<Rightarrow> bool" where
  "ownership_advances k e e' = (case (k, e) of
      (SharedSlot _ _ ProgressComment, Some x) \<Rightarrow> (case e' of
          None \<Rightarrow> False
        | Some y \<Rightarrow> generation x < generation y \<or> generation x = generation y \<and> le_owner x = le_owner y)
    | _ \<Rightarrow> True)"

text \<open>The details that the program records on the progress comment never name its generation.\<close>

fun keeps_generation :: "record_op \<Rightarrow> bool" where
  "keeps_generation (PublishOp u i key lens step gid e det) \<longleftrightarrow>
     step = ProgressComment \<longrightarrow> map_of det ''progressGeneration'' = None"
| "keeps_generation _ \<longleftrightarrow> True"

lemma progress_detail:
  "merge_record_detail ProgressComment old new = old ++ new" "wrapped_fields ProgressComment det = det"
  by (auto simp: merge_record_detail_def wrapped_fields_def split: option.splits json.splits)

interpretation progress: ledger_relation ownership_advances keeps_generation
proof
  show "ownership_advances k e e" for k e
    by (auto simp: ownership_advances_def split: option.splits record_slot.splits publish_step.splits)
next
  show "ownership_advances k a b \<Longrightarrow> ownership_advances k b c \<Longrightarrow> ownership_advances k a c" for k a b c
    by (auto simp: ownership_advances_def split: option.splits record_slot.splits publish_step.splits)
next
  show "ownership_advances (op_slot x) e (entry_step live t x e)" if "typed_op x" "keeps_generation x" for x e live t
  proof (cases e)
    case (Some y)
    show ?thesis
    proof (cases x)
      case (PublishOp u i key lens step gid ep det)
      with Some that show ?thesis
        by (cases "step = ProgressComment")
          (auto simp: ownership_advances_def entry_step_def generation_def progress_detail stored_generation_def
            map_add_def split: publish_step.splits)
    next
      case (TransferOp u i key lens)
      with Some show ?thesis
        by (auto simp: ownership_advances_def entry_step_def generation_def stored_generation_def)
    qed (simp_all add: ownership_advances_def)
  qed (auto simp: ownership_advances_def split: record_slot.splits publish_step.splits)
qed

subsection \<open>Published batches\<close>

definition batches_of :: "ledger_entry option \<Rightarrow> json list" where
  "batches_of e = (case e of None \<Rightarrow> [] | Some x \<Rightarrow>
     (case le_detail x ''batches'' of Some (JArr bs) \<Rightarrow> bs | _ \<Rightarrow> []))"

definition batches_ok :: "ledger_entry option \<Rightarrow> bool" where
  "batches_ok e = (case e of None \<Rightarrow> True | Some x \<Rightarrow>
     (case le_detail x ''batches'' of
        Some (JArr bs) \<Rightarrow> list_all (\<lambda>b. is_text (field ''batchId'' b)) bs \<and> distinct (map (field ''batchId'') bs)
      | _ \<Rightarrow> False))"

definition batches_grow :: "record_slot \<Rightarrow> ledger_entry option \<Rightarrow> ledger_entry option \<Rightarrow> bool" where
  "batches_grow k e e' = (case k of
      SharedSlot _ _ InlineReview \<Rightarrow>
        if batches_ok e then batches_ok e' \<and> prefix (batches_of e) (batches_of e') else True
    | _ \<Rightarrow> True)"

fun named_batch :: "record_op \<Rightarrow> bool" where
  "named_batch (PublishOp u i key lens step gid e det) \<longleftrightarrow> step = InlineReview \<longrightarrow> is_text (map_of det ''batchId'')"
| "named_batch _ \<longleftrightarrow> True"

lemma is_text_iff: "is_text v \<longleftrightarrow> (\<exists>s. v = Some (JStr s))"
  by (auto simp: is_text_def split: option.splits json.splits)

lemma merge_named_batch:
  assumes "is_text (map_of det ''batchId'')" and "old ''batches'' = Some (JArr bs)"
  shows "merge_record_detail InlineReview old (map_of (wrapped_fields InlineReview det)) =
    old(''batches'' \<mapsto> JArr (if map_of det ''batchId'' \<in> field ''batchId'' ` set bs then bs else bs @ [JObj det]))"
  using assms
  by (auto simp: merge_record_detail_def wrapped_fields_def is_text_iff stored_batches_def has_batch_def
      first_batch_id_def text_of_def list_ex_iff elements_def image_iff)

lemma batches_after_publish:
  assumes "is_text (map_of det ''batchId'')" and "batches_ok (Some x)"
  shows "batches_ok (revised_entry t (PublishOp u i key lens InlineReview gid e det) x)"
    and "prefix (batches_of (Some x)) (batches_of (revised_entry t (PublishOp u i key lens InlineReview gid e det) x))"
proof -
  obtain bs where bs: "le_detail x ''batches'' = Some (JArr bs)"
    using assms(2) by (auto simp: batches_ok_def split: option.splits json.splits)
  note merged = merge_named_batch [of det "le_detail x", OF assms(1) bs]
  show "batches_ok (revised_entry t (PublishOp u i key lens InlineReview gid e det) x)"
    using assms bs by (auto simp: batches_ok_def merged list_all_iff)
  show "prefix (batches_of (Some x)) (batches_of (revised_entry t (PublishOp u i key lens InlineReview gid e det) x))"
    using bs by (simp add: batches_of_def merged)
qed

interpretation batches: ledger_relation batches_grow named_batch
proof
  show "batches_grow k e e" for k e
    by (auto simp: batches_grow_def split: record_slot.splits publish_step.splits)
next
  show "batches_grow k a b \<Longrightarrow> batches_grow k b c \<Longrightarrow> batches_grow k a c" for k a b c
    by (auto simp: batches_grow_def split: record_slot.splits publish_step.splits if_splits
        intro: prefix_order.trans)
next
  show "batches_grow (op_slot x) e (entry_step live t x e)" if "typed_op x" "named_batch x" for x e live t
  proof (cases x)
    case (PublishOp u i key lens step gid ep det)
    show ?thesis
    proof (cases "live \<and> step = InlineReview")
      case True
      with that PublishOp have named: "is_text (map_of det ''batchId'')" by simp
      show ?thesis
      proof (cases e)
        case None
        with True PublishOp named show ?thesis
          by (simp add: batches_grow_def entry_step_def batches_ok_def batches_of_def wrapped_fields_def)
      next
        case (Some y)
        with True PublishOp batches_after_publish [OF named, of y] show ?thesis
          by (simp only: batches_grow_def entry_step_def op_slot.simps record_slot.case publish_step.case
              option.case not_True_eq_False if_False if_split) simp
      qed
    next
      case False
      with PublishOp show ?thesis
        by (auto simp: batches_grow_def entry_step_def split: publish_step.splits)
    qed
  qed (simp_all add: batches_grow_def)
qed

subsection \<open>The right to create the summary\<close>

definition claim_stays :: "record_slot \<Rightarrow> ledger_entry option \<Rightarrow> ledger_entry option \<Rightarrow> bool" where
  "claim_stays k e e' = (case k of SharedSlot _ _ SummaryCommentClaim \<Rightarrow> e \<noteq> None \<longrightarrow> e' \<noteq> None | _ \<Rightarrow> True)"

interpretation claims: ledger_relation claim_stays "\<lambda>_. True"
proof
  show "claim_stays (op_slot x) e (entry_step live t x e)" for x e live t
    by (cases x) (auto simp: claim_stays_def entry_step_def split: publish_step.splits)
qed (auto simp: claim_stays_def split: record_slot.splits publish_step.splits)

subsection \<open>The selected verdict\<close>

definition selected_of :: "ledger_entry \<Rightarrow> own_verdict option" where
  "selected_of x = Option.bind (le_detail x selected_key) parse_own_verdict"

definition verdict_refines :: "own_verdict \<Rightarrow> own_verdict \<Rightarrow> bool" where
  "verdict_refines v v' \<longleftrightarrow> v' = v \<or>
     ov_status v = None \<and> (case ov_status v' of None \<Rightarrow> False | Some s \<Rightarrow> v' = enriched v s)"

definition surface_settled :: "ledger_entry \<Rightarrow> surface \<Rightarrow> string option" where
  "surface_settled x s =
     (let t = text_of (le_detail x (state_key s)) in if settled_text t then t else None)"

definition settlement_kept :: "ledger_entry \<Rightarrow> ledger_entry \<Rightarrow> bool" where
  "settlement_kept x y \<longleftrightarrow>
     list_all (\<lambda>s. surface_settled x s = None \<or> surface_settled y s = surface_settled x s) [CheckSurface, StatusSurface]"

definition verdict_stays :: "record_slot \<Rightarrow> ledger_entry option \<Rightarrow> ledger_entry option \<Rightarrow> bool" where
  "verdict_stays k e e' = (case (k, e) of
      (CheckSlot _ _, Some x) \<Rightarrow> (case (selected_of x, e') of
          (None, _) \<Rightarrow> True
        | (Some v, None) \<Rightarrow> False
        | (Some v, Some y) \<Rightarrow> (case selected_of y of
              None \<Rightarrow> False
            | Some v' \<Rightarrow> verdict_refines v v' \<and> settlement_kept x y))
    | _ \<Rightarrow> True)"

text \<open>The details that the program records on a check run never name the verdict or a surface state.\<close>

definition verdict_keys :: "string list" where
  "verdict_keys = [selected_key, ''ownCheckState'', ''ownStatusState'']"

definition spares_verdict :: "fields \<Rightarrow> bool" where
  "spares_verdict det \<longleftrightarrow> list_all (\<lambda>k. map_of det k = None) verdict_keys"

fun keeps_verdict :: "record_op \<Rightarrow> bool" where
  "keeps_verdict (ReserveOp u i key lens e det) \<longleftrightarrow> spares_verdict det"
| "keeps_verdict (CheckOp u i key lens gid e det) \<longleftrightarrow> spares_verdict det"
| "keeps_verdict _ \<longleftrightarrow> True"

lemma enriched_again: "ov_status (enriched v s) = Some s' \<Longrightarrow> enriched v s' = enriched v s"
  by (auto simp: enriched_def)

lemma verdict_refines_trans: "verdict_refines u v \<Longrightarrow> verdict_refines v w \<Longrightarrow> verdict_refines u w"
  by (auto simp: verdict_refines_def split: option.splits)

lemma verdict_refines_enriched: "ov_status v = None \<Longrightarrow> verdict_refines v (enriched v s)"
  by (simp add: verdict_refines_def enriched_def)

lemma settlement_kept_trans: "settlement_kept x y \<Longrightarrow> settlement_kept y z \<Longrightarrow> settlement_kept x z"
  by (auto simp: settlement_kept_def)

lemma settlement_kept_refl [simp]: "settlement_kept x x"
  by (simp add: settlement_kept_def)

lemma settlement_kept_same:
  "(\<And>s. le_detail y (state_key s) = le_detail x (state_key s)) \<Longrightarrow> settlement_kept x y"
  by (simp add: settlement_kept_def surface_settled_def)

lemma state_key_inject [simp]: "state_key s = state_key s' \<longleftrightarrow> s = s'"
  by (cases s; cases s') auto

lemma verdict_key_facts [simp]:
  "state_key s \<noteq> selected_key" "selected_key \<noteq> state_key s" "state_key s \<notin> set start_keys"
  "selected_key \<notin> set start_keys" "selected_key \<noteq> ''status''" "state_key s \<noteq> ''status''"
  by (cases s; simp add: selected_key_def start_keys_def)+

lemma spared_keys:
  assumes "spares_verdict det"
  shows "(old ++ map_of det) selected_key = old selected_key" "(old ++ map_of det) (state_key s) = old (state_key s)"
  using assms by (cases s; auto simp: spares_verdict_def verdict_keys_def map_add_def)+

lemma applied_keys:
  "(old ++ map_of (applied_fields sel s at)) selected_key = old selected_key"
  "(old ++ map_of (applied_fields sel s at)) (state_key s') =
     (if s' = s then Some (JStr ''applied'') else old (state_key s'))"
  by (cases s; cases s'; auto simp: applied_fields_def map_add_def selected_key_def split: option.splits)+

lemma verdict_stays_iff:
  "verdict_stays (CheckSlot i lens) (Some x) e' \<longleftrightarrow> (\<forall>v. selected_of x = Some v \<longrightarrow>
     (\<exists>y v'. e' = Some y \<and> selected_of y = Some v' \<and> verdict_refines v v' \<and> settlement_kept x y))"
  by (cases "selected_of x") (auto simp: verdict_stays_def split: option.splits)

lemmas verdict_stays_check = verdict_stays_iff [THEN iffD2, rule_format]

lemma verdict_stays_trans:
  assumes "verdict_stays k a b" and "verdict_stays k b c"
  shows "verdict_stays k a c"
proof (cases a)
  case (Some x)
  show ?thesis
  proof (cases k)
    case (CheckSlot i lens)
    show ?thesis unfolding Some CheckSlot verdict_stays_iff
    proof (intro allI impI)
      fix v
      assume "selected_of x = Some v"
      with assms(1) obtain y v' where y: "b = Some y" "selected_of y = Some v'" "verdict_refines v v'" "settlement_kept x y"
        unfolding Some CheckSlot verdict_stays_iff by blast
      with assms(2) obtain z w where "c = Some z" "selected_of z = Some w" "verdict_refines v' w" "settlement_kept y z"
        unfolding CheckSlot y(1) verdict_stays_iff by blast
      with y show "\<exists>z w. c = Some z \<and> selected_of z = Some w \<and> verdict_refines v w \<and> settlement_kept x z"
        by (blast intro: verdict_refines_trans settlement_kept_trans)
    qed
  qed (simp_all add: verdict_stays_def)
qed (simp add: verdict_stays_def split: record_slot.splits)

lemma verdict_refines_refl [simp]: "verdict_refines v v"
  by (simp add: verdict_refines_def)

lemma verdict_stays_same:
  assumes "e' = Some y" and "le_detail y selected_key = le_detail x selected_key"
    and "\<And>s. le_detail y (state_key s) = le_detail x (state_key s)"
  shows "verdict_stays (CheckSlot i lens) (Some x) e'"
  using assms settlement_kept_same [of y x] by (intro verdict_stays_check) (simp add: selected_of_def)

lemma selected_present: "selected_of x = Some v \<Longrightarrow> selected_key \<in> dom (le_detail x)"
  by (auto simp: selected_of_def bind_eq_Some_conv)

lemma settlement_kept_applied:
  assumes "text_of (le_detail x (state_key s)) \<noteq> Some ''skipped-for-this-run''"
    and "le_detail y (state_key s) = Some (JStr ''applied'')"
    and "\<And>s'. s' \<noteq> s \<Longrightarrow> le_detail y (state_key s') = le_detail x (state_key s')"
  shows "settlement_kept x y"
  using assms(1,2) assms(3) [of CheckSurface] assms(3) [of StatusSurface]
  by (cases s) (auto simp: settlement_kept_def surface_settled_def settled_text_def text_of_def Let_def)

lemma settlement_kept_unsettled:
  assumes "\<not> settled_text (text_of (le_detail x (state_key s)))"
    and "\<And>s'. s' \<noteq> s \<Longrightarrow> le_detail y (state_key s') = le_detail x (state_key s')"
  shows "settlement_kept x y"
  using assms(1) assms(2) [of CheckSurface] assms(2) [of StatusSurface]
  by (cases s) (auto simp: settlement_kept_def surface_settled_def Let_def)

lemma verdict_stays_step:
  assumes "typed_op x" and "keeps_verdict x" and slot: "op_slot x = CheckSlot i lens"
  shows "verdict_stays (CheckSlot i lens) (Some y) (revised_entry t x y)"
proof (cases x)
  case (ReserveOp u i key lens e det)
  with assms show ?thesis by (auto intro!: verdict_stays_same simp: spared_keys)
next
  case (CheckOp u i key lens gid e det)
  with assms show ?thesis by (auto intro!: verdict_stays_same simp: spared_keys)
next
  case (ReleaseOp i key lens e stale)
  show ?thesis
  proof (rule verdict_stays_check)
    fix v
    assume v: "selected_of y = Some v"
    define z where "z = (if releasable key e stale y \<and> text_of (le_detail y ''status'') = Some ''starting''
      then y\<lparr>le_detail := without_keys start_keys (le_detail y), le_updated := t\<rparr> else y)"
    have "revised_entry t x y = Some z" "selected_of z = Some v" "settlement_kept y z"
      using ReleaseOp v selected_present [OF v]
      by (auto simp: z_def selected_of_def without_keys_def intro: settlement_kept_same)
    then show "\<exists>z v'. revised_entry t x y = Some z \<and> selected_of z = Some v' \<and>
      verdict_refines v v' \<and> settlement_kept y z" by auto
  qed
next
  case (SelectOp u i key lens e sel)
  show ?thesis
  proof (rule verdict_stays_check)
    fix v
    assume v: "selected_of y = Some v"
    with SelectOp selected_present [OF v] show "\<exists>z v'. revised_entry t x y = Some z \<and> selected_of z = Some v' \<and>
      verdict_refines v v' \<and> settlement_kept y z" by auto
  qed
next
  case (EnrichOp i key lens e old s reopen)
  show ?thesis
  proof (cases "le_resource y = key \<and> le_detail y selected_key = Some (verdict_json old)")
    case True
    define z where "z = y\<lparr>le_detail := (le_detail y)(selected_key \<mapsto> verdict_json (enriched old s)) ++
        (if reopen then [''status'' \<mapsto> JStr ''in_progress''] else Map.empty), le_updated := t\<rparr>"
    have "selected_of y = Some old" "selected_of z = Some (enriched old s)"
      using True by (auto simp: z_def selected_of_def map_add_def)
    moreover have "settlement_kept y z" by (rule settlement_kept_same) (auto simp: z_def map_add_def)
    moreover have "revised_entry t x y = Some z" using True EnrichOp by (simp add: z_def)
    ultimately show ?thesis using EnrichOp assms(1) verdict_refines_enriched [of old s]
      by (intro verdict_stays_check) auto
  qed (use EnrichOp in \<open>auto intro!: verdict_stays_same\<close>)
next
  case (StateOp i key lens e sel s st)
  show ?thesis
  proof (rule verdict_stays_check)
    fix v
    assume v: "selected_of y = Some v"
    obtain z where z: "revised_entry t x y = Some z"
      using StateOp by (cases "revised_entry t x y") (auto split: if_splits)
    then have "selected_of z = Some v" "settlement_kept y z"
      using StateOp v settlement_kept_unsettled [of y s z]
      by (auto simp: selected_of_def split: if_splits)
    with z show "\<exists>z v'. revised_entry t x y = Some z \<and> selected_of z = Some v' \<and>
      verdict_refines v v' \<and> settlement_kept y z" by auto
  qed
next
  case (AppliedOp i key lens e sel s at)
  show ?thesis
  proof (cases "revised_entry t x y = Some y")
    case False
    then obtain w where w: "revised_entry t x y =
        Some (y\<lparr>le_detail := (le_detail y ++ map_of (applied_fields sel s at))(''status'' \<mapsto> w), le_updated := t\<rparr>)"
      and skipped: "text_of (le_detail y (state_key s)) \<noteq> Some ''skipped-for-this-run''"
      unfolding AppliedOp by (auto split: if_splits simp del: state_key.simps)
    define z where "z = y\<lparr>le_detail := (le_detail y ++ map_of (applied_fields sel s at))(''status'' \<mapsto> w), le_updated := t\<rparr>"
    have z: "le_detail z selected_key = le_detail y selected_key"
      "\<And>s'. le_detail z (state_key s') = (if s' = s then Some (JStr ''applied'') else le_detail y (state_key s'))"
      by (simp_all add: z_def applied_keys)
    then have "settlement_kept y z" by (intro settlement_kept_applied [OF skipped]) auto
    with z w show ?thesis by (intro verdict_stays_check) (simp add: selected_of_def flip: z_def)
  qed (simp add: verdict_stays_same [of _ y])
qed (use slot in simp_all)

interpretation verdicts: ledger_relation verdict_stays keeps_verdict
proof
  show "verdict_stays k e e" for k e
    by (auto simp: verdict_stays_def split: option.splits record_slot.splits)
next
  show "verdict_stays k a c" if "verdict_stays k a b" "verdict_stays k b c" for k a b c
    using that by (rule verdict_stays_trans)
next
  show "verdict_stays (op_slot x) e (entry_step live t x e)" if "typed_op x" "keeps_verdict x" for x e live t
  proof (cases "op_slot x")
    case (CheckSlot i lens)
    show ?thesis
    proof (cases e)
      case (Some y)
      show ?thesis
      proof (cases live)
        case True
        with verdict_stays_step [OF that CheckSlot, of y t] show ?thesis by (simp add: Some CheckSlot entry_step_def)
      next
        case False
        then show ?thesis by (auto simp: Some CheckSlot entry_step_def intro!: verdict_stays_same)
      qed
    qed (simp add: verdict_stays_def split: record_slot.splits)
  qed (simp_all add: verdict_stays_def)
qed

subsection \<open>Properties\<close>

text \<open>C23. The table of publish records refines the ledger: every statement that the program sends
  changes the entry of its own slot by the abstract step and leaves every other entry alone, and the unique
  indexes stay unique.\<close>

theorem records_refine_ledger:
  assumes "uniq record_slot (records d)" and "typed_op x"
  shows "ledger (record_step x d) =
      (ledger d)(op_slot x := entry_step (op_live d x) (now d) x (ledger d (op_slot x))) \<and>
    uniq record_slot (records (record_step x d))"
  using assms by (simp add: records_refine_step uniq_record_step)

definition sample_batch :: "string \<Rightarrow> record_op" where
  "sample_batch b = PublishOp ''u'' ''w'' ''r/1'' ''review'' InlineReview (Some ''7'') None [(''batchId'', JStr b)]"

lemma sample_table [simp]: "records (sample_db ws ls) = []" "leases (sample_db ws ls) = ls" "now (sample_db ws ls) = 100"
  by (simp_all add: sample_db_def)

lemma empty_table: "records d = [] \<Longrightarrow> uniq record_slot (records d) \<and> ledger d k = None"
  by (simp add: uniq_def ledger_def row_at_simps)

theorem records_refine_ledger_witness:
  "ledger (record_step (sample_batch ''b'') (sample_db [] [])) (SharedSlot ''r/1'' ''review'' InlineReview) \<noteq> None"
proof -
  have "typed_op (sample_batch ''b'')" by (simp add: sample_batch_def ask_lens_def)
  from records_refine_ledger [OF conjunct1 [OF empty_table] this, of "sample_db [] []"]
  show ?thesis
    using empty_table [of "sample_db [] []"]
    by (simp add: sample_batch_def entry_step_def lease_fence_sql_def)
qed

text \<open>C24. A published batch is never lost and never repeated: over any sequence of record statements, lease
  operations and waiting that starts from an empty table, the batches of a review slot only grow at their
  end, and their batch identities are distinct.\<close>

theorem published_batches_kept:
  assumes "list_all (allowed named_batch) (xs @ ys)" and "records d = []"
  shows "let k = SharedSlot key lens InlineReview;
             before = batches_of (ledger (fold table_step xs d) k);
             after = batches_of (ledger (fold table_step (xs @ ys) d) k)
         in prefix before after \<and> distinct (map (field ''batchId'') after)"
proof -
  let ?k = "SharedSlot key lens InlineReview" and ?d = "fold table_step xs d"
  from assms have ok: "list_all (allowed named_batch) xs" "list_all (allowed named_batch) ys"
    "uniq record_slot (records d)" and none: "ledger d ?k = None"
    using empty_table by (auto simp: uniq_def)
  from batches.rel_run [OF ok(3,1), of ?k] none have first: "batches_ok (ledger ?d ?k)"
    by (simp add: batches_grow_def batches_ok_def split: if_splits)
  from batches.rel_run [OF batches.uniq_run [OF ok(3,1)] ok(2), of ?k] first
  have "batches_ok (ledger (fold table_step ys ?d) ?k) \<and>
      prefix (batches_of (ledger ?d ?k)) (batches_of (ledger (fold table_step ys ?d) ?k))"
    by (simp add: batches_grow_def)
  then show ?thesis
    by (auto simp: Let_def batches_ok_def batches_of_def split: option.splits json.splits)
qed

theorem published_batches_kept_witness:
  "prefix (batches_of (ledger (fold table_step [RecordStep (sample_batch ''b'')] (sample_db [] []))
       (SharedSlot ''r/1'' ''review'' InlineReview)))
     (batches_of (ledger (fold table_step ([RecordStep (sample_batch ''b'')] @
         [RecordStep (sample_batch ''c''), RecordStep (sample_batch ''b'')]) (sample_db [] []))
       (SharedSlot ''r/1'' ''review'' InlineReview)))"
  using published_batches_kept [of "[RecordStep (sample_batch ''b'')]"
      "[RecordStep (sample_batch ''c''), RecordStep (sample_batch ''b'')]" "sample_db [] []" "''r/1''" "''review''"]
  by (simp add: Let_def allowed_def sample_batch_def ask_lens_def is_text_def del: fold.simps)

text \<open>The progress comment of a pull request changes hands only with a new generation: once it has an
  owner it keeps one, its generation never falls, and while the generation stays the same so does the owner,
  whatever statements, lease operations and waits follow.\<close>

lemma progress_owner_by_generation:
  assumes "uniq record_slot (records d)" and "list_all (allowed keeps_generation) xs"
    and "ledger d (SharedSlot key lens ProgressComment) = Some x"
  shows "case ledger (fold table_step xs d) (SharedSlot key lens ProgressComment) of
      None \<Rightarrow> False
    | Some y \<Rightarrow> generation x < generation y \<or> generation x = generation y \<and> le_owner x = le_owner y"
  using progress.rel_run [OF assms(1,2), of "SharedSlot key lens ProgressComment"] assms(3)
  by (simp add: ownership_advances_def)

definition progress_db :: "int \<Rightarrow> db" where
  "progress_db n = (sample_db [] [])\<lparr>records := [\<lparr>pr_id = ''p'', pr_work_item_id = ''a'', pr_resource_key = ''r/1'',
     pr_review_lens = ''review'', pr_step = ProgressComment, pr_github_id = Some ''5'', pr_status = RecordCompleted,
     pr_lease_epoch = None, pr_detail = map_of [(''progressGeneration'', JNum n)], pr_updated_at = 3\<rparr>]\<rparr>"

lemma progress_db_facts:
  "uniq record_slot (records (progress_db n))"
  "ledger (progress_db n) (SharedSlot ''r/1'' ''review'' ProgressComment) = Some \<lparr>le_owner = ''a'',
     le_resource = ''r/1'', le_github = Some ''5'', le_status = RecordCompleted, le_epoch = None,
     le_detail = map_of [(''progressGeneration'', JNum n)], le_updated = 3\<rparr>"
  by (simp_all add: progress_db_def uniq_def ledger_def row_at_simps record_slot_def ask_lens_def entry_of_def)

lemma progress_owner_by_generation_witness:
  "ledger (fold table_step [RecordStep (TransferOp ''u'' ''b'' ''r/1'' ''review'')] (progress_db 4))
     (SharedSlot ''r/1'' ''review'' ProgressComment) \<noteq> None"
  using progress_owner_by_generation [OF progress_db_facts(1) _ progress_db_facts(2),
      of "[RecordStep (TransferOp ''u'' ''b'' ''r/1'' ''review'')]" 4]
  by (auto simp: allowed_def ask_lens_def split: option.splits)

text \<open>A work item that does not own the progress comment cannot record it: the call throws, with the
  ownership conflict while its lease is held, and leaves the database as it is.\<close>

lemma foreign_progress_write_refused:
  assumes "uniq record_slot (records (wdb w))" and "wsched w = []" and "lens \<noteq> ask_lens"
    and "ledger (wdb w) (SharedSlot key lens ProgressComment) = Some x" and "le_owner x \<noteq> i"
  shows "record_publish_step u i key lens ProgressComment gid e det w =
    (Inl (if lease_fence_sql (wdb w) i e then progress_ownership_conflict else lease_lost), w)"
proof -
  obtain r where r: "row_at record_slot (SharedSlot key lens ProgressComment) (records (wdb w)) = Some r"
    "pr_work_item_id r \<noteq> i"
    using assms(4,5) by (auto simp: ledger_def entry_of_def)
  from row_at_SomeD [OF r(1)] have step: "pr_step r = ProgressComment" by (simp add: slot_shapes)
  have "shared_record_statement u i key lens ProgressComment gid e det (wdb w) = (None, wdb w)"
    using r step assms(3)
    by (auto simp: shared_record_statement_def Let_def upsert_record_def upsert_def record_slot_def
        row_at_def split: option.splits)
  then have st: "statement (shared_record_statement u i key lens ProgressComment gid e det) w = (Inr None, w)"
    using assms(2) by (simp add: on_db_def stepP_def interfere_def)
  have held: "assert_held i n w = (if lease_fence_sql (wdb w) i (Some n) then Inr () else Inl lease_lost, w)" for n
    using assms(2) by (simp add: assert_held_def on_db_def interfere_def assert_pr_actor_lease_held_def
        prog_defs fence_some)
  show ?thesis
  proof (cases e)
    case None
    then show ?thesis
      using st by (simp add: record_publish_step_def fenced_write_def thenP_def bindP_def returnP_def throwP_def
          lease_fence_sql_def)
  next
    case (Some n)
    then show ?thesis
      using st held [of n]
      by (simp add: record_publish_step_def fenced_write_def thenP_def bindP_def returnP_def throwP_def whenP_def)
  qed
qed

lemma foreign_progress_write_refused_witness:
  "fst (record_publish_step ''u'' ''b'' ''r/1'' ''review'' ProgressComment None None []
     \<lparr>wdb = progress_db 4, wsignal = NotAborted, wsched = [], remote = (0 :: nat)\<rparr>) = Inl progress_ownership_conflict"
  using foreign_progress_write_refused [of "\<lparr>wdb = progress_db 4, wsignal = NotAborted, wsched = [], remote = (0 :: nat)\<rparr>"
      "''review''" "''r/1''" _ "''b''" "''u''" None None "[]"] progress_db_facts [of 4]
  by (simp add: ask_lens_def lease_fence_sql_def)



text \<open>C26. A verdict that has been selected on a check run is never replaced: it can only gain the commit
  status that it had not, with the state of its own conclusion, and a surface that was applied or skipped stays
  so, whatever statements follow.\<close>

theorem verdict_never_replaced:
  assumes "uniq record_slot (records d)" and "list_all (allowed keeps_verdict) xs"
    and "ledger d (CheckSlot i lens) = Some x" and "selected_of x = Some v"
  shows "case ledger (fold table_step xs d) (CheckSlot i lens) of
      None \<Rightarrow> False
    | Some y \<Rightarrow> (case selected_of y of None \<Rightarrow> False | Some v' \<Rightarrow> verdict_refines v v') \<and> settlement_kept x y"
  using verdicts.rel_run [OF assms(1,2), of "CheckSlot i lens"] assms(3,4)
  by (auto simp: verdict_stays_iff)

definition sample_verdict :: own_verdict where
  "sample_verdict = \<lparr>ov_conclusion = VerdictFailure, ov_summary = ''s'', ov_url = None, ov_status = None\<rparr>"

definition verdict_db :: db where
  "verdict_db = (sample_db [] [])\<lparr>records := [\<lparr>pr_id = ''p'', pr_work_item_id = ''a'', pr_resource_key = ''r/1'',
     pr_review_lens = ''review'', pr_step = CheckRunStep, pr_github_id = None, pr_status = RecordPending,
     pr_lease_epoch = None, pr_detail = map_of [(selected_key, verdict_json sample_verdict)], pr_updated_at = 3\<rparr>]\<rparr>"

theorem verdict_never_replaced_witness:
  "ledger (fold table_step [RecordStep (StateOp ''a'' ''r/1'' ''review'' None sample_verdict CheckSurface SkippedForThisRun),
       RecordStep (ReleaseOp ''a'' ''r/1'' ''review'' None None)] verdict_db) (CheckSlot ''a'' ''review'') \<noteq> None"
proof -
  have uniq: "uniq record_slot (records verdict_db)" by (simp add: verdict_db_def uniq_def)
  obtain x where x: "ledger verdict_db (CheckSlot ''a'' ''review'') = Some x" "selected_of x = Some sample_verdict"
    by (simp add: verdict_db_def ledger_def row_at_simps record_slot_def entry_of_def selected_of_def)
  have "list_all (allowed keeps_verdict)
      [RecordStep (StateOp ''a'' ''r/1'' ''review'' None sample_verdict CheckSurface SkippedForThisRun),
       RecordStep (ReleaseOp ''a'' ''r/1'' ''review'' None None)]"
    by (simp add: allowed_def)
  from verdict_never_replaced [OF uniq this x] show ?thesis by (auto split: option.splits)
qed

end
