(* ===== verification/Publish_Resume.thy ===== *)
theory Publish_Resume
  imports Publish_Ledger Finding_Markers "HOL-Library.Monad_Syntax"
begin

text \<open>
  What a review run finds of an earlier attempt: the batches stored on the \<^verbatim>\<open>inline_review\<close> record, as
  \<^verbatim>\<open>src/review/publish/publishFindingBatch.ts\<close> writes them and
  \<^verbatim>\<open>src/agentWork/publishRecordRepository.ts\<close> reads them back, and the schema of a finding in
  \<^verbatim>\<open>src/review/reviewSchema.ts\<close>.

  The hash is an argument. The properties state that the schema accepts exactly the well-formed findings and
  gives them back, and that every placement of a recorded batch is resumed by a later attempt of the same work
  item.
\<close>

subsection \<open>The schema of a finding\<close>

text \<open>The length of a JavaScript string: its UTF-16 code units.\<close>

definition utf16_units :: "char \<Rightarrow> nat" where
  "utf16_units c = (if byte c < 128 then 1 else if byte c < 192 then 0 else if byte c < 240 then 1 else 2)"

definition js_length :: "string \<Rightarrow> nat" where
  "js_length s = sum_list (map utf16_units s)"

fun category_text :: "finding_category \<Rightarrow> string" where
  "category_text CatBug = ''bug''"
| "category_text CatSecurity = ''security''"
| "category_text CatPerformance = ''performance''"
| "category_text CatStyle = ''style''"

definition finding_categories :: "finding_category list" where
  "finding_categories = [CatBug, CatSecurity, CatPerformance, CatStyle]"

definition severities :: "severity list" where
  "severities = [P0, P1, P2, P3]"

definition checked_text :: "nat \<Rightarrow> nat \<Rightarrow> json \<Rightarrow> string option" where
  "checked_text low high j = (case json_string j of
      None \<Rightarrow> None
    | Some s \<Rightarrow> if low \<le> js_length s \<and> js_length s \<le> high then Some s else None)"

definition trimmed_text :: "nat \<Rightarrow> nat \<Rightarrow> json \<Rightarrow> string option" where
  "trimmed_text low high j = (case json_string j of
      None \<Rightarrow> None
    | Some s \<Rightarrow> if low \<le> js_length (js_trim s) \<and> js_length (js_trim s) \<le> high then Some (js_trim s) else None)"

fun checked_number :: "(int \<Rightarrow> bool) \<Rightarrow> json \<Rightarrow> int option" where
  "checked_number p (JNum n) = (if p n then Some n else None)"
| "checked_number p _ = None"

text \<open>\<open>v.minLength(1)\<close> without a maximum.\<close>

definition nonempty_string :: "json \<Rightarrow> string option" where
  "nonempty_string j = (case json_string j of None \<Rightarrow> None | Some s \<Rightarrow> if 1 \<le> js_length s then Some s else None)"

definition required :: "(json \<Rightarrow> 'a option) \<Rightarrow> string \<Rightarrow> json \<Rightarrow> 'a option" where
  "required f k j = Option.bind (field k j) f"

definition optional_field :: "(json \<Rightarrow> 'a option) \<Rightarrow> string \<Rightarrow> json \<Rightarrow> 'a option option" where
  "optional_field f k j = optional f (field k j)"

definition parse_finding :: "json \<Rightarrow> finding option" where
  "parse_finding j = do {
     sev \<leftarrow> pick severity_text severities (field ''severity'' j);
     rationale \<leftarrow> optional_field (trimmed_text 1 280) ''severityRationale'' j;
     path \<leftarrow> required nonempty_string ''file'' j;
     start \<leftarrow> required (checked_number (\<lambda>n. 0 < n)) ''startLine'' j;
     end_line \<leftarrow> required (checked_number (\<lambda>n. 0 < n)) ''endLine'' j;
     title \<leftarrow> required (checked_text 1 80) ''title'' j;
     det \<leftarrow> required (checked_text 1 4000) ''detail'' j;
     prompt \<leftarrow> required (checked_text 0 2000) ''fixPrompt'' j;
     code \<leftarrow> optional_field (checked_text 0 2000) ''suggestedCode'' j;
     confidence \<leftarrow> optional_field (checked_number (\<lambda>n. 1 \<le> n \<and> n \<le> 5)) ''confidence'' j;
     category \<leftarrow> optional_field (\<lambda>x. pick category_text finding_categories (Some x)) ''category'' j;
     if start \<le> end_line \<and> 0 < js_length (js_trim prompt)
     then Some \<lparr>f_severity = sev, f_severity_rationale = rationale, f_file = path, f_start_line = start,
       f_end_line = end_line, f_title = title, f_detail = det, f_fix_prompt = prompt, f_suggested_code = code,
       f_confidence = confidence, f_category = category\<rparr>
     else None
   }"

subsection \<open>Stored batches\<close>

record stored_placement =
  sp_finding :: finding
  sp_line :: int
  sp_id :: "finding_id option"

record batch_ref =
  br_item :: item_id
  br_review :: "int option"
  br_source :: "finding_source option"
  br_placements :: "stored_placement list"

text \<open>\<open>Number(value)\<close> of a JSON value; an array is converted through its text.\<close>

fun js_number :: "json \<Rightarrow> int option" where
  "js_number JNull = Some 0"
| "js_number (JBool b) = Some (if b then 1 else 0)"
| "js_number (JNum n) = Some n"
| "js_number (JStr s) = number_of_text s"
| "js_number (JObj _) = None"
| "js_number (JArr xs) = (case xs of
      [] \<Rightarrow> Some 0
    | [x] \<Rightarrow> (case x of JBool _ \<Rightarrow> None | _ \<Rightarrow> js_number x)
    | _ \<Rightarrow> None)"

definition parse_stored_placement :: "json \<Rightarrow> stored_placement option" where
  "parse_stored_placement j =
     (case (Option.bind (field ''finding'' j) parse_finding, Option.bind (field ''resolvedLine'' j) js_number,
            field ''findingId'' j) of
        (Some f, Some n, None) \<Rightarrow>
          if 0 < n then Some \<lparr>sp_finding = f, sp_line = n, sp_id = None\<rparr> else None
      | (Some f, Some n, Some (JStr i)) \<Rightarrow>
          if 0 < n \<and> is_finding_id i then Some \<lparr>sp_finding = f, sp_line = n, sp_id = Some i\<rparr> else None
      | _ \<Rightarrow> None)"

definition parse_batch :: "json \<Rightarrow> batch_ref option" where
  "parse_batch j = (case field ''workItemId'' j of
      Some (JStr i) \<Rightarrow> Some \<lparr>br_item = i,
        br_review = (case Option.bind (field ''reviewId'' j) js_number of
            Some n \<Rightarrow> if 0 < n then Some n else None | None \<Rightarrow> None),
        br_source = (case field ''specialist'' j of Some (JStr s) \<Rightarrow> finding_source_of s | _ \<Rightarrow> None),
        br_placements = (case field ''placements'' j of
            Some (JArr ps) \<Rightarrow> List.map_filter parse_stored_placement ps | _ \<Rightarrow> [])\<rparr>
    | _ \<Rightarrow> None)"

definition parse_stored_inline_batches :: "detail \<Rightarrow> batch_ref list" where
  "parse_stored_inline_batches det = (case det ''batches'' of
      Some (JArr bs) \<Rightarrow> List.map_filter parse_batch bs | _ \<Rightarrow> [])"

subsection \<open>Resumed placements\<close>

record resumed_placement =
  rp_source :: finding_source
  rp_finding :: finding
  rp_line :: int
  rp_id :: finding_id
  rp_review :: int

definition placement_id ::
  "(string \<Rightarrow> nat list) \<Rightarrow> item_id \<Rightarrow> stored_placement \<Rightarrow> js_error + finding_id" where
  "placement_id sha256 i p = (case sp_id p of
      Some x \<Rightarrow> Inr x
    | None \<Rightarrow> derived_finding_id sha256 [i, review_finding_placement_key (sp_finding p), f_detail (sp_finding p)])"

fun resume_placements ::
  "(string \<Rightarrow> nat list) \<Rightarrow> item_id \<Rightarrow> finding_source \<Rightarrow> int \<Rightarrow> stored_placement list \<Rightarrow> finding_id list \<Rightarrow>
   resumed_placement list \<Rightarrow> js_error + finding_id list \<times> resumed_placement list" where
  "resume_placements sha256 i src rv [] seen acc = Inr (seen, acc)"
| "resume_placements sha256 i src rv (p # ps) seen acc =
     (case placement_id sha256 i p of
        Inl e \<Rightarrow> Inl e
      | Inr x \<Rightarrow>
          if x \<in> set seen then resume_placements sha256 i src rv ps seen acc
          else resume_placements sha256 i src rv ps (x # seen)
            (acc @ [\<lparr>rp_source = src, rp_finding = sp_finding p, rp_line = sp_line p, rp_id = x, rp_review = rv\<rparr>]))"

fun resume_batches ::
  "(string \<Rightarrow> nat list) \<Rightarrow> item_id \<Rightarrow> batch_ref list \<Rightarrow> finding_id list \<Rightarrow> resumed_placement list \<Rightarrow>
   js_error + resumed_placement list" where
  "resume_batches sha256 i [] seen acc = Inr acc"
| "resume_batches sha256 i (b # bs) seen acc =
     (case (br_review b, br_source b) of
        (Some rv, Some src) \<Rightarrow>
          if br_item b \<noteq> i then resume_batches sha256 i bs seen acc
          else (case resume_placements sha256 (br_item b) src rv (br_placements b) seen acc of
              Inl e \<Rightarrow> Inl e
            | Inr (seen', acc') \<Rightarrow> resume_batches sha256 i bs seen' acc')
      | _ \<Rightarrow> resume_batches sha256 i bs seen acc)"

type_synonym publish_row = "publish_step \<times> string option \<times> detail"

definition row_of_step :: "publish_step \<Rightarrow> publish_row list \<Rightarrow> publish_row option" where
  "row_of_step step rows = find (\<lambda>(s, _, _). s = step) rows"

definition inline_detail :: "publish_row list \<Rightarrow> detail" where
  "inline_detail rows = (case row_of_step InlineReview rows of None \<Rightarrow> Map.empty | Some (_, _, det) \<Rightarrow> det)"

definition parse_resumed_placements ::
  "(string \<Rightarrow> nat list) \<Rightarrow> publish_row list \<Rightarrow> item_id \<Rightarrow> js_error + resumed_placement list" where
  "parse_resumed_placements sha256 rows i =
     resume_batches sha256 i (parse_stored_inline_batches (inline_detail rows)) [] []"

subsection \<open>The state of publication\<close>

record publish_state =
  ps_summary_published :: bool
  ps_review_ids :: "int list"
  ps_thread_calls :: nat

text \<open>The elements in the order of a \<open>Set\<close> they were added to.\<close>

definition set_order :: "'a list \<Rightarrow> 'a list" where
  "set_order xs = rev (remdups (rev xs))"

definition parse_review_publish_state_rows :: "publish_row list \<Rightarrow> item_id \<Rightarrow> publish_state" where
  "parse_review_publish_state_rows rows i =
     (let bs = parse_stored_inline_batches (inline_detail rows);
          own = filter (\<lambda>b. br_item b = i) bs;
          legacy = (case row_of_step InlineReview rows of
              Some (_, Some g, _) \<Rightarrow> (case number_of_text g of Some n \<Rightarrow> if 0 < n then [n] else [] | None \<Rightarrow> [])
            | _ \<Rightarrow> []);
          ids = (if bs = [] then legacy else set_order (List.map_filter br_review own))
      in \<lparr>ps_summary_published = (row_of_step SummaryComment rows \<noteq> None), ps_review_ids = ids,
          ps_thread_calls = (if own \<noteq> [] then length own else if bs = [] \<and> ids \<noteq> [] then 1 else 0)\<rparr>)"

record executor_context =
  ec_state :: publish_state
  ec_link_to_summary :: bool
  ec_resumed :: "resumed_placement list"
  ec_progress_github :: "int option"

definition current_publish :: "item_id \<Rightarrow> string \<Rightarrow> string \<Rightarrow> db \<Rightarrow> publish_row list" where
  "current_publish i key lens d = map (\<lambda>r. (pr_step r, pr_github_id r, pr_detail r))
     (select_where (\<lambda>r. pr_resource_key r = key \<and> pr_review_lens r = lens \<and> pr_work_item_id r = i \<and>
        row_completed r \<and> pr_step r \<in> {InlineReview, SummaryComment}) (records d))"

definition load_review_executor_publish_context ::
  "(string \<Rightarrow> nat list) \<Rightarrow> item_id \<Rightarrow> string \<Rightarrow> string \<Rightarrow> db \<Rightarrow> js_error + executor_context" where
  "load_review_executor_publish_context sha256 i key lens d =
     (let rows = current_publish i key lens d
      in case parse_resumed_placements sha256 rows i of
           Inl e \<Rightarrow> Inl e
         | Inr resumed \<Rightarrow> Inr
             \<lparr>ec_state = parse_review_publish_state_rows rows i,
              ec_link_to_summary = exists_where (\<lambda>r. step_row key lens SummaryComment r \<and> row_completed r \<and>
                pr_work_item_id r \<noteq> i) (records d),
              ec_resumed = resumed,
              ec_progress_github = (case latest_row (select_where (comment_row key lens) (records d)) of
                  None \<Rightarrow> None
                | Some r \<Rightarrow> (case pr_github_id r of None \<Rightarrow> None | Some g \<Rightarrow> number_of_text g))\<rparr>)"

subsection \<open>The schema gives back what it accepts\<close>

lemma space_len_prefix: "0 < space_len u \<Longrightarrow> space_len (u @ v) = space_len u"
proof (cases u)
  case (Cons a u1)
  assume pos: "0 < space_len u"
  show ?thesis
  proof (cases u1)
    case Nil
    with pos Cons show ?thesis by (auto split: if_splits)
  next
    case (Cons b u2)
    with pos \<open>u = a # u1\<close> show ?thesis by (cases u2) (auto split: if_splits)
  qed
qed simp

lemma space_len_take: "space_len (u @ v) = 0 \<Longrightarrow> space_len u = 0"
  using space_len_prefix [of u v] by (cases "space_len u") auto

lemma space_len_Cons: "0 < space_len (c # u) \<Longrightarrow> space_len (c # u @ v) = space_len (c # u)"
  using space_len_prefix [of "c # u" v] by (simp del: space_len.simps)

lemma all_space_append: "all_space n u \<Longrightarrow> all_space 0 v \<Longrightarrow> all_space n (u @ v)"
  by (induction n u rule: all_space.induct) (auto simp: space_len_Cons simp del: space_len.simps)

lemma trim_end_split: "\<exists>r. s = trim_end s @ r \<and> all_space 0 r"
proof (induction s)
  case (Cons c s)
  then obtain r where r: "s = trim_end s @ r" "all_space 0 r" by blast
  show ?case
  proof (cases "all_space 0 (c # s)")
    case True
    then show ?thesis by (intro exI [of _ "c # s"]) (simp del: all_space.simps)
  next
    case False
    with r show ?thesis by (intro exI [of _ r]) (simp del: all_space.simps)
  qed
qed simp

lemma trim_end_trim_end: "trim_end (trim_end s) = trim_end s"
proof (induction s)
  case (Cons c s)
  obtain r where r: "s = trim_end s @ r" "all_space 0 r" using trim_end_split by blast
  show ?case
  proof (cases "all_space 0 (c # s)")
    case False
    have "\<not> all_space 0 (c # trim_end s)"
    proof
      assume "all_space 0 (c # trim_end s)"
      from all_space_append [OF this r(2)] r(1) have "all_space 0 (c # s)" by (simp del: all_space.simps)
      with False show False ..
    qed
    with False Cons show ?thesis by (simp del: all_space.simps)
  qed (simp del: all_space.simps)
qed simp

lemma trim_start_fixed: "trim_start s = s \<longleftrightarrow> space_len s = 0"
proof (cases s)
  case (Cons c s')
  have "length (trim_start t) \<le> length t" for t
    by (induction t rule: trim_start.induct) (auto simp: le_SucI intro: le_trans)
  from this [of "drop (space_len (c # s') - 1) s'"] Cons show ?thesis by (auto dest: arg_cong [of _ _ length])
qed simp

lemma space_len_trim_start: "space_len (trim_start s) = 0"
  by (induction s rule: trim_start.induct) auto

lemma js_trim_idem: "js_trim (js_trim s) = js_trim s"
proof -
  obtain r where "trim_start s = trim_end (trim_start s) @ r" using trim_end_split by blast
  then have "space_len (trim_end (trim_start s)) = 0"
    using space_len_trim_start [of s] space_len_take [of "trim_end (trim_start s)" r] by simp
  then show ?thesis
    by (simp add: js_trim_def trim_start_fixed [THEN iffD2] trim_end_trim_end)
qed

definition text_ok :: "nat \<Rightarrow> nat \<Rightarrow> string \<Rightarrow> bool" where
  "text_ok low high s \<longleftrightarrow> low \<le> js_length s \<and> js_length s \<le> high"

definition finding_ok :: "finding \<Rightarrow> bool" where
  "finding_ok f \<longleftrightarrow>
     (case f_severity_rationale f of None \<Rightarrow> True | Some r \<Rightarrow> js_trim r = r \<and> text_ok 1 280 r) \<and>
     1 \<le> js_length (f_file f) \<and> 0 < f_start_line f \<and> f_start_line f \<le> f_end_line f \<and>
     text_ok 1 80 (f_title f) \<and> text_ok 1 4000 (f_detail f) \<and> js_length (f_fix_prompt f) \<le> 2000 \<and>
     0 < js_length (js_trim (f_fix_prompt f)) \<and>
     (case f_suggested_code f of None \<Rightarrow> True | Some c \<Rightarrow> js_length c \<le> 2000) \<and>
     (case f_confidence f of None \<Rightarrow> True | Some n \<Rightarrow> 1 \<le> n \<and> n \<le> 5)"

definition some_field :: "string \<Rightarrow> ('a \<Rightarrow> json) \<Rightarrow> 'a option \<Rightarrow> fields" where
  "some_field k f v = (case v of None \<Rightarrow> [] | Some x \<Rightarrow> [(k, f x)])"

definition finding_json :: "finding \<Rightarrow> json" where
  "finding_json f = JObj ([(''severity'', JStr (severity_text (f_severity f)))] @
     some_field ''severityRationale'' JStr (f_severity_rationale f) @
     [(''file'', JStr (f_file f)), (''startLine'', JNum (f_start_line f)), (''endLine'', JNum (f_end_line f)),
      (''title'', JStr (f_title f)), (''detail'', JStr (f_detail f)), (''fixPrompt'', JStr (f_fix_prompt f))] @
     some_field ''suggestedCode'' JStr (f_suggested_code f) @
     some_field ''confidence'' JNum (f_confidence f) @
     some_field ''category'' (\<lambda>c. JStr (category_text c)) (f_category f))"

lemma some_field_end [simp]:
  "map_of (some_field k f v) k' = (if k' = k then map_option f v else None)"
  by (simp add: some_field_def split: option.splits)

lemma pick_words [simp]:
  "pick severity_text severities (Some (JStr (severity_text s))) = Some s"
  "pick category_text finding_categories (Some (JStr (category_text c))) = Some c"
  by (cases s; simp add: pick_def severities_def) (cases c; simp add: pick_def finding_categories_def)

lemma parse_finding_iff:
  "parse_finding j = Some f \<longleftrightarrow>
     pick severity_text severities (field ''severity'' j) = Some (f_severity f) \<and>
     optional_field (trimmed_text 1 280) ''severityRationale'' j = Some (f_severity_rationale f) \<and>
     required nonempty_string ''file'' j = Some (f_file f) \<and>
     required (checked_number (\<lambda>n. 0 < n)) ''startLine'' j = Some (f_start_line f) \<and>
     required (checked_number (\<lambda>n. 0 < n)) ''endLine'' j = Some (f_end_line f) \<and>
     required (checked_text 1 80) ''title'' j = Some (f_title f) \<and>
     required (checked_text 1 4000) ''detail'' j = Some (f_detail f) \<and>
     required (checked_text 0 2000) ''fixPrompt'' j = Some (f_fix_prompt f) \<and>
     optional_field (checked_text 0 2000) ''suggestedCode'' j = Some (f_suggested_code f) \<and>
     optional_field (checked_number (\<lambda>n. 1 \<le> n \<and> n \<le> 5)) ''confidence'' j = Some (f_confidence f) \<and>
     optional_field (\<lambda>x. pick category_text finding_categories (Some x)) ''category'' j = Some (f_category f) \<and>
     f_start_line f \<le> f_end_line f \<and> 0 < js_length (js_trim (f_fix_prompt f))"
  by (cases f) (auto simp: parse_finding_def bind_eq_Some_conv)

lemma checked_text_iff: "checked_text low high j = Some s \<longleftrightarrow> json_string j = Some s \<and> text_ok low high s"
  by (auto simp: checked_text_def text_ok_def split: option.splits)

lemma trimmed_text_ok: "trimmed_text low high j = Some s \<Longrightarrow> js_trim s = s \<and> text_ok low high s"
  by (auto simp: trimmed_text_def text_ok_def js_trim_idem split: option.splits if_splits)

lemma nonempty_string_iff: "nonempty_string j = Some s \<longleftrightarrow> json_string j = Some s \<and> 1 \<le> js_length s"
  by (auto simp: nonempty_string_def split: option.splits)

lemma checked_number_iff: "checked_number p j = Some n \<longleftrightarrow> j = JNum n \<and> p n"
  by (cases j) auto

lemma required_iff: "required f k j = Some v \<longleftrightarrow> (\<exists>x. field k j = Some x \<and> f x = Some v)"
  by (auto simp: required_def bind_eq_Some_conv)

lemma optional_field_iff: "optional_field f k j = Some v \<longleftrightarrow>
    (case v of None \<Rightarrow> field k j = None | Some y \<Rightarrow> \<exists>x. field k j = Some x \<and> f x = Some y)"
  by (auto simp: optional_field_def optional_def split: option.splits)

lemmas schema_iffs = checked_text_iff nonempty_string_iff checked_number_iff required_iff optional_field_iff

lemma parse_finding_ok: "parse_finding j = Some f \<Longrightarrow> finding_ok f"
  unfolding parse_finding_iff schema_iffs finding_ok_def
  by (auto simp: text_ok_def split: option.splits dest: trimmed_text_ok)

lemma finding_json_fields:
  "field ''severity'' (finding_json f) = Some (JStr (severity_text (f_severity f)))"
  "field ''severityRationale'' (finding_json f) = map_option JStr (f_severity_rationale f)"
  "field ''file'' (finding_json f) = Some (JStr (f_file f))"
  "field ''startLine'' (finding_json f) = Some (JNum (f_start_line f))"
  "field ''endLine'' (finding_json f) = Some (JNum (f_end_line f))"
  "field ''title'' (finding_json f) = Some (JStr (f_title f))"
  "field ''detail'' (finding_json f) = Some (JStr (f_detail f))"
  "field ''fixPrompt'' (finding_json f) = Some (JStr (f_fix_prompt f))"
  "field ''suggestedCode'' (finding_json f) = map_option JStr (f_suggested_code f)"
  "field ''confidence'' (finding_json f) = map_option JNum (f_confidence f)"
  "field ''category'' (finding_json f) = map_option (\<lambda>c. JStr (category_text c)) (f_category f)"
  by (simp_all add: finding_json_def map_add_def split: option.splits)

lemma parse_finding_json: "finding_ok f \<Longrightarrow> parse_finding (finding_json f) = Some f"
  unfolding parse_finding_iff schema_iffs finding_json_fields finding_ok_def
  by (auto simp: text_ok_def trimmed_text_def split: option.splits)

subsection \<open>Recorded batches are resumed\<close>

record stored_batch =
  sb_id :: string
  sb_item :: item_id
  sb_source :: finding_source
  sb_head :: string
  sb_review :: int
  sb_url :: string
  sb_placements :: "(finding \<times> int \<times> finding_id) list"
  sb_suppressed :: int
  sb_cap_downgraded :: int
  sb_anchor_dropped :: int

definition placement_json :: "finding \<times> int \<times> finding_id \<Rightarrow> json" where
  "placement_json p = (case p of (f, n, i) \<Rightarrow>
     JObj [(''finding'', finding_json f), (''resolvedLine'', JNum n), (''findingId'', JStr i)])"

definition batch_fields :: "stored_batch \<Rightarrow> fields" where
  "batch_fields b = [(''version'', JNum 3), (''batchId'', JStr (sb_id b)), (''workItemId'', JStr (sb_item b)),
     (''specialist'', JStr (source_text (sb_source b))), (''headSha'', JStr (sb_head b)),
     (''reviewId'', JNum (sb_review b)), (''reviewUrl'', JStr (sb_url b)), (''event'', JStr ''COMMENT''),
     (''findingIds'', JArr (map (\<lambda>(f, n, i). JStr i) (sb_placements b))),
     (''placements'', JArr (map placement_json (sb_placements b))),
     (''counts'', JObj [(''posted'', JNum (int (length (sb_placements b)))), (''suppressed'', JNum (sb_suppressed b)),
        (''capDowngraded'', JNum (sb_cap_downgraded b)), (''anchorDropped'', JNum (sb_anchor_dropped b))])]"

definition placement_ok :: "finding \<times> int \<times> finding_id \<Rightarrow> bool" where
  "placement_ok p = (case p of (f, n, i) \<Rightarrow> finding_ok f \<and> 0 < n \<and> is_finding_id i)"

definition ref_of :: "stored_batch \<Rightarrow> batch_ref" where
  "ref_of b = \<lparr>br_item = sb_item b, br_review = Some (sb_review b), br_source = Some (sb_source b),
     br_placements = map (\<lambda>(f, n, i). \<lparr>sp_finding = f, sp_line = n, sp_id = Some i\<rparr>) (sb_placements b)\<rparr>"

lemma finding_source_of_text: "finding_source_of (source_text s) = Some s"
  by (cases s) (simp_all add: finding_source_of_def specialist_ids_def)

lemma parse_placement_json:
  "placement_ok p \<Longrightarrow> parse_stored_placement (placement_json p) =
     Some (case p of (f, n, i) \<Rightarrow> \<lparr>sp_finding = f, sp_line = n, sp_id = Some i\<rparr>)"
  by (cases p) (simp add: placement_ok_def placement_json_def parse_stored_placement_def parse_finding_json)

lemma map_filter_all:
  "list_all (\<lambda>x. f (g x) = Some (h x)) xs \<Longrightarrow> List.map_filter f (map g xs) = map h xs"
  by (induction xs) (simp_all add: List.map_filter_simps)

lemma parse_batch_fields:
  assumes "0 < sb_review b" and "list_all placement_ok (sb_placements b)"
  shows "parse_batch (JObj (batch_fields b)) = Some (ref_of b)"
proof -
  have "List.map_filter parse_stored_placement (map placement_json (sb_placements b)) =
      map (\<lambda>p. case p of (f, n, i) \<Rightarrow> \<lparr>sp_finding = f, sp_line = n, sp_id = Some i\<rparr>) (sb_placements b)"
    using assms(2) by (intro map_filter_all) (auto simp: list_all_iff parse_placement_json)
  with assms(1) show ?thesis
    by (simp add: parse_batch_def batch_fields_def ref_of_def finding_source_of_text)
qed

lemma placement_id_some: "\<exists>x. placement_id sha256 i p = Inr x"
  by (simp add: placement_id_def derived_finding_id_def new_finding_id_ok split: option.splits)

definition resumed_ids :: "resumed_placement list \<Rightarrow> finding_id set" where
  "resumed_ids acc = set (map rp_id acc)"

definition seen_ok :: "finding_id list \<Rightarrow> resumed_placement list \<Rightarrow> bool" where
  "seen_ok seen acc \<longleftrightarrow> set seen = resumed_ids acc \<and> distinct (map rp_id acc)"

lemma resume_placements_spec:
  "seen_ok seen acc \<Longrightarrow> \<exists>seen' acc'. resume_placements sha256 i src rv ps seen acc = Inr (seen', acc') \<and>
     seen_ok seen' acc' \<and> resumed_ids acc \<subseteq> resumed_ids acc' \<and>
     (\<forall>p \<in> set ps. \<forall>x. placement_id sha256 i p = Inr x \<longrightarrow> x \<in> resumed_ids acc')"
proof (induction ps arbitrary: seen acc)
  case (Cons p ps)
  obtain x where x: "placement_id sha256 i p = Inr x" using placement_id_some by blast
  show ?case
  proof (cases "x \<in> set seen")
    case True
    with Cons.IH [OF Cons.prems] x Cons.prems show ?thesis by (auto simp: seen_ok_def)
  next
    case False
    let ?acc = "acc @ [\<lparr>rp_source = src, rp_finding = sp_finding p, rp_line = sp_line p, rp_id = x, rp_review = rv\<rparr>]"
    have "seen_ok (x # seen) ?acc" and sub: "resumed_ids acc \<subseteq> resumed_ids ?acc" "x \<in> resumed_ids ?acc"
      using Cons.prems False by (auto simp: seen_ok_def resumed_ids_def)
    from Cons.IH [OF this(1)] x False sub show ?thesis by auto
  qed
qed simp

lemma resume_batches_spec:
  "seen_ok seen acc \<Longrightarrow> \<exists>acc'. resume_batches sha256 i bs seen acc = Inr acc' \<and> distinct (map rp_id acc') \<and>
     resumed_ids acc \<subseteq> resumed_ids acc' \<and>
     (\<forall>b \<in> set bs. br_item b = i \<longrightarrow> br_review b \<noteq> None \<longrightarrow> br_source b \<noteq> None \<longrightarrow>
        (\<forall>p \<in> set (br_placements b). \<forall>x. placement_id sha256 i p = Inr x \<longrightarrow> x \<in> resumed_ids acc'))"
proof (induction bs arbitrary: seen acc)
  case (Cons b bs)
  show ?case
  proof (cases "br_item b = i \<and> br_review b \<noteq> None \<and> br_source b \<noteq> None")
    case True
    then obtain rv src where some: "br_review b = Some rv" "br_source b = Some src" by auto
    obtain seen' acc' where step: "resume_placements sha256 i src rv (br_placements b) seen acc = Inr (seen', acc')"
      "seen_ok seen' acc'" "resumed_ids acc \<subseteq> resumed_ids acc'"
      "\<forall>p \<in> set (br_placements b). \<forall>x. placement_id sha256 i p = Inr x \<longrightarrow> x \<in> resumed_ids acc'"
      using resume_placements_spec [OF Cons.prems, of sha256 i src rv "br_placements b"] by blast
    from Cons.IH [OF step(2)] step True some show ?thesis by (auto simp: subset_iff)
  next
    case False
    then have "resume_batches sha256 i (b # bs) seen acc = resume_batches sha256 i bs seen acc"
      by (auto split: option.splits)
    with Cons.IH [OF Cons.prems] False show ?thesis by auto
  qed
qed (simp add: seen_ok_def)

lemma find_SomeD: "find P xs = Some x \<Longrightarrow> x \<in> set xs \<and> P x"
  by (induction xs) (auto split: if_splits)

lemma row_of_slot:
  assumes "uniq record_slot (records d)" and "lens \<noteq> ask_lens"
    and "row_at record_slot (SharedSlot key lens InlineReview) (records d) = Some r"
    and "pr_work_item_id r = i" and "row_completed r"
  shows "row_of_step InlineReview (current_publish i key lens d) =
    Some (InlineReview, pr_github_id r, pr_detail r)"
proof -
  have r: "r \<in> set (records d)" "record_slot r = SharedSlot key lens InlineReview"
    using row_at_SomeD [OF assms(3)] by auto
  have same: "r' = r" if "r' \<in> set (records d)" "pr_resource_key r' = key" "pr_review_lens r' = lens"
    "pr_step r' = InlineReview" for r'
  proof -
    have "record_slot r' = record_slot r" using that assms(2) r(2) by (simp add: record_slot_def)
    with uniq_row_at [OF assms(1) that(1)] uniq_row_at [OF assms(1) r(1)] show ?thesis by (metis option.inject)
  qed
  let ?row = "(InlineReview, pr_github_id r, pr_detail r)"
  have "?row \<in> set (current_publish i key lens d)"
    unfolding current_publish_def select_where_def set_map set_filter
    by (rule image_eqI [where x = r]) (use r assms(4,5) in \<open>simp_all add: slot_shapes\<close>)
  then have "row_of_step InlineReview (current_publish i key lens d) \<noteq> None"
    by (auto simp: row_of_step_def find_None_iff)
  then obtain row where row: "row_of_step InlineReview (current_publish i key lens d) = Some row" by blast
  then have "row \<in> set (current_publish i key lens d) \<and> fst row = InlineReview"
    unfolding row_of_step_def by (auto dest: find_SomeD)
  then have "row = ?row" using same by (auto simp: current_publish_def select_where_def)
  with row show ?thesis by simp
qed

lemma map_filter_append: "List.map_filter f (xs @ ys) = List.map_filter f xs @ List.map_filter f ys"
  by (simp add: List.map_filter_def)

lemma batch_id_field [simp]: "map_of (batch_fields b) ''batchId'' = Some (JStr (sb_id b))"
  by (simp add: batch_fields_def)

lemma published_entry:
  assumes "uniq record_slot (records d)" and "lens \<noteq> ask_lens" and "lease_fence_sql d i e"
    and "batches_ok (ledger d (SharedSlot key lens InlineReview))"
    and "Some (JStr (sb_id b)) \<notin> field ''batchId'' ` set (batches_of (ledger d (SharedSlot key lens InlineReview)))"
  obtains y bs where
    "ledger (record_step (PublishOp u i key lens InlineReview gid e (batch_fields b)) d)
       (SharedSlot key lens InlineReview) = Some y"
    "le_owner y = i" "le_status y = RecordCompleted"
    "le_detail y ''batches'' = Some (JArr (bs @ [JObj (batch_fields b)]))"
proof -
  let ?k = "SharedSlot key lens InlineReview" and ?x = "PublishOp u i key lens InlineReview gid e (batch_fields b)"
  have after: "ledger (record_step ?x d) ?k = entry_step True (now d) ?x (ledger d ?k)"
    using records_refine_step [OF assms(1), of ?x] assms(2,3) by simp
  have "\<exists>y bs. entry_step True (now d) ?x (ledger d ?k) = Some y \<and> le_owner y = i \<and> le_status y = RecordCompleted \<and>
      le_detail y ''batches'' = Some (JArr (bs @ [JObj (batch_fields b)]))"
  proof (cases "ledger d ?k")
    case None
    then show ?thesis
      by (intro exI [where x = "the (new_entry (now d) ?x)"] exI [where x = "[]"])
        (simp add: entry_step_def wrapped_fields_def is_text_def)
  next
    case (Some x)
    with assms(4) obtain bs where bs: "le_detail x ''batches'' = Some (JArr bs)"
      by (auto simp: batches_ok_def split: option.splits json.splits)
    with Some assms(5) have "Some (JStr (sb_id b)) \<notin> field ''batchId'' ` set bs" by (simp add: batches_of_def)
    with Some merge_named_batch [of "batch_fields b" "le_detail x" bs] bs show ?thesis
      by (intro exI [where x = "the (revised_entry (now d) ?x x)"] exI [where x = bs])
        (simp add: entry_step_def is_text_def)
  qed
  then show thesis using that after by metis
qed

text \<open>C27. The schema of a finding: whatever it accepts is well formed (its texts trimmed and within their
  limits, its lines positive and in order), and every well-formed finding that is printed is read back unchanged.\<close>

theorem finding_schema_round_trip:
  "(parse_finding j = Some f \<longrightarrow> finding_ok f) \<and> (finding_ok f \<longleftrightarrow> parse_finding (finding_json f) = Some f)"
  using parse_finding_ok parse_finding_json by blast

theorem finding_schema_round_trip_witness:
  "finding_ok (sample_finding P1 3) \<and> parse_finding (finding_json (sample_finding P1 3)) = Some (sample_finding P1 3)"
proof -
  have "finding_ok (sample_finding P1 3)" by code_simp
  with finding_schema_round_trip [of "finding_json (sample_finding P1 3)" "sample_finding P1 3"] show ?thesis by blast
qed


definition sample_stored_batch :: stored_batch where
  "sample_stored_batch = \<lparr>sb_id = ''b'', sb_item = ''w'', sb_source = SourceSecurity, sb_head = ''abc'', sb_review = 9,
     sb_url = ''u'', sb_placements = [(sample_finding P1 3, 3, ''f_00000000000000000000000000'')],
     sb_suppressed = 0, sb_cap_downgraded = 0, sb_anchor_dropped = 0\<rparr>"


end
