(* ===== verification/Operation_Keys.thy ===== *)
theory Operation_Keys
  imports Own_Verdict "HOL-Library.Char_ord" "HOL-Library.List_Lexorder" "HOL-Library.Multiset"
begin

text \<open>
  The keys under which outside mutations are recorded: the key functions of
  \<^verbatim>\<open>src/agentWork/publishOnce.ts\<close>. An intent is found by work item and key, so two operations of
  one work item must never share a key. The hash is an argument; \<open>toSorted\<close> orders identities of finding, which
  are ASCII, by their bytes.
\<close>

definition resource_key_of_pr :: "string \<Rightarrow> string \<Rightarrow> nat \<Rightarrow> string" where
  "resource_key_of_pr owner repo n = owner @ ''/'' @ repo @ ''#'' @ nat_text n"

definition target_suffix :: "nat option \<Rightarrow> string" where
  "target_suffix t = (case t of None \<Rightarrow> [] | Some n \<Rightarrow> '':'' @ nat_text n)"

definition ask_reply_operation_key :: "string \<Rightarrow> nat option \<Rightarrow> string" where
  "ask_reply_operation_key key target = ''ask:reply:'' @ key @ target_suffix target"

definition ask_failure_reply_operation_key :: "string \<Rightarrow> nat option \<Rightarrow> string" where
  "ask_failure_reply_operation_key key target = ''ask:failure_reply:'' @ key @ target_suffix target"

definition description_pr_body_operation_key :: "string \<Rightarrow> string" where
  "description_pr_body_operation_key key = ''description:pr_body:'' @ key"

definition review_inline_batch_operation_key :: "string \<Rightarrow> string" where
  "review_inline_batch_operation_key b = ''review:inline:'' @ b"

definition hex_text :: "nat list \<Rightarrow> string" where
  "hex_text bs = concat (map (\<lambda>b. [json_hex_digit (b div 16), json_hex_digit (b mod 16)]) bs)"

fun nul_joined :: "string list \<Rightarrow> string" where
  "nul_joined [] = []"
| "nul_joined [s] = s"
| "nul_joined (s # ss) = s @ [CHR 0x00] @ nul_joined ss"

definition deterministic_inline_batch_id ::
  "(string \<Rightarrow> nat list) \<Rightarrow> item_id \<Rightarrow> string \<Rightarrow> string list \<Rightarrow> string" where
  "deterministic_inline_batch_id sha256 i head ids = take 32 (hex_text (sha256 (nul_joined (i # head # sort ids))))"

datatype duplicate_kind = DuplicateReply | DuplicateResolve

fun duplicate_text :: "duplicate_kind \<Rightarrow> string" where
  "duplicate_text DuplicateReply = ''duplicate_reply''"
| "duplicate_text DuplicateResolve = ''duplicate_resolve''"

definition review_duplicate_operation_key :: "duplicate_kind \<Rightarrow> string \<Rightarrow> string \<Rightarrow> string \<Rightarrow> string" where
  "review_duplicate_operation_key kind dup canon thread =
     ''review:'' @ duplicate_text kind @ '':'' @ dup @ '':'' @ canon @ '':'' @ thread"

definition review_summary_operation_key :: "string \<Rightarrow> string \<Rightarrow> string" where
  "review_summary_operation_key key lens = ''review:summary:'' @ lens @ '':'' @ key"

definition triage_push_operation_key :: "string \<Rightarrow> string" where
  "triage_push_operation_key key = ''triage:push:'' @ key"

definition triage_thread_operation_key :: "nat \<Rightarrow> string" where
  "triage_thread_operation_key root = ''triage:thread:'' @ nat_text root"

definition triage_report_operation_key :: "string \<Rightarrow> string" where
  "triage_report_operation_key key = ''triage:report:'' @ key"

definition triage_preview_operation_key :: "string \<Rightarrow> string" where
  "triage_preview_operation_key key = ''triage:preview:'' @ key"

definition verification_thread_operation_key :: "nat \<Rightarrow> string" where
  "verification_thread_operation_key root = ''verification:thread:'' @ nat_text root"

definition verification_objection_answer_operation_key ::
  "(string \<Rightarrow> nat list) \<Rightarrow> nat \<Rightarrow> nat \<Rightarrow> string \<Rightarrow> string" where
  "verification_objection_answer_operation_key sha256 root objection updated =
     ''verification:objection:'' @ nat_text root @ '':'' @ nat_text objection @ '':'' @
       take 16 (hex_text (sha256 updated))"

definition review_check_operation_key :: "item_id \<Rightarrow> string" where
  "review_check_operation_key i = ''review:check_run:'' @ i"

datatype commit_state = CommitPending | CommitSuccess | CommitFailure | CommitError

fun commit_state_text :: "commit_state \<Rightarrow> string" where
  "commit_state_text CommitPending = ''pending''"
| "commit_state_text CommitSuccess = ''success''"
| "commit_state_text CommitFailure = ''failure''"
| "commit_state_text CommitError = ''error''"

definition review_commit_status_operation_key :: "string \<Rightarrow> string \<Rightarrow> commit_state \<Rightarrow> string" where
  "review_commit_status_operation_key key head st =
     ''review:commit_status:'' @ key @ '':'' @ head @ '':'' @ commit_state_text st"

definition review_labels_operation_key :: "string \<Rightarrow> string" where
  "review_labels_operation_key key = ''review:labels:'' @ key"

definition operation_intent_marker :: "(string \<Rightarrow> nat list) \<Rightarrow> string \<Rightarrow> string \<Rightarrow> string" where
  "operation_intent_marker sha256 k inst =
     ''<!-- pr-agent:operation-intent '' @ take 24 (hex_text (sha256 (k @ [CHR 0x00] @ inst))) @ '' -->''"

subsection \<open>Keys name their operation\<close>

datatype operation =
    AskReplyTo string "nat option" | AskFailureReplyTo string "nat option" | DescribeBody string
  | InlineBatch string | CleanDuplicate duplicate_kind string string string | PostSummary string string
  | PushTriage string | AnswerTriageThread nat | ReportTriage string | PreviewTriage string
  | AnswerVerificationThread nat | AnswerObjection nat nat string | StartCheck item_id
  | CloseCheck item_id string | SetStatus string string commit_state | SetLabels string

fun operation_key :: "(string \<Rightarrow> nat list) \<Rightarrow> operation \<Rightarrow> string" where
  "operation_key h (AskReplyTo key t) = ask_reply_operation_key key t"
| "operation_key h (AskFailureReplyTo key t) = ask_failure_reply_operation_key key t"
| "operation_key h (DescribeBody key) = description_pr_body_operation_key key"
| "operation_key h (InlineBatch b) = review_inline_batch_operation_key b"
| "operation_key h (CleanDuplicate kind dup canon thread) = review_duplicate_operation_key kind dup canon thread"
| "operation_key h (PostSummary key lens) = review_summary_operation_key key lens"
| "operation_key h (PushTriage key) = triage_push_operation_key key"
| "operation_key h (AnswerTriageThread n) = triage_thread_operation_key n"
| "operation_key h (ReportTriage key) = triage_report_operation_key key"
| "operation_key h (PreviewTriage key) = triage_preview_operation_key key"
| "operation_key h (AnswerVerificationThread n) = verification_thread_operation_key n"
| "operation_key h (AnswerObjection n m t) = verification_objection_answer_operation_key h n m t"
| "operation_key h (StartCheck i) = review_check_operation_key i"
| "operation_key h (CloseCheck i lens) = own_verdict_close_operation_key i lens"
| "operation_key h (SetStatus key head st) = review_commit_status_operation_key key head st"
| "operation_key h (SetLabels key) = review_labels_operation_key key"

lemmas key_defs =
  ask_reply_operation_key_def ask_failure_reply_operation_key_def description_pr_body_operation_key_def
  review_inline_batch_operation_key_def review_duplicate_operation_key_def review_summary_operation_key_def
  triage_push_operation_key_def triage_thread_operation_key_def triage_report_operation_key_def
  triage_preview_operation_key_def verification_thread_operation_key_def
  verification_objection_answer_operation_key_def review_check_operation_key_def
  own_verdict_close_operation_key_def review_commit_status_operation_key_def review_labels_operation_key_def

text \<open>The parts that a colon follows contain none.\<close>

definition no_colon :: "string \<Rightarrow> bool" where
  "no_colon s \<longleftrightarrow> CHR '':'' \<notin> set s"

fun plain_operation :: "operation \<Rightarrow> bool" where
  "plain_operation (AskReplyTo key t) \<longleftrightarrow> no_colon key"
| "plain_operation (AskFailureReplyTo key t) \<longleftrightarrow> no_colon key"
| "plain_operation (CleanDuplicate kind dup canon thread) \<longleftrightarrow> no_colon dup \<and> no_colon canon"
| "plain_operation (PostSummary key lens) \<longleftrightarrow> no_colon lens"
| "plain_operation (CloseCheck i lens) \<longleftrightarrow> no_colon i"
| "plain_operation (SetStatus key head st) \<longleftrightarrow> no_colon key \<and> no_colon head"
| "plain_operation _ \<longleftrightarrow> True"

text \<open>The same operation, with the revision of an objection compared by its hash.\<close>

definition same_operation :: "(string \<Rightarrow> nat list) \<Rightarrow> operation \<Rightarrow> operation \<Rightarrow> bool" where
  "same_operation h x y \<longleftrightarrow> (case (x, y) of
      (AnswerObjection n m t, AnswerObjection n' m' t') \<Rightarrow>
        n = n' \<and> m = m' \<and> take 16 (hex_text (h t)) = take 16 (hex_text (h t'))
    | _ \<Rightarrow> x = y)"

lemma colon_split:
  "no_colon a \<Longrightarrow> no_colon b \<Longrightarrow> a @ CHR '':'' # s = b @ CHR '':'' # t \<longleftrightarrow> a = b \<and> s = t"
proof (induction a arbitrary: b)
  case Nil
  then show ?case by (cases b) (auto simp: no_colon_def)
next
  case (Cons c a)
  then show ?case by (cases b) (auto simp: no_colon_def)
qed

lemma nat_text_inject [simp]: "nat_text n = nat_text m \<longleftrightarrow> n = m"
  by (metis number_of_nat_text)

lemma nat_text_no_colon [simp]: "no_colon (nat_text n)"
proof -
  have "\<not> is_digit (CHR '':'')" by (simp add: is_digit_def)
  then show ?thesis using nat_text_digits [of n] by (auto simp: no_colon_def)
qed

lemma target_split:
  assumes "no_colon a" and "no_colon b"
  shows "a @ target_suffix s = b @ target_suffix t \<longleftrightarrow> a = b \<and> s = t"
proof -
  have colon: "no_colon (a @ target_suffix s) \<longleftrightarrow> s = None" if "no_colon a" for a s
    using that by (cases s) (simp_all add: target_suffix_def no_colon_def)
  show ?thesis
  proof (cases "s = None \<or> t = None")
    case True
    then show ?thesis using colon [OF assms(1), of s] colon [OF assms(2), of t]
      by (cases s; cases t) (auto simp: target_suffix_def)
  next
    case False
    then show ?thesis using colon_split [OF assms] by (auto simp: target_suffix_def)
  qed
qed

lemma state_text_inject [simp]: "commit_state_text s = commit_state_text t \<longleftrightarrow> s = t"
  by (cases s; cases t) simp_all

lemma duplicate_text_inject [simp]: "duplicate_text s = duplicate_text t \<longleftrightarrow> s = t"
  by (cases s; cases t) simp_all

text \<open>A key is two words and a rest.\<close>

fun key_parts :: "(string \<Rightarrow> nat list) \<Rightarrow> operation \<Rightarrow> string \<times> string \<times> string" where
  "key_parts h (AskReplyTo key t) = (''ask'', ''reply'', key @ target_suffix t)"
| "key_parts h (AskFailureReplyTo key t) = (''ask'', ''failure_reply'', key @ target_suffix t)"
| "key_parts h (DescribeBody key) = (''description'', ''pr_body'', key)"
| "key_parts h (InlineBatch b) = (''review'', ''inline'', b)"
| "key_parts h (CleanDuplicate kind dup canon thread) =
     (''review'', duplicate_text kind, dup @ '':'' @ canon @ '':'' @ thread)"
| "key_parts h (PostSummary key lens) = (''review'', ''summary'', lens @ '':'' @ key)"
| "key_parts h (PushTriage key) = (''triage'', ''push'', key)"
| "key_parts h (AnswerTriageThread n) = (''triage'', ''thread'', nat_text n)"
| "key_parts h (ReportTriage key) = (''triage'', ''report'', key)"
| "key_parts h (PreviewTriage key) = (''triage'', ''preview'', key)"
| "key_parts h (AnswerVerificationThread n) = (''verification'', ''thread'', nat_text n)"
| "key_parts h (AnswerObjection n m t) =
     (''verification'', ''objection'', nat_text n @ '':'' @ nat_text m @ '':'' @ take 16 (hex_text (h t)))"
| "key_parts h (StartCheck i) = (''review'', ''check_run'', i)"
| "key_parts h (CloseCheck i lens) = (''review'', ''check_run_close'', i @ '':'' @ lens)"
| "key_parts h (SetStatus key head st) = (''review'', ''commit_status'', key @ '':'' @ head @ '':'' @ commit_state_text st)"
| "key_parts h (SetLabels key) = (''review'', ''labels'', key)"

lemma key_of_parts:
  "key_parts h x = (a, b, c) \<Longrightarrow> operation_key h x = a @ CHR '':'' # b @ CHR '':'' # c \<and> no_colon a \<and> no_colon b"
proof (cases x)
  case (CleanDuplicate kind dup canon thread)
  assume "key_parts h x = (a, b, c)"
  with CleanDuplicate show ?thesis by (cases kind) (auto simp: key_defs no_colon_def)
qed (auto simp: key_defs no_colon_def)

lemma duplicate_words [simp]:
  "duplicate_text k \<noteq> ''inline''" "duplicate_text k \<noteq> ''summary''" "duplicate_text k \<noteq> ''check_run''"
  "duplicate_text k \<noteq> ''check_run_close''" "duplicate_text k \<noteq> ''commit_status''" "duplicate_text k \<noteq> ''labels''"
  by (cases k; simp)+

lemmas duplicate_words_sym [simp] = duplicate_words [symmetric]

lemma key_parts_same:
  "plain_operation x \<Longrightarrow> plain_operation y \<Longrightarrow> key_parts h x = key_parts h y \<Longrightarrow> same_operation h x y"
  by (cases x; cases y) (auto simp: same_operation_def colon_split target_split)

lemma same_operation_key: "same_operation h x y \<Longrightarrow> operation_key h x = operation_key h y"
  by (cases "\<exists>n m t. x = AnswerObjection n m t")
    (auto simp: same_operation_def key_defs split: operation.splits)

text \<open>The identity of a batch does not depend on the order of its findings.\<close>

lemma batch_id_unordered:
  "mset ids = mset ids' \<Longrightarrow>
     deterministic_inline_batch_id sha256 i head ids = deterministic_inline_batch_id sha256 i head ids'"
  unfolding deterministic_inline_batch_id_def by (metis properties_for_sort mset_sort sorted_sort)

text \<open>Operations have their own keys: two operations get the same key exactly when they are the same one,
  provided that the names in them (pull requests, commits, findings, items) have no colon where a colon follows.
  The revision of an objection takes part through its hash.\<close>

lemma operations_have_own_keys:
  assumes "plain_operation x" and "plain_operation y"
  shows "operation_key h x = operation_key h y \<longleftrightarrow> same_operation h x y"
proof
  obtain a b c a' b' c' where parts: "key_parts h x = (a, b, c)" "key_parts h y = (a', b', c')"
    by (metis prod_cases3)
  assume "operation_key h x = operation_key h y"
  then have "(a, b, c) = (a', b', c')"
    using key_of_parts [OF parts(1)] key_of_parts [OF parts(2)] by (simp add: colon_split)
  with parts show "same_operation h x y" by (intro key_parts_same [OF assms]) simp
qed (rule same_operation_key)

lemma operations_have_own_keys_witness:
  "operation_key (\<lambda>_. []) (AskReplyTo (resource_key_of_pr ''o'' ''r'' 3) (Some 5)) \<noteq>
     operation_key (\<lambda>_. []) (AskReplyTo (resource_key_of_pr ''o'' ''r'' 35) None)"
  using operations_have_own_keys [of "AskReplyTo (resource_key_of_pr ''o'' ''r'' 3) (Some 5)"
      "AskReplyTo (resource_key_of_pr ''o'' ''r'' 35) None" "\<lambda>_. []"] nat_text_no_colon [of 3] nat_text_no_colon [of 35]
  by (simp add: same_operation_def resource_key_of_pr_def no_colon_def)

end
