(* ===== verification/Verification_Ledger.thy ===== *)
theory Verification_Ledger
  imports Publish_Resume Operation_Keys
begin

text \<open>
  The ledger of verification threads, \<^verbatim>\<open>src/agentWork/verificationThreadLedger.ts\<close>, kept as the detail
  of one publish record, and \<open>findCompletedPublishRecordId\<close> of
  \<^verbatim>\<open>src/agentWork/reconcilePendingIntents.ts\<close>, which finds the record that proves a pending intent done.

  A JavaScript object with comment identities as keys is an association list without repeated keys. Whether a
  text is a date is decided as \<open>Date.parse\<close> of V8 does on the shape that the program admits.

  The lemmas show that a saved ledger is loaded unchanged, and what the lookup finds for the intents of a batch.
\<close>

subsection \<open>Threads\<close>

datatype thread_verdict = VerdictSkipped | VerdictDismissed | VerdictFixed | VerdictAlreadyResolved
datatype failure_surface = CiCellSurface | StubLineSurface
datatype objection_decision = DecisionConcede | DecisionHold | DecisionNotObjection
datatype stub_outcome = StubWritten | StubMissing | StubNotRequired
datatype resolution_outcome = ResolutionResolved | ResolutionNotRequired

fun verdict_text :: "thread_verdict \<Rightarrow> string" where
  "verdict_text VerdictSkipped = ''skipped''"
| "verdict_text VerdictDismissed = ''dismissed''"
| "verdict_text VerdictFixed = ''fixed''"
| "verdict_text VerdictAlreadyResolved = ''already-resolved''"

fun failure_surface_text :: "failure_surface \<Rightarrow> string" where
  "failure_surface_text CiCellSurface = ''ci_cell''"
| "failure_surface_text StubLineSurface = ''stub_line''"

fun decision_text :: "objection_decision \<Rightarrow> string" where
  "decision_text DecisionConcede = ''concede''"
| "decision_text DecisionHold = ''hold''"
| "decision_text DecisionNotObjection = ''not_objection''"

fun stub_outcome_text :: "stub_outcome \<Rightarrow> string" where
  "stub_outcome_text StubWritten = ''written''"
| "stub_outcome_text StubMissing = ''missing''"
| "stub_outcome_text StubNotRequired = ''not_required''"

fun resolution_text :: "resolution_outcome \<Rightarrow> string" where
  "resolution_text ResolutionResolved = ''resolved''"
| "resolution_text ResolutionNotRequired = ''not_required''"

definition parse_verdict :: "json option \<Rightarrow> thread_verdict option" where
  "parse_verdict = pick verdict_text [VerdictSkipped, VerdictDismissed, VerdictFixed, VerdictAlreadyResolved]"

definition parse_failure_surface :: "json option \<Rightarrow> failure_surface option" where
  "parse_failure_surface = pick failure_surface_text [CiCellSurface, StubLineSurface]"

definition parse_decision :: "json option \<Rightarrow> objection_decision option" where
  "parse_decision = pick decision_text [DecisionConcede, DecisionHold, DecisionNotObjection]"

definition parse_stub_outcome :: "json option \<Rightarrow> stub_outcome option" where
  "parse_stub_outcome = pick stub_outcome_text [StubWritten, StubMissing, StubNotRequired]"

definition parse_resolution :: "json option \<Rightarrow> resolution_outcome option" where
  "parse_resolution = pick resolution_text [ResolutionResolved, ResolutionNotRequired]"

record failure_signal =
  fs_head :: string
  fs_comment :: int
  fs_surface :: failure_surface

record objection_entry =
  ob_comment :: int
  ob_updated :: string
  ob_decision :: objection_decision
  ob_answer :: "int option"

record thread_completion =
  tc_item :: item_id
  tc_key :: string
  tc_head :: string
  tc_verdict :: thread_verdict
  tc_outcome :: stub_outcome
  tc_stub :: "int option"
  tc_resolution :: resolution_outcome

record thread_state =
  th_stub :: "int option"
  th_verdict :: thread_verdict
  th_head :: "string option"
  th_terminal :: bool
  th_completion :: "thread_completion option"
  th_objections :: "objection_entry list"

record thread_ledger =
  tl_threads :: "(string \<times> thread_state) list"
  tl_failure :: "failure_signal option"

subsection \<open>Parsing\<close>

definition string_at :: "string \<Rightarrow> json \<Rightarrow> string option" where
  "string_at k j = Option.bind (field k j) json_string"

definition number_at :: "string \<Rightarrow> json \<Rightarrow> int option" where
  "number_at k j = (case field k j of Some (JNum n) \<Rightarrow> Some n | _ \<Rightarrow> None)"

definition parse_failure_signal :: "json \<Rightarrow> failure_signal option" where
  "parse_failure_signal j =
     (case (parse_failure_surface (field ''surface'' j), string_at ''headSha'' j, number_at ''commentId'' j) of
        (Some s, Some h, Some n) \<Rightarrow>
          if h = [] then None else Some \<lparr>fs_head = h, fs_comment = n, fs_surface = s\<rparr>
      | _ \<Rightarrow> None)"

definition safe_positive :: "int \<Rightarrow> bool" where
  "safe_positive n \<longleftrightarrow> 0 < n \<and> n \<le> max_safe_integer"

text \<open>\<open>isUsableReviewTimestamp\<close> of \<^verbatim>\<open>src/review/run/reviewPriorFeedback.ts\<close>.\<close>

definition digits_at :: "nat \<Rightarrow> nat \<Rightarrow> string \<Rightarrow> nat option" where
  "digits_at from n s = (let d = take n (drop from s)
     in if length d = n \<and> list_all is_digit d then Some (number_of d) else None)"

definition fraction_end :: "string \<Rightarrow> bool" where
  "fraction_end s = (case s of
      [] \<Rightarrow> False
    | c # r \<Rightarrow> if c = CHR ''Z'' then r = []
        else c = CHR ''.'' \<and> (case take_digits r of Some (_, z) \<Rightarrow> z = ''Z'' | None \<Rightarrow> False))"

definition nonzero_fraction :: "string \<Rightarrow> bool" where
  "nonzero_fraction s = list_ex (\<lambda>c. c \<in> set ''123456789'') (take 3 (drop 1 s))"

definition is_usable_review_timestamp :: "string \<Rightarrow> bool" where
  "is_usable_review_timestamp s =
     (case (digits_at 0 4 s, digits_at 5 2 s, digits_at 8 2 s, digits_at 11 2 s, digits_at 14 2 s, digits_at 17 2 s) of
        (Some y, Some m, Some d, Some h, Some mi, Some se) \<Rightarrow>
          take 1 (drop 4 s) = ''-'' \<and> take 1 (drop 7 s) = ''-'' \<and> take 1 (drop 10 s) = ''T'' \<and>
          take 1 (drop 13 s) = '':'' \<and> take 1 (drop 16 s) = '':'' \<and> fraction_end (drop 19 s) \<and>
          1 \<le> m \<and> m \<le> 12 \<and> 1 \<le> d \<and> d \<le> 31 \<and> mi \<le> 59 \<and> se \<le> 59 \<and>
          (h \<le> 23 \<or> h = 24 \<and> mi = 0 \<and> se = 0 \<and> \<not> nonzero_fraction (drop 19 s))
      | _ \<Rightarrow> False)"

definition parse_objection_entry :: "json \<Rightarrow> objection_entry option" where
  "parse_objection_entry j =
     (case (parse_decision (field ''decision'' j), number_at ''commentId'' j, string_at ''updatedAt'' j) of
        (Some d, Some n, Some t) \<Rightarrow>
          if \<not> safe_positive n \<or> \<not> is_usable_review_timestamp t then None
          else if field ''answerCommentId'' j \<in> {None, Some JNull}
          then Some \<lparr>ob_comment = n, ob_updated = t, ob_decision = d, ob_answer = None\<rparr>
          else if d = DecisionNotObjection then None
          else (case number_at ''answerCommentId'' j of
              Some a \<Rightarrow> if safe_positive a
                then Some \<lparr>ob_comment = n, ob_updated = t, ob_decision = d, ob_answer = Some a\<rparr> else None
            | None \<Rightarrow> None)
      | _ \<Rightarrow> None)"

text \<open>The journal of a thread; no journal and an empty one are the same.\<close>

definition parse_objection_journal :: "json option \<Rightarrow> objection_entry list" where
  "parse_objection_journal v = (case v of Some (JArr xs) \<Rightarrow> List.map_filter parse_objection_entry xs | _ \<Rightarrow> [])"

definition verification_thread_root :: "string \<Rightarrow> nat option" where
  "verification_thread_root k = (case expect ''verification:thread:'' k of
      Some r \<Rightarrow> (case take_digits r of Some (ds, []) \<Rightarrow> Some (number_of ds) | _ \<Rightarrow> None)
    | None \<Rightarrow> None)"

definition parse_verification_thread_completion :: "json \<Rightarrow> thread_completion option" where
  "parse_verification_thread_completion j =
     (case (string_at ''workItemId'' j, string_at ''operationKey'' j, string_at ''headSha'' j,
            parse_verdict (field ''verdict'' j), parse_stub_outcome (field ''stubOutcome'' j),
            parse_resolution (field ''resolutionOutcome'' j)) of
        (Some i, Some k, Some h, Some ver, Some st, Some res) \<Rightarrow>
          if i = [] \<or> verification_thread_root k = None \<or> h = [] then None
          else if st = StubWritten
          then (case number_at ''stubCommentId'' j of
              Some n \<Rightarrow> if safe_positive n
                then Some \<lparr>tc_item = i, tc_key = k, tc_head = h, tc_verdict = ver, tc_outcome = st,
                  tc_stub = Some n, tc_resolution = res\<rparr> else None
            | None \<Rightarrow> None)
          else Some \<lparr>tc_item = i, tc_key = k, tc_head = h, tc_verdict = ver, tc_outcome = st,
                 tc_stub = None, tc_resolution = res\<rparr>
      | _ \<Rightarrow> None)"

definition parse_thread_state :: "json \<Rightarrow> thread_state option" where
  "parse_thread_state j = (case parse_verdict (field ''lastVerdict'' j) of
      None \<Rightarrow> None
    | Some ver \<Rightarrow> Some \<lparr>th_stub = number_at ''stubCommentId'' j, th_verdict = ver,
        th_head = string_at ''lastHeadSha'' j, th_terminal = (field ''terminal'' j = Some (JBool True)),
        th_completion = Option.bind (field ''completion'' j) parse_verification_thread_completion,
        th_objections = parse_objection_journal (field ''objections'' j)\<rparr>)"

text \<open>Writing a key of an object: in place when it is there, at the end when it is new.\<close>

fun put :: "string \<Rightarrow> 'v \<Rightarrow> (string \<times> 'v) list \<Rightarrow> (string \<times> 'v) list" where
  "put k x [] = [(k, x)]"
| "put k x ((k', y) # kvs) = (if k' = k then (k, x) # kvs else (k', y) # put k x kvs)"

definition thread_entry :: "string \<times> json \<Rightarrow> (string \<times> thread_state) option" where
  "thread_entry kv = map_option (Pair (fst kv)) (parse_thread_state (snd kv))"

definition acted_state :: thread_state where
  "acted_state = \<lparr>th_stub = None, th_verdict = VerdictSkipped, th_head = None, th_terminal = False,
     th_completion = None, th_objections = []\<rparr>"

definition parse_verification_thread_ledger :: "detail option \<Rightarrow> thread_ledger" where
  "parse_verification_thread_ledger v =
     (case v of
        None \<Rightarrow> \<lparr>tl_threads = [], tl_failure = None\<rparr>
      | Some det \<Rightarrow>
          \<lparr>tl_threads = (case det ''threads'' of
               Some (JObj kvs) \<Rightarrow> List.map_filter thread_entry kvs
             | _ \<Rightarrow> fold (\<lambda>n. put (int_text n) acted_state) (acted_ids (Some det)) []),
           tl_failure = Option.bind (det ''failureSignal'') parse_failure_signal\<rparr>)"

definition matches_verification_thread_completion ::
  "thread_completion option \<Rightarrow> item_id \<Rightarrow> string \<Rightarrow> json option \<Rightarrow> json option \<Rightarrow> json option \<Rightarrow> bool" where
  "matches_verification_thread_completion receipt i k head ver stub =
     (case (receipt, stub) of
        (Some r, Some (JBool requires)) \<Rightarrow>
          tc_item r = i \<and> tc_key r = k \<and> head = Some (JStr (tc_head r)) \<and>
          ver = Some (JStr (verdict_text (tc_verdict r))) \<and>
          tc_resolution r = (if tc_verdict r = VerdictSkipped then ResolutionNotRequired else ResolutionResolved) \<and>
          (if requires
           then tc_outcome r = StubWritten \<or>
             tc_verdict r \<in> {VerdictFixed, VerdictAlreadyResolved} \<and> tc_outcome r = StubMissing
           else tc_outcome r = StubNotRequired)
      | _ \<Rightarrow> False)"

definition upsert_verification_thread_state :: "int \<Rightarrow> thread_state \<Rightarrow> thread_ledger \<Rightarrow> thread_ledger" where
  "upsert_verification_thread_state root s l = l\<lparr>tl_threads := put (int_text root) s (tl_threads l)\<rparr>"

definition upsert_verification_failure_signal :: "failure_signal \<Rightarrow> thread_ledger \<Rightarrow> thread_ledger" where
  "upsert_verification_failure_signal f l = l\<lparr>tl_failure := Some f\<rparr>"

definition clear_verification_failure_signal :: "thread_ledger \<Rightarrow> thread_ledger" where
  "clear_verification_failure_signal l = l\<lparr>tl_failure := None\<rparr>"

subsection \<open>Saving and loading\<close>

definition failure_json :: "failure_signal \<Rightarrow> json" where
  "failure_json f = JObj [(''headSha'', JStr (fs_head f)), (''commentId'', JNum (fs_comment f)),
     (''surface'', JStr (failure_surface_text (fs_surface f)))]"

definition objection_json :: "objection_entry \<Rightarrow> json" where
  "objection_json e = JObj ([(''commentId'', JNum (ob_comment e)), (''updatedAt'', JStr (ob_updated e)),
     (''decision'', JStr (decision_text (ob_decision e)))] @ some_field ''answerCommentId'' JNum (ob_answer e))"

definition completion_json :: "thread_completion \<Rightarrow> json" where
  "completion_json c = JObj ([(''workItemId'', JStr (tc_item c)), (''operationKey'', JStr (tc_key c)),
     (''headSha'', JStr (tc_head c)), (''verdict'', JStr (verdict_text (tc_verdict c))),
     (''stubOutcome'', JStr (stub_outcome_text (tc_outcome c)))] @ some_field ''stubCommentId'' JNum (tc_stub c) @
     [(''resolutionOutcome'', JStr (resolution_text (tc_resolution c)))])"

definition thread_json :: "thread_state \<Rightarrow> json" where
  "thread_json s = JObj (some_field ''stubCommentId'' JNum (th_stub s) @
     [(''lastVerdict'', JStr (verdict_text (th_verdict s)))] @ some_field ''lastHeadSha'' JStr (th_head s) @
     (if th_terminal s then [(''terminal'', JBool True)] else []) @
     some_field ''completion'' completion_json (th_completion s) @
     (if th_objections s = [] then [] else [(''objections'', JArr (map objection_json (th_objections s)))]))"

definition ledger_fields :: "thread_ledger \<Rightarrow> fields" where
  "ledger_fields l = [(''threads'', JObj (map (\<lambda>(k, s). (k, thread_json s)) (tl_threads l)))] @
     some_field ''failureSignal'' failure_json (tl_failure l)"

definition verification_lens :: string where
  "verification_lens = ''verification''"

definition verification_identity :: "item_id option \<Rightarrow> string \<Rightarrow> int option option \<Rightarrow> fields option \<Rightarrow> publication_identity" where
  "verification_identity i key e det = \<lparr>pi_item = i, pi_resource = key, pi_lens = verification_lens, pi_epoch = e,
     pi_step = (if det = None then None else Some VerificationThreadActions), pi_github = None, pi_detail = det\<rparr>"

definition load_verification_thread_ledger ::
  "'g publish_record_store \<Rightarrow> string \<Rightarrow> ('g world, thread_ledger) prog" where
  "load_verification_thread_ledger rs key =
     bindP (context_latest rs (verification_identity None key None None) VerificationThreadActions)
       (\<lambda>det. returnP (parse_verification_thread_ledger det))"

definition save_verification_thread_ledger ::
  "'g publish_record_store \<Rightarrow> item_id \<Rightarrow> string \<Rightarrow> thread_ledger \<Rightarrow> int option \<Rightarrow> ('g world, unit) prog" where
  "save_verification_thread_ledger rs i key l e =
     context_record rs (verification_identity (Some i) key (Some e) (Some (ledger_fields l))) None"

subsection \<open>The record that proves an intent done\<close>

definition triage_thread_root_from_operation_key :: "string \<Rightarrow> (nat \<times> bool) option" where
  "triage_thread_root_from_operation_key k = (case expect ''triage:thread:'' k of
      None \<Rightarrow> None
    | Some r \<Rightarrow> (case take_digits r of
          None \<Rightarrow> None
        | Some (ds, t) \<Rightarrow> if t = [] then Some (number_of ds, False)
            else if t = '':resolve'' then Some (number_of ds, True) else None))"

text \<open>A field of the intent that is compared when it is a string.\<close>

definition agrees :: "json option \<Rightarrow> string \<Rightarrow> bool" where
  "agrees v s = (case v of Some (JStr x) \<Rightarrow> x = s | _ \<Rightarrow> True)"

definition holds_number :: "json option \<Rightarrow> int \<Rightarrow> bool" where
  "holds_number v n = (case v of Some (JArr xs) \<Rightarrow> JNum n \<in> set xs | _ \<Rightarrow> False)"

definition thread_completion_json :: "detail \<Rightarrow> nat \<Rightarrow> json option" where
  "thread_completion_json det root =
     Option.bind (Option.bind (det ''threads'') (field (nat_text root))) (field ''completion'')"

definition completion_receipt_contains :: "json option \<Rightarrow> item_id \<Rightarrow> operation_intent \<Rightarrow> bool" where
  "completion_receipt_contains c i r = (case c of
      Some (JObj kvs) \<Rightarrow> map_of kvs ''workItemId'' = Some (JStr i) \<and>
        map_of kvs ''operationKey'' = Some (JStr (oi_operation_key r)) \<and>
        map_of kvs ''headSha'' = oi_detail r ''headSha'' \<and> map_of kvs ''verdict'' = oi_detail r ''verdict''
    | _ \<Rightarrow> False)"

definition is_bool :: "json option \<Rightarrow> bool" where
  "is_bool v = (case v of Some (JBool _) \<Rightarrow> True | _ \<Rightarrow> False)"

definition proves_done :: "item_id \<Rightarrow> operation_intent \<Rightarrow> string \<Rightarrow> publish_record \<Rightarrow> bool" where
  "proves_done i r step p \<longleftrightarrow>
     (let det = oi_detail r;
          triage = triage_thread_root_from_operation_key (oi_operation_key r);
          root = verification_thread_root (oi_operation_key r)
      in pr_work_item_id p = i \<and> step_text (pr_step p) = step \<and> row_completed p \<and>
         agrees (det ''reviewLens'') (pr_review_lens p) \<and> agrees (det ''resourceKey'') (pr_resource_key p) \<and>
         (case det ''batchId'' of Some (JStr b) \<Rightarrow> has_batch (stored_batches (pr_detail p)) (JStr b) | _ \<Rightarrow> True) \<and>
         (case triage of
            Some (n, _) \<Rightarrow> holds_number (pr_detail p ''actedThreadIds'') (int n)
          | None \<Rightarrow> (case root of
                Some n \<Rightarrow> completion_receipt_contains (thread_completion_json (pr_detail p) n) i r
              | None \<Rightarrow> (case det ''threadRootCommentId'' of
                    Some (JNum n) \<Rightarrow> pr_detail p ''threadRootCommentId'' = Some (JNum n)
                  | _ \<Rightarrow> True))))"

definition find_completed_publish_record_id :: "item_id \<Rightarrow> operation_intent \<Rightarrow> db \<Rightarrow> string option" where
  "find_completed_publish_record_id i r d =
     (let det = oi_detail r; k = oi_operation_key r
      in case det ''step'' of
           Some (JStr step) \<Rightarrow>
             if verification_thread_root k \<noteq> None \<and>
                \<not> (is_text (det ''headSha'') \<and> is_text (det ''verdict'') \<and> is_bool (det ''requiresStub'')) then None
             else if map_option snd (triage_thread_root_from_operation_key k) = Some True then None
             else (case latest_row (select_where (proves_done i r step) (records d)) of
                 None \<Rightarrow> None
               | Some p \<Rightarrow> (case verification_thread_root k of
                     None \<Rightarrow> Some (pr_id p)
                   | Some n \<Rightarrow>
                       if matches_verification_thread_completion
                            (Option.bind (map_of (tl_threads (parse_verification_thread_ledger (Some (pr_detail p))))
                               (nat_text n)) th_completion)
                            i k (det ''headSha'') (det ''verdict'') (det ''requiresStub'')
                       then Some (pr_id p) else None))
         | _ \<Rightarrow> None)"

subsection \<open>A saved ledger is loaded unchanged\<close>

definition objection_ok :: "objection_entry \<Rightarrow> bool" where
  "objection_ok e \<longleftrightarrow> safe_positive (ob_comment e) \<and> is_usable_review_timestamp (ob_updated e) \<and>
     (case ob_answer e of None \<Rightarrow> True | Some a \<Rightarrow> ob_decision e \<noteq> DecisionNotObjection \<and> safe_positive a)"

definition completion_ok :: "thread_completion \<Rightarrow> bool" where
  "completion_ok c \<longleftrightarrow> tc_item c \<noteq> [] \<and> verification_thread_root (tc_key c) \<noteq> None \<and> tc_head c \<noteq> [] \<and>
     (case tc_stub c of None \<Rightarrow> tc_outcome c \<noteq> StubWritten
      | Some n \<Rightarrow> tc_outcome c = StubWritten \<and> safe_positive n)"

definition thread_ok :: "thread_state \<Rightarrow> bool" where
  "thread_ok s \<longleftrightarrow> (case th_completion s of None \<Rightarrow> True | Some c \<Rightarrow> completion_ok c) \<and>
     list_all objection_ok (th_objections s)"

definition ledger_ok :: "thread_ledger \<Rightarrow> bool" where
  "ledger_ok l \<longleftrightarrow> list_all (\<lambda>(k, s). thread_ok s) (tl_threads l) \<and>
     (case tl_failure l of None \<Rightarrow> True | Some f \<Rightarrow> fs_head f \<noteq> [])"

lemma some_field_map [simp]:
  "map_of (some_field k f v) k' = (if k' = k then map_option f v else None)"
  by (rule some_field_end)

lemma enum_texts [simp]:
  "parse_verdict (Some (JStr (verdict_text v))) = Some v"
  "parse_failure_surface (Some (JStr (failure_surface_text f))) = Some f"
  "parse_decision (Some (JStr (decision_text d))) = Some d"
  "parse_stub_outcome (Some (JStr (stub_outcome_text so))) = Some so"
  "parse_resolution (Some (JStr (resolution_text r))) = Some r"
proof -
  show "parse_verdict (Some (JStr (verdict_text v))) = Some v"
    by (cases v) (simp_all add: parse_verdict_def pick_def)
  show "parse_failure_surface (Some (JStr (failure_surface_text f))) = Some f"
    by (cases f) (simp_all add: parse_failure_surface_def pick_def)
  show "parse_decision (Some (JStr (decision_text d))) = Some d"
    by (cases d) (simp_all add: parse_decision_def pick_def)
  show "parse_stub_outcome (Some (JStr (stub_outcome_text so))) = Some so"
    by (cases so) (simp_all add: parse_stub_outcome_def pick_def)
  show "parse_resolution (Some (JStr (resolution_text r))) = Some r"
    by (cases r) (simp_all add: parse_resolution_def pick_def)
qed

lemma bind_json_string [simp]: "Option.bind (map_option JStr h) json_string = h"
  by (cases h) simp_all

lemma parse_failure_json: "fs_head f \<noteq> [] \<Longrightarrow> parse_failure_signal (failure_json f) = Some f"
  by (simp add: parse_failure_signal_def failure_json_def string_at_def number_at_def)

lemma parse_objection_json: "objection_ok e \<Longrightarrow> parse_objection_entry (objection_json e) = Some e"
  by (cases "ob_answer e")
    (simp_all add: objection_ok_def parse_objection_entry_def objection_json_def string_at_def number_at_def
      some_field_def)

lemma parse_completion_json: "completion_ok c \<Longrightarrow> parse_verification_thread_completion (completion_json c) = Some c"
  by (cases "tc_stub c")
    (auto simp: completion_ok_def parse_verification_thread_completion_def completion_json_def string_at_def
      number_at_def some_field_def simp del: stub_outcome_text.simps)

lemma thread_json_fields:
  "field ''stubCommentId'' (thread_json s) = map_option JNum (th_stub s)"
  "field ''lastVerdict'' (thread_json s) = Some (JStr (verdict_text (th_verdict s)))"
  "field ''lastHeadSha'' (thread_json s) = map_option JStr (th_head s)"
  "field ''terminal'' (thread_json s) = (if th_terminal s then Some (JBool True) else None)"
  "field ''completion'' (thread_json s) = map_option completion_json (th_completion s)"
  "field ''objections'' (thread_json s) =
     (if th_objections s = [] then None else Some (JArr (map objection_json (th_objections s))))"
  by (simp_all add: thread_json_def map_add_def split: option.splits)

lemma parse_journal: "list_all objection_ok es \<Longrightarrow>
    List.map_filter parse_objection_entry (map objection_json es) = es"
  using map_filter_all [of parse_objection_entry objection_json id es]
  by (auto simp: list_all_iff parse_objection_json)

lemma parse_thread_json: "thread_ok s \<Longrightarrow> parse_thread_state (thread_json s) = Some s"
  by (cases s) (auto simp: thread_ok_def parse_thread_state_def thread_json_fields string_at_def number_at_def
      parse_objection_journal_def parse_journal parse_completion_json split: option.splits)

lemma parse_ledger_fields:
  assumes "ledger_ok l"
  shows "parse_verification_thread_ledger (Some (map_of (ledger_fields l))) = l"
proof -
  have "List.map_filter thread_entry (map (\<lambda>(k, s). (k, thread_json s)) (tl_threads l)) = map id (tl_threads l)"
    using assms by (intro map_filter_all) (auto simp: ledger_ok_def list_all_iff thread_entry_def parse_thread_json)
  then show ?thesis
    using assms by (cases l; cases "tl_failure l")
      (auto simp: parse_verification_thread_ledger_def ledger_fields_def ledger_ok_def parse_failure_json)
qed

lemma latest_of_slot:
  assumes "uniq record_slot (records d)" and "lens \<noteq> ask_lens" and "step \<noteq> CheckRunStep"
  shows "get_latest_completed_publish_step_detail key lens step d =
    (case ledger d (SharedSlot key lens step) of
       None \<Rightarrow> None | Some x \<Rightarrow> if le_status x = RecordCompleted then Some (le_detail x) else None)"
proof -
  have "step_row key lens step r \<longleftrightarrow> record_slot r = SharedSlot key lens step" for r
    using assms(2,3) by (auto simp: step_row_def slot_shapes)
  with filter_key [OF assms(1), of "SharedSlot key lens step" row_completed] show ?thesis
    by (auto simp: get_latest_completed_publish_step_detail_def latest_row_def select_where_def ledger_def entry_of_def
        split: option.splits)
qed

text \<open>A shared record in an undisturbed world: the step of the table, or the lost lease.\<close>

lemma record_publish_step_alone:
  assumes "wsched w = []" and "step \<noteq> ProgressComment" and "lease_fence_sql (wdb w) i e"
    and "lens \<noteq> ask_lens" and "step \<noteq> CheckRunStep"
  shows "record_publish_step u i key lens step gid e det w =
    (Inr (), w\<lparr>wdb := record_step (PublishOp u i key lens step gid e det) (wdb w)\<rparr>)"
proof -
  obtain r d where st: "shared_record_statement u i key lens step gid e det (wdb w) = (r, d)" by fastforce
  have "r \<noteq> None"
    using st assms(2-5)
    by (auto simp: shared_record_statement_def Let_def upsert_record_def upsert_def record_slot_def find_Some_iff
        split: option.splits if_splits)
  with st assms(1) have one: "statement (shared_record_statement u i key lens step gid e det) w = (Inr r, w\<lparr>wdb := d\<rparr>)"
    by (simp add: on_db_def stepP_def interfere_def)
  have held: "assert_held i n w = (if lease_fence_sql (wdb w) i (Some n) then Inr () else Inl lease_lost, w)" for n
    using assms(1) by (simp add: assert_held_def on_db_def interfere_def assert_pr_actor_lease_held_def
        prog_defs fence_some)
  show ?thesis
    using one st assms(2,3) held \<open>r \<noteq> None\<close>
    by (cases e) (auto simp: record_publish_step_def fenced_write_def thenP_def bindP_def returnP_def throwP_def
        whenP_def)
qed

subsection \<open>Properties\<close>


definition sample_ledger :: thread_ledger where
  "sample_ledger = \<lparr>tl_threads = [(''7'', \<lparr>th_stub = Some 8, th_verdict = VerdictFixed, th_head = Some ''abc'',
     th_terminal = True, th_completion = Some \<lparr>tc_item = ''w'', tc_key = ''verification:thread:7'', tc_head = ''abc'',
       tc_verdict = VerdictFixed, tc_outcome = StubWritten, tc_stub = Some 8, tc_resolution = ResolutionResolved\<rparr>,
     th_objections = [\<lparr>ob_comment = 9, ob_updated = ''2024-05-06T07:08:09Z'', ob_decision = DecisionHold,
       ob_answer = Some 10\<rparr>]\<rparr>)],
     tl_failure = Some \<lparr>fs_head = ''abc'', fs_comment = 3, fs_surface = StubLineSurface\<rparr>\<rparr>"

definition quiet_world :: "db \<Rightarrow> nat world" where
  "quiet_world d = \<lparr>wdb = d, wsignal = NotAborted, wsched = [], remote = 0\<rparr>"


text \<open>The lenses that the migrations admit in the table, and the detail of the intent of an inline batch.\<close>

definition record_lenses :: "string list" where
  "record_lenses = [''review'', ''review-security'', ''review-quality'', ''review-tests'', ''description'', ''ask'',
     ''triage'', ''verification'']"

definition batch_intent :: "item_id \<Rightarrow> string \<Rightarrow> finding_source \<Rightarrow> string \<Rightarrow> operation_intent \<Rightarrow> bool" where
  "batch_intent i key src b r \<longleftrightarrow> oi_operation_key r = review_inline_batch_operation_key b \<and>
     oi_detail r ''step'' = Some (JStr ''inline_review'') \<and> oi_detail r ''resourceKey'' = Some (JStr key) \<and>
     oi_detail r ''reviewLens'' = Some (JStr (source_text src)) \<and> oi_detail r ''batchId'' = Some (JStr b) \<and>
     oi_detail r ''threadRootCommentId'' = None"

lemma upsert_memberD:
  "upsert key new g f rows = (res, rows') \<Longrightarrow> r \<in> set rows' \<Longrightarrow> r \<in> set rows \<or> r = new \<or> (\<exists>x \<in> set rows. r = f x)"
  by (auto simp: upsert_def update_where_def split: option.splits if_splits)

lemma shared_record_lenses:
  assumes "list_all (\<lambda>r. pr_review_lens r \<in> set record_lenses) (records d)" and "lens \<in> set record_lenses"
  shows "list_all (\<lambda>r. pr_review_lens r \<in> set record_lenses)
    (records (record_step (PublishOp u i key lens step gid e det) d))"
  using assms
  by (auto simp: list_all_iff shared_record_statement_def Let_def upsert_record_def split: prod.splits
      dest!: upsert_memberD)

lemma latest_row_some:
  assumes "r \<in> set rows"
  obtains x where "latest_row rows = Some x" "x \<in> set rows"
proof -
  have "set (sort_key (\<lambda>r. - pr_updated_at r) rows) = set rows" by simp
  with assms obtain y ys where "sort_key (\<lambda>r. - pr_updated_at r) rows = y # ys"
    by (cases "sort_key (\<lambda>r. - pr_updated_at r) rows") auto
  moreover from this have "y \<in> set rows" by (metis list.set_intros(1) set_sort)
  ultimately show thesis by (intro that) (simp_all add: latest_row_def)
qed

lemma inline_key:
  "triage_thread_root_from_operation_key (review_inline_batch_operation_key b) = None"
  "verification_thread_root (review_inline_batch_operation_key b) = None"
  by (simp_all add: triage_thread_root_from_operation_key_def verification_thread_root_def expect_def
      review_inline_batch_operation_key_def)

lemma proves_batch_done:
  assumes "batch_intent i key src b r"
  shows "proves_done i r ''inline_review'' p \<longleftrightarrow> pr_work_item_id p = i \<and> pr_step p = InlineReview \<and> row_completed p \<and>
    pr_review_lens p = source_text src \<and> pr_resource_key p = key \<and> has_batch (stored_batches (pr_detail p)) (JStr b)"
proof -
  have "step_text (pr_step p) = ''inline_review'' \<longleftrightarrow> pr_step p = InlineReview" by (cases "pr_step p") simp_all
  with assms show ?thesis by (auto simp: proves_done_def batch_intent_def Let_def agrees_def inline_key)
qed

text \<open>C30. The durable record of an inline batch proves the intent of that batch done when the batch comes from the
  review itself. For a batch of a specialist the lookup finds nothing: the intent names the specialist as its
  lens, the record names the lens of the review, so such an intent is never reconciled from its record.\<close>

theorem specialist_batch_not_proved:
  assumes "uniq record_slot (records d)" and "lease_fence_sql d i e"
    and "list_all (\<lambda>r. pr_review_lens r \<in> set record_lenses) (records d)"
    and "batches_ok (ledger d (SharedSlot key ''review'' InlineReview))"
    and "Some (JStr (sb_id b)) \<notin> field ''batchId'' ` set (batches_of (ledger d (SharedSlot key ''review'' InlineReview)))"
    and "batch_intent i key src (sb_id b) r"
  shows "find_completed_publish_record_id i r
      (record_step (PublishOp u i key ''review'' InlineReview gid e (batch_fields b)) d) \<noteq> None \<longleftrightarrow>
    src = SourceReview"
proof -
  let ?d = "record_step (PublishOp u i key ''review'' InlineReview gid e (batch_fields b)) d"
  have ask: "''review'' \<noteq> ask_lens" by (simp add: ask_lens_def)
  have lookup: "find_completed_publish_record_id i r ?d \<noteq> None \<longleftrightarrow>
      latest_row (select_where (proves_done i r ''inline_review'') (records ?d)) \<noteq> None"
    using assms(6) by (auto simp: find_completed_publish_record_id_def Let_def batch_intent_def inline_key
        split: option.splits simp del: record_step.simps)
  show ?thesis
  proof (cases "src = SourceReview")
    case True
    obtain y bs where y: "ledger ?d (SharedSlot key ''review'' InlineReview) = Some y" "le_owner y = i"
      "le_status y = RecordCompleted" "le_detail y ''batches'' = Some (JArr (bs @ [JObj (batch_fields b)]))"
      using published_entry [OF assms(1) ask assms(2,4,5)] by blast
    then obtain p where p: "row_at record_slot (SharedSlot key ''review'' InlineReview) (records ?d) = Some p"
      "y = entry_of p" by (auto simp: ledger_def)
    have "proves_done i r ''inline_review'' p"
      unfolding proves_batch_done [OF assms(6)]
      using row_at_SomeD [OF p(1)] y p(2) True
      by (auto simp: slot_shapes entry_of_def stored_batches_def has_batch_def)
    then have "p \<in> set (select_where (proves_done i r ''inline_review'') (records ?d))"
      using row_at_SomeD [OF p(1)] by (simp add: select_where_def del: record_step.simps)
    with lookup True show ?thesis by (metis latest_row_some option.distinct(1))
  next
    case False
    then have "source_text src \<notin> set record_lenses" by (cases src) (simp_all add: record_lenses_def)
    moreover have "pr_review_lens p \<in> set record_lenses" if "p \<in> set (records ?d)" for p
      using that shared_record_lenses [OF assms(3), of "''review''" u i key InlineReview gid e "batch_fields b"]
      by (simp add: list_all_iff record_lenses_def del: record_step.simps)
    ultimately have "\<not> proves_done i r ''inline_review'' p" if "p \<in> set (records ?d)" for p
      using that proves_batch_done [OF assms(6), of p] by metis
    then have "select_where (proves_done i r ''inline_review'') (records ?d) = []"
      by (simp add: select_where_def filter_empty_conv del: record_step.simps)
    with lookup False show ?thesis by (simp add: latest_row_def del: record_step.simps)
  qed
qed

definition sample_batch_intent :: operation_intent where
  "sample_batch_intent = \<lparr>oi_work_item_id = ''w'', oi_operation_key = ''review:inline:b'', oi_mutation_kind = ''github.inline_review'',
     oi_status = Pending, oi_publish_record_id = None, oi_lease_epoch = None,
     oi_detail = map_of [(''step'', JStr ''inline_review''), (''resourceKey'', JStr ''r/1''),
       (''reviewLens'', JStr ''security''), (''batchId'', JStr ''b'')],
     oi_created_at = 1, oi_reconciled_at = None\<rparr>"

theorem specialist_batch_not_proved_witness:
  "find_completed_publish_record_id ''w'' sample_batch_intent (record_step (PublishOp ''u'' ''w'' ''r/1'' ''review''
     InlineReview (Some ''9'') None (batch_fields sample_stored_batch)) (sample_db [] [])) = None"
proof -
  have "batch_intent ''w'' ''r/1'' SourceSecurity (sb_id sample_stored_batch) sample_batch_intent"
    by (simp add: batch_intent_def sample_batch_intent_def sample_stored_batch_def review_inline_batch_operation_key_def)
  from specialist_batch_not_proved [OF _ _ _ _ _ this, of "sample_db [] []" None "''u''" "Some ''9''"]
  show ?thesis
    by (simp add: empty_table uniq_def lease_fence_sql_def batches_ok_def batches_of_def del: record_step.simps)
qed

end
