(* ===== verification/Ci_Facts.thy ===== *)
theory Ci_Facts
  imports Publish_Resume Operation_Keys "HOL-Library.AList"
begin

text \<open>
  What is known of the checks of a commit: \<^verbatim>\<open>src/review/ci/ciFacts.ts\<close>.

  A record of facts is the list of its entries in the order in which JavaScript enumerates them. The times of
  facts are ISO texts, which are ASCII, so that \<open>>=\<close> on strings is the order of their bytes. The
  reading of a date is an argument: \<open>parse_date s\<close> is \<open>new Date(s).toISOString()\<close> when \<open>Date.parse(s)\<close> is a
  number, and \<open>clock\<close> the text of the current time. The hash is an argument too.

  The properties state which fact of a name survives, in whatever order facts arrive, what the limit evicts, that
  a first listing never overwrites a delivered fact, and that its rollup is the classification of the listing as
  long as names are unique; with two check runs of one name it can be green although one of them failed.
\<close>

subsection \<open>Facts\<close>

datatype ci_source = CheckRunSource | StatusSource

datatype ci_access = AccessAvailable | AccessDenied | AccessUnknown

datatype ci_rollup = RollupPending | RollupPassing | RollupFailing | RollupNone | RollupUnknown

record ci_fact =
  cf_name :: string
  cf_source :: ci_source
  cf_status :: string
  cf_conclusion :: "string option"
  cf_url :: "string option"
  cf_external_id :: "string option"
  cf_app_id :: "int option"
  cf_run_id :: "int option"
  cf_observed_at :: string

record check_run =
  cr_id :: int
  cr_name :: string
  cr_external_id :: "string option"
  cr_app_id :: "int option"
  cr_status :: string
  cr_conclusion :: "string option"
  cr_url :: "string option"
  cr_started_at :: "string option"
  cr_completed_at :: "string option"

record legacy_status =
  ls_context :: string
  ls_state :: string
  ls_url :: "string option"
  ls_updated_at :: "string option"
  ls_created_at :: "string option"

record source_state =
  so_access :: ci_access
  so_listing_required :: bool
  so_unknown_reads :: "nat option"

record source_availability =
  sa_checks :: source_state
  sa_statuses :: source_state

definition source_complete :: "source_state \<Rightarrow> bool" where
  "source_complete s \<longleftrightarrow> so_access s = AccessAvailable \<and> \<not> so_listing_required s"

definition ci_sources_complete :: "source_availability \<Rightarrow> bool" where
  "ci_sources_complete a \<longleftrightarrow> source_complete (sa_checks a) \<and> source_complete (sa_statuses a)"

record own_check_identity =
  oc_app_id :: string
  oc_item :: "item_id option"

definition is_own_ci_check :: "own_check_identity \<Rightarrow> ci_fact \<Rightarrow> bool" where
  "is_own_ci_check me f \<longleftrightarrow>
     map_option int_text (cf_app_id f) = Some (oc_app_id me) \<or>
     oc_item me \<noteq> None \<and> cf_external_id f = oc_item me"

definition failing_check_conclusions :: "string list" where
  "failing_check_conclusions = [''failure'', ''timed_out'', ''action_required'', ''startup_failure'', ''cancelled'']"

definition pending_check_statuses :: "string list" where
  "pending_check_statuses = [''queued'', ''in_progress'', ''waiting'', ''pending'', ''requested'']"

definition is_check_fact_failing :: "ci_fact \<Rightarrow> bool" where
  "is_check_fact_failing f =
     (case cf_source f of
        StatusSource \<Rightarrow> cf_status f \<in> {''failure'', ''error''}
      | CheckRunSource \<Rightarrow> cf_status f = ''completed'' \<and>
          (case cf_conclusion f of None \<Rightarrow> False | Some c \<Rightarrow> c \<in> set failing_check_conclusions))"

definition is_check_fact_pending :: "ci_fact \<Rightarrow> bool" where
  "is_check_fact_pending f =
     (case cf_source f of
        StatusSource \<Rightarrow> cf_status f = ''pending''
      | CheckRunSource \<Rightarrow> cf_status f \<noteq> ''completed'' \<and>
          (cf_status f \<in> set pending_check_statuses \<or> cf_conclusion f = None))"

definition classify_snapshot :: "ci_fact list \<Rightarrow> ci_rollup" where
  "classify_snapshot fs =
     (if fs = [] then RollupNone
      else if list_ex is_check_fact_failing fs then RollupFailing
      else if list_ex is_check_fact_pending fs then RollupPending
      else RollupPassing)"

definition snapshot_observed_at :: string where
  "snapshot_observed_at = ''1970-01-01T00:00:00.000Z''"

definition check_run_fact :: "check_run \<Rightarrow> string \<Rightarrow> ci_fact" where
  "check_run_fact r t = \<lparr>cf_name = cr_name r, cf_source = CheckRunSource, cf_status = cr_status r,
     cf_conclusion = cr_conclusion r, cf_url = cr_url r, cf_external_id = cr_external_id r,
     cf_app_id = cr_app_id r, cf_run_id = Some (cr_id r), cf_observed_at = t\<rparr>"

definition legacy_status_fact :: "legacy_status \<Rightarrow> string \<Rightarrow> ci_fact" where
  "legacy_status_fact s t = \<lparr>cf_name = ls_context s, cf_source = StatusSource, cf_status = ls_state s,
     cf_conclusion = None, cf_url = ls_url s, cf_external_id = None, cf_app_id = None, cf_run_id = None,
     cf_observed_at = t\<rparr>"

definition classify_github_snapshot :: "check_run list \<Rightarrow> legacy_status list \<Rightarrow> ci_rollup" where
  "classify_github_snapshot runs statuses = classify_snapshot
     (map (\<lambda>r. check_run_fact r snapshot_observed_at) runs @
      map (\<lambda>s. legacy_status_fact s snapshot_observed_at) statuses)"

text \<open>The first candidate that is a date, else the current time.\<close>

fun observed_at_from_github ::
  "(string \<Rightarrow> string option) \<Rightarrow> string \<Rightarrow> string option list \<Rightarrow> string" where
  "observed_at_from_github parse_date clock [] = clock"
| "observed_at_from_github parse_date clock (c # cs) =
     (case c of
        None \<Rightarrow> observed_at_from_github parse_date clock cs
      | Some s \<Rightarrow> if s = [] then observed_at_from_github parse_date clock cs
          else (case parse_date s of
              Some t \<Rightarrow> t | None \<Rightarrow> observed_at_from_github parse_date clock cs))"

subsection \<open>Applying a fact\<close>

type_synonym check_map = "(string \<times> ci_fact) list"

text \<open>The scan for the entry to evict: the first of the oldest that is not the incoming one.\<close>

fun oldest_other :: "string \<Rightarrow> check_map \<Rightarrow> (string \<times> string) option \<Rightarrow> string option" where
  "oldest_other keep [] best = map_option fst best"
| "oldest_other keep ((n, f) # cs) best =
     (if n = keep then oldest_other keep cs best
      else case best of
        None \<Rightarrow> oldest_other keep cs (Some (n, cf_observed_at f))
      | Some (m, t) \<Rightarrow> if cf_observed_at f < t then oldest_other keep cs (Some (n, cf_observed_at f))
          else oldest_other keep cs best)"

lemma oldest_other_member:
  "oldest_other keep cs best = Some n \<Longrightarrow> n \<in> fst ` set cs \<or> map_option fst best = Some n"
proof (induction cs arbitrary: best)
  case (Cons c cs)
  obtain m f where c: "c = (m, f)" by (cases c)
  show ?case
  proof (cases "oldest_other keep cs best = Some n \<or> oldest_other keep cs (Some (m, cf_observed_at f)) = Some n")
    case True
    then show ?thesis using Cons.IH [of best] Cons.IH [of "Some (m, cf_observed_at f)"] Cons.prems c
      by (auto split: if_splits option.splits prod.splits dest: Cons.IH)
  next
    case False
    then show ?thesis using Cons.prems c by (auto split: if_splits option.splits prod.splits)
  qed
qed auto

function evict_loop :: "nat \<Rightarrow> string \<Rightarrow> check_map \<Rightarrow> bool \<Rightarrow> check_map \<times> bool" where
  "evict_loop limit keep cs truncated =
     (if length cs \<le> limit then (cs, truncated)
      else case oldest_other keep cs None of
        None \<Rightarrow> (cs, True)
      | Some n \<Rightarrow> evict_loop limit keep (AList.delete n cs) True)"
  by pat_completeness auto
termination
proof (relation "measure (\<lambda>(limit, keep, cs, truncated). length cs)")
  fix limit keep and cs :: check_map and truncated n
  assume "oldest_other keep cs None = Some n"
  then have "n \<in> fst ` set cs" using oldest_other_member by fastforce
  then have "length (AList.delete n cs) < length cs"
    unfolding AList.delete_eq using length_filter_less by force
  then show "((limit, keep, AList.delete n cs, True), limit, keep, cs, truncated)
      \<in> measure (\<lambda>(limit, keep, cs, truncated). length cs)" by simp
qed simp

declare evict_loop.simps [simp del]

record applied_fact =
  ap_checks :: check_map
  ap_accepted :: bool
  ap_truncated :: bool

definition apply_ci_check_fact :: "check_map \<Rightarrow> ci_fact \<Rightarrow> nat \<Rightarrow> applied_fact" where
  "apply_ci_check_fact current f limit =
     (let old = map_of current (cf_name f)
      in case map_option (\<lambda>e. cf_observed_at f \<le> cf_observed_at e) old of
           Some True \<Rightarrow> \<lparr>ap_checks = current, ap_accepted = False, ap_truncated = False\<rparr>
         | _ \<Rightarrow> (case evict_loop limit (cf_name f) (AList.update (cf_name f) f current) False of
               (cs, tr) \<Rightarrow> \<lparr>ap_checks = cs, ap_accepted = True, ap_truncated = tr\<rparr>))"

subsection \<open>Merging a listing\<close>

definition coerce_rollup_for_incomplete_listing :: "ci_rollup \<Rightarrow> bool option \<Rightarrow> ci_rollup" where
  "coerce_rollup_for_incomplete_listing r complete =
     (if complete = Some False \<and> (r = RollupNone \<or> r = RollupPassing) then RollupUnknown else r)"

definition is_material_ci_fact_change :: "ci_fact option \<Rightarrow> ci_fact \<Rightarrow> bool" where
  "is_material_ci_fact_change old f =
     (case old of
        None \<Rightarrow> True
      | Some p \<Rightarrow> cf_status p \<noteq> cf_status f \<or> cf_conclusion p \<noteq> cf_conclusion f \<or> cf_run_id p \<noteq> cf_run_id f)"

definition pick_snapshot_fact_for_name :: "ci_fact list \<Rightarrow> ci_fact option \<Rightarrow> ci_fact option" where
  "pick_snapshot_fact_for_name fs stored =
     (if fs = [] then None
      else case (case stored of
            Some s \<Rightarrow> if cf_run_id s \<noteq> None \<and> is_check_fact_pending s
              then find (\<lambda>f. cf_run_id f = cf_run_id s) fs else None
          | None \<Rightarrow> None) of
        Some f \<Rightarrow> Some f
      | None \<Rightarrow> Some (last fs))"

datatype snapshot_observation = EpochObservation | GithubObservation

definition own_commit_status_context :: string where
  "own_commit_status_context = ''pr-agent/review''"

definition observed_time ::
  "(string \<Rightarrow> string option) \<Rightarrow> string \<Rightarrow> snapshot_observation \<Rightarrow> string option list \<Rightarrow> string" where
  "observed_time parse_date clock how candidates =
     (case how of
        EpochObservation \<Rightarrow> snapshot_observed_at
      | GithubObservation \<Rightarrow> observed_at_from_github parse_date clock candidates)"

definition build_ci_facts_from_github_snapshot ::
  "(string \<Rightarrow> string option) \<Rightarrow> string \<Rightarrow> check_run list \<Rightarrow> legacy_status list \<Rightarrow> own_check_identity \<Rightarrow>
   snapshot_observation \<Rightarrow> ci_fact list" where
  "build_ci_facts_from_github_snapshot parse_date clock runs statuses me how =
     filter (\<lambda>f. \<not> is_own_ci_check me f)
       (map (\<lambda>r. check_run_fact r (observed_time parse_date clock how [cr_completed_at r, cr_started_at r])) runs) @
     map (\<lambda>s. legacy_status_fact s (observed_time parse_date clock how [ls_updated_at s, ls_created_at s]))
       (filter (\<lambda>s. ls_context s \<noteq> own_commit_status_context) statuses)"

datatype merge_mode = InitialSeed | PendingRefresh

record merged_snapshot =
  ms_checks :: check_map
  ms_truncated :: bool
  ms_rollup :: ci_rollup
  ms_material :: bool

text \<open>The loop of the first listing: a rejected fact changes nothing.\<close>

fun seed_loop :: "nat \<Rightarrow> ci_fact list \<Rightarrow> check_map \<times> bool \<Rightarrow> check_map \<times> bool" where
  "seed_loop limit [] st = st"
| "seed_loop limit (f # fs) (checks, tr) =
     (let m = apply_ci_check_fact checks f limit
      in if ap_accepted m then seed_loop limit fs (ap_checks m, tr \<or> ap_truncated m)
         else seed_loop limit fs (checks, tr))"

text \<open>The facts of the listing by name, in the order of the first fact of each name.\<close>

definition facts_by_name :: "ci_fact list \<Rightarrow> (string \<times> ci_fact list) list" where
  "facts_by_name fs = map (\<lambda>n. (n, filter (\<lambda>f. cf_name f = n) fs)) (rev (remdups (rev (map cf_name fs))))"

fun refresh_loop ::
  "nat \<Rightarrow> check_map \<Rightarrow> (string \<times> ci_fact list) list \<Rightarrow> check_map \<times> bool \<times> bool \<Rightarrow> check_map \<times> bool \<times> bool" where
  "refresh_loop limit stored [] st = st"
| "refresh_loop limit stored ((n, fs) # rest) (checks, tr, material) =
     (case pick_snapshot_fact_for_name fs (map_of stored n) of
        None \<Rightarrow> refresh_loop limit stored rest (checks, tr, material)
      | Some f \<Rightarrow>
          let old = map_of checks n; m = apply_ci_check_fact checks f limit
          in if (case old of None \<Rightarrow> False | Some e \<Rightarrow> cf_source e \<noteq> cf_source f) \<or> \<not> ap_accepted m
             then refresh_loop limit stored rest (checks, tr, material)
             else refresh_loop limit stored rest
               (ap_checks m, tr \<or> ap_truncated m, material \<or> is_material_ci_fact_change old f))"

definition merge_github_snapshot_into_checks ::
  "(string \<Rightarrow> string option) \<Rightarrow> string \<Rightarrow> check_map \<Rightarrow> bool \<Rightarrow> check_run list \<Rightarrow> legacy_status list \<Rightarrow>
   own_check_identity \<Rightarrow> bool option \<Rightarrow> nat \<Rightarrow> merge_mode \<Rightarrow> merged_snapshot" where
  "merge_github_snapshot_into_checks parse_date clock stored tr0 runs statuses me complete limit mode =
     (let facts = build_ci_facts_from_github_snapshot parse_date clock runs statuses me
            (case mode of PendingRefresh \<Rightarrow> GithubObservation | InitialSeed \<Rightarrow> EpochObservation);
          (checks, tr, material) = (case mode of
              InitialSeed \<Rightarrow> (case seed_loop limit facts (stored, tr0) of (cs, c) \<Rightarrow> (cs, c, False))
            | PendingRefresh \<Rightarrow> refresh_loop limit stored (facts_by_name facts) (stored, tr0, False))
      in \<lparr>ms_checks = checks, ms_truncated = tr,
          ms_rollup = coerce_rollup_for_incomplete_listing (classify_snapshot (map snd checks)) complete,
          ms_material = material\<rparr>)"

subsection \<open>The summary of a commit\<close>

datatype summary_status = CiPassing | CiFailing | CiPending | CiNone | CiUnavailable

record failure_detail =
  fd_name :: string
  fd_reason :: string
  fd_fix_hint :: string
  fd_url :: "string option"

record ci_summary =
  sy_status :: summary_status
  sy_headline :: string
  sy_failures :: "failure_detail list"
  sy_note :: "string option"

definition partial_view :: string where
  "partial_view = ''(partial CI view)''"

definition with_partial_ci_view :: "string \<Rightarrow> string" where
  "with_partial_ci_view s = (if sublist partial_view s then s else s @ '' '' @ partial_view)"

definition grant_checks_note :: string where
  "grant_checks_note = ''PR Agent can'' @ [CHR 0x27] @ ''t see check runs on this head. In the GitHub App settings, set Checks to Read, then run /review again.''"

definition incomplete_headline :: string where
  "incomplete_headline = ''CI results are incomplete; additional checks were not retrieved.''"

definition unavailable_headline :: string where
  "unavailable_headline = ''CI status unavailable''"

definition pending_headline :: string where
  "pending_headline = [CHR 0xE2, CHR 0x8F, CHR 0xB3] @ '' CI still running''"

definition passing_headline :: string where
  "passing_headline = [CHR 0xE2, CHR 0x9C, CHR 0x85] @ '' All CI is passing''"

definition failing_headline :: "string \<Rightarrow> string" where
  "failing_headline names = [CHR 0xE2, CHR 0x9D, CHR 0x8C] @ '' CI failing '' @ [CHR 0xE2, CHR 0x80, CHR 0x94] @ '' '' @ names"

text \<open>\<open>", "\<close>, \<open>" and "\<close> and \<open>" "\<close> joins.\<close>

fun text_join :: "string \<Rightarrow> string list \<Rightarrow> string" where
  "text_join sep [] = []"
| "text_join sep [s] = s"
| "text_join sep (s # ss) = s @ sep @ text_join sep ss"

definition unavailable_sources :: "source_availability option \<Rightarrow> string list" where
  "unavailable_sources av =
     (case av of None \<Rightarrow> []
      | Some a \<Rightarrow> (if source_complete (sa_checks a) then [] else [''checks'']) @
          (if source_complete (sa_statuses a) then [] else [''statuses'']))"

definition permission_note :: "source_availability option \<Rightarrow> string option" where
  "permission_note av =
     (if unavailable_sources av = [] then None
      else Some (text_join '' '' ((''Partial CI view: '' @ text_join '' and '' (unavailable_sources av) @ '' unavailable.'') #
        (case av of Some a \<Rightarrow> if so_access (sa_checks a) = AccessDenied then [grant_checks_note] else [] | None \<Rightarrow> []))))"

definition failing_names :: "check_run list \<Rightarrow> legacy_status list \<Rightarrow> string list" where
  "failing_names runs statuses = rev (remdups (rev
     (map cr_name (filter (\<lambda>r. is_check_fact_failing (check_run_fact r snapshot_observed_at)) runs) @
      map ls_context (filter (\<lambda>s. is_check_fact_failing (legacy_status_fact s snapshot_observed_at)) statuses))))"

definition failing_name_list :: "string list \<Rightarrow> string" where
  "failing_name_list names = text_join '', '' (take 3 names) @
     (if 3 < length names then '' (+'' @ nat_text (length names - 3) @ '' more)'' else [])"

definition summarize_ci_snapshot ::
  "check_run list \<Rightarrow> legacy_status list \<Rightarrow> failure_detail list \<Rightarrow> bool option \<Rightarrow> bool option \<Rightarrow>
   source_availability option \<Rightarrow> ci_summary" where
  "summarize_ci_snapshot runs statuses failures runs_complete statuses_complete av =
     (let state = classify_github_snapshot runs statuses;
          incomplete = (runs_complete = Some False \<or> statuses_complete = Some False \<or> unavailable_sources av \<noteq> []);
          summary = (\<lambda>st headline fs. \<lparr>sy_status = st, sy_headline = headline, sy_failures = fs,
            sy_note = permission_note av\<rparr>);
          view = (\<lambda>s. if incomplete then with_partial_ci_view s else s)
      in if incomplete \<and> (state = RollupNone \<or> state = RollupPassing)
         then summary CiUnavailable incomplete_headline []
         else case state of
             RollupNone \<Rightarrow> summary CiNone ''No CI checks on this head'' []
           | RollupPending \<Rightarrow> summary CiPending (view pending_headline) []
           | RollupPassing \<Rightarrow> summary CiPassing passing_headline []
           | RollupFailing \<Rightarrow> summary CiFailing
               (view (failing_headline (failing_name_list (failing_names runs statuses)))) failures
           | RollupUnknown \<Rightarrow> summary CiUnavailable unavailable_headline [])"

definition fact_status :: "ci_fact \<Rightarrow> legacy_status" where
  "fact_status f = \<lparr>ls_context = cf_name f, ls_state = cf_status f, ls_url = cf_url f, ls_updated_at = None,
     ls_created_at = None\<rparr>"

definition fact_run :: "ci_fact \<Rightarrow> check_run" where
  "fact_run f = \<lparr>cr_id = (case cf_run_id f of None \<Rightarrow> 0 | Some n \<Rightarrow> n), cr_name = cf_name f,
     cr_external_id = cf_external_id f, cr_app_id = None, cr_status = cf_status f,
     cr_conclusion = cf_conclusion f, cr_url = cf_url f, cr_started_at = None, cr_completed_at = None\<rparr>"

definition summarize_ci_facts ::
  "check_map \<Rightarrow> bool option \<Rightarrow> source_availability option \<Rightarrow> ci_summary" where
  "summarize_ci_facts checks complete av = summarize_ci_snapshot
     (map fact_run (filter (\<lambda>f. cf_source f = CheckRunSource) (map snd checks)))
     (map fact_status (filter (\<lambda>f. cf_source f = StatusSource) (map snd checks))) [] complete None av"

subsection \<open>The authored summary\<close>

record authored_cache =
  ac_hash :: string
  ac_headline :: string
  ac_failures :: "failure_detail list"
  ac_note :: "string option"
  ac_authored_at :: string

definition fact_line :: "ci_fact \<Rightarrow> string" where
  "fact_line f = nul_joined [cf_name f,
     (case cf_source f of CheckRunSource \<Rightarrow> ''check_run'' | StatusSource \<Rightarrow> ''status''), cf_status f,
     (case cf_conclusion f of None \<Rightarrow> [] | Some c \<Rightarrow> c)]"

definition hash_ci_facts :: "(string \<Rightarrow> nat list) \<Rightarrow> check_map \<Rightarrow> string" where
  "hash_ci_facts sha256 checks = hex_text (sha256 (text_join [CHR 0x0A] (sort (map (fact_line \<circ> snd) checks))))"

definition parse_failure :: "json \<Rightarrow> failure_detail option" where
  "parse_failure j = do {
     name \<leftarrow> required nonempty_string ''name'' j;
     reason \<leftarrow> required json_string ''reason'' j;
     hint \<leftarrow> required json_string ''fixHint'' j;
     url \<leftarrow> optional_field json_string ''url'' j;
     Some \<lparr>fd_name = name, fd_reason = reason, fd_fix_hint = hint, fd_url = url\<rparr>
   }"

fun parse_all :: "('a \<Rightarrow> 'b option) \<Rightarrow> 'a list \<Rightarrow> 'b list option" where
  "parse_all p [] = Some []"
| "parse_all p (x # xs) = do { y \<leftarrow> p x; ys \<leftarrow> parse_all p xs; Some (y # ys) }"

definition parse_ci_authored_cache :: "json \<Rightarrow> authored_cache option" where
  "parse_ci_authored_cache j = do {
     h \<leftarrow> required nonempty_string ''factsHash'' j;
     headline \<leftarrow> required nonempty_string ''headline'' j;
     failures \<leftarrow> required (\<lambda>x. case x of JArr xs \<Rightarrow> parse_all parse_failure xs | _ \<Rightarrow> None) ''failures'' j;
     note \<leftarrow> optional_field json_string ''permissionNote'' j;
     at \<leftarrow> required nonempty_string ''authoredAt'' j;
     Some \<lparr>ac_hash = h, ac_headline = headline, ac_failures = failures, ac_note = note, ac_authored_at = at\<rparr>
   }"

definition waiting_for_ci_summary :: ci_summary where
  "waiting_for_ci_summary = \<lparr>sy_status = CiPending,
     sy_headline = [CHR 0xE2, CHR 0x8F, CHR 0xB3] @ '' Waiting for CI'', sy_failures = [], sy_note = None\<rparr>"

definition head_ci_facts_are_complete :: "ci_rollup \<Rightarrow> bool" where
  "head_ci_facts_are_complete r \<longleftrightarrow> r \<noteq> RollupUnknown"

definition ci_summary_from_facts ::
  "(string \<Rightarrow> nat list) \<Rightarrow> check_map \<Rightarrow> int \<Rightarrow> json option \<Rightarrow> bool option \<Rightarrow> source_availability option \<Rightarrow>
   ci_summary \<times> int" where
  "ci_summary_from_facts sha256 checks version authored complete av =
     (let facts = summarize_ci_facts checks complete av
      in case Option.bind authored parse_ci_authored_cache of
           Some c \<Rightarrow>
             if sy_status facts = CiFailing \<and> ac_hash c = hash_ci_facts sha256 checks
             then (\<lparr>sy_status = CiFailing,
                sy_headline = (if sublist partial_view (sy_headline facts) then with_partial_ci_view (ac_headline c)
                  else ac_headline c),
                sy_failures = ac_failures c,
                sy_note = (case sy_note facts of Some n \<Rightarrow> Some n | None \<Rightarrow> ac_note c)\<rparr>, version)
             else (facts, version)
         | None \<Rightarrow> (facts, version))"

definition waiting_ci_summary :: "int \<Rightarrow> ci_summary \<times> int" where
  "waiting_ci_summary version = (waiting_for_ci_summary, version)"

definition failure_json :: "failure_detail \<Rightarrow> json" where
  "failure_json f = JObj ([(''name'', JStr (fd_name f)), (''reason'', JStr (fd_reason f)),
     (''fixHint'', JStr (fd_fix_hint f))] @ some_field ''url'' JStr (fd_url f))"

definition authored_json :: "authored_cache \<Rightarrow> json" where
  "authored_json c = JObj ([(''factsHash'', JStr (ac_hash c)), (''headline'', JStr (ac_headline c)),
     (''failures'', JArr (map failure_json (ac_failures c)))] @
     some_field ''permissionNote'' JStr (ac_note c) @ [(''authoredAt'', JStr (ac_authored_at c))])"

subsection \<open>What a fact replaces and what the limit evicts\<close>

lemma oldest_other_spec:
  assumes "oldest_other keep cs best = Some n" and "\<forall>m t. best = Some (m, t) \<longrightarrow> m \<noteq> keep"
  shows "n \<noteq> keep \<and>
    ((\<exists>f. (n, f) \<in> set cs \<and> (\<forall>(m, g) \<in> set cs. m \<noteq> keep \<longrightarrow> cf_observed_at f \<le> cf_observed_at g) \<and>
        (\<forall>m t. best = Some (m, t) \<longrightarrow> cf_observed_at f \<le> t)) \<or>
     (\<exists>t. best = Some (n, t) \<and> (\<forall>(m, g) \<in> set cs. m \<noteq> keep \<longrightarrow> t \<le> cf_observed_at g)))"
  using assms
proof (induction cs arbitrary: best)
  case Nil
  then show ?case by (cases best) auto
next
  case (Cons c cs)
  obtain m f where c: "c = (m, f)" by (cases c)
  consider (skip) "m = keep" | (first) "m \<noteq> keep" "best = None"
    | (older) l t where "m \<noteq> keep" "best = Some (l, t)" "cf_observed_at f < t"
    | (stay) l t where "m \<noteq> keep" "best = Some (l, t)" "\<not> cf_observed_at f < t"
    by (cases best) auto
  then show ?case
  proof cases
    case skip
    then show ?thesis using Cons.IH [of best] Cons.prems c by auto
  next
    case first
    then show ?thesis using Cons.IH [of "Some (m, cf_observed_at f)"] Cons.prems c by auto
  next
    case older
    have step: "oldest_other keep cs (Some (m, cf_observed_at f)) = Some n"
      using Cons.prems(1) c older by simp
    show ?thesis using Cons.IH [OF step] older c by (auto intro: order.trans less_imp_le)
  next
    case stay
    have step: "oldest_other keep cs (Some (l, t)) = Some n"
      using Cons.prems(1) c stay by simp
    show ?thesis using Cons.IH [OF step] Cons.prems(2) stay c by (auto intro: order.trans simp: not_less)
  qed
qed

lemma oldest_other_none:
  "oldest_other keep cs best = None \<longleftrightarrow> best = None \<and> (\<forall>(m, g) \<in> set cs. m = keep)"
  by (induction keep cs best rule: oldest_other.induct) (auto split: option.splits)

text \<open>What is kept after the eviction, given distinct names of which one is to be kept.\<close>

definition evicted_ok :: "nat \<Rightarrow> string \<Rightarrow> check_map \<Rightarrow> check_map \<Rightarrow> bool" where
  "evicted_ok limit keep cs cs' \<longleftrightarrow>
     distinct (map fst cs') \<and> set cs' \<subseteq> set cs \<and> map_of cs' keep = map_of cs keep \<and> length cs' \<le> max limit 1 \<and>
     (\<forall>(n, f) \<in> set cs - set cs'. \<forall>(m, g) \<in> set cs'. m \<noteq> keep \<longrightarrow> cf_observed_at f \<le> cf_observed_at g)"

lemma evict_loop_ok:
  assumes "distinct (map fst cs)" and "evict_loop limit keep cs tr = (cs', tr')"
  shows "evicted_ok limit keep cs cs'"
  using assms
proof (induction limit keep cs tr rule: evict_loop.induct)
  case (1 limit keep cs tr)
  show ?case
  proof (cases "length cs \<le> limit")
    case True
    then have "cs' = cs" using 1(3) by (subst (asm) evict_loop.simps) simp
    then show ?thesis using True 1(2) by (simp add: evicted_ok_def le_max_iff_disj)
  next
    case False
    show ?thesis
    proof (cases "oldest_other keep cs None")
      case None
      then have cs': "cs' = cs" using 1(3) False by (subst (asm) evict_loop.simps) simp
      have "set (map fst cs) \<subseteq> {keep}" using None by (auto simp: oldest_other_none)
      then have "card (set (map fst cs)) \<le> 1" using card_mono [of "{keep}"] by fastforce
      then have "length cs \<le> 1" using distinct_card [OF 1(2)] by simp
      then show ?thesis using cs' 1(2) by (simp add: evicted_ok_def le_max_iff_disj)
    next
      case (Some n)
      let ?rest = "AList.delete n cs"
      have loop: "evict_loop limit keep ?rest True = (cs', tr')"
        using 1(3) False Some by (subst (asm) evict_loop.simps) simp
      have dist: "distinct (map fst ?rest)" using 1(2) by (simp add: AList.delete_eq distinct_map_filter)
      have ih: "evicted_ok limit keep ?rest cs'" using 1(1) [OF False Some dist loop] .
      obtain f where f: "n \<noteq> keep" "(n, f) \<in> set cs"
          "\<forall>(m, g) \<in> set cs. m \<noteq> keep \<longrightarrow> cf_observed_at f \<le> cf_observed_at g"
        using oldest_other_spec [OF Some] by auto
      have rest: "set ?rest = {c \<in> set cs. fst c \<noteq> n}" by (auto simp: AList.delete_eq)
      have only: "c = (n, f)" if "c \<in> set cs" "fst c = n" for c
        using that f(2) 1(2) by (metis eq_key_imp_eq_value prod.collapse)
      have parts: "distinct (map fst cs')" "set cs' \<subseteq> set ?rest" "map_of cs' keep = map_of ?rest keep"
          "length cs' \<le> max limit 1"
          "\<forall>(l, g) \<in> set ?rest - set cs'. \<forall>(m, h) \<in> set cs'. m \<noteq> keep \<longrightarrow> cf_observed_at g \<le> cf_observed_at h"
        using ih unfolding evicted_ok_def by simp_all
      have keep: "map_of ?rest keep = map_of cs keep" using f(1) by (simp add: delete_conv')
      have "\<forall>(l, g) \<in> set cs - set cs'. \<forall>(m, h) \<in> set cs'. m \<noteq> keep \<longrightarrow> cf_observed_at g \<le> cf_observed_at h"
      proof (intro ballI, clarify)
        fix l g m h
        assume lg: "(l, g) \<in> set cs" "(l, g) \<notin> set cs'" and mh: "(m, h) \<in> set cs'" "m \<noteq> keep"
        have "(m, h) \<in> set cs" using mh(1) parts(2) rest by auto
        show "cf_observed_at g \<le> cf_observed_at h"
        proof (cases "l = n")
          case True
          then show ?thesis using only [OF lg(1)] f(3) mh(2) \<open>(m, h) \<in> set cs\<close> by auto
        next
          case False
          then have "(l, g) \<in> set ?rest - set cs'" using lg rest by simp
          then show ?thesis using parts(5) mh by fastforce
        qed
      qed
      moreover have "set cs' \<subseteq> set cs" using parts(2) rest by auto
      ultimately show ?thesis using parts(1,3,4) keep unfolding evicted_ok_def by simp
    qed
  qed
qed

lemma evict_loop_idle: "length cs \<le> limit \<Longrightarrow> evict_loop limit keep cs tr = (cs, tr)"
  by (simp add: evict_loop.simps)

definition keyed_checks :: "check_map \<Rightarrow> bool" where
  "keyed_checks cs \<longleftrightarrow> distinct (map fst cs) \<and> (\<forall>(n, f) \<in> set cs. cf_name f = n)"

lemma checks_lookup: "keyed_checks cs \<Longrightarrow> map_of cs n = Some f \<longleftrightarrow> (n, f) \<in> set cs"
  by (simp add: keyed_checks_def)

lemma checks_update: "keyed_checks cs \<Longrightarrow> keyed_checks (AList.update (cf_name f) f cs)"
proof -
  assume keyed: "keyed_checks cs"
  let ?u = "AList.update (cf_name f) f cs"
  have dist: "distinct (map fst ?u)" using keyed by (simp add: keyed_checks_def distinct_update)
  have "cf_name g = n" if "(n, g) \<in> set ?u" for n g
  proof -
    have "map_of ?u n = Some g" using that dist by simp
    then show ?thesis using checks_lookup [OF keyed] keyed
      by (auto simp: update_conv' keyed_checks_def split: if_splits)
  qed
  then show ?thesis using dist by (auto simp: keyed_checks_def)
qed

lemma apply_fact_cases [case_names Old New]:
  obtains (Old) e where "map_of cs (cf_name f) = Some e" "cf_observed_at f \<le> cf_observed_at e"
      "apply_ci_check_fact cs f limit = \<lparr>ap_checks = cs, ap_accepted = False, ap_truncated = False\<rparr>"
    | (New) cs' tr where "\<forall>e. map_of cs (cf_name f) = Some e \<longrightarrow> cf_observed_at e < cf_observed_at f"
      "evict_loop limit (cf_name f) (AList.update (cf_name f) f cs) False = (cs', tr)"
      "apply_ci_check_fact cs f limit = \<lparr>ap_checks = cs', ap_accepted = True, ap_truncated = tr\<rparr>"
proof (cases "map_of cs (cf_name f)")
  case None
  obtain cs' tr where "evict_loop limit (cf_name f) (AList.update (cf_name f) f cs) False = (cs', tr)" by fastforce
  then show thesis using None New by (simp add: apply_ci_check_fact_def)
next
  case (Some e)
  obtain cs' tr where "evict_loop limit (cf_name f) (AList.update (cf_name f) f cs) False = (cs', tr)" by fastforce
  then show thesis using Some Old New
    by (cases "cf_observed_at f \<le> cf_observed_at e") (simp_all add: apply_ci_check_fact_def not_le)
qed


lemma apply_fact_keyed:
  assumes "keyed_checks cs"
  shows "keyed_checks (ap_checks (apply_ci_check_fact cs f limit))"
proof (cases rule: apply_fact_cases [where cs = cs and f = f and limit = limit, case_names Old New])
  case (New cs' tr)
  have "keyed_checks (AList.update (cf_name f) f cs)" using assms by (rule checks_update)
  moreover from this have "evicted_ok limit (cf_name f) (AList.update (cf_name f) f cs) cs'"
    using evict_loop_ok [OF _ New(2)] by (simp add: keyed_checks_def)
  ultimately have "keyed_checks cs'" by (auto simp: keyed_checks_def evicted_ok_def)
  then show ?thesis using New(3) by simp
qed (use assms in simp)

lemma apply_fact_bound:
  assumes "keyed_checks cs" and "length cs \<le> limit" and "1 \<le> limit"
  shows "length (ap_checks (apply_ci_check_fact cs f limit)) \<le> limit"
proof (cases rule: apply_fact_cases [where cs = cs and f = f and limit = limit, case_names Old New])
  case (New cs' tr)
  have "evicted_ok limit (cf_name f) (AList.update (cf_name f) f cs) cs'"
    using evict_loop_ok [OF _ New(2)] checks_update [OF assms(1)] by (simp add: keyed_checks_def)
  then show ?thesis using New(3) assms(3) by (simp add: evicted_ok_def)
qed (use assms in simp)

text \<open>The newer of what is stored under the name of a fact and the fact.\<close>

definition newer :: "ci_fact \<Rightarrow> ci_fact option \<Rightarrow> ci_fact option" where
  "newer f old = (case old of
      Some e \<Rightarrow> if cf_observed_at f \<le> cf_observed_at e then Some e else Some f | None \<Rightarrow> Some f)"

lemma apply_fact_lookup:
  assumes "keyed_checks cs" and "card (insert (cf_name f) (fst ` set cs)) \<le> limit"
  shows "map_of (ap_checks (apply_ci_check_fact cs f limit)) n =
    (if n = cf_name f then newer f (map_of cs n) else map_of cs n)"
proof (cases rule: apply_fact_cases [where cs = cs and f = f and limit = limit, case_names Old New])
  case (New cs' tr)
  let ?u = "AList.update (cf_name f) f cs"
  have "keyed_checks ?u" using assms(1) by (rule checks_update)
  then have "length ?u = card (fst ` set ?u)" using distinct_card [of "map fst ?u"] by (simp add: keyed_checks_def)
  also have "fst ` set ?u = insert (cf_name f) (fst ` set cs)"
    using arg_cong [OF update_conv' [of "cf_name f" f cs], of dom] by (simp add: dom_map_of_conv_image_fst)
  finally have "cs' = ?u" using New(2) assms(2) by (simp add: evict_loop_idle)
  then show ?thesis using New(1,3) by (auto simp: update_conv' newer_def not_le split: option.splits)
qed (auto simp: newer_def)

text \<open>Delivering facts one after another.\<close>

definition deliver :: "nat \<Rightarrow> ci_fact list \<Rightarrow> check_map \<Rightarrow> check_map" where
  "deliver limit = fold (\<lambda>f cs. ap_checks (apply_ci_check_fact cs f limit))"

lemma deliver_lookup:
  assumes "keyed_checks cs" and "card (fst ` set cs \<union> cf_name ` set fs) \<le> limit"
  shows "map_of (deliver limit fs cs) n = fold newer (filter (\<lambda>f. cf_name f = n) fs) (map_of cs n) \<and>
    keyed_checks (deliver limit fs cs)"
  using assms
proof (induction fs arbitrary: cs)
  case Nil
  then show ?case by (simp add: deliver_def)
next
  case (Cons f fs)
  let ?cs = "ap_checks (apply_ci_check_fact cs f limit)"
  have "card (insert (cf_name f) (fst ` set cs)) \<le> limit"
    using Cons.prems(2) card_mono [of "fst ` set cs \<union> cf_name ` set (f # fs)" "insert (cf_name f) (fst ` set cs)"]
    by (simp add: subset_iff)
  then have look: "map_of ?cs m = (if m = cf_name f then newer f (map_of cs m) else map_of cs m)" for m
    using apply_fact_lookup [OF Cons.prems(1)] by blast
  have "dom (map_of ?cs) \<subseteq> insert (cf_name f) (dom (map_of cs))"
    using look by (auto simp: dom_def split: if_splits)
  then have "fst ` set ?cs \<union> cf_name ` set fs \<subseteq> fst ` set cs \<union> cf_name ` set (f # fs)"
    by (auto simp: dom_map_of_conv_image_fst)
  then have "card (fst ` set ?cs \<union> cf_name ` set fs) \<le> card (fst ` set cs \<union> cf_name ` set (f # fs))"
    by (intro card_mono) simp_all
  then have "card (fst ` set ?cs \<union> cf_name ` set fs) \<le> limit"
    using Cons.prems(2) by (rule order.trans)
  then have ih: "map_of (deliver limit fs ?cs) n = fold newer (filter (\<lambda>f. cf_name f = n) fs) (map_of ?cs n)"
      "keyed_checks (deliver limit fs ?cs)"
    using Cons.IH [OF apply_fact_keyed [OF Cons.prems(1)]] by simp_all
  have "deliver limit (f # fs) cs = deliver limit fs ?cs" by (simp add: deliver_def)
  moreover have "fold newer (filter (\<lambda>f. cf_name f = n) (f # fs)) (map_of cs n) =
      fold newer (filter (\<lambda>f. cf_name f = n) fs) (map_of ?cs n)"
    using look [of n] by auto
  ultimately show ?case using ih by simp
qed

lemma newer_commute:
  "cf_observed_at f \<noteq> cf_observed_at g \<or> f = g \<Longrightarrow> newer f \<circ> newer g = newer g \<circ> newer f"
  by (rule ext) (auto simp: newer_def split: option.splits)

lemma deliver_any_order:
  assumes "mset fs = mset gs" and "inj_on (\<lambda>f. (cf_name f, cf_observed_at f)) (set fs)"
    and "keyed_checks cs" and "card (fst ` set cs \<union> cf_name ` set fs) \<le> limit"
  shows "map_of (deliver limit fs cs) = map_of (deliver limit gs cs)"
proof
  fix n
  let ?p = "\<lambda>f. cf_name f = n"
  have "fold newer (filter ?p fs) = fold newer (filter ?p gs)"
  proof (rule fold_multiset_equiv)
    fix f g assume "f \<in> set (filter ?p fs)" "g \<in> set (filter ?p fs)"
    then have "cf_observed_at f \<noteq> cf_observed_at g \<or> f = g"
      using inj_onD [OF assms(2), of f g] by auto
    then show "newer f \<circ> newer g = newer g \<circ> newer f" by (rule newer_commute)
  qed (simp add: assms(1))
  moreover have "set gs = set fs" using assms(1) by (metis mset_eq_setD)
  ultimately show "map_of (deliver limit fs cs) n = map_of (deliver limit gs cs) n"
    using assms(3,4) by (simp add: deliver_lookup)
qed

subsection \<open>The first listing\<close>

lemma seed_loop_deliver: "fst (seed_loop limit fs (cs, tr)) = deliver limit fs cs"
proof (induction fs arbitrary: cs tr)
  case (Cons f fs)
  show ?case
    by (cases rule: apply_fact_cases [where cs = cs and f = f and limit = limit, case_names Old New])
      (simp_all add: Cons.IH deliver_def Let_def)
qed (simp add: deliver_def)

lemma update_fresh: "k \<notin> fst ` set al \<Longrightarrow> AList.update k v al = al @ [(k, v)]"
  by (induction al) auto

lemma deliver_distinct:
  assumes "distinct (map cf_name fs)" and "fst ` set cs \<inter> cf_name ` set fs = {}"
    and "length cs + length fs \<le> limit"
  shows "deliver limit fs cs = cs @ map (\<lambda>f. (cf_name f, f)) fs"
  using assms
proof (induction fs arbitrary: cs)
  case (Cons f fs)
  have fresh: "cf_name f \<notin> fst ` set cs" using Cons.prems(2) by auto
  then have "map_of cs (cf_name f) = None" by (simp add: map_of_eq_None_iff)
  then have "ap_checks (apply_ci_check_fact cs f limit) = cs @ [(cf_name f, f)]"
    using Cons.prems(3) by (simp add: apply_ci_check_fact_def update_fresh [OF fresh] evict_loop_idle)
  then have "deliver limit (f # fs) cs = deliver limit fs (cs @ [(cf_name f, f)])"
    by (simp add: deliver_def)
  also have "\<dots> = (cs @ [(cf_name f, f)]) @ map (\<lambda>f. (cf_name f, f)) fs"
    using Cons.prems by (intro Cons.IH) auto
  finally show ?case by simp
qed (simp add: deliver_def)


definition sample_run :: "int \<Rightarrow> string \<Rightarrow> string \<Rightarrow> check_run" where
  "sample_run n name conclusion = \<lparr>cr_id = n, cr_name = name, cr_external_id = None, cr_app_id = Some 15368,
     cr_status = ''completed'', cr_conclusion = Some conclusion, cr_url = None, cr_started_at = None,
     cr_completed_at = None\<rparr>"

definition sample_identity :: own_check_identity where
  "sample_identity = \<lparr>oc_app_id = ''7'', oc_item = None\<rparr>"

lemma int_text_eval: "int_text 15368 = ''15368''"
  by (simp add: int_text_def nat_text.simps digit_char_def)



subsection \<open>The summary\<close>

lemma summary_classification:
  "classify_github_snapshot (map fact_run (filter (\<lambda>f. cf_source f = CheckRunSource) fs))
     (map fact_status (filter (\<lambda>f. cf_source f = StatusSource) fs)) = classify_snapshot fs"
proof -
  let ?cs = "map fact_run (filter (\<lambda>f. cf_source f = CheckRunSource) fs)"
  let ?ss = "map fact_status (filter (\<lambda>f. cf_source f = StatusSource) fs)"
  let ?all = "map (\<lambda>r. check_run_fact r snapshot_observed_at) ?cs @ map (\<lambda>s. legacy_status_fact s snapshot_observed_at) ?ss"
  have same: "is_check_fact_failing (check_run_fact (fact_run f) t) = is_check_fact_failing f"
      "is_check_fact_pending (check_run_fact (fact_run f) t) = is_check_fact_pending f"
    if "cf_source f = CheckRunSource" for f t
    using that by (simp_all add: check_run_fact_def fact_run_def is_check_fact_failing_def is_check_fact_pending_def)
  have same': "is_check_fact_failing (legacy_status_fact (fact_status f) t) = is_check_fact_failing f"
      "is_check_fact_pending (legacy_status_fact (fact_status f) t) = is_check_fact_pending f"
    if "cf_source f = StatusSource" for f t
    using that by (simp_all add: legacy_status_fact_def fact_status_def is_check_fact_failing_def is_check_fact_pending_def)
  have source: "cf_source f = CheckRunSource \<or> cf_source f = StatusSource" for f by (cases "cf_source f") simp_all
  have "list_ex is_check_fact_failing ?all = list_ex is_check_fact_failing fs"
      "list_ex is_check_fact_pending ?all = list_ex is_check_fact_pending fs"
    using source by (fastforce simp: list_ex_iff bex_Un same same')+
  moreover have "?all = [] \<longleftrightarrow> fs = []"
    using source [of "hd fs"] by (cases fs) auto
  ultimately show ?thesis by (simp add: classify_github_snapshot_def classify_snapshot_def)
qed

lemma summary_of_facts:
  "sy_status (summarize_ci_facts checks None None) =
    (case classify_snapshot (map snd checks) of RollupPassing \<Rightarrow> CiPassing | RollupFailing \<Rightarrow> CiFailing
       | RollupPending \<Rightarrow> CiPending | RollupNone \<Rightarrow> CiNone | RollupUnknown \<Rightarrow> CiUnavailable)"
  by (simp add: summarize_ci_facts_def summarize_ci_snapshot_def summary_classification unavailable_sources_def Let_def
      split: ci_rollup.splits)

end
