(* ===== verification/Github_Capabilities.thy ===== *)
theory Github_Capabilities
  imports Ci_Facts Work_Items
begin

text \<open>
  What a GitHub installation may do: \<^verbatim>\<open>src/github/installationCapabilities.ts\<close> and
  \<^verbatim>\<open>src/agentWork/githubCapabilityRepository.ts\<close>, which keeps what was observed of a repository and, for each
  head under watch, whether its check runs and its commit statuses can be read.

  The state adds four tables to the database: the heads (\<^verbatim>\<open>pr_head_ci_state\<close>), the capabilities of a
  repository, the sources of a head and, for each work item, the columns that no statement of the program changes. A
  transaction that locks the row of the head is one step. \<open>isConfirmedCapabilityDenial\<close> matches the message of an
  error and is left out.
\<close>

subsection \<open>Operations and permissions\<close>

datatype installation_operation =
    PullRequestsRead | ContentsRead | ReviewWrite | CommentsWrite | ChecksRead | ChecksWrite | StatusesRead
  | StatusesWrite | ActionsRead | LabelsRead | LabelsWrite | ReactionsWrite

definition installation_operations :: "installation_operation list" where
  "installation_operations = [PullRequestsRead, ContentsRead, ReviewWrite, CommentsWrite, ChecksRead, ChecksWrite,
     StatusesRead, StatusesWrite, ActionsRead, LabelsRead, LabelsWrite, ReactionsWrite]"

fun operation_name :: "installation_operation \<Rightarrow> string" where
  "operation_name PullRequestsRead = ''pullRequestsRead''"
| "operation_name ContentsRead = ''contentsRead''"
| "operation_name ReviewWrite = ''reviewWrite''"
| "operation_name CommentsWrite = ''commentsWrite''"
| "operation_name ChecksRead = ''checksRead''"
| "operation_name ChecksWrite = ''checksWrite''"
| "operation_name StatusesRead = ''statusesRead''"
| "operation_name StatusesWrite = ''statusesWrite''"
| "operation_name ActionsRead = ''actionsRead''"
| "operation_name LabelsRead = ''labelsRead''"
| "operation_name LabelsWrite = ''labelsWrite''"
| "operation_name ReactionsWrite = ''reactionsWrite''"

type_synonym permissions = "(string \<times> string) list"

text \<open>The permissions of which one grants the operation; the flag is whether it has to grant writing.\<close>

fun permission_alternatives :: "installation_operation \<Rightarrow> (string \<times> bool) list" where
  "permission_alternatives PullRequestsRead = [(''pull_requests'', False)]"
| "permission_alternatives ContentsRead = [(''contents'', False)]"
| "permission_alternatives ReviewWrite = [(''pull_requests'', True)]"
| "permission_alternatives CommentsWrite = [(''issues'', True), (''pull_requests'', True)]"
| "permission_alternatives ChecksRead = [(''checks'', False)]"
| "permission_alternatives ChecksWrite = [(''checks'', True)]"
| "permission_alternatives StatusesRead = [(''statuses'', False)]"
| "permission_alternatives StatusesWrite = [(''statuses'', True)]"
| "permission_alternatives ActionsRead = [(''actions'', False)]"
| "permission_alternatives LabelsRead = [(''issues'', False), (''pull_requests'', False)]"
| "permission_alternatives LabelsWrite = [(''issues'', True), (''pull_requests'', True)]"
| "permission_alternatives ReactionsWrite = [(''issues'', True), (''pull_requests'', True)]"

definition known_permissions :: "string list" where
  "known_permissions = concat (map (\<lambda>op. map fst (permission_alternatives op)) installation_operations)"

fun parse_grants :: "fields \<Rightarrow> permissions option" where
  "parse_grants [] = Some []"
| "parse_grants ((k, v) # kvs) =
     (if k \<in> {''__proto__'', ''constructor'', ''prototype''} then None
      else case v of
        JStr g \<Rightarrow> if g \<notin> {''read'', ''write'', ''admin''} \<or> g = ''admin'' \<and> k \<in> set known_permissions then None
          else map_option (\<lambda>ps. (k, g) # ps) (parse_grants kvs)
      | _ \<Rightarrow> None)"

fun parse_installation_permissions :: "json \<Rightarrow> permissions option" where
  "parse_installation_permissions (JObj kvs) = parse_grants kvs"
| "parse_installation_permissions _ = None"

record capability_scope =
  cs_app_id :: string
  cs_installation :: int
  cs_owner :: string
  cs_repo :: string

record installation_capabilities =
  ic_scope :: capability_scope
  ic_generation :: string
  ic_availability :: "installation_operation \<Rightarrow> ci_access"
  ic_permissions :: "permissions option"

definition uniform_capabilities :: "capability_scope \<Rightarrow> string \<Rightarrow> ci_access \<Rightarrow> installation_capabilities" where
  "uniform_capabilities scope g a =
     \<lparr>ic_scope = scope, ic_generation = g, ic_availability = (\<lambda>_. a), ic_permissions = None\<rparr>"

definition unknown_installation_capabilities :: "capability_scope \<Rightarrow> string \<Rightarrow> installation_capabilities" where
  "unknown_installation_capabilities scope g = uniform_capabilities scope g AccessUnknown"

definition denied_installation_capabilities :: "capability_scope \<Rightarrow> string \<Rightarrow> installation_capabilities" where
  "denied_installation_capabilities scope g = uniform_capabilities scope g AccessDenied"

definition available_installation_capabilities :: "capability_scope \<Rightarrow> string \<Rightarrow> installation_capabilities" where
  "available_installation_capabilities scope g = uniform_capabilities scope g AccessAvailable"

definition grants :: "permissions \<Rightarrow> string \<times> bool \<Rightarrow> bool" where
  "grants ps alt = (case alt of (name, must_write) \<Rightarrow>
     map_of ps name = Some ''write'' \<or> \<not> must_write \<and> map_of ps name = Some ''read'')"

definition installation_capabilities_from_permissions ::
  "capability_scope \<Rightarrow> string \<Rightarrow> permissions \<Rightarrow> installation_capabilities" where
  "installation_capabilities_from_permissions scope g ps =
     \<lparr>ic_scope = scope, ic_generation = g,
      ic_availability = (\<lambda>op. if list_ex (grants ps) (permission_alternatives op) then AccessAvailable else AccessDenied),
      ic_permissions = Some ps\<rparr>"

text \<open>Stored capabilities are a partial record.\<close>

type_synonym stored_capabilities = "installation_operation \<Rightarrow> ci_access option"

definition capability_observation_unconfirmed :: "stored_capabilities \<Rightarrow> bool" where
  "capability_observation_unconfirmed av \<longleftrightarrow> list_ex (\<lambda>op. av op = Some AccessUnknown) installation_operations"

definition essential_installation_operations :: "installation_operation list" where
  "essential_installation_operations = [PullRequestsRead, ContentsRead, ReviewWrite, CommentsWrite]"

definition essential_capabilities_denied :: "installation_capabilities \<Rightarrow> installation_operation list" where
  "essential_capabilities_denied c =
     filter (\<lambda>op. ic_availability c op = AccessDenied) essential_installation_operations"

definition essential_access_denied :: "installation_capabilities \<Rightarrow> js_error" where
  "essential_access_denied c = AppError ''github'' ''essential_access_denied''
     [(''operations'', JArr (map (JStr \<circ> operation_name) (essential_capabilities_denied c))),
      (''appId'', JStr (cs_app_id (ic_scope c))), (''installationId'', JNum (cs_installation (ic_scope c))),
      (''owner'', JStr (cs_owner (ic_scope c))), (''repo'', JStr (cs_repo (ic_scope c))),
      (''generation'', JStr (ic_generation c))]"

definition preflight_unavailable :: js_error where
  "preflight_unavailable = AppError ''github'' ''preflight_unavailable'' []"

definition assert_essential_installation_capabilities :: "installation_capabilities \<Rightarrow> js_error option" where
  "assert_essential_installation_capabilities c =
     (if essential_capabilities_denied c \<noteq> [] then Some (essential_access_denied c)
      else if list_ex (\<lambda>op. ic_availability c op = AccessUnknown) essential_installation_operations
      then Some preflight_unavailable else None)"

subsection \<open>The policy of a run\<close>

record capability_policy =
  cp_observation :: installation_capabilities
  cp_denied :: "installation_operation list"

definition create_review_capability_policy :: "installation_capabilities \<Rightarrow> capability_policy" where
  "create_review_capability_policy c = \<lparr>cp_observation = c, cp_denied = []\<rparr>"

definition policy_access :: "capability_policy \<Rightarrow> installation_operation \<Rightarrow> ci_access" where
  "policy_access p op = (if op \<in> set (cp_denied p) then AccessDenied else ic_availability (cp_observation p) op)"

text \<open>The first denial of an operation is reported, and the operation stays denied even when the report fails.\<close>

definition policy_deny ::
  "(installation_operation \<Rightarrow> ('s, unit) prog) \<Rightarrow> capability_policy \<Rightarrow> installation_operation \<Rightarrow>
   capability_policy \<times> ('s, unit) prog" where
  "policy_deny on_denied p op =
     (if op \<in> set (cp_denied p) then (p, returnP ())
      else (p\<lparr>cp_denied := op # cp_denied p\<rparr>, on_denied op))"

subsection \<open>The tables\<close>

record head_row =
  h_owner :: string
  h_repo :: string
  h_sha :: string
  h_checks :: check_map
  h_rollup :: ci_rollup
  h_version :: int
  h_authored :: "json option"
  h_pr_numbers :: json
  h_truncated :: bool
  h_seeded_at :: "time option"
  h_repair :: bool
  h_first_seen :: time
  h_updated :: time

type_synonym head_key = "string \<times> string \<times> string"

definition head_key :: "head_row \<Rightarrow> head_key" where
  "head_key h = (h_owner h, h_repo h, h_sha h)"

type_synonym repository_key = "int \<times> string \<times> string"

record capability_row =
  rc_key :: repository_key
  rc_generation :: int
  rc_capabilities :: stored_capabilities
  rc_observed_at :: time

datatype source_kind = ChecksSource | StatusesSource

record source_row =
  sr_installation :: int
  sr_head :: head_key
  sr_kind :: source_kind
  sr_generation :: int
  sr_access :: ci_access
  sr_listing_required :: bool
  sr_unknown_reads :: nat
  sr_updated :: time

definition source_key :: "source_row \<Rightarrow> int \<times> head_key \<times> source_kind" where
  "source_key s = (sr_installation s, sr_head s, sr_kind s)"

record item_scope =
  is_owner :: string
  is_repo :: string
  is_pr :: int
  is_installation :: int

record ci_db =
  cdb :: db
  cd_scope :: "item_id \<Rightarrow> item_scope"
  cd_heads :: "head_row list"
  cd_caps :: "capability_row list"
  cd_sources :: "source_row list"
  cd_generation :: int
  cd_preflight :: "item_id \<Rightarrow> int"

definition head_at :: "ci_db \<Rightarrow> head_key \<Rightarrow> head_row option" where
  "head_at c k = row_at head_key k (cd_heads c)"

definition caps_at :: "ci_db \<Rightarrow> repository_key \<Rightarrow> capability_row option" where
  "caps_at c k = row_at rc_key k (cd_caps c)"

definition source_at :: "ci_db \<Rightarrow> int \<times> head_key \<times> source_kind \<Rightarrow> source_row option" where
  "source_at c k = row_at source_key k (cd_sources c)"

definition update_head :: "head_key \<Rightarrow> (head_row \<Rightarrow> head_row) \<Rightarrow> ci_db \<Rightarrow> ci_db" where
  "update_head k f c = c\<lparr>cd_heads := update_where (\<lambda>h. head_key h = k) f (cd_heads c)\<rparr>"

abbreviation clock_of :: "ci_db \<Rightarrow> time" where
  "clock_of c \<equiv> now (cdb c)"

subsection \<open>Observations of a repository\<close>

definition next_github_capability_observation_generation :: "ci_db \<Rightarrow> string \<times> ci_db" where
  "next_github_capability_observation_generation c =
     (int_text (cd_generation c + 1), c\<lparr>cd_generation := cd_generation c + 1\<rparr>)"

definition load_github_capability_observation :: "repository_key \<Rightarrow> ci_db \<Rightarrow> (int \<times> stored_capabilities) option" where
  "load_github_capability_observation k c =
     map_option (\<lambda>r. (rc_generation r, rc_capabilities r)) (caps_at c k)"

fun source_operation :: "source_kind \<Rightarrow> installation_operation" where
  "source_operation ChecksSource = ChecksRead"
| "source_operation StatusesSource = StatusesRead"

definition observed_access :: "(int \<times> stored_capabilities) option \<Rightarrow> source_kind \<Rightarrow> ci_access" where
  "observed_access obs s =
     (case obs of None \<Rightarrow> AccessUnknown
      | Some (_, caps) \<Rightarrow> (case caps (source_operation s) of None \<Rightarrow> AccessUnknown | Some a \<Rightarrow> a))"

definition foreign_key_violation :: js_error where
  "foreign_key_violation = ForeignError \<lparr>fe_status = None, fe_not_accepted = False, fe_response = None,
     fe_code = Some ''23503''\<rparr>"

text \<open>
  The upsert of one source: what it answers is whether the access changed and whether an unknown source was
  reopened.
\<close>

definition sync_source_statement ::
  "int \<Rightarrow> head_key \<Rightarrow> int \<Rightarrow> ci_access \<Rightarrow> source_kind \<Rightarrow> ci_db \<Rightarrow> (js_error + (bool \<times> bool)) \<times> ci_db" where
  "sync_source_statement inst k g a s c =
     (let prior = source_at c (inst, k, s);
          new = \<lparr>sr_installation = inst, sr_head = k, sr_kind = s, sr_generation = g, sr_access = a,
                 sr_listing_required = True, sr_unknown_reads = 0, sr_updated = clock_of c\<rparr>
      in if prior = None \<and> head_at c k = None then (Inl foreign_key_violation, c)
         else (case upsert source_key new
             (\<lambda>p. sr_generation p < g \<or> sr_generation p = g \<and> a = AccessDenied \<and> sr_access p \<noteq> AccessDenied)
             (\<lambda>p. p\<lparr>sr_generation := g, sr_access := a,
                    sr_listing_required := (if sr_access p \<noteq> a then True else sr_listing_required p),
                    sr_unknown_reads := 0, sr_updated := clock_of c\<rparr>) (cd_sources c) of
             (None, _) \<Rightarrow> (Inr (False, False), c)
           | (Some _, rows) \<Rightarrow> (Inr (case prior of
                 None \<Rightarrow> (True, False)
               | Some p \<Rightarrow> (sr_access p \<noteq> a, sr_access p = AccessUnknown \<and> 0 < sr_unknown_reads p)),
               c\<lparr>cd_sources := rows\<rparr>)))"

definition head_touched :: "bool \<Rightarrow> time \<Rightarrow> head_row \<Rightarrow> head_row" where
  "head_touched changed t h = h\<lparr>h_version := h_version h + (if changed then 1 else 0), h_repair := True, h_updated := t\<rparr>"

definition sync_sources :: "int \<Rightarrow> head_key \<Rightarrow> (int \<times> stored_capabilities) option \<Rightarrow> (ci_db, unit) prog" where
  "sync_sources inst k obs =
     (let g = (case obs of None \<Rightarrow> 0 | Some (n, _) \<Rightarrow> n);
          one = (\<lambda>s c. sync_source_statement inst k g (observed_access obs s) s c)
      in bindP (one ChecksSource) (\<lambda>(changed1, reopened1).
         bindP (one StatusesSource) (\<lambda>(changed2, reopened2).
           if changed1 \<or> changed2 \<or> reopened1 \<or> reopened2
           then stepP (\<lambda>c. ((), update_head k (head_touched (changed1 \<or> changed2) (clock_of c)) c))
           else returnP ())))"

fun for_each :: "'a list \<Rightarrow> ('a \<Rightarrow> ('s, unit) prog) \<Rightarrow> ('s, unit) prog" where
  "for_each [] f = returnP ()"
| "for_each (x # xs) f = thenP (f x) (for_each xs f)"

definition capability_fanout_batch_size :: nat where
  "capability_fanout_batch_size = 100"

definition fanout_heads :: "repository_key \<Rightarrow> ci_db \<Rightarrow> head_key list" where
  "fanout_heads rk c = (case rk of (inst, owner, repo) \<Rightarrow>
     map (\<lambda>sha. (owner, repo, sha)) (take capability_fanout_batch_size (sort (map h_sha
       (filter (\<lambda>h. h_owner h = owner \<and> h_repo h = repo \<and>
          list_ex (\<lambda>s. sr_installation s = inst \<and> sr_head s = head_key h) (cd_sources c)) (cd_heads c))))))"

definition fanout_observation :: "repository_key \<Rightarrow> int \<times> stored_capabilities \<Rightarrow> (ci_db, unit) prog" where
  "fanout_observation rk obs =
     bindP (readP (fanout_heads rk)) (\<lambda>heads. for_each heads (\<lambda>k. sync_sources (fst rk) k (Some obs)))"

text \<open>A prior denial outlives an observation that does not know.\<close>

definition merge_capabilities :: "stored_capabilities \<Rightarrow> stored_capabilities \<Rightarrow> stored_capabilities" where
  "merge_capabilities prior new = (\<lambda>op.
     if prior op = Some AccessDenied \<and> new op \<in> {None, Some AccessUnknown} then Some AccessDenied else new op)"

definition unordered_generation :: js_error where
  "unordered_generation = PlainError ''GitHub capability observation requires an ordered numeric generation''"

definition save_observation_statement ::
  "repository_key \<Rightarrow> int \<Rightarrow> stored_capabilities \<Rightarrow> ci_db \<Rightarrow> capability_row option \<times> ci_db" where
  "save_observation_statement rk g caps c =
     (case upsert rc_key \<lparr>rc_key = rk, rc_generation = g, rc_capabilities = caps, rc_observed_at = clock_of c\<rparr>
         (\<lambda>r. rc_generation r < g)
         (\<lambda>r. r\<lparr>rc_generation := g, rc_capabilities := merge_capabilities (rc_capabilities r) caps,
                rc_observed_at := clock_of c\<rparr>) (cd_caps c) of
        (r, rows) \<Rightarrow> (r, c\<lparr>cd_caps := rows\<rparr>))"

definition save_github_capability_observation ::
  "repository_key \<Rightarrow> int option \<Rightarrow> stored_capabilities \<Rightarrow> (ci_db, bool) prog" where
  "save_github_capability_observation rk gen caps =
     (case gen of
        None \<Rightarrow> throwP unordered_generation
      | Some g \<Rightarrow>
          if \<not> is_safe_integer g \<or> g < 0 then throwP unordered_generation
          else in_transaction (bindP (stepP (save_observation_statement rk g caps)) (\<lambda>saved.
            case saved of
              None \<Rightarrow> returnP False
            | Some r \<Rightarrow> thenP (fanout_observation rk (rc_generation r, rc_capabilities r)) (returnP True))))"

definition save_installation_capabilities :: "installation_capabilities \<Rightarrow> (ci_db, bool) prog" where
  "save_installation_capabilities c = save_github_capability_observation
     (cs_installation (ic_scope c), cs_owner (ic_scope c), cs_repo (ic_scope c))
     (number_of_text (ic_generation c)) (\<lambda>op. Some (ic_availability c op))"

definition denial_statement ::
  "repository_key \<Rightarrow> int \<Rightarrow> installation_operation \<Rightarrow> ci_db \<Rightarrow> capability_row option \<times> ci_db" where
  "denial_statement rk g op c =
     (let hit = (\<lambda>r. rc_key r = rk \<and> rc_generation r = g \<and> rc_capabilities r op \<noteq> Some AccessDenied);
          upd = (\<lambda>r. r\<lparr>rc_capabilities := (rc_capabilities r)(op := Some AccessDenied), rc_observed_at := clock_of c\<rparr>)
      in (map_option upd (find hit (cd_caps c)), c\<lparr>cd_caps := update_where hit upd (cd_caps c)\<rparr>))"

definition record_github_capability_denial ::
  "repository_key \<Rightarrow> int \<Rightarrow> installation_operation \<Rightarrow> (ci_db, bool) prog" where
  "record_github_capability_denial rk g op = in_transaction
     (bindP (stepP (denial_statement rk g op)) (\<lambda>row.
        case row of
          None \<Rightarrow> returnP False
        | Some r \<Rightarrow> thenP (fanout_observation rk (rc_generation r, rc_capabilities r)) (returnP True)))"

subsection \<open>The sources of a head\<close>

definition source_state_of :: "(int \<times> stored_capabilities) option \<Rightarrow> source_row option \<Rightarrow> source_kind \<Rightarrow> source_state" where
  "source_state_of obs row s =
     (case row of
        Some r \<Rightarrow> \<lparr>so_access = sr_access r, so_listing_required = sr_listing_required r,
                   so_unknown_reads = Some (sr_unknown_reads r)\<rparr>
      | None \<Rightarrow> \<lparr>so_access = observed_access obs s, so_listing_required = True, so_unknown_reads = Some 0\<rparr>)"

definition repository_of :: "int \<Rightarrow> head_key \<Rightarrow> repository_key" where
  "repository_of inst k = (case k of (owner, repo, sha) \<Rightarrow> (inst, owner, repo))"

definition load_github_ci_source_availability ::
  "int \<Rightarrow> head_key \<Rightarrow> (ci_db, source_availability \<times> int) prog" where
  "load_github_ci_source_availability inst k = in_transaction
     (bindP (readP (\<lambda>c. load_github_capability_observation (repository_of inst k) c)) (\<lambda>obs.
        thenP (bindP (readP (\<lambda>c. head_at c k)) (\<lambda>locked.
            case locked of None \<Rightarrow> returnP () | Some _ \<Rightarrow> sync_sources inst k obs))
          (readP (\<lambda>c. let state = (\<lambda>s. source_state_of obs (source_at c (inst, k, s)) s)
             in (\<lparr>sa_checks = state ChecksSource, sa_statuses = state StatusesSource\<rparr>,
                 case obs of None \<Rightarrow> 0 | Some (g, _) \<Rightarrow> g)))))"

text \<open>The read of a source under the generation that the reader saw; it answers whether the state changed.\<close>

definition source_read_statement ::
  "int \<Rightarrow> head_key \<Rightarrow> source_kind \<Rightarrow> int \<Rightarrow> ci_access \<Rightarrow> bool \<Rightarrow> ci_db \<Rightarrow> bool \<times> ci_db" where
  "source_read_statement inst k s g a complete c =
     (let required = (\<not> (a = AccessAvailable \<and> complete));
          upd = (\<lambda>r. r\<lparr>sr_access := a, sr_listing_required := required,
             sr_unknown_reads := (if a = AccessUnknown then sr_unknown_reads r + 1 else 0), sr_updated := clock_of c\<rparr>)
      in case source_at c (inst, k, s) of
           None \<Rightarrow> (False, c)
         | Some r \<Rightarrow>
             if sr_generation r = g \<and> \<not> (sr_access r = AccessDenied \<and> a \<noteq> AccessDenied) \<and>
                ((sr_access r, sr_listing_required r) \<noteq> (a, required) \<or> a = AccessUnknown)
             then ((sr_access r, sr_listing_required r) \<noteq> (a, required),
                   c\<lparr>cd_sources := update_where (\<lambda>x. source_key x = (inst, k, s)) upd (cd_sources c)\<rparr>)
             else (False, c))"

definition bump_version :: "head_key \<Rightarrow> ci_db \<Rightarrow> ci_db" where
  "bump_version k c = update_head k (\<lambda>h. h\<lparr>h_version := h_version h + 1, h_updated := clock_of c\<rparr>) c"

definition record_github_ci_source_read ::
  "int \<Rightarrow> head_key \<Rightarrow> source_kind \<Rightarrow> int \<Rightarrow> ci_access \<Rightarrow> bool \<Rightarrow> (ci_db, bool) prog" where
  "record_github_ci_source_read inst k s g a complete = in_transaction
     (bindP (readP (\<lambda>c. load_github_capability_observation (repository_of inst k) c)) (\<lambda>obs.
        thenP (sync_sources inst k obs)
          (bindP (stepP (source_read_statement inst k s g a complete)) (\<lambda>changed.
             thenP (if changed then stepP (\<lambda>c. ((), bump_version k c)) else returnP ()) (returnP changed)))))"

subsection \<open>Failed preflights\<close>

text \<open>
  The lock of the lease row keeps a renewal and a release away for the whole transaction, which is one step; the
  write asks for the lease again.
\<close>

definition preflight_statement :: "item_id \<Rightarrow> int \<Rightarrow> bool \<Rightarrow> ci_db \<Rightarrow> int option \<times> ci_db" where
  "preflight_statement i e reset c =
     (case item_at (cdb c) i of
        Some w \<Rightarrow>
          if w_status w = Running \<and> w_cancel_requested_at w = None \<and> lease_fence_sql (cdb c) i (Some e)
          then let n = (if reset then 0 else cd_preflight c i + 1)
               in (Some n, c\<lparr>cd_preflight := (cd_preflight c)(i := n)\<rparr>)
          else (None, c)
      | None \<Rightarrow> (None, c))"

definition on_cdb :: "(db, 'a) prog \<Rightarrow> (ci_db, 'a) prog" where
  "on_cdb m = (\<lambda>c. case m (cdb c) of (r, d) \<Rightarrow> (r, c\<lparr>cdb := d\<rparr>))"

definition change_github_preflight_failure_count :: "item_id \<Rightarrow> int \<Rightarrow> bool \<Rightarrow> (ci_db, int option) prog" where
  "change_github_preflight_failure_count i e reset = in_transaction
     (fenced_write (\<lambda>n. on_cdb (assert_pr_actor_lease_held i n)) (Some e) True (\<lambda>n. n = None)
        (stepP (preflight_statement i e reset)))"

subsection \<open>Retention\<close>

text \<open>\<open>LIMIT\<close> without an order takes any rows; here the first ones. \<open>limit\<close> is the batch size.\<close>

definition expired_capability :: "int \<Rightarrow> ci_db \<Rightarrow> capability_row \<Rightarrow> bool" where
  "expired_capability retention c r \<longleftrightarrow> rc_observed_at r < clock_of c - seconds retention \<and>
     \<not> exists_where (\<lambda>w. (let s = cd_scope c (w_id w) in (is_installation s, is_owner s, is_repo s)) = rc_key r)
       (items (cdb c))"

definition delete_expired_github_capabilities :: "int \<Rightarrow> nat \<Rightarrow> ci_db \<Rightarrow> nat \<times> ci_db" where
  "delete_expired_github_capabilities retention limit c =
     (let doomed = take limit (filter (expired_capability retention c) (cd_caps c))
      in (length doomed, c\<lparr>cd_caps := filter (\<lambda>r. rc_key r \<notin> rc_key ` set doomed) (cd_caps c)\<rparr>))"

end
