(* ===== verification/Head_Ci.thy ===== *)
theory Head_Ci
  imports Github_Capabilities
begin

text \<open>
  The state of the checks of a head: \<^verbatim>\<open>src/agentWork/prHeadCiState.ts\<close>, over the tables of
  \<open>Github_Capabilities\<close>.

  The stored facts are typed: every writer stores what \<open>asCheckMap\<close> accepts. They keep the order in which they
  were written, where \<^verbatim>\<open>jsonb\<close> orders them by name; no property depends on that order. A function that takes the client of a
  transaction, or runs in one that locks the row, is one step. Between its transaction and the query after it
  other sessions may commit \<open>env\<close>.

  The properties state, over all statements on these tables, that the stored rollup is the classification of the
  stored facts, that nothing a reader shows changes under an unchanged version, and that a denied permission stays
  denied until a newer observation grants it.
\<close>

subsection \<open>When a head has to be listed\<close>

definition head_ci_needs_seed :: "head_row option \<Rightarrow> bool" where
  "head_ci_needs_seed r = (case r of None \<Rightarrow> True | Some h \<Rightarrow> h_seeded_at h = None)"

datatype listing_phase = SeedPhase | PendingRefreshPhase | NoListing

definition unknown_ci_read_limit :: nat where
  "unknown_ci_read_limit = 3"

definition source_needs_listing :: "check_map \<Rightarrow> ci_source \<Rightarrow> source_state \<Rightarrow> bool" where
  "source_needs_listing checks src s =
     (if so_access s = AccessDenied then False
      else if so_access s = AccessUnknown \<and>
              unknown_ci_read_limit \<le> (case so_unknown_reads s of None \<Rightarrow> 0 | Some n \<Rightarrow> n) then False
      else so_access s = AccessUnknown \<or> so_listing_required s \<or>
           list_ex (\<lambda>f. cf_source f = src \<and> is_check_fact_pending f) (map snd checks))"

definition head_ci_listing_phase :: "head_row option \<Rightarrow> source_availability option \<Rightarrow> listing_phase" where
  "head_ci_listing_phase row av =
     (case (row, av) of
        (Some h, Some a) \<Rightarrow>
          if \<not> (source_needs_listing (h_checks h) CheckRunSource (sa_checks a) \<or>
                source_needs_listing (h_checks h) StatusSource (sa_statuses a)) then NoListing
          else if h_seeded_at h = None then SeedPhase else PendingRefreshPhase
      | (Some h, None) \<Rightarrow>
          if h_seeded_at h = None then SeedPhase
          else if h_rollup h = RollupUnknown then PendingRefreshPhase
          else if list_ex is_check_fact_pending (map snd (h_checks h)) then PendingRefreshPhase else NoListing
      | (None, _) \<Rightarrow> SeedPhase)"

subsection \<open>Facts of a delivery\<close>

definition new_head :: "time \<Rightarrow> head_key \<Rightarrow> json \<Rightarrow> head_row" where
  "new_head t k numbers = (case k of (owner, repo, sha) \<Rightarrow>
     \<lparr>h_owner = owner, h_repo = repo, h_sha = sha, h_checks = [], h_rollup = RollupNone, h_version = 0,
      h_authored = None, h_pr_numbers = numbers, h_truncated = False, h_seeded_at = None, h_repair = False,
      h_first_seen = t, h_updated = t\<rparr>)"

definition insert_head :: "head_key \<Rightarrow> ci_db \<Rightarrow> ci_db" where
  "insert_head k c = c\<lparr>cd_heads := snd (upsert head_key (new_head (clock_of c) k (JArr [])) (\<lambda>_. False) id (cd_heads c))\<rparr>"

definition ci_error :: "string \<Rightarrow> js_error" where
  "ci_error kind = AppError ''ci'' kind []"

definition ci_state_max_checks :: nat where
  "ci_state_max_checks = 200"

record fact_result =
  fr_accepted :: bool
  fr_version :: int
  fr_previous :: ci_rollup
  fr_rollup :: ci_rollup

definition fact_written :: "ci_fact \<Rightarrow> time \<Rightarrow> head_row \<Rightarrow> head_row" where
  "fact_written f t h = (let m = apply_ci_check_fact (h_checks h) f ci_state_max_checks
     in h\<lparr>h_checks := ap_checks m, h_rollup := classify_snapshot (map snd (ap_checks m)),
          h_version := h_version h + 1, h_truncated := h_truncated h \<or> ap_truncated m, h_updated := t\<rparr>)"

definition apply_pr_head_ci_fact :: "head_key \<Rightarrow> ci_fact \<Rightarrow> (ci_db, fact_result) prog" where
  "apply_pr_head_ci_fact k f =
     thenP (stepP (\<lambda>c. ((), insert_head k c))) (bindP (readP (\<lambda>c. head_at c k)) (\<lambda>locked.
       case locked of
         None \<Rightarrow> throwP (ci_error ''head_state_lock_missed'')
       | Some h \<Rightarrow>
           if \<not> ap_accepted (apply_ci_check_fact (h_checks h) f ci_state_max_checks)
           then returnP \<lparr>fr_accepted = False, fr_version = h_version h, fr_previous = h_rollup h, fr_rollup = h_rollup h\<rparr>
           else stepP (\<lambda>c. let h' = fact_written f (clock_of c) h
             in (\<lparr>fr_accepted = True, fr_version = h_version h', fr_previous = h_rollup h, fr_rollup = h_rollup h'\<rparr>,
                 update_head k (\<lambda>_. h') c))))"

subsection \<open>Reads and small writes\<close>

definition as_pr_numbers :: "json \<Rightarrow> int list" where
  "as_pr_numbers v = (case v of
      JArr xs \<Rightarrow> rev (remdups (rev (filter (\<lambda>n. 0 < n) (List.map_filter js_number xs))))
    | _ \<Rightarrow> [])"

definition at_head :: "ci_db \<Rightarrow> head_key \<Rightarrow> work_item \<Rightarrow> bool" where
  "at_head c k w \<longleftrightarrow> (is_owner (cd_scope c (w_id w)), is_repo (cd_scope c (w_id w)), w_head_sha w) = k"

definition list_pr_numbers_for_head_from_work_items :: "head_key \<Rightarrow> ci_db \<Rightarrow> int list" where
  "list_pr_numbers_for_head_from_work_items k c = sort (remdups (map (\<lambda>w. is_pr (cd_scope c (w_id w)))
     (select_where (\<lambda>w. at_head c k w \<and> w_head_sha w \<noteq> deferred_head_sha) (items (cdb c)))))"

fun newest_item :: "work_item list \<Rightarrow> work_item option" where
  "newest_item [] = None"
| "newest_item (w # ws) = (case newest_item ws of
     None \<Rightarrow> Some w | Some v \<Rightarrow> if w_created_at v \<le> w_created_at w then Some w else Some v)"

definition newest_head_sha_for_resource :: "string \<Rightarrow> ci_db \<Rightarrow> string option" where
  "newest_head_sha_for_resource key c = map_option w_head_sha
     (newest_item (select_where (\<lambda>w. w_resource_key w = key \<and> w_head_sha w \<noteq> deferred_head_sha) (items (cdb c))))"

definition store_pr_head_ci_authored :: "head_key \<Rightarrow> json \<Rightarrow> ci_db \<Rightarrow> unit \<times> ci_db" where
  "store_pr_head_ci_authored k a c = ((), update_head k (\<lambda>h. h\<lparr>h_authored := Some a, h_updated := clock_of c\<rparr>) c)"

definition store_pr_numbers_for_head :: "head_key \<Rightarrow> int list \<Rightarrow> ci_db \<Rightarrow> unit \<times> ci_db" where
  "store_pr_numbers_for_head k ns c =
     (if ns = [] then ((), c)
      else ((), c\<lparr>cd_heads := snd (upsert head_key (new_head (clock_of c) k (JArr (map JNum ns))) (\<lambda>_. True)
        (\<lambda>h. h\<lparr>h_pr_numbers := JArr (map JNum ns), h_updated := clock_of c\<rparr>) (cd_heads c))\<rparr>))"

definition list_terminal_reviews_for_head :: "head_key \<Rightarrow> int \<Rightarrow> ci_db \<Rightarrow> work_item list" where
  "list_terminal_reviews_for_head k pr c = filter (\<lambda>w. w_review_lens w \<noteq> None)
     (select_where (\<lambda>w. at_head c k w \<and> is_pr (cd_scope c (w_id w)) = pr \<and> w_type w = Review \<and>
        w_status w \<in> {Completed, Failed, Cancelled, Superseded}) (items (cdb c)))"

subsection \<open>Listings of GitHub\<close>

record github_snapshot =
  gs_runs :: "check_run list"
  gs_statuses :: "legacy_status list"
  gs_app_id :: string
  gs_runs_complete :: "bool option"

definition merge_locked_github_snapshot ::
  "(string \<Rightarrow> string option) \<Rightarrow> string \<Rightarrow> head_row \<Rightarrow> github_snapshot \<Rightarrow> merge_mode \<Rightarrow> merged_snapshot" where
  "merge_locked_github_snapshot parse_date clock h g mode =
     merge_github_snapshot_into_checks parse_date clock (h_checks h) (h_truncated h) (gs_runs g) (gs_statuses g)
       \<lparr>oc_app_id = gs_app_id g, oc_item = None\<rparr> (gs_runs_complete g) ci_state_max_checks mode"

definition seed_written ::
  "(string \<Rightarrow> string option) \<Rightarrow> string \<Rightarrow> github_snapshot \<Rightarrow> time \<Rightarrow> head_row \<Rightarrow> head_row" where
  "seed_written parse_date clock g t h = (let m = merge_locked_github_snapshot parse_date clock h g InitialSeed
     in h\<lparr>h_checks := ms_checks m, h_rollup := ms_rollup m, h_version := h_version h + 1,
          h_truncated := ms_truncated m, h_seeded_at := Some t, h_updated := t\<rparr>)"

text \<open>The transaction of the seed: the answer for a seeded head, or the rollup that the seed replaced.\<close>

definition seed_transaction ::
  "(string \<Rightarrow> string option) \<Rightarrow> string \<Rightarrow> head_key \<Rightarrow> github_snapshot \<Rightarrow>
   (ci_db, (head_row \<times> ci_rollup) + ci_rollup) prog" where
  "seed_transaction parse_date clock k g = in_transaction
     (thenP (stepP (\<lambda>c. ((), insert_head k c))) (bindP (readP (\<lambda>c. head_at c k)) (\<lambda>locked.
       case locked of
         None \<Rightarrow> throwP (ci_error ''head_state_lock_missed'')
       | Some h \<Rightarrow>
           if h_seeded_at h \<noteq> None then returnP (Inl (h, h_rollup h))
           else stepP (\<lambda>c. (Inr (h_rollup h), update_head k (seed_written parse_date clock g (clock_of c)) c)))))"

definition seed_pr_head_ci_state_from_snapshot ::
  "(string \<Rightarrow> string option) \<Rightarrow> string \<Rightarrow> (ci_db \<Rightarrow> ci_db) \<Rightarrow> head_key \<Rightarrow> github_snapshot \<Rightarrow>
   (ci_db, head_row \<times> ci_rollup) prog" where
  "seed_pr_head_ci_state_from_snapshot parse_date clock env k g =
     bindP (seed_transaction parse_date clock k g) (\<lambda>r. case r of
        Inl answer \<Rightarrow> returnP answer
      | Inr previous \<Rightarrow> bindP (stepP (\<lambda>c. (head_at (env c) k, env c))) (\<lambda>row. case row of
            None \<Rightarrow> throwP (ci_error ''head_state_missing'')
          | Some h \<Rightarrow> returnP (h, previous)))"

definition refresh_written ::
  "(string \<Rightarrow> string option) \<Rightarrow> string \<Rightarrow> github_snapshot \<Rightarrow> time \<Rightarrow> head_row \<Rightarrow> head_row" where
  "refresh_written parse_date clock g t h = (let m = merge_locked_github_snapshot parse_date clock h g PendingRefresh
     in if \<not> ms_material m \<and> ms_rollup m = h_rollup h \<and> ms_truncated m = h_truncated h then h
        else h\<lparr>h_checks := ms_checks m, h_rollup := ms_rollup m,
          h_version := (if ms_material m \<or> ms_rollup m \<noteq> h_rollup h then h_version h + 1 else h_version h),
          h_truncated := ms_truncated m, h_updated := t\<rparr>)"

definition refresh_transaction ::
  "(string \<Rightarrow> string option) \<Rightarrow> string \<Rightarrow> head_key \<Rightarrow> github_snapshot \<Rightarrow>
   (ci_db, (head_row \<times> ci_rollup) + ci_rollup) prog" where
  "refresh_transaction parse_date clock k g = in_transaction
     (bindP (readP (\<lambda>c. head_at c k)) (\<lambda>locked.
       case locked of
         None \<Rightarrow> throwP (ci_error ''head_state_missing'')
       | Some h \<Rightarrow>
           if h_seeded_at h = None then throwP (ci_error ''head_state_unseeded'')
           else
             let m = merge_locked_github_snapshot parse_date clock h g PendingRefresh
             in if \<not> ms_material m \<and> ms_rollup m = h_rollup h \<and> ms_truncated m = h_truncated h
                then returnP (Inl (h, h_rollup h))
                else stepP (\<lambda>c. (Inr (h_rollup h), update_head k (refresh_written parse_date clock g (clock_of c)) c))))"

definition refresh_pr_head_ci_from_github_snapshot ::
  "(string \<Rightarrow> string option) \<Rightarrow> string \<Rightarrow> (ci_db \<Rightarrow> ci_db) \<Rightarrow> head_key \<Rightarrow> github_snapshot \<Rightarrow>
   (ci_db, head_row \<times> ci_rollup) prog" where
  "refresh_pr_head_ci_from_github_snapshot parse_date clock env k g =
     bindP (refresh_transaction parse_date clock k g) (\<lambda>r. case r of
        Inl answer \<Rightarrow> returnP answer
      | Inr previous \<Rightarrow> bindP (stepP (\<lambda>c. (head_at (env c) k, env c))) (\<lambda>row. case row of
            None \<Rightarrow> throwP (ci_error ''head_state_missing'')
          | Some h \<Rightarrow> returnP (h, previous)))"

subsection \<open>The verification signal\<close>

definition is_effective_verification_signal_transition ::
  "(bool \<times> string option) option \<Rightarrow> bool \<Rightarrow> string \<Rightarrow> bool" where
  "is_effective_verification_signal_transition prior active sha =
     (let was_active = (case prior of Some (b, _) \<Rightarrow> b | None \<Rightarrow> False);
          same_head = (case prior of Some (_, s) \<Rightarrow> s = Some sha | None \<Rightarrow> False)
      in if active then (if \<not> was_active then True else \<not> same_head) else was_active \<and> same_head)"

definition advance_pr_head_ci_revision_for_verification_signal ::
  "head_key \<Rightarrow> bool \<Rightarrow> (ci_db, int \<times> bool) prog" where
  "advance_pr_head_ci_revision_for_verification_signal k effective =
     thenP (stepP (\<lambda>c. ((), insert_head k c))) (bindP (readP (\<lambda>c. head_at c k)) (\<lambda>locked.
       case locked of
         None \<Rightarrow> throwP (ci_error ''head_state_lock_missed'')
       | Some h \<Rightarrow>
           if \<not> effective then returnP (h_version h, False)
           else stepP (\<lambda>c. ((h_version h + 1, True), bump_version k c))))"

subsection \<open>Repair of projections and retention\<close>

definition stale_source :: "ci_db \<Rightarrow> source_row \<Rightarrow> bool" where
  "stale_source c s \<longleftrightarrow> (case caps_at c (repository_of (sr_installation s) (sr_head s)) of
      None \<Rightarrow> False
    | Some o' \<Rightarrow> sr_generation s < rc_generation o' \<or>
        sr_generation s = rc_generation o' \<and> sr_access s \<noteq> AccessDenied \<and>
        rc_capabilities o' (source_operation (sr_kind s)) = Some AccessDenied)"

definition repair_installation :: "ci_db \<Rightarrow> head_row \<Rightarrow> int option" where
  "repair_installation c h =
     (let n = (case sort (map sr_installation (filter (\<lambda>s. sr_head s = head_key h \<and> stale_source c s) (cd_sources c))) of
          i # _ \<Rightarrow> Some i
        | [] \<Rightarrow> map_option (\<lambda>w. is_installation (cd_scope c (w_id w)))
            (newest_item (select_where (at_head c (head_key h)) (items (cdb c)))))
      in case n of Some i \<Rightarrow> if i \<le> 0 then None else Some i | None \<Rightarrow> None)"

definition list_projection_repair_pending_heads :: "nat \<Rightarrow> ci_db \<Rightarrow> (head_key \<times> int \<times> int option) list" where
  "list_projection_repair_pending_heads limit c =
     map (\<lambda>h. (head_key h, h_version h, repair_installation c h))
       (take limit (sort_key h_updated (filter (\<lambda>h. h_repair h \<or>
          list_ex (\<lambda>s. sr_head s = head_key h \<and> stale_source c s) (cd_sources c)) (cd_heads c))))"

definition clear_projection_repair_pending :: "head_key \<Rightarrow> ci_db \<Rightarrow> bool \<times> ci_db" where
  "clear_projection_repair_pending k c =
     (exists_where (\<lambda>h. head_key h = k \<and> h_repair h) (cd_heads c),
      c\<lparr>cd_heads := update_where (\<lambda>h. head_key h = k \<and> h_repair h)
        (\<lambda>h. h\<lparr>h_repair := False, h_updated := clock_of c\<rparr>) (cd_heads c)\<rparr>)"

definition expired_head :: "int \<Rightarrow> ci_db \<Rightarrow> head_row \<Rightarrow> bool" where
  "expired_head retention c h \<longleftrightarrow> h_updated h < clock_of c - seconds retention \<and>
     \<not> exists_where (at_head c (head_key h)) (items (cdb c))"

text \<open>One batch; deleting a head deletes its sources.\<close>

definition delete_head_batch :: "int \<Rightarrow> nat \<Rightarrow> ci_db \<Rightarrow> nat \<times> ci_db" where
  "delete_head_batch retention limit c =
     (let doomed = set (map head_key (take limit (filter (expired_head retention c) (cd_heads c))))
      in (length (take limit (filter (expired_head retention c) (cd_heads c))),
          c\<lparr>cd_heads := filter (\<lambda>h. head_key h \<notin> doomed) (cd_heads c),
            cd_sources := filter (\<lambda>s. sr_head s \<notin> doomed) (cd_sources c)\<rparr>))"

partial_function (option) delete_head_loop :: "int \<Rightarrow> nat \<Rightarrow> nat \<Rightarrow> ci_db \<Rightarrow> (nat \<times> ci_db) option" where
  "delete_head_loop retention limit deleted c =
     (let (n, c') = delete_head_batch retention limit c
      in if n < limit then Some (deleted + n, c') else delete_head_loop retention limit (deleted + n) c')"

definition delete_expired_pr_head_ci_state :: "int \<Rightarrow> nat \<Rightarrow> ci_db \<Rightarrow> (nat \<times> ci_db) option" where
  "delete_expired_pr_head_ci_state retention limit c = delete_head_loop retention limit 0 c"

subsection \<open>All statements on the tables\<close>

datatype ci_op =
    FactOp head_key ci_fact
  | AuthoredOp head_key json
  | NumbersOp head_key "int list"
  | SeedOp "string \<Rightarrow> string option" string head_key github_snapshot
  | RefreshOp "string \<Rightarrow> string option" string head_key github_snapshot
  | SignalOp head_key bool
  | ClearRepairOp head_key
  | LoadSourcesOp int head_key
  | ReadSourceOp int head_key source_kind int ci_access bool
  | SaveCapabilitiesOp repository_key int stored_capabilities
  | DenyOp repository_key int installation_operation
  | PreflightOp item_id int bool
  | NextGenerationOp
  | ExpireHeadsOp int nat
  | ExpireCapabilitiesOp int nat
  | OtherTablesOp "db \<Rightarrow> db"

fun ci_step :: "ci_op \<Rightarrow> ci_db \<Rightarrow> ci_db" where
  "ci_step (FactOp k f) c = snd (apply_pr_head_ci_fact k f c)"
| "ci_step (AuthoredOp k a) c = snd (store_pr_head_ci_authored k a c)"
| "ci_step (NumbersOp k ns) c = snd (store_pr_numbers_for_head k ns c)"
| "ci_step (SeedOp pd clock k g) c = snd (seed_transaction pd clock k g c)"
| "ci_step (RefreshOp pd clock k g) c = snd (refresh_transaction pd clock k g c)"
| "ci_step (SignalOp k e) c = snd (advance_pr_head_ci_revision_for_verification_signal k e c)"
| "ci_step (ClearRepairOp k) c = snd (clear_projection_repair_pending k c)"
| "ci_step (LoadSourcesOp i k) c = snd (load_github_ci_source_availability i k c)"
| "ci_step (ReadSourceOp i k s g a b) c = snd (record_github_ci_source_read i k s g a b c)"
| "ci_step (SaveCapabilitiesOp rk g caps) c = snd (save_github_capability_observation rk (Some g) caps c)"
| "ci_step (DenyOp rk g op) c = snd (record_github_capability_denial rk g op c)"
| "ci_step (PreflightOp i e reset) c = snd (change_github_preflight_failure_count i e reset c)"
| "ci_step NextGenerationOp c = snd (next_github_capability_observation_generation c)"
| "ci_step (ExpireHeadsOp r n) c = snd (delete_head_batch r n c)"
| "ci_step (ExpireCapabilitiesOp r n) c = snd (delete_expired_github_capabilities r n c)"
| "ci_step (OtherTablesOp f) c = c\<lparr>cdb := f (cdb c)\<rparr>"

subsection \<open>Orders on states\<close>

text \<open>
  The contract of a reader that compares two states: an order that every statement respects. A program whose
  steps respect it respects it.
\<close>

locale state_order =
  fixes le :: "'s \<Rightarrow> 's \<Rightarrow> bool"
  assumes le_refl [simp, intro]: "le s s" and le_trans [trans]: "le r s \<Longrightarrow> le s t \<Longrightarrow> le r t"
begin

definition climbs :: "('s, 'a) prog \<Rightarrow> bool" where
  "climbs m \<longleftrightarrow> (\<forall>s. le s (snd (m s)))"

lemma climbsD: "climbs m \<Longrightarrow> le s (snd (m s))"
  by (simp add: climbs_def)

lemma climbs_return [intro, simp]: "climbs (returnP x)"
  by (simp add: climbs_def returnP_def)

lemma climbs_throw [intro, simp]: "climbs (throwP e)"
  by (simp add: climbs_def throwP_def)

lemma climbs_read [intro, simp]: "climbs (readP f)"
  by (simp add: climbs_def readP_def)

lemma climbs_step: "(\<And>s. le s (snd (f s))) \<Longrightarrow> climbs (stepP f)"
  by (simp add: climbs_def stepP_def)

lemma climbs_bind [intro]: "climbs m \<Longrightarrow> (\<And>x. climbs (f x)) \<Longrightarrow> climbs (bindP m f)"
  unfolding climbs_def bindP_def by (auto split: prod.splits sum.splits intro: le_trans)

lemma climbs_then [intro]: "climbs m \<Longrightarrow> climbs n \<Longrightarrow> climbs (thenP m n)"
  by (auto simp: thenP_def)

lemma climbs_transaction [intro]: "climbs m \<Longrightarrow> climbs (in_transaction m)"
  unfolding climbs_def in_transaction_def by (metis (mono_tags, lifting) le_refl old.prod.case prod.collapse sum.case_eq_if snd_conv)

lemma climbs_for_each: "(\<And>x. climbs (f x)) \<Longrightarrow> climbs (for_each xs f)"
  by (induction xs) auto

lemma climbs_fold: "(\<And>x s. x \<in> set xs \<Longrightarrow> le s (step x s)) \<Longrightarrow> le s (fold step xs s)"
  by (induction xs arbitrary: s) (auto intro: le_trans)

end


subsection \<open>The stored rollup\<close>

definition rollup_ok :: "head_row \<Rightarrow> bool" where
  "rollup_ok h \<longleftrightarrow>
     (let r = classify_snapshot (map snd (h_checks h))
      in h_rollup h = r \<or> h_rollup h = RollupUnknown \<and> (r = RollupNone \<or> r = RollupPassing))"

definition head_ok :: "head_row \<Rightarrow> bool" where
  "head_ok h \<longleftrightarrow> rollup_ok h \<and> keyed_checks (h_checks h) \<and> length (h_checks h) \<le> ci_state_max_checks"

definition heads_ok :: "ci_db \<Rightarrow> bool" where
  "heads_ok c \<longleftrightarrow> (\<forall>h \<in> set (cd_heads c). head_ok h)"

lemma head_ok_fields [simp]:
  "head_ok (h\<lparr>h_version := v\<rparr>) = head_ok h" "head_ok (h\<lparr>h_authored := a\<rparr>) = head_ok h"
  "head_ok (h\<lparr>h_pr_numbers := n\<rparr>) = head_ok h" "head_ok (h\<lparr>h_repair := b\<rparr>) = head_ok h"
  "head_ok (h\<lparr>h_updated := t\<rparr>) = head_ok h"
  by (simp_all add: head_ok_def rollup_ok_def)

lemma new_head_ok: "head_ok (new_head t k ns)"
  by (simp add: new_head_def head_ok_def rollup_ok_def classify_snapshot_def keyed_checks_def split: prod.split)

lemma head_touched_ok: "head_ok h \<Longrightarrow> head_ok (head_touched b t h)"
  by (simp add: head_touched_def)

lemma fact_written_ok:
  assumes "head_ok h"
  shows "head_ok (fact_written f t h)"
  using assms apply_fact_keyed [of "h_checks h" f ci_state_max_checks]
    apply_fact_bound [of "h_checks h" ci_state_max_checks f]
  by (simp add: head_ok_def rollup_ok_def fact_written_def Let_def ci_state_max_checks_def)

lemma seed_loop_ok:
  "keyed_checks cs \<Longrightarrow> length cs \<le> limit \<Longrightarrow> 1 \<le> limit \<Longrightarrow>
   keyed_checks (fst (seed_loop limit fs (cs, tr))) \<and> length (fst (seed_loop limit fs (cs, tr))) \<le> limit"
  by (induction fs arbitrary: cs tr) (simp_all add: Let_def apply_fact_keyed apply_fact_bound)

lemma refresh_loop_ok:
  "keyed_checks cs \<Longrightarrow> length cs \<le> limit \<Longrightarrow> 1 \<le> limit \<Longrightarrow>
   keyed_checks (fst (refresh_loop limit stored groups (cs, tr, b))) \<and>
   length (fst (refresh_loop limit stored groups (cs, tr, b))) \<le> limit"
proof (induction groups arbitrary: cs tr b)
  case (Cons g groups)
  obtain n fs where g: "g = (n, fs)" by (cases g)
  show ?case using Cons by (auto simp: g Let_def apply_fact_keyed apply_fact_bound split: option.split)
qed simp

lemma coerced_ok:
  "coerce_rollup_for_incomplete_listing r complete = r \<or>
   coerce_rollup_for_incomplete_listing r complete = RollupUnknown \<and> (r = RollupNone \<or> r = RollupPassing)"
  by (simp add: coerce_rollup_for_incomplete_listing_def)

lemma merged_ok:
  assumes "head_ok h" and m: "m = merge_locked_github_snapshot pd clock h g mode"
  shows "keyed_checks (ms_checks m)" "length (ms_checks m) \<le> ci_state_max_checks"
    and "ms_rollup m = coerce_rollup_for_incomplete_listing (classify_snapshot (map snd (ms_checks m))) (gs_runs_complete g)"
proof -
  let ?facts = "\<lambda>how. build_ci_facts_from_github_snapshot pd clock (gs_runs g) (gs_statuses g)
    \<lparr>oc_app_id = gs_app_id g, oc_item = None\<rparr> how"
  have checks: "ms_checks m = (case mode of
      InitialSeed \<Rightarrow> fst (seed_loop ci_state_max_checks (?facts EpochObservation) (h_checks h, h_truncated h))
    | PendingRefresh \<Rightarrow> fst (refresh_loop ci_state_max_checks (h_checks h) (facts_by_name (?facts GithubObservation))
        (h_checks h, h_truncated h, False)))"
    by (cases mode) (auto simp: m merge_locked_github_snapshot_def merge_github_snapshot_into_checks_def Let_def
        split: prod.split)
  have "1 \<le> ci_state_max_checks" by (simp add: ci_state_max_checks_def)
  then show "keyed_checks (ms_checks m)" "length (ms_checks m) \<le> ci_state_max_checks"
    using assms(1) seed_loop_ok refresh_loop_ok unfolding checks head_ok_def by (auto split: merge_mode.split)
  show "ms_rollup m = coerce_rollup_for_incomplete_listing (classify_snapshot (map snd (ms_checks m))) (gs_runs_complete g)"
    by (simp add: m merge_locked_github_snapshot_def merge_github_snapshot_into_checks_def Let_def split: prod.split)
qed

lemma seed_written_ok: "head_ok h \<Longrightarrow> head_ok (seed_written pd clock g t h)"
  using merged_ok [OF _ refl, of h pd clock g InitialSeed] coerced_ok
  unfolding head_ok_def rollup_ok_def seed_written_def Let_def by auto

lemma refresh_written_ok: "head_ok h \<Longrightarrow> head_ok (refresh_written pd clock g t h)"
  using merged_ok [OF _ refl, of h pd clock g PendingRefresh] coerced_ok
  unfolding head_ok_def rollup_ok_def refresh_written_def Let_def by auto

lemma heads_ok_update: "heads_ok c \<Longrightarrow> (\<And>h. head_ok h \<Longrightarrow> head_ok (f h)) \<Longrightarrow> heads_ok (update_head k f c)"
  by (auto simp: heads_ok_def update_head_def set_update_where)

lemma heads_ok_upsert:
  assumes "heads_ok c" and "head_ok new" and "\<And>h. head_ok h \<Longrightarrow> head_ok (f h)"
  shows "heads_ok (c\<lparr>cd_heads := snd (upsert head_key new guard f (cd_heads c))\<rparr>)"
  using assms by (auto simp: heads_ok_def upsert_def set_update_where split: option.split)

lemma heads_ok_insert: "heads_ok c \<Longrightarrow> heads_ok (insert_head k c)"
  unfolding insert_head_def by (rule heads_ok_upsert) (simp_all add: new_head_ok)

lemma heads_ok_at: "heads_ok c \<Longrightarrow> head_at c k = Some h \<Longrightarrow> head_ok h"
  by (auto simp: heads_ok_def head_at_def dest: row_at_SomeD)

lemma heads_ok_same: "heads_ok c \<Longrightarrow> cd_heads c' = cd_heads c \<Longrightarrow> heads_ok c'"
  by (simp add: heads_ok_def)


text \<open>The tables that the parts of a transaction leave alone.\<close>

lemma sync_source_heads [simp]: "cd_heads (snd (sync_source_statement inst k g a s c)) = cd_heads c"
  by (auto simp: sync_source_statement_def Let_def split: option.splits prod.splits)

lemma save_heads [simp]: "cd_heads (snd (save_observation_statement rk g caps c)) = cd_heads c"
  by (simp add: save_observation_statement_def split: prod.split)

lemma denial_heads [simp]: "cd_heads (snd (denial_statement rk g op c)) = cd_heads c"
  by (simp add: denial_statement_def Let_def)

lemma keeps_same_heads: "(\<And>c. cd_heads (snd (m c)) = cd_heads c) \<Longrightarrow> keeps heads_ok m"
  unfolding keeps_def using heads_ok_same by blast

lemma keeps_heads_statement: "(\<And>c. cd_heads (snd (f c)) = cd_heads c) \<Longrightarrow> keeps heads_ok (stepP f)"
  by (rule keeps_same_heads) (simp add: stepP_def)

lemma keeps_sync_source: "keeps heads_ok (sync_source_statement inst k g a s)"
  by (rule keeps_same_heads) simp

lemma keeps_touch: "keeps heads_ok (stepP (\<lambda>c. ((), update_head k (head_touched b (clock_of c)) c)))"
  by (rule keeps_step) (simp add: heads_ok_update head_touched_ok)

lemma keeps_sync: "keeps heads_ok (sync_sources inst k obs)"
  unfolding sync_sources_def Let_def
  by (auto intro!: keeps_bind keeps_sync_source keeps_touch)

lemma keeps_for_each: "(\<And>x. keeps P (f x)) \<Longrightarrow> keeps P (for_each xs f)"
  by (induction xs) auto

lemma keeps_fanout: "keeps heads_ok (fanout_observation rk obs)"
  unfolding fanout_observation_def by (intro keeps_bind keeps_read keeps_for_each keeps_sync)

lemma keeps_fanned: "keeps heads_ok (case r of None \<Rightarrow> returnP False
    | Some r \<Rightarrow> thenP (fanout_observation rk (obs r)) (returnP True))"
  by (auto split: option.split intro: keeps_fanout)

lemma keeps_save: "keeps heads_ok (save_github_capability_observation rk gen caps)"
proof -
  have "keeps heads_ok (stepP (save_observation_statement rk g caps))" for g
    by (rule keeps_heads_statement) simp
  then show ?thesis unfolding save_github_capability_observation_def
    by (cases gen) (simp_all add: keeps_transaction keeps_bind keeps_fanned)
qed

lemma keeps_denial: "keeps heads_ok (record_github_capability_denial rk g op)"
proof -
  have "keeps heads_ok (stepP (denial_statement rk g op))"
    by (rule keeps_heads_statement) simp
  then show ?thesis unfolding record_github_capability_denial_def
    by (simp add: keeps_transaction keeps_bind keeps_fanned)
qed

lemma keeps_load: "keeps heads_ok (load_github_ci_source_availability inst k)"
  unfolding load_github_ci_source_availability_def
  by (auto split: option.split intro!: keeps_transaction keeps_bind keeps_then keeps_sync)

lemma source_read_heads [simp]: "cd_heads (snd (source_read_statement inst k s g a b c)) = cd_heads c"
  by (simp add: source_read_statement_def Let_def split: option.split)

lemma heads_ok_bump: "heads_ok c \<Longrightarrow> heads_ok (bump_version k c)"
  unfolding bump_version_def by (rule heads_ok_update) simp_all

lemma keeps_source_read: "keeps heads_ok (record_github_ci_source_read inst k s g a b)"
  unfolding record_github_ci_source_read_def
proof (intro keeps_transaction keeps_bind keeps_then keeps_read keeps_sync)
  show "keeps heads_ok (stepP (source_read_statement inst k s g a b))"
    by (rule keeps_heads_statement) simp
qed (auto intro!: keeps_step heads_ok_bump)

lemma on_locked_head:
  assumes "\<And>h. head_at c k = Some h \<Longrightarrow> P (snd (f h c))" and "P c"
  shows "P (snd (bindP (readP (\<lambda>c. head_at c k)) (\<lambda>row. case row of None \<Rightarrow> throwP e | Some h \<Rightarrow> f h) c))"
  using assms by (auto simp: prog_defs split: option.split)

lemma keeps_on_locked_head:
  assumes "\<And>h c. heads_ok c \<Longrightarrow> head_ok h \<Longrightarrow> heads_ok (snd (f h c))"
  shows "keeps heads_ok (bindP (readP (\<lambda>c. head_at c k)) (\<lambda>row. case row of None \<Rightarrow> throwP e | Some h \<Rightarrow> f h))"
  unfolding keeps_def using assms heads_ok_at on_locked_head [where P = heads_ok] by blast

lemma keeps_insert: "keeps heads_ok (stepP (\<lambda>c. ((), insert_head k c)))"
  by (rule keeps_step) (simp add: heads_ok_insert)

lemma heads_ok_const_update: "heads_ok c \<Longrightarrow> head_ok h \<Longrightarrow> heads_ok (update_head k (\<lambda>_. h) c)"
  by (rule heads_ok_update)

lemma ci_step_heads_ok:
  assumes "heads_ok c"
  shows "heads_ok (ci_step op c)"
proof (cases op)
  case (FactOp k f)
  have "keeps heads_ok (apply_pr_head_ci_fact k f)"
    unfolding apply_pr_head_ci_fact_def
    by (intro keeps_then keeps_insert keeps_on_locked_head)
      (auto simp: returnP_def stepP_def Let_def intro!: heads_ok_const_update fact_written_ok)
  then show ?thesis using FactOp assms by (simp add: keepsD)
next
  case (SeedOp pd clock k g)
  have "keeps heads_ok (seed_transaction pd clock k g)"
    unfolding seed_transaction_def
    by (intro keeps_transaction keeps_then keeps_insert keeps_on_locked_head)
      (auto simp: returnP_def stepP_def intro!: heads_ok_update seed_written_ok)
  then show ?thesis using SeedOp assms by (simp add: keepsD)
next
  case (RefreshOp pd clock k g)
  have "keeps heads_ok (refresh_transaction pd clock k g)"
    unfolding refresh_transaction_def
    by (intro keeps_transaction keeps_on_locked_head)
      (auto simp: returnP_def stepP_def throwP_def Let_def intro!: heads_ok_update refresh_written_ok)
  then show ?thesis using RefreshOp assms by (simp add: keepsD)
next
  case (SignalOp k e)
  have "keeps heads_ok (advance_pr_head_ci_revision_for_verification_signal k e)"
    unfolding advance_pr_head_ci_revision_for_verification_signal_def
    by (intro keeps_then keeps_insert keeps_on_locked_head) (auto simp: returnP_def stepP_def intro!: heads_ok_bump)
  then show ?thesis using SignalOp assms by (simp add: keepsD)
next
  case (AuthoredOp k a)
  then show ?thesis using assms by (auto simp: store_pr_head_ci_authored_def intro!: heads_ok_update)
next
  case (NumbersOp k ns)
  then show ?thesis using assms
    by (auto simp: store_pr_numbers_for_head_def new_head_ok intro!: heads_ok_upsert)
next
  case (ClearRepairOp k)
  then show ?thesis using assms
    by (auto simp: clear_projection_repair_pending_def heads_ok_def set_update_where)
next
  case (PreflightOp i e reset)
  have "keeps heads_ok (change_github_preflight_failure_count i e reset)"
    unfolding change_github_preflight_failure_count_def fenced_write_def
    by (rule keeps_same_heads)
      (auto simp: prog_defs on_cdb_def preflight_statement_def Let_def assert_pr_actor_lease_held_def
        split: option.splits sum.splits prod.splits if_splits)
  then show ?thesis using PreflightOp assms by (simp add: keepsD)
next
  case NextGenerationOp
  then show ?thesis using assms by (simp add: next_github_capability_observation_generation_def heads_ok_def)
next
  case (ExpireHeadsOp r n)
  then show ?thesis using assms by (simp add: delete_head_batch_def heads_ok_def Let_def)
next
  case (ExpireCapabilitiesOp r n)
  then show ?thesis using assms by (simp add: delete_expired_github_capabilities_def heads_ok_def Let_def)
next
  case (OtherTablesOp f)
  then show ?thesis using assms by (simp add: heads_ok_def)
qed (use assms in \<open>simp_all add: keepsD [OF keeps_load] keepsD [OF keeps_source_read] keepsD [OF keeps_save]
    keepsD [OF keeps_denial]\<close>)

interpretation ci_heads: invariant_machine ci_step "\<lambda>_. True" heads_ok
  by unfold_locales (rule ci_step_heads_ok)

text \<open>C33. Whatever statements run on the tables, the rollup that a head shows is the classification of the facts that it stores, or it is
  unknown where those facts would be none or passing: no failing or pending check is ever shown as anything else.\<close>

theorem rollup_is_classification:
  assumes "heads_ok c" and "head_at (fold ci_step ops c) k = Some h"
  shows "h_rollup h = classify_snapshot (map snd (h_checks h)) \<or>
    h_rollup h = RollupUnknown \<and> classify_snapshot (map snd (h_checks h)) \<in> {RollupNone, RollupPassing}"
  using heads_ok_at [OF ci_heads.inv_run [OF assms(1)] assms(2)] by (simp add: head_ok_def rollup_ok_def Let_def)

subsection \<open>The version of a head\<close>

text \<open>What a reader of a head shows of one source.\<close>

definition source_view :: "ci_db \<Rightarrow> int \<Rightarrow> head_key \<Rightarrow> source_kind \<Rightarrow> (ci_access \<times> bool) option" where
  "source_view c inst k s = map_option (\<lambda>r. (sr_access r, sr_listing_required r)) (source_at c (inst, k, s))"

definition covers :: "ci_db \<Rightarrow> ci_db \<Rightarrow> bool" where
  "covers c c' \<longleftrightarrow> (\<forall>k h. head_at c k = Some h \<longrightarrow> (\<exists>h'. head_at c' k = Some h' \<and> h_version h \<le> h_version h' \<and>
     (h_version h' = h_version h \<longrightarrow> h_rollup h' = h_rollup h \<and>
       (\<forall>inst s. source_view c' inst k s = source_view c inst k s))))"

lemma coversI:
  assumes "\<And>k h. head_at c k = Some h \<Longrightarrow> \<exists>h'. head_at c' k = Some h' \<and> h_version h \<le> h_version h' \<and>
     (h_version h' = h_version h \<longrightarrow> h_rollup h' = h_rollup h \<and>
       (\<forall>inst s. source_view c' inst k s = source_view c inst k s))"
  shows "covers c c'"
  using assms by (simp add: covers_def)

lemma covers_trans:
  assumes "covers r s" and "covers s t"
  shows "covers r t"
proof (rule coversI)
  fix k h assume "head_at r k = Some h"
  then obtain h1 where h1: "head_at s k = Some h1" "h_version h \<le> h_version h1"
      "h_version h1 = h_version h \<longrightarrow> h_rollup h1 = h_rollup h \<and> (\<forall>i x. source_view s i k x = source_view r i k x)"
    using assms(1) unfolding covers_def by blast
  then obtain h2 where "head_at t k = Some h2" "h_version h1 \<le> h_version h2"
      "h_version h2 = h_version h1 \<longrightarrow> h_rollup h2 = h_rollup h1 \<and> (\<forall>i x. source_view t i k x = source_view s i k x)"
    using assms(2) unfolding covers_def by blast
  with h1 show "\<exists>h'. head_at t k = Some h' \<and> h_version h \<le> h_version h' \<and>
     (h_version h' = h_version h \<longrightarrow> h_rollup h' = h_rollup h \<and> (\<forall>i x. source_view t i k x = source_view r i k x))"
    by (intro exI [of _ h2]) auto
qed

interpretation versions: state_order covers
  by unfold_locales (simp add: covers_def, rule covers_trans)

lemma head_at_update:
  assumes "\<And>h. head_key (f h) = head_key h"
  shows "head_at (update_head k f c) k' = (if k' = k then map_option f (head_at c k) else head_at c k')"
  using row_at_SomeD [of head_key k' "cd_heads c"]
  by (cases "head_at c k'") (auto simp: head_at_def update_head_def row_at_update_where assms)

lemma source_view_heads [simp]: "source_view (c\<lparr>cd_heads := hs\<rparr>) i k s = source_view c i k s"
  by (simp add: source_view_def source_at_def)

lemma source_view_update [simp]: "source_view (update_head k' f c) i k s = source_view c i k s"
  by (simp add: update_head_def)

text \<open>A statement on one head covers when it raises the version, or keeps it and the rollup.\<close>

lemma covers_update:
  assumes "\<And>h. head_key (f h) = head_key h"
    and "\<And>h. h_version h < h_version (f h) \<or> h_version (f h) = h_version h \<and> h_rollup (f h) = h_rollup h"
  shows "covers c (update_head k f c)"
  by (rule coversI) (use assms(2) in \<open>force simp: head_at_update [OF assms(1)]\<close>)

lemma head_at_locked:
  assumes "head_key new = k"
  shows "head_at (update_head k (\<lambda>_. new) c) k' = (if k' = k then map_option (\<lambda>_. new) (head_at c k) else head_at c k')"
proof -
  have "row_at head_key k' (update_where (\<lambda>h. head_key h = k) (\<lambda>_. new) hs) =
      (if k' = k then map_option (\<lambda>_. new) (row_at head_key k hs) else row_at head_key k' hs)" for hs
    by (induction hs) (auto simp: row_at_simps assms)
  then show ?thesis by (simp add: head_at_def update_head_def)
qed

lemma covers_locked:
  assumes "head_at c k = Some h" and "head_key new = head_key h"
    and "h_version h < h_version new \<or> h_version new = h_version h \<and> h_rollup new = h_rollup h"
  shows "covers c (update_head k (\<lambda>_. new) c)"
proof -
  have "head_key new = k" using assms(1,2) row_at_SomeD [of head_key k "cd_heads c"] by (simp add: head_at_def)
  then show ?thesis
    by (intro coversI) (use assms in \<open>auto simp: head_at_locked\<close>)
qed

lemma covers_same: "cd_heads c' = cd_heads c \<Longrightarrow> cd_sources c' = cd_sources c \<Longrightarrow> covers c c'"
  by (auto simp: covers_def head_at_def source_view_def source_at_def)

lemma row_at_upsert_keyed:
  assumes "key new = i" and "\<And>r. key (f r) = key r"
  shows "row_at key i' (snd (upsert key new g f rows)) =
    (if i' = i then (case row_at key i rows of None \<Rightarrow> Some new | Some r \<Rightarrow> Some (if g r then f r else r))
     else row_at key i' rows)"
  using row_at_upsert [of key new f i' g rows] assms by (auto split: option.split)

lemma head_at_upsert:
  assumes "head_key new = k" and "\<And>h. head_key (f h) = head_key h"
  shows "head_at (c\<lparr>cd_heads := snd (upsert head_key new g f (cd_heads c))\<rparr>) k' =
    (if k' = k then (case head_at c k of None \<Rightarrow> Some new | Some h \<Rightarrow> Some (if g h then f h else h)) else head_at c k')"
  using row_at_upsert_keyed [of head_key new k f k' g "cd_heads c"] assms by (simp add: head_at_def)

lemma covers_upsert:
  assumes "head_key new = k" and "\<And>h. head_key (f h) = head_key h"
    and "\<And>h. h_version (f h) = h_version h \<and> h_rollup (f h) = h_rollup h"
  shows "covers c (c\<lparr>cd_heads := snd (upsert head_key new g f (cd_heads c))\<rparr>)"
  by (rule coversI) (use assms(3) in \<open>auto simp: head_at_upsert [OF assms(1,2)]\<close>)

lemma new_head_key [simp]: "head_key (new_head t k ns) = k"
  by (simp add: new_head_def head_key_def split: prod.split)

lemma covers_insert: "covers c (insert_head k c)"
  unfolding insert_head_def by (rule covers_upsert [of _ k]) simp_all

lemma head_at_insert:
  "head_at (insert_head k c) k' =
     (if k' = k \<and> head_at c k = None then Some (new_head (clock_of c) k (JArr [])) else head_at c k')"
proof -
  have "head_at (insert_head k c) k' = (if k' = k then (case head_at c k of
      None \<Rightarrow> Some (new_head (clock_of c) k (JArr [])) | Some h \<Rightarrow> Some h) else head_at c k')"
    unfolding insert_head_def by (subst head_at_upsert [where k = k]) (auto split: option.split)
  then show ?thesis by (auto split: option.split)
qed

text \<open>The upsert of a source, by what it answers.\<close>

lemma sync_source_views:
  assumes "sync_source_statement inst k g a s c = (r, c')"
  shows "cd_heads c' = cd_heads c"
    and "\<And>i k' s'. (i, k', s') \<noteq> (inst, k, s) \<Longrightarrow> source_view c' i k' s' = source_view c i k' s'"
    and "r = Inr (False, b) \<Longrightarrow> source_view c' inst k s = source_view c inst k s"
    and "r = Inl e \<Longrightarrow> c' = c \<and> head_at c k = None"
proof -
  let ?i = "(inst, k, s)"
  let ?new = "\<lparr>sr_installation = inst, sr_head = k, sr_kind = s, sr_generation = g, sr_access = a,
                 sr_listing_required = True, sr_unknown_reads = 0, sr_updated = clock_of c\<rparr>"
  let ?g = "\<lambda>p. sr_generation p < g \<or> sr_generation p = g \<and> a = AccessDenied \<and> sr_access p \<noteq> AccessDenied"
  let ?f = "\<lambda>p. p\<lparr>sr_generation := g, sr_access := a,
                    sr_listing_required := (if sr_access p \<noteq> a then True else sr_listing_required p),
                    sr_unknown_reads := 0, sr_updated := clock_of c\<rparr>"
  let ?u = "upsert source_key ?new ?g ?f (cd_sources c)"
  have at: "row_at source_key i' (snd ?u) = (if i' = ?i then
      (case row_at source_key ?i (cd_sources c) of None \<Rightarrow> Some ?new | Some r \<Rightarrow> Some (if ?g r then ?f r else r))
     else row_at source_key i' (cd_sources c))" for i'
    by (rule row_at_upsert_keyed) (simp_all add: source_key_def)
  show "cd_heads c' = cd_heads c" using assms sync_source_heads by (metis snd_conv)
  have def': "sync_source_statement inst k g a s c = (if source_at c ?i = None \<and> head_at c k = None
      then (Inl foreign_key_violation, c) else (case ?u of
             (None, _) \<Rightarrow> (Inr (False, False), c)
           | (Some _, rows) \<Rightarrow> (Inr (case source_at c ?i of
                 None \<Rightarrow> (True, False)
               | Some p \<Rightarrow> (sr_access p \<noteq> a, sr_access p = AccessUnknown \<and> 0 < sr_unknown_reads p)),
               c\<lparr>cd_sources := rows\<rparr>)))"
    by (simp add: sync_source_statement_def Let_def)
  show "r = Inl e \<Longrightarrow> c' = c \<and> head_at c k = None"
    using assms unfolding def' by (auto split: if_splits prod.splits option.splits)
  show "source_view c' i k' s' = source_view c i k' s'" if "(i, k', s') \<noteq> ?i" for i k' s'
    using assms at [of "(i, k', s')"] that unfolding def'
    by (auto simp: source_view_def source_at_def split: if_splits prod.splits option.splits)
  show "source_view c' inst k s = source_view c inst k s" if "r = Inr (False, b)"
    using assms at [of ?i] that unfolding def'
    by (auto simp: source_view_def source_at_def upsert_def row_at_def split: if_splits prod.splits option.splits)
qed

lemma touched_key [simp]: "head_key (head_touched b t h) = head_key h"
  by (simp add: head_touched_def head_key_def)

lemma head_at_heads: "cd_heads c' = cd_heads c \<Longrightarrow> head_at c' = head_at c"
  by (simp add: head_at_def fun_eq_iff)

text \<open>Sources of one head changed, and its version raised when a view of them did.\<close>

lemma covers_touched:
  assumes "cd_heads c' = cd_heads c"
    and "\<And>i k' s. k' \<noteq> k \<Longrightarrow> source_view c' i k' s = source_view c i k' s"
    and "\<not> b \<Longrightarrow> (\<forall>i s. source_view c' i k s = source_view c i k s)"
    and "\<And>h. head_key (f h) = head_key h"
    and "\<And>h. h_rollup (f h) = h_rollup h \<and> h_version (f h) = (if b then h_version h + 1 else h_version h)"
  shows "covers c (update_head k f c')"
proof (rule coversI)
  fix k' h assume h: "head_at c k' = Some h"
  then have "head_at (update_head k f c') k' = Some (if k' = k then f h else h)"
    by (auto simp: head_at_update [OF assms(4)] head_at_heads [OF assms(1)])
  then show "\<exists>h'. head_at (update_head k f c') k' = Some h' \<and> h_version h \<le> h_version h' \<and>
      (h_version h' = h_version h \<longrightarrow> h_rollup h' = h_rollup h \<and>
        (\<forall>i s. source_view (update_head k f c') i k' s = source_view c i k' s))"
    using assms(2) [of k'] assms(3,5) by (cases "k' = k"; cases b) auto
qed

lemma update_head_id: "update_head k id c = c"
  by (simp add: update_head_def update_where_def map_idI)

lemma covers_sources:
  assumes "cd_heads c' = cd_heads c"
    and "\<And>i k' s. k' \<noteq> k \<Longrightarrow> source_view c' i k' s = source_view c i k' s"
    and "head_at c k = None \<or> (\<forall>i s. source_view c' i k s = source_view c i k s)"
  shows "covers c c'"
proof (cases "head_at c k")
  case None
  have same: "head_at c' = head_at c" using assms(1) by (rule head_at_heads)
  show ?thesis
  proof (rule coversI)
    fix k' h assume "head_at c k' = Some h"
    then show "\<exists>h'. head_at c' k' = Some h' \<and> h_version h \<le> h_version h' \<and>
      (h_version h' = h_version h \<longrightarrow> h_rollup h' = h_rollup h \<and> (\<forall>i s. source_view c' i k' s = source_view c i k' s))"
      using None assms(2) [of k'] same by (cases "k' = k") auto
  qed
next
  case (Some h)
  then have "covers c (update_head k id c')" using assms by (intro covers_touched [where b = False]) simp_all
  then show ?thesis by (simp add: update_head_id)
qed

lemma sync_covers: "covers c (snd (sync_sources inst k obs c))"
proof -
  let ?g = "case obs of None \<Rightarrow> 0 | Some (n, _) \<Rightarrow> n"
  let ?one = "\<lambda>s. sync_source_statement inst k ?g (observed_access obs s) s"
  obtain r1 c1 where one1: "?one ChecksSource c = (r1, c1)" by fastforce
  obtain r2 c2 where one2: "?one StatusesSource c1 = (r2, c2)" by fastforce
  note v1 = sync_source_views [OF one1] and v2 = sync_source_views [OF one2]
  have heads: "cd_heads c1 = cd_heads c" "cd_heads c2 = cd_heads c" using v1(1) v2(1) by simp_all
  have off1: "source_view c1 i k' s = source_view c i k' s" if "k' \<noteq> k" for i k' s using v1(2) that by blast
  have off2: "source_view c2 i k' s = source_view c i k' s" if "k' \<noteq> k" for i k' s using v2(2) off1 that by (metis prod.inject)
  have run: "sync_sources inst k obs c = (case r1 of Inl e \<Rightarrow> (Inl e, c1) | Inr (ch1, re1) \<Rightarrow>
      (case r2 of Inl e \<Rightarrow> (Inl e, c2) | Inr (ch2, re2) \<Rightarrow>
        if ch1 \<or> ch2 \<or> re1 \<or> re2 then (Inr (), update_head k (head_touched (ch1 \<or> ch2) (clock_of c2)) c2)
        else (Inr (), c2)))"
    using one1 one2 by (auto simp: sync_sources_def Let_def prog_defs split: sum.split prod.split)
  show ?thesis
  proof (cases r1)
    case (Inl e)
    then show ?thesis using run v1(4) by simp
  next
    case r1: (Inr p1)
    obtain ch1 re1 where p1: "p1 = (ch1, re1)" by (cases p1)
    show ?thesis
    proof (cases r2)
      case (Inl e)
      then have "c2 = c1" "head_at c k = None" using v2(4) head_at_heads [OF heads(1)] by auto
      then have "covers c c1" using heads(1) off1 by (intro covers_sources [where k = k]) simp_all
      then show ?thesis using run r1 p1 Inl \<open>c2 = c1\<close> by simp
    next
      case r2: (Inr p2)
      obtain ch2 re2 where p2: "p2 = (ch2, re2)" by (cases p2)
      have at: "source_view c2 i k s = source_view c i k s" if "\<not> (ch1 \<or> ch2)" for i s
      proof -
        have "source_view c1 i k s = source_view c i k s" for s
          using v1(2) [of i k s] v1(3) [of re1] r1 p1 that by (cases "(i, s) = (inst, ChecksSource)") auto
        then show ?thesis
          using v2(2) [of i k s] v2(3) [of re2] r2 p2 that by (cases "(i, s) = (inst, StatusesSource)") auto
      qed
      have "covers c (update_head k (head_touched (ch1 \<or> ch2) (clock_of c2)) c2)"
        by (rule covers_touched [where b = "ch1 \<or> ch2"]) (use heads off2 at in \<open>auto simp: head_touched_def head_key_def\<close>)
      moreover have "covers c c2" if "\<not> (ch1 \<or> ch2)"
        by (rule covers_sources [where k = k]) (use heads off2 at that in auto)
      ultimately show ?thesis using run r1 p1 r2 p2 by auto
    qed
  qed
qed

lemma sync_climbs: "versions.climbs (sync_sources inst k obs)"
  by (simp add: versions.climbs_def sync_covers)

lemma fanout_climbs: "versions.climbs (fanout_observation rk obs)"
  unfolding fanout_observation_def by (intro versions.climbs_bind versions.climbs_read versions.climbs_for_each sync_climbs)

lemma covers_statement:
  "(\<And>c. cd_heads (snd (f c)) = cd_heads c \<and> cd_sources (snd (f c)) = cd_sources c) \<Longrightarrow> versions.climbs (stepP f)"
  by (rule versions.climbs_step) (simp add: covers_same)

lemma fanned_climbs: "versions.climbs (case r of None \<Rightarrow> returnP False
    | Some r \<Rightarrow> thenP (fanout_observation rk (obs r)) (returnP True))"
  by (auto split: option.split intro: fanout_climbs)

lemma save_climbs: "versions.climbs (save_github_capability_observation rk gen caps)"
proof -
  have "versions.climbs (stepP (save_observation_statement rk g caps))" for g
    by (rule covers_statement) (simp add: save_observation_statement_def split: prod.split)
  then show ?thesis unfolding save_github_capability_observation_def
    by (cases gen) (simp_all add: versions.climbs_transaction versions.climbs_bind fanned_climbs)
qed

lemma denial_climbs: "versions.climbs (record_github_capability_denial rk g op)"
proof -
  have "versions.climbs (stepP (denial_statement rk g op))"
    by (rule covers_statement) (simp add: denial_statement_def Let_def)
  then show ?thesis unfolding record_github_capability_denial_def
    by (simp add: versions.climbs_transaction versions.climbs_bind fanned_climbs)
qed

lemma load_climbs: "versions.climbs (load_github_ci_source_availability inst k)"
  unfolding load_github_ci_source_availability_def
  by (auto split: option.split intro!: versions.climbs_transaction versions.climbs_bind versions.climbs_then sync_climbs)

lemma source_read_views:
  assumes "source_read_statement inst k s g a b c = (changed, c')"
  shows "source_view c' i k' s' = (if (i, k', s') = (inst, k, s) \<and> changed
    then source_view c' i k' s' else source_view c i k' s')" and "cd_heads c' = cd_heads c"
proof -
  obtain req where req: "req = (\<not> (a = AccessAvailable \<and> b))" by blast
  let ?upd = "\<lambda>r. r\<lparr>sr_access := a, sr_listing_required := req,
             sr_unknown_reads := (if a = AccessUnknown then sr_unknown_reads r + 1 else 0), sr_updated := clock_of c\<rparr>"
  let ?rows = "update_where (\<lambda>x. source_key x = (inst, k, s)) ?upd (cd_sources c)"
  show heads: "cd_heads c' = cd_heads c" using assms source_read_heads by (metis snd_conv)
  have key: "source_key (?upd r) = source_key r" for r by (simp add: source_key_def)
  have at: "row_at source_key j ?rows =
      map_option (\<lambda>r. if source_key r = (inst, k, s) then ?upd r else r) (row_at source_key j (cd_sources c))" for j
    by (rule row_at_update_where) (rule key)
  have view: "source_view (c\<lparr>cd_sources := ?rows\<rparr>) i k' s' = (if (i, k', s') = (inst, k, s)
      then map_option (\<lambda>_. (a, req)) (source_at c (inst, k, s)) else source_view c i k' s')" for i k' s'
    using row_at_SomeD [of source_key "(i, k', s')" "cd_sources c"]
    by (cases "row_at source_key (i, k', s') (cd_sources c)") (auto simp: source_view_def source_at_def at)
  have "c' = c \<or> (\<exists>r. source_at c (inst, k, s) = Some r \<and> c' = c\<lparr>cd_sources := ?rows\<rparr> \<and>
      changed = ((sr_access r, sr_listing_required r) \<noteq> (a, req)))"
    using assms unfolding source_read_statement_def Let_def req [symmetric]
    by (auto split: option.splits if_splits)
  then show "source_view c' i k' s' = (if (i, k', s') = (inst, k, s) \<and> changed
    then source_view c' i k' s' else source_view c i k' s')"
  proof (elim disjE exE conjE)
    fix r assume r: "source_at c (inst, k, s) = Some r" and c': "c' = c\<lparr>cd_sources := ?rows\<rparr>"
      and ch: "changed = ((sr_access r, sr_listing_required r) \<noteq> (a, req))"
    show ?thesis unfolding c' view using r ch by (auto simp: source_view_def)
  qed simp
qed

lemma source_read_covers:
  "versions.climbs (bindP (stepP (source_read_statement inst k s g a b)) (\<lambda>changed.
     thenP (if changed then stepP (\<lambda>c. ((), bump_version k c)) else returnP ()) (returnP changed)))"
  unfolding versions.climbs_def
proof
  fix c
  obtain changed c' where st: "source_read_statement inst k s g a b c = (changed, c')" by fastforce
  note v = source_read_views [OF st]
  have off: "source_view c' i k' x = source_view c i k' x" if "k' \<noteq> k \<or> \<not> changed" for i k' x
    using v(1) [of i k' x] that by (auto split: if_splits)
  show "covers c (snd (bindP (stepP (source_read_statement inst k s g a b)) (\<lambda>changed.
     thenP (if changed then stepP (\<lambda>c. ((), bump_version k c)) else returnP ()) (returnP changed)) c))"
  proof (cases changed)
    case True
    have "covers c (bump_version k c')" unfolding bump_version_def
      by (rule covers_touched [where b = True]) (use v(2) off True in \<open>auto simp: head_key_def\<close>)
    then show ?thesis using st True by (simp add: prog_defs)
  next
    case False
    have "covers c c'" by (rule covers_sources [where k = k]) (use v(2) off False in auto)
    then show ?thesis using st False by (simp add: prog_defs)
  qed
qed

lemma source_read_climbs: "versions.climbs (record_github_ci_source_read inst k s g a b)"
  unfolding record_github_ci_source_read_def
  by (intro versions.climbs_transaction versions.climbs_bind versions.climbs_read versions.climbs_then sync_climbs
      source_read_covers)

lemma climbs_on_locked_head:
  assumes "\<And>c h. head_at c k = Some h \<Longrightarrow> covers c (snd (f h c))"
  shows "versions.climbs (bindP (readP (\<lambda>c. head_at c k)) (\<lambda>row. case row of None \<Rightarrow> throwP e | Some h \<Rightarrow> f h))"
  unfolding versions.climbs_def using on_locked_head [where P = "covers c" for c] assms by blast

lemma insert_climbs: "versions.climbs (stepP (\<lambda>c. ((), insert_head k c)))"
  by (rule versions.climbs_step) (simp add: covers_insert)

lemma written_fields [simp]:
  "head_key (fact_written f t h) = head_key h" "h_version (fact_written f t h) = h_version h + 1"
  "head_key (seed_written pd clock g t h) = head_key h" "h_version (seed_written pd clock g t h) = h_version h + 1"
  "head_key (refresh_written pd clock g t h) = head_key h"
  by (simp_all add: fact_written_def seed_written_def refresh_written_def head_key_def Let_def)

lemma refresh_version:
  "h_version h < h_version (refresh_written pd clock g t h) \<or>
   h_version (refresh_written pd clock g t h) = h_version h \<and> h_rollup (refresh_written pd clock g t h) = h_rollup h"
  by (auto simp: refresh_written_def Let_def)

lemma head_key_fields [simp]: "head_key (h\<lparr>h_pr_numbers := n, h_updated := t\<rparr>) = head_key h"
  by (simp add: head_key_def)

lemma bump_covers: "covers c (bump_version k c)"
  unfolding bump_version_def by (rule covers_update) (auto simp: head_key_def)

lemma ci_step_covers:
  assumes "\<forall>r n. op \<noteq> ExpireHeadsOp r n"
  shows "covers c (ci_step op c)"
proof (cases op)
  case (FactOp k f)
  have "versions.climbs (apply_pr_head_ci_fact k f)"
    unfolding apply_pr_head_ci_fact_def
    by (intro versions.climbs_then insert_climbs climbs_on_locked_head)
      (auto simp: returnP_def stepP_def Let_def intro!: covers_locked)
  then show ?thesis using FactOp by (simp add: versions.climbsD)
next
  case (SeedOp pd clock k g)
  have "versions.climbs (seed_transaction pd clock k g)"
    unfolding seed_transaction_def
    by (intro versions.climbs_transaction versions.climbs_then insert_climbs climbs_on_locked_head)
      (auto simp: returnP_def stepP_def intro!: covers_update)
  then show ?thesis using SeedOp by (simp add: versions.climbsD)
next
  case (RefreshOp pd clock k g)
  have "versions.climbs (refresh_transaction pd clock k g)"
    unfolding refresh_transaction_def
    by (intro versions.climbs_transaction climbs_on_locked_head)
      (auto simp: returnP_def stepP_def throwP_def Let_def intro!: covers_update refresh_version)
  then show ?thesis using RefreshOp by (simp add: versions.climbsD)
next
  case (SignalOp k e)
  have "versions.climbs (advance_pr_head_ci_revision_for_verification_signal k e)"
    unfolding advance_pr_head_ci_revision_for_verification_signal_def
    by (intro versions.climbs_then insert_climbs climbs_on_locked_head) (auto simp: returnP_def stepP_def bump_covers)
  then show ?thesis using SignalOp by (simp add: versions.climbsD)
next
  case (AuthoredOp k a)
  then show ?thesis by (auto simp: store_pr_head_ci_authored_def head_key_def intro!: covers_update)
next
  case (NumbersOp k ns)
  then show ?thesis
    by (auto simp: store_pr_numbers_for_head_def intro!: covers_upsert [where k = k])
next
  case (ClearRepairOp k)
  let ?p = "\<lambda>h. head_key h = k \<and> h_repair h" and ?f = "\<lambda>h. h\<lparr>h_repair := False, h_updated := clock_of c\<rparr>"
  have "row_at head_key k' (update_where ?p ?f (cd_heads c)) =
      map_option (\<lambda>h. if ?p h then ?f h else h) (row_at head_key k' (cd_heads c))" for k'
    by (rule row_at_update_where) (simp add: head_key_def)
  then show ?thesis using ClearRepairOp
    by (auto simp: covers_def clear_projection_repair_pending_def head_at_def)
next
  case (PreflightOp i e reset)
  have "cd_heads (snd (change_github_preflight_failure_count i e reset c)) = cd_heads c \<and>
      cd_sources (snd (change_github_preflight_failure_count i e reset c)) = cd_sources c"
    unfolding change_github_preflight_failure_count_def fenced_write_def
    by (auto simp: prog_defs on_cdb_def preflight_statement_def Let_def assert_pr_actor_lease_held_def
        split: option.splits sum.splits prod.splits if_splits)
  then show ?thesis using PreflightOp by (simp add: covers_same)
next
  case NextGenerationOp
  then show ?thesis by (simp add: next_github_capability_observation_generation_def covers_same)
next
  case (ExpireCapabilitiesOp r n)
  then show ?thesis by (simp add: delete_expired_github_capabilities_def covers_same Let_def)
next
  case (OtherTablesOp f)
  then show ?thesis by (simp add: covers_same)
qed (use assms in \<open>simp_all add: versions.climbsD [OF load_climbs] versions.climbsD [OF source_read_climbs]
    versions.climbsD [OF save_climbs] versions.climbsD [OF denial_climbs]\<close>)

definition sample_ci :: ci_db where
  "sample_ci = \<lparr>cdb = sample_db [] [], cd_scope = (\<lambda>_. \<lparr>is_owner = ''o'', is_repo = ''r'', is_pr = 1, is_installation = 7\<rparr>),
     cd_heads = [], cd_caps = [], cd_sources = [], cd_generation = 0, cd_preflight = (\<lambda>_. 0)\<rparr>"

abbreviation sample_head :: head_key where
  "sample_head \<equiv> (''o'', ''r'', ''abc'')"

definition sample_fact :: "string \<Rightarrow> string \<Rightarrow> string \<Rightarrow> ci_fact" where
  "sample_fact name conclusion t = \<lparr>cf_name = name, cf_source = CheckRunSource, cf_status = ''completed'',
     cf_conclusion = Some conclusion, cf_url = None, cf_external_id = None, cf_app_id = None, cf_run_id = None,
     cf_observed_at = t\<rparr>"

lemmas sample_ci_defs = sample_ci_def sample_fact_def sample_db_def apply_pr_head_ci_fact_def insert_head_def new_head_def
  head_at_def head_key_def upsert_def row_at_def update_head_def update_where_def fact_written_def apply_ci_check_fact_def
  evict_loop_idle ci_state_max_checks_def classify_snapshot_def is_check_fact_failing_def is_check_fact_pending_def
  failing_check_conclusions_def pending_check_statuses_def Let_def

theorem rollup_is_classification_witness:
  "\<exists>h. head_at (fold ci_step [FactOp sample_head (sample_fact ''build'' ''failure'' ''t'')] sample_ci) sample_head = Some h \<and>
     h_rollup h = RollupFailing"
proof -
  let ?c = "fold ci_step [FactOp sample_head (sample_fact ''build'' ''failure'' ''t'')] sample_ci"
  have "heads_ok sample_ci" by (simp add: heads_ok_def sample_ci_def)
  moreover obtain h where h: "head_at ?c sample_head = Some h"
      "classify_snapshot (map snd (h_checks h)) = RollupFailing"
    by (simp add: sample_ci_defs prog_defs)
  ultimately show ?thesis using rollup_is_classification [OF _ h(1)] by auto
qed



subsection \<open>Denied permissions\<close>

definition denial_kept :: "repository_key \<Rightarrow> installation_operation \<Rightarrow> ci_db \<Rightarrow> ci_db \<Rightarrow> bool" where
  "denial_kept rk op c c' \<longleftrightarrow> (\<forall>r. caps_at c rk = Some r \<and> rc_capabilities r op = Some AccessDenied \<longrightarrow>
     (\<exists>r'. caps_at c' rk = Some r' \<and> rc_generation r \<le> rc_generation r' \<and> rc_capabilities r' op = Some AccessDenied))"

interpretation denials: state_order "denial_kept rk op" for rk op
  by unfold_locales (unfold denial_kept_def, simp, metis order_trans)

lemma denial_same: "cd_caps c' = cd_caps c \<Longrightarrow> denial_kept rk op c c'"
  by (auto simp: denial_kept_def caps_at_def)

text \<open>Programs that do not write the capabilities.\<close>

lemma caps_climb: "(\<And>c. cd_caps (snd (m c)) = cd_caps c) \<Longrightarrow> denials.climbs rk op m"
  by (simp add: denials.climbs_def denial_same)

lemma update_head_caps [simp]: "cd_caps (update_head k f c) = cd_caps c"
  by (simp add: update_head_def)

lemma insert_head_caps [simp]: "cd_caps (insert_head k c) = cd_caps c"
  by (simp add: insert_head_def)

lemma sync_source_caps [simp]: "cd_caps (snd (sync_source_statement inst k g a s c)) = cd_caps c"
  by (auto simp: sync_source_statement_def Let_def split: option.splits prod.splits)

lemma denial_kept_sync: "denials.climbs rk op (sync_sources inst k obs)"
proof -
  have "denials.climbs rk op (sync_source_statement inst k g a s)" for g a s
    by (rule caps_climb) simp
  moreover have "denials.climbs rk op (stepP (\<lambda>c. ((), update_head k (f c) c)))" for f
    by (rule caps_climb) (simp add: stepP_def)
  ultimately show ?thesis unfolding sync_sources_def Let_def by (auto intro!: denials.climbs_bind)
qed

lemma denial_kept_fanned: "denials.climbs rk op (case r of None \<Rightarrow> returnP False
    | Some r \<Rightarrow> thenP (fanout_observation rk' (obs r)) (returnP True))"
  unfolding fanout_observation_def
  by (auto split: option.split intro!: denials.climbs_then denials.climbs_bind denials.climbs_for_each denial_kept_sync)

lemma caps_written: "cd_caps (c\<lparr>cd_caps := rows\<rparr>) = rows"
  by simp

lemma denial_kept_save:
  assumes "rk' \<noteq> rk \<or> caps op \<noteq> Some AccessAvailable"
  shows "denials.climbs rk op (save_github_capability_observation rk' gen caps)"
proof -
  have "denial_kept rk op c (snd (save_observation_statement rk' g caps c))" for g c
  proof -
    let ?new = "\<lparr>rc_key = rk', rc_generation = g, rc_capabilities = caps, rc_observed_at = clock_of c\<rparr>"
    let ?f = "\<lambda>r. r\<lparr>rc_generation := g, rc_capabilities := merge_capabilities (rc_capabilities r) caps,
                rc_observed_at := clock_of c\<rparr>"
    have at: "caps_at (snd (save_observation_statement rk' g caps c)) rk = (if rk = rk' then
        (case caps_at c rk' of None \<Rightarrow> Some ?new | Some r \<Rightarrow> Some (if rc_generation r < g then ?f r else r))
        else caps_at c rk)"
      unfolding save_observation_statement_def caps_at_def case_prod_beta
      by (simp only: snd_conv caps_written) (rule row_at_upsert_keyed, simp_all)
    have denied: "merge_capabilities p caps op = Some AccessDenied"
      if "p op = Some AccessDenied" "caps op \<noteq> Some AccessAvailable" for p
      using that by (cases "caps op"; cases "the (caps op)") (auto simp: merge_capabilities_def)
    show ?thesis unfolding denial_kept_def at using assms denied by auto
  qed
  then show ?thesis unfolding save_github_capability_observation_def
    by (cases gen) (auto intro!: denials.climbs_transaction denials.climbs_bind denials.climbs_step denial_kept_fanned)
qed

lemma denial_kept_deny: "denials.climbs rk op (record_github_capability_denial rk' g op')"
proof -
  have "denial_kept rk op c (snd (denial_statement rk' g op' c))" for c
    unfolding denial_kept_def denial_statement_def Let_def caps_at_def
    by (auto simp: row_at_update_where)
  then show ?thesis unfolding record_github_capability_denial_def
    by (auto intro!: denials.climbs_transaction denials.climbs_bind denials.climbs_step denial_kept_fanned)
qed


lemma denial_kept_load: "denials.climbs rk op (load_github_ci_source_availability inst k)"
  unfolding load_github_ci_source_availability_def
  by (auto split: option.split intro!: denials.climbs_transaction denials.climbs_bind denials.climbs_then denial_kept_sync)

lemma denial_kept_source_read: "denials.climbs rk op (record_github_ci_source_read inst k s g a b)"
proof -
  have "cd_caps (snd (source_read_statement inst k s g a b c)) = cd_caps c" for c
    by (auto simp: source_read_statement_def Let_def split: option.split)
  then show ?thesis unfolding record_github_ci_source_read_def bump_version_def
    by (auto intro!: denials.climbs_transaction denials.climbs_bind denials.climbs_then denials.climbs_step
        denial_kept_sync denial_same)
qed

text \<open>Programs that lock a head write only the heads.\<close>

lemma denial_kept_head_programs:
  "denials.climbs rk op (apply_pr_head_ci_fact k f)"
  "denials.climbs rk op (seed_transaction pd clock k g)"
  "denials.climbs rk op (refresh_transaction pd clock k g)"
  "denials.climbs rk op (advance_pr_head_ci_revision_for_verification_signal k e)"
  by (rule caps_climb, simp add: apply_pr_head_ci_fact_def seed_transaction_def refresh_transaction_def
      advance_pr_head_ci_revision_for_verification_signal_def bump_version_def prog_defs Let_def split: option.split)+

lemma ci_step_denial:
  assumes "\<forall>g caps. x = SaveCapabilitiesOp rk g caps \<longrightarrow> caps op \<noteq> Some AccessAvailable"
    and "\<forall>r n. x \<noteq> ExpireCapabilitiesOp r n"
  shows "denial_kept rk op c (ci_step x c)"
proof (cases x)
  case (PreflightOp i e reset)
  have "cd_caps (snd (change_github_preflight_failure_count i e reset c)) = cd_caps c"
    unfolding change_github_preflight_failure_count_def fenced_write_def
    by (auto simp: prog_defs on_cdb_def preflight_statement_def Let_def assert_pr_actor_lease_held_def
        split: option.splits sum.splits prod.splits if_splits)
  then show ?thesis using PreflightOp by (simp add: denial_same)
next
  case (SaveCapabilitiesOp rk' g caps)
  then show ?thesis using assms(1) denials.climbsD [OF denial_kept_save [of rk' rk caps op "Some g"]] by auto
qed (use assms(2) in \<open>simp_all add: denials.climbsD [OF denial_kept_head_programs(1)] denials.climbsD [OF denial_kept_head_programs(2)]
    denials.climbsD [OF denial_kept_head_programs(3)] denials.climbsD [OF denial_kept_head_programs(4)]
    denials.climbsD [OF denial_kept_load] denials.climbsD [OF denial_kept_source_read] denials.climbsD [OF denial_kept_deny]
    denial_same store_pr_head_ci_authored_def store_pr_numbers_for_head_def clear_projection_repair_pending_def
    next_github_capability_observation_generation_def delete_head_batch_def Let_def\<close>)

text \<open>C32. Once an operation is recorded as denied to an installation in a repository it stays denied, under a generation that
  never falls, whatever else is observed or written: observations that do not know it, older ones, and records of
  other repositories do not lift it. Only an observation that finds it granted does, or the retention of the row.\<close>

theorem denial_outlives_unknown:
  assumes "\<forall>g caps. SaveCapabilitiesOp rk g caps \<in> set ops \<longrightarrow> caps op \<noteq> Some AccessAvailable"
    and "\<forall>r n. ExpireCapabilitiesOp r n \<notin> set ops"
    and "load_github_capability_observation rk c = Some (g, caps)" and "caps op = Some AccessDenied"
  shows "\<exists>g' caps'. load_github_capability_observation rk (fold ci_step ops c) = Some (g', caps') \<and> g \<le> g' \<and>
    caps' op = Some AccessDenied"
proof -
  have "denial_kept rk op c (fold ci_step ops c)"
    by (rule denials.climbs_fold, rule ci_step_denial) (use assms(1,2) in auto)
  then show ?thesis using assms(3,4) by (auto simp: denial_kept_def load_github_capability_observation_def)
qed

theorem denial_outlives_unknown_witness:
  "\<exists>g' caps'. load_github_capability_observation (7, ''o'', ''r'') (fold ci_step
      [SaveCapabilitiesOp (7, ''o'', ''r'') 2 (\<lambda>_. Some AccessUnknown)]
      (sample_ci\<lparr>cd_caps := [\<lparr>rc_key = (7, ''o'', ''r''), rc_generation = 1, rc_capabilities = (\<lambda>_. Some AccessDenied),
        rc_observed_at = 0\<rparr>]\<rparr>)) = Some (g', caps') \<and> 1 \<le> g' \<and> caps' ChecksRead = Some AccessDenied"
  by (rule denial_outlives_unknown [where caps = "\<lambda>_. Some AccessDenied"])
    (simp_all add: load_github_capability_observation_def caps_at_def row_at_simps)

subsection \<open>Deliveries in any order\<close>

definition checks_at :: "head_key \<Rightarrow> ci_db \<Rightarrow> check_map" where
  "checks_at k c = (case head_at c k of None \<Rightarrow> [] | Some h \<Rightarrow> h_checks h)"

text \<open>A head whose rollup is the classification of its facts, as every accepted delivery leaves it.\<close>

definition classified :: "head_key \<Rightarrow> ci_db \<Rightarrow> bool" where
  "classified k c \<longleftrightarrow> keyed_checks (checks_at k c) \<and>
     (\<forall>h. head_at c k = Some h \<longrightarrow> h_rollup h = classify_snapshot (map snd (h_checks h)))"

lemma rejected_fact: "\<not> ap_accepted (apply_ci_check_fact cs f limit) \<Longrightarrow> ap_checks (apply_ci_check_fact cs f limit) = cs"
  by (cases rule: apply_fact_cases [where cs = cs and f = f and limit = limit, case_names Old New]) simp_all

lemma fact_step:
  assumes "classified k c"
  shows "\<exists>h. head_at (ci_step (FactOp k f) c) k = Some h \<and>
      h_checks h = ap_checks (apply_ci_check_fact (checks_at k c) f ci_state_max_checks)"
    and "classified k (ci_step (FactOp k f) c)"
proof -
  obtain h where h: "head_at (insert_head k c) k = Some h" "h_checks h = checks_at k c"
      "h_rollup h = classify_snapshot (map snd (h_checks h))"
    using assms by (cases "head_at c k")
      (auto simp: head_at_insert checks_at_def classified_def new_head_def classify_snapshot_def split: prod.split)
  have key: "head_key h = k" using h(1) row_at_SomeD [of head_key k "cd_heads (insert_head k c)"] by (simp add: head_at_def)
  let ?m = "apply_ci_check_fact (h_checks h) f ci_state_max_checks"
  have run: "ci_step (FactOp k f) c = (if ap_accepted ?m
      then update_head k (\<lambda>_. fact_written f (clock_of (insert_head k c)) h) (insert_head k c) else insert_head k c)"
    by (simp add: apply_pr_head_ci_fact_def prog_defs h(1) Let_def)
  have at: "head_at (ci_step (FactOp k f) c) k =
      Some (if ap_accepted ?m then fact_written f (clock_of (insert_head k c)) h else h)"
    using h(1) key unfolding run by (simp add: head_at_locked)
  show "\<exists>h. head_at (ci_step (FactOp k f) c) k = Some h \<and>
      h_checks h = ap_checks (apply_ci_check_fact (checks_at k c) f ci_state_max_checks)"
    using rejected_fact [of "h_checks h" f ci_state_max_checks] h(2)
    by (auto simp: at fact_written_def Let_def simp del: ci_step.simps)
  have "keyed_checks (h_checks h)" using assms h(2) by (simp add: classified_def)
  then have "keyed_checks (ap_checks ?m)" by (rule apply_fact_keyed)
  with \<open>keyed_checks (h_checks h)\<close> show "classified k (ci_step (FactOp k f) c)"
    using h(3) by (auto simp: classified_def checks_at_def at fact_written_def Let_def simp del: ci_step.simps)
qed

lemma facts_delivered:
  assumes "classified k c"
  shows "checks_at k (fold ci_step (map (FactOp k) fs) c) = deliver ci_state_max_checks fs (checks_at k c) \<and>
    classified k (fold ci_step (map (FactOp k) fs) c) \<and>
    (fs \<noteq> [] \<longrightarrow> head_at (fold ci_step (map (FactOp k) fs) c) k \<noteq> None)"
  using assms
proof (induction fs arbitrary: c)
  case (Cons f fs)
  obtain h where h: "head_at (ci_step (FactOp k f) c) k = Some h"
      "h_checks h = ap_checks (apply_ci_check_fact (checks_at k c) f ci_state_max_checks)"
    using fact_step(1) [OF Cons.prems] by blast
  have "head_at (fold ci_step (map (FactOp k) fs) (ci_step (FactOp k f) c)) k \<noteq> None"
    using Cons.IH [OF fact_step(2) [OF Cons.prems]] h(1) by (cases fs) (auto simp del: ci_step.simps)
  then show ?case using Cons.IH [OF fact_step(2) [OF Cons.prems, of f]] h
    by (simp add: checks_at_def deliver_def del: ci_step.simps)
qed (simp add: deliver_def)

lemma classify_set: "set fs = set gs \<Longrightarrow> classify_snapshot fs = classify_snapshot gs"
  by (cases fs; cases gs) (auto simp: classify_snapshot_def list_ex_iff)



end
