(* ===== verification/Durable_Job.thy ===== *)
theory Durable_Job
  imports Leased_Execution Intents Runtime_Limits Head_Ci
begin

text \<open>
  The run of one job: \<^verbatim>\<open>src/agentWork/retryPolicy.ts\<close> and \<^verbatim>\<open>src/agentWork/durableJob.ts\<close>.

  A job takes the lease and the claim of its work item, prepares access to GitHub, runs the executor and settles the
  item: completed, queued again for a retry, failed or cancelled. The state of a run holds the tables, the leased
  execution and the variables of \<open>runDurableWorkItem\<close>. Every query first takes the next move of the
  schedule: what other sessions committed, which timers fired, whether the job was aborted, and the error of the
  query if it fails. The calls that leave the program (the installation surface, the executor, the hooks) are
  programs given as parameters. Telemetry and logging are left out.

  The properties state that the executor runs only in states in which the lease is held, how an error of the
  executor settles the item, and that the release is the last thing that happens to the execution.
\<close>

subsection \<open>The retry policy\<close>

datatype retry_disposition = Transient | Deterministic | TerminalFailure

definition deterministic_failure_codes :: "string list" where
  "deterministic_failure_codes =
     [''verification.missing_submit'', ''triage.missing_submit'', ''review.specialist_invalid_report'']"

definition cancel_abort_codes :: "string list" where
  "cancel_abort_codes = [''agent.session_aborted'', ''review.specialist_aborted'']"

text \<open>\<open>halted\<close> recognises a \<open>CodeModeHostHalt\<close> with the code \<open>CANCELLED\<close>: errors carry no class here.\<close>

definition is_cancel_abort_error :: "(js_error \<Rightarrow> bool) \<Rightarrow> js_error \<Rightarrow> bool" where
  "is_cancel_abort_error halted e \<longleftrightarrow> is_app_error e \<and> error_code e \<in> set cancel_abort_codes \<or> halted e"

definition is_stale_head_replacement_exhausted :: "js_error \<Rightarrow> bool" where
  "is_stale_head_replacement_exhausted e \<longleftrightarrow> is_app_error e \<and> error_code e = ''review.stale_head_replacement_exhausted''"

datatype git_failure_kind = GitTimeout | GitAuth | GitMissingRef | GitOther

definition workspace_git_failure_kind :: "js_error \<Rightarrow> git_failure_kind option" where
  "workspace_git_failure_kind e =
     (case e of
        AppError d k ctx \<Rightarrow>
          if error_code e \<noteq> ''pr_workspace.fetch_timeout'' \<and> error_code e \<noteq> ''pr_workspace.git_failed'' then None
          else Some (case map_of ctx ''failureKind'' of
              Some (JStr s) \<Rightarrow> if s = ''timeout'' then GitTimeout else if s = ''auth'' then GitAuth
                else if s = ''missing_ref'' then GitMissingRef else GitOther
            | _ \<Rightarrow> GitOther)
      | _ \<Rightarrow> None)"

definition unknown_outcome_is_terminal :: "js_error \<Rightarrow> bool" where
  "unknown_outcome_is_terminal e \<longleftrightarrow> is_app_error e \<and> error_code e = ''operation_intent.mutation_outcome_unknown'' \<and>
     map_of (case e of AppError _ _ ctx \<Rightarrow> ctx | _ \<Rightarrow> []) ''unknownResolution'' = Some (JStr ''terminal'')"

definition terminal_failure_codes :: "string list" where
  "terminal_failure_codes = [''agent_work.attempts_exhausted'', ''github.essential_access_denied'',
     ''github.preflight_exhausted'', ''github.review_thread_resolution_denied'']"

definition retry_disposition_for :: "(js_error \<Rightarrow> bool) \<Rightarrow> js_error \<Rightarrow> retry_disposition" where
  "retry_disposition_for halted e =
     (if is_stale_head_replacement_exhausted e then TerminalFailure
      else if is_cancel_abort_error halted e then TerminalFailure
      else if is_app_error e \<and> error_code e \<in> set terminal_failure_codes then TerminalFailure
      else if unknown_outcome_is_terminal e then TerminalFailure
      else if workspace_git_failure_kind e \<in> {Some GitAuth, Some GitMissingRef} then TerminalFailure
      else if is_app_error e \<and> error_code e \<in> set deterministic_failure_codes then Deterministic
      else Transient)"

datatype escalation_kind = ToolRounds | FallbackModel

record model_assignment =
  ma_provider :: string
  ma_model :: string

record escalation_plan =
  ep_attempt :: int
  ep_kinds :: "escalation_kind list"
  ep_model :: "model_assignment option"

definition escalation_for_attempt :: "model_assignment option \<Rightarrow> int \<Rightarrow> escalation_plan option" where
  "escalation_for_attempt fallback attempt =
     (if attempt \<le> 1 then None
      else Some \<lparr>ep_attempt = attempt,
        ep_kinds = (if fallback \<noteq> None then [ToolRounds, FallbackModel] else [ToolRounds]), ep_model = fallback\<rparr>)"

definition escalated_tool_rounds_multiplier :: int where "escalated_tool_rounds_multiplier = 2"
definition escalated_tool_rounds_cap :: int where "escalated_tool_rounds_cap = 4000"
definition max_escalated_verification_inventory :: nat where "max_escalated_verification_inventory = 10"

definition escalated_tool_rounds :: "int \<Rightarrow> escalation_plan option \<Rightarrow> int" where
  "escalated_tool_rounds base plan = (case plan of None \<Rightarrow> base
     | Some _ \<Rightarrow> min (base * escalated_tool_rounds_multiplier) escalated_tool_rounds_cap)"

definition escalated_verification_inventory :: "'a list \<Rightarrow> escalation_plan option \<Rightarrow> 'a list" where
  "escalated_verification_inventory inventory plan =
     (case plan of None \<Rightarrow> inventory | Some _ \<Rightarrow> take max_escalated_verification_inventory inventory)"

subsection \<open>The state of a run\<close>

datatype timer_tick = RenewTick bool | CancelTick bool "db \<Rightarrow> db"

record job_move =
  mv_commit :: "ci_db \<Rightarrow> ci_db"
  mv_ticks :: "timer_tick list"
  mv_abort :: bool
  mv_fault :: "js_error option"
  mv_inner :: "(db \<Rightarrow> db) list"

datatype job_phase = Claiming | Executing | Completing

record pr_surface =
  sf_token :: string
  sf_has_policy :: bool

datatype reaction = PlusOne | MinusOne

datatype job_event =
    CancelledHook string
  | TerminalHook js_error ci_db
  | ReactionSent reaction
  | ExecutorStarted ci_db

record run_state =
  js_cd :: ci_db
  js_circuits :: "shared_circuit list"
  js_moves :: "job_move list"
  js_job_aborted :: bool
  js_exec :: "execution option"
  js_abort_reason :: "js_error option"
  js_phase :: job_phase
  js_policy :: "capability_policy option"
  js_token :: "string option"
  js_head :: "string option"
  js_surface :: "pr_surface option"
  js_claim :: "work_claim option"
  js_admitted :: bool
  js_admission :: "(js_error + work_claim) option"
  js_log :: "job_event list"

text \<open>
  A tick of a timer of the execution. The abort that it causes carries a reason: the lost lease, or the anonymous
  reason of \<open>abort()\<close>.
\<close>

definition abort_without_reason :: js_error where
  "abort_without_reason = PlainError ''AbortError''"

definition run_tick :: "int \<Rightarrow> timer_tick \<Rightarrow> run_state \<Rightarrow> run_state" where
  "run_tick ttl t s =
     (case js_exec s of
        None \<Rightarrow> s
      | Some x \<Rightarrow>
          let (x', d') = (case t of RenewTick fault \<Rightarrow> lease_renewal_tick ttl fault (x, cdb (js_cd s))
                            | CancelTick fault env \<Rightarrow> cancel_observe_tick fault env (x, cdb (js_cd s)))
          in s\<lparr>js_exec := Some x', js_cd := (js_cd s)\<lparr>cdb := d'\<rparr>,
               js_abort_reason := (if x_aborted x' \<and> \<not> x_aborted x \<and> js_abort_reason s = None
                 then Some (case t of RenewTick _ \<Rightarrow> lease_lost | CancelTick _ _ \<Rightarrow> abort_without_reason)
                 else js_abort_reason s)\<rparr>)"

text \<open>\<open>job_reason\<close> is the reason with which the queue aborts a job.\<close>

definition elapse :: "int \<Rightarrow> js_error \<Rightarrow> run_state \<Rightarrow> run_state" where
  "elapse ttl job_reason s =
     (case js_moves s of
        [] \<Rightarrow> s
      | m # ms \<Rightarrow>
          let s1 = fold (run_tick ttl) (mv_ticks m) (s\<lparr>js_moves := ms, js_cd := mv_commit m (js_cd s)\<rparr>)
          in if mv_abort m \<and> \<not> js_job_aborted s1
             then s1\<lparr>js_job_aborted := True, js_abort_reason := coalesce (js_abort_reason s1) (Some job_reason)\<rparr>
             else s1)"

definition next_fault :: "run_state \<Rightarrow> js_error option" where
  "next_fault s = (case js_moves s of [] \<Rightarrow> None | m # _ \<Rightarrow> mv_fault m)"

definition next_inner :: "run_state \<Rightarrow> (db \<Rightarrow> db) list" where
  "next_inner s = (case js_moves s of [] \<Rightarrow> [] | m # _ \<Rightarrow> mv_inner m)"

definition signal_aborted :: "run_state \<Rightarrow> bool" where
  "signal_aborted s \<longleftrightarrow> js_job_aborted s \<or> (case js_exec s of None \<Rightarrow> False | Some x \<Rightarrow> x_aborted x)"

subsection \<open>The job and its surroundings\<close>

datatype exec_result =
    ExecCompleted "string list"
  | ExecRescheduled "(ci_db, unit) prog"

text \<open>
  An executor is the tree of the calls that it makes: work of its own on the tables and on GitHub, and the calls that
  its context offers. It goes on with the answer, or with the error that it may handle.
\<close>

datatype executor =
    Return exec_result
  | Throw js_error
  | Work "(ci_db, json) prog" "js_error + json \<Rightarrow> executor"
  | Admit "js_error + work_claim \<Rightarrow> executor"
  | EnsureAccess "js_error + unit \<Rightarrow> executor"
  | ShouldAbort "js_error + bool \<Rightarrow> executor"
  | IsAborted "bool \<Rightarrow> executor"
  | Escalation "escalation_plan option \<Rightarrow> executor"
  | Deny installation_operation "js_error + unit \<Rightarrow> executor"

record job_params =
  jp_item :: item_id
  jp_type :: work_type
  jp_queue :: "string option"
  jp_accept :: "work_item \<Rightarrow> bool"
  jp_app_id :: string
  jp_retry_limit :: int
  jp_job_retry_count :: int
  jp_job_retry_limit :: int
  jp_ttl :: int
  jp_priority :: "int option"
  jp_holder :: string
  jp_clock :: time
  jp_fallback :: "model_assignment option"
  jp_job_reason :: js_error
  jp_halted :: "js_error \<Rightarrow> bool"
  jp_message :: "js_error \<Rightarrow> string"
  jp_attach :: "work_item \<Rightarrow> detail \<Rightarrow> js_error option"
  jp_boss :: boss_api
  jp_transact :: "nat \<Rightarrow> (db, atomic_claim) prog \<Rightarrow> (db, atomic_claim) prog"
  jp_lookup :: "operation_intent \<Rightarrow> (unit world, string option) prog"
  jp_commenter :: "work_item \<Rightarrow> int option"
  jp_bot :: "(ci_db, int) prog"
  jp_token :: "int \<Rightarrow> (ci_db, string) prog"
  jp_preflight :: "capability_scope \<Rightarrow> string \<Rightarrow> (ci_db, installation_capabilities \<times> string option) prog"
  jp_create :: "string \<Rightarrow> (ci_db, unit) prog"
  jp_resolve_head :: "pr_surface \<Rightarrow> work_item \<Rightarrow> (ci_db, string) prog"
  jp_execute :: "work_item \<Rightarrow> string \<Rightarrow> int option \<Rightarrow> executor"
  jp_on_cancelled :: "(work_item \<Rightarrow> pr_surface \<Rightarrow> string \<Rightarrow> int option \<Rightarrow> (ci_db, unit) prog) option"
  jp_on_terminal :: "(work_item \<Rightarrow> pr_surface option \<Rightarrow> js_error \<Rightarrow> int option \<Rightarrow> (ci_db, unit) prog) option"
  jp_react :: "work_item \<Rightarrow> reaction \<Rightarrow> (ci_db, unit) prog"

definition max_attempts :: "job_params \<Rightarrow> int" where
  "max_attempts P = jp_retry_limit P + 1"

text \<open>One round trip, to the database or to a service outside.\<close>

definition await :: "job_params \<Rightarrow> (ci_db, 'a) prog \<Rightarrow> (run_state, 'a) prog" where
  "await P m = (\<lambda>s.
     let s1 = elapse (jp_ttl P) (jp_job_reason P) s
     in case next_fault s of
          Some e \<Rightarrow> (Inl e, s1)
        | None \<Rightarrow> (fst (m (js_cd s1)), s1\<lparr>js_cd := snd (m (js_cd s1))\<rparr>))"

abbreviation await_db :: "job_params \<Rightarrow> (db, 'a) prog \<Rightarrow> (run_state, 'a) prog" where
  "await_db P m \<equiv> await P (on_cdb m)"

abbreviation lookup_db :: "job_params \<Rightarrow> (db \<Rightarrow> 'a) \<Rightarrow> (run_state, 'a) prog" where
  "lookup_db P f \<equiv> await P (readP (\<lambda>c. f (cdb c)))"

abbreviation update_run :: "(run_state \<Rightarrow> run_state) \<Rightarrow> (run_state, unit) prog" where
  "update_run f \<equiv> stepP (\<lambda>s. ((), f s))"

definition note_event :: "job_event \<Rightarrow> (run_state, unit) prog" where
  "note_event ev = update_run (\<lambda>s. s\<lparr>js_log := js_log s @ [ev]\<rparr>)"

text \<open>An event with the tables as they are when it happens.\<close>

definition note_tables :: "(ci_db \<Rightarrow> job_event) \<Rightarrow> (run_state, unit) prog" where
  "note_tables ev = update_run (\<lambda>s. s\<lparr>js_log := js_log s @ [ev (js_cd s)]\<rparr>)"

definition quietly :: "(run_state, unit) prog \<Rightarrow> (run_state, unit) prog" where
  "quietly m = catchP m (\<lambda>_. returnP ())"

definition finallyP :: "(run_state, 'a) prog \<Rightarrow> (run_state, unit) prog \<Rightarrow> (run_state, 'a) prog" where
  "finallyP m r = (\<lambda>s. case m s of (res, s1) \<Rightarrow> (case r s1 of (Inl e, s2) \<Rightarrow> (Inl e, s2) | (Inr _, s2) \<Rightarrow> (res, s2)))"

definition from_sum :: "js_error + 'a \<Rightarrow> ('s, 'a) prog" where
  "from_sum r = (case r of Inl e \<Rightarrow> throwP e | Inr x \<Rightarrow> returnP x)"

definition exec_epoch :: "run_state \<Rightarrow> int option" where
  "exec_epoch s = (case js_exec s of None \<Rightarrow> None | Some x \<Rightarrow> x_epoch x)"

subsection \<open>Access to the installation\<close>

definition unknown_scope :: "job_params \<Rightarrow> item_scope \<Rightarrow> capability_scope" where
  "unknown_scope P sc = \<lparr>cs_app_id = jp_app_id P, cs_installation = is_installation sc, cs_owner = is_owner sc, cs_repo = is_repo sc\<rparr>"

definition repository_key_of :: "item_scope \<Rightarrow> repository_key" where
  "repository_key_of sc = (is_installation sc, is_owner sc, is_repo sc)"

definition stored_observation :: "job_params \<Rightarrow> item_scope \<Rightarrow> int \<Rightarrow> stored_capabilities \<Rightarrow> installation_capabilities" where
  "stored_observation P sc g caps =
     (let unknown = unknown_installation_capabilities (unknown_scope P sc) (int_text g)
      in unknown\<lparr>ic_availability := (\<lambda>op. case caps op of None \<Rightarrow> ic_availability unknown op | Some a \<Rightarrow> a)\<rparr>)"

definition preflight_installation ::
  "job_params \<Rightarrow> item_scope \<Rightarrow> (run_state, installation_capabilities \<times> string option) prog" where
  "preflight_installation P sc =
     bindP (await P (stepP next_github_capability_observation_generation)) (\<lambda>g.
       bindP (await P (jp_preflight P (unknown_scope P sc) g)) (\<lambda>(obs, inst).
         thenP (await P (save_installation_capabilities obs)) (returnP (obs, inst))))"

definition assign_installation_policy :: "job_params \<Rightarrow> item_scope \<Rightarrow> (run_state, unit) prog" where
  "assign_installation_policy P sc = bindP (readP js_policy) (\<lambda>old.
     if old \<noteq> None then returnP ()
     else bindP (await P (readP (load_github_capability_observation (repository_key_of sc)))) (\<lambda>stored.
       bindP (case stored of
           Some (g, caps) \<Rightarrow>
             if capability_observation_unconfirmed caps then preflight_installation P sc
             else bindP (await P (jp_token P (is_installation sc))) (\<lambda>tok. returnP (stored_observation P sc g caps, Some tok))
         | None \<Rightarrow> preflight_installation P sc)
         (\<lambda>(obs, inst). update_run (\<lambda>s. s\<lparr>js_policy := Some (create_review_capability_policy obs),
            js_token := (case inst of None \<Rightarrow> js_token s | Some t \<Rightarrow> Some t)\<rparr>))))"

definition assign_installation_policy_for_cancel :: "job_params \<Rightarrow> item_scope \<Rightarrow> (run_state, bool) prog" where
  "assign_installation_policy_for_cancel P sc =
     catchP (thenP (assign_installation_policy P sc) (returnP True)) (\<lambda>_. returnP False)"

text \<open>What PostgreSQL answers to \<open>NaN\<close> for a \<^verbatim>\<open>bigint\<close>.\<close>

definition not_a_number :: js_error where
  "not_a_number = ForeignError \<lparr>fe_status = None, fe_not_accepted = False, fe_response = None, fe_code = Some ''22P02''\<rparr>"

text \<open>A denial that a surface reports: remembered by the policy, and recorded for the repository.\<close>

definition deny_operation :: "job_params \<Rightarrow> item_scope \<Rightarrow> installation_operation \<Rightarrow> (run_state, unit) prog" where
  "deny_operation P sc op = bindP (readP js_policy) (\<lambda>p. case p of
     None \<Rightarrow> returnP ()
   | Some pol \<Rightarrow>
       let report = (\<lambda>o'. case number_of_text (ic_generation (cp_observation pol)) of
             None \<Rightarrow> throwP not_a_number
           | Some g \<Rightarrow> thenP (await P (record_github_capability_denial (repository_key_of sc) g o')) (returnP ()));
           (pol', m) = policy_deny report pol op
       in thenP (update_run (\<lambda>s. s\<lparr>js_policy := Some pol'\<rparr>)) m)"

definition throw_option :: "js_error option \<Rightarrow> ('s, unit) prog" where
  "throw_option e = (case e of None \<Rightarrow> returnP () | Some err \<Rightarrow> throwP err)"

definition pr_surface_for_hooks :: "job_params \<Rightarrow> item_scope \<Rightarrow> string option \<Rightarrow> (run_state, pr_surface) prog" where
  "pr_surface_for_hooks P sc inst = bindP (readP (\<lambda>s. (js_policy s, js_token s))) (\<lambda>(policy, seeded).
     thenP (case policy of
         Some p \<Rightarrow> if inst = None \<and> seeded = None
           then throw_option (assert_essential_installation_capabilities (cp_observation p)) else returnP ()
       | None \<Rightarrow> returnP ())
     (bindP (case coalesce inst seeded of Some t \<Rightarrow> returnP t | None \<Rightarrow> await P (jp_token P (is_installation sc))) (\<lambda>t.
       thenP (await P (jp_create P t)) (returnP \<lparr>sf_token = t, sf_has_policy = (policy \<noteq> None)\<rparr>))))"

subsection \<open>Cancelling\<close>

definition invoke_cancelled_hook ::
  "job_params \<Rightarrow> item_scope \<Rightarrow> work_item \<Rightarrow> string \<Rightarrow> string option \<Rightarrow> (run_state, unit) prog" where
  "invoke_cancelled_hook P sc w reason inst = (case jp_on_cancelled P of
     None \<Rightarrow> returnP ()
   | Some hook \<Rightarrow> bindP (readP exec_epoch) (\<lambda>e.
       if jp_queue P \<noteq> None \<and> e = None then returnP ()
       else quietly (bindP (pr_surface_for_hooks P sc inst) (\<lambda>sf.
         thenP (note_event (CancelledHook reason)) (await P (hook w sf reason e))))))"

definition mark_cancelled_and_invoke_hook ::
  "job_params \<Rightarrow> item_scope \<Rightarrow> work_item \<Rightarrow> string \<Rightarrow> string option \<Rightarrow> bool \<Rightarrow> (run_state, unit) prog" where
  "mark_cancelled_and_invoke_hook P sc w reason inst notify = bindP (readP js_exec) (\<lambda>lease.
     bindP (case lease of
         None \<Rightarrow> bindP (await_db P (stepP (mark_work_cancelled (w_id w) None))) (\<lambda>b. returnP (Some b))
       | Some x \<Rightarrow> bindP (case x_epoch x of None \<Rightarrow> returnP True
             | Some e \<Rightarrow> lookup_db P (\<lambda>d. is_pr_actor_lease_held d (w_id w) e)) (\<lambda>held.
           if \<not> held then returnP None
           else bindP (await_db P (stepP (mark_work_cancelled (w_id w) (x_epoch x)))) (\<lambda>b. returnP (Some b))))
     (\<lambda>won. if won \<noteq> None \<and> notify then invoke_cancelled_hook P sc w reason inst else returnP ()))"

definition execution_owns :: "job_params \<Rightarrow> execution \<Rightarrow> (run_state, bool) prog" where
  "execution_owns P x = (case x_epoch x of None \<Rightarrow> returnP True
     | Some e \<Rightarrow> lookup_db P (\<lambda>d. is_pr_actor_lease_held d (x_item x) e))"

definition cancel_if_skippable ::
  "job_params \<Rightarrow> execution \<Rightarrow> item_scope \<Rightarrow> work_item \<Rightarrow> string \<Rightarrow> bool \<Rightarrow> (run_state, bool) prog" where
  "cancel_if_skippable P x sc w reason notify = bindP (readP js_phase) (\<lambda>phase.
     if phase = Executing then returnP False
     else bindP (execution_owns P x) (\<lambda>owned.
       if \<not> owned then returnP True
       else bindP (lookup_db P (\<lambda>d. should_skip_work d (w_id w))) (\<lambda>skip.
         if \<not> skip then returnP False
         else bindP (readP js_token) (\<lambda>tok.
           thenP (mark_cancelled_and_invoke_hook P sc w reason tok notify) (returnP True)))))"

definition recheck_skippable_and_cancel ::
  "job_params \<Rightarrow> execution \<Rightarrow> item_scope \<Rightarrow> work_item \<Rightarrow> string \<Rightarrow> bool \<Rightarrow> (run_state, bool) prog" where
  "recheck_skippable_and_cancel P x sc w reason notify =
     thenP (update_run (\<lambda>s. s\<lparr>js_phase := Completing\<rparr>)) (cancel_if_skippable P x sc w reason notify)"

subsection \<open>Admission\<close>

definition abort_error :: "run_state \<Rightarrow> js_error" where
  "abort_error s = (case js_abort_reason s of Some e \<Rightarrow> e | None \<Rightarrow> AppError ''agent'' ''session_aborted'' [])"

definition assert_not_aborted :: "(run_state, unit) prog" where
  "assert_not_aborted = (\<lambda>s. if signal_aborted s then (Inl (abort_error s), s) else (Inr (), s))"

definition ensure_review_access :: "(run_state, unit) prog" where
  "ensure_review_access = bindP (readP js_policy) (\<lambda>p. case p of
     None \<Rightarrow> returnP ()
   | Some pol \<Rightarrow> throw_option (assert_essential_installation_capabilities
       ((cp_observation pol)\<lparr>ic_availability := (\<lambda>op. if op \<in> set essential_installation_operations
          then policy_access pol op else ic_availability (cp_observation pol) op)\<rparr>)))"

definition attempts_exhausted :: "job_params \<Rightarrow> item_id \<Rightarrow> int \<Rightarrow> js_error" where
  "attempts_exhausted P i n = AppError ''agent_work'' ''attempts_exhausted''
     [(''workItemId'', JStr i), (''attemptCount'', JNum n), (''maxAttempts'', JNum (max_attempts P))]"

definition begin_attempt :: "job_params \<Rightarrow> execution \<Rightarrow> item_id \<Rightarrow> (run_state, work_attempt_result) prog" where
  "begin_attempt P x i =
     (let start = await_db P (begin_work_attempt i (x_epoch x) (max_attempts P))
      in catchP start (\<lambda>e. if is_postgres_deadlock_error e then start else throwP e))"

definition admit_work :: "job_params \<Rightarrow> execution \<Rightarrow> item_scope \<Rightarrow> work_item \<Rightarrow> (run_state, work_claim) prog" where
  "admit_work P x sc w =
     thenP assert_not_aborted (thenP ensure_review_access (bindP (begin_attempt P x (w_id w)) (\<lambda>r. case r of
        AttemptExhausted n \<Rightarrow> throwP (attempts_exhausted P (w_id w) n)
      | AttemptUnavailable \<Rightarrow> bindP (recheck_skippable_and_cancel P x sc w ''start_rejected'' True) (\<lambda>cancelled.
          throwP (if cancelled then AppError ''agent'' ''session_aborted'' [(''workItemId'', JStr (w_id w))]
                  else AppError ''agent_work'' ''admission_unavailable'' [(''workItemId'', JStr (w_id w))]))
      | AttemptStarted n \<Rightarrow>
          let claim = (x_claim x)\<lparr>c_attempt_count := n\<rparr>
          in thenP (update_run (\<lambda>s. s\<lparr>js_claim := Some claim, js_admitted := True\<rparr>))
               (thenP assert_not_aborted (returnP claim)))))"

text \<open>The admission of an execution context is one promise, settled once.\<close>

definition admit_once :: "job_params \<Rightarrow> execution \<Rightarrow> item_scope \<Rightarrow> work_item \<Rightarrow> (run_state, work_claim) prog" where
  "admit_once P x sc w = (\<lambda>s. case js_admission s of
      Some r \<Rightarrow> (r, s)
    | None \<Rightarrow> (case admit_work P x sc w s of (r, s') \<Rightarrow> (r, s'\<lparr>js_admission := Some r\<rparr>)))"

definition should_abort_publish :: "job_params \<Rightarrow> execution \<Rightarrow> work_item \<Rightarrow> (run_state, bool) prog" where
  "should_abort_publish P x w = bindP (readP signal_aborted) (\<lambda>aborted.
     if aborted then returnP True
     else bindP (lookup_db P (\<lambda>d. should_skip_work d (w_id w))) (\<lambda>skip.
       if skip then returnP True
       else case x_epoch x of None \<Rightarrow> returnP False
         | Some e \<Rightarrow> lookup_db P (\<lambda>d. \<not> is_pr_actor_lease_held d (w_id w) e)))"

definition escalation_now :: "job_params \<Rightarrow> run_state \<Rightarrow> escalation_plan option" where
  "escalation_now P s = (if js_admitted s then (case js_claim s of
      Some c \<Rightarrow> escalation_for_attempt (jp_fallback P) (c_attempt_count c) | None \<Rightarrow> None) else None)"

primrec run_calls :: "job_params \<Rightarrow> execution \<Rightarrow> item_scope \<Rightarrow> work_item \<Rightarrow> executor \<Rightarrow> (run_state, exec_result) prog" where
  "run_calls P x sc w (Return r) = returnP r"
| "run_calls P x sc w (Throw e) = throwP e"
| "run_calls P x sc w (Work m k) = bindP (tryP (await P m)) (\<lambda>r. run_calls P x sc w (k r))"
| "run_calls P x sc w (Admit k) = bindP (tryP (admit_once P x sc w)) (\<lambda>r. run_calls P x sc w (k r))"
| "run_calls P x sc w (EnsureAccess k) =
     bindP (tryP (if jp_type P = Review then ensure_review_access else returnP ())) (\<lambda>r. run_calls P x sc w (k r))"
| "run_calls P x sc w (ShouldAbort k) = bindP (tryP (should_abort_publish P x w)) (\<lambda>r. run_calls P x sc w (k r))"
| "run_calls P x sc w (IsAborted k) = bindP (readP signal_aborted) (\<lambda>r. run_calls P x sc w (k r))"
| "run_calls P x sc w (Escalation k) = bindP (readP (escalation_now P)) (\<lambda>r. run_calls P x sc w (k r))"
| "run_calls P x sc w (Deny op k) = bindP (tryP (deny_operation P sc op)) (\<lambda>r. run_calls P x sc w (k r))"

definition is_bot_commenter :: "job_params \<Rightarrow> work_item \<Rightarrow> (run_state, bool) prog" where
  "is_bot_commenter P w = (case jp_commenter P w of None \<Rightarrow> returnP False
     | Some n \<Rightarrow> bindP (await P (jp_bot P)) (\<lambda>bot. returnP (bot = n)))"

definition resolve_work_item_head :: "('s, string) prog \<Rightarrow> work_item \<Rightarrow> ('s, string) prog" where
  "resolve_work_item_head get_head w = (if w_head_sha w = deferred_head_sha then get_head else returnP (w_head_sha w))"

definition prepare_durable_execution ::
  "job_params \<Rightarrow> execution \<Rightarrow> item_scope \<Rightarrow> work_item \<Rightarrow> string \<Rightarrow> (run_state, string option) prog" where
  "prepare_durable_execution P x sc w tok = bindP (is_bot_commenter P w) (\<lambda>bot.
     if bot then thenP (mark_cancelled_and_invoke_hook P sc w ''bot_commenter'' (Some tok) True) (returnP None)
     else thenP (await P (jp_create P tok)) (bindP (readP (\<lambda>s. \<lparr>sf_token = tok, sf_has_policy = (js_policy s \<noteq> None)\<rparr>)) (\<lambda>sf.
       bindP (await P (jp_resolve_head P sf w)) (\<lambda>head.
         bindP (await_db P (stepP (update_running_work_head_sha (w_id w) head (x_epoch x)))) (\<lambda>bound.
           if bound then thenP (update_run (\<lambda>s. s\<lparr>js_head := Some head, js_surface := Some sf\<rparr>))
             (returnP (Some head))
           else thenP (recheck_skippable_and_cancel P x sc w ''head_update_rejected'' True) (returnP None))))))"

subsection \<open>Settling\<close>

definition finish_rescheduled_parent_work_item :: "job_params \<Rightarrow> execution \<Rightarrow> work_item \<Rightarrow> (run_state, unit) prog" where
  "finish_rescheduled_parent_work_item P x w =
     bindP (await_db P (stepP (mark_work_completed (w_id w) (x_epoch x)))) (\<lambda>ok.
       if ok then returnP ()
       else bindP (bindP (lookup_db P (\<lambda>d. (get_work_item_core (w_id w) d, item_at d (w_id w)))) (\<lambda>(core, row).
           bindP (from_sum core) (\<lambda>refreshed. case (refreshed, row) of
               (Some v, Some r) \<Rightarrow> thenP (throw_option (jp_attach P v (w_payload r))) (returnP (w_status v = Completed))
             | _ \<Rightarrow> returnP False))) (\<lambda>done.
         if done then returnP ()
         else bindP (await_db P (mark_force_completed x (w_id w))) (\<lambda>forced.
           if forced then returnP ()
           else throwP (AppError ''agent_work'' ''rescheduled_parent_complete_failed'' [(''workItemId'', JStr (w_id w))]))))"

definition publish_outcome_reaction :: "job_params \<Rightarrow> item_scope \<Rightarrow> work_item \<Rightarrow> reaction \<Rightarrow> (run_state, unit) prog" where
  "publish_outcome_reaction P sc w content = quietly
     (bindP (bindP (readP js_surface) (\<lambda>sf. case sf of Some v \<Rightarrow> returnP v | None \<Rightarrow> pr_surface_for_hooks P sc None)) (\<lambda>sf.
       bindP (readP (\<lambda>s. case js_policy s of
           Some p \<Rightarrow> if sf_has_policy sf then policy_access p ReactionsWrite else AccessAvailable
         | None \<Rightarrow> AccessAvailable)) (\<lambda>access.
         if access \<noteq> AccessAvailable then returnP ()
         else thenP (note_event (ReactionSent content)) (await P (jp_react P w content)))))"

definition complete_durable_execution ::
  "job_params \<Rightarrow> execution \<Rightarrow> item_scope \<Rightarrow> work_item \<Rightarrow> exec_result \<Rightarrow> (run_state, unit) prog" where
  "complete_durable_execution P x sc w r = (case r of
      ExecRescheduled after_complete \<Rightarrow>
        bindP (from_sum (require_lease_epoch x)) (\<lambda>_. thenP (await P after_complete) (finish_rescheduled_parent_work_item P x w))
    | ExecCompleted degradation \<Rightarrow>
        bindP (recheck_skippable_and_cancel P x sc w ''skipped_after_execute'' False) (\<lambda>skipped.
          if skipped then returnP ()
          else thenP (if degradation = [] then returnP ()
              else thenP (await_db P (stepP (mark_work_publish_degraded (w_id w) (x_epoch x)))) (returnP ()))
            (bindP (await_db P (stepP (mark_work_completed (w_id w) (x_epoch x)))) (\<lambda>ok.
              if ok then publish_outcome_reaction P sc w PlusOne
              else thenP (recheck_skippable_and_cancel P x sc w ''completion_race'' False) (returnP ())))))"

definition mark_retrying_or_cancel ::
  "job_params \<Rightarrow> execution \<Rightarrow> item_scope \<Rightarrow> work_item \<Rightarrow> js_error \<Rightarrow> (run_state, unit) prog" where
  "mark_retrying_or_cancel P x sc w e =
     bindP (await_db P (stepP (mark_work_retrying (w_id w) (jp_message P e) (x_epoch x)))) (\<lambda>ok.
       if ok then throwP e
       else thenP (recheck_skippable_and_cancel P x sc w ''retry_claim_rejected'' True) (returnP ()))"

text \<open>The hooks see the item under the head that the execution was bound to.\<close>

definition item_for_hooks :: "run_state \<Rightarrow> work_item \<Rightarrow> work_item" where
  "item_for_hooks s w = (case js_head s of None \<Rightarrow> w | Some h \<Rightarrow> w\<lparr>w_head_sha := h\<rparr>)"

definition invoke_terminal_failure_hook ::
  "job_params \<Rightarrow> execution \<Rightarrow> item_scope \<Rightarrow> work_item \<Rightarrow> js_error \<Rightarrow> (run_state, unit) prog" where
  "invoke_terminal_failure_hook P x sc w e = (case jp_on_terminal P of
     None \<Rightarrow> returnP ()
   | Some hook \<Rightarrow>
       if jp_queue P \<noteq> None \<and> x_epoch x = None then returnP ()
       else bindP (readP js_surface) (\<lambda>own.
         bindP (case own of Some v \<Rightarrow> returnP (Some v)
             | None \<Rightarrow> catchP (bindP (pr_surface_for_hooks P sc None) (\<lambda>v. returnP (Some v))) (\<lambda>_. returnP None)) (\<lambda>sf.
           quietly (thenP (note_tables (TerminalHook e))
             (bindP (readP (\<lambda>s. item_for_hooks s w)) (\<lambda>v. await P (hook v sf e (x_epoch x))))))))"

definition preflight_error :: "job_params \<Rightarrow> item_id \<Rightarrow> int \<Rightarrow> js_error" where
  "preflight_error P i n = AppError ''github'' (if max_attempts P \<le> n then ''preflight_exhausted'' else ''preflight_unavailable'')
     [(''workItemId'', JStr i), (''preflightFailureCount'', JNum n)]"

definition is_preflight_failure :: "js_error \<Rightarrow> bool" where
  "is_preflight_failure e \<longleftrightarrow> is_app_error e \<and>
     error_code e \<in> {''github.preflight_unavailable'', ''github.preflight_exhausted''}"

text \<open>Whether a failed execution may be retried: \<open>n\<close> is the count of failed preflights, if this was one.\<close>

definition budget_remains :: "job_params \<Rightarrow> run_state \<Rightarrow> work_item \<Rightarrow> int option \<Rightarrow> bool" where
  "budget_remains P s w n =
     (let attempts = (case js_claim s of Some c \<Rightarrow> c_attempt_count c | None \<Rightarrow> w_attempt_count w)
      in (case n of Some k \<Rightarrow> k < max_attempts P | None \<Rightarrow> \<not> js_admitted s \<or> attempts < max_attempts P) \<and>
         jp_job_retry_count P < jp_job_retry_limit P)"

definition may_retry :: "job_params \<Rightarrow> run_state \<Rightarrow> work_item \<Rightarrow> js_error \<Rightarrow> int option \<Rightarrow> bool" where
  "may_retry P s w e n = (case retry_disposition_for (jp_halted P) e of
      Transient \<Rightarrow> budget_remains P s w n
    | Deterministic \<Rightarrow> (case js_claim s of Some c \<Rightarrow> c_attempt_count c | None \<Rightarrow> w_attempt_count w) = 1 \<and> budget_remains P s w n
    | TerminalFailure \<Rightarrow> False)"

definition settle_error ::
  "job_params \<Rightarrow> execution \<Rightarrow> item_scope \<Rightarrow> work_item \<Rightarrow> js_error \<Rightarrow> int option \<Rightarrow> (run_state, unit) prog" where
  "settle_error P x sc w e n = bindP (readP (\<lambda>s. may_retry P s w e n)) (\<lambda>again.
     if again then mark_retrying_or_cancel P x sc w e
     else bindP (await_db P (stepP (mark_work_failed (w_id w) (jp_message P e) (x_epoch x)))) (\<lambda>failed.
       if \<not> failed then thenP (recheck_skippable_and_cancel P x sc w ''failure_race'' True) (returnP ())
       else thenP (invoke_terminal_failure_hook P x sc w e) (publish_outcome_reaction P sc w MinusOne)))"

definition handle_durable_execution_error ::
  "job_params \<Rightarrow> execution \<Rightarrow> item_scope \<Rightarrow> work_item \<Rightarrow> js_error \<Rightarrow> (run_state, unit) prog" where
  "handle_durable_execution_error P x sc w e =
     (if is_app_error e \<and> error_code e = ''agent_work.pr_actor_lease_lost'' then returnP ()
      else if is_cancel_abort_error (jp_halted P) e then
        thenP (recheck_skippable_and_cancel P x sc w ''skipped_after_error'' True) (returnP ())
      else bindP (readP js_job_aborted) (\<lambda>aborted.
        if aborted then thenP (recheck_skippable_and_cancel P x sc w ''job_aborted'' True) (returnP ())
        else bindP (recheck_skippable_and_cancel P x sc w ''skipped_after_error'' True) (\<lambda>skipped.
          if skipped then returnP ()
          else case (if jp_type P = Review \<and> is_preflight_failure e then x_epoch x else None) of
              Some epoch \<Rightarrow> bindP (await P (change_github_preflight_failure_count (w_id w) epoch False)) (\<lambda>count.
                case count of None \<Rightarrow> returnP ()
                | Some n \<Rightarrow> settle_error P x sc w (preflight_error P (w_id w) n) (Some n))
            | None \<Rightarrow> settle_error P x sc w e None)))"

subsection \<open>The run\<close>

definition reconcile_item_intents :: "job_params \<Rightarrow> execution \<Rightarrow> item_id \<Rightarrow> (run_state, unit) prog" where
  "reconcile_item_intents P x i = bindP (readP next_inner) (\<lambda>moves.
     await_db P (\<lambda>d. case reconcile_pending_intents (jp_lookup P) i (x_epoch x)
         \<lparr>wdb = d, wsignal = NotAborted, wsched = map (\<lambda>f (d, sig). (f d, sig)) moves, remote = ()\<rparr> of
       (Inl e, w) \<Rightarrow> (Inl e, wdb w) | (Inr _, w) \<Rightarrow> (Inr (), wdb w)))"

definition preflight_deferred :: js_error where
  "preflight_deferred = AppError ''github'' ''preflight_unavailable'' []"

definition deferral_seconds :: "time \<Rightarrow> time \<Rightarrow> int" where
  "deferral_seconds open_until clock = max 1 ((open_until - clock + 999) div 1000)"

text \<open>An open circuit of the installation puts a review back into the queue until it closes. Times are in milliseconds.\<close>

definition defer_to_circuit ::
  "job_params \<Rightarrow> execution \<Rightarrow> item_scope \<Rightarrow> work_item \<Rightarrow> shared_circuit \<Rightarrow> (run_state, unit) prog" where
  "defer_to_circuit P x sc w circuit =
     bindP (await_db P (stepP (mark_work_retrying (w_id w) (jp_message P preflight_deferred) (x_epoch x)))) (\<lambda>ok.
       if ok then thenP (await_db P (arm_lease_watchdog_hop (jp_boss P)
           \<lparr>s_queue = (case jp_queue P of Some q \<Rightarrow> q | None \<Rightarrow> work_queue Review), s_item = w_id w, s_key = w_id w,
            s_defer = deferral_seconds (sc_open_until circuit) (jp_clock P), s_priority = None,
            s_group = int_text (is_installation sc)\<rparr> True)) (returnP ())
       else returnP ())"

definition observed_essential_access :: "run_state \<Rightarrow> bool" where
  "observed_essential_access s = (case js_policy s of None \<Rightarrow> False
     | Some p \<Rightarrow> list_all (\<lambda>op. ic_availability (cp_observation p) op \<noteq> AccessUnknown) essential_installation_operations)"

text \<open>The token for the execution: a review asks for a confirmed installation first.\<close>

definition prepare_review_access :: "job_params \<Rightarrow> execution \<Rightarrow> item_scope \<Rightarrow> work_item \<Rightarrow> (run_state, string) prog" where
  "prepare_review_access P x sc w =
     thenP (assign_installation_policy P sc) (bindP (readP (\<lambda>s. (js_token s, observed_essential_access s))) (\<lambda>(tok, known).
       case tok of
         None \<Rightarrow> thenP ensure_review_access (throwP preflight_deferred)
       | Some t \<Rightarrow> thenP (case x_epoch x of
             Some e \<Rightarrow> if known then thenP (await P (change_github_preflight_failure_count (w_id w) e True)) (returnP ())
               else returnP ()
           | None \<Rightarrow> returnP ()) (returnP t)))"

definition prepare_other_access :: "job_params \<Rightarrow> item_scope \<Rightarrow> (run_state, string) prog" where
  "prepare_other_access P sc =
     thenP (assign_installation_policy P sc) (bindP (readP js_token) (\<lambda>tok. case tok of
         Some t \<Rightarrow> returnP t
       | None \<Rightarrow> bindP (await P (jp_token P (is_installation sc))) (\<lambda>t.
           thenP (update_run (\<lambda>s. s\<lparr>js_token := Some t\<rparr>)) (returnP t))))"

definition run_executor :: "job_params \<Rightarrow> execution \<Rightarrow> item_scope \<Rightarrow> work_item \<Rightarrow> string \<Rightarrow> (run_state, exec_result) prog" where
  "run_executor P x sc w head = thenP (note_tables ExecutorStarted) (run_calls P x sc w (jp_execute P w head (x_epoch x)))"

definition execute_prepared :: "job_params \<Rightarrow> execution \<Rightarrow> item_scope \<Rightarrow> work_item \<Rightarrow> string \<Rightarrow> (run_state, unit) prog" where
  "execute_prepared P x sc w head =
     thenP (reconcile_item_intents P x (w_id w)) (bindP (execution_owns P x) (\<lambda>owned.
       if \<not> owned then returnP ()
       else bindP (readP js_job_aborted) (\<lambda>aborted.
         if aborted then thenP (recheck_skippable_and_cancel P x sc w ''job_aborted'' True) (returnP ())
         else thenP (update_run (\<lambda>s. s\<lparr>js_exec := map_option observe_cancellation (js_exec s)\<rparr>))
           (bindP (run_executor P x sc w head) (complete_durable_execution P x sc w)))))"

definition durable_body :: "job_params \<Rightarrow> execution \<Rightarrow> item_scope \<Rightarrow> work_item \<Rightarrow> (run_state, unit) prog" where
  "durable_body P x sc w = bindP (readP js_job_aborted) (\<lambda>aborted.
     if aborted then bindP (assign_installation_policy_for_cancel P sc) (\<lambda>ready.
       bindP (readP js_token) (\<lambda>tok. mark_cancelled_and_invoke_hook P sc w ''job_aborted'' tok ready))
     else bindP (execution_owns P x) (\<lambda>owned.
       if \<not> owned then returnP ()
       else bindP (if jp_type P = Review
           then await P (\<lambda>c. (Inr (), c)) else returnP ()) (\<lambda>_.
         bindP (readP (\<lambda>s. if jp_type P = Review then get_shared_rate_limit_circuit (js_circuits s) (is_installation sc) else None))
           (\<lambda>circuit. case circuit of
               Some r \<Rightarrow> if jp_clock P < sc_open_until r then defer_to_circuit P x sc w r
                 else bindP (prepare_review_access P x sc w) (\<lambda>t. bindP (prepare_durable_execution P x sc w t) (\<lambda>head.
                   case head of None \<Rightarrow> returnP () | Some h \<Rightarrow> execute_prepared P x sc w h))
             | None \<Rightarrow> bindP (if jp_type P = Review then prepare_review_access P x sc w else prepare_other_access P sc)
                 (\<lambda>t. bindP (prepare_durable_execution P x sc w t) (\<lambda>head.
                   case head of None \<Rightarrow> returnP () | Some h \<Rightarrow> execute_prepared P x sc w h))))))"

definition run_claimed :: "job_params \<Rightarrow> execution \<Rightarrow> item_scope \<Rightarrow> work_item \<Rightarrow> (run_state, unit) prog" where
  "run_claimed P x sc w =
     thenP (update_run (\<lambda>s. s\<lparr>js_claim := Some (x_claim x), js_phase := Executing\<rparr>))
       (bindP (lookup_db P (\<lambda>d. map_option w_payload (item_at d (w_id w)))) (\<lambda>payload. case payload of
           None \<Rightarrow> returnP ()
         | Some raw \<Rightarrow> (case jp_attach P w raw of
               Some e \<Rightarrow> thenP (catchP (thenP (await_db P (stepP (mark_work_failed (w_id w) (jp_message P e) (x_epoch x)))) (returnP ()))
                   (\<lambda>_. returnP ())) (throwP e)
             | None \<Rightarrow> catchP (durable_body P x sc w) (handle_durable_execution_error P x sc w))))"

text \<open>The release stops the timers first; its query may fail, which is only logged.\<close>

definition release_job :: "job_params \<Rightarrow> (run_state, unit) prog" where
  "release_job P = (\<lambda>s. case js_exec s of
      None \<Rightarrow> (Inr (), s)
    | Some x \<Rightarrow>
        let s0 = s\<lparr>js_exec := Some (x\<lparr>x_observing := False, x_renewing := False\<rparr>)\<rparr>;
            s1 = (if x_release_key x = None \<or> x_epoch x = None then s0 else elapse (jp_ttl P) (jp_job_reason P) s0);
            (x', d') = release_execution (next_fault s0 \<noteq> None) (the (js_exec s1), cdb (js_cd s1))
        in (Inr (), s1\<lparr>js_exec := Some x', js_cd := (js_cd s1)\<lparr>cdb := d'\<rparr>\<rparr>))"

definition open_job :: "job_params \<Rightarrow> item_scope \<Rightarrow> work_item \<Rightarrow> (run_state, execution option) prog" where
  "open_job P sc w = bindP (await_db P (open_leased_execution (jp_transact P) (jp_boss P) (jp_type P) w (jp_queue P)
       (jp_priority P) (int_text (is_installation sc)) (jp_holder P) (jp_ttl P))) (\<lambda>opened.
     thenP (update_run (\<lambda>s. s\<lparr>js_exec := opened\<rparr>)) (returnP opened))"

definition cancel_before_claim :: "job_params \<Rightarrow> item_scope \<Rightarrow> work_item \<Rightarrow> string \<Rightarrow> (run_state, unit) prog" where
  "cancel_before_claim P sc w reason = bindP (assign_installation_policy_for_cancel P sc) (\<lambda>ready.
     mark_cancelled_and_invoke_hook P sc w reason None ready)"

definition run_durable_work_item :: "job_params \<Rightarrow> (run_state, unit) prog" where
  "run_durable_work_item P =
     bindP (await P (readP (\<lambda>c. (get_work_item_core (jp_item P) (cdb c), cd_scope c (jp_item P))))) (\<lambda>(found, sc).
       bindP (from_sum found) (\<lambda>core. case core of
           None \<Rightarrow> returnP ()
         | Some w \<Rightarrow>
             if w_type w \<noteq> jp_type P \<or> \<not> jp_accept P w then returnP ()
             else bindP (lookup_db P (\<lambda>d. should_skip_work d (w_id w))) (\<lambda>skip.
               if skip then cancel_before_claim P sc w ''skipped_before_claim''
               else bindP (readP js_job_aborted) (\<lambda>aborted.
                 if aborted then cancel_before_claim P sc w ''job_aborted_before_claim''
                 else bindP (open_job P sc w) (\<lambda>opened. case opened of
                     None \<Rightarrow> returnP ()
                   | Some x \<Rightarrow> finallyP (run_claimed P x sc w) (release_job P))))))"

definition fresh_run :: "ci_db \<Rightarrow> shared_circuit list \<Rightarrow> job_move list \<Rightarrow> run_state" where
  "fresh_run c circuits moves = \<lparr>js_cd = c, js_circuits = circuits, js_moves = moves, js_job_aborted = False, js_exec = None,
     js_abort_reason = None, js_phase = Claiming, js_policy = None, js_token = None, js_head = None, js_surface = None,
     js_claim = None, js_admitted = False, js_admission = None, js_log = []\<rparr>"

subsection \<open>What a run leaves alone\<close>

text \<open>
  A predicate of the execution and the log, and one of the schedule, survive every round trip: only the program
  itself replaces the execution and writes to the log.
\<close>

definition who :: "run_state \<Rightarrow> (item_id \<times> int option \<times> lease_key option) option" where
  "who s = map_option (\<lambda>x. (x_item x, x_epoch x, x_release_key x)) (js_exec s)"

lemma tick_identity:
  "lease_renewal_tick ttl fault (x, d) = (x', d') \<Longrightarrow> x_item x' = x_item x \<and> x_epoch x' = x_epoch x \<and> x_release_key x' = x_release_key x"
  "cancel_observe_tick fault env (x, d) = (x', d') \<Longrightarrow> x_item x' = x_item x \<and> x_epoch x' = x_epoch x \<and> x_release_key x' = x_release_key x"
  by (auto simp: lease_renewal_tick_def cancel_observe_tick_def stop_with_def Let_def split: option.splits prod.splits bool.splits if_splits)

lemma run_tick_frame [simp]:
  "who (run_tick ttl t s) = who s" "js_log (run_tick ttl t s) = js_log s" "js_moves (run_tick ttl t s) = js_moves s"
  by (auto simp: run_tick_def who_def split: option.split timer_tick.split prod.split dest: tick_identity)

lemma run_ticks_frame [simp]:
  "who (fold (run_tick ttl) ts s) = who s" "js_log (fold (run_tick ttl) ts s) = js_log s"
  "js_moves (fold (run_tick ttl) ts s) = js_moves s"
  by (induction ts arbitrary: s) auto

lemma who_fields [simp]:
  "who (s\<lparr>js_cd := c\<rparr>) = who s" "who (s\<lparr>js_moves := ms\<rparr>) = who s" "who (s\<lparr>js_job_aborted := b\<rparr>) = who s"
  "who (s\<lparr>js_abort_reason := r\<rparr>) = who s" "who (s\<lparr>js_log := l\<rparr>) = who s" "who (s\<lparr>js_phase := p\<rparr>) = who s"
  "who (s\<lparr>js_policy := po\<rparr>) = who s" "who (s\<lparr>js_token := tk\<rparr>) = who s" "who (s\<lparr>js_head := h\<rparr>) = who s"
  "who (s\<lparr>js_surface := sf\<rparr>) = who s" "who (s\<lparr>js_claim := cl\<rparr>) = who s" "who (s\<lparr>js_admitted := ad\<rparr>) = who s"
  "who (s\<lparr>js_admission := a\<rparr>) = who s"
  by (simp_all add: who_def)

lemma who_observing [simp]: "who (s\<lparr>js_exec := map_option observe_cancellation (js_exec s)\<rparr>) = who s"
  by (cases "js_exec s") (simp_all add: who_def observe_cancellation_def)

lemma elapse_cases:
  obtains "js_moves s = []" "elapse ttl r s = s"
    | m ms s1 where "js_moves s = m # ms" "who s1 = who s" "js_log s1 = js_log s" "js_moves s1 = ms"
      "elapse ttl r s = s1"
proof (cases "js_moves s")
  case Nil
  then show thesis using that(1) by (simp add: elapse_def)
next
  case (Cons m ms)
  show thesis by (rule that(2) [OF Cons]) (simp_all add: elapse_def Cons Let_def)
qed

lemma elapse_frame [simp]:
  "who (elapse ttl r s) = who s" "js_log (elapse ttl r s) = js_log s" "set (js_moves (elapse ttl r s)) \<subseteq> set (js_moves s)"
proof -
  show "who (elapse ttl r s) = who s" by (rule elapse_cases [of s ttl r]) simp_all
  show "js_log (elapse ttl r s) = js_log s" by (rule elapse_cases [of s ttl r]) simp_all
  show "set (js_moves (elapse ttl r s)) \<subseteq> set (js_moves s)" by (rule elapse_cases [of s ttl r]) auto
qed

text \<open>Predicates that look only at the identity of the execution, the log and the moves to come.\<close>

definition watching :: "(item_id \<times> int option \<times> lease_key option) option \<Rightarrow> (job_event list \<Rightarrow> bool) \<Rightarrow> job_move set \<Rightarrow> run_state \<Rightarrow> bool" where
  "watching me L M s \<longleftrightarrow> who s = me \<and> L (js_log s) \<and> set (js_moves s) \<subseteq> M"

lemma keeps_watching_await: "keeps (watching me L M) (await P m)"
proof (unfold keeps_def, intro allI impI)
  fix s assume "watching me L M s"
  moreover have "set (js_moves (elapse (jp_ttl P) (jp_job_reason P) s)) \<subseteq> set (js_moves s)" by (rule elapse_frame(3))
  ultimately have "watching me L M (elapse (jp_ttl P) (jp_job_reason P) s)" unfolding watching_def elapse_frame(1,2) by blast
  then show "watching me L M (snd (await P m s))" by (cases "next_fault s") (simp_all add: await_def watching_def Let_def)
qed

lemma keeps_watching_put:
  "(\<And>s. who (f s) = who s \<and> js_log (f s) = js_log s \<and> js_moves (f s) = js_moves s) \<Longrightarrow> keeps (watching me L M) (update_run f)"
  by (rule keeps_step) (simp add: watching_def)

lemma keeps_watching_event: "(\<And>l. L l \<Longrightarrow> L (l @ [ev])) \<Longrightarrow> keeps (watching me L M) (note_event ev)"
  unfolding note_event_def by (rule keeps_step) (simp add: watching_def)

lemma keeps_watching_tables: "(\<And>l c. L l \<Longrightarrow> L (l @ [ev c])) \<Longrightarrow> keeps (watching me L M) (note_tables ev)"
  unfolding note_tables_def by (rule keeps_step) (simp add: watching_def)

lemma keeps_quietly: "keeps Q m \<Longrightarrow> keeps Q (quietly m)"
  unfolding quietly_def by (rule keeps_catch) auto

lemma keeps_from_sum: "keeps Q (from_sum r)"
  by (auto simp: from_sum_def split: sum.split)

lemma keeps_throw_option: "keeps Q (throw_option r)"
  by (auto simp: throw_option_def split: option.split)

lemma keeps_assert_not_aborted: "keeps Q assert_not_aborted"
  by (simp add: keeps_def assert_not_aborted_def)

lemma keeps_ensure_access: "keeps Q ensure_review_access"
  unfolding ensure_review_access_def
  by (rule keeps_bind [OF keeps_read]) (auto split: option.split intro: keeps_throw_option)

named_theorems watch \<open>programs that keep what is watched\<close>

lemmas [watch] = keeps_watching_await keeps_quietly keeps_from_sum keeps_throw_option keeps_assert_not_aborted keeps_ensure_access
  keeps_bind keeps_then keeps_catch keeps_try keeps_return keeps_throw keeps_read

text \<open>
  The contract of an observer of the log: what it asks of the log survives the events that a claimed run may add.
  Under it every program of the run before the executor, and after it, keeps what is watched.
\<close>

locale log_monitor =
  fixes L :: "job_event list \<Rightarrow> bool"
  assumes sees_cancel: "L l \<Longrightarrow> L (l @ [CancelledHook r])"
    and sees_reaction: "L l \<Longrightarrow> L (l @ [ReactionSent x])"
    and sees_terminal: "L l \<Longrightarrow> L (l @ [TerminalHook e c])"
begin

lemma watch_preflight: "keeps (watching me L M) (preflight_installation P sc)"
  unfolding preflight_installation_def by (auto intro!: watch)

lemma watch_policy: "keeps (watching me L M) (assign_installation_policy P sc)"
  unfolding assign_installation_policy_def
  by (auto intro!: watch watch_preflight keeps_watching_put split: option.split prod.split)

lemma watch_policy_for_cancel: "keeps (watching me L M) (assign_installation_policy_for_cancel P sc)"
  unfolding assign_installation_policy_for_cancel_def by (intro watch watch_policy)

lemma watch_deny: "keeps (watching me L M) (deny_operation P sc op)"
  unfolding deny_operation_def policy_deny_def
  by (auto intro!: watch keeps_watching_put split: option.split simp: Let_def)

lemma watch_surface: "keeps (watching me L M) (pr_surface_for_hooks P sc inst)"
  unfolding pr_surface_for_hooks_def by (auto intro!: watch split: option.split)

lemma watch_cancelled_hook: "keeps (watching me L M) (invoke_cancelled_hook P sc w reason inst)"
  unfolding invoke_cancelled_hook_def
  by (auto intro!: watch watch_surface keeps_watching_event sees_cancel split: option.split)

lemma watch_mark_cancelled: "keeps (watching me L M) (mark_cancelled_and_invoke_hook P sc w reason inst notify)"
  unfolding mark_cancelled_and_invoke_hook_def
  by (auto intro!: watch watch_cancelled_hook split: option.split)

lemma watch_owns: "keeps (watching me L M) (execution_owns P x)"
  unfolding execution_owns_def by (auto intro!: watch split: option.split)

lemma watch_recheck: "keeps (watching me L M) (recheck_skippable_and_cancel P x sc w reason notify)"
  unfolding recheck_skippable_and_cancel_def cancel_if_skippable_def
  by (auto intro!: watch watch_owns watch_mark_cancelled keeps_watching_put)

lemma watch_admit: "keeps (watching me L M) (admit_work P x sc w)"
  unfolding admit_work_def begin_attempt_def Let_def
  by (auto intro!: watch watch_recheck keeps_watching_put split: work_attempt_result.split)

lemma watch_admit_once: "keeps (watching me L M) (admit_once P x sc w)"
proof (unfold keeps_def, intro allI impI)
  fix s assume "watching me L M s"
  moreover from this have "watching me L M (snd (admit_work P x sc w s))" by (rule keepsD [OF watch_admit])
  ultimately show "watching me L M (snd (admit_once P x sc w s))"
    by (auto simp: admit_once_def watching_def split: option.split prod.split)
qed

lemma watch_should_abort: "keeps (watching me L M) (should_abort_publish P x w)"
  unfolding should_abort_publish_def by (auto intro!: watch split: option.split)

lemma watch_calls: "keeps (watching me L M) (run_calls P x sc w t)"
  by (induction t) (auto intro!: watch watch_admit_once watch_should_abort watch_deny)

lemma watch_prepare: "keeps (watching me L M) (prepare_durable_execution P x sc w tok)"
  unfolding prepare_durable_execution_def is_bot_commenter_def
  by (auto intro!: watch watch_mark_cancelled watch_recheck keeps_watching_put split: option.split)

lemma watch_reaction: "keeps (watching me L M) (publish_outcome_reaction P sc w content)"
  unfolding publish_outcome_reaction_def
  by (auto intro!: watch watch_surface keeps_watching_event sees_reaction split: option.split)

lemma watch_complete: "keeps (watching me L M) (complete_durable_execution P x sc w r)"
  unfolding complete_durable_execution_def finish_rescheduled_parent_work_item_def
  by (auto intro!: watch watch_recheck watch_reaction split: exec_result.split option.split prod.split)

lemma watch_terminal_hook: "keeps (watching me L M) (invoke_terminal_failure_hook P x sc w e)"
  unfolding invoke_terminal_failure_hook_def
  by (auto intro!: watch watch_surface keeps_watching_tables sees_terminal split: option.split)

lemma watch_settle: "keeps (watching me L M) (settle_error P x sc w e n)"
  unfolding settle_error_def mark_retrying_or_cancel_def
  by (auto intro!: watch watch_recheck watch_terminal_hook watch_reaction)

lemma watch_handle: "keeps (watching me L M) (handle_durable_execution_error P x sc w e)"
  unfolding handle_durable_execution_error_def
  by (auto intro!: watch watch_recheck watch_settle split: option.split)

lemma watch_access: "keeps (watching me L M) (prepare_review_access P x sc w)" "keeps (watching me L M) (prepare_other_access P sc)"
  unfolding prepare_review_access_def prepare_other_access_def
  by (auto intro!: watch watch_policy keeps_watching_put split: option.split prod.split)

lemma watch_defer: "keeps (watching me L M) (defer_to_circuit P x sc w r)"
  unfolding defer_to_circuit_def by (auto intro!: watch)

lemma watch_reconcile: "keeps (watching me L M) (reconcile_item_intents P x i)"
  unfolding reconcile_item_intents_def by (auto intro!: watch)

lemma watch_run_claimed:
  assumes "\<And>h. keeps (watching me L M) (execute_prepared P x sc w h)"
  shows "keeps (watching me L M) (run_claimed P x sc w)"
proof -
  have "keeps (watching me L M) (durable_body P x sc w)"
    unfolding durable_body_def
    by (auto intro!: watch watch_policy_for_cancel watch_mark_cancelled watch_owns watch_defer watch_access watch_prepare assms
        split: option.split)
  then show ?thesis unfolding run_claimed_def
    by (auto intro!: watch watch_handle keeps_watching_put split: option.split)
qed

lemma watch_cancel_before: "keeps (watching me L M) (cancel_before_claim P sc w reason)"
  unfolding cancel_before_claim_def by (auto intro!: watch watch_policy_for_cancel watch_mark_cancelled)

end

subsection \<open>The executor and the lease\<close>

definition epoch_held :: "item_id \<Rightarrow> int option \<Rightarrow> db \<Rightarrow> bool" where
  "epoch_held i e d \<longleftrightarrow> (case e of None \<Rightarrow> True | Some n \<Rightarrow> is_pr_actor_lease_held d i n)"

definition started_owned :: "item_id \<Rightarrow> int option \<Rightarrow> job_event list \<Rightarrow> bool" where
  "started_owned i e l \<longleftrightarrow> (\<forall>c. ExecutorStarted c \<in> set l \<longrightarrow> epoch_held i e (cdb c))"

interpretation started: log_monitor "started_owned i e" for i e
  by unfold_locales (auto simp: started_owned_def)

text \<open>A log in which no executor has started.\<close>

interpretation unstarted: log_monitor "\<lambda>l. \<forall>c. ExecutorStarted c \<notin> set l"
  by unfold_locales auto

lemma owns_now: "execution_owns P x s = (Inr True, s') \<Longrightarrow> epoch_held (x_item x) (x_epoch x) (cdb (js_cd s'))"
  by (auto simp: execution_owns_def epoch_held_def await_def readP_def returnP_def Let_def split: option.splits)

lemma keeps_executor:
  assumes "watching me (started_owned i e) M s" and "epoch_held i e (cdb (js_cd s))"
  shows "watching me (started_owned i e) M (snd (run_executor P x sc w h s))"
proof -
  have "watching me (started_owned i e) M (s\<lparr>js_log := js_log s @ [ExecutorStarted (js_cd s)]\<rparr>)"
    using assms by (auto simp: watching_def started_owned_def)
  then show ?thesis unfolding run_executor_def note_tables_def
    by (simp add: thenP_def bindP_def stepP_def keepsD [OF started.watch_calls])
qed

lemma keeps_execute_prepared:
  assumes "x_item x = i" and "x_epoch x = e"
  shows "keeps (watching me (started_owned i e) M) (execute_prepared P x sc w h)"
  unfolding execute_prepared_def
proof (rule keeps_then [OF started.watch_reconcile], unfold keeps_def, intro allI impI)
  fix s assume W: "watching me (started_owned i e) M s"
  let ?W = "watching me (started_owned i e) M"
  obtain r s' where o: "execution_owns P x s = (r, s')" by fastforce
  have W': "?W s'" using keepsD [OF started.watch_owns W, of P x] o by simp
  let ?rest = "\<lambda>owned. if \<not> owned then returnP ()
       else bindP (readP js_job_aborted) (\<lambda>aborted.
         if aborted then thenP (recheck_skippable_and_cancel P x sc w ''job_aborted'' True) (returnP ())
         else thenP (update_run (\<lambda>s. s\<lparr>js_exec := map_option observe_cancellation (js_exec s)\<rparr>))
           (bindP (run_executor P x sc w h) (complete_durable_execution P x sc w)))"
  have "?W (snd (?rest b s'))" if "r = Inr b" for b
  proof (cases b)
    case False
    then show ?thesis using W' by (simp add: returnP_def)
  next
    case True
    let ?s = "s'\<lparr>js_exec := map_option observe_cancellation (js_exec s')\<rparr>"
    have held: "epoch_held i e (cdb (js_cd s'))" using owns_now [of P x s s'] o that True assms by simp
    have "?W ?s" using W' by (simp add: watching_def)
    then have run: "?W (snd (run_executor P x sc w h ?s))" using held by (intro keeps_executor) simp_all
    obtain q s2 where q: "run_executor P x sc w h ?s = (q, s2)" by fastforce
    have "?W (snd (complete_durable_execution P x sc w v s2))" for v
      using run q by (intro keepsD [OF started.watch_complete]) simp
    moreover have "?W (snd (thenP (recheck_skippable_and_cancel P x sc w ''job_aborted'' True) (returnP ()) s'))"
      by (rule keepsD [where P = ?W]) (auto intro!: watch started.watch_recheck W')
    ultimately show ?thesis using True run q
      by (auto simp: bindP_def readP_def thenP_def stepP_def split: sum.split)
  qed
  then show "?W (snd (bindP (execution_owns P x) ?rest s))"
    using W' o by (cases r) (auto simp: bindP_def)
qed

lemma opened_shape:
  assumes "open_leased_execution tr boss t w queue prio grp holder ttl d = (Inr (Some x), d')"
  shows "x_item x = w_id w \<and> (case queue of
      None \<Rightarrow> x_epoch x = None \<and> x_release_key x = None
    | Some q \<Rightarrow> x_epoch x \<noteq> None \<and> x_release_key x = Some (w_resource_key w, t))"
proof (cases queue)
  case None
  then show ?thesis using assms
    by (auto simp: open_leased_execution_def bindP_Inr_iff returnP_def opened_def split: option.splits)
next
  case (Some q)
  then obtain r s2 where "(case r of
        ClaimedUnder e c \<Rightarrow> returnP (Some (opened (w_id w) (Some (w_resource_key w, t)) (Some e) c))
      | HeldByOther _ _ \<Rightarrow> returnP None | NotClaimable \<Rightarrow> returnP None) s2 = (Inr (Some x), d')"
    using assms unfolding open_leased_execution_def Let_def
    by (cases "w_status w \<noteq> Queued \<and> w_status w \<noteq> Running")
      (simp add: returnP_def, simp only: option.case if_False bindP_Inr_iff, blast)
  then show ?thesis using Some by (cases r) (auto simp: returnP_def opened_def)
qed

lemma core_id: "get_work_item_core i d = Inr (Some w) \<Longrightarrow> w_id w = i"
  by (auto simp: get_work_item_core_def dest!: item_at_id split: option.splits sum.splits work_type.splits if_splits)

text \<open>Running the first part of a program.\<close>

lemma bindP_run: "m s = (Inr x, t) \<Longrightarrow> bindP m f s = f x t"
  by (simp add: bindP_def)

lemma bindP_fail: "m s = (Inl e, t) \<Longrightarrow> bindP m f s = (Inl e, t)"
  by (simp add: bindP_def)

lemma bindP_read: "bindP (readP g) f s = f (g s) s"
  by (simp add: bindP_def readP_def)

lemma bindP_throwP [simp]: "bindP (throwP e) f = throwP e"
  by (simp add: bindP_def throwP_def)

lemma end_apply: "returnP x s = (Inr x, s)" "throwP e s = (Inl e, s)"
  by (simp_all add: returnP_def throwP_def)

lemma from_sum_simps [simp]: "from_sum (Inr x) = returnP x" "from_sum (Inl e) = throwP e"
  by (simp_all add: from_sum_def)

text \<open>A run either never opens an execution, or it is the claimed run of the opened one and its release.\<close>

lemma run_cases:
  assumes "watching None (\<lambda>l. l = []) M s"
  obtains (Idle) "watching None (\<lambda>l. \<forall>c. ExecutorStarted c \<notin> set l) M (snd (run_durable_work_item P s))"
    | (Opened) w sc x s1 where "w_id w = jp_item P" "x_item x = w_id w"
      "case jp_queue P of None \<Rightarrow> x_epoch x = None \<and> x_release_key x = None
         | Some q \<Rightarrow> x_epoch x \<noteq> None \<and> x_release_key x = Some (w_resource_key w, jp_type P)"
      "watching (Some (w_id w, x_epoch x, x_release_key x)) (\<lambda>l. l = []) M s1"
      "run_durable_work_item P s = finallyP (run_claimed P x sc w) (release_job P) s1"
proof -
  let ?E = "watching None (\<lambda>l. l = []) M" and ?I = "watching None (\<lambda>l. \<forall>c. ExecutorStarted c \<notin> set l) M"
  have weak: "?E t \<Longrightarrow> ?I t" for t by (simp add: watching_def)
  have step: "?E t \<Longrightarrow> await P m t = (r, t') \<Longrightarrow> ?E t'" for t m t' and r :: "js_error + 'a"
    using keepsD [OF keeps_watching_await, of None "\<lambda>l. l = []" M t P m] by simp
  let ?A = "await P (readP (\<lambda>c. (get_work_item_core (jp_item P) (cdb c), cd_scope c (jp_item P))))"
  obtain r1 t1 where a1: "?A s = (r1, t1)"
    by fastforce
  have E1: "?E t1" using step [OF assms a1] .
  show thesis
  proof (cases r1)
    case (Inl e)
    then show thesis using E1 weak by (intro Idle) (simp add: run_durable_work_item_def bindP_def a1)
  next
    case (Inr p)
    obtain found sc where p: "p = (found, sc)" by fastforce
    have A: "bindP ?A f s = f (found, sc) t1" for f :: "_ \<Rightarrow> (run_state, unit) prog"
      by (rule bindP_run) (simp add: a1 Inr p)
    have found: "found = Inr (Some w) \<Longrightarrow> w_id w = jp_item P" for w
      using a1 Inr p by (auto simp: await_def readP_def Let_def intro: core_id split: option.splits)
    show thesis
    proof (cases "\<exists>w. found = Inr (Some w) \<and> w_type w = jp_type P \<and> jp_accept P w")
      case False
      then have "run_durable_work_item P s = (case found of Inl e \<Rightarrow> (Inl e, t1) | Inr _ \<Rightarrow> (Inr (), t1))"
        unfolding run_durable_work_item_def A by (cases found; cases "projr found") (auto simp: end_apply)
      then show thesis using E1 weak by (intro Idle) (simp split: sum.split)
    next
      case True
      then obtain w where w: "found = Inr (Some w)" "w_type w = jp_type P" "jp_accept P w" by blast
      obtain r2 t2 where a2: "lookup_db P (\<lambda>d. should_skip_work d (w_id w)) t1 = (r2, t2)" by fastforce
      have E2: "?E t2" using step [OF E1 a2] .
      have cancelled: "?I (snd (cancel_before_claim P sc w reason t2))" for reason
        by (rule keepsD [OF unstarted.watch_cancel_before weak [OF E2]])
      have B: "bindP (lookup_db P (\<lambda>d. should_skip_work d (w_id w))) f t1 = (case r2 of Inl e \<Rightarrow> (Inl e, t2) | Inr b \<Rightarrow> f b t2)"
        for f :: "_ \<Rightarrow> (run_state, unit) prog" by (simp add: bindP_def a2)
      have run: "run_durable_work_item P s = (case r2 of Inl e \<Rightarrow> (Inl e, t2) | Inr skip \<Rightarrow>
          if skip then cancel_before_claim P sc w ''skipped_before_claim'' t2
          else if js_job_aborted t2 then cancel_before_claim P sc w ''job_aborted_before_claim'' t2
          else bindP (open_job P sc w) (\<lambda>opened. case opened of None \<Rightarrow> returnP ()
            | Some x \<Rightarrow> finallyP (run_claimed P x sc w) (release_job P)) t2)"
        unfolding run_durable_work_item_def A using w by (simp add: B bindP_read split: sum.split)
      let ?O = "open_leased_execution (jp_transact P) (jp_boss P) (jp_type P) w (jp_queue P)
              (jp_priority P) (int_text (is_installation sc)) (jp_holder P) (jp_ttl P)"
      obtain r3 t3 where a3: "await_db P ?O t2 = (r3, t3)" by fastforce
      have E3: "?E t3" using step [OF E2 a3] .
      have o: "open_job P sc w t2 = (case r3 of Inl e \<Rightarrow> (Inl e, t3) | Inr v \<Rightarrow> (Inr v, t3\<lparr>js_exec := v\<rparr>))"
        by (simp add: open_job_def bindP_def a3 thenP_def stepP_def returnP_def split: sum.split)
      show thesis
      proof (cases "\<exists>x. r3 = Inr (Some x) \<and> r2 = Inr False \<and> \<not> js_job_aborted t2")
        case True
        then obtain x where x: "r3 = Inr (Some x)" "r2 = Inr False" "\<not> js_job_aborted t2" by blast
        have "\<exists>d d'. ?O d = (Inr (Some x), d')"
          using a3 x(1) by (auto simp: await_def on_cdb_def Let_def split: option.splits prod.splits)
        then have shape: "x_item x = w_id w \<and> (case jp_queue P of None \<Rightarrow> x_epoch x = None \<and> x_release_key x = None
            | Some q \<Rightarrow> x_epoch x \<noteq> None \<and> x_release_key x = Some (w_resource_key w, jp_type P))"
          using opened_shape by blast
        have "watching (Some (w_id w, x_epoch x, x_release_key x)) (\<lambda>l. l = []) M (t3\<lparr>js_exec := Some x\<rparr>)"
          using E3 shape by (simp add: watching_def who_def)
        moreover have "run_durable_work_item P s = finallyP (run_claimed P x sc w) (release_job P) (t3\<lparr>js_exec := Some x\<rparr>)"
          using o x by (simp add: run bindP_def)
        ultimately show thesis using Opened [of w x "t3\<lparr>js_exec := Some x\<rparr>" sc] found w(1) shape by simp
      next
        case False
        have "?I t3" "?I (t3\<lparr>js_exec := None\<rparr>)" using E3 by (simp_all add: watching_def who_def)
        then show thesis using False weak [OF E2] cancelled o
          by (intro Idle) (auto simp: run bindP_def end_apply split: sum.split option.split)
      qed
    qed
  qed
qed

lemma release_frame:
  assumes "js_exec s = Some x"
  obtains x' where "js_exec (snd (release_job P s)) = Some x'" "x_item x' = x_item x" "x_epoch x' = x_epoch x"
    "\<not> x_observing x'" "\<not> x_renewing x'" "x_release_key x' = None \<or> x_epoch x' = None" "js_log (snd (release_job P s)) = js_log s"
    "fst (release_job P s) = Inr ()"
proof -
  let ?y = "x\<lparr>x_observing := False, x_renewing := False\<rparr>"
  let ?s0 = "s\<lparr>js_exec := Some ?y\<rparr>"
  let ?s1 = "if x_release_key x = None \<or> x_epoch x = None then ?s0 else elapse (jp_ttl P) (jp_job_reason P) ?s0"
  have "who ?s1 = who ?s0" "js_log ?s1 = js_log s" by simp_all
  then obtain z where z: "js_exec ?s1 = Some z" "x_item z = x_item x" "x_epoch z = x_epoch x" "x_release_key z = x_release_key x"
    by (cases "js_exec ?s1") (auto simp: who_def)
  obtain x' d' where r: "release_execution (next_fault ?s0 \<noteq> None) (z, cdb (js_cd ?s1)) = (x', d')" by fastforce
  have x': "x_item x' = x_item x" "x_epoch x' = x_epoch x" "\<not> x_observing x'" "\<not> x_renewing x'"
      "x_release_key x' = None \<or> x_epoch x' = None"
    using r z by (auto simp: release_execution_def Let_def split: option.splits)
  have "release_job P s = (Inr (), ?s1\<lparr>js_exec := Some x', js_cd := (js_cd ?s1)\<lparr>cdb := d'\<rparr>\<rparr>)"
    unfolding release_job_def assms option.case Let_def using z(1) r by simp
  then show thesis using x' by (intro that [of x']) simp_all
qed

lemma release_ok: "fst (release_job P s) = Inr ()"
proof (cases "js_exec s")
  case None
  then show ?thesis by (simp add: release_job_def)
next
  case (Some x)
  then show ?thesis by (rule release_frame [of s x P]) simp
qed

lemma finally_run: "finallyP m (release_job P) s = (fst (m s), snd (release_job P (snd (m s))))"
  using release_ok [of P "snd (m s)"]
  by (cases "m s"; cases "release_job P (snd (m s))") (simp add: finallyP_def)

text \<open>C37. Whatever other sessions commit, whichever timers fire and whichever queries fail, the executor of a leased job starts only
  in a state in which the lease of its pull request is held by the work item under the epoch of this run.\<close>

theorem executor_starts_under_lease:
  assumes "ExecutorStarted c \<in> set (js_log (snd (run_durable_work_item P (fresh_run c0 circuits moves))))"
    and "jp_queue P = Some q"
  shows "\<exists>x e. js_exec (snd (run_durable_work_item P (fresh_run c0 circuits moves))) = Some x \<and> x_epoch x = Some e \<and>
    is_pr_actor_lease_held (cdb c) (jp_item P) e"
proof -
  let ?s = "fresh_run c0 circuits moves"
  have "watching None (\<lambda>l. l = []) (set moves) ?s" by (simp add: watching_def who_def fresh_run_def)
  then show ?thesis
  proof (cases rule: run_cases [where P = P])
    case Idle
    then show ?thesis using assms(1) by (simp add: watching_def)
  next
    case (Opened w sc x s1)
    let ?me = "Some (w_id w, x_epoch x, x_release_key x)" and ?L = "started_owned (w_id w) (x_epoch x)"
    let ?t = "snd (run_claimed P x sc w s1)"
    have "watching ?me ?L (set moves) s1" using Opened(4) by (simp add: watching_def started_owned_def)
    then have W: "watching ?me ?L (set moves) ?t"
      by (rule keepsD [OF started.watch_run_claimed [OF keeps_execute_prepared [OF Opened(2) refl]]])
    then obtain y where y: "js_exec ?t = Some y" "x_epoch y = x_epoch x"
      by (cases "js_exec ?t") (auto simp: watching_def who_def)
    obtain x' where x': "js_exec (snd (release_job P ?t)) = Some x'" "x_epoch x' = x_epoch y"
        "js_log (snd (release_job P ?t)) = js_log ?t"
      using release_frame [OF y(1), of P] by metis
    have run: "snd (run_durable_work_item P ?s) = snd (release_job P ?t)"
      using Opened(5) by (simp add: finally_run)
    have "epoch_held (w_id w) (x_epoch x) (cdb c)"
      using W assms(1) x'(3) run by (simp add: watching_def started_owned_def)
    moreover obtain e where "x_epoch x = Some e" using Opened(3) assms(2) by auto
    ultimately show ?thesis using run x' y Opened(1) by (simp add: epoch_held_def)
  qed
qed


subsection \<open>How an error settles the item\<close>

lemma bindP_apply: "bindP m f s = (case m s of (Inl e, t) \<Rightarrow> (Inl e, t) | (Inr x, t) \<Rightarrow> f x t)"
  by (simp add: bindP_def)

lemma stepP_apply: "stepP f s = (Inr (fst (f s)), snd (f s))"
  by (simp add: stepP_def)

lemma readP_apply: "readP f s = (Inr (f s), s)"
  by (simp add: readP_def)

text \<open>Without moves to come, a round trip is the statement alone.\<close>

lemma await_calm: "js_moves s = [] \<Longrightarrow> await P m s = (fst (m (js_cd s)), s\<lparr>js_cd := snd (m (js_cd s))\<rparr>)"
  by (simp add: await_def elapse_def next_fault_def)

lemma await_read_calm: "js_moves s = [] \<Longrightarrow> await P (readP f) s = (Inr (f (js_cd s)), s)"
  by (simp add: await_calm readP_def)

lemma await_db_calm:
  "js_moves s = [] \<Longrightarrow> await_db P (stepP f) s = (Inr (fst (f (cdb (js_cd s)))), s\<lparr>js_cd := (js_cd s)\<lparr>cdb := snd (f (cdb (js_cd s)))\<rparr>\<rparr>)"
  by (simp add: await_calm on_cdb_def stepP_def)

definition runnable :: "run_state \<Rightarrow> execution \<Rightarrow> item_id \<Rightarrow> bool" where
  "runnable s x i \<longleftrightarrow> js_moves s = [] \<and> \<not> js_job_aborted s \<and> x_item x = i \<and> epoch_held i (x_epoch x) (cdb (js_cd s)) \<and>
     (\<exists>r. item_at (cdb (js_cd s)) i = Some r \<and> w_status r = Running \<and> w_cancel_requested_at r = None)"

lemma epoch_fence: "epoch_held i e d \<Longrightarrow> lease_fence_sql d i (epoch_of (fence_for_epoch e))"
  by (cases e) (simp_all add: epoch_held_def)

lemma owned_transition:
  assumes "item_at d i = Some r" and "w_status r \<in> set sources" and "w_cancel_requested_at r = None" and "epoch_held i e d"
    and "spec = (spec_for i sources target (fence_for_epoch e))\<lparr>t_unless_cancel_requested := True, t_last_error := Some msg\<rparr>"
  shows "fst (transitioned spec d)"
    and "\<exists>r'. item_at (snd (transitioned spec d)) i = Some r' \<and> w_status r' = target \<and> w_last_error r' = Some msg \<and>
    w_cancel_requested_at r' = None"
proof -
  have r: "r \<in> set (items d)" "w_id r = i" using item_at_id [OF assms(1)] by auto
  have g: "transition_guard spec d r"
    using assms r epoch_fence [OF assms(4)] by (simp add: transition_guard_def selects_def opt_matches_def spec_for_def)
  then show "fst (transitioned spec d)" using r(1) by (auto simp: transitioned_iff)
  show "\<exists>r'. item_at (snd (transitioned spec d)) i = Some r' \<and> w_status r' = target \<and> w_last_error r' = Some msg \<and>
    w_cancel_requested_at r' = None"
    using g assms(1,3) by (simp add: item_at_transition) (simp add: transition_set_def assms(5) spec_for_def)
qed

lemma recheck_calm:
  assumes "runnable s x (w_id w)"
  shows "recheck_skippable_and_cancel P x sc w reason notify s = (Inr False, s\<lparr>js_phase := Completing\<rparr>)"
proof -
  let ?t = "s\<lparr>js_phase := Completing\<rparr>"
  have t: "js_moves ?t = []" "js_phase ?t = Completing" "js_cd ?t = js_cd s" using assms by (simp_all add: runnable_def)
  have own: "execution_owns P x ?t = (Inr True, ?t)"
    using assms t by (auto simp: execution_owns_def runnable_def epoch_held_def await_read_calm end_apply split: option.splits)
  have skip: "lookup_db P (\<lambda>d. should_skip_work d (w_id w)) ?t = (Inr False, ?t)"
    using assms t by (auto simp: await_read_calm runnable_def should_skip_work_def)
  show ?thesis using own skip
    by (simp add: recheck_skippable_and_cancel_def cancel_if_skippable_def thenP_def bindP_apply stepP_apply readP_apply end_apply)
qed


lemma quietly_ok: "fst (quietly m s) = Inr ()"
  by (cases "m s"; cases "fst (m s)") (auto simp: quietly_def catchP_def returnP_def)

lemma hook_ok: "fst (invoke_terminal_failure_hook P x sc w e s) = Inr ()"
  using quietly_ok by (auto simp: invoke_terminal_failure_hook_def bindP_apply catchP_def readP_apply end_apply split: option.split sum.split prod.split)


subsection \<open>A deferral that cannot be scheduled\<close>

lemma recheck_mild:
  assumes "js_moves s = []" and "epoch_held (x_item x) (x_epoch x) (cdb (js_cd s))" and "\<not> should_skip_work (cdb (js_cd s)) (w_id w)"
  shows "recheck_skippable_and_cancel P x sc w reason notify s = (Inr False, s\<lparr>js_phase := Completing\<rparr>)"
proof -
  let ?t = "s\<lparr>js_phase := Completing\<rparr>"
  have own: "execution_owns P x ?t = (Inr True, ?t)"
    using assms by (auto simp: execution_owns_def epoch_held_def await_read_calm end_apply split: option.splits)
  have skip: "lookup_db P (\<lambda>d. should_skip_work d (w_id w)) ?t = (Inr False, ?t)"
    using assms by (auto simp: await_read_calm)
  show ?thesis using own skip
    by (simp add: recheck_skippable_and_cancel_def cancel_if_skippable_def thenP_def bindP_apply stepP_apply readP_apply end_apply)
qed

lemma transition_from_elsewhere:
  assumes "item_at d i = Some r" and "uniq w_id (items d)" and "w_status r \<notin> set sources"
  shows "transitioned ((spec_for i sources target f)\<lparr>t_unless_cancel_requested := True, t_last_error := m\<rparr>) d = (False, d)"
proof -
  let ?spec = "(spec_for i sources target f)\<lparr>t_unless_cancel_requested := True, t_last_error := m\<rparr>"
  have "\<not> transition_guard ?spec d v" if "v \<in> set (items d)" for v
  proof
    assume g: "transition_guard ?spec d v"
    then have "w_id v = i" by (simp add: transition_guard_def selects_def opt_matches_def spec_for_def)
    then have "v = r" using assms(1) uniq_row_at [OF assms(2) that] by (simp add: item_at_def)
    then show False using g assms(3) by (simp add: transition_guard_def spec_for_def)
  qed
  then have "\<not> fst (transitioned ?spec d)" by (simp add: transitioned_iff)
  then show ?thesis using transition_idle by (auto simp: prod_eq_iff transitioned_def)
qed

text \<open>An item that no longer runs is left as it is: the error ends there.\<close>

lemma settled_item_swallows:
  assumes "js_moves s = []" and "\<not> js_job_aborted s" and "epoch_held (x_item x) (x_epoch x) (cdb (js_cd s))"
    and "item_at (cdb (js_cd s)) (w_id w) = Some r" and "w_status r = Queued" and "w_cancel_requested_at r = None"
    and "uniq w_id (items (cdb (js_cd s)))" and "error_code e \<noteq> ''agent_work.pr_actor_lease_lost''"
    and "\<not> is_cancel_abort_error (jp_halted P) e" and "\<not> is_preflight_failure e"
  shows "handle_durable_execution_error P x sc w e s = (Inr (), s\<lparr>js_phase := Completing\<rparr>)"
proof -
  let ?t = "s\<lparr>js_phase := Completing\<rparr>"
  have skip: "\<not> should_skip_work (cdb (js_cd s)) (w_id w)" using assms(4-6) by (simp add: should_skip_work_def)
  have again: "recheck_skippable_and_cancel P x sc w reason notify ?t = (Inr False, ?t)"
      "recheck_skippable_and_cancel P x sc w reason notify s = (Inr False, ?t)" for reason notify
    using recheck_mild [of ?t x w P sc reason notify] recheck_mild [of s x w P sc reason notify] assms(1,3) skip by simp_all
  have idle: "mark_work_retrying (w_id w) m (x_epoch x) (cdb (js_cd s)) = (False, cdb (js_cd s))"
      "mark_work_failed (w_id w) m (x_epoch x) (cdb (js_cd s)) = (False, cdb (js_cd s))" for m
    using assms(5) by (simp_all add: mark_work_retrying_def mark_work_failed_def transition_from_elsewhere [OF assms(4,7)])
  have "settle_error P x sc w e None ?t = (Inr (), ?t)"
    using assms(1) again idle
    by (simp add: settle_error_def bindP_apply readP_apply mark_retrying_or_cancel_def await_db_calm thenP_def end_apply)
  then show ?thesis using assms(2,8-10) again
    by (simp add: handle_durable_execution_error_def bindP_apply readP_apply)
qed


subsection \<open>A concrete run\<close>

definition sample_scope :: item_scope where
  "sample_scope = \<lparr>is_owner = ''o'', is_repo = ''r'', is_pr = 1, is_installation = 7\<rparr>"

definition sample_policy :: installation_capabilities where
  "sample_policy = (unknown_installation_capabilities \<lparr>cs_app_id = ''1'', cs_installation = 7, cs_owner = ''o'', cs_repo = ''r''\<rparr> ''1'')
     \<lparr>ic_availability := (\<lambda>_. AccessAvailable)\<rparr>"

definition sample_job :: "executor \<Rightarrow> job_params" where
  "sample_job ex = \<lparr>jp_item = ''a'', jp_type = Review, jp_queue = Some ''agent-work-review'', jp_accept = (\<lambda>_. True),
     jp_app_id = ''1'', jp_retry_limit = 2, jp_job_retry_count = 0, jp_job_retry_limit = 2, jp_ttl = 60, jp_priority = None,
     jp_holder = ''h'', jp_clock = 100, jp_fallback = None, jp_job_reason = PlainError ''shutdown'', jp_halted = (\<lambda>_. False),
     jp_message = error_code, jp_attach = (\<lambda>_ _. None), jp_boss = sample_boss, jp_transact = (\<lambda>_. db_transaction),
     jp_lookup = (\<lambda>_. returnP None), jp_commenter = (\<lambda>_. None), jp_bot = returnP 1, jp_token = (\<lambda>_. returnP ''t''),
     jp_preflight = (\<lambda>_ _. returnP (sample_policy, Some ''t'')), jp_create = (\<lambda>_. returnP ()),
     jp_resolve_head = (\<lambda>_ w. returnP (w_head_sha w)), jp_execute = (\<lambda>_ _ _. ex), jp_on_cancelled = None,
     jp_on_terminal = Some (\<lambda>_ _ _ _. returnP ()), jp_react = (\<lambda>_ _. returnP ())\<rparr>"

definition sample_tables :: "db \<Rightarrow> ci_db" where
  "sample_tables d = \<lparr>cdb = d, cd_scope = (\<lambda>_. sample_scope), cd_heads = [], cd_caps = [], cd_sources = [], cd_generation = 0,
     cd_preflight = (\<lambda>_. 0)\<rparr>"

definition sample_outcome :: "executor \<Rightarrow> (js_error + unit) \<times> run_state" where
  "sample_outcome ex = run_durable_work_item (sample_job ex) (fresh_run (sample_tables (sample_db [sample_item ''a'' Queued] [])) [] [])"

primrec started_tables :: "job_event list \<Rightarrow> ci_db list" where
  "started_tables [] = []"
| "started_tables (ev # evs) = (case ev of ExecutorStarted c \<Rightarrow> [c] | _ \<Rightarrow> []) @ started_tables evs"

lemma started_tables_empty: "started_tables l = [] \<longleftrightarrow> (\<forall>c. ExecutorStarted c \<notin> set l)"
  by (induction l) (auto split: job_event.splits)

theorem executor_starts_under_lease_witness:
  "\<exists>c x e. ExecutorStarted c \<in> set (js_log (snd (sample_outcome (Return (ExecCompleted []))))) \<and>
    js_exec (snd (sample_outcome (Return (ExecCompleted [])))) = Some x \<and> x_epoch x = Some e \<and> is_pr_actor_lease_held (cdb c) ''a'' e"
proof -
  have "started_tables (js_log (snd (sample_outcome (Return (ExecCompleted []))))) \<noteq> []" by code_simp
  then obtain c where c: "ExecutorStarted c \<in> set (js_log (snd (sample_outcome (Return (ExecCompleted [])))))"
    using started_tables_empty by blast
  show ?thesis
    using executor_starts_under_lease [OF c [unfolded sample_outcome_def], of "''agent-work-review''"] c
    by (auto simp: sample_outcome_def sample_job_def)
qed


definition sample_running :: "shared_circuit list \<Rightarrow> run_state" where
  "sample_running circuits = (fresh_run (sample_tables (sample_db [sample_item ''a'' Running] [sample_lease ''a'' 2 200])) circuits [])
     \<lparr>js_exec := Some sample_execution\<rparr>"

lemma sample_runnable: "runnable (sample_running circuits) sample_execution ''a''"
  by (simp add: runnable_def sample_running_def fresh_run_def sample_execution_def opened_def epoch_held_def sample_tables_def
      sample_defs is_pr_actor_lease_held_def table_simps holds_lease_def item_at_def row_at_simps)

lemmas sample_job_defs = sample_job_def sample_defs is_cancel_abort_error_def cancel_abort_codes_def is_preflight_failure_def


definition full_queue :: boss_api where
  "full_queue = \<lparr>b_send = (\<lambda>_ d. (Inr None, d)), b_find_jobs = (\<lambda>_ _ d. (Inr [], d))\<rparr>"

lemma full_queue_refuses: "arm_lease_watchdog_hop full_queue req True d = (Inl watchdog_arm_failed, d)"
  by (simp add: arm_lease_watchdog_hop_def full_queue_def bindP_apply finished_slot_holders_def end_apply)


end
