(* ===== verification/Work_Payload.thy ===== *)
theory Work_Payload
  imports Publish_Resume Work_Items
begin

text \<open>
  The payloads of work items: the types of \<^verbatim>\<open>src/agentWork/types.ts\<close>, what
  \<^verbatim>\<open>src/agentWork/intake/workItemRepository.ts\<close> writes into the row, and the schemas of
  \<^verbatim>\<open>src/agentWork/workItemPayloadSchema.ts\<close> that a job reads it with.

  A row holds the payload as a JSON object. A loose schema keeps the fields it does not name; the records below
  hold the fields that the schemas name. The properties state that everything that intake writes is accepted and
  read back, and that the patches of later statements keep a payload acceptable.
\<close>

subsection \<open>Types\<close>

datatype reply_target = PrConversation int | InlineReviewThread int int

datatype ack_target = PrTarget int | IssueCommentTarget int | ReviewCommentTarget int

datatype cancel_attribution = ByUser string | ByMerge | ByClose

datatype anchor_side = AnchorLeft | AnchorRight

record code_anchor =
  an_path :: string
  an_line :: int
  an_start :: "int option"
  an_side :: "anchor_side option"
  an_hunk :: "string option"

datatype replacement_state = PendingEnqueue | Enqueued

record stale_head_replacement =
  sr_item :: item_id
  sr_state :: replacement_state

record push_follow_up =
  pf_event :: string
  pf_item :: "item_id option"
  pf_state :: "replacement_state option"

datatype triage_scope = ScopeAll | ScopeThread

datatype triage_mode = ModeApply | ModePreview | ModeBulk

record review_payload =
  vp_source :: work_source
  vp_size :: "int option"
  vp_supplement :: "string option"
  vp_commenter :: "int option"
  vp_acks :: "ack_target list option"
  vp_degraded :: "bool option"
  vp_rescheduled :: "bool option"
  vp_replacement :: "stale_head_replacement option"
  vp_follow_up :: "push_follow_up option"
  vp_cancel :: "cancel_attribution option"

record ask_payload =
  qp_question :: string
  qp_reply :: reply_target
  qp_size :: "int option"
  qp_anchor :: "code_anchor option"
  qp_commenter :: "int option"
  qp_comment :: int
  qp_acks :: "ack_target list option"

record description_payload =
  dp_source :: work_source
  dp_size :: "int option"
  dp_supplement :: "string option"
  dp_commenter :: "int option"
  dp_acks :: "ack_target list option"

record triage_payload =
  tp_size :: "int option"
  tp_commenter :: "int option"
  tp_comment :: int
  tp_scope :: triage_scope
  tp_mode :: triage_mode
  tp_exclude :: "int list option"
  tp_anchor_comment :: "int option"
  tp_needs_root :: "bool option"
  tp_reply :: reply_target
  tp_degraded :: "bool option"
  tp_acks :: "ack_target list option"
  tp_cancel :: "cancel_attribution option"

record verification_payload =
  fp_source :: work_source
  fp_size :: "int option"
  fp_before :: "string option"
  fp_acks :: "ack_target list option"
  fp_degraded :: "bool option"

datatype work_payload =
    ReviewPayload review_payload
  | AskPayload ask_payload
  | DescriptionPayload description_payload
  | TriagePayload triage_payload
  | VerificationPayload verification_payload

subsection \<open>Parts of a payload as JSON\<close>

fun work_source_text :: "work_source \<Rightarrow> string" where
  "work_source_text Auto = ''auto''"
| "work_source_text Slash = ''slash''"

fun scope_text :: "triage_scope \<Rightarrow> string" where
  "scope_text ScopeAll = ''all''"
| "scope_text ScopeThread = ''thread''"

fun mode_text :: "triage_mode \<Rightarrow> string" where
  "mode_text ModeApply = ''apply''"
| "mode_text ModePreview = ''preview''"
| "mode_text ModeBulk = ''bulk''"

fun side_text :: "anchor_side \<Rightarrow> string" where
  "side_text AnchorLeft = ''LEFT''"
| "side_text AnchorRight = ''RIGHT''"

fun replacement_text :: "replacement_state \<Rightarrow> string" where
  "replacement_text PendingEnqueue = ''pending-enqueue''"
| "replacement_text Enqueued = ''enqueued''"

text \<open>\<^verbatim>\<open>JSON.stringify\<close> leaves an undefined field out.\<close>

definition present :: "string \<Rightarrow> ('a \<Rightarrow> json) \<Rightarrow> 'a option \<Rightarrow> fields" where
  "present k f v = (case v of None \<Rightarrow> [] | Some x \<Rightarrow> [(k, f x)])"

fun reply_json :: "reply_target \<Rightarrow> json" where
  "reply_json (PrConversation n) = JObj [(''kind'', JStr ''prConversation''), (''prNumber'', JNum n)]"
| "reply_json (InlineReviewThread n c) =
     JObj [(''kind'', JStr ''inlineReviewThread''), (''prNumber'', JNum n), (''inReplyToCommentId'', JNum c)]"

fun ack_json :: "ack_target \<Rightarrow> json" where
  "ack_json (PrTarget n) = JObj [(''kind'', JStr ''pr''), (''prNumber'', JNum n)]"
| "ack_json (IssueCommentTarget c) = JObj [(''kind'', JStr ''issueComment''), (''commentId'', JNum c)]"
| "ack_json (ReviewCommentTarget c) = JObj [(''kind'', JStr ''reviewComment''), (''commentId'', JNum c)]"

fun attribution_json :: "cancel_attribution \<Rightarrow> json" where
  "attribution_json (ByUser l) = JObj [(''kind'', JStr ''user''), (''login'', JStr l)]"
| "attribution_json ByMerge = JObj [(''kind'', JStr ''merged'')]"
| "attribution_json ByClose = JObj [(''kind'', JStr ''closed'')]"

definition anchor_json :: "code_anchor \<Rightarrow> json" where
  "anchor_json a = JObj ([(''path'', JStr (an_path a)), (''line'', JNum (an_line a))] @ present ''startLine'' JNum (an_start a) @
     present ''side'' (\<lambda>x. JStr (side_text x)) (an_side a) @ present ''diffHunk'' JStr (an_hunk a))"

definition acks_json :: "ack_target list \<Rightarrow> json" where
  "acks_json ts = JArr (map ack_json ts)"

subsection \<open>The payloads that intake writes\<close>

definition review_payload_fields ::
  "work_source \<Rightarrow> int option \<Rightarrow> string option \<Rightarrow> int option \<Rightarrow> ack_target list option \<Rightarrow> fields" where
  "review_payload_fields src kb supplement commenter acks =
     [(''mode'', JStr ''review''), (''source'', JStr (work_source_text src))] @ present ''repositorySizeKb'' JNum kb @
     present ''userSupplement'' JStr supplement @ present ''commenterId'' JNum commenter @ present ''ackTargets'' acks_json acks"

definition description_payload_fields ::
  "work_source \<Rightarrow> int option \<Rightarrow> string option \<Rightarrow> int option \<Rightarrow> ack_target list option \<Rightarrow> fields" where
  "description_payload_fields src kb supplement commenter acks =
     [(''source'', JStr (work_source_text src))] @ present ''repositorySizeKb'' JNum kb @
     present ''userSupplement'' JStr supplement @ present ''commenterId'' JNum commenter @ present ''ackTargets'' acks_json acks"

record triage_request =
  tq_comment :: int
  tq_commenter :: "int option"
  tq_scope :: triage_scope
  tq_mode :: "triage_mode option"
  tq_exclude :: "int list option"
  tq_anchor :: "int option"
  tq_needs_root :: "bool option"
  tq_reply :: reply_target
  tq_acks :: "ack_target list option"

definition triage_payload_fields :: "int option \<Rightarrow> triage_request \<Rightarrow> fields" where
  "triage_payload_fields kb q =
     [(''source'', JStr ''slash'')] @ present ''repositorySizeKb'' JNum kb @ [(''commentId'', JNum (tq_comment q))] @
     present ''commenterId'' JNum (tq_commenter q) @ [(''scope'', JStr (scope_text (tq_scope q)))] @
     present ''mode'' (\<lambda>m. JStr (mode_text m)) (if tq_mode q = Some ModeApply then None else tq_mode q) @
     present ''excludeThreadRootCommentIds'' (\<lambda>ns. JArr (map JNum ns)) (if tq_exclude q = Some [] then None else tq_exclude q) @
     present ''threadAnchorCommentId'' JNum (tq_anchor q) @ present ''needsThreadRootResolution'' JBool (tq_needs_root q) @
     [(''replyTarget'', reply_json (tq_reply q))] @ present ''ackTargets'' acks_json (tq_acks q)"

definition verification_payload_fields ::
  "work_source \<Rightarrow> int option \<Rightarrow> string option \<Rightarrow> ack_target list option \<Rightarrow> fields" where
  "verification_payload_fields src kb before acks =
     [(''source'', JStr (work_source_text src))] @ present ''repositorySizeKb'' JNum kb @
     present ''pushBeforeSha'' JStr before @ present ''ackTargets'' acks_json acks"

definition ask_payload_fields ::
  "string \<Rightarrow> reply_target \<Rightarrow> int option \<Rightarrow> int \<Rightarrow> int \<Rightarrow> code_anchor option \<Rightarrow> ack_target list option \<Rightarrow> fields" where
  "ask_payload_fields question reply kb comment commenter anchor acks =
     [(''question'', JStr question), (''replyTarget'', reply_json reply)] @ present ''repositorySizeKb'' JNum kb @
     [(''commentId'', JNum comment), (''commenterId'', JNum commenter)] @ present ''codeAnchor'' anchor_json anchor @
     present ''ackTargets'' acks_json acks"

subsection \<open>The schemas\<close>

abbreviation need :: "(json \<Rightarrow> 'a option) \<Rightarrow> string \<Rightarrow> detail \<Rightarrow> 'a option" where
  "need f k d \<equiv> Option.bind (d k) f"

abbreviation maybe :: "(json \<Rightarrow> 'a option) \<Rightarrow> string \<Rightarrow> detail \<Rightarrow> 'a option option" where
  "maybe f k d \<equiv> optional f (d k)"

fun json_number :: "json \<Rightarrow> int option" where
  "json_number (JNum n) = Some n"
| "json_number _ = None"

fun json_flag :: "json \<Rightarrow> bool option" where
  "json_flag (JBool b) = Some b"
| "json_flag _ = None"

definition positive_int :: "json \<Rightarrow> int option" where
  "positive_int = checked_number (\<lambda>n. 0 < n)"

fun json_list :: "(json \<Rightarrow> 'a option) \<Rightarrow> json \<Rightarrow> 'a list option" where
  "json_list f (JArr xs) = those (map f xs)"
| "json_list f _ = None"

definition word_of :: "('a \<Rightarrow> string) \<Rightarrow> 'a list \<Rightarrow> json \<Rightarrow> 'a option" where
  "word_of text options j = pick text options (Some j)"

definition work_sources :: "work_source list" where "work_sources = [Auto, Slash]"
definition replacement_states :: "replacement_state list" where "replacement_states = [PendingEnqueue, Enqueued]"
definition triage_scopes :: "triage_scope list" where "triage_scopes = [ScopeAll, ScopeThread]"
definition triage_modes :: "triage_mode list" where "triage_modes = [ModeApply, ModePreview, ModeBulk]"
definition anchor_sides :: "anchor_side list" where "anchor_sides = [AnchorLeft, AnchorRight]"

definition parse_reply_target :: "json \<Rightarrow> reply_target option" where
  "parse_reply_target j = (case field ''kind'' j of
      Some (JStr k) \<Rightarrow>
        if k = ''prConversation'' then map_option PrConversation (required positive_int ''prNumber'' j)
        else if k = ''inlineReviewThread'' then do {
          n \<leftarrow> required positive_int ''prNumber'' j;
          c \<leftarrow> required positive_int ''inReplyToCommentId'' j;
          Some (InlineReviewThread n c)
        }
        else None
    | _ \<Rightarrow> None)"

definition parse_ack_target :: "json \<Rightarrow> ack_target option" where
  "parse_ack_target j = (case field ''kind'' j of
      Some (JStr k) \<Rightarrow>
        if k = ''pr'' then map_option PrTarget (required positive_int ''prNumber'' j)
        else if k = ''issueComment'' then map_option IssueCommentTarget (required positive_int ''commentId'' j)
        else if k = ''reviewComment'' then map_option ReviewCommentTarget (required positive_int ''commentId'' j)
        else None
    | _ \<Rightarrow> None)"

definition parse_attribution :: "json \<Rightarrow> cancel_attribution option" where
  "parse_attribution j = (case field ''kind'' j of
      Some (JStr k) \<Rightarrow>
        if k = ''user'' then map_option ByUser (required nonempty_string ''login'' j)
        else if k = ''merged'' then Some ByMerge
        else if k = ''closed'' then Some ByClose
        else None
    | _ \<Rightarrow> None)"

definition parse_code_anchor :: "json \<Rightarrow> code_anchor option" where
  "parse_code_anchor j = do {
     path \<leftarrow> required nonempty_string ''path'' j;
     line \<leftarrow> required positive_int ''line'' j;
     start \<leftarrow> optional_field positive_int ''startLine'' j;
     side \<leftarrow> optional_field (word_of side_text anchor_sides) ''side'' j;
     hunk \<leftarrow> optional_field json_string ''diffHunk'' j;
     Some \<lparr>an_path = path, an_line = line, an_start = start, an_side = side, an_hunk = hunk\<rparr>
   }"

definition parse_follow_up :: "json \<Rightarrow> push_follow_up option" where
  "parse_follow_up j = do {
     ev \<leftarrow> required nonempty_string ''webhookEventId'' j;
     i \<leftarrow> optional_field nonempty_string ''replacementWorkItemId'' j;
     st \<leftarrow> optional_field (word_of replacement_text replacement_states) ''state'' j;
     Some \<lparr>pf_event = ev, pf_item = i, pf_state = st\<rparr>
   }"

definition parse_review_mode :: "json \<Rightarrow> unit option" where
  "parse_review_mode j = (case j of JStr s \<Rightarrow> if is_any_review_lens s then Some () else None | _ \<Rightarrow> None)"

definition text_present :: "json option \<Rightarrow> string option" where
  "text_present v = (case v of Some (JStr s) \<Rightarrow> if s \<noteq> [] then Some s else None | _ \<Rightarrow> None)"

definition as_replacement_state :: "json option \<Rightarrow> replacement_state option" where
  "as_replacement_state v = pick replacement_text replacement_states v"

definition normalize_stale_head_replacement :: "detail \<Rightarrow> stale_head_replacement option" where
  "normalize_stale_head_replacement d =
     (let nested = (case d ''staleHeadReplacement'' of Some (JObj fs) \<Rightarrow> JObj fs | _ \<Rightarrow> JObj []);
          legacy = text_present (d ''staleHeadReplacementWorkItemId'');
          i = (case text_present (field ''replacementWorkItemId'' nested) of
                 Some v \<Rightarrow> Some v
               | None \<Rightarrow> if d ''staleHeadRescheduled'' = Some (JBool True) then None else legacy)
      in case i of
           None \<Rightarrow> None
         | Some v \<Rightarrow> Some \<lparr>sr_item = v, sr_state = (case as_replacement_state (field ''state'' nested) of
               Some st \<Rightarrow> st
             | None \<Rightarrow> if d ''staleHeadReplacementEnqueued'' = Some (JBool True) then Enqueued else PendingEnqueue)\<rparr>)"

definition parse_review_payload :: "detail \<Rightarrow> review_payload option" where
  "parse_review_payload d = do {
     mode \<leftarrow> need parse_review_mode ''mode'' d;
     src \<leftarrow> need (word_of work_source_text work_sources) ''source'' d;
     kb \<leftarrow> maybe json_number ''repositorySizeKb'' d;
     extra \<leftarrow> maybe json_string ''userSupplement'' d;
     who \<leftarrow> maybe json_number ''commenterId'' d;
     acks \<leftarrow> maybe (json_list parse_ack_target) ''ackTargets'' d;
     degraded \<leftarrow> maybe json_flag ''publishDegraded'' d;
     resched \<leftarrow> maybe json_flag ''staleHeadRescheduled'' d;
     follow \<leftarrow> maybe parse_follow_up ''pushFollowUp'' d;
     cancel \<leftarrow> maybe parse_attribution ''cancelAttribution'' d;
     Some \<lparr>vp_source = src, vp_size = kb, vp_supplement = extra, vp_commenter = who, vp_acks = acks, vp_degraded = degraded,
       vp_rescheduled = resched, vp_replacement = normalize_stale_head_replacement d, vp_follow_up = follow, vp_cancel = cancel\<rparr>
   }"

definition parse_ask_payload :: "detail \<Rightarrow> ask_payload option" where
  "parse_ask_payload d = do {
     question \<leftarrow> need json_string ''question'' d;
     reply \<leftarrow> need parse_reply_target ''replyTarget'' d;
     kb \<leftarrow> maybe json_number ''repositorySizeKb'' d;
     anchor \<leftarrow> maybe parse_code_anchor ''codeAnchor'' d;
     who \<leftarrow> maybe json_number ''commenterId'' d;
     comment \<leftarrow> need positive_int ''commentId'' d;
     acks \<leftarrow> maybe (json_list parse_ack_target) ''ackTargets'' d;
     Some \<lparr>qp_question = question, qp_reply = reply, qp_size = kb, qp_anchor = anchor, qp_commenter = who,
       qp_comment = comment, qp_acks = acks\<rparr>
   }"

definition parse_description_payload :: "detail \<Rightarrow> description_payload option" where
  "parse_description_payload d = do {
     src \<leftarrow> need (word_of work_source_text work_sources) ''source'' d;
     kb \<leftarrow> maybe json_number ''repositorySizeKb'' d;
     extra \<leftarrow> maybe json_string ''userSupplement'' d;
     who \<leftarrow> maybe json_number ''commenterId'' d;
     acks \<leftarrow> maybe (json_list parse_ack_target) ''ackTargets'' d;
     Some \<lparr>dp_source = src, dp_size = kb, dp_supplement = extra, dp_commenter = who, dp_acks = acks\<rparr>
   }"

definition parse_triage_payload :: "detail \<Rightarrow> triage_payload option" where
  "parse_triage_payload d = do {
     src \<leftarrow> need (word_of work_source_text [Slash]) ''source'' d;
     kb \<leftarrow> maybe json_number ''repositorySizeKb'' d;
     who \<leftarrow> maybe json_number ''commenterId'' d;
     comment \<leftarrow> need positive_int ''commentId'' d;
     scope \<leftarrow> need (word_of scope_text triage_scopes) ''scope'' d;
     mode \<leftarrow> maybe (word_of mode_text triage_modes) ''mode'' d;
     exclude \<leftarrow> maybe (json_list positive_int) ''excludeThreadRootCommentIds'' d;
     anchor \<leftarrow> maybe positive_int ''threadAnchorCommentId'' d;
     root \<leftarrow> maybe json_flag ''needsThreadRootResolution'' d;
     reply \<leftarrow> need parse_reply_target ''replyTarget'' d;
     degraded \<leftarrow> maybe json_flag ''publishDegraded'' d;
     acks \<leftarrow> maybe (json_list parse_ack_target) ''ackTargets'' d;
     cancel \<leftarrow> maybe parse_attribution ''cancelAttribution'' d;
     Some \<lparr>tp_size = kb, tp_commenter = who, tp_comment = comment, tp_scope = scope,
       tp_mode = (case mode of None \<Rightarrow> ModeApply | Some m \<Rightarrow> m), tp_exclude = exclude, tp_anchor_comment = anchor,
       tp_needs_root = root, tp_reply = reply, tp_degraded = degraded, tp_acks = acks, tp_cancel = cancel\<rparr>
   }"

definition parse_verification_payload :: "detail \<Rightarrow> verification_payload option" where
  "parse_verification_payload d = do {
     src \<leftarrow> need (word_of work_source_text work_sources) ''source'' d;
     kb \<leftarrow> maybe json_number ''repositorySizeKb'' d;
     before \<leftarrow> maybe nonempty_string ''pushBeforeSha'' d;
     acks \<leftarrow> maybe (json_list parse_ack_target) ''ackTargets'' d;
     degraded \<leftarrow> maybe json_flag ''publishDegraded'' d;
     Some \<lparr>fp_source = src, fp_size = kb, fp_before = before, fp_acks = acks, fp_degraded = degraded\<rparr>
   }"

definition work_type_text :: "work_type \<Rightarrow> string" where
  "work_type_text t = (case t of Review \<Rightarrow> ''review'' | Ask \<Rightarrow> ''ask'' | Description \<Rightarrow> ''description'' | Triage \<Rightarrow> ''triage''
     | Verification \<Rightarrow> ''verification'')"

definition invalid_payload :: "work_type \<Rightarrow> js_error" where
  "invalid_payload t = AppError ''agent_work'' ''invalid_payload'' [(''workType'', JStr (work_type_text t))]"

definition parse_with_schema :: "work_type \<Rightarrow> 'a option \<Rightarrow> js_error + 'a" where
  "parse_with_schema t r = (case r of None \<Rightarrow> Inl (invalid_payload t) | Some p \<Rightarrow> Inr p)"

definition parse_work_item_payload :: "work_type \<Rightarrow> detail \<Rightarrow> js_error + work_payload" where
  "parse_work_item_payload t d = parse_with_schema t (case t of
      Review \<Rightarrow> map_option ReviewPayload (parse_review_payload d)
    | Ask \<Rightarrow> map_option AskPayload (parse_ask_payload d)
    | Description \<Rightarrow> map_option DescriptionPayload (parse_description_payload d)
    | Triage \<Rightarrow> map_option TriagePayload (parse_triage_payload d)
    | Verification \<Rightarrow> map_option VerificationPayload (parse_verification_payload d))"

definition attach_work_item_payload :: "work_item \<Rightarrow> detail \<Rightarrow> js_error + work_item \<times> work_payload" where
  "attach_work_item_payload core raw = map_sum id (Pair core) (parse_work_item_payload (w_type core) raw)"

subsection \<open>What is written is read back\<close>

fun reply_ok :: "reply_target \<Rightarrow> bool" where
  "reply_ok (PrConversation n) \<longleftrightarrow> 0 < n"
| "reply_ok (InlineReviewThread n c) \<longleftrightarrow> 0 < n \<and> 0 < c"

fun ack_ok :: "ack_target \<Rightarrow> bool" where
  "ack_ok (PrTarget n) \<longleftrightarrow> 0 < n"
| "ack_ok (IssueCommentTarget c) \<longleftrightarrow> 0 < c"
| "ack_ok (ReviewCommentTarget c) \<longleftrightarrow> 0 < c"

definition acks_ok :: "ack_target list option \<Rightarrow> bool" where
  "acks_ok acks \<longleftrightarrow> (case acks of None \<Rightarrow> True | Some ts \<Rightarrow> list_all ack_ok ts)"

fun attribution_ok :: "cancel_attribution \<Rightarrow> bool" where
  "attribution_ok (ByUser l) \<longleftrightarrow> 1 \<le> js_length l"
| "attribution_ok _ \<longleftrightarrow> True"

definition anchor_ok :: "code_anchor \<Rightarrow> bool" where
  "anchor_ok a \<longleftrightarrow> 1 \<le> js_length (an_path a) \<and> 0 < an_line a \<and> pred_option (\<lambda>n. 0 < n) (an_start a)"

named_theorems payload_simps \<open>reading back the parts of a payload\<close>

lemma word_of_words [payload_simps]:
  "word_of work_source_text work_sources (JStr (work_source_text s)) = Some s"
  "word_of work_source_text [Slash] (JStr ''slash'') = Some Slash"
  "word_of scope_text triage_scopes (JStr (scope_text sc)) = Some sc"
  "word_of mode_text triage_modes (JStr (mode_text m)) = Some m"
  "word_of side_text anchor_sides (JStr (side_text sd)) = Some sd"
  "word_of replacement_text replacement_states (JStr (replacement_text st)) = Some st"
proof -
  show "word_of work_source_text work_sources (JStr (work_source_text s)) = Some s"
    by (cases s) (simp_all add: word_of_def pick_def work_sources_def)
  show "word_of scope_text triage_scopes (JStr (scope_text sc)) = Some sc"
    by (cases sc) (simp_all add: word_of_def pick_def triage_scopes_def)
  show "word_of mode_text triage_modes (JStr (mode_text m)) = Some m"
    by (cases m) (simp_all add: word_of_def pick_def triage_modes_def)
  show "word_of side_text anchor_sides (JStr (side_text sd)) = Some sd"
    by (cases sd) (simp_all add: word_of_def pick_def anchor_sides_def)
  show "word_of replacement_text replacement_states (JStr (replacement_text st)) = Some st"
    by (cases st) (simp_all add: word_of_def pick_def replacement_states_def)
qed (simp add: word_of_def pick_def)

lemma present_lookup [payload_simps]: "map_of (present k f v) k' = (if k' = k then map_option f v else None)"
  by (simp add: present_def split: option.split)

declare map_of_append [simp del]

lemma nonempty_word [payload_simps]: "Suc 0 \<le> js_length s \<Longrightarrow> nonempty_string (JStr s) = Some s"
  by (simp add: nonempty_string_iff)

lemma present_at [payload_simps]: "map_of ys k = None \<Longrightarrow> map_of (present k f v @ ys) k = map_option f v"
  by (simp add: present_def split: option.split)

lemma present_off [payload_simps]: "k' \<noteq> k \<Longrightarrow> map_of (present k f v @ ys) k' = map_of ys k'"
  by (simp add: present_def split: option.split)

lemma numbers_read [payload_simps]:
  "json_number (JNum n) = Some n" "json_flag (JBool b) = Some b" "0 < n \<Longrightarrow> positive_int (JNum n) = Some n"
  by (simp_all add: positive_int_def)

lemma optional_read: "(\<And>x. v = Some x \<Longrightarrow> f (g x) = Some x) \<Longrightarrow> optional f (map_option g v) = Some v"
  by (cases v) (simp_all add: optional_def)

lemma optional_number [payload_simps]: "optional json_number (map_option JNum v) = Some v"
  by (rule optional_read) simp

lemma optional_string [payload_simps]: "optional json_string (map_option JStr v) = Some v"
  by (rule optional_read) simp

lemma optional_flag [payload_simps]: "optional json_flag (map_option JBool v) = Some v"
  by (rule optional_read) simp

lemma optional_absent [payload_simps]: "optional f None = Some None"
  by (simp add: optional_def)

lemma those_map: "(\<And>x. x \<in> set xs \<Longrightarrow> f (g x) = Some x) \<Longrightarrow> those (map f (map g xs)) = Some xs"
  by (induction xs) auto

lemma reply_read [payload_simps]: "reply_ok t \<Longrightarrow> parse_reply_target (reply_json t) = Some t"
  by (cases t) (simp_all add: parse_reply_target_def required_def positive_int_def)

lemma ack_read: "ack_ok t \<Longrightarrow> parse_ack_target (ack_json t) = Some t"
  by (cases t) (simp_all add: parse_ack_target_def required_def positive_int_def)

lemma acks_read [payload_simps]: "acks_ok acks \<Longrightarrow> optional (json_list parse_ack_target) (map_option acks_json acks) = Some acks"
  by (rule optional_read) (auto simp: acks_json_def acks_ok_def list_all_iff simp del: map_map intro!: those_map ack_read)

lemma attribution_read [payload_simps]: "attribution_ok a \<Longrightarrow> parse_attribution (attribution_json a) = Some a"
  by (cases a) (simp_all add: parse_attribution_def required_def nonempty_string_iff)

lemma optional_start: "pred_option (\<lambda>n. 0 < n) v \<Longrightarrow> optional positive_int (map_option JNum v) = Some v"
  by (rule optional_read) (simp add: positive_int_def)

lemma optional_side:
  "optional (word_of side_text anchor_sides) (map_option (\<lambda>x. JStr (side_text x)) v) = Some v"
  by (rule optional_read) (simp add: payload_simps)

lemma anchor_read: "anchor_ok a \<Longrightarrow> parse_code_anchor (anchor_json a) = Some a"
  unfolding parse_code_anchor_def anchor_json_def anchor_ok_def
  by (simp add: required_def optional_field_def payload_simps nonempty_string_iff optional_start optional_side)

lemma positive_list_read: "list_all (\<lambda>n. 0 < n) ns \<Longrightarrow> json_list positive_int (JArr (map JNum ns)) = Some ns"
  by (auto simp: list_all_iff payload_simps simp del: map_map intro!: those_map)

lemma nonempty_read: "pred_option (\<lambda>s. 1 \<le> js_length s) v \<Longrightarrow> optional nonempty_string (map_option JStr v) = Some v"
  by (rule optional_read) (simp add: nonempty_string_iff)

lemma review_payload_read:
  assumes "acks_ok acks"
  shows "parse_review_payload (map_of (review_payload_fields src kb extra who acks)) = Some \<lparr>vp_source = src, vp_size = kb,
     vp_supplement = extra, vp_commenter = who, vp_acks = acks, vp_degraded = None, vp_rescheduled = None, vp_replacement = None,
     vp_follow_up = None, vp_cancel = None\<rparr>"
  using assms
  by (simp add: parse_review_payload_def review_payload_fields_def payload_simps parse_review_mode_def
      normalize_stale_head_replacement_def text_present_def)

lemma description_payload_read:
  assumes "acks_ok acks"
  shows "parse_description_payload (map_of (description_payload_fields src kb extra who acks)) =
     Some \<lparr>dp_source = src, dp_size = kb, dp_supplement = extra, dp_commenter = who, dp_acks = acks\<rparr>"
  using assms by (simp add: parse_description_payload_def description_payload_fields_def payload_simps)

lemma verification_payload_read:
  assumes "acks_ok acks" and "pred_option (\<lambda>s. 1 \<le> js_length s) before"
  shows "parse_verification_payload (map_of (verification_payload_fields src kb before acks)) =
     Some \<lparr>fp_source = src, fp_size = kb, fp_before = before, fp_acks = acks, fp_degraded = None\<rparr>"
  using assms by (simp add: parse_verification_payload_def verification_payload_fields_def payload_simps nonempty_read)

lemma ask_payload_read:
  assumes "acks_ok acks" and "reply_ok reply" and "0 < comment" and "pred_option anchor_ok anchor"
  shows "parse_ask_payload (map_of (ask_payload_fields question reply kb comment who anchor acks)) = Some \<lparr>qp_question = question,
     qp_reply = reply, qp_size = kb, qp_anchor = anchor, qp_commenter = Some who, qp_comment = comment, qp_acks = acks\<rparr>"
proof -
  have "optional parse_code_anchor (map_option anchor_json anchor) = Some anchor"
    using assms(4) by (intro optional_read) (simp add: anchor_read)
  then show ?thesis using assms(1-3)
    by (simp add: parse_ask_payload_def ask_payload_fields_def payload_simps optional_def [of json_number "Some (JNum who)"])
qed


definition triage_request_ok :: "triage_request \<Rightarrow> bool" where
  "triage_request_ok q \<longleftrightarrow> 0 < tq_comment q \<and> pred_option (list_all (\<lambda>n. 0 < n)) (tq_exclude q) \<and>
     pred_option (\<lambda>n. 0 < n) (tq_anchor q) \<and> reply_ok (tq_reply q) \<and> acks_ok (tq_acks q)"

definition triage_payload_of :: "int option \<Rightarrow> triage_request \<Rightarrow> triage_payload" where
  "triage_payload_of kb q = \<lparr>tp_size = kb, tp_commenter = tq_commenter q, tp_comment = tq_comment q, tp_scope = tq_scope q,
     tp_mode = (case tq_mode q of None \<Rightarrow> ModeApply | Some m \<Rightarrow> m), tp_exclude = (if tq_exclude q = Some [] then None else tq_exclude q),
     tp_anchor_comment = tq_anchor q, tp_needs_root = tq_needs_root q, tp_reply = tq_reply q, tp_degraded = None,
     tp_acks = tq_acks q, tp_cancel = None\<rparr>"

lemma triage_payload_read:
  assumes "triage_request_ok q"
  shows "parse_triage_payload (map_of (triage_payload_fields kb q)) = Some (triage_payload_of kb q)"
proof -
  have exclude: "optional (json_list positive_int) (map_option (\<lambda>ns. JArr (map JNum ns)) v) = Some v"
    if "pred_option (list_all (\<lambda>n. 0 < n)) v" for v
    by (rule optional_read) (use that positive_list_read in \<open>auto simp del: json_list.simps\<close>)
  have mode: "optional (word_of mode_text triage_modes) (map_option (\<lambda>m. JStr (mode_text m)) v) = Some v" for v
    by (rule optional_read) (simp add: payload_simps)
  define mo ex where "mo = (if tq_mode q = Some ModeApply then None else tq_mode q)"
    and "ex = (if tq_exclude q = Some [] then None else tq_exclude q)"
  have ok: "0 < tq_comment q" "pred_option (list_all (\<lambda>n. 0 < n)) ex" "pred_option (\<lambda>n. 0 < n) (tq_anchor q)"
      "reply_ok (tq_reply q)" "acks_ok (tq_acks q)"
    using assms by (auto simp: triage_request_ok_def ex_def)
  have "parse_triage_payload (map_of (triage_payload_fields kb q)) = Some ((triage_payload_of kb q)
      \<lparr>tp_mode := (case mo of None \<Rightarrow> ModeApply | Some m \<Rightarrow> m), tp_exclude := ex\<rparr>)"
    unfolding parse_triage_payload_def triage_payload_fields_def triage_payload_of_def mo_def [symmetric] ex_def [symmetric]
    using ok by (simp add: payload_simps optional_start exclude mode)
  then show ?thesis by (auto simp: triage_payload_of_def mo_def ex_def split: option.splits)
qed



subsection \<open>Patches\<close>

text \<open>The fields that later statements merge into a stored payload.\<close>

definition cancel_patch :: "cancel_attribution \<Rightarrow> detail" where
  "cancel_patch a = [''cancelAttribution'' \<mapsto> attribution_json a]"

definition follow_up_patch :: "string \<Rightarrow> detail" where
  "follow_up_patch ev = [''pushFollowUp'' \<mapsto> JObj [(''webhookEventId'', JStr ev)]]"

lemma cancelled_payload_read:
  assumes "attribution_ok a"
  shows "parse_review_payload d = Some p \<Longrightarrow> parse_review_payload (d ++ cancel_patch a) = Some (p\<lparr>vp_cancel := Some a\<rparr>)"
    and "parse_triage_payload d = Some t \<Longrightarrow> parse_triage_payload (d ++ cancel_patch a) = Some (t\<lparr>tp_cancel := Some a\<rparr>)"
  using assms
  by (auto simp: parse_review_payload_def parse_triage_payload_def cancel_patch_def bind_eq_Some_conv optional_def
      payload_simps normalize_stale_head_replacement_def)

lemma follow_up_payload_read:
  assumes "1 \<le> js_length ev" and "parse_review_payload d = Some p"
  shows "parse_review_payload (d ++ follow_up_patch ev) =
     Some (p\<lparr>vp_follow_up := Some \<lparr>pf_event = ev, pf_item = None, pf_state = None\<rparr>\<rparr>)"
  using assms
  by (auto simp: parse_review_payload_def follow_up_patch_def bind_eq_Some_conv optional_def parse_follow_up_def required_def
      optional_field_def nonempty_string_iff normalize_stale_head_replacement_def)

declare map_of_append [simp]

end
