(* ===== verification/Slash_Commands.thy ===== *)
theory Slash_Commands
  imports Publish_Resume
begin

text \<open>
  The commands in comments: \<^verbatim>\<open>src/commands/parseSlashCommand.ts\<close>, \<^verbatim>\<open>src/commands/parseAskQuestion.ts\<close>,
  \<^verbatim>\<open>sanitizeGithubLogin\<close> of \<^verbatim>\<open>src/settings/reviewConstants.ts\<close> and
  \<^verbatim>\<open>clampStoredCommentText\<close> of \<^verbatim>\<open>src/agentWork/intake/slashIntake.ts\<close>.

  Text is UTF-8; a cut through a surrogate pair leaves the bytes that UTF-8 would give to the half. The lemmas show
  that logins are never empty and that text cut between the halves of a surrogate pair ends in a half that the
  database refuses.
\<close>

subsection \<open>Slash commands\<close>

definition first_non_empty_line :: "string \<Rightarrow> string" where
  "first_non_empty_line s = (case find (\<lambda>l. \<not> all_space 0 l) (text_lines s) of None \<Rightarrow> [] | Some l \<Rightarrow> l)"

definition ends_word :: "string \<Rightarrow> bool" where
  "ends_word s \<longleftrightarrow> s = [] \<or> 0 < space_len s"

definition command_char :: "char \<Rightarrow> bool" where
  "command_char c \<longleftrightarrow> 97 \<le> byte c \<and> byte c \<le> 122 \<or> 48 \<le> byte c \<and> byte c \<le> 57 \<or> c = CHR ''-''"

definition parse_slash_command :: "string \<Rightarrow> string option" where
  "parse_slash_command body = (case first_non_empty_line body of
      [] \<Rightarrow> None
    | c # s \<Rightarrow>
        let name = takeWhile command_char s
        in if c = CHR ''/'' \<and> name \<noteq> [] \<and> ends_word (dropWhile command_char s) then Some name else None)"

text \<open>What follows \<open>/command word\<close>: \<^verbatim>\<open>^\/command\s+word(?:\s|$)\<close>.\<close>

definition after_subcommand :: "string \<Rightarrow> string \<Rightarrow> string \<Rightarrow> string option" where
  "after_subcommand command word line = (case expect (CHR ''/'' # command) line of
      None \<Rightarrow> None
    | Some r \<Rightarrow> if space_len r = 0 then None
        else (case expect word (trim_start r) of
            None \<Rightarrow> None
          | Some t \<Rightarrow> if ends_word t then Some t else None))"

definition is_review_force_command :: "string \<Rightarrow> bool" where
  "is_review_force_command body \<longleftrightarrow> after_subcommand ''review'' ''force'' (first_non_empty_line body) \<noteq> None"

datatype triage_invalid = UnknownSubcommand | InvalidExclude

datatype triage_command = TriageApply | TriagePreviewRun | TriageBulk "int list" | TriageInvalid triage_invalid

function split_tokens :: "string \<Rightarrow> string list" where
  "split_tokens [] = [[]]"
| "split_tokens (c # s) =
     (if c = CHR '','' then [] # split_tokens s
      else if 0 < space_len (c # s) then [] # split_tokens (drop (space_len (c # s) - 1) s)
      else (case split_tokens s of [] \<Rightarrow> [[c]] | t # ts \<Rightarrow> (c # t) # ts))"
  by pat_completeness auto
termination by (relation "measure length") auto

definition digit :: "char \<Rightarrow> bool" where
  "digit c \<longleftrightarrow> 48 \<le> byte c \<and> byte c \<le> 57"

definition digits_value :: "string \<Rightarrow> int" where
  "digits_value s = foldl (\<lambda>n c. 10 * n + (int (byte c) - 48)) 0 s"

definition thread_token :: "string \<Rightarrow> int option" where
  "thread_token t =
     (if t \<noteq> [] \<and> hd t \<noteq> CHR ''0'' \<and> list_all digit t \<and> digits_value t \<le> 9007199254740991 then Some (digits_value t) else None)"

definition parse_triage_bulk_command :: "string \<Rightarrow> triage_command" where
  "parse_triage_bulk_command rest0 =
     (let rest = js_trim rest0
      in if rest = [] then TriageBulk []
         else case expect ''exclude'' rest of
             None \<Rightarrow> TriageInvalid UnknownSubcommand
           | Some r \<Rightarrow>
               if r \<noteq> [] \<and> hd r \<noteq> CHR '' '' \<and> byte (hd r) \<noteq> 9 then TriageInvalid UnknownSubcommand
               else if js_trim r = [] then TriageInvalid InvalidExclude
               else (case those (map thread_token (filter (\<lambda>t. t \<noteq> []) (split_tokens (js_trim r)))) of
                   None \<Rightarrow> TriageInvalid InvalidExclude
                 | Some ids \<Rightarrow> if ids = [] then TriageInvalid InvalidExclude else TriageBulk ids))"

definition parse_triage_command :: "string \<Rightarrow> triage_command option" where
  "parse_triage_command body =
     (let first = first_non_empty_line body
      in if parse_slash_command body \<noteq> Some ''triage'' then None
         else if after_subcommand ''triage'' ''preview'' first \<noteq> None then Some TriagePreviewRun
         else case after_subcommand ''triage'' ''all'' first of
             Some r \<Rightarrow> Some (parse_triage_bulk_command r)
           | None \<Rightarrow> if js_trim (drop 7 first) = [] then Some TriageApply else Some (TriageInvalid UnknownSubcommand))"

subsection \<open>Questions\<close>

definition max_ask_question_chars :: nat where "max_ask_question_chars = 8192"

datatype ask_question = AskOk string | AskNot | AskMissing | AskTooLong

definition quoted_by :: "char \<Rightarrow> string \<Rightarrow> bool" where
  "quoted_by q s \<longleftrightarrow> s \<noteq> [] \<and> hd s = q \<and> last s = q"

definition ask_rest_from_body :: "string \<Rightarrow> string option" where
  "ask_rest_from_body body = (case expect ''/ask'' (first_non_empty_line body) of
      None \<Rightarrow> None
    | Some r \<Rightarrow> if \<not> ends_word r then None
        else let rest = js_trim r
          in Some (if quoted_by (CHR 0x22) rest \<or> quoted_by (CHR 0x27) rest then js_trim (butlast (tl rest)) else rest))"

definition checked_question :: "string \<Rightarrow> ask_question" where
  "checked_question q = (if js_length q = 0 then AskMissing else if max_ask_question_chars < js_length q then AskTooLong else AskOk q)"

definition parse_ask_question_result :: "string \<Rightarrow> ask_question" where
  "parse_ask_question_result body = (case ask_rest_from_body body of None \<Rightarrow> AskNot | Some rest \<Rightarrow> checked_question rest)"

text \<open>\<open>mention\<close> answers the comment without the mentions of a login, when it has any.\<close>

definition parse_mention_ask_question :: "(string \<Rightarrow> string \<Rightarrow> string option) \<Rightarrow> string \<Rightarrow> string \<Rightarrow> ask_question" where
  "parse_mention_ask_question mention body login = (case mention body login of None \<Rightarrow> AskNot | Some q \<Rightarrow> checked_question q)"

definition parse_ask_question :: "(string \<Rightarrow> string \<Rightarrow> string option) \<Rightarrow> string \<Rightarrow> string option \<Rightarrow> ask_question" where
  "parse_ask_question mention body login =
     (let result = parse_ask_question_result body
      in if result \<noteq> AskNot then result
         else case login of None \<Rightarrow> result | Some b \<Rightarrow> if b = [] then result else parse_mention_ask_question mention body b)"

subsection \<open>Stored text\<close>

definition login_char :: "char \<Rightarrow> bool" where
  "login_char c \<longleftrightarrow> digit c \<or> 65 \<le> byte c \<and> byte c \<le> 90 \<or> 97 \<le> byte c \<and> byte c \<le> 122"

definition sanitize_github_login :: "string \<Rightarrow> string" where
  "sanitize_github_login login =
     (let t = dropWhile (\<lambda>c. c = CHR ''@'') (js_trim login)
      in if t \<noteq> [] \<and> length t \<le> 39 \<and> login_char (hd t) \<and> login_char (last t) \<and> list_all (\<lambda>c. login_char c \<or> c = CHR ''-'') t
         then t else ''user'')"

definition max_stored_comment_text_len :: nat where "max_stored_comment_text_len = 16384"

text \<open>The leading half of the surrogate pair of a character outside the basic plane, as three bytes.\<close>

fun high_half :: "string \<Rightarrow> string" where
  "high_half (a # b # c # s) =
     (let high = 0xD800 + ((byte a mod 8) * 262144 + (byte b mod 64) * 4096 + (byte c mod 64) * 64 - 0x10000) div 1024
      in [CHR 0xED, char_of (0x80 + high div 64 mod 64), char_of (0x80 + high mod 64)])"
| "high_half _ = []"

text \<open>\<^verbatim>\<open>slice(0, n)\<close>, in UTF-16 code units.\<close>

fun js_take :: "nat \<Rightarrow> string \<Rightarrow> string" where
  "js_take n [] = []"
| "js_take n (c # s) =
     (if utf16_units c \<le> n then c # js_take (n - utf16_units c) s
      else if n = 1 then high_half (c # s) else [])"

definition clamp_stored_comment_text :: "string \<Rightarrow> string" where
  "clamp_stored_comment_text text = js_take max_stored_comment_text_len (filter (\<lambda>c. byte c \<noteq> 0) text)"

text \<open>What PostgreSQL accepts in a \<^verbatim>\<open>jsonb\<close> string: no NUL and no half of a surrogate pair.\<close>

fun storable_text :: "string \<Rightarrow> bool" where
  "storable_text [] \<longleftrightarrow> True"
| "storable_text [c] \<longleftrightarrow> byte c \<noteq> 0"
| "storable_text (c # d # s) \<longleftrightarrow> byte c \<noteq> 0 \<and> \<not> (byte c = 0xED \<and> 0xA0 \<le> byte d) \<and> storable_text (d # s)"

fun storable :: "json \<Rightarrow> bool" where
  "storable (JStr s) \<longleftrightarrow> storable_text s"
| "storable (JArr xs) \<longleftrightarrow> list_all storable xs"
| "storable (JObj fs) \<longleftrightarrow> list_all (\<lambda>(k, v). storable v) fs"
| "storable _ \<longleftrightarrow> True"

subsection \<open>What is stored\<close>

lemma js_take_append: "js_take (js_length s + n) (s @ t) = s @ js_take n t"
  by (induction s) (simp_all add: js_length_def)

lemma storable_append: "storable_text (s @ c # d # t) \<Longrightarrow> \<not> (byte c = 0xED \<and> 0xA0 \<le> byte d)"
proof (induction s)
  case (Cons x s)
  then show ?case by (cases s) auto
qed simp

lemma low_bits:
  assumes "x < 16"
  shows "(864 + x) mod 64 = 32 + (x::nat)"
proof -
  have "(864 + x) mod 64 = (864 mod 64 + x) mod 64" by (simp only: mod_add_left_eq)
  also have "864 mod 64 + x = 32 + x" by simp
  finally show ?thesis using assms by (simp only: mod_less)
qed

lemma upper_half:
  assumes "n < 1048576"
  shows "(0xD800 + n div 1024) div 64 mod 64 = 32 + n div (65536::nat)"
proof -
  have "(0xD800 + n div 1024) div 64 = 864 + n div 1024 div 64" by simp
  also have "\<dots> = 864 + n div 65536" by (simp flip: div_mult2_eq)
  finally have split: "(0xD800 + n div 1024) div 64 = 864 + n div 65536" .
  have "n div 65536 < 16" using assms by (simp add: less_mult_imp_div_less)
  then show ?thesis unfolding split by (rule low_bits)
qed

lemma supplementary_offset:
  assumes "240 \<le> a" "a < 245" "a = 244 \<longrightarrow> b < 144" "128 \<le> b" "b < (192::nat)"
  shows "(a mod 8) * 262144 + (b mod 64) * 4096 + (c mod 64) * 64 - 0x10000 < (1048576::nat)"
proof -
  have "a \<in> {240, 241, 242, 243, 244}" using assms(1,2) by auto
  then have "a mod 8 < 4 \<or> a mod 8 = 4 \<and> b < 144" using assms(3) by auto
  moreover have "b mod 64 = b - 128" using assms(4,5) by (simp add: le_mod_geq)
  moreover have "c mod 64 < 64" by simp
  ultimately show ?thesis using assms(4,5) by auto
qed

lemma high_half_is_surrogate:
  assumes "utf8_char (map byte [a, b, c, d])"
  obtains e f where "high_half (a # b # c # d # s) = [CHR 0xED, e, f]" "0xA0 \<le> byte e"
proof -
  let ?n = "(byte a mod 8) * 262144 + (byte b mod 64) * 4096 + (byte c mod 64) * 64 - 0x10000 :: nat"
  have small: "?n < 1048576"
    using assms by (intro supplementary_offset) auto
  have "?n div 65536 < 16" using small by (simp add: less_mult_imp_div_less)
  then have "byte (char_of (0x80 + (0xD800 + ?n div 1024) div 64 mod 64) :: char) = 160 + ?n div 65536"
    unfolding upper_half [OF small] by simp
  then have "0xA0 \<le> byte (char_of (0x80 + (0xD800 + ?n div 1024) div 64 mod 64) :: char)"
    by (rule ssubst) (rule le_add1)
  then show thesis by (intro that) (simp_all only: high_half.simps Let_def)
qed

text \<open>A cut between the halves of a surrogate pair leaves text that PostgreSQL refuses.\<close>

lemma split_pair_not_storable:
  assumes "utf8_char (map byte [a, b, c, d])" and "js_length s + 1 = n"
  shows "\<not> storable_text (js_take n (s @ a # b # c # d # t))"
proof -
  have "utf16_units a = 2" using assms(1) by (auto simp: utf16_units_def)
  then have cut: "js_take n (s @ a # b # c # d # t) = s @ high_half (a # b # c # d # t)"
    using js_take_append [of s 1 "a # b # c # d # t"] assms(2) by (simp del: high_half.simps)
  obtain e f where half: "high_half (a # b # c # d # t) = [CHR 0xED, e, f]" "0xA0 \<le> byte e"
    by (rule high_half_is_surrogate [OF assms(1)])
  have "\<not> storable_text (s @ CHR 0xED # e # [f])"
    using storable_append [of s "CHR 0xED" e "[f]"] half(2) by auto
  then show ?thesis unfolding cut half(1) .
qed

lemma sanitized_login_nonempty: "sanitize_github_login l \<noteq> []"
  by (auto simp: sanitize_github_login_def Let_def)

end
