(* ===== verification/Intake_Store.thy ===== *)
theory Intake_Store
  imports Work_Payload Slash_Commands Operation_Keys Head_Ci Ask_Rate
begin

text \<open>
  The tables that intake writes and its statements: \<^verbatim>\<open>src/agentWork/intake/workItemRepository.ts\<close>,
  \<^verbatim>\<open>src/agentWork/intake/queueing.ts\<close>, \<^verbatim>\<open>src/agentWork/intake/reviewApprovals.ts\<close>,
  \<^verbatim>\<open>src/agentWork/autoWorkEnqueue.ts\<close> and \<^verbatim>\<open>insertWebhookEvent\<close> of
  \<^verbatim>\<open>src/agentWork/intake/delivery.ts\<close>.

  A delivery is one transaction. Before each of its statements the schedule of the run may commit what other
  sessions did, and a statement may fail. Random identifiers are a sequence that the run consumes. The queue service
  is a parameter; its jobs are sent on the connection of the transaction, so they are rolled back with it. Foreign
  keys are not modelled. Advisory locks order the sessions and are no statements here: what they exclude is a
  hypothesis about the schedule where a property needs it.
\<close>

subsection \<open>The tables\<close>

record pr_ref =
  rf_owner :: string
  rf_repo :: string
  rf_pr :: nat
  rf_installation :: int
  rf_head :: string
  rf_size :: "int option"

definition ref_key :: "pr_ref \<Rightarrow> string" where
  "ref_key ref = resource_key_of_pr (rf_owner ref) (rf_repo ref) (rf_pr ref)"

definition installation_group_id :: "int \<Rightarrow> string" where
  "installation_group_id n = int_text n"

record webhook_event =
  we_id :: string
  we_dedupe :: string
  we_delivery :: "string option"
  we_name :: string
  we_sha :: string
  we_decision :: string
  we_processed :: time

record webhook_replay =
  rp_sha :: string
  rp_event :: string

datatype dedupe_reason = DeliveryKey | BodyKey | BodyReplay

record webhook_duplicate =
  du_id :: string
  du_delivery :: "string option"
  du_name :: string
  du_sha :: string
  du_key :: string
  du_reason :: dedupe_reason

datatype pr_lifecycle = LifeOpen | LifeClosed | LifeMerged

record lifecycle_observation =
  lo_state :: pr_lifecycle
  lo_observed :: time

record lifecycle_row =
  lc_key :: string
  lc_state :: pr_lifecycle
  lc_observed :: time
  lc_event :: string
  lc_updated :: time

datatype approval_state = Awaiting | Approved | Withdrawn

datatype approval_source = ByWorkflowRun | ByPullRequestReview | BySlash

record approval_row =
  aw_key :: string
  aw_owner :: string
  aw_repo :: string
  aw_pr :: nat
  aw_head :: string
  aw_state :: approval_state
  aw_by :: "approval_source option"
  aw_event :: string
  aw_workflow_admits :: bool
  aw_updated :: time

text \<open>The columns of a work item that the record \<open>work_item\<close> leaves out, and the other tables of intake.\<close>

record intake_db =
  in_ci :: ci_db
  in_event_of :: "item_id \<Rightarrow> string option"
  in_priority :: "item_id \<Rightarrow> int"
  in_superseded_by :: "item_id \<Rightarrow> item_id option"
  in_events :: "webhook_event list"
  in_replays :: "webhook_replay list"
  in_duplicates :: "webhook_duplicate list"
  in_lifecycle :: "lifecycle_row list"
  in_approvals :: "approval_row list"
  in_quota :: quota_db

abbreviation in_items :: "intake_db \<Rightarrow> work_item list" where
  "in_items d \<equiv> items (cdb (in_ci d))"

definition with_db :: "(db \<Rightarrow> db) \<Rightarrow> intake_db \<Rightarrow> intake_db" where
  "with_db f d = d\<lparr>in_ci := (in_ci d)\<lparr>cdb := f (cdb (in_ci d))\<rparr>\<rparr>"

definition in_clock :: "intake_db \<Rightarrow> time" where
  "in_clock d = now (cdb (in_ci d))"

subsection \<open>Jobs\<close>

record job_correlation =
  co_event :: "string option"
  co_delivery :: "string option"

record progress_note =
  pn_head :: string
  pn_source :: work_source

record cancel_note =
  cn_item :: item_id
  cn_items :: "item_id list"
  cn_attribution :: cancel_attribution

record cancel_triage_note =
  ct_item :: item_id
  ct_items :: "item_id list"
  ct_attribution :: cancel_attribution
  ct_targets :: "ack_target list"
  ct_reply :: reply_target

record ack_job =
  ak_item :: "item_id option"
  ak_ref :: pr_ref
  ak_targets :: "ack_target list"
  ak_awaiting :: bool
  ak_maintainer_only :: bool
  ak_closed_approval :: "cancel_attribution option"
  ak_progress :: "progress_note option"
  ak_cancel :: "cancel_note option"
  ak_cancel_triage :: "cancel_triage_note option"
  ak_reply :: "(reply_target \<times> string) option"
  ak_commenter :: "int option"
  ak_correlation :: job_correlation

datatype job_data =
    AckData ack_job
  | WorkData work_type item_id job_correlation
  | ProjectionData int string string string job_correlation "job_correlation list"

record job_request =
  jr_queue :: string
  jr_data :: job_data
  jr_id :: "string option"
  jr_priority :: "int option"
  jr_group :: string

text \<open>
  The queue service: \<open>send\<close>, \<open>sendDebounced\<close> with its window and key, and the statement of
  \<open>mergeCiProjectionCorrelations\<close> on the table of the service, which answers the number of changed rows.
\<close>

record job_service =
  bs_send :: "job_request \<Rightarrow> (intake_db, string option) prog"
  bs_debounced :: "job_request \<Rightarrow> int \<Rightarrow> string \<Rightarrow> (intake_db, string option) prog"
  bs_merge :: "job_request \<Rightarrow> int \<Rightarrow> string \<Rightarrow> (intake_db, nat) prog"

subsection \<open>A run\<close>

record intake_move =
  im_commit :: "intake_db \<Rightarrow> intake_db"
  im_fault :: "js_error option"

datatype change_status = ChangeSuperseded | ChangeCancelled | ChangeCancelRequested

datatype change_reason = AutoReplacement | ReviewForce | SlashCancel | PrClosed | PrMerged

record lifecycle_change =
  lg_item :: item_id
  lg_head :: string
  lg_source :: work_source
  lg_type :: work_type
  lg_status :: change_status

datatype intake_event =
    IntakeEvent string "item_id list"
  | WorkLifecycle lifecycle_change change_reason
  | CiStateChanged head_key ci_rollup ci_rollup int

record intake_run =
  ir_db :: intake_db
  ir_moves :: "intake_move list"
  ir_uuids :: nat
  ir_events :: "intake_event list"

definition query :: "(intake_db, 'a) prog \<Rightarrow> (intake_run, 'a) prog" where
  "query m s = (case ir_moves s of
      [] \<Rightarrow> (case m (ir_db s) of (r, d) \<Rightarrow> (r, s\<lparr>ir_db := d\<rparr>))
    | mv # mvs \<Rightarrow>
        let s1 = s\<lparr>ir_db := im_commit mv (ir_db s), ir_moves := mvs\<rparr>
        in (case im_fault mv of
              Some e \<Rightarrow> (Inl e, s1)
            | None \<Rightarrow> (case m (ir_db s1) of (r, d) \<Rightarrow> (r, s1\<lparr>ir_db := d\<rparr>))))"

abbreviation ask_db :: "(intake_db \<Rightarrow> 'a) \<Rightarrow> (intake_run, 'a) prog" where
  "ask_db f \<equiv> query (readP f)"

abbreviation run_statement :: "(intake_db \<Rightarrow> 'a \<times> intake_db) \<Rightarrow> (intake_run, 'a) prog" where
  "run_statement f \<equiv> query (stepP f)"

text \<open>A statement on the tables of the executions.\<close>

definition item_statement :: "(db \<Rightarrow> 'a \<times> db) \<Rightarrow> intake_db \<Rightarrow> 'a \<times> intake_db" where
  "item_statement f d = (fst (f (cdb (in_ci d))), with_db (\<lambda>_. snd (f (cdb (in_ci d)))) d)"

definition random_uuid :: "(nat \<Rightarrow> string) \<Rightarrow> (intake_run, string) prog" where
  "random_uuid uuid = stepP (\<lambda>s. (uuid (ir_uuids s), s\<lparr>ir_uuids := ir_uuids s + 1\<rparr>))"

definition announce :: "intake_event list \<Rightarrow> (intake_run, unit) prog" where
  "announce evs = stepP (\<lambda>s. ((), s\<lparr>ir_events := ir_events s @ evs\<rparr>))"

primrec each :: "('a \<Rightarrow> ('s, 'b) prog) \<Rightarrow> 'a list \<Rightarrow> ('s, 'b list) prog" where
  "each f [] = returnP []"
| "each f (x # xs) = bindP (f x) (\<lambda>y. bindP (each f xs) (\<lambda>ys. returnP (y # ys)))"

subsection \<open>The lifecycle of a pull request\<close>

definition lifecycle_at :: "string \<Rightarrow> intake_db \<Rightarrow> lifecycle_row option" where
  "lifecycle_at key d = row_at lc_key key (in_lifecycle d)"

definition load_review_lifecycle :: "string \<Rightarrow> intake_db \<Rightarrow> pr_lifecycle option" where
  "load_review_lifecycle key d = map_option lc_state (lifecycle_at key d)"

text \<open>Merged is final; of two observations of one instant the further one wins.\<close>

definition supersedes :: "lifecycle_observation \<Rightarrow> lifecycle_row \<Rightarrow> bool" where
  "supersedes ob row \<longleftrightarrow> lc_state row \<noteq> LifeMerged \<and>
     (lc_observed row < lo_observed ob \<or> lo_observed ob = lc_observed row \<and>
       (lo_state ob = LifeMerged \<or> lo_state ob = LifeClosed \<and> lc_state row = LifeOpen))"

definition review_lifecycle_observation_accepted :: "string \<Rightarrow> lifecycle_observation \<Rightarrow> intake_db \<Rightarrow> bool" where
  "review_lifecycle_observation_accepted key ob d \<longleftrightarrow>
     \<not> exists_where (\<lambda>row. lc_key row = key \<and> \<not> supersedes ob row) (in_lifecycle d)"

definition record_review_lifecycle_observation ::
  "string \<Rightarrow> lifecycle_observation \<Rightarrow> string \<Rightarrow> intake_db \<Rightarrow> bool \<times> intake_db" where
  "record_review_lifecycle_observation key ob ev d =
     (let new = \<lparr>lc_key = key, lc_state = lo_state ob, lc_observed = lo_observed ob, lc_event = ev, lc_updated = in_clock d\<rparr>;
          (row, rows) = upsert lc_key new (supersedes ob)
            (\<lambda>old. old\<lparr>lc_state := lo_state ob, lc_observed := lo_observed ob, lc_event := ev, lc_updated := in_clock d\<rparr>) (in_lifecycle d)
      in (row \<noteq> None, d\<lparr>in_lifecycle := rows\<rparr>))"

subsection \<open>Inserting work items\<close>

record new_item =
  ni_id :: item_id
  ni_event :: string
  ni_type :: work_type
  ni_source :: work_source
  ni_ref :: pr_ref
  ni_lens :: "string option"
  ni_priority :: int
  ni_payload :: fields

datatype insert_conflict = ConflictNone | ConflictSlashActive | ConflictSlashVerification | ConflictAskWebhook

definition active_status :: "work_status \<Rightarrow> bool" where
  "active_status st \<longleftrightarrow> st = Queued \<or> st = Running"

text \<open>The predicates of the partial unique indexes.\<close>

definition in_slash_index :: "work_type list \<Rightarrow> work_item \<Rightarrow> bool" where
  "in_slash_index types w \<longleftrightarrow> w_source w = Slash \<and> w_type w \<in> set types \<and> active_status (w_status w) \<and>
     text_of (w_payload w ''staleHeadRescheduled'') \<noteq> Some ''true''"

definition slash_active_types :: "work_type list" where
  "slash_active_types = [Review, Description, Triage]"

definition slash_index_key :: "work_item \<Rightarrow> string \<times> work_type \<times> string option" where
  "slash_index_key w = (w_resource_key w, w_type w, w_review_lens w)"

definition inserted_item :: "new_item \<Rightarrow> time \<Rightarrow> work_item" where
  "inserted_item n t = \<lparr>w_id = ni_id n, w_type = ni_type n, w_source = ni_source n, w_status = Queued,
     w_head_sha = rf_head (ni_ref n), w_review_lens = ni_lens n, w_resource_key = ref_key (ni_ref n), w_attempt_count = 0,
     w_payload = map_of (ni_payload n), w_cancel_requested_at = None, w_execution_epoch = 0, w_last_error = None,
     w_created_at = t, w_started_at = None, w_completed_at = None, w_updated_at = t\<rparr>"

definition scope_of_ref :: "pr_ref \<Rightarrow> item_scope" where
  "scope_of_ref ref = \<lparr>is_owner = rf_owner ref, is_repo = rf_repo ref, is_pr = int (rf_pr ref), is_installation = rf_installation ref\<rparr>"

definition unique_violation :: js_error where
  "unique_violation = ForeignError \<lparr>fe_status = None, fe_not_accepted = False, fe_response = None, fe_code = Some ''23505''\<rparr>"

definition append_item :: "new_item \<Rightarrow> (intake_db, item_id) prog" where
  "append_item n d =
     (if exists_where (\<lambda>w. w_id w = ni_id n) (in_items d) then (Inl unique_violation, d)
      else let d' = with_db (\<lambda>x. x\<lparr>items := items x @ [inserted_item n (now x)]\<rparr>) d
        in (Inr (ni_id n), d'\<lparr>in_ci := (in_ci d')\<lparr>cd_scope := (cd_scope (in_ci d))(ni_id n := scope_of_ref (ni_ref n))\<rparr>,
          in_event_of := (in_event_of d)(ni_id n := Some (ni_event n)),
          in_priority := (in_priority d)(ni_id n := ni_priority n),
          in_superseded_by := (in_superseded_by d)(ni_id n := None)\<rparr>))"

text \<open>A conflicting row is locked by an update that changes nothing, and answered.\<close>

definition insert_on_slash_active_conflict :: "work_type list \<Rightarrow> new_item \<Rightarrow> (intake_db, bool \<times> item_id) prog" where
  "insert_on_slash_active_conflict types n d =
     (case find (\<lambda>w. in_slash_index types w \<and> slash_index_key w = slash_index_key (inserted_item n 0)) (in_items d) of
        Some w \<Rightarrow> (Inr (w_id w = ni_id n, w_id w), d)
      | None \<Rightarrow> (case append_item n d of (Inl e, d') \<Rightarrow> (Inl e, d') | (Inr i, d') \<Rightarrow> (Inr (True, i), d')))"

definition ask_of_event :: "string \<Rightarrow> intake_db \<Rightarrow> work_item option" where
  "ask_of_event ev d = find (\<lambda>w. w_type w = Ask \<and> in_event_of d (w_id w) = Some ev) (in_items d)"

text \<open>\<^verbatim>\<open>ON CONFLICT DO NOTHING\<close> answers no row; the row of the conflict is then read.\<close>

definition insert_ask_item :: "new_item \<Rightarrow> (intake_db, bool \<times> item_id) prog" where
  "insert_ask_item n =
     bindP (\<lambda>d. if ask_of_event (ni_event n) d \<noteq> None then (Inr None, d) else bindP (append_item n) (\<lambda>i. returnP (Some i)) d)
       (\<lambda>created. case created of
           Some i \<Rightarrow> returnP (True, i)
         | None \<Rightarrow> bindP (readP (ask_of_event (ni_event n))) (\<lambda>existing. case existing of
               Some w \<Rightarrow> returnP (False, w_id w)
             | None \<Rightarrow> throwP (AppError ''agent_work'' ''ask_conflict_no_row'' [])))"

text \<open>
  The payload travels as JSON text and is read as \<^verbatim>\<open>jsonb\<close> before anything is inserted. \<^verbatim>\<open>JSON.stringify\<close>
  writes the half of a surrogate pair as an escape, and the database refuses it.
\<close>

definition invalid_jsonb :: js_error where
  "invalid_jsonb = ForeignError \<lparr>fe_status = None, fe_not_accepted = False, fe_response = None, fe_code = Some ''22P02''\<rparr>"

definition insert_agent_work_item :: "insert_conflict \<Rightarrow> new_item \<Rightarrow> (intake_db, bool \<times> item_id) prog" where
  "insert_agent_work_item conflict n =
     (if \<not> storable (JObj (ni_payload n)) then throwP invalid_jsonb
      else case conflict of
          ConflictNone \<Rightarrow> bindP (append_item n) (\<lambda>i. returnP (True, i))
        | ConflictSlashActive \<Rightarrow> insert_on_slash_active_conflict slash_active_types n
        | ConflictSlashVerification \<Rightarrow> insert_on_slash_active_conflict [Verification] n
        | ConflictAskWebhook \<Rightarrow> insert_ask_item n)"

subsection \<open>Creating work items\<close>

definition deferred_ref :: "pr_ref \<Rightarrow> pr_ref" where
  "deferred_ref ref = ref\<lparr>rf_head := deferred_head_sha\<rparr>"

definition transfer_progress :: "string \<Rightarrow> item_id \<Rightarrow> string \<Rightarrow> intake_db \<Rightarrow> unit \<times> intake_db" where
  "transfer_progress u i key d = ((), snd (item_statement (transfer_progress_comment_ownership u i key ''review'') d))"

definition create_review_work_item ::
  "(nat \<Rightarrow> string) \<Rightarrow> string \<Rightarrow> pr_ref \<Rightarrow> work_source \<Rightarrow> int option \<Rightarrow> string option \<Rightarrow> int option \<Rightarrow> ack_target list option \<Rightarrow>
   (intake_run, bool \<times> item_id) prog" where
  "create_review_work_item uuid ev ref src priority supplement commenter acks =
     bindP (random_uuid uuid) (\<lambda>i.
       let new = \<lparr>ni_id = i, ni_event = ev, ni_type = Review, ni_source = src, ni_ref = ref, ni_lens = Some ''review'',
                  ni_priority = (case priority of None \<Rightarrow> 0 | Some p \<Rightarrow> p),
                  ni_payload = review_payload_fields src (rf_size ref) supplement commenter acks\<rparr>
       in bindP (query (insert_agent_work_item (if src = Slash then ConflictSlashActive else ConflictNone) new)) (\<lambda>(created, j).
            if \<not> created then returnP (created, j)
            else bindP (random_uuid uuid) (\<lambda>u. thenP (run_statement (transfer_progress u j (ref_key ref))) (returnP (created, j)))))"

definition create_description_work_item ::
  "(nat \<Rightarrow> string) \<Rightarrow> string \<Rightarrow> pr_ref \<Rightarrow> work_source \<Rightarrow> string option \<Rightarrow> int option \<Rightarrow> ack_target list option \<Rightarrow>
   (intake_run, bool \<times> item_id) prog" where
  "create_description_work_item uuid ev ref src supplement commenter acks =
     bindP (random_uuid uuid) (\<lambda>i.
       query (insert_agent_work_item (if src = Slash then ConflictSlashActive else ConflictNone)
         \<lparr>ni_id = i, ni_event = ev, ni_type = Description, ni_source = src, ni_ref = ref, ni_lens = None,
          ni_priority = (if src = Slash then 50 else 0),
          ni_payload = description_payload_fields src (rf_size ref) supplement commenter acks\<rparr>))"

definition create_triage_work_item ::
  "(nat \<Rightarrow> string) \<Rightarrow> string \<Rightarrow> pr_ref \<Rightarrow> triage_request \<Rightarrow> (intake_run, bool \<times> item_id) prog" where
  "create_triage_work_item uuid ev ref q =
     bindP (random_uuid uuid) (\<lambda>i.
       query (insert_agent_work_item ConflictSlashActive
         \<lparr>ni_id = i, ni_event = ev, ni_type = Triage, ni_source = Slash, ni_ref = ref, ni_lens = None, ni_priority = 50,
          ni_payload = triage_payload_fields (rf_size ref) q\<rparr>))"

definition create_verification_work_item ::
  "(nat \<Rightarrow> string) \<Rightarrow> string \<Rightarrow> pr_ref \<Rightarrow> work_source \<Rightarrow> string option \<Rightarrow> ack_target list option \<Rightarrow>
   (intake_run, bool \<times> item_id) prog" where
  "create_verification_work_item uuid ev ref src before acks =
     bindP (random_uuid uuid) (\<lambda>i.
       query (insert_agent_work_item (if src = Slash then ConflictSlashVerification else ConflictNone)
         \<lparr>ni_id = i, ni_event = ev, ni_type = Verification, ni_source = src, ni_ref = ref, ni_lens = None,
          ni_priority = (if src = Slash then 50 else 0),
          ni_payload = verification_payload_fields src (rf_size ref) before acks\<rparr>))"

record ask_input =
  ai_event :: string
  ai_ref :: pr_ref
  ai_question :: string
  ai_reply :: reply_target
  ai_comment :: int
  ai_commenter :: int
  ai_anchor :: "code_anchor option"
  ai_acks :: "ack_target list option"

definition create_ask_work_item :: "item_id \<Rightarrow> ask_input \<Rightarrow> (intake_db, bool \<times> item_id) prog" where
  "create_ask_work_item i a = insert_agent_work_item ConflictAskWebhook
     \<lparr>ni_id = i, ni_event = ai_event a, ni_type = Ask, ni_source = Slash, ni_ref = ai_ref a, ni_lens = None, ni_priority = 50,
      ni_payload = ask_payload_fields (ai_question a) (ai_reply a) (rf_size (ai_ref a)) (ai_comment a) (ai_commenter a)
        (ai_anchor a) (ai_acks a)\<rparr>"

definition fetch_active_verification_work_item :: "string \<Rightarrow> intake_db \<Rightarrow> item_id option" where
  "fetch_active_verification_work_item key d = map_option w_id
     (find (\<lambda>w. w_resource_key w = key \<and> w_type w = Verification \<and> active_status (w_status w)) (in_items d))"

definition fetch_active_triage_work_item :: "string \<Rightarrow> item_id \<Rightarrow> intake_db \<Rightarrow> js_error + (item_id \<times> triage_payload) option" where
  "fetch_active_triage_work_item key i d =
     (case find (\<lambda>w. w_resource_key w = key \<and> w_id w = i \<and> w_type w = Triage \<and> in_slash_index slash_active_types w) (in_items d) of
        None \<Rightarrow> Inr None
      | Some w \<Rightarrow> map_sum id (\<lambda>p. Some (w_id w, p)) (parse_with_schema Triage (parse_triage_payload (w_payload w))))"

subsection \<open>Cancelling the active work of a pull request\<close>

definition review_cancel_last_error :: "cancel_attribution \<Rightarrow> string" where
  "review_cancel_last_error a = (case a of ByMerge \<Rightarrow> ''Pull request merged'' | ByClose \<Rightarrow> ''Pull request closed''
     | ByUser _ \<Rightarrow> ''Cancelled by slash /cancel'')"

definition review_cancel_attribution_for_closed_pr :: "bool \<Rightarrow> cancel_attribution" where
  "review_cancel_attribution_for_closed_pr merged = (if merged then ByMerge else ByClose)"

text \<open>The newest first; \<open>lc\<close> is \<^verbatim>\<open>localeCompare\<close>.\<close>

definition newer_first :: "(string \<Rightarrow> string \<Rightarrow> int) \<Rightarrow> work_item \<Rightarrow> work_item \<Rightarrow> int" where
  "newer_first lc a b =
     (if millis (w_created_at b) \<noteq> millis (w_created_at a) then millis (w_created_at b) - millis (w_created_at a)
      else lc (w_id b) (w_id a))"

definition sort_work_items_by_created_at_desc :: "(string \<Rightarrow> string \<Rightarrow> int) \<Rightarrow> work_item list \<Rightarrow> work_item list" where
  "sort_work_items_by_created_at_desc lc rows = to_sorted (newer_first lc) rows"

definition cancel_work_spec :: "string \<Rightarrow> work_type \<Rightarrow> cancel_attribution \<Rightarrow> work_status \<Rightarrow> bool \<Rightarrow> transition_spec" where
  "cancel_work_spec key t a from request =
     \<lparr>sel_id = None, sel_resource_key = Some key, sel_type = Some t, sel_review_lens = None, sel_source = None,
      t_from = [from], t_to = Cancelled, t_unless_cancel_requested = False, t_fence = Unleased, t_where = (\<lambda>_ _. True),
      t_last_error = Some (review_cancel_last_error a), t_request_cancel = request, t_payload_patch = Some (cancel_patch a),
      t_execution_epoch = None, t_keep_completed_at = False\<rparr>"

definition lease_holders :: "work_item list \<Rightarrow> (item_id \<times> int) list" where
  "lease_holders rows = filter (\<lambda>(i, e). 0 < e) (map (\<lambda>w. (w_id w, w_execution_epoch w)) rows)"

definition change_rows :: "transition_spec \<Rightarrow> intake_db \<Rightarrow> work_item list \<times> intake_db" where
  "change_rows spec d = (map snd (fst (transition spec (cdb (in_ci d)))), snd (item_statement (transition spec) d))"

definition release_held_leases :: "string \<Rightarrow> work_type \<Rightarrow> (item_id \<times> int) list \<Rightarrow> intake_db \<Rightarrow> unit \<times> intake_db" where
  "release_held_leases key t hs d = ((), with_db (release_pr_actor_lease_held_by_work_items (key, t) hs) d)"

text \<open>Queued work first, then running work; the answer names the running work first.\<close>

definition cancel_active_work ::
  "string \<Rightarrow> work_type \<Rightarrow> cancel_attribution \<Rightarrow> (intake_run, work_item list \<times> work_item list) prog" where
  "cancel_active_work key t a =
     bindP (run_statement (change_rows (cancel_work_spec key t a Queued False))) (\<lambda>queued.
       bindP (run_statement (change_rows (cancel_work_spec key t a Running True))) (\<lambda>running.
         thenP (run_statement (release_held_leases key t (lease_holders (running @ queued)))) (returnP (running, queued))))"

definition cancel_active_reviews ::
  "(string \<Rightarrow> string \<Rightarrow> int) \<Rightarrow> string \<Rightarrow> cancel_attribution \<Rightarrow> (intake_run, work_item list) prog" where
  "cancel_active_reviews lc key a = bindP (cancel_active_work key Review a) (\<lambda>(running, queued).
     returnP (sort_work_items_by_created_at_desc lc running @ sort_work_items_by_created_at_desc lc queued))"

definition triage_ack_targets :: "triage_payload \<Rightarrow> nat option \<Rightarrow> ack_target list" where
  "triage_ack_targets p pr = (case tp_acks p of
      Some (t # ts) \<Rightarrow> t # ts
    | _ \<Rightarrow> (case pr of
          None \<Rightarrow> []
        | Some n \<Rightarrow> [PrTarget (int n), (case tp_reply p of
              InlineReviewThread _ _ \<Rightarrow> ReviewCommentTarget (tp_comment p)
            | PrConversation _ \<Rightarrow> IssueCommentTarget (tp_comment p))]))"

record cancelled_triage =
  ca_row :: work_item
  ca_targets :: "ack_target list"
  ca_reply :: reply_target

definition map_cancelled_triage_row :: "nat option \<Rightarrow> work_item \<Rightarrow> (intake_run, cancelled_triage) prog" where
  "map_cancelled_triage_row pr w = (case parse_with_schema Triage (parse_triage_payload (w_payload w)) of
      Inl e \<Rightarrow> throwP e
    | Inr p \<Rightarrow> returnP \<lparr>ca_row = w, ca_targets = triage_ack_targets p pr, ca_reply = tp_reply p\<rparr>)"

definition cancel_active_triage ::
  "(string \<Rightarrow> string \<Rightarrow> int) \<Rightarrow> string \<Rightarrow> cancel_attribution \<Rightarrow> nat option \<Rightarrow> (intake_run, cancelled_triage list) prog" where
  "cancel_active_triage lc key a pr = bindP (cancel_active_work key Triage a) (\<lambda>(running, queued).
     bindP (each (map_cancelled_triage_row pr) (sort_work_items_by_created_at_desc lc running)) (\<lambda>rs.
       bindP (each (map_cancelled_triage_row pr) (sort_work_items_by_created_at_desc lc queued)) (\<lambda>qs. returnP (rs @ qs))))"

subsection \<open>Replacing automatic work\<close>

definition supersede_spec :: "string \<Rightarrow> work_type \<Rightarrow> work_status \<Rightarrow> bool \<Rightarrow> item_id list \<Rightarrow> transition_spec" where
  "supersede_spec key t from request preserve =
     \<lparr>sel_id = None, sel_resource_key = Some key, sel_type = (if t = Review then None else Some t),
      sel_review_lens = (if t = Review then Some ''review'' else None), sel_source = Some Auto,
      t_from = [from], t_to = Superseded, t_unless_cancel_requested = False, t_fence = Unleased,
      t_where = (\<lambda>_ w. w_id w \<notin> set preserve), t_last_error = None, t_request_cancel = request, t_payload_patch = None,
      t_execution_epoch = None, t_keep_completed_at = False\<rparr>"

definition superseded_lifecycle :: "work_type \<Rightarrow> work_item \<Rightarrow> lifecycle_change" where
  "superseded_lifecycle t w = \<lparr>lg_item = w_id w, lg_head = w_head_sha w, lg_source = w_source w, lg_type = t, lg_status = ChangeSuperseded\<rparr>"

definition supersede_active_auto_work ::
  "string \<Rightarrow> work_type \<Rightarrow> item_id list \<Rightarrow> (intake_run, item_id list \<times> lifecycle_change list) prog" where
  "supersede_active_auto_work key t preserve =
     bindP (run_statement (change_rows (supersede_spec key t Queued False preserve))) (\<lambda>queued.
       bindP (run_statement (change_rows (supersede_spec key t Running True []))) (\<lambda>running.
         thenP (run_statement (release_held_leases key t (lease_holders (queued @ running))))
           (returnP (map w_id (queued @ running), map (superseded_lifecycle t) (queued @ running)))))"

definition link_superseded_work_items :: "item_id \<Rightarrow> item_id list \<Rightarrow> intake_db \<Rightarrow> unit \<times> intake_db" where
  "link_superseded_work_items i ids d = ((), d\<lparr>in_superseded_by := (\<lambda>j.
     if j \<in> set ids \<and> exists_where (\<lambda>w. w_id w = j) (in_items d) then Some i else in_superseded_by d j)\<rparr>)"

definition replace_auto_work_item ::
  "string \<Rightarrow> work_type \<Rightarrow> (intake_run, item_id) prog \<Rightarrow> (intake_run, item_id \<times> item_id list \<times> lifecycle_change list) prog" where
  "replace_auto_work_item key t create =
     bindP (supersede_active_auto_work key t []) (\<lambda>(ids, changes).
       bindP create (\<lambda>i. thenP (if ids = [] then returnP () else run_statement (link_superseded_work_items i ids))
         (returnP (i, ids, changes))))"

definition replace_active_auto_work_item ::
  "string \<Rightarrow> work_type \<Rightarrow> (intake_run, item_id) prog \<Rightarrow> (intake_run, item_id option \<times> item_id list \<times> lifecycle_change list) prog" where
  "replace_active_auto_work_item key t create =
     bindP (supersede_active_auto_work key t []) (\<lambda>(ids, changes).
       if ids = [] then returnP (None, ids, changes)
       else bindP create (\<lambda>i. thenP (run_statement (link_superseded_work_items i ids)) (returnP (Some i, ids, changes))))"

subsection \<open>Enqueueing\<close>

definition ack_queue :: string where "ack_queue = ''agent-work-ack''"
definition ci_projection_queue :: string where "ci_projection_queue = ''agent-work-ci-projection''"

record webhook_headers =
  wh_delivery :: "string option"
  wh_event :: "string option"
  wh_body :: string

definition job_correlation_of :: "string \<Rightarrow> webhook_headers \<Rightarrow> job_correlation" where
  "job_correlation_of ev hs = \<lparr>co_event = Some ev, co_delivery = wh_delivery hs\<rparr>"

definition enqueue_failed :: "string \<Rightarrow> js_error" where
  "enqueue_failed q = AppError ''agent_work'' ''enqueue_failed'' [(''queue'', JStr q)]"

definition require_boss_job_send :: "job_service \<Rightarrow> job_request \<Rightarrow> (intake_run, unit) prog" where
  "require_boss_job_send svc r = bindP (query (bs_send svc r)) (\<lambda>job.
     if job = None then throwP (enqueue_failed (jr_queue r)) else returnP ())"

datatype send_result = SentNow | AlreadyPresent

definition send_boss_job_idempotent :: "job_service \<Rightarrow> job_request \<Rightarrow> (intake_run, send_result) prog" where
  "send_boss_job_idempotent svc r = bindP (query (bs_send svc r)) (\<lambda>job. returnP (if job = None then AlreadyPresent else SentNow))"

definition ack_request :: "string option \<Rightarrow> ack_job \<Rightarrow> job_request" where
  "ack_request i a = \<lparr>jr_queue = ack_queue, jr_data = AckData a, jr_id = i, jr_priority = Some 100,
     jr_group = installation_group_id (rf_installation (ak_ref a))\<rparr>"

definition enqueue_ack :: "job_service \<Rightarrow> ack_job \<Rightarrow> (intake_run, unit) prog" where
  "enqueue_ack svc a = require_boss_job_send svc (ack_request None a)"

definition enqueue_ask_ack_idempotent :: "job_service \<Rightarrow> ack_job \<Rightarrow> string \<Rightarrow> (intake_run, send_result) prog" where
  "enqueue_ask_ack_idempotent svc a ev = send_boss_job_idempotent svc (ack_request (Some ev) a)"

text \<open>\<open>enqueueReview\<close>, \<open>enqueueDescription\<close>, \<open>enqueueTriage\<close> and \<open>enqueueVerification\<close>.\<close>

definition enqueue_leased_work ::
  "job_service \<Rightarrow> work_type \<Rightarrow> pr_ref \<Rightarrow> item_id \<Rightarrow> job_correlation \<Rightarrow> (intake_run, unit) prog" where
  "enqueue_leased_work svc t ref i co = require_boss_job_send svc
     \<lparr>jr_queue = work_queue t, jr_data = WorkData t i co, jr_id = None, jr_priority = None,
      jr_group = installation_group_id (rf_installation ref)\<rparr>"

definition enqueue_ask :: "job_service \<Rightarrow> pr_ref \<Rightarrow> item_id \<Rightarrow> job_correlation \<Rightarrow> (intake_run, send_result) prog" where
  "enqueue_ask svc ref i co = send_boss_job_idempotent svc
     \<lparr>jr_queue = work_queue Ask, jr_data = WorkData Ask i co, jr_id = Some i, jr_priority = Some 50,
      jr_group = installation_group_id (rf_installation ref)\<rparr>"

definition ci_projection_debounce_seconds :: int where "ci_projection_debounce_seconds = 5"

definition ci_projection_correlations :: "job_correlation \<Rightarrow> job_correlation list" where
  "ci_projection_correlations co =
     (let kept = \<lparr>co_event = (if co_event co = Some [] then None else co_event co),
                  co_delivery = (if co_delivery co = Some [] then None else co_delivery co)\<rparr>
      in if co_event kept = None \<and> co_delivery kept = None then [] else [kept])"

definition correlation_missing :: "string \<Rightarrow> string \<Rightarrow> string \<Rightarrow> js_error" where
  "correlation_missing owner repo head = AppError ''agent_work'' ''ci_projection_correlation_missing''
     [(''queue'', JStr ci_projection_queue), (''owner'', JStr owner), (''repo'', JStr repo), (''headSha'', JStr head)]"

text \<open>\<open>requestHeadCiProjection\<close> for intake.\<close>

definition request_head_ci_projection ::
  "job_service \<Rightarrow> int \<Rightarrow> string \<Rightarrow> string \<Rightarrow> string \<Rightarrow> job_correlation \<Rightarrow> (intake_run, send_result) prog" where
  "request_head_ci_projection svc inst owner repo head co =
     (let cos = ci_projection_correlations co;
          key = owner @ ''/'' @ repo @ '':'' @ head;
          req = \<lparr>jr_queue = ci_projection_queue, jr_data = ProjectionData inst owner repo head co cos, jr_id = None,
                 jr_priority = Some 40, jr_group = installation_group_id inst\<rparr>
      in bindP (query (bs_debounced svc req ci_projection_debounce_seconds key)) (\<lambda>job.
           if job \<noteq> None then returnP SentNow
           else thenP (if cos = [] then returnP ()
               else bindP (query (bs_merge svc req ci_projection_debounce_seconds key)) (\<lambda>n.
                 if n \<noteq> 1 then throwP (correlation_missing owner repo head) else returnP ()))
             (returnP AlreadyPresent)))"

subsection \<open>Approvals\<close>

definition approval_at :: "string \<Rightarrow> intake_db \<Rightarrow> approval_row option" where
  "approval_at key d = row_at aw_key key (in_approvals d)"

definition review_exists :: "string \<Rightarrow> intake_db \<Rightarrow> bool" where
  "review_exists key d = exists_where (\<lambda>w. w_resource_key w = key \<and> w_type w = Review) (in_items d)"

definition insert_awaiting_approval :: "pr_ref \<Rightarrow> string \<Rightarrow> bool \<Rightarrow> intake_db \<Rightarrow> bool \<times> intake_db" where
  "insert_awaiting_approval ref ev workflow d =
     (if review_exists (ref_key ref) d \<or> approval_at (ref_key ref) d \<noteq> None then (False, d)
      else (True, d\<lparr>in_approvals := in_approvals d @ [\<lparr>aw_key = ref_key ref, aw_owner = rf_owner ref, aw_repo = rf_repo ref,
        aw_pr = rf_pr ref, aw_head = rf_head ref, aw_state = Awaiting, aw_by = None, aw_event = ev, aw_workflow_admits = workflow,
        aw_updated = in_clock d\<rparr>]\<rparr>))"

definition update_awaiting ::
  "string \<Rightarrow> (approval_row \<Rightarrow> bool) \<Rightarrow> (approval_row \<Rightarrow> approval_row) \<Rightarrow> intake_db \<Rightarrow> approval_row list \<times> intake_db" where
  "update_awaiting key p f d =
     (let hit = (\<lambda>a. aw_key a = key \<and> aw_state a = Awaiting \<and> p a); set_row = (\<lambda>a. (f a)\<lparr>aw_updated := in_clock d\<rparr>)
      in (map set_row (select_where hit (in_approvals d)), d\<lparr>in_approvals := update_where hit set_row (in_approvals d)\<rparr>))"

definition move_awaiting_head :: "string \<Rightarrow> string \<Rightarrow> intake_db \<Rightarrow> unit \<times> intake_db" where
  "move_awaiting_head key head d = ((), snd (update_awaiting key (\<lambda>_. True) (\<lambda>a. a\<lparr>aw_head := head\<rparr>) d))"

definition approve_awaiting :: "string \<Rightarrow> approval_source \<Rightarrow> string option \<Rightarrow> intake_db \<Rightarrow> approval_row option \<times> intake_db" where
  "approve_awaiting key src head d =
     (case update_awaiting key (\<lambda>a. (head = None \<or> head = Some (aw_head a)) \<and> (src = ByWorkflowRun \<longrightarrow> aw_workflow_admits a))
        (\<lambda>a. a\<lparr>aw_state := Approved, aw_by := Some src\<rparr>) d of
        (rows, d') \<Rightarrow> (case rows of [] \<Rightarrow> None | a # _ \<Rightarrow> Some a, d'))"

definition review_push_admitted :: "string \<Rightarrow> intake_db \<Rightarrow> bool" where
  "review_push_admitted key d \<longleftrightarrow> review_exists key d \<or>
     exists_where (\<lambda>a. aw_key a = key \<and> aw_state a = Approved) (in_approvals d)"

definition load_awaiting_approval :: "string \<Rightarrow> string option \<Rightarrow> intake_db \<Rightarrow> approval_row option" where
  "load_awaiting_approval key head d =
     find (\<lambda>a. aw_key a = key \<and> aw_state a = Awaiting \<and> (head = None \<or> head = Some (aw_head a))) (in_approvals d)"

definition withdraw_awaiting :: "string \<Rightarrow> intake_db \<Rightarrow> bool \<times> intake_db" where
  "withdraw_awaiting key d = (case update_awaiting key (\<lambda>_. True) (\<lambda>a. a\<lparr>aw_state := Withdrawn\<rparr>) d of (rows, d') \<Rightarrow> (rows \<noteq> [], d'))"

definition find_awaiting_for_head :: "string \<Rightarrow> string \<Rightarrow> string \<Rightarrow> intake_db \<Rightarrow> approval_row list" where
  "find_awaiting_for_head owner repo head d =
     select_where (\<lambda>a. aw_owner a = owner \<and> aw_repo a = repo \<and> aw_head a = head \<and> aw_state a = Awaiting) (in_approvals d)"

definition can_publish_approval_notice :: "string \<Rightarrow> approval_state \<Rightarrow> intake_db \<Rightarrow> bool" where
  "can_publish_approval_notice key st d \<longleftrightarrow>
     exists_where (\<lambda>a. aw_key a = key \<and> aw_state a = st) (in_approvals d) \<and>
     \<not> exists_where (\<lambda>p. pr_resource_key p = key \<and> pr_step p = ProgressComment) (records (cdb (in_ci d))) \<and>
     (st = Awaiting \<or> exists_where (\<lambda>l. lc_key l = key \<and> lc_state l \<noteq> LifeOpen) (in_lifecycle d))"

definition expired_approval :: "int \<Rightarrow> intake_db \<Rightarrow> approval_row \<Rightarrow> bool" where
  "expired_approval retention d a \<longleftrightarrow> aw_updated a < in_clock d - retention"

definition delete_approval_batch :: "int \<Rightarrow> nat \<Rightarrow> intake_db \<Rightarrow> nat \<times> intake_db" where
  "delete_approval_batch retention limit d =
     (let doomed = set (map aw_key (take limit (filter (expired_approval retention d) (in_approvals d))));
          gone = (\<lambda>a. aw_key a \<in> doomed \<and> expired_approval retention d a)
      in (length (filter gone (in_approvals d)), d\<lparr>in_approvals := filter (\<lambda>a. \<not> gone a) (in_approvals d)\<rparr>))"

partial_function (option) delete_approval_loop :: "int \<Rightarrow> nat \<Rightarrow> nat \<Rightarrow> intake_db \<Rightarrow> (nat \<times> intake_db) option" where
  "delete_approval_loop retention limit deleted d =
     (let (n, d') = delete_approval_batch retention limit d
      in if n < limit then Some (deleted + n, d') else delete_approval_loop retention limit (deleted + n) d')"

definition delete_expired_review_approvals :: "int \<Rightarrow> nat \<Rightarrow> intake_db \<Rightarrow> (nat \<times> intake_db) option" where
  "delete_expired_review_approvals retention limit d = delete_approval_loop retention limit 0 d"

subsection \<open>Recording a delivery once\<close>

record webhook_keys =
  wk_dedupe :: string
  wk_body :: string
  wk_sha :: string

definition webhook_event_keys :: "(string \<Rightarrow> string) \<Rightarrow> webhook_headers \<Rightarrow> webhook_keys" where
  "webhook_event_keys sha256 hs =
     (let sha = sha256 (wh_body hs);
          body = ''body:'' @ sha
      in \<lparr>wk_dedupe = (case wh_delivery hs of Some (c # cs) \<Rightarrow> ''delivery:'' @ c # cs | _ \<Rightarrow> body), wk_body = body, wk_sha = sha\<rparr>)"

definition duplicate_row :: "string \<Rightarrow> webhook_headers \<Rightarrow> string \<Rightarrow> string \<Rightarrow> dedupe_reason \<Rightarrow> webhook_duplicate" where
  "duplicate_row i hs sha key reason = \<lparr>du_id = i, du_delivery = wh_delivery hs,
     du_name = (case wh_event hs of None \<Rightarrow> [] | Some e \<Rightarrow> e), du_sha = sha, du_key = key, du_reason = reason\<rparr>"

definition record_duplicate_webhook_event ::
  "string \<Rightarrow> webhook_headers \<Rightarrow> string \<Rightarrow> string \<Rightarrow> dedupe_reason \<Rightarrow> intake_db \<Rightarrow> unit \<times> intake_db" where
  "record_duplicate_webhook_event i hs sha key reason d =
     ((), d\<lparr>in_duplicates := in_duplicates d @ [duplicate_row i hs sha key reason]\<rparr>)"

definition insert_event_statement :: "webhook_event \<Rightarrow> intake_db \<Rightarrow> bool \<times> intake_db" where
  "insert_event_statement ev d = (case upsert we_dedupe ev (\<lambda>_. False) id (in_events d) of
      (row, rows) \<Rightarrow> (row \<noteq> None, d\<lparr>in_events := rows\<rparr>))"

definition insert_replay_statement :: "webhook_replay \<Rightarrow> intake_db \<Rightarrow> bool \<times> intake_db" where
  "insert_replay_statement r d = (case upsert rp_sha r (\<lambda>_. False) id (in_replays d) of
      (row, rows) \<Rightarrow> (row \<noteq> None, d\<lparr>in_replays := rows\<rparr>))"

definition delete_event_statement :: "string \<Rightarrow> intake_db \<Rightarrow> unit \<times> intake_db" where
  "delete_event_statement i d = ((), d\<lparr>in_events := filter (\<lambda>e. we_id e \<noteq> i) (in_events d),
     in_replays := filter (\<lambda>r. rp_event r \<noteq> i) (in_replays d)\<rparr>)"

text \<open>The answer is the identity of the event, or nothing for a delivery that was seen before.\<close>

definition insert_webhook_event ::
  "(nat \<Rightarrow> string) \<Rightarrow> (string \<Rightarrow> string) \<Rightarrow> webhook_headers \<Rightarrow> string \<Rightarrow> (intake_run, string option) prog" where
  "insert_webhook_event uuid sha256 hs decision =
     bindP (random_uuid uuid) (\<lambda>i.
       let keys = webhook_event_keys sha256 hs
       in bindP (run_statement (\<lambda>d. insert_event_statement \<lparr>we_id = i, we_dedupe = wk_dedupe keys, we_delivery = wh_delivery hs,
              we_name = (case wh_event hs of None \<Rightarrow> [] | Some e \<Rightarrow> e), we_sha = wk_sha keys, we_decision = decision,
              we_processed = in_clock d\<rparr> d)) (\<lambda>inserted.
            if \<not> inserted then
              thenP (run_statement (record_duplicate_webhook_event i hs (wk_sha keys) (wk_dedupe keys)
                  (case wh_delivery hs of Some (_ # _) \<Rightarrow> DeliveryKey | _ \<Rightarrow> BodyKey))) (returnP None)
            else bindP (run_statement (insert_replay_statement \<lparr>rp_sha = wk_sha keys, rp_event = i\<rparr>)) (\<lambda>first.
              if \<not> first then thenP (run_statement (delete_event_statement i))
                (thenP (run_statement (record_duplicate_webhook_event i hs (wk_sha keys) (wk_body keys) BodyReplay)) (returnP None))
              else returnP (Some i))))"

end
