(* ===== verification/Delivery_Tx.thy ===== *)
theory Delivery_Tx
  imports Intake_Store
begin

text \<open>
  What the handlers of a delivery share: the settings they read, the record of the delivery
  (\<open>DeliveryTx\<close> of \<^verbatim>\<open>src/agentWork/intake/delivery.ts\<close>), the events they announce once it has committed,
  and the dispatch of automatic work.
\<close>

subsection \<open>Settings and parameters\<close>

datatype review_feature = ReviewManual | ReviewAuto | ReviewApproval

datatype review_cadence = OncePerPull | EveryPush

datatype run_feature = RunOff | RunManual | RunAuto

record features =
  ft_review :: review_feature
  ft_cadence :: review_cadence
  ft_describe :: run_feature
  ft_verification :: run_feature
  ft_ask :: bool
  ft_triage :: bool

text \<open>
  The random identifiers, the hash of a body, the queue service and whether it holds a live review job of a work
  item, \<^verbatim>\<open>localeCompare\<close>, the clock of the process in milliseconds, the redaction of secrets and the
  question of a comment that mentions the App.
\<close>

record intake_params =
  ip_uuid :: "nat \<Rightarrow> string"
  ip_sha256 :: "string \<Rightarrow> string"
  ip_service :: job_service
  ip_live_job :: "intake_db \<Rightarrow> item_id \<Rightarrow> bool"
  ip_locale :: "string \<Rightarrow> string \<Rightarrow> int"
  ip_clock :: int
  ip_redact :: "string \<Rightarrow> string"
  ip_mention :: "string \<Rightarrow> string \<Rightarrow> string option"
  ip_features :: features
  ip_quota :: quota_config

subsection \<open>The delivery\<close>

definition deduped_delivery :: intake_event where
  "deduped_delivery = IntakeEvent ''deduped_delivery'' []"

text \<open>\<open>DeliveryTx.insert\<close>.\<close>

definition insert_delivery :: "intake_params \<Rightarrow> webhook_headers \<Rightarrow> string \<Rightarrow> (intake_run, string option) prog" where
  "insert_delivery P hs decision =
     bindP (insert_webhook_event (ip_uuid P) (ip_sha256 P) hs decision) (\<lambda>ev.
       case ev of None \<Rightarrow> thenP (announce [deduped_delivery]) (returnP None) | Some i \<Rightarrow> returnP (Some i))"

text \<open>Nothing more happens for a delivery that was seen before.\<close>

definition first_time ::
  "intake_params \<Rightarrow> webhook_headers \<Rightarrow> string \<Rightarrow> (string \<Rightarrow> (intake_run, unit) prog) \<Rightarrow> (intake_run, unit) prog" where
  "first_time P hs decision f =
     bindP (insert_delivery P hs decision) (\<lambda>ev. case ev of None \<Rightarrow> returnP () | Some i \<Rightarrow> f i)"

definition with_review_intake :: "string \<Rightarrow> (pr_lifecycle option \<Rightarrow> (intake_run, 'a) prog) \<Rightarrow> (intake_run, 'a) prog" where
  "with_review_intake key f = bindP (ask_db (load_review_lifecycle key)) f"

definition defer_work_lifecycle :: "lifecycle_change list \<Rightarrow> change_reason \<Rightarrow> (intake_run, unit) prog" where
  "defer_work_lifecycle changes reason = announce (map (\<lambda>c. WorkLifecycle c reason) changes)"

definition cancelled_change :: "work_type \<Rightarrow> work_item \<Rightarrow> lifecycle_change" where
  "cancelled_change t w =
     \<lparr>lg_item = w_id w, lg_head = w_head_sha w, lg_source = w_source w, lg_type = t, lg_status = ChangeCancelled\<rparr>"

subsection \<open>Acknowledgements and dispatch\<close>

definition plain_ack :: "pr_ref \<Rightarrow> ack_target list \<Rightarrow> job_correlation \<Rightarrow> ack_job" where
  "plain_ack ref targets co = \<lparr>ak_item = None, ak_ref = ref, ak_targets = targets, ak_awaiting = False, ak_maintainer_only = False,
     ak_closed_approval = None, ak_progress = None, ak_cancel = None, ak_cancel_triage = None, ak_reply = None,
     ak_commenter = None, ak_correlation = co\<rparr>"

definition pr_targets :: "pr_ref \<Rightarrow> ack_target list" where
  "pr_targets ref = [PrTarget (int (rf_pr ref))]"

definition auto_review_ack :: "intake_params \<Rightarrow> pr_ref \<Rightarrow> job_correlation \<Rightarrow> string \<Rightarrow> item_id \<Rightarrow> (intake_run, unit) prog" where
  "auto_review_ack P ref co head i = enqueue_ack (ip_service P)
     ((plain_ack ref (pr_targets ref) co)\<lparr>ak_item := Some i, ak_progress := Some \<lparr>pn_head = head, pn_source = Auto\<rparr>\<rparr>)"

definition create_auto_review :: "intake_params \<Rightarrow> string \<Rightarrow> pr_ref \<Rightarrow> (intake_run, item_id) prog" where
  "create_auto_review P ev ref =
     bindP (create_review_work_item (ip_uuid P) ev ref Auto None None None (Some (pr_targets ref))) (\<lambda>(_, i). returnP i)"

definition create_auto_description :: "intake_params \<Rightarrow> string \<Rightarrow> pr_ref \<Rightarrow> (intake_run, item_id) prog" where
  "create_auto_description P ev ref =
     bindP (create_description_work_item (ip_uuid P) ev ref Auto None None (Some (pr_targets ref))) (\<lambda>(_, i). returnP i)"

definition create_auto_verification :: "intake_params \<Rightarrow> string \<Rightarrow> pr_ref \<Rightarrow> string option \<Rightarrow> (intake_run, item_id) prog" where
  "create_auto_verification P ev ref before =
     bindP (create_verification_work_item (ip_uuid P) ev ref Auto before (Some (pr_targets ref))) (\<lambda>(_, i). returnP i)"

definition dispatch_automated_kind ::
  "string \<Rightarrow> work_type \<Rightarrow> (intake_run, item_id) prog \<Rightarrow> (item_id \<Rightarrow> (intake_run, unit) prog) \<Rightarrow>
   (item_id \<Rightarrow> (intake_run, unit) prog) \<Rightarrow> (intake_run, unit) prog" where
  "dispatch_automated_kind key t create ack enqueue =
     bindP (replace_auto_work_item key t create) (\<lambda>(i, ids, changes).
       thenP (defer_work_lifecycle changes AutoReplacement)
         (thenP (ack i) (thenP (enqueue i) (announce [IntakeEvent ''agent_work_enqueued'' [i]]))))"

definition no_ack :: "item_id \<Rightarrow> (intake_run, unit) prog" where
  "no_ack i = returnP ()"

definition enqueue_head_ci_projection :: "intake_params \<Rightarrow> pr_ref \<Rightarrow> job_correlation \<Rightarrow> (intake_run, unit) prog" where
  "enqueue_head_ci_projection P ref co =
     bindP (request_head_ci_projection (ip_service P) (rf_installation ref) (rf_owner ref) (rf_repo ref) (rf_head ref) co)
       (\<lambda>_. announce [IntakeEvent ''ci_projection_enqueued'' []])"

end
