(* ===== verification/Slash_Intake.thy ===== *)
theory Slash_Intake
  imports Delivery_Tx
begin

text \<open>
  Comments that start with a command: \<^verbatim>\<open>src/agentWork/intake/slashIntake.ts\<close> and
  \<^verbatim>\<open>src/agentWork/intake/askIntake.ts\<close>. The admission of an ask is one statement of the run: it holds the
  locks of the quota until the delivery commits.
\<close>

subsection \<open>The input\<close>

record slash_input =
  si_headers :: webhook_headers
  si_installation :: int
  si_owner :: string
  si_repo :: string
  si_size :: "int option"
  si_pr :: nat
  si_comment :: int
  si_commenter :: int
  si_login :: "string option"
  si_body :: string
  si_command :: string
  si_reply :: reply_target
  si_anchor :: "code_anchor option"
  si_triage_scope :: "triage_scope option"
  si_thread_anchor :: "int option"
  si_needs_root :: "bool option"
  si_bot :: "string option"

record slash_context =
  sx_input :: slash_input
  sx_event :: string
  sx_correlation :: job_correlation
  sx_ref :: pr_ref
  sx_refused :: "pr_lifecycle option"

definition slash_targets :: "slash_input \<Rightarrow> ack_target list" where
  "slash_targets inp = [PrTarget (int (si_pr inp)), (case si_reply inp of
      PrConversation _ \<Rightarrow> IssueCommentTarget (si_comment inp)
    | InlineReviewThread _ _ \<Rightarrow> ReviewCommentTarget (si_comment inp))]"

definition slash_ref :: "slash_input \<Rightarrow> pr_ref" where
  "slash_ref inp = \<lparr>rf_owner = si_owner inp, rf_repo = si_repo inp, rf_pr = si_pr inp, rf_installation = si_installation inp,
     rf_head = deferred_head_sha, rf_size = si_size inp\<rparr>"

definition slash_ack :: "slash_context \<Rightarrow> ack_job" where
  "slash_ack x = (plain_ack (sx_ref x) (slash_targets (sx_input x)) (sx_correlation x))\<lparr>ak_commenter := Some (si_commenter (sx_input x))\<rparr>"

definition enqueue_slash_ack :: "intake_params \<Rightarrow> slash_context \<Rightarrow> (ack_job \<Rightarrow> ack_job) \<Rightarrow> (intake_run, unit) prog" where
  "enqueue_slash_ack P x extra = enqueue_ack (ip_service P) (extra (slash_ack x))"

definition with_reply :: "slash_context \<Rightarrow> string \<Rightarrow> ack_job \<Rightarrow> ack_job" where
  "with_reply x body a = a\<lparr>ak_reply := Some (si_reply (sx_input x), body)\<rparr>"

definition slash_key :: "slash_context \<Rightarrow> string" where
  "slash_key x = ref_key (sx_ref x)"

definition slash_attribution :: "slash_context \<Rightarrow> cancel_attribution" where
  "slash_attribution x = ByUser (sanitize_github_login (case si_login (sx_input x) of None \<Rightarrow> [] | Some l \<Rightarrow> l))"

subsection \<open>Replies\<close>

definition long_dash :: string where "long_dash = [CHR 0xE2, CHR 0x80, CHR 0x94]"

definition joined_lines :: "string list \<Rightarrow> string" where
  "joined_lines ls = concat (case ls of [] \<Rightarrow> [] | l # r \<Rightarrow> l # map (\<lambda>x. CHR 0x0A # x) r)"

definition ask_usage_hint :: string where
  "ask_usage_hint = ''Usage: `/ask <your question>` or `@`-mention the bot with your question '' @ long_dash @
     '' ask about this PR, a finding thread, or a specific line of code.''"

definition ask_question_too_long_hint :: string where
  "ask_question_too_long_hint = ''Your question exceeds the '' @ nat_text max_ask_question_chars @
     '' character limit. Shorten it or reference files by path instead of pasting large blocks.''"

definition ask_throttled_body :: string where
  "ask_throttled_body = ''This ask is temporarily throttled. Please try again later.''"

definition description_already_in_progress :: string where
  "description_already_in_progress = ''A `/describe` run is already queued or in progress for this pull request.''"

definition triage_unknown_subcommand :: string where
  "triage_unknown_subcommand =
     ''Unknown `/triage` command. Use `/triage`, `/triage preview`, or `/triage all` (optional `exclude <thread ids>`).''"

definition triage_invalid_exclude :: string where
  "triage_invalid_exclude =
     ''`/triage all exclude` needs one or more thread root comment ids (digits, comma or space separated).''"

definition triage_already_in_progress :: string where
  "triage_already_in_progress = ''A `/triage` run is already queued or in progress for this pull request.''"

definition triage_full_run_in_progress :: string where
  "triage_full_run_in_progress = ''A full-PR `/triage` run is already queued or in progress for this pull request.''"

definition triage_inline_usage_hint :: string where
  "triage_inline_usage_hint = ''Reply with `/triage` inside a PR Agent inline finding thread, or post `/triage` on the PR '' @
     ''conversation to triage all findings.''"

definition slash_review_already_in_progress_body :: string where
  "slash_review_already_in_progress_body = ''A `/review` run is already queued or in progress for this pull request.''"

definition slash_review_force_restarted_body :: string where
  "slash_review_force_restarted_body = ''Cancelled the previous review and started a new one on the latest commit.''"

definition slash_cancel_none_body :: string where
  "slash_cancel_none_body = ''No review is queued or in progress for this pull request.''"

definition slash_cancel_done_body :: string where
  "slash_cancel_done_body = ''Cancelled the in-progress review.''"

definition slash_verify_already_in_progress_body :: string where
  "slash_verify_already_in_progress_body = ''A `/verify` run is already queued or in progress for this pull request.''"

definition slash_disabled_body :: "string \<Rightarrow> string" where
  "slash_disabled_body command =
     ''`/'' @ command @ ''` is disabled on this deployment (`FEATURE_*` settings; see docs/features.md).''"

definition unknown_command_body :: "string \<Rightarrow> string" where
  "unknown_command_body command = ''Unknown command `/'' @ command @ ''`. Run `/help` for available commands.''"

definition review_refused_body :: "pr_lifecycle \<Rightarrow> string" where
  "review_refused_body st = (if st = LifeClosed then ''This pull request is closed. Reopen it before running `/review`.''
     else ''This pull request is merged. Run `/review` on an open pull request.'')"

definition once_cadence_note :: string where
  "once_cadence_note = ''What runs automatically depends on the `FEATURE_*` settings (see docs/features.md). Review and '' @
     ''describe fire on PR open in `auto` mode; later pushes need a manual `/review`.''"

definition every_push_cadence_note :: string where
  "every_push_cadence_note = ''What runs automatically depends on the `FEATURE_*` settings, see docs/features.md. Review and '' @
     ''describe fire on PR open in `auto` mode. With `FEATURE_REVIEW_CADENCE=every_push`, each later push to an open '' @
     ''admitted pull request starts a review. A running `/review` finishes, and one follow-up then reviews the newest head.''"

definition slash_help_lines :: "string \<Rightarrow> string" where
  "slash_help_lines note = joined_lines
    [''### PR Agent help'',
     [],
     ''Commands (first line of a **new** comment):'',
     ''- `/help` - show this message'',
     ''- `/ask <question>` - ask about this PR or a specific line (or mention the App bot for the same Q&A)'',
     ''- `/describe` - write the PR Agent description block (also runs when a PR opens). Title rewrite is on by default; '' @
       ''set FEATURE_TITLE_REWRITE=false to keep the existing title'',
     ''- `/review` - review the PR for bugs (also runs when a PR opens in `auto`, or in `approval` mode for trusted '' @
       ''authors and after maintainer approval for forks)'',
     ''- `/review force` - cancel any queued or in-progress review and start a new one on the latest commit'',
     ''- `/cancel` - cancel a queued or in-progress review on this PR'',
     ''- `/triage` - fix earlier PR Agent findings on this PR. Post on the conversation for all findings, or reply '' @
       ''`/triage` inside one finding thread for that finding only.'',
     ''- `/triage preview` - render the would-be unified diff for eligible findings. No commits, no push.'',
     ''- `/triage all` - apply the previewed set (one commit per finding). Optional `exclude <thread ids>`. Refused '' @
       ''without a matching `/triage preview` on this head.'',
     ''- `/verify` - verify open findings against the current pull request head'',
     [],
     ''Notes:'',
     ''- '' @ note,
     ''- `/describe` writes in the PR Agent description block and keeps your text outside it.'',
     ''- `/ask` and App-bot mentions load the shared discussion. They do not change finding severity, dismiss a '' @
       ''finding, or edit a review summary.'',
     ''- `/cancel` stops the active review immediately and updates the progress stub with who cancelled it.'',
     ''- Edited comments are ignored for slash parsing in v1.'']"

definition slash_help_body :: "review_cadence \<Rightarrow> string" where
  "slash_help_body cadence = slash_help_lines (if cadence = EveryPush then every_push_cadence_note else once_cadence_note)"

subsection \<open>Asking\<close>

definition nested_text :: "detail \<Rightarrow> string \<Rightarrow> string \<Rightarrow> string option" where
  "nested_text d k1 k2 = (case d k1 of Some (JObj fs) \<Rightarrow> text_of (map_of fs k2) | _ \<Rightarrow> None)"

definition reply_kind :: "reply_target \<Rightarrow> string" where
  "reply_kind r = (case r of PrConversation _ \<Rightarrow> ''prConversation'' | InlineReviewThread _ _ \<Rightarrow> ''inlineReviewThread'')"

text \<open>The asks of the table that can be compared with a mention.\<close>

definition ask_row_of :: "intake_db \<Rightarrow> work_item \<Rightarrow> ask_row option" where
  "ask_row_of d w = (case (nested_text (w_payload w) ''replyTarget'' ''kind'', text_of (w_payload w ''commentId'')) of
      (Some k, Some c) \<Rightarrow> Some \<lparr>am_installation = is_installation (cd_scope (in_ci d) (w_id w)), am_resource_key = w_resource_key w,
        am_reply_kind = k, am_comment_id = c, am_webhook_event = in_event_of d (w_id w), ar_id = w_id w, ar_created_at = w_created_at w\<rparr>
    | _ \<Rightarrow> None)"

definition ask_rows :: "intake_db \<Rightarrow> ask_row list" where
  "ask_rows d = List.map_filter (ask_row_of d) (filter (\<lambda>w. w_type w = Ask) (in_items d))"

definition mention_of :: "ask_input \<Rightarrow> ask_mention" where
  "mention_of a = \<lparr>am_installation = rf_installation (ai_ref a), am_resource_key = ref_key (ai_ref a),
     am_reply_kind = reply_kind (ai_reply a), am_comment_id = int_text (ai_comment a), am_webhook_event = Some (ai_event a)\<rparr>"

definition admit_ask_statement :: "quota_config \<Rightarrow> int \<Rightarrow> item_id \<Rightarrow> ask_input \<Rightarrow> (intake_db, ask_admission) prog" where
  "admit_ask_statement cfg js i a d =
     (let (made, d1) = create_ask_work_item i a d;
          answer = map_sum id (\<lambda>(created, j). (j, created)) made;
          q = \<lparr>aq_item = i, aq_installation = rf_installation (ai_ref a), aq_owner = rf_owner (ai_ref a),
                aq_repo = rf_repo (ai_ref a), aq_commenter = ai_commenter a\<rparr>;
          (r, quota) = admit_ask (ask_rows d) (\<lambda>_ t. (answer, t)) cfg js (mention_of a) q (in_quota d)
      in (r, (case r of Inr (AskAdmitted _ _ _) \<Rightarrow> d1 | _ \<Rightarrow> d)\<lparr>in_quota := quota\<rparr>))"

definition ask_ack :: "intake_params \<Rightarrow> slash_context \<Rightarrow> (ack_job \<Rightarrow> ack_job) \<Rightarrow> (intake_run, send_result) prog" where
  "ask_ack P x extra = enqueue_ask_ack_idempotent (ip_service P) (extra (slash_ack x)) (sx_event x)"

datatype ask_outcome = HintAcked | AskThrottledNow quota_rejection | Promoted item_id bool | AlreadyExistsSkipped item_id

text \<open>\<open>recover\<close> is the policy for a work item that exists.\<close>

definition promote_ask_from_webhook_event :: "intake_params \<Rightarrow> slash_context \<Rightarrow> bool \<Rightarrow> (intake_run, ask_outcome) prog" where
  "promote_ask_from_webhook_event P x recover =
     (let inp = sx_input x;
          hint = (\<lambda>body. thenP (ask_ack P x (with_reply x body)) (returnP HintAcked));
          promoted = (\<lambda>i created. thenP (ask_ack P x (\<lambda>a. a\<lparr>ak_item := Some i\<rparr>))
            (thenP (enqueue_ask (ip_service P) (sx_ref x) i (sx_correlation x)) (returnP (Promoted i created))))
      in case parse_ask_question (ip_mention P) (si_body inp) (si_bot inp) of
          AskTooLong \<Rightarrow> hint ask_question_too_long_hint
        | AskMissing \<Rightarrow> hint ask_usage_hint
        | AskNot \<Rightarrow> hint ask_usage_hint
        | AskOk question \<Rightarrow> bindP (random_uuid (ip_uuid P)) (\<lambda>i.
            bindP (query (admit_ask_statement (ip_quota P) (ip_clock P) i
                \<lparr>ai_event = sx_event x, ai_ref = sx_ref x, ai_question = ip_redact P question, ai_reply = si_reply inp,
                 ai_comment = si_comment inp, ai_commenter = si_commenter inp, ai_anchor = si_anchor inp,
                 ai_acks = Some (slash_targets inp)\<rparr>)) (\<lambda>admission.
              case admission of
                AskRetained j ev \<Rightarrow> if ev \<noteq> Some (sx_event x) \<or> \<not> recover then returnP (AlreadyExistsSkipped j) else promoted j False
              | AskThrottled why \<Rightarrow> thenP (ask_ack P x (with_reply x ask_throttled_body)) (returnP (AskThrottledNow why))
              | AskAdmitted j created _ \<Rightarrow> if \<not> created \<and> \<not> recover then returnP (AlreadyExistsSkipped j) else promoted j created)))"

definition handle_slash_ask :: "intake_params \<Rightarrow> slash_context \<Rightarrow> (intake_run, unit) prog" where
  "handle_slash_ask P x = bindP (promote_ask_from_webhook_event P x False) (\<lambda>outcome. case outcome of
      HintAcked \<Rightarrow> returnP ()
    | AlreadyExistsSkipped _ \<Rightarrow> returnP ()
    | AskThrottledNow _ \<Rightarrow> announce [IntakeEvent ''agent_work_throttled'' []]
    | Promoted i _ \<Rightarrow> announce [IntakeEvent ''agent_work_enqueued'' [i]])"

subsection \<open>The other commands\<close>

definition handle_slash_help :: "intake_params \<Rightarrow> slash_context \<Rightarrow> (intake_run, unit) prog" where
  "handle_slash_help P x = enqueue_slash_ack P x (with_reply x (slash_help_body (ft_cadence (ip_features P))))"

text \<open>What follows a fresh insert: the acknowledgement, the job and the event.\<close>

definition start_slash_work :: "intake_params \<Rightarrow> slash_context \<Rightarrow> work_type \<Rightarrow> item_id \<Rightarrow> (intake_run, unit) prog" where
  "start_slash_work P x t i = thenP (enqueue_slash_ack P x (\<lambda>a. a\<lparr>ak_item := Some i\<rparr>))
     (thenP (enqueue_leased_work (ip_service P) t (sx_ref x) i (sx_correlation x)) (announce [IntakeEvent ''agent_work_enqueued'' [i]]))"

definition invoked_text :: "string \<Rightarrow> string \<Rightarrow> string" where
  "invoked_text command body = clamp_stored_comment_text (''User invoked /'' @ command @ '' with:'' @ CHR 0x0A # body)"

definition handle_slash_describe :: "intake_params \<Rightarrow> slash_context \<Rightarrow> (intake_run, unit) prog" where
  "handle_slash_describe P x =
     bindP (create_description_work_item (ip_uuid P) (sx_event x) (sx_ref x) Slash (Some (invoked_text ''describe'' (si_body (sx_input x))))
         (Some (si_commenter (sx_input x))) (Some (slash_targets (sx_input x)))) (\<lambda>(created, i).
       if \<not> created then enqueue_slash_ack P x (with_reply x description_already_in_progress)
       else start_slash_work P x Description i)"

definition triage_conflict_no_winner :: "string \<Rightarrow> js_error" where
  "triage_conflict_no_winner key = AppError ''agent_work'' ''slash_triage_conflict_no_winner'' [(''resourceKey'', JStr key)]"

definition run_slash_triage :: "intake_params \<Rightarrow> slash_context \<Rightarrow> triage_scope \<Rightarrow> triage_mode \<Rightarrow> int list option \<Rightarrow> (intake_run, unit) prog" where
  "run_slash_triage P x scope mode exclude =
     (let inp = sx_input x
      in bindP (create_triage_work_item (ip_uuid P) (sx_event x) (sx_ref x)
            \<lparr>tq_comment = si_comment inp, tq_commenter = Some (si_commenter inp), tq_scope = scope, tq_mode = Some mode,
             tq_exclude = exclude, tq_anchor = si_thread_anchor inp, tq_needs_root = si_needs_root inp, tq_reply = si_reply inp,
             tq_acks = Some (slash_targets inp)\<rparr>) (\<lambda>(created, i).
          if created then start_slash_work P x Triage i
          else bindP (query (\<lambda>d. (fetch_active_triage_work_item (slash_key x) i d, d))) (\<lambda>winner. case winner of
              None \<Rightarrow> throwP (triage_conflict_no_winner (slash_key x))
            | Some (_, p) \<Rightarrow> enqueue_slash_ack P x (with_reply x
                (if scope = ScopeThread \<and> tp_scope p = ScopeAll then triage_full_run_in_progress else triage_already_in_progress)))))"

definition handle_slash_triage :: "intake_params \<Rightarrow> slash_context \<Rightarrow> (intake_run, unit) prog" where
  "handle_slash_triage P x =
     (let inp = sx_input x;
          inline = (case si_reply inp of InlineReviewThread _ _ \<Rightarrow> True | PrConversation _ \<Rightarrow> False);
          single = (\<lambda>mode. case si_triage_scope inp of
              Some scope \<Rightarrow> run_slash_triage P x scope mode None
            | None \<Rightarrow> if inline then enqueue_slash_ack P x (with_reply x triage_inline_usage_hint)
                else run_slash_triage P x ScopeAll mode None)
      in case parse_triage_command (si_body inp) of
          Some (TriageInvalid why) \<Rightarrow> enqueue_slash_ack P x (with_reply x
            (if why = InvalidExclude then triage_invalid_exclude else triage_unknown_subcommand))
        | Some (TriageBulk ids) \<Rightarrow> run_slash_triage P x ScopeAll ModeBulk (Some ids)
        | Some TriagePreviewRun \<Rightarrow> single ModePreview
        | Some TriageApply \<Rightarrow> single ModeApply
        | None \<Rightarrow> single ModeApply)"

text \<open>Both \<open>/cancel\<close> and \<open>/review force\<close> cancel; the note names the newest running review, or else the newest queued one.\<close>

definition slash_cancel_reviews :: "intake_params \<Rightarrow> slash_context \<Rightarrow> change_reason \<Rightarrow> (intake_run, cancel_note option) prog" where
  "slash_cancel_reviews P x reason =
     bindP (cancel_active_reviews (ip_locale P) (slash_key x) (slash_attribution x)) (\<lambda>cancelled.
       thenP (defer_work_lifecycle (map (cancelled_change Review) cancelled) reason)
         (returnP (case cancelled of [] \<Rightarrow> None
            | c # _ \<Rightarrow> Some \<lparr>cn_item = w_id c, cn_items = map w_id cancelled, cn_attribution = slash_attribution x\<rparr>)))"

definition start_slash_review :: "intake_params \<Rightarrow> slash_context \<Rightarrow> cancel_note option \<Rightarrow> (intake_run, unit) prog" where
  "start_slash_review P x note =
     bindP (create_review_work_item (ip_uuid P) (sx_event x) (sx_ref x) Slash None (Some (invoked_text ''review'' (si_body (sx_input x))))
         (Some (si_commenter (sx_input x))) (Some (slash_targets (sx_input x)))) (\<lambda>(created, i).
       if \<not> created then enqueue_slash_ack P x (\<lambda>a. with_reply x slash_review_already_in_progress_body (a\<lparr>ak_cancel := note\<rparr>))
       else thenP (enqueue_slash_ack P x (\<lambda>a.
           let b = a\<lparr>ak_item := Some i, ak_progress := Some \<lparr>pn_head = rf_head (sx_ref x), pn_source = Slash\<rparr>, ak_cancel := note\<rparr>
           in if note = None then b else with_reply x slash_review_force_restarted_body b))
         (thenP (run_statement (approve_awaiting (slash_key x) BySlash None))
           (thenP (enqueue_leased_work (ip_service P) Review (sx_ref x) i (sx_correlation x))
             (announce [IntakeEvent ''agent_work_enqueued'' [i]]))))"

definition handle_slash_review :: "intake_params \<Rightarrow> slash_context \<Rightarrow> (intake_run, unit) prog" where
  "handle_slash_review P x = (case sx_refused x of
      Some st \<Rightarrow> thenP (enqueue_slash_ack P x (with_reply x (review_refused_body st))) (announce [IntakeEvent ''review_intake_refused'' []])
    | None \<Rightarrow>
        if is_review_force_command (si_body (sx_input x)) then
          bindP (slash_cancel_reviews P x ReviewForce) (\<lambda>note. case note of
              None \<Rightarrow> start_slash_review P x None
            | Some n \<Rightarrow> thenP (announce [IntakeEvent ''agent_work_cancel_requested'' [cn_item n]]) (start_slash_review P x note))
        else start_slash_review P x None)"

definition handle_slash_cancel :: "intake_params \<Rightarrow> slash_context \<Rightarrow> (intake_run, unit) prog" where
  "handle_slash_cancel P x =
     bindP (slash_cancel_reviews P x SlashCancel) (\<lambda>note. case note of
         None \<Rightarrow> thenP (enqueue_slash_ack P x (with_reply x slash_cancel_none_body))
           (announce [IntakeEvent ''ignored_slash_cancel_no_active_review'' []])
       | Some n \<Rightarrow> thenP (enqueue_slash_ack P x (\<lambda>a. with_reply x slash_cancel_done_body (a\<lparr>ak_cancel := note\<rparr>)))
           (announce [IntakeEvent ''agent_work_cancel_requested'' [cn_item n]]))"

definition handle_slash_verify :: "intake_params \<Rightarrow> slash_context \<Rightarrow> (intake_run, unit) prog" where
  "handle_slash_verify P x =
     (let busy = enqueue_slash_ack P x (with_reply x slash_verify_already_in_progress_body)
      in bindP (ask_db (fetch_active_verification_work_item (slash_key x))) (\<lambda>active.
           if active \<noteq> None then busy
           else bindP (create_verification_work_item (ip_uuid P) (sx_event x) (sx_ref x) Slash None (Some (slash_targets (sx_input x))))
             (\<lambda>(created, i). if \<not> created then busy else start_slash_work P x Verification i)))"

definition handle_slash_unknown :: "intake_params \<Rightarrow> slash_context \<Rightarrow> (intake_run, unit) prog" where
  "handle_slash_unknown P x =
     thenP (enqueue_slash_ack P x (with_reply x (unknown_command_body (si_command (sx_input x)))))
       (announce [IntakeEvent ''ignored_unknown_slash_command'' []])"

subsection \<open>The table of handlers\<close>

text \<open>The table is an object: a name that it does not own is looked up in \<^verbatim>\<open>Object.prototype\<close>.\<close>

datatype slash_handler = HelpCommand | AskCommand | DescribeCommand | TriageCommand | ReviewCommand | CancelCommand | VerifyCommand

definition slash_handlers :: "(string \<times> slash_handler) list" where
  "slash_handlers = [(''help'', HelpCommand), (''ask'', AskCommand), (''describe'', DescribeCommand), (''triage'', TriageCommand),
     (''review'', ReviewCommand), (''cancel'', CancelCommand), (''verify'', VerifyCommand)]"

definition object_members :: "string list" where
  "object_members = [''constructor'', ''__defineGetter__'', ''__defineSetter__'', ''hasOwnProperty'', ''__lookupGetter__'',
     ''__lookupSetter__'', ''isPrototypeOf'', ''propertyIsEnumerable'', ''toString'', ''valueOf'', ''__proto__'', ''toLocaleString'']"

definition handler_found :: "string \<Rightarrow> bool" where
  "handler_found command \<longleftrightarrow> map_of slash_handlers command \<noteq> None \<or> command \<in> set object_members"

definition disabled_by_feature :: "features \<Rightarrow> string \<Rightarrow> bool" where
  "disabled_by_feature f command =
     (case map_of [(''ask'', \<not> ft_ask f), (''describe'', ft_describe f = RunOff), (''triage'', \<not> ft_triage f),
                   (''verify'', ft_verification f = RunOff)] command of
        Some b \<Rightarrow> b
      | None \<Rightarrow> command \<in> set object_members)"

definition run_slash_handler :: "intake_params \<Rightarrow> slash_context \<Rightarrow> (intake_run, unit) prog" where
  "run_slash_handler P x = (case map_of slash_handlers (si_command (sx_input x)) of
      Some HelpCommand \<Rightarrow> handle_slash_help P x
    | Some AskCommand \<Rightarrow> handle_slash_ask P x
    | Some DescribeCommand \<Rightarrow> handle_slash_describe P x
    | Some TriageCommand \<Rightarrow> handle_slash_triage P x
    | Some ReviewCommand \<Rightarrow> handle_slash_review P x
    | Some CancelCommand \<Rightarrow> handle_slash_cancel P x
    | Some VerifyCommand \<Rightarrow> handle_slash_verify P x
    | None \<Rightarrow> returnP ())"

definition dispatch_slash_command :: "intake_params \<Rightarrow> slash_context \<Rightarrow> (intake_run, unit) prog" where
  "dispatch_slash_command P x =
     (let command = si_command (sx_input x)
      in if handler_found command then
           if disabled_by_feature (ip_features P) command then
             thenP (enqueue_slash_ack P x (with_reply x (slash_disabled_body command)))
               (announce [IntakeEvent ''ignored_disabled_slash_command'' []])
           else run_slash_handler P x
         else handle_slash_unknown P x)"

definition lifecycle_text :: "pr_lifecycle \<Rightarrow> string" where
  "lifecycle_text st = (case st of LifeOpen \<Rightarrow> ''open'' | LifeClosed \<Rightarrow> ''closed'' | LifeMerged \<Rightarrow> ''merged'')"

definition closed_state :: "pr_lifecycle option \<Rightarrow> pr_lifecycle option" where
  "closed_state lc = (case lc of Some LifeOpen \<Rightarrow> None | _ \<Rightarrow> lc)"

definition slash_decision :: "slash_input \<Rightarrow> pr_lifecycle option \<Rightarrow> string" where
  "slash_decision inp refused = (case refused of
      None \<Rightarrow> ''slash_'' @ si_command inp
    | Some st \<Rightarrow> ''ignored_slash_review_pr_'' @ lifecycle_text st)"

definition apply_slash_command_intake :: "intake_params \<Rightarrow> slash_input \<Rightarrow> (intake_run, unit) prog" where
  "apply_slash_command_intake P inp =
     bindP (if si_command inp = ''review'' then with_review_intake (ref_key (slash_ref inp)) (\<lambda>lc. returnP (closed_state lc))
            else returnP None) (\<lambda>refused.
       first_time P (si_headers inp) (slash_decision inp refused) (\<lambda>ev. dispatch_slash_command P
         \<lparr>sx_input = inp, sx_event = ev, sx_correlation = job_correlation_of ev (si_headers inp), sx_ref = slash_ref inp,
          sx_refused = refused\<rparr>))"

end
