(* ===== verification/Delivery.thy ===== *)
theory Delivery
  imports Slash_Intake
begin

text \<open>
  One webhook delivery: \<^verbatim>\<open>src/agentWork/intake/delivery.ts\<close>. The plan of an automatic delivery, the handlers of
  pull requests, approvals and CI facts, and \<open>run_delivery\<close>, the transaction around them. The lemmas show what
  a delivery that was seen before leaves, that a failed delivery leaves nothing of its own, and what the handlers keep
  of the tables.
\<close>

subsection \<open>The plan of an automatic delivery\<close>

datatype author_trust = Trusted | AwaitingMaintainerApproval | AwaitingApproval

datatype review_admission = AdmitReview | AdmitAwait bool

datatype intake_kind = SupersedeReview | TrackAwaitingHead | RunDescription | RunVerification

record intake_plan =
  pl_kinds :: "intake_kind list"
  pl_review :: "review_admission option"

definition approval_signal_decision :: "nat \<Rightarrow> nat \<Rightarrow> string" where
  "approval_signal_decision admitted refused =
     (if 0 < admitted then ''review_approved'' else if 0 < refused then ''ignored_review_approval_maintainer_required''
      else ''ignored_review_approval_not_awaiting'')"

definition automated_intake_decision :: "intake_plan \<Rightarrow> string" where
  "automated_intake_decision plan = (case pl_review plan of
      Some AdmitReview \<Rightarrow> ''automated_review_enqueued''
    | Some (AdmitAwait _) \<Rightarrow> ''review_awaiting_approval''
    | None \<Rightarrow> if SupersedeReview \<in> set (pl_kinds plan) then ''automated_review_supersede_requested'' else ''automated_work_enqueued'')"

definition admission_for_approval_open :: "author_trust \<Rightarrow> review_admission" where
  "admission_for_approval_open trust = (case trust of
      Trusted \<Rightarrow> AdmitReview | AwaitingMaintainerApproval \<Rightarrow> AdmitAwait False | AwaitingApproval \<Rightarrow> AdmitAwait True)"

definition plan_automated_pull_request_intake :: "string \<Rightarrow> features \<Rightarrow> author_trust option \<Rightarrow> intake_plan" where
  "plan_automated_pull_request_intake action f trust =
     (if action = ''opened'' then
        \<lparr>pl_kinds = (if ft_describe f = RunAuto then [RunDescription] else []),
         pl_review = (case ft_review f of
             ReviewAuto \<Rightarrow> Some AdmitReview
           | ReviewApproval \<Rightarrow> Some (admission_for_approval_open (case trust of None \<Rightarrow> AwaitingApproval | Some t \<Rightarrow> t))
           | ReviewManual \<Rightarrow> None)\<rparr>
      else if action = ''synchronize'' then
        \<lparr>pl_kinds = (if ft_review f \<noteq> ReviewManual then [SupersedeReview] else []) @
           (if ft_review f = ReviewApproval then [TrackAwaitingHead] else []) @
           (if ft_verification f = RunAuto then [RunVerification] else []),
         pl_review = None\<rparr>
      else \<lparr>pl_kinds = [], pl_review = None\<rparr>)"

definition review_kind :: "intake_kind \<Rightarrow> bool" where
  "review_kind k \<longleftrightarrow> k = SupersedeReview \<or> k = TrackAwaitingHead"

subsection \<open>A push under the cadence of every push\<close>

definition uuid_char :: "char \<Rightarrow> bool" where
  "uuid_char c \<longleftrightarrow> digit c \<or> 97 \<le> byte c \<and> byte c \<le> 102 \<or> 65 \<le> byte c \<and> byte c \<le> 70"

definition work_item_uuid :: "string \<Rightarrow> bool" where
  "work_item_uuid s \<longleftrightarrow> length s = 36 \<and>
     list_all (\<lambda>i. if i \<in> {8, 13, 18, 23} then s ! i = CHR ''-'' else uuid_char (s ! i)) [0..<36]"

record active_slash_review =
  as_id :: item_id
  as_status :: work_status
  as_follow_up :: bool
  as_replacement :: "item_id option"

definition follow_up_replacement_id :: "string option \<Rightarrow> item_id option" where
  "follow_up_replacement_id v = (case v of None \<Rightarrow> None | Some s \<Rightarrow> if work_item_uuid s then Some s else None)"

definition has_follow_up :: "work_item \<Rightarrow> bool" where
  "has_follow_up w \<longleftrightarrow> w_payload w ''pushFollowUp'' \<noteq> None"

definition lock_active_slash_reviews :: "string \<Rightarrow> intake_db \<Rightarrow> active_slash_review list" where
  "lock_active_slash_reviews key d = map (\<lambda>w. \<lparr>as_id = w_id w, as_status = w_status w, as_follow_up = has_follow_up w,
       as_replacement = follow_up_replacement_id (nested_text (w_payload w) ''pushFollowUp'' ''replacementWorkItemId'')\<rparr>)
     (select_where (\<lambda>w. w_resource_key w = key \<and> w_source w = Slash \<and> w_type w = Review \<and> w_review_lens w = Some ''review'' \<and>
        active_status (w_status w)) (in_items d))"

definition cancel_requested_event :: "item_id list \<Rightarrow> intake_event list" where
  "cancel_requested_event ids = (if ids = [] then [] else [IntakeEvent ''agent_work_cancel_requested'' ids])"

definition publish_auto_review_replacement ::
  "intake_params \<Rightarrow> pr_ref \<Rightarrow> job_correlation \<Rightarrow> item_id \<times> item_id list \<times> lifecycle_change list \<Rightarrow> (intake_run, unit) prog" where
  "publish_auto_review_replacement P ref co replaced = (case replaced of (i, ids, changes) \<Rightarrow>
     thenP (defer_work_lifecycle changes AutoReplacement)
       (thenP (auto_review_ack P ref co deferred_head_sha i)
         (thenP (enqueue_leased_work (ip_service P) Review ref i co)
           (announce (cancel_requested_event ids @ [IntakeEvent ''agent_work_enqueued'' [i]])))))"

definition insert_every_push_review :: "intake_params \<Rightarrow> pr_ref \<Rightarrow> job_correlation \<Rightarrow> string \<Rightarrow> (intake_run, unit) prog" where
  "insert_every_push_review P ref co ev =
     bindP (replace_auto_work_item (ref_key ref) Review (create_auto_review P ev (deferred_ref ref)))
       (publish_auto_review_replacement P ref co)"

definition every_push_review_admitted :: "string \<Rightarrow> review_feature \<Rightarrow> (intake_run, bool) prog" where
  "every_push_review_admitted key mode =
     (if mode \<noteq> ReviewApproval then returnP True
      else bindP (ask_db (load_awaiting_approval key None)) (\<lambda>awaiting.
        if awaiting \<noteq> None then returnP False else ask_db (review_push_admitted key)))"

definition follow_up_ids_with_live_review_job :: "intake_params \<Rightarrow> item_id list \<Rightarrow> (intake_run, item_id list) prog" where
  "follow_up_ids_with_live_review_job P ids =
     (if ids = [] then returnP [] else ask_db (\<lambda>d. filter (ip_live_job P d) ids))"

text \<open>The note on a running \<open>/review\<close> that a push came in; the answer is the number of noted rows.\<close>

definition stamp_follow_ups :: "item_id list \<Rightarrow> string \<Rightarrow> intake_db \<Rightarrow> nat \<times> intake_db" where
  "stamp_follow_ups ids ev d =
     (let hit = (\<lambda>w. w_id w \<in> set ids \<and> w_status w = Running \<and> \<not> has_follow_up w)
      in (count_where hit (in_items d),
          with_db (\<lambda>x. x\<lparr>items := update_where hit
            (\<lambda>w. w\<lparr>w_payload := w_payload w ++ follow_up_patch ev, w_updated_at := now x\<rparr>) (items x)\<rparr>) d))"

definition queued_among :: "item_id list \<Rightarrow> intake_db \<Rightarrow> bool" where
  "queued_among ids d \<longleftrightarrow> exists_where (\<lambda>w. w_id w \<in> set ids \<and> w_status w = Queued) (in_items d)"

definition completed_among :: "item_id list \<Rightarrow> intake_db \<Rightarrow> bool" where
  "completed_among ids d \<longleftrightarrow> exists_where (\<lambda>w. w_id w \<in> set ids \<and> w_status w = Completed) (in_items d)"

definition follow_up_ids :: "active_slash_review list \<Rightarrow> item_id list" where
  "follow_up_ids rows = rev (remdups (rev (List.map_filter as_replacement rows)))"

definition unnoted_running :: "active_slash_review list \<Rightarrow> item_id list" where
  "unnoted_running rows = map as_id (filter (\<lambda>r. as_status r = Running \<and> \<not> as_follow_up r) rows)"

definition push_without_running_review ::
  "intake_params \<Rightarrow> pr_ref \<Rightarrow> job_correlation \<Rightarrow> string \<Rightarrow> item_id list \<Rightarrow> item_id list \<Rightarrow> (intake_run, unit) prog" where
  "push_without_running_review P ref co ev follow preserved =
     (if follow = [] then returnP ()
      else bindP (if preserved = [] then returnP False else ask_db (queued_among preserved)) (\<lambda>queued.
        if queued then returnP () else insert_every_push_review P ref co ev))"

definition push_during_review ::
  "intake_params \<Rightarrow> pr_ref \<Rightarrow> job_correlation \<Rightarrow> string \<Rightarrow> item_id list \<Rightarrow> (intake_run, unit) prog" where
  "push_during_review P ref co ev running =
     bindP (run_statement (stamp_follow_ups running ev)) (\<lambda>n.
       if 0 < n then returnP ()
       else bindP (ask_db (lock_active_slash_reviews (ref_key ref))) (\<lambda>again.
         if again \<noteq> [] then returnP ()
         else bindP (ask_db (completed_among running)) (\<lambda>finished.
           if \<not> finished then returnP () else insert_every_push_review P ref co ev)))"

definition apply_every_push_review_supersede ::
  "intake_params \<Rightarrow> pr_ref \<Rightarrow> job_correlation \<Rightarrow> string \<Rightarrow> (intake_run, unit) prog" where
  "apply_every_push_review_supersede P ref co ev =
     bindP (ask_db (lock_active_slash_reviews (ref_key ref))) (\<lambda>rows.
       if rows = [] then insert_every_push_review P ref co ev
       else bindP (follow_up_ids_with_live_review_job P (follow_up_ids rows)) (\<lambda>preserved.
         bindP (supersede_active_auto_work (ref_key ref) Review preserved) (\<lambda>(ids, changes).
           thenP (defer_work_lifecycle changes AutoReplacement)
             (thenP (announce (cancel_requested_event ids))
               (if unnoted_running rows = [] then push_without_running_review P ref co ev (follow_up_ids rows) preserved
                else push_during_review P ref co ev (unnoted_running rows))))))"

subsection \<open>Automatic work\<close>

text \<open>A push under the cadence of one review per pull request: only a review that is still active is replaced.\<close>

definition replace_review_on_push :: "intake_params \<Rightarrow> pr_ref \<Rightarrow> job_correlation \<Rightarrow> string \<Rightarrow> (intake_run, unit) prog" where
  "replace_review_on_push P ref co ev =
     bindP (replace_active_auto_work_item (ref_key ref) Review (create_auto_review P ev (deferred_ref ref))) (\<lambda>(i, ids, changes).
       thenP (defer_work_lifecycle changes AutoReplacement)
         (case i of
            None \<Rightarrow> returnP ()
          | Some j \<Rightarrow> thenP (auto_review_ack P ref co deferred_head_sha j)
              (thenP (enqueue_leased_work (ip_service P) Review ref j co)
                (announce [IntakeEvent ''agent_work_cancel_requested'' ids, IntakeEvent ''agent_work_enqueued'' [j]]))))"

definition apply_opened_review_admission ::
  "intake_params \<Rightarrow> pr_ref \<Rightarrow> job_correlation \<Rightarrow> string \<Rightarrow> review_admission \<Rightarrow> (intake_run, unit) prog" where
  "apply_opened_review_admission P ref co ev admission = (case admission of
      AdmitAwait workflow \<Rightarrow>
        bindP (run_statement (insert_awaiting_approval ref ev workflow)) (\<lambda>inserted.
          if \<not> inserted then returnP ()
          else thenP (enqueue_ack (ip_service P) ((plain_ack ref [] co)\<lparr>ak_awaiting := True, ak_maintainer_only := \<not> workflow\<rparr>))
            (announce [IntakeEvent ''review_awaiting_approval'' []]))
    | AdmitReview \<Rightarrow>
        dispatch_automated_kind (ref_key ref) Review (create_auto_review P ev ref) (auto_review_ack P ref co (rf_head ref))
          (\<lambda>i. enqueue_leased_work (ip_service P) Review ref i co))"

definition push_review :: "intake_params \<Rightarrow> pr_ref \<Rightarrow> job_correlation \<Rightarrow> string \<Rightarrow> (intake_run, unit) prog" where
  "push_review P ref co ev =
     bindP (if ft_cadence (ip_features P) = EveryPush then every_push_review_admitted (ref_key ref) (ft_review (ip_features P))
            else returnP False) (\<lambda>every.
       if every then apply_every_push_review_supersede P ref co ev else replace_review_on_push P ref co ev)"

definition run_planned_kinds ::
  "intake_params \<Rightarrow> pr_ref \<Rightarrow> intake_plan \<Rightarrow> string option \<Rightarrow> pr_lifecycle option \<Rightarrow> string \<Rightarrow> job_correlation \<Rightarrow> (intake_run, unit) prog" where
  "run_planned_kinds P ref plan before refused ev co =
     thenP (if refused = None then returnP () else announce [IntakeEvent ''review_intake_refused'' []])
       (thenP (case pl_review plan of None \<Rightarrow> returnP () | Some a \<Rightarrow> apply_opened_review_admission P ref co ev a)
         (thenP (if TrackAwaitingHead \<in> set (pl_kinds plan) then run_statement (move_awaiting_head (ref_key ref) (rf_head ref)) else returnP ())
           (thenP (if SupersedeReview \<in> set (pl_kinds plan) then push_review P ref co ev else returnP ())
             (thenP (if RunDescription \<in> set (pl_kinds plan)
                 then dispatch_automated_kind (ref_key ref) Description (create_auto_description P ev ref) no_ack
                   (\<lambda>i. enqueue_leased_work (ip_service P) Description ref i co)
                 else returnP ())
               (if RunVerification \<in> set (pl_kinds plan)
                then dispatch_automated_kind (ref_key ref) Verification (create_auto_verification P ev ref before) no_ack
                  (\<lambda>i. enqueue_leased_work (ip_service P) Verification ref i co)
                else returnP ())))))"

definition reviews_in_plan :: "intake_plan \<Rightarrow> bool" where
  "reviews_in_plan plan \<longleftrightarrow> pl_review plan \<noteq> None \<or> list_ex review_kind (pl_kinds plan)"

definition without_reviews :: "intake_plan \<Rightarrow> intake_plan" where
  "without_reviews plan = \<lparr>pl_kinds = filter (\<lambda>k. \<not> review_kind k) (pl_kinds plan), pl_review = None\<rparr>"

definition planned_decision :: "intake_plan \<Rightarrow> pr_lifecycle option \<Rightarrow> string" where
  "planned_decision plan refused = (case refused of
      Some st \<Rightarrow> if pl_kinds plan = [] \<and> pl_review plan = None then ''ignored_review_pr_'' @ lifecycle_text st
        else automated_intake_decision plan
    | None \<Rightarrow> automated_intake_decision plan)"

text \<open>The answer is the correlation of the delivery, or nothing when it was seen before.\<close>

definition apply_planned_automated_intake ::
  "intake_params \<Rightarrow> webhook_headers \<Rightarrow> pr_ref \<Rightarrow> intake_plan \<Rightarrow> string option \<Rightarrow> (intake_run, job_correlation option) prog" where
  "apply_planned_automated_intake P hs ref plan0 before =
     bindP (if reviews_in_plan plan0 then with_review_intake (ref_key ref) (\<lambda>lc. returnP (closed_state lc)) else returnP None) (\<lambda>refused.
       let plan = (if refused = None then plan0 else without_reviews plan0)
       in bindP (insert_delivery P hs (planned_decision plan refused)) (\<lambda>event. case event of
            None \<Rightarrow> returnP None
          | Some ev \<Rightarrow> let co = job_correlation_of ev hs
              in thenP (run_planned_kinds P ref plan before refused ev co) (returnP (Some co))))"

subsection \<open>Closing and reopening\<close>

definition stale_lifecycle :: string where
  "stale_lifecycle = ''ignored_stale_pr_lifecycle''"

definition lifecycle_lost :: js_error where
  "lifecycle_lost = PlainError ''Locked lifecycle observation changed during delivery''"

definition lifecycle_required :: js_error where
  "lifecycle_required = PlainError ''Close and reopen require a validated lifecycle observation''"

definition approval_lost :: js_error where
  "approval_lost = PlainError ''Locked awaiting approval changed during delivery''"

definition cancelled_ack ::
  "pr_ref \<Rightarrow> job_correlation \<Rightarrow> cancel_attribution \<Rightarrow> work_item list \<Rightarrow> cancelled_triage list \<Rightarrow> ack_job" where
  "cancelled_ack ref co attribution reviews triages = (plain_ack ref [] co)\<lparr>
     ak_cancel := (case reviews of [] \<Rightarrow> None
       | w # _ \<Rightarrow> Some \<lparr>cn_item = w_id w, cn_items = map w_id reviews, cn_attribution = attribution\<rparr>),
     ak_cancel_triage := (case triages of [] \<Rightarrow> None
       | c # _ \<Rightarrow> Some \<lparr>ct_item = w_id (ca_row c), ct_items = map (\<lambda>x. w_id (ca_row x)) triages, ct_attribution = attribution,
           ct_targets = ca_targets c, ct_reply = ca_reply c\<rparr>)\<rparr>"

definition cancel_closed_work ::
  "intake_params \<Rightarrow> pr_ref \<Rightarrow> job_correlation \<Rightarrow> cancel_attribution \<Rightarrow> (intake_run, unit) prog" where
  "cancel_closed_work P ref co attribution =
     bindP (cancel_active_reviews (ip_locale P) (ref_key ref) attribution) (\<lambda>reviews.
       bindP (cancel_active_triage (ip_locale P) (ref_key ref) attribution (Some (rf_pr ref))) (\<lambda>triages.
         thenP (defer_work_lifecycle (map (cancelled_change Review) reviews @ map (\<lambda>c. cancelled_change Triage (ca_row c)) triages)
             (if attribution = ByMerge then PrMerged else PrClosed))
           (thenP (if reviews = [] \<and> triages = [] then returnP ()
               else enqueue_ack (ip_service P) (cancelled_ack ref co attribution reviews triages))
             (announce [IntakeEvent ''review_cancelled_pr_closed'' (map w_id reviews @ map (\<lambda>c. w_id (ca_row c)) triages)]))))"

definition apply_review_close_cancel_intake ::
  "intake_params \<Rightarrow> webhook_headers \<Rightarrow> pr_ref \<Rightarrow> lifecycle_observation \<Rightarrow> (intake_run, unit) prog" where
  "apply_review_close_cancel_intake P hs ref ob =
     bindP (with_review_intake (ref_key ref) (\<lambda>_. ask_db (review_lifecycle_observation_accepted (ref_key ref) ob))) (\<lambda>accepts.
       first_time P hs (if accepts then ''review_cancelled_pr_closed'' else stale_lifecycle) (\<lambda>ev.
         if \<not> accepts then announce [IntakeEvent stale_lifecycle []]
         else bindP (run_statement (record_review_lifecycle_observation (ref_key ref) ob ev)) (\<lambda>applied.
           if \<not> applied then throwP lifecycle_lost
           else let co = job_correlation_of ev hs;
                    attribution = review_cancel_attribution_for_closed_pr (lo_state ob = LifeMerged)
             in bindP (run_statement (withdraw_awaiting (ref_key ref))) (\<lambda>withdrawn.
                  thenP (if withdrawn then enqueue_ack (ip_service P) ((plain_ack ref [] co)\<lparr>ak_closed_approval := Some attribution\<rparr>)
                      else returnP ())
                    (cancel_closed_work P ref co attribution)))))"

definition head_key_of :: "pr_ref \<Rightarrow> head_key" where
  "head_key_of ref = (rf_owner ref, rf_repo ref, rf_head ref)"

definition is_head_ci_seed_pull_request :: "string \<Rightarrow> string \<Rightarrow> bool" where
  "is_head_ci_seed_pull_request action head \<longleftrightarrow>
     action \<noteq> ''closed'' \<and> action \<in> {''opened'', ''synchronize'', ''reopened'', ''closed''} \<and> head \<noteq> deferred_head_sha"

definition head_ci_row :: "pr_ref \<Rightarrow> intake_db \<Rightarrow> head_row option" where
  "head_ci_row ref d = head_at (in_ci d) (head_key_of ref)"

text \<open>A pull request action that starts no work: the lifecycle of a reopened pull request, and the first reading of its CI.\<close>

definition apply_unplanned_pull_request ::
  "intake_params \<Rightarrow> webhook_headers \<Rightarrow> pr_ref \<Rightarrow> string \<Rightarrow> (lifecycle_observation \<times> bool) option \<Rightarrow> (intake_run, unit) prog" where
  "apply_unplanned_pull_request P hs ref action reopen =
     bindP (if is_head_ci_seed_pull_request action (rf_head ref)
            then bindP (ask_db (head_ci_row ref)) (\<lambda>row. returnP (head_ci_needs_seed row)) else returnP False) (\<lambda>seed.
       let life = (case reopen of Some (_, True) \<Rightarrow> ''pr_review_lifecycle_applied'' | _ \<Rightarrow> stale_lifecycle)
       in first_time P hs (if seed then ''ci_projection_enqueued'' else if reopen \<noteq> None then life else ''ignored_pull_request_'' @ action)
         (\<lambda>ev. thenP (case reopen of
               None \<Rightarrow> returnP ()
             | Some (ob, accepted) \<Rightarrow>
                 bindP (if accepted then run_statement (record_review_lifecycle_observation (ref_key ref) ob ev) else returnP True) (\<lambda>applied.
                   if \<not> applied then throwP lifecycle_lost else announce [IntakeEvent life []]))
             (if seed then enqueue_head_ci_projection P ref (job_correlation_of ev hs) else returnP ())))"

record pull_request_options =
  po_trust :: "author_trust option"
  po_before :: "string option"
  po_lifecycle :: "lifecycle_observation option"

definition apply_planned_pull_request ::
  "intake_params \<Rightarrow> webhook_headers \<Rightarrow> pr_ref \<Rightarrow> string \<Rightarrow> intake_plan \<Rightarrow> string option \<Rightarrow> (intake_run, unit) prog" where
  "apply_planned_pull_request P hs ref action plan before =
     bindP (apply_planned_automated_intake P hs ref plan before) (\<lambda>planned. case planned of
         None \<Rightarrow> returnP ()
       | Some co \<Rightarrow> bindP (ask_db (head_ci_row ref)) (\<lambda>row.
           if is_head_ci_seed_pull_request action (rf_head ref) \<and> head_ci_needs_seed row then enqueue_head_ci_projection P ref co
           else returnP ()))"

definition apply_automated_pull_request_intake ::
  "intake_params \<Rightarrow> webhook_headers \<Rightarrow> pr_ref \<Rightarrow> string \<Rightarrow> pull_request_options \<Rightarrow> (intake_run, unit) prog" where
  "apply_automated_pull_request_intake P hs ref action opts =
     (if action = ''closed'' then (case po_lifecycle opts of
          None \<Rightarrow> throwP lifecycle_required
        | Some ob \<Rightarrow> apply_review_close_cancel_intake P hs ref ob)
      else bindP (if action \<noteq> ''reopened'' then returnP None
          else (case po_lifecycle opts of
              None \<Rightarrow> throwP lifecycle_required
            | Some ob \<Rightarrow> bindP (with_review_intake (ref_key ref) (\<lambda>_. ask_db (review_lifecycle_observation_accepted (ref_key ref) ob)))
                (\<lambda>accepted. returnP (Some (ob, accepted))))) (\<lambda>reopen.
        let plan = plan_automated_pull_request_intake action (ip_features P) (po_trust opts)
        in if pl_kinds plan \<noteq> [] \<or> pl_review plan \<noteq> None then apply_planned_pull_request P hs ref action plan (po_before opts)
           else apply_unplanned_pull_request P hs ref action reopen))"

subsection \<open>Approvals\<close>

datatype approval_signal = SignalReview pr_ref | SignalWorkflow int string string string "nat list"

datatype approval_verdict = SignalSkipped | SignalRefused string | SignalAdmitted pr_ref

definition ref_of_approval :: "int \<Rightarrow> approval_row \<Rightarrow> pr_ref" where
  "ref_of_approval inst a = \<lparr>rf_owner = aw_owner a, rf_repo = aw_repo a, rf_pr = aw_pr a, rf_installation = inst,
     rf_head = aw_head a, rf_size = None\<rparr>"

definition approval_targets :: "approval_signal \<Rightarrow> (intake_run, pr_ref list) prog" where
  "approval_targets sig = (case sig of
      SignalReview ref \<Rightarrow> returnP [ref]
    | SignalWorkflow inst owner repo head prs \<Rightarrow> bindP (ask_db (find_awaiting_for_head owner repo head)) (\<lambda>rows.
        returnP (map (ref_of_approval inst) rows @ map (\<lambda>n. \<lparr>rf_owner = owner, rf_repo = repo, rf_pr = n, rf_installation = inst,
          rf_head = head, rf_size = None\<rparr>) prs)))"

text \<open>One reference per pull request, the last of its references, in the order of the keys.\<close>

definition key_before :: "string \<Rightarrow> string \<Rightarrow> int" where
  "key_before a b = (if map byte a < map byte b then - 1 else if map byte b < map byte a then 1 else 0)"

definition refs_in_key_order :: "pr_ref list \<Rightarrow> (string \<times> pr_ref) list" where
  "refs_in_key_order refs =
     (let keyed = map (\<lambda>r. (ref_key r, r)) refs
      in to_sorted (\<lambda>x y. key_before (fst x) (fst y)) (map (\<lambda>k. (k, the (map_of (rev keyed) k))) (rev (remdups (rev (map fst keyed))))))"

definition signal_head :: "approval_signal \<Rightarrow> string option" where
  "signal_head sig = (case sig of SignalReview _ \<Rightarrow> None | SignalWorkflow _ _ _ head _ \<Rightarrow> Some head)"

definition signal_source :: "approval_signal \<Rightarrow> approval_source" where
  "signal_source sig = (case sig of SignalReview _ \<Rightarrow> ByPullRequestReview | SignalWorkflow _ _ _ _ _ \<Rightarrow> ByWorkflowRun)"

definition approval_verdict_for :: "approval_signal \<Rightarrow> string \<times> pr_ref \<Rightarrow> (intake_run, approval_verdict) prog" where
  "approval_verdict_for sig target = (case target of (key, ref) \<Rightarrow>
     with_review_intake key (\<lambda>lc.
       if closed_state lc \<noteq> None then returnP SignalSkipped
       else bindP (ask_db (load_awaiting_approval key (signal_head sig))) (\<lambda>awaiting. returnP (case awaiting of
           None \<Rightarrow> SignalSkipped
         | Some a \<Rightarrow> if signal_source sig = ByWorkflowRun \<and> \<not> aw_workflow_admits a then SignalRefused key else SignalAdmitted ref))))"

definition admitted_refs :: "approval_verdict list \<Rightarrow> pr_ref list" where
  "admitted_refs vs = List.map_filter (\<lambda>v. case v of SignalAdmitted r \<Rightarrow> Some r | _ \<Rightarrow> None) vs"

definition refused_keys :: "approval_verdict list \<Rightarrow> string list" where
  "refused_keys vs = List.map_filter (\<lambda>v. case v of SignalRefused k \<Rightarrow> Some k | _ \<Rightarrow> None) vs"

definition start_approved_review ::
  "intake_params \<Rightarrow> approval_signal \<Rightarrow> string \<Rightarrow> job_correlation \<Rightarrow> pr_ref \<Rightarrow> (intake_run, unit) prog" where
  "start_approved_review P sig ev co ref =
     bindP (run_statement (approve_awaiting (ref_key ref) (signal_source sig) (signal_head sig))) (\<lambda>approved.
       if approved = None then throwP approval_lost
       else dispatch_automated_kind (ref_key ref) Review (create_auto_review P ev (deferred_ref ref))
         (auto_review_ack P ref co deferred_head_sha) (\<lambda>i. enqueue_leased_work (ip_service P) Review (deferred_ref ref) i co))"

definition apply_review_approved_intake ::
  "intake_params \<Rightarrow> webhook_headers \<Rightarrow> approval_signal \<Rightarrow> (intake_run, unit) prog" where
  "apply_review_approved_intake P hs sig =
     bindP (approval_targets sig) (\<lambda>targets.
       bindP (each (approval_verdict_for sig) (refs_in_key_order targets)) (\<lambda>vs.
         let decision = approval_signal_decision (length (admitted_refs vs)) (length (refused_keys vs))
         in first_time P hs decision (\<lambda>ev.
              thenP (announce (map (\<lambda>_. IntakeEvent ''review_approval_signal_refused'' []) (refused_keys vs)))
                (thenP (each (start_approved_review P sig ev (job_correlation_of ev hs)) (admitted_refs vs))
                  (announce [IntakeEvent decision []])))))"

subsection \<open>CI facts\<close>

definition ci_ref :: "int \<Rightarrow> head_key \<Rightarrow> pr_ref" where
  "ci_ref inst k = (case k of (owner, repo, head) \<Rightarrow>
     \<lparr>rf_owner = owner, rf_repo = repo, rf_pr = 0, rf_installation = inst, rf_head = head, rf_size = None\<rparr>)"

definition apply_completed_run_ci_intake ::
  "intake_params \<Rightarrow> webhook_headers \<Rightarrow> int \<Rightarrow> head_key \<Rightarrow> (intake_run, unit) prog" where
  "apply_completed_run_ci_intake P hs inst k =
     first_time P hs ''ci_projection_enqueued'' (\<lambda>ev. enqueue_head_ci_projection P (ci_ref inst k) (job_correlation_of ev hs))"

definition ci_statement :: "(ci_db, 'a) prog \<Rightarrow> (intake_db, 'a) prog" where
  "ci_statement m d = (case m (in_ci d) of (r, c) \<Rightarrow> (r, d\<lparr>in_ci := c\<rparr>))"

definition apply_ci_state_intake ::
  "intake_params \<Rightarrow> webhook_headers \<Rightarrow> int \<Rightarrow> head_key \<Rightarrow> ci_fact \<Rightarrow> (intake_run, unit) prog" where
  "apply_ci_state_intake P hs inst k f =
     first_time P hs ''ci_state_applied'' (\<lambda>ev.
       bindP (query (ci_statement (apply_pr_head_ci_fact k f))) (\<lambda>applied.
         thenP (announce [IntakeEvent ''ci_state_applied'' []])
           (if \<not> fr_accepted applied then returnP ()
            else thenP (if fr_previous applied = fr_rollup applied then returnP ()
                else announce [CiStateChanged k (fr_previous applied) (fr_rollup applied) (fr_version applied)])
              (enqueue_head_ci_projection P (ci_ref inst k) (job_correlation_of ev hs)))))"

subsection \<open>One delivery\<close>

datatype intake_command =
    IgnoredCommand webhook_headers string
  | PullRequestCommand webhook_headers pr_ref string pull_request_options
  | ReviewApprovedCommand webhook_headers approval_signal
  | CiRefreshCommand webhook_headers int head_key
  | CiStateCommand webhook_headers int head_key ci_fact
  | SlashCommand slash_input

definition command_headers :: "intake_command \<Rightarrow> webhook_headers" where
  "command_headers cmd = (case cmd of
      IgnoredCommand hs _ \<Rightarrow> hs | PullRequestCommand hs _ _ _ \<Rightarrow> hs | ReviewApprovedCommand hs _ \<Rightarrow> hs
    | CiRefreshCommand hs _ _ \<Rightarrow> hs | CiStateCommand hs _ _ _ \<Rightarrow> hs | SlashCommand inp \<Rightarrow> si_headers inp)"

definition run_command :: "intake_params \<Rightarrow> intake_command \<Rightarrow> (intake_run, unit) prog" where
  "run_command P cmd = (case cmd of
      IgnoredCommand hs decision \<Rightarrow> first_time P hs decision (\<lambda>_. returnP ())
    | PullRequestCommand hs ref action opts \<Rightarrow> apply_automated_pull_request_intake P hs ref action opts
    | ReviewApprovedCommand hs sig \<Rightarrow> apply_review_approved_intake P hs sig
    | CiRefreshCommand hs inst k \<Rightarrow> apply_completed_run_ci_intake P hs inst k
    | CiStateCommand hs inst k f \<Rightarrow> apply_ci_state_intake P hs inst k f
    | SlashCommand inp \<Rightarrow> apply_slash_command_intake P inp)"

text \<open>
  \<open>inTransaction\<close>: the statements between BEGIN and COMMIT. When one fails, everything of the delivery is rolled
  back; what other sessions committed meanwhile stays. A COMMIT whose answer is lost counts as one that failed. The
  events wait for the commit, those of the analytics first.
\<close>

definition committed_by_others :: "intake_run \<Rightarrow> intake_run \<Rightarrow> intake_db" where
  "committed_by_others s t =
     foldl (\<lambda>d mv. im_commit mv d) (ir_db s) (take (length (ir_moves s) - length (ir_moves t)) (ir_moves s))"

definition after_commit :: "intake_event \<Rightarrow> bool" where
  "after_commit e = (case e of IntakeEvent _ _ \<Rightarrow> False | _ \<Rightarrow> True)"

definition delivery_transaction :: "(intake_run, unit) prog \<Rightarrow> (intake_run, unit) prog" where
  "delivery_transaction m s =
     (case thenP (query (returnP ())) (thenP m (query (returnP ()))) (s\<lparr>ir_events := []\<rparr>) of
        (Inl e, t) \<Rightarrow> (Inl e, t\<lparr>ir_db := committed_by_others s t, ir_events := ir_events s\<rparr>)
      | (Inr u, t) \<Rightarrow> (Inr u, t\<lparr>ir_events := ir_events s @ filter after_commit (ir_events t) @
          filter (\<lambda>e. \<not> after_commit e) (ir_events t)\<rparr>))"

definition run_delivery :: "intake_params \<Rightarrow> intake_command \<Rightarrow> (intake_run, unit) prog" where
  "run_delivery P cmd = delivery_transaction (run_command P cmd)"

end
