(* ===== verification/Spec2Isabelle.thy ===== *)
theory Spec2Isabelle
  imports Leased_Execution Protocol Ask_Rate Runtime_Limits Finding_Lifecycle Duplicate_Cleanup
    Verification_Ledger Durable_Job Delivery
begin

text \<open>
  A verification development for pr-agent, a GitHub App that reviews pull requests. Webhook
  deliveries become work items in PostgreSQL; workers take a work item under the lease of its pull
  request, run language-model agents on it and publish what they find. The development models the
  part that has to be right when workers crash, lose their lease or retry (\<^verbatim>\<open>src/agentWork\<close>), the
  limits that bound a run, and the way from findings to inline comments.

  \<^bold>\<open>Parts and theories\<close>

  \<^item> \<open>Prelude\<close>: thrown errors (\<^verbatim>\<open>src/errors/appError.ts\<close>), programs as state transformers that end
    with an error or a value, \<open>inTransaction\<close>, and a PostgreSQL table as the list of its rows with
    one function for each kind of statement. Shared lemmas are in \<open>prog_defs\<close> and \<open>table_simps\<close>;
    \<open>invariant_machine\<close> and \<open>monotone_machine\<close> are the contracts of operations that keep a
    property of the state or never lower a measure of it.
  \<^item> \<open>Database\<close>: the rows of the tables (work items, leases, operation intents, jobs, publish
    records) and the database as one record with the clock of the server.
  \<^item> \<open>Lease\<close>: \<^verbatim>\<open>prActorLease.ts\<close>, \<^verbatim>\<open>writeFence.ts\<close>, \<^verbatim>\<open>fencedWrite.ts\<close>. Every statement on the
    lease row, the fences and the watchdog hop.
  \<^item> \<open>Work_Items\<close>: \<^verbatim>\<open>workItemTransitions.ts\<close>, \<^verbatim>\<open>workItemStateRepository.ts\<close>. The builder of
    conditional updates and every operation on the status of a work item.
  \<^item> \<open>Leased_Execution\<close>: \<^verbatim>\<open>leasedExecution.ts\<close>. Taking lease and work item in one transaction, the
    renewal and cancellation timers as steps, the marks and the release.
  \<^item> \<open>Durable_Job\<close>: \<^verbatim>\<open>durableJob.ts\<close>, \<^verbatim>\<open>retryPolicy.ts\<close>. The run of one job from the claim to the
    release; every query may find what other sessions committed, a fired timer, an aborted job or a
    failure, and the locale \<open>log_monitor\<close> carries an invariant of the log through all of it.
  \<^item> \<open>Intents\<close>: \<^verbatim>\<open>operationIntentRepository.ts\<close>, \<^verbatim>\<open>reconcilePendingIntents.ts\<close>. The write-ahead
    record of a GitHub mutation.
  \<^item> \<open>Publish_Once\<close>: \<open>publishOnce\<close> of \<^verbatim>\<open>publishOnce.ts\<close> with all its paths, over the locale
    \<open>publish_intent_store\<close> that \<open>postgres\<close> instantiates with the statements of \<open>Intents\<close>.
  \<^item> \<open>Protocol\<close>: several executions of one operation as a step relation over the same statements.
  \<^item> \<open>Publish_Records\<close>: the record writers, readers and \<open>createPublishContext\<close> of
    \<^verbatim>\<open>publishOnce.ts\<close>, the check run statements of \<^verbatim>\<open>publishRecordRepository.ts\<close>, the transfer
    of a progress comment (\<^verbatim>\<open>intake/workItemRepository.ts\<close>).
  \<^item> \<open>Own_Verdict\<close>: the selection and application of the verdict of a review
    (\<^verbatim>\<open>publishRecordRepository.ts\<close>).
  \<^item> \<open>Publish_Ledger\<close>: the abstraction of the records to a map from slots to entries, the refinement
    and the invariants proved on it through the locale \<open>ledger_relation\<close>.
  \<^item> \<open>Publish_Resume\<close>: the schema of a finding (\<^verbatim>\<open>reviewSchema.ts\<close>), the stored batch
    (\<^verbatim>\<open>publishFindingBatch.ts\<close>) and what a restarted review reads back.
  \<^item> \<open>Operation_Keys\<close>: the keys of \<^verbatim>\<open>publishOnce.ts\<close>.
  \<^item> \<open>Verification_Ledger\<close>: \<^verbatim>\<open>verificationThreadLedger.ts\<close> and \<open>findCompletedPublishRecordId\<close> of
    \<^verbatim>\<open>reconcilePendingIntents.ts\<close>.
  \<^item> \<open>Ci_Facts\<close>: \<^verbatim>\<open>ciFacts.ts\<close>. The facts about the checks of a commit, their classification, the merge
    of deliveries and listings, and the summary.
  \<^item> \<open>Github_Capabilities\<close>: \<^verbatim>\<open>installationCapabilities.ts\<close>, \<^verbatim>\<open>githubCapabilityRepository.ts\<close>. What an
    installation may do, and which sources of a head can be read.
  \<^item> \<open>Head_Ci\<close>: \<^verbatim>\<open>prHeadCiState.ts\<close>. The row of a head; \<open>ci_step\<close> runs any statement on these tables,
    and the locale \<open>state_order\<close> is the contract of an order that every statement respects.
  \<^item> \<open>Ask_Quota\<close>, \<open>Ask_Rate\<close>: \<^verbatim>\<open>askQuota.ts\<close> and the trigger of its migration. The buckets that
    admit an ask, its reservation, the charge of its usage and the retention; the token rate.
  \<^item> \<open>Runtime_Limits\<close>: \<^verbatim>\<open>rateLimitCircuit.ts\<close>, \<^verbatim>\<open>sharedRateLimitCircuit.ts\<close>,
    \<^verbatim>\<open>turnToolBudget.ts\<close>.
  \<^item> \<open>Diff_Index\<close>: \<^verbatim>\<open>reviewDiffIndex.ts\<close>. The scan of a patch and the anchor of a finding.
  \<^item> \<open>Placement\<close>: \<^verbatim>\<open>reviewSchema.ts\<close> (severities), \<^verbatim>\<open>reviewFindingSort.ts\<close>,
    \<^verbatim>\<open>reviewDiffPlacement.ts\<close>, \<^verbatim>\<open>reviewInlinePublish.ts\<close>.
  \<^item> \<open>Js_Text\<close>: text as UTF-8 bytes, white space, lines, \<open>encodeURIComponent\<close>, simple patterns.
  \<^item> \<open>Finding_Markers\<close>: \<^verbatim>\<open>findingMarker.ts\<close>. The identities of findings and their markers in comments.
  \<^item> \<open>Finding_Inventory\<close>: \<^verbatim>\<open>findingInventory.ts\<close>. The findings that the comments of a pull request hold.
  \<^item> \<open>Finding_Reconcile\<close>: \<^verbatim>\<open>findingReconcile.ts\<close>. What becomes of a new observation.
  \<^item> \<open>Finding_Lifecycle\<close>: \<^verbatim>\<open>findingLifecycle.ts\<close>, the ledger of \<^verbatim>\<open>orchestratorTypes.ts\<close>. The view of a run
    and the check.
  \<^item> \<open>Duplicate_Cleanup\<close>: \<^verbatim>\<open>duplicateCleanup.ts\<close>, \<^verbatim>\<open>resolutionReceipt.ts\<close>.

  \<^bold>\<open>State and effects\<close>

  An SQL statement is one atomic step on the record \<open>db\<close>; a function of several statements is a
  program whose statements other sessions may interleave. \<open>Publish_Once\<close> makes the interleaving
  explicit: before every access to the store the schedule of the \<open>world\<close> may commit what other
  sessions did. Errors are values of \<open>js_error\<close>. Timestamps and epochs are integers; line numbers
  and attempt counters are exact, far below the range in which JavaScript numbers round.

  \<^bold>\<open>What the lemmas show\<close>

  \<^item> Leases: when an acquire succeeds, that the epoch of a key only grows, that an epoch once passed
    is never the holder again, and that two holders of a key are one.
  \<^item> Work items: a terminal status is never left; a claim, an attempt and a mark change exactly what
    they say; an execution without its lease writes nothing; attempts stay within their limit.
  \<^item> Jobs: the executor starts only under the lease of the run; a job leaves no timer and no lease
    behind; how an error settles the item; a refused deferral leaves a queued item without a job.
  \<^item> Intents and publishing: a settled intent stays settled and is never sent again; one call mutates
    at most once, behind a gate that holds the lease; a retry answers the stored result; a failure is
    recorded as rejected only with proof. Across interleaved executions the outside world accepts an
    operation at most once, as long as no renewal revives an expired lease; a concrete schedule shows
    what goes wrong when one does.
  \<^item> Records: every statement is one step on the entry of its slot; no statement loses a published
    batch; the owner of a progress comment changes only with its generation; a summary is claimed once;
    a selected verdict is never replaced; stored batches and ledgers are read back as written;
    operations have keys of their own; the record of a specialist's batch never proves its intent.
  \<^item> Checks of a head: the stored rollup is the classification of the stored facts; deliveries commute;
    under one version a reader sees one state; a denied permission stays denied until it is granted; two
    checks of one name can hide a failure.
  \<^item> Quota: the counters of every bucket are the sums over its live reservations whatever operations
    run, so the limits hold; admissions keep to burst and refill; an execution is charged once;
    retention ends and deletes exactly what is expired.
  \<^item> Limits: when the circuit opens and closes, that openings shared by the runs of an installation
    are never shortened, and that a session ends within its tool budget plus two turns.
  \<^item> Placement: scanning inverts printing on hunks whose lines do not look like file headers (and
    fails on one that does), the anchor is the least commentable line, the cap keeps the most severe
    findings, and the publishing loop ends, loses nothing and reports what was accepted.
  \<^item> Findings: markers are read back as rendered and cannot be forged by neutralised text; the inventory
    keeps the oldest thread of each identity; a thread is opened only when every finding nearby is
    accounted for; the view lists every open finding once and the check fails exactly for a severe one;
    a duplicate is resolved only directly after a read without human replies.

  \<^bold>\<open>Parameters\<close>

  The queue service (pg-boss), GitHub and the code that callers pass in are arguments of the
  definitions; an executor is the tree of the calls that it makes. The laws assumed of them are the hypotheses of the theorems that use them, each with a
  concrete instance. \<open>localeCompare\<close> is assumed to be a consistent comparator (\<open>sort_order\<close>). Random
  bytes and SHA-256 are arguments. No definition uses fuel: loops recurse on a list or have a
  termination proof, and the retention loop is a partial function that is proved to return.

  \<^bold>\<open>Not modelled\<close>

  The agents and their prompts, the sandbox for model-written scripts, git workspaces, the webhook
  server, rendering, telemetry and settings: effects outside the program's own state, or text. The
  following carry logic and come next, in this order: intake (\<^verbatim>\<open>delivery.ts\<close>,
  \<^verbatim>\<open>slashIntake.ts\<close>) and the durable job runner with the retry policy.
\<close>

end
